(* ===== verification/Go_Prelude.thy ===== *)
theory Go_Prelude
  imports
    Main
    "HOL-Library.Word"
    "HOL-Library.Multiset"
    "HOL-Library.AList"
    "HOL-Library.Char_ord"
    "HOL-Library.List_Lexorder"
    "HOL-Library.Product_Lexorder"
begin

unbundle bit_operations_syntax

text \<open>
  What the components share: the parts of Go and of its standard library that the source uses
  (\<open>time.Time\<close>, \<open>time.Duration\<close>, error results, \<open>strings\<close>, \<open>slices\<close> sorting by a three-way
  comparison, maps), with the generic lemmas about them.

  \<^item> A \<open>time.Time\<close> is the integer number of nanoseconds since Go's zero time (1 January of year 1,
    UTC), so the zero time is 0 and \<open>IsZero\<close> is equality with 0. A \<open>time.Duration\<close> is an \<open>int64\<close>
    count of nanoseconds kept as an \<open>int\<close>; \<open>Time.Sub\<close> saturates at the two ends of \<open>int64\<close>.
  \<^item> A Go string is a byte sequence, which is exactly Isabelle's \<open>string\<close>; the lexicographic order
    of the library is the byte order of \<open>strings.Compare\<close> and of \<open><\<close> on Go strings.
  \<^item> A Go \<open>map\<close> that the code iterates over is an association list (\<open>map_of\<close>, \<open>AList.update\<close>):
    the order of the list stands for the iteration order, which Go leaves open, and the lemmas
    show where the result does not depend on it.
  \<^item> A result \<open>(T, error)\<close> is a sum with the error on the left.
\<close>

section \<open>Proof collections\<close>

named_theorems go_simps
  \<comment> \<open>unfolding rules of the small Go primitives\<close>

section \<open>Error results\<close>

text \<open>
  The errors of the stream components carry the constant part of the message the code formats, and
  \<open>fmt.Errorf ... %w\<close> wraps an inner error.
\<close>

datatype go_error = Errorf string | Wrapf string go_error

type_synonym 'a result = "go_error + 'a"

definition wrap_err :: "string \<Rightarrow> 'a result \<Rightarrow> 'a result" where
  "wrap_err msg r = (case r of Inl e \<Rightarrow> Inl (Wrapf msg e) | Inr x \<Rightarrow> Inr x)"

definition bind_res :: "('e + 'a) \<Rightarrow> ('a \<Rightarrow> 'e + 'b) \<Rightarrow> 'e + 'b" where
  "bind_res r f = (case r of Inl e \<Rightarrow> Inl e | Inr x \<Rightarrow> f x)"

lemma bind_res_simps [simp, go_simps]:
  "bind_res (Inl e) f = Inl e" "bind_res (Inr x) f = f x"
  by (simp_all add: bind_res_def)

lemma bind_res_Inr_iff [go_simps]: "bind_res r f = Inr y \<longleftrightarrow> (\<exists>x. r = Inr x \<and> f x = Inr y)"
  by (cases r) auto

lemma wrap_err_Inr_iff [simp, go_simps]: "wrap_err m r = Inr y \<longleftrightarrow> r = Inr y"
  by (cases r) (auto simp: wrap_err_def)

lemma wrap_err_simps [simp]:
  "wrap_err m (Inr x) = Inr x" "wrap_err m (Inl e) = Inl (Wrapf m e)"
  by (simp_all add: wrap_err_def)

section \<open>Time and duration\<close>

type_synonym time = int
type_synonym duration = int

definition max_int64 :: int where "max_int64 = 2 ^ 63 - 1"
definition min_int64 :: int where "min_int64 = - (2 ^ 63)"

definition is_zero_time :: "time \<Rightarrow> bool" where
  [simp]: "is_zero_time t \<longleftrightarrow> t = 0"

text \<open>\<open>Time.Sub\<close>: the difference, saturated to the range of \<open>time.Duration\<close>.\<close>

definition time_sub :: "time \<Rightarrow> time \<Rightarrow> duration" where
  "time_sub a b = max min_int64 (min max_int64 (a - b))"

text \<open>Two's complement negation of an \<open>int64\<close>: only the least value wraps.\<close>

definition neg_duration :: "duration \<Rightarrow> duration" where
  "neg_duration d = (if d = min_int64 then min_int64 else - d)"

lemma time_sub_self [simp]: "time_sub a a = 0"
  by (simp add: time_sub_def max_int64_def min_int64_def)

lemma time_sub_exact: "min_int64 \<le> a - b \<Longrightarrow> a - b \<le> max_int64 \<Longrightarrow> time_sub a b = a - b"
  by (simp add: time_sub_def)

lemma time_sub_mono: "a \<le> a' \<Longrightarrow> b' \<le> b \<Longrightarrow> time_sub a b \<le> time_sub a' b'"
  by (auto simp: time_sub_def max_def min_def)

lemma time_sub_bounds: "min_int64 \<le> time_sub a b" "time_sub a b \<le> max_int64"
  by (auto simp: time_sub_def max_int64_def min_int64_def)

lemma time_sub_ge_iff:
  "min_int64 < d \<Longrightarrow> d \<le> max_int64 \<Longrightarrow> d \<le> time_sub a b \<longleftrightarrow> b + d \<le> a"
  by (auto simp: time_sub_def)

lemma time_sub_le_iff:
  "min_int64 \<le> d \<Longrightarrow> d < max_int64 \<Longrightarrow> time_sub a b \<le> d \<longleftrightarrow> a \<le> b + d"
  by (auto simp: time_sub_def)

lemma neg_duration_nonneg [simp]: "0 \<le> d \<Longrightarrow> neg_duration d = - d"
  by (simp add: neg_duration_def min_int64_def)

section \<open>Three-way comparison and sorting\<close>

text \<open>\<open>cmp.Compare\<close>, \<open>Time.Compare\<close> and \<open>strings.Compare\<close>: -1, 0 or 1.\<close>

definition compare3 :: "'a::linorder \<Rightarrow> 'a \<Rightarrow> int" where
  "compare3 a b = (if a < b then -1 else if a = b then 0 else 1)"

text \<open>\<open>slices.SortStableFunc\<close>: insertion keeps equal elements in their order.\<close>

fun insort_func :: "('a \<Rightarrow> 'a \<Rightarrow> int) \<Rightarrow> 'a \<Rightarrow> 'a list \<Rightarrow> 'a list" where
  "insort_func cmp x [] = [x]"
| "insort_func cmp x (y # ys) = (if cmp x y \<le> 0 then x # y # ys else y # insort_func cmp x ys)"

definition sort_func :: "('a \<Rightarrow> 'a \<Rightarrow> int) \<Rightarrow> 'a list \<Rightarrow> 'a list" where
  "sort_func cmp xs = foldr (insort_func cmp) xs []"

lemma sort_func_simps [simp]:
  "sort_func cmp [] = []" "sort_func cmp (x # xs) = insort_func cmp x (sort_func cmp xs)"
  by (simp_all add: sort_func_def)

lemma mset_insort_func [simp]: "mset (insort_func cmp x ys) = add_mset x (mset ys)"
  by (induction ys) auto

lemma mset_sort_func [simp]: "mset (sort_func cmp xs) = mset xs"
  by (induction xs) auto

lemma set_sort_func [simp]: "set (sort_func cmp xs) = set xs"
  by (rule mset_eq_setD) simp

lemma length_sort_func [simp]: "length (sort_func cmp xs) = length xs"
  by (rule mset_eq_length) simp

text \<open>
  The contract a comparison function owes its callers. \<open>key\<close> is what the comparison looks at: two
  elements compare equal exactly when their keys agree.
\<close>

locale comparison =
  fixes cmp :: "'a \<Rightarrow> 'a \<Rightarrow> int" and key :: "'a \<Rightarrow> 'k"
  assumes cmp_zero: "cmp x y = 0 \<longleftrightarrow> key x = key y"
    and cmp_flip: "cmp x y < 0 \<longleftrightarrow> 0 < cmp y x"
    and cmp_trans: "cmp x y \<le> 0 \<Longrightarrow> cmp y z \<le> 0 \<Longrightarrow> cmp x z \<le> 0"
begin

lemma cmp_total: "cmp x y \<le> 0 \<or> cmp y x \<le> 0"
  using cmp_flip[of x y] cmp_flip[of y x] by linarith

lemma cmp_antisym: "cmp x y \<le> 0 \<Longrightarrow> cmp y x \<le> 0 \<Longrightarrow> key x = key y"
  using cmp_zero[of x y] cmp_flip[of x y] by linarith

lemma sorted_insort_func:
  "sorted_wrt (\<lambda>a b. cmp a b \<le> 0) ys \<Longrightarrow> sorted_wrt (\<lambda>a b. cmp a b \<le> 0) (insort_func cmp x ys)"
proof (induction ys)
  case (Cons y ys)
  have mem: "set (insort_func cmp x ys) = insert x (set ys)"
    using mset_insort_func[of cmp x ys] by (metis set_mset_add_mset_insert set_mset_mset)
  show ?case
    using Cons cmp_trans[of x y] cmp_total[of x y] by (auto simp: mem)
qed simp

lemma sorted_sort_func: "sorted_wrt (\<lambda>a b. cmp a b \<le> 0) (sort_func cmp xs)"
  by (induction xs) (auto intro: sorted_insort_func)

text \<open>
  When no two elements share a key, a sorted arrangement is unique, so the outcome depends neither
  on the order of the input nor on the sorting algorithm (stable or not).
\<close>

lemma sorted_unique:
  assumes "mset xs = mset ys" and "inj_on key (set xs)"
    and "sorted_wrt (\<lambda>a b. cmp a b \<le> 0) xs" and "sorted_wrt (\<lambda>a b. cmp a b \<le> 0) ys"
  shows "xs = ys"
  using assms
proof (induction xs arbitrary: ys)
  case (Cons x xs)
  then obtain y ys' where ys: "ys = y # ys'"
    by (cases ys) auto
  have "x \<in> set ys" "y \<in> set (x # xs)"
    using Cons.prems(1) ys by (metis list.set_intros(1) mset_eq_setD)+
  with Cons.prems(3,4) ys have "x = y \<or> cmp x y \<le> 0 \<and> cmp y x \<le> 0"
    by auto
  with Cons.prems(2) \<open>y \<in> set (x # xs)\<close> have "x = y"
    by (auto dest!: cmp_antisym dest: inj_onD)
  with Cons ys show ?case
    by (auto simp: inj_on_insert)
qed simp

lemma sort_func_perm:
  "mset xs = mset ys \<Longrightarrow> inj_on key (set xs) \<Longrightarrow> sort_func cmp xs = sort_func cmp ys"
  by (rule sorted_unique) (auto intro: sorted_sort_func)

lemma sort_func_sorted:
  "inj_on key (set xs) \<Longrightarrow> sorted_wrt (\<lambda>a b. cmp a b \<le> 0) xs \<Longrightarrow> sort_func cmp xs = xs"
  by (rule sorted_unique) (auto intro: sorted_sort_func)

end

interpretation compare3: comparison compare3 "\<lambda>x::'a::linorder. x"
  by unfold_locales (auto simp: compare3_def split: if_splits)

text \<open>
  \<open>cmp.Or\<close> of two comparisons: the second decides where the first is undecided. The combination, and
  a comparison of a projection, satisfy the contract again, so the composed orders of the source are
  instances without further proof about their cases.
\<close>

definition cmp_or :: "int \<Rightarrow> int \<Rightarrow> int" where
  "cmp_or a b = (if a \<noteq> 0 then a else b)"

lemma comparison_on: "comparison c k \<Longrightarrow> comparison (\<lambda>x y. c (f x) (f y)) (\<lambda>x. k (f x))"
  by (unfold_locales; erule comparison.cmp_zero comparison.cmp_flip comparison.cmp_trans)

lemmas compare3_on = comparison_on[OF compare3.comparison_axioms]

lemma comparison_cmp_or:
  assumes "comparison c1 k1" and "comparison c2 k2"
  shows "comparison (\<lambda>x y. cmp_or (c1 x y) (c2 x y)) (\<lambda>x. (k1 x, k2 x))"
proof -
  note zero = comparison.cmp_zero[OF assms(1)] comparison.cmp_zero[OF assms(2)]
  note flip = comparison.cmp_flip[OF assms(1)] comparison.cmp_flip[OF assms(2)]
  note trans = comparison.cmp_trans[OF assms(1)] comparison.cmp_trans[OF assms(2)]
  show ?thesis
  proof
    fix x y z
    show "cmp_or (c1 x y) (c2 x y) = 0 \<longleftrightarrow> (k1 x, k2 x) = (k1 y, k2 y)"
      using zero by (auto simp: cmp_or_def)
    show "cmp_or (c1 x y) (c2 x y) < 0 \<longleftrightarrow> 0 < cmp_or (c1 y x) (c2 y x)"
      using flip[of x y] zero(1)[of x y] zero(1)[of y x] by (auto simp: cmp_or_def)
    assume le: "cmp_or (c1 x y) (c2 x y) \<le> 0" "cmp_or (c1 y z) (c2 y z) \<le> 0"
    then have first: "c1 x y \<le> 0" "c1 y z \<le> 0"
      by (auto simp: cmp_or_def split: if_splits)
    show "cmp_or (c1 x z) (c2 x z) \<le> 0"
    proof (cases "c1 x z = 0")
      case True
      then have "c1 z x \<le> 0"
        using zero(1)[of x z] zero(1)[of z x] by simp
      then have "c1 y x \<le> 0" "c1 z y \<le> 0"
        using trans(1)[of y z x] trans(1)[of z x y] first by auto
      then have "c1 x y = 0" "c1 y z = 0"
        using first flip(1)[of x y] flip(1)[of y z] by linarith+
      with le True trans(2)[of x y z] show ?thesis
        by (auto simp: cmp_or_def)
    qed (use first trans(1)[of x y z] in \<open>auto simp: cmp_or_def\<close>)
  qed
qed

section \<open>Strings and maps\<close>

definition has_prefix :: "string \<Rightarrow> string \<Rightarrow> bool" where
  "has_prefix s p \<longleftrightarrow> take (length p) s = p"

definition has_suffix :: "string \<Rightarrow> string \<Rightarrow> bool" where
  "has_suffix s p \<longleftrightarrow> length p \<le> length s \<and> drop (length s - length p) s = p"

definition trim_suffix :: "string \<Rightarrow> string \<Rightarrow> string" where
  "trim_suffix s p = (if has_suffix s p then take (length s - length p) s else s)"

text \<open>\<open>strings.Cut\<close> at a one-byte separator: what is before and after its first occurrence.\<close>

fun cut_byte :: "char \<Rightarrow> string \<Rightarrow> (string \<times> string) option" where
  "cut_byte c [] = None"
| "cut_byte c (x # xs) =
     (if x = c then Some ([], xs) else map_option (\<lambda>(a, b). (x # a, b)) (cut_byte c xs))"

text \<open>\<open>strings.Split\<close> at a one-byte separator.\<close>

fun split_byte :: "char \<Rightarrow> string \<Rightarrow> string list" where
  "split_byte c [] = [[]]"
| "split_byte c (x # xs) =
     (if x = c then [] # split_byte c xs
      else (case split_byte c xs of [] \<Rightarrow> [[x]] | p # ps \<Rightarrow> (x # p) # ps))"

lemma cut_byte_append [simp]: "c \<notin> set a \<Longrightarrow> cut_byte c (a @ c # b) = Some (a, b)"
  by (induction a) auto

lemma cut_byte_None [simp]: "c \<notin> set a \<Longrightarrow> cut_byte c a = None"
  by (induction a) auto

lemma has_prefix_append [simp]: "has_prefix (p @ s) p"
  by (simp add: has_prefix_def)

lemma has_prefix_iff: "has_prefix s p \<longleftrightarrow> (\<exists>r. s = p @ r)"
  unfolding has_prefix_def by (metis append_eq_conv_conj append_take_drop_id)

lemma has_suffix_append [simp]: "has_suffix (s @ p) p" "trim_suffix (s @ p) p = s"
  by (simp_all add: has_suffix_def trim_suffix_def)

lemma inj_on_map_of_keys:
  "distinct (map fst xs) \<Longrightarrow> (k, v) \<in> set xs \<longleftrightarrow> map_of xs k = Some v"
  by (auto simp: map_of_is_SomeI dest: map_of_SomeD)

lemma update_keeps_distinct_keys [simp, intro]:
  "distinct (map fst xs) \<Longrightarrow> distinct (map fst (AList.update k v xs))"
  by (rule distinct_update)

section \<open>Relational tables\<close>

text \<open>
  A table is the list of its rows. \<open>UPDATE ... SET ... WHERE\<close> rewrites the rows that match and
  reports how many there were; the order of the list stands for the scan order of a \<open>SELECT\<close>
  without \<open>ORDER BY\<close>.
\<close>

definition sql_update :: "('r \<Rightarrow> bool) \<Rightarrow> ('r \<Rightarrow> 'r) \<Rightarrow> 'r list \<Rightarrow> 'r list" where
  "sql_update where_row set_row rows = map (\<lambda>r. if where_row r then set_row r else r) rows"

definition rows_affected :: "('r \<Rightarrow> bool) \<Rightarrow> 'r list \<Rightarrow> int" where
  "rows_affected where_row rows = int (length (filter where_row rows))"

text \<open>A \<open>UNIQUE\<close> or partial unique index: the key is distinct over the indexed rows.\<close>

definition unique_index :: "('r \<Rightarrow> bool) \<Rightarrow> ('r \<Rightarrow> 'k) \<Rightarrow> 'r list \<Rightarrow> bool" where
  "unique_index indexed key rows \<longleftrightarrow> distinct (map key (filter indexed rows))"

lemma sql_update_simps [simp]:
  "sql_update P f [] = []"
  "sql_update P f (r # rs) = (if P r then f r else r) # sql_update P f rs"
  "length (sql_update P f rs) = length rs"
  by (simp_all add: sql_update_def)

lemma set_sql_update: "set (sql_update P f rows) = (\<lambda>r. if P r then f r else r) ` set rows"
  by (simp add: sql_update_def)

lemma ball_sql_update [simp]:
  "(\<forall>r \<in> set (sql_update P f rows). Q r) \<longleftrightarrow> (\<forall>r \<in> set rows. Q (if P r then f r else r))"
  unfolding set_sql_update by (rule ball_simps)

lemma map_sql_update: "(\<And>r. P r \<Longrightarrow> g (f r) = g r) \<Longrightarrow> map g (sql_update P f rows) = map g rows"
  by (simp add: sql_update_def)

lemma sql_update_none: "(\<And>r. r \<in> set rows \<Longrightarrow> \<not> P r) \<Longrightarrow> sql_update P f rows = rows"
  by (induction rows) auto

lemma sql_update_idem:
  "(\<And>r. P r \<Longrightarrow> f (f r) = f r) \<Longrightarrow> sql_update P f (sql_update P f rows) = sql_update P f rows"
  by (simp add: sql_update_def)

lemma rows_affected_unique_key:
  assumes "distinct (map key rows)" and "\<And>r. P r \<Longrightarrow> key r = k"
  shows "rows_affected P rows = 1 \<longleftrightarrow> (\<exists>r \<in> set rows. P r)"
    and "rows_affected P rows = 0 \<or> rows_affected P rows = 1"
proof -
  have "length (filter P rows) \<le> 1"
    using assms
  proof (induction rows)
    case (Cons r rs)
    have "filter P rs = []" if "P r"
      using Cons.prems that by (force simp: filter_empty_conv)
    with Cons show ?case by auto
  qed simp
  then show "rows_affected P rows = 1 \<longleftrightarrow> (\<exists>r \<in> set rows. P r)"
    "rows_affected P rows = 0 \<or> rows_affected P rows = 1"
    by (auto simp: rows_affected_def filter_empty_conv le_Suc_eq length_Suc_conv filter_eq_Cons_iff
        dest!: order_le_imp_less_or_eq)
qed

lemma unique_index_eq:
  "unique_index indexed key rows \<Longrightarrow> r \<in> set rows \<Longrightarrow> s \<in> set rows \<Longrightarrow> indexed r \<Longrightarrow> indexed s
     \<Longrightarrow> key r = key s \<Longrightarrow> r = s"
  unfolding unique_index_def by (auto simp: distinct_map inj_on_def)

text \<open>An update that takes rows out of a partial index keeps the index.\<close>

lemma unique_index_leave:
  assumes "unique_index indexed key rows" and "\<And>r. P r \<Longrightarrow> \<not> indexed (f r)"
  shows "unique_index indexed key (sql_update P f rows)"
proof -
  have "filter indexed (sql_update P f rows) = filter (\<lambda>r. \<not> P r) (filter indexed rows)"
    using assms(2) by (induction rows) auto
  with assms(1) show ?thesis
    unfolding unique_index_def by (simp only: distinct_map_filter)
qed

lemma unique_index_same:
  assumes "\<And>r. r \<in> set rows \<Longrightarrow> P r \<Longrightarrow> indexed (f r) = indexed r \<and> key (f r) = key r"
  shows "unique_index indexed key (sql_update P f rows) = unique_index indexed key rows"
proof -
  have "map key (filter indexed (sql_update P f rows)) = map key (filter indexed rows)"
    using assms by (induction rows) auto
  then show ?thesis
    by (simp add: unique_index_def)
qed

text \<open>Updating the one row with a key changes a sum over the table by that row's share.\<close>

lemma sum_list_sql_update:
  fixes w :: "'r \<Rightarrow> 'n::ab_group_add"
  assumes "distinct (map key rows)" and "r0 \<in> set rows" and "P r0" and "\<And>r. P r \<Longrightarrow> key r = key r0"
  shows "(\<Sum>r\<leftarrow>sql_update P f rows. w r) = (\<Sum>r\<leftarrow>rows. w r) - w r0 + w (f r0)"
  using assms(1,2)
proof (induction rows)
  case (Cons r rows)
  show ?case
  proof (cases "r = r0")
    case True
    have "sql_update P f rows = rows"
      using Cons.prems(1) True assms(4) by (intro sql_update_none) (force simp: image_iff)
    with True assms(3) show ?thesis by simp
  next
    case False
    then have "r0 \<in> set rows" "\<not> P r"
      using Cons.prems assms(4) by (auto simp: image_iff)
    with Cons show ?thesis by (simp add: algebra_simps)
  qed
qed simp

lemma find_SomeD: "find P xs = Some x \<Longrightarrow> x \<in> set xs \<and> P x"
  by (auto simp: find_Some_iff)

lemma find_NoneD: "find P xs = None \<Longrightarrow> x \<in> set xs \<Longrightarrow> \<not> P x"
  by (auto simp: find_None_iff)

lemma find_by_key:
  "distinct (map key rows) \<Longrightarrow> r \<in> set rows \<Longrightarrow> find (\<lambda>x. key x = key r) rows = Some r"
  by (induction rows) (auto simp: image_iff)

lemma find_sql_update:
  assumes "\<And>r. P r \<Longrightarrow> key (f r) = key r"
  shows "find (\<lambda>r. key r = k) (sql_update P f rows)
           = map_option (\<lambda>r. if P r then f r else r) (find (\<lambda>r. key r = k) rows)"
  by (induction rows) (auto simp: assms)

lemma distinct_key_eq:
  "distinct (map key rows) \<Longrightarrow> r \<in> set rows \<Longrightarrow> s \<in> set rows \<Longrightarrow> key r = key s \<Longrightarrow> r = s"
  by (auto simp: distinct_map inj_on_def)

end
