(* ===== verification/Spec_Duration.thy ===== *)
theory Spec_Duration
  imports Go_Prelude Complex_Main
begin

text \<open>
  Duration literals of a SituationSpec (\<^verbatim>\<open>internal/spec/internal/domain/duration.go\<close>) and the two
  standard library scanners they call: \<open>strconv.Atoi\<close> and \<open>time.ParseDuration\<close>. The unsigned
  64-bit accumulators of the library scanner are integers with the overflow tests of the library
  written out; the sum over several units wraps at \<open>2 ^ 64\<close> as there.
\<close>

section \<open>Decimal scanners of the standard library\<close>

definition is_digit :: "char \<Rightarrow> bool" where
  "is_digit c \<longleftrightarrow> 48 \<le> (of_char c :: int) \<and> (of_char c :: int) \<le> 57"

definition digit_value :: "char \<Rightarrow> int" where
  "digit_value c = of_char c - 48"

fun decimal_value :: "string \<Rightarrow> int \<Rightarrow> int" where
  "decimal_value [] acc = acc"
| "decimal_value (c # cs) acc = decimal_value cs (acc * 10 + digit_value c)"

text \<open>\<open>strconv.Atoi\<close> on a 64-bit platform: an optional sign, decimal digits only, in range.\<close>

definition atoi :: "string \<Rightarrow> int result" where
  "atoi s =
     (let neg = (s \<noteq> [] \<and> hd s = CHR ''-'');
          ds = (if s \<noteq> [] \<and> (hd s = CHR ''-'' \<or> hd s = CHR ''+'') then tl s else s);
          v = decimal_value ds 0
      in if ds = [] \<or> \<not> list_all is_digit ds then Inl (Errorf ''invalid syntax'')
         else if neg then (if v > 2 ^ 63 then Inl (Errorf ''value out of range'') else Inr (- v))
         else if v \<ge> 2 ^ 63 then Inl (Errorf ''value out of range'') else Inr v)"

text \<open>
  The nearest binary64 to a non-negative rational, ties to even, with an unbounded exponent. The
  scanner uses it only for the fraction of one unit, which is below \<open>3.6 * 10 ^ 12\<close>; a scale beyond
  the exponent range gives a product below one either way, and the product is truncated.
\<close>

definition round_half_even :: "rat \<Rightarrow> int" where
  "round_half_even x =
     (let f = \<lfloor>x\<rfloor>; r = x - of_int f
      in if r < 1 / 2 then f else if r > 1 / 2 then f + 1 else if even f then f else f + 1)"

function bit_length :: "int \<Rightarrow> int" where
  "bit_length n = (if n \<le> 0 then 0 else 1 + bit_length (n div 2))"
  by pat_completeness auto
termination
  by (relation "measure nat") auto

declare bit_length.simps [simp del]

definition pow2 :: "int \<Rightarrow> rat" where
  "pow2 e = (if 0 \<le> e then 2 ^ nat e else 1 / 2 ^ nat (- e))"

definition binary_exponent :: "rat \<Rightarrow> int" where
  "binary_exponent x =
     (let (p, q) = quotient_of x;
          k = bit_length p - bit_length q
      in if pow2 k \<le> x then k else k - 1)"

definition float64_of :: "rat \<Rightarrow> rat" where
  "float64_of x =
     (if x \<le> 0 then 0
      else let e = binary_exponent x - 52
           in of_int (round_half_even (x / pow2 e)) * pow2 e)"

section \<open>time.ParseDuration\<close>

fun leading_int :: "string \<Rightarrow> int \<Rightarrow> (int \<times> string) option" where
  "leading_int [] x = Some (x, [])"
| "leading_int (c # s) x =
     (if \<not> is_digit c then Some (x, c # s)
      else if x > 2 ^ 63 div 10 then None
      else let y = x * 10 + digit_value c
           in if y > 2 ^ 63 then None else leading_int s y)"

fun leading_fraction :: "string \<Rightarrow> int \<Rightarrow> rat \<Rightarrow> bool \<Rightarrow> int \<times> rat \<times> string" where
  "leading_fraction [] x scale ovf = (x, scale, [])"
| "leading_fraction (c # s) x scale ovf =
     (if \<not> is_digit c then (x, scale, c # s)
      else if ovf then leading_fraction s x scale True
      else if x > (2 ^ 63 - 1) div 10 then leading_fraction s x scale True
      else let y = x * 10 + digit_value c
           in if y > 2 ^ 63 then leading_fraction s x scale True
              else leading_fraction s y (float64_of (scale * 10)) False)"

definition unit_map :: "string \<Rightarrow> int option" where
  "unit_map u =
     (if u = ''ns'' then Some 1
      else if u = ''us'' \<or> u = [CHR 0xC2, CHR 0xB5, CHR ''s''] \<or> u = [CHR 0xCE, CHR 0xBC, CHR ''s'']
        then Some 1000
      else if u = ''ms'' then Some 1000000
      else if u = ''s'' then Some 1000000000
      else if u = ''m'' then Some 60000000000
      else if u = ''h'' then Some 3600000000000
      else None)"

definition fraction_ns :: "int \<Rightarrow> int \<Rightarrow> rat \<Rightarrow> int" where
  "fraction_ns f unit scale =
     \<lfloor>float64_of (float64_of (of_int f) * float64_of (of_int unit / scale))\<rfloor>"

text \<open>One \<open>[0-9]*(\.[0-9]*)?[a-z]+\<close> group: its nanoseconds and the rest of the text.\<close>

definition duration_group :: "string \<Rightarrow> (int \<times> string) option" where
  "duration_group s =
     (if \<not> (hd s = CHR ''.'' \<or> is_digit (hd s)) then None
      else case leading_int s 0 of None \<Rightarrow> None
      | Some (v, s1) \<Rightarrow>
          let pre = (length s1 \<noteq> length s);
              dot = (s1 \<noteq> [] \<and> hd s1 = CHR ''.'');
              (f, scale, s2) = (if dot then leading_fraction (tl s1) 0 1 False else (0, 1, s1));
              post = (dot \<and> length s2 \<noteq> length (tl s1));
              u = takeWhile (\<lambda>c. \<not> (c = CHR ''.'' \<or> is_digit c)) s2;
              rest = dropWhile (\<lambda>c. \<not> (c = CHR ''.'' \<or> is_digit c)) s2
          in if \<not> pre \<and> \<not> post then None
             else if u = [] then None
             else case unit_map u of None \<Rightarrow> None
             | Some unit \<Rightarrow>
                 if v > 2 ^ 63 div unit then None
                 else let w = v * unit + (if f > 0 then fraction_ns f unit scale else 0)
                      in if w > 2 ^ 63 then None else Some (w, rest))"

lemma leading_int_length: "leading_int s x = Some (v, r) \<Longrightarrow> length r \<le> length s"
  by (induction s x rule: leading_int.induct) (auto simp: Let_def split: if_splits)

lemma leading_fraction_length:
  "leading_fraction s x sc ovf = (f, sc', r) \<Longrightarrow> length r \<le> length s"
  by (induction s x sc ovf rule: leading_fraction.induct) (auto simp: Let_def split: if_splits)

lemma duration_group_shorter: "duration_group s = Some (w, rest) \<Longrightarrow> length rest < length s"
proof -
  let ?P = "\<lambda>c. \<not> (c = CHR ''.'' \<or> is_digit c)"
  have shrink: "takeWhile ?P t \<noteq> [] \<Longrightarrow> length (dropWhile ?P t) < length t" for t
    using length_dropWhile_le[of ?P "tl t"] by (cases t) auto
  assume "duration_group s = Some (w, rest)"
  then obtain v s1 where s1: "leading_int s 0 = Some (v, s1)"
    by (auto simp: duration_group_def split: if_splits option.splits)
  obtain f sc s2 where s2:
    "(if s1 \<noteq> [] \<and> hd s1 = CHR ''.'' then leading_fraction (tl s1) 0 1 False else (0, 1, s1)) = (f, sc, s2)"
    by (metis prod_cases3)
  have le: "length s2 \<le> length s1"
    using s2 leading_fraction_length[of "tl s1" 0 1 False f sc s2] by (auto split: if_splits)
  have "takeWhile ?P s2 \<noteq> [] \<and> rest = dropWhile ?P s2"
    using \<open>duration_group s = Some (w, rest)\<close> s1 s2
    by (auto simp: duration_group_def Let_def split: if_splits option.splits)
  with shrink[of s2] le leading_int_length[OF s1] show ?thesis
    by auto
qed

text \<open>The loop over the groups; the running sum is an unsigned 64-bit integer.\<close>

function duration_groups :: "string \<Rightarrow> int \<Rightarrow> int option" where
  "duration_groups s d =
     (if s = [] then Some d
      else case duration_group s of None \<Rightarrow> None
      | Some (v, rest) \<Rightarrow>
          let d' = (d + v) mod 2 ^ 64 in if d' > 2 ^ 63 then None else duration_groups rest d')"
  by pat_completeness auto
termination
  by (relation "measure (\<lambda>(s, d). length s)") (auto dest: duration_group_shorter)

declare duration_groups.simps [simp del]

definition time_parse_duration :: "string \<Rightarrow> duration result" where
  "time_parse_duration orig =
     (let neg = (orig \<noteq> [] \<and> hd orig = CHR ''-'');
          s = (if orig \<noteq> [] \<and> (hd orig = CHR ''-'' \<or> hd orig = CHR ''+'') then tl orig else orig)
      in if s = ''0'' then Inr 0
         else if s = [] then Inl (Errorf ''time: invalid duration'')
         else case duration_groups s 0 of None \<Rightarrow> Inl (Errorf ''time: invalid duration'')
         | Some d \<Rightarrow>
             if neg then Inr (- d)
             else if d > 2 ^ 63 - 1 then Inl (Errorf ''time: invalid duration'')
             else Inr d)"

section \<open>internal/spec: ParseDuration and parseDays\<close>

definition hour :: duration where "hour = 3600000000000"

definition parseDays :: "string \<Rightarrow> duration result" where
  "parseDays s =
     bind_res (wrap_err ''parse days'' (atoi (trim_suffix s ''d''))) (\<lambda>days.
       if days \<le> 0 then Inl (Errorf ''duration must be positive'')
       else if days > max_int64 div (24 * hour) then Inl (Errorf ''duration overflows time.Duration'')
       else Inr (days * 24 * hour))"

definition ParseDuration :: "string \<Rightarrow> duration result" where
  "ParseDuration s =
     (if s = [] then Inl (Errorf ''empty duration'')
      else if has_suffix s ''d'' then parseDays s
      else wrap_err ''parse duration'' (time_parse_duration s))"

text \<open>\<open>optionalDuration\<close> of \<^verbatim>\<open>engine\<close> and of \<^verbatim>\<open>situations\<close>: the empty text is no duration.\<close>

definition optionalDuration :: "string \<Rightarrow> duration result" where
  "optionalDuration text =
     (if text = [] then Inr 0 else wrap_err ''parse duration'' (ParseDuration text))"

section \<open>Bounds\<close>

lemma duration_groups_bound:
  "duration_groups s d = Some r \<Longrightarrow> 0 \<le> d \<Longrightarrow> d \<le> 2 ^ 63 \<Longrightarrow> 0 \<le> r \<and> r \<le> 2 ^ 63"
proof (induction s d rule: duration_groups.induct)
  case (1 s d)
  show ?case
  proof (cases "s = []")
    case True
    with "1.prems" show ?thesis by (simp add: duration_groups.simps)
  next
    case False
    with "1.prems"(1) obtain v rest where g: "duration_group s = Some (v, rest)"
      and le: "(d + v) mod 2 ^ 64 \<le> 2 ^ 63"
      and rec: "duration_groups rest ((d + v) mod 2 ^ 64) = Some r"
      by (auto simp: duration_groups.simps[of s d] Let_def split: option.splits if_splits)
    from "1.IH"[OF False g refl refl _ rec _ le] le show ?thesis by simp
  qed
qed

lemma time_parse_duration_bound:
  assumes "time_parse_duration s = Inr d"
  shows "min_int64 \<le> d \<and> d \<le> max_int64"
proof -
  have "0 \<le> r \<and> r \<le> 2 ^ 63" if "duration_groups t 0 = Some r" for t r
    using duration_groups_bound[OF that] by simp
  with assms show ?thesis
    unfolding time_parse_duration_def min_int64_def max_int64_def
    by (fastforce simp: Let_def split: if_splits option.splits)
qed

lemma decimal_value_nonneg: "list_all is_digit t \<Longrightarrow> 0 \<le> acc \<Longrightarrow> 0 \<le> decimal_value t acc"
  by (induction t acc rule: decimal_value.induct) (auto simp: digit_value_def is_digit_def)

lemma parseDays_Inr:
  "parseDays s = Inr d \<longleftrightarrow>
    (\<exists>n. atoi (trim_suffix s ''d'') = Inr n \<and> 0 < n \<and> n \<le> 106751 \<and> d = n * 86400000000000)"
  by (cases "atoi (trim_suffix s ''d'')")
    (auto simp: parseDays_def hour_def max_int64_def split: if_splits)

lemma atoi_digits:
  assumes "t \<noteq> []" and "list_all is_digit t"
  shows "atoi t = (if decimal_value t 0 \<ge> 2 ^ 63 then Inl (Errorf ''value out of range'')
                   else Inr (decimal_value t 0))"
proof -
  have "is_digit (hd t)"
    using assms by (cases t) auto
  then have "hd t \<noteq> CHR ''-''" "hd t \<noteq> CHR ''+''"
    by (auto simp: is_digit_def)
  then show ?thesis
    using assms by (simp add: atoi_def Let_def)
qed

text \<open>
  Whatever text \<open>spec.ParseDuration\<close> accepts, the duration it returns is a value of
  \<open>int64\<close>: neither the day arithmetic nor the library scanner escapes the range.
\<close>

theorem ParseDuration_in_range:
  assumes "ParseDuration s = Inr d"
  shows "min_int64 \<le> d \<and> d \<le> max_int64"
proof (cases "has_suffix s ''d''")
  case True
  with assms have "parseDays s = Inr d"
    by (auto simp: ParseDuration_def split: if_splits)
  then show ?thesis
    by (auto simp: parseDays_Inr min_int64_def max_int64_def)
next
  case False
  with assms show ?thesis
    by (auto simp: ParseDuration_def split: if_splits dest: time_parse_duration_bound)
qed

theorem ParseDuration_in_range_witness:
  "ParseDuration ''30d'' = Inr 2592000000000000 \<and> min_int64 \<le> 2592000000000000 \<and>
   (2592000000000000 :: int) \<le> max_int64"
proof -
  have "ParseDuration ''30d'' = Inr 2592000000000000"
    by code_simp
  with ParseDuration_in_range[OF this] show ?thesis by simp
qed

text \<open>
  A day literal (decimal digits followed by \<^verbatim>\<open>d\<close>) is read exactly: between 1 and 106751
  days it is that many times 24 hours with no wrap-around, zero is refused as not positive, more
  days are refused as an overflow of \<open>time.Duration\<close>, and a number beyond \<open>int64\<close> as out of range.
\<close>

theorem ParseDuration_days:
  assumes "t \<noteq> []" and "list_all is_digit t" and "n = decimal_value t 0"
  shows "ParseDuration (t @ ''d'') =
    (if n \<ge> 2 ^ 63 then Inl (Wrapf ''parse days'' (Errorf ''value out of range''))
     else if n = 0 then Inl (Errorf ''duration must be positive'')
     else if n > 106751 then Inl (Errorf ''duration overflows time.Duration'')
     else Inr (n * 86400000000000))"
  using assms decimal_value_nonneg[of t 0]
  by (simp add: ParseDuration_def parseDays_def atoi_digits hour_def max_int64_def)

theorem ParseDuration_days_witness:
  "ParseDuration (''7'' @ ''d'') = Inr 604800000000000 \<and>
   ParseDuration (''106752'' @ ''d'') = Inl (Errorf ''duration overflows time.Duration'')"
proof -
  have seven: "list_all is_digit ''7''" "decimal_value ''7'' 0 = 7"
    by code_simp+
  have big: "list_all is_digit ''106752''" "decimal_value ''106752'' 0 = 106752"
    by code_simp+
  show ?thesis
    using ParseDuration_days[OF _ seven(1) seven(2)[symmetric]]
      ParseDuration_days[OF _ big(1) big(2)[symmetric]] by simp
qed

end
