(* ===== verification/Engine_Time.thy ===== *)
theory Engine_Time
  imports Spec_Duration
begin

text \<open>
  Event time in the stream engine: \<^verbatim>\<open>watermark.go\<close>, \<^verbatim>\<open>source_clocks.go\<close> and \<^verbatim>\<open>lateness.go\<close> of
  \<^verbatim>\<open>internal/engine/internal/domain\<close>. A partition has a checkpoint (position, watermark, one clock
  per source); placing an event in time gives the next clock and says whether the event is late.
  The map of source clocks is an association list, because the code iterates over it.
\<close>

section \<open>Data\<close>

record time_policy =
  WatermarkStrategy :: string
  MaxOutOfOrderness :: string
  IdleTimeout :: string
  AllowedLateness :: string
  LatePolicy :: string
  ClockSkewTolerance :: string

record source_clock =
  MaxEventTime :: time
  LastIngestedAt :: time

type_synonym source_clocks = "(string \<times> source_clock) list"

record checkpoint =
  LastPosition :: int
  cp_Watermark :: time
  cp_Sources :: source_clocks

record event_clock =
  ec_Source :: string
  ec_EventTime :: time
  ec_IngestedAt :: time

record partition_clock =
  pc_Watermark :: time
  pc_Sources :: source_clocks

datatype late_disposition =
  OnTime | LateCorrected | LateHistoryOnly | LateDropped | LateBeyondAllowedLateness | LateClockSkew

record time_placement =
  tp_Clock :: partition_clock
  tp_Disposition :: late_disposition

section \<open>Watermark of a partition\<close>

definition latest :: "time \<Rightarrow> time \<Rightarrow> time" where
  "latest watermark previous = (if watermark < previous then previous else watermark)"

definition WatermarkFor :: "time \<Rightarrow> string \<Rightarrow> time \<Rightarrow> time result" where
  "WatermarkFor eventTime maxOutOfOrderness previous =
     bind_res (wrap_err ''parse maxOutOfOrderness'' (ParseDuration maxOutOfOrderness)) (\<lambda>maxLag.
       let watermark = eventTime + neg_duration maxLag
       in if is_zero_time previous then Inr watermark else Inr (latest watermark previous))"

definition TimerWatermark :: "time \<Rightarrow> time \<Rightarrow> time" where
  "TimerWatermark checkpointWatermark now =
     (if is_zero_time checkpointWatermark then now else checkpointWatermark)"

definition later :: "time \<Rightarrow> time \<Rightarrow> time" where
  "later a b = (if b > a then b else a)"

definition advanceSource :: "source_clocks \<Rightarrow> event_clock \<Rightarrow> source_clocks" where
  "advanceSource previous event =
     (let clock = (case map_of previous (ec_Source event) of
                     None \<Rightarrow> \<lparr>MaxEventTime = 0, LastIngestedAt = 0\<rparr> | Some c \<Rightarrow> c)
      in AList.update (ec_Source event)
           \<lparr>MaxEventTime = later (MaxEventTime clock) (ec_EventTime event),
            LastIngestedAt = later (LastIngestedAt clock) (ec_IngestedAt event)\<rparr> previous)"

definition source_active :: "time \<Rightarrow> duration \<Rightarrow> source_clock \<Rightarrow> bool" where
  "source_active now idle clock \<longleftrightarrow> idle = 0 \<or> \<not> LastIngestedAt clock < now + neg_duration idle"

definition slowest_step :: "time \<Rightarrow> duration \<Rightarrow> source_clock \<Rightarrow> time \<Rightarrow> time" where
  "slowest_step now idle clock slowest =
     (if source_active now idle clock \<and> (is_zero_time slowest \<or> MaxEventTime clock < slowest)
      then MaxEventTime clock else slowest)"

definition slowestActiveSource :: "source_clocks \<Rightarrow> time \<Rightarrow> duration \<Rightarrow> time" where
  "slowestActiveSource sources now idle = fold (slowest_step now idle) (map snd sources) 0"

definition partitionWatermark :: "source_clocks \<Rightarrow> time \<Rightarrow> time_policy \<Rightarrow> time \<Rightarrow> time result" where
  "partitionWatermark sources now policy previous =
     bind_res (wrap_err ''parse idleTimeout'' (optionalDuration (IdleTimeout policy))) (\<lambda>idle.
       WatermarkFor (slowestActiveSource sources now idle) (MaxOutOfOrderness policy) previous)"

section \<open>Lateness and clock skew\<close>

definition allowedLateness :: "string \<Rightarrow> duration result" where
  "allowedLateness text = wrap_err ''parse allowedLateness'' (optionalDuration text)"

definition latePolicyDisposition :: "string \<Rightarrow> late_disposition" where
  "latePolicyDisposition policy =
     (if policy = ''history_only'' then LateHistoryOnly
      else if policy = ''correct'' \<or> policy = ''correct_and_reconsider'' then LateCorrected
      else LateDropped)"

definition ClassifyLateness :: "time \<Rightarrow> time \<Rightarrow> time_policy \<Rightarrow> late_disposition result" where
  "ClassifyLateness eventTime watermark policy =
     (if is_zero_time watermark \<or> \<not> eventTime < watermark then Inr OnTime
      else bind_res (allowedLateness (AllowedLateness policy)) (\<lambda>allowed.
        if time_sub watermark eventTime > allowed then Inr LateBeyondAllowedLateness
        else Inr (latePolicyDisposition (LatePolicy policy))))"

definition ChangesState :: "late_disposition \<Rightarrow> bool" where
  "ChangesState d \<longleftrightarrow> d = OnTime \<or> d = LateCorrected"

definition beyondClockSkew :: "event_clock \<Rightarrow> string \<Rightarrow> bool result" where
  "beyondClockSkew event tolerance =
     (if tolerance = [] then Inr False
      else bind_res (wrap_err ''parse clockSkewTolerance'' (ParseDuration tolerance)) (\<lambda>allowed.
        Inr (ec_EventTime event > ec_IngestedAt event + allowed)))"

definition PlaceInTime :: "event_clock \<Rightarrow> checkpoint \<Rightarrow> time_policy \<Rightarrow> time_placement result" where
  "PlaceInTime event previous policy =
     bind_res (beyondClockSkew event (ClockSkewTolerance policy)) (\<lambda>skewed.
       if skewed then
         Inr \<lparr>tp_Clock = \<lparr>pc_Watermark = cp_Watermark previous, pc_Sources = cp_Sources previous\<rparr>,
              tp_Disposition = LateClockSkew\<rparr>
       else bind_res (ClassifyLateness (ec_EventTime event) (cp_Watermark previous) policy) (\<lambda>lateness.
         let sources = advanceSource (cp_Sources previous) event
         in bind_res (partitionWatermark sources (ec_IngestedAt event) policy (cp_Watermark previous)) (\<lambda>watermark.
           Inr \<lparr>tp_Clock = \<lparr>pc_Watermark = watermark, pc_Sources = sources\<rparr>,
                tp_Disposition = lateness\<rparr>)))"

section \<open>Checkpoint after a run of events\<close>

text \<open>
  \<open>RecordApplied\<close> stores the placed clock as the partition's next checkpoint
  (\<^verbatim>\<open>engine/internal/store/record.go\<close>), so the watermark a partition sees is the one the previous
  event of the partition left. A run places the events one after the other and stops at the first
  error.
\<close>

definition checkpoint_after :: "int \<Rightarrow> time_placement \<Rightarrow> checkpoint" where
  "checkpoint_after position p =
     \<lparr>LastPosition = position, cp_Watermark = pc_Watermark (tp_Clock p),
      cp_Sources = pc_Sources (tp_Clock p)\<rparr>"

fun run_partition ::
  "time_policy \<Rightarrow> (int \<times> event_clock) list \<Rightarrow> checkpoint \<Rightarrow> (checkpoint \<times> late_disposition list) result" where
  "run_partition policy [] cp = Inr (cp, [])"
| "run_partition policy ((pos, ev) # evs) cp =
     bind_res (PlaceInTime ev cp policy) (\<lambda>p.
       bind_res (run_partition policy evs (checkpoint_after pos p)) (\<lambda>(cp', ds).
         Inr (cp', tp_Disposition p # ds)))"

section \<open>Lemmas\<close>

lemma latest_max: "latest a b = max a b"
  by (auto simp: latest_def max_def)

lemma later_max: "later a b = max a b"
  by (auto simp: later_def max_def)

lemma Min_insert_min:
  "finite A \<Longrightarrow> Min (insert (min a b) A) = Min (insert a (insert (b::'a::linorder) A))"
  by (cases "A = {}") (simp_all add: Min_insert min.assoc)

lemma slowest_step_idle [simp]: "\<not> source_active now idle c \<Longrightarrow> slowest_step now idle c acc = acc"
  by (simp add: slowest_step_def)

lemma slowest_step_active:
  "source_active now idle c \<Longrightarrow> acc \<noteq> 0 \<Longrightarrow> slowest_step now idle c acc = min (MaxEventTime c) acc"
  by (auto simp: slowest_step_def min_def)

lemma fold_slowest_nonzero:
  assumes "\<forall>c \<in> set cs. MaxEventTime c \<noteq> 0" and "acc \<noteq> 0"
  shows "fold (slowest_step now idle) cs acc =
     Min (insert acc (MaxEventTime ` set (filter (source_active now idle) cs)))"
  using assms
proof (induction cs arbitrary: acc)
  case (Cons c cs)
  show ?case
  proof (cases "source_active now idle c")
    case True
    have "min (MaxEventTime c) acc \<noteq> 0"
      using Cons.prems by (auto simp: min_def)
    with Cons True show ?thesis
      by (simp add: slowest_step_active Min_insert_min insert_commute del: Min_insert)
  next
    case False
    with Cons show ?thesis by simp
  qed
qed simp

lemma fold_slowest:
  "\<forall>c \<in> set cs. MaxEventTime c \<noteq> 0 \<Longrightarrow> fold (slowest_step now idle) cs 0 =
     (if filter (source_active now idle) cs = [] then 0
      else Min (MaxEventTime ` set (filter (source_active now idle) cs)))"
proof (induction cs)
  case (Cons c cs)
  show ?case
  proof (cases "source_active now idle c")
    case True
    then have "slowest_step now idle c 0 = MaxEventTime c"
      by (simp add: slowest_step_def)
    with Cons.prems True show ?thesis
      by (simp add: fold_slowest_nonzero)
  next
    case False
    with Cons show ?thesis by simp
  qed
qed simp

lemma slowest_min:
  assumes "\<forall>c \<in> set (map snd sources). MaxEventTime c \<noteq> 0"
  shows "slowestActiveSource sources now idle =
     (if filter (source_active now idle) (map snd sources) = [] then 0
      else Min (MaxEventTime ` set (filter (source_active now idle) (map snd sources))))"
  unfolding slowestActiveSource_def by (rule fold_slowest[OF assms])

lemma partitionWatermark_Inr:
  "partitionWatermark srcs now pol prev = Inr w \<longleftrightarrow>
    (\<exists>idle lag. optionalDuration (IdleTimeout pol) = Inr idle \<and>
       ParseDuration (MaxOutOfOrderness pol) = Inr lag \<and>
       w = (if prev = 0 then slowestActiveSource srcs now idle + neg_duration lag
            else max (slowestActiveSource srcs now idle + neg_duration lag) prev))"
  by (cases "prev = 0")
    (auto simp: partitionWatermark_def WatermarkFor_def bind_res_Inr_iff latest_max Let_def)

lemma PlaceInTime_Inr:
  "PlaceInTime ev cp pol = Inr p \<longleftrightarrow>
    beyondClockSkew ev (ClockSkewTolerance pol) = Inr True \<and>
      p = \<lparr>tp_Clock = \<lparr>pc_Watermark = cp_Watermark cp, pc_Sources = cp_Sources cp\<rparr>,
           tp_Disposition = LateClockSkew\<rparr> \<or>
    beyondClockSkew ev (ClockSkewTolerance pol) = Inr False \<and>
      (\<exists>d w. ClassifyLateness (ec_EventTime ev) (cp_Watermark cp) pol = Inr d \<and>
         partitionWatermark (advanceSource (cp_Sources cp) ev) (ec_IngestedAt ev) pol (cp_Watermark cp) = Inr w \<and>
         p = \<lparr>tp_Clock = \<lparr>pc_Watermark = w, pc_Sources = advanceSource (cp_Sources cp) ev\<rparr>,
              tp_Disposition = d\<rparr>)"
  by (cases "beyondClockSkew ev (ClockSkewTolerance pol)";
      cases "ClassifyLateness (ec_EventTime ev) (cp_Watermark cp) pol";
      cases "partitionWatermark (advanceSource (cp_Sources cp) ev) (ec_IngestedAt ev) pol (cp_Watermark cp)")
    (auto simp: PlaceInTime_def Let_def)

lemma advanceSource_lookup:
  "map_of (advanceSource cs ev) s =
    (if s = ec_Source ev then
       Some (let c = (case map_of cs s of None \<Rightarrow> \<lparr>MaxEventTime = 0, LastIngestedAt = 0\<rparr> | Some c \<Rightarrow> c)
             in \<lparr>MaxEventTime = max (MaxEventTime c) (ec_EventTime ev),
                 LastIngestedAt = max (LastIngestedAt c) (ec_IngestedAt ev)\<rparr>)
     else map_of cs s)"
  by (simp add: advanceSource_def update_conv' later_max Let_def)

lemma advanceSource_distinct: "distinct (map fst cs) \<Longrightarrow> distinct (map fst (advanceSource cs ev))"
  by (simp add: advanceSource_def Let_def)

lemma snd_set_update: "snd ` set (AList.update k v al) \<subseteq> insert v (snd ` set al)"
  by (induction al) auto

lemma slowest_bounded:
  assumes "\<forall>c \<in> snd ` set srcs. MaxEventTime c \<le> B" and "0 \<le> B"
  shows "slowestActiveSource srcs now idle \<le> B"
proof -
  have "fold (slowest_step now idle) cs acc \<le> B"
    if "\<forall>c \<in> set cs. MaxEventTime c \<le> B" "acc \<le> B" for cs acc
    using that by (induction cs arbitrary: acc) (auto simp: slowest_step_def)
  with assms show ?thesis
    by (simp add: slowestActiveSource_def)
qed

lemma advanceSource_bounded:
  assumes "\<forall>c \<in> snd ` set srcs. MaxEventTime c \<le> B" and "0 \<le> B" and "ec_EventTime ev \<le> B"
  shows "\<forall>c \<in> snd ` set (advanceSource srcs ev). MaxEventTime c \<le> B"
proof -
  define old where "old = (case map_of srcs (ec_Source ev) of
      None \<Rightarrow> \<lparr>MaxEventTime = 0, LastIngestedAt = 0\<rparr> | Some c \<Rightarrow> c)"
  define new where "new = \<lparr>MaxEventTime = later (MaxEventTime old) (ec_EventTime ev),
      LastIngestedAt = later (LastIngestedAt old) (ec_IngestedAt ev)\<rparr>"
  have "MaxEventTime old \<le> B"
    using assms(1,2) by (force simp: old_def split: option.splits dest: map_of_SomeD)
  then have "MaxEventTime new \<le> B"
    using assms(3) by (simp add: new_def later_max)
  moreover have "advanceSource srcs ev = AList.update (ec_Source ev) new srcs"
    by (simp add: advanceSource_def new_def old_def Let_def)
  ultimately show ?thesis
    using snd_set_update[of "ec_Source ev" new srcs] assms(1) by (metis insertE subsetD)
qed

lemma beyondClockSkew_False:
  "beyondClockSkew ev tolerance = Inr False \<Longrightarrow> ParseDuration tolerance = Inr tol \<Longrightarrow>
    ec_EventTime ev \<le> ec_IngestedAt ev + tol"
  by (auto simp: beyondClockSkew_def ParseDuration_def split: if_splits)

lemma run_partition_Cons:
  "run_partition pol ((pos, ev) # evs) cp = Inr (cp', ds) \<longleftrightarrow>
    (\<exists>p ds'. PlaceInTime ev cp pol = Inr p \<and> ds = tp_Disposition p # ds' \<and>
       run_partition pol evs (checkpoint_after pos p) = Inr (cp', ds'))"
  by (auto simp: bind_res_Inr_iff)

lemma PlaceInTime_watermark_mono:
  "PlaceInTime ev cp pol = Inr p \<Longrightarrow> cp_Watermark cp \<noteq> 0 \<Longrightarrow>
    cp_Watermark cp \<le> pc_Watermark (tp_Clock p)"
  by (auto simp: PlaceInTime_Inr partitionWatermark_Inr)

text \<open>
  What clock skew fencing keeps true of a partition: no source clock is ahead of \<open>B\<close>, and the
  watermark is at least the lag behind it.
\<close>

definition skew_bounded :: "time \<Rightarrow> duration \<Rightarrow> checkpoint \<Rightarrow> bool" where
  "skew_bounded B lag cp \<longleftrightarrow> (\<forall>c \<in> snd ` set (cp_Sources cp). MaxEventTime c \<le> B) \<and>
     (cp_Watermark cp = 0 \<or> cp_Watermark cp \<le> B + neg_duration lag)"

lemma PlaceInTime_skew_bounded:
  assumes ok: "skew_bounded (T + tol) lag cp" and p: "PlaceInTime ev cp pol = Inr p"
    and tol: "ParseDuration (ClockSkewTolerance pol) = Inr tol" "0 \<le> tol"
    and lag: "ParseDuration (MaxOutOfOrderness pol) = Inr lag"
    and T: "ec_IngestedAt ev \<le> T" "0 \<le> T"
  shows "skew_bounded (T + tol) lag (checkpoint_after pos p)"
proof (cases "beyondClockSkew ev (ClockSkewTolerance pol) = Inr True")
  case True
  with ok p show ?thesis by (auto simp: PlaceInTime_Inr checkpoint_after_def skew_bounded_def)
next
  case False
  with p have fresh: "beyondClockSkew ev (ClockSkewTolerance pol) = Inr False"
    and srcs: "pc_Sources (tp_Clock p) = advanceSource (cp_Sources cp) ev"
    and wm: "partitionWatermark (pc_Sources (tp_Clock p)) (ec_IngestedAt ev) pol (cp_Watermark cp)
      = Inr (pc_Watermark (tp_Clock p))"
    by (auto simp: PlaceInTime_Inr)
  have "ec_EventTime ev \<le> T + tol"
    using beyondClockSkew_False[OF fresh tol(1)] T(1) by simp
  then have bound: "\<forall>c \<in> snd ` set (pc_Sources (tp_Clock p)). MaxEventTime c \<le> T + tol"
    unfolding srcs using ok T(2) tol(2) by (intro advanceSource_bounded) (auto simp: skew_bounded_def)
  then have slow: "slowestActiveSource (pc_Sources (tp_Clock p)) now idle \<le> T + tol" for now idle
    using T(2) tol(2) by (intro slowest_bounded) auto
  obtain idle where "pc_Watermark (tp_Clock p) =
      (if cp_Watermark cp = 0 then slowestActiveSource (pc_Sources (tp_Clock p)) (ec_IngestedAt ev) idle + neg_duration lag
       else max (slowestActiveSource (pc_Sources (tp_Clock p)) (ec_IngestedAt ev) idle + neg_duration lag) (cp_Watermark cp))"
    using wm lag by (auto simp: partitionWatermark_Inr)
  with slow[of "ec_IngestedAt ev" idle] ok bound show ?thesis
    by (auto simp: checkpoint_after_def skew_bounded_def max_def split: if_splits)
qed

lemma run_skew_bounded_from:
  assumes "run_partition pol evs cp = Inr (cp', ds)" and "skew_bounded (T + tol) lag cp"
    and "ParseDuration (ClockSkewTolerance pol) = Inr tol" "0 \<le> tol"
    and "ParseDuration (MaxOutOfOrderness pol) = Inr lag"
    and "\<forall>(pos, ev) \<in> set evs. ec_IngestedAt ev \<le> T" "0 \<le> T"
  shows "skew_bounded (T + tol) lag cp'"
  using assms
proof (induction evs arbitrary: cp ds)
  case (Cons e evs)
  obtain pos ev where e: "e = (pos, ev)" by (cases e)
  from Cons.prems(1) obtain p ds' where p: "PlaceInTime ev cp pol = Inr p"
    and rest: "run_partition pol evs (checkpoint_after pos p) = Inr (cp', ds')"
    unfolding e run_partition_Cons by blast
  have "skew_bounded (T + tol) lag (checkpoint_after pos p)"
    using PlaceInTime_skew_bounded[OF Cons.prems(2) p Cons.prems(3-5)] Cons.prems(6,7) e by auto
  from Cons.IH[OF rest this Cons.prems(3-5)] Cons.prems(6,7) show ?case by simp
qed simp

lemma run_skew_bounded:
  assumes "run_partition pol evs \<lparr>LastPosition = 0, cp_Watermark = 0, cp_Sources = []\<rparr> = Inr (cp', ds)"
    and "ParseDuration (ClockSkewTolerance pol) = Inr tol" "0 \<le> tol"
    and "ParseDuration (MaxOutOfOrderness pol) = Inr lag"
    and "\<forall>(pos, ev) \<in> set evs. ec_IngestedAt ev \<le> T" "0 \<le> T"
  shows "skew_bounded (T + tol) lag cp'"
  by (rule run_skew_bounded_from[OF assms(1) _ assms(2-)]) (simp add: skew_bounded_def)

section \<open>Properties\<close>

text \<open>
  Claim C33. The watermark of a partition never moves back: over any run of events, in any order of
  event times and from any sources, the checkpoint's watermark is at least what it was.
\<close>

theorem watermark_never_regresses:
  assumes "run_partition pol evs cp = Inr (cp', ds)" and "0 < cp_Watermark cp"
  shows "cp_Watermark cp \<le> cp_Watermark cp'"
  using assms
proof (induction evs arbitrary: cp ds)
  case (Cons e evs)
  obtain pos ev where e: "e = (pos, ev)" by (cases e)
  from Cons.prems(1) obtain p ds' where p: "PlaceInTime ev cp pol = Inr p"
    and rest: "run_partition pol evs (checkpoint_after pos p) = Inr (cp', ds')"
    unfolding e run_partition_Cons by blast
  have le: "cp_Watermark cp \<le> cp_Watermark (checkpoint_after pos p)"
    using PlaceInTime_watermark_mono[OF p] Cons.prems(2) by (simp add: checkpoint_after_def)
  with Cons.IH[OF rest] Cons.prems(2) show ?case by simp
qed simp

abbreviation demo_time_policy :: time_policy where
  "demo_time_policy \<equiv> \<lparr>WatermarkStrategy = ''bounded'', MaxOutOfOrderness = ''10s'', IdleTimeout = ''1m'',
     AllowedLateness = ''5s'', LatePolicy = ''correct'', ClockSkewTolerance = ''2s''\<rparr>"

abbreviation demo_event :: "string \<Rightarrow> time \<Rightarrow> time \<Rightarrow> event_clock" where
  "demo_event src et ing \<equiv> \<lparr>ec_Source = src, ec_EventTime = et, ec_IngestedAt = ing\<rparr>"

abbreviation demo_checkpoint :: checkpoint where
  "demo_checkpoint \<equiv> \<lparr>LastPosition = 1, cp_Watermark = 90000000000,
     cp_Sources = [(''a'', \<lparr>MaxEventTime = 100000000000, LastIngestedAt = 100000000000\<rparr>)]\<rparr>"

theorem watermark_never_regresses_witness:
  "\<exists>cp' ds. run_partition demo_time_policy
     [(2, demo_event ''a'' 120000000000 120000000000), (3, demo_event ''b'' 60000000000 121000000000)]
     demo_checkpoint = Inr (cp', ds) \<and> ds = [OnTime, LateBeyondAllowedLateness] \<and>
     cp_Watermark demo_checkpoint \<le> cp_Watermark cp'"
proof -
  have run: "run_partition demo_time_policy
     [(2, demo_event ''a'' 120000000000 120000000000), (3, demo_event ''b'' 60000000000 121000000000)]
     demo_checkpoint = Inr (\<lparr>LastPosition = 3, cp_Watermark = 110000000000,
        cp_Sources = [(''a'', \<lparr>MaxEventTime = 120000000000, LastIngestedAt = 120000000000\<rparr>),
                      (''b'', \<lparr>MaxEventTime = 60000000000, LastIngestedAt = 121000000000\<rparr>)]\<rparr>,
        [OnTime, LateBeyondAllowedLateness])"
    by code_simp
  have "0 < cp_Watermark demo_checkpoint" by simp
  note mono = watermark_never_regresses[OF run this]
  show ?thesis
    by (intro exI conjI) (rule run, rule refl, rule mono)
qed

text \<open>
  The slowest active source is the least of the newest event times of the active sources,
  whatever order the map of sources is iterated in (event times are non-zero, which the envelope
  validation requires).
\<close>

theorem slowestActiveSource_is_least:
  assumes "\<forall>c \<in> set (map snd sources). MaxEventTime c \<noteq> 0"
    and "mset sources = mset sources'"
  shows "slowestActiveSource sources' now idle = slowestActiveSource sources now idle \<and>
    (\<forall>c \<in> set (map snd sources). source_active now idle c \<longrightarrow>
       slowestActiveSource sources now idle \<le> MaxEventTime c)"
proof (intro conjI ballI impI)
  have same: "set (map snd sources') = set (map snd sources)"
    using assms(2) by (metis mset_map mset_eq_setD)
  then show "slowestActiveSource sources' now idle = slowestActiveSource sources now idle"
    using slowest_min[of sources] slowest_min[of sources'] assms(1) by (simp add: filter_empty_conv)
next
  fix c assume "c \<in> set (map snd sources)" "source_active now idle c"
  then show "slowestActiveSource sources now idle \<le> MaxEventTime c"
    using assms(1) by (subst slowest_min) (auto simp: filter_empty_conv)
qed

theorem slowestActiveSource_is_least_witness:
  "slowestActiveSource [(''b'', \<lparr>MaxEventTime = 5, LastIngestedAt = 9\<rparr>),
     (''a'', \<lparr>MaxEventTime = 3, LastIngestedAt = 9\<rparr>)] 10 4 = 3"
proof -
  let ?xs = "[(''a'', \<lparr>MaxEventTime = 3, LastIngestedAt = 9\<rparr>), (''b'', \<lparr>MaxEventTime = 5, LastIngestedAt = 9\<rparr>)]"
  have "slowestActiveSource ?xs 10 4 = 3"
    by code_simp
  then show ?thesis
    using slowestActiveSource_is_least[of ?xs "rev ?xs" 10 4] by simp
qed

text \<open>
  An event changes the stream state only if it may: it is not ahead of its ingestion by
  more than the clock skew tolerance, and it is on time for the watermark the partition had, or
  late within the allowed lateness under a policy that corrects.
\<close>

theorem PlaceInTime_changes_state:
  assumes "PlaceInTime ev cp pol = Inr p"
  shows "ChangesState (tp_Disposition p) \<longleftrightarrow>
    beyondClockSkew ev (ClockSkewTolerance pol) = Inr False \<and>
    (cp_Watermark cp = 0 \<or> cp_Watermark cp \<le> ec_EventTime ev \<or>
     (\<exists>allowed. allowedLateness (AllowedLateness pol) = Inr allowed \<and>
        time_sub (cp_Watermark cp) (ec_EventTime ev) \<le> allowed \<and>
        LatePolicy pol \<in> {''correct'', ''correct_and_reconsider''}))"
  using assms
  by (cases "allowedLateness (AllowedLateness pol)")
    (auto simp: PlaceInTime_Inr ClassifyLateness_def ChangesState_def latePolicyDisposition_def
      split: if_splits)

theorem PlaceInTime_changes_state_witness:
  "\<exists>p. PlaceInTime (demo_event ''a'' 87000000000 120000000000) demo_checkpoint demo_time_policy = Inr p \<and>
     tp_Disposition p = LateCorrected \<and> ChangesState (tp_Disposition p)"
proof -
  have place: "PlaceInTime (demo_event ''a'' 87000000000 120000000000) demo_checkpoint demo_time_policy =
     Inr \<lparr>tp_Clock = \<lparr>pc_Watermark = 90000000000,
            pc_Sources = [(''a'', \<lparr>MaxEventTime = 100000000000, LastIngestedAt = 120000000000\<rparr>)]\<rparr>,
          tp_Disposition = LateCorrected\<rparr>"
    by code_simp
  have "beyondClockSkew (demo_event ''a'' 87000000000 120000000000) ''2s'' = Inr False"
    "allowedLateness ''5s'' = Inr 5000000000" "time_sub 90000000000 87000000000 \<le> 5000000000"
    by code_simp+
  then show ?thesis
    using PlaceInTime_changes_state[OF place] place by simp
qed

text \<open>
  Claim C34. A producer cannot run the watermark ahead of the runtime: when a clock skew tolerance is
  set, the watermark after any run from a fresh partition is at most the latest ingestion time plus
  the tolerance, less the out-of-orderness lag.
\<close>

theorem watermark_bounded_by_ingestion:
  assumes run: "run_partition pol evs \<lparr>LastPosition = 0, cp_Watermark = 0, cp_Sources = []\<rparr> = Inr (cp', ds)"
    and "ParseDuration (ClockSkewTolerance pol) = Inr tol" "0 \<le> tol"
    and "ParseDuration (MaxOutOfOrderness pol) = Inr lag"
    and "\<forall>(pos, ev) \<in> set evs. ec_IngestedAt ev \<le> T" "0 \<le> T"
  shows "cp_Watermark cp' = 0 \<or> cp_Watermark cp' \<le> T + tol + neg_duration lag"
  using run_skew_bounded[OF assms] by (simp add: skew_bounded_def)

theorem watermark_bounded_by_ingestion_witness:
  "\<exists>cp' ds. run_partition demo_time_policy [(1, demo_event ''a'' 101000000000 100000000000)]
     \<lparr>LastPosition = 0, cp_Watermark = 0, cp_Sources = []\<rparr> = Inr (cp', ds) \<and>
     cp_Watermark cp' = 91000000000 \<and> cp_Watermark cp' \<le> 92000000000"
proof -
  have run: "run_partition demo_time_policy [(1, demo_event ''a'' 101000000000 100000000000)]
     \<lparr>LastPosition = 0, cp_Watermark = 0, cp_Sources = []\<rparr> =
     Inr (\<lparr>LastPosition = 1, cp_Watermark = 91000000000,
           cp_Sources = [(''a'', \<lparr>MaxEventTime = 101000000000, LastIngestedAt = 100000000000\<rparr>)]\<rparr>, [OnTime])"
    by code_simp
  have "ParseDuration ''2s'' = Inr 2000000000" "ParseDuration ''10s'' = Inr 10000000000"
    by code_simp+
  then show ?thesis
    using watermark_bounded_by_ingestion[OF run, of 2000000000 10000000000 100000000000] run by simp
qed

end
