(* ===== verification/Kernel.thy ===== *)
theory Kernel
  imports Go_Prelude
begin

text \<open>
  The shared kernel (\<open>src/internal/kernel\<close>): durable timestamp text and digest text.

  \<^item> \<open>FormatTime\<close> renders an instant with a fixed nine-digit fraction in UTC; the calendar of the
    \<open>time\<close> package (proleptic Gregorian) is computed from the day count since 1 January of year 1.
  \<^item> \<open>sha256\<close> is the FIPS 180-4 function of \<open>crypto/sha256\<close> on byte strings; \<open>EncodeDigest\<close> and
    \<open>DecodeDigest\<close> are the text form the contracts carry.

  The theorems show that text order is time order for the years 0 to 9999 and that the digest text is
  a bijection between 32-byte sums and the accepted texts.
\<close>

section \<open>Decimal text\<close>

definition digit_char :: "int \<Rightarrow> char" where
  "digit_char d = char_of (48 + d)"

fun digits_w :: "nat \<Rightarrow> int \<Rightarrow> string" where
  "digits_w 0 n = []"
| "digits_w (Suc w) n = digits_w w (n div 10) @ [digit_char (n mod 10)]"

function dec_digits :: "int \<Rightarrow> string" where
  "dec_digits n = (if n < 10 then [digit_char n] else dec_digits (n div 10) @ [digit_char (n mod 10)])"
  by auto
termination by (relation "measure nat") auto

declare dec_digits.simps [simp del]

text \<open>\<open>%d\<close> of an integer.\<close>

definition show_int :: "int \<Rightarrow> string" where
  "show_int n = (if n < 0 then ''-'' @ dec_digits (- n) else dec_digits n)"

text \<open>\<open>time.appendInt\<close>: a sign when negative, and at least \<open>w\<close> digits.\<close>

definition append_int :: "nat \<Rightarrow> int \<Rightarrow> string" where
  "append_int w n = (if n < 0 then ''-'' else []) @
     (if \<bar>n\<bar> < 10 ^ w then digits_w w \<bar>n\<bar> else dec_digits \<bar>n\<bar>)"

section \<open>The calendar\<close>

definition second :: int where "second = 1000000000"
definition day_ns :: int where "day_ns = 86400000000000"

definition days_before_year :: "int \<Rightarrow> int" where
  "days_before_year y = 365 * (y - 1) + (y - 1) div 4 - (y - 1) div 100 + (y - 1) div 400"

definition is_leap :: "int \<Rightarrow> bool" where
  "is_leap y \<longleftrightarrow> 4 dvd y \<and> (\<not> 100 dvd y \<or> 400 dvd y)"

definition year_of_day :: "int \<Rightarrow> int" where
  "year_of_day d = (let y = (400 * d) div 146097 + 1
                    in if days_before_year (y + 1) \<le> d then y + 1 else y)"

text \<open>The month of a day of the year and the day count before it, by walking the month lengths.\<close>

definition month_lengths :: "bool \<Rightarrow> int list" where
  "month_lengths leap = [31, if leap then 29 else 28, 31, 30, 31, 30, 31, 31, 30, 31, 30, 31]"

fun month_walk :: "int \<Rightarrow> int list \<Rightarrow> int \<Rightarrow> int \<times> int" where
  "month_walk m [] d = (m, d)"
| "month_walk m (l # ls) d = (if d < l then (m, d) else month_walk (m + 1) ls (d - l))"

definition civil :: "int \<Rightarrow> int \<times> int \<times> int" where
  "civil d = (let y = year_of_day d;
                  (m, k) = month_walk 1 (month_lengths (is_leap y)) (d - days_before_year y)
              in (y, m, k + 1))"

definition FormatTime :: "time \<Rightarrow> string" where
  "FormatTime t =
     (let (y, m, d) = civil (t div day_ns); s = t mod day_ns div second; ns = t mod second
      in append_int 4 y @ ''-'' @ digits_w 2 m @ ''-'' @ digits_w 2 d @ ''T'' @
         digits_w 2 (s div 3600) @ '':'' @ digits_w 2 (s div 60 mod 60) @ '':'' @ digits_w 2 (s mod 60) @
         ''.'' @ digits_w 9 ns @ ''Z'')"

section \<open>Digest text\<close>

definition hex_digit :: "int \<Rightarrow> char" where
  "hex_digit d = char_of (if d < 10 then 48 + d else 87 + d)"

definition hex_value :: "char \<Rightarrow> int option" where
  "hex_value c = (let n = of_char c :: int in
     if 48 \<le> n \<and> n \<le> 57 then Some (n - 48)
     else if 97 \<le> n \<and> n \<le> 102 then Some (n - 87)
     else if 65 \<le> n \<and> n \<le> 70 then Some (n - 55) else None)"

fun hex_encode :: "string \<Rightarrow> string" where
  "hex_encode [] = []"
| "hex_encode (c # cs) = hex_digit (of_char c div 16) # hex_digit (of_char c mod 16) # hex_encode cs"

fun hex_decode :: "string \<Rightarrow> string option" where
  "hex_decode [] = Some []"
| "hex_decode [c] = None"
| "hex_decode (a # b # cs) = (case (hex_value a, hex_value b, hex_decode cs) of
     (Some h, Some l, Some rest) \<Rightarrow> Some (char_of (16 * h + l) # rest)
   | _ \<Rightarrow> None)"

definition digestPrefix :: string where
  "digestPrefix = ''sha256:''"

definition EncodeDigest :: "string \<Rightarrow> string" where
  "EncodeDigest bs = digestPrefix @ hex_encode bs"

text \<open>\<open>strings.ToLower\<close> changes a text that contains an ASCII capital; hex text is ASCII, and any
  other letter it would change is refused by \<open>hex.DecodeString\<close> as well.\<close>

definition has_upper :: "string \<Rightarrow> bool" where
  "has_upper s \<longleftrightarrow> (\<exists>c \<in> set s. 65 \<le> (of_char c :: int) \<and> (of_char c :: int) \<le> 90)"

definition DecodeDigest :: "string \<Rightarrow> string result" where
  "DecodeDigest digest =
     (if \<not> has_prefix digest digestPrefix then Inl (Errorf ''digest must use prefix'')
      else let encoded = drop (length digestPrefix) digest
        in if has_upper encoded then Inl (Errorf ''digest must use lowercase hex'')
           else case hex_decode encoded of
             None \<Rightarrow> Inl (Errorf ''decode digest'')
           | Some decoded \<Rightarrow>
               if length decoded \<noteq> 32 then Inl (Errorf ''digest length'') else Inr decoded)"

section \<open>SHA-256\<close>

type_synonym w32 = "32 word"

definition rotr :: "nat \<Rightarrow> w32 \<Rightarrow> w32" where
  "rotr n x = drop_bit n x OR push_bit (32 - n) x"

text \<open>The first 32 bits of the fractional parts of the cube roots of the first 64 primes.\<close>

definition sha_k :: "w32 list" where
  "sha_k = map of_int
    [1116352408, 1899447441, 3049323471, 3921009573, 961987163, 1508970993, 2453635748, 2870763221,
     3624381080, 310598401, 607225278, 1426881987, 1925078388, 2162078206, 2614888103, 3248222580,
     3835390401, 4022224774, 264347078, 604807628, 770255983, 1249150122, 1555081692, 1996064986,
     2554220882, 2821834349, 2952996808, 3210313671, 3336571891, 3584528711, 113926993, 338241895,
     666307205, 773529912, 1294757372, 1396182291, 1695183700, 1986661051, 2177026350, 2456956037,
     2730485921, 2820302411, 3259730800, 3345764771, 3516065817, 3600352804, 4094571909, 275423344,
     430227734, 506948616, 659060556, 883997877, 958139571, 1322822218, 1537002063, 1747873779,
     1955562222, 2024104815, 2227730452, 2361852424, 2428436474, 2756734187, 3204031479, 3329325298]"

definition word_of_bytes :: "string \<Rightarrow> w32" where
  "word_of_bytes bs = foldl (\<lambda>acc c. acc * 256 + of_int (of_char c)) 0 bs"

fun chunks :: "nat \<Rightarrow> nat \<Rightarrow> 'a list \<Rightarrow> 'a list list" where
  "chunks 0 n xs = []"
| "chunks (Suc k) n xs = take n xs # chunks k n (drop n xs)"

fun bytes_be :: "nat \<Rightarrow> int \<Rightarrow> string" where
  "bytes_be 0 n = []"
| "bytes_be (Suc k) n = bytes_be k (n div 256) @ [char_of (n mod 256)]"

definition sha_pad :: "string \<Rightarrow> string" where
  "sha_pad m = m @ [char_of (128::nat)] @ replicate (nat ((55 - int (length m)) mod 64)) (char_of (0::nat))
     @ bytes_be 8 (8 * int (length m))"

text \<open>The message schedule, newest word first while it grows.\<close>

fun sha_extend :: "nat \<Rightarrow> w32 list \<Rightarrow> w32 list" where
  "sha_extend 0 ws = ws"
| "sha_extend (Suc k) ws =
     (let a = ws ! 14; b = ws ! 1;
          s0 = rotr 7 a XOR rotr 18 a XOR drop_bit 3 a;
          s1 = rotr 17 b XOR rotr 19 b XOR drop_bit 10 b
      in sha_extend k ((ws ! 15 + s0 + ws ! 6 + s1) # ws))"

type_synonym sha_state = "w32 \<times> w32 \<times> w32 \<times> w32 \<times> w32 \<times> w32 \<times> w32 \<times> w32"

definition sha_init :: sha_state where
  "sha_init = (1779033703, 3144134277, 1013904242, 2773480762, 1359893119, 2600822924, 528734635, 1541459225)"

definition sha_round :: "sha_state \<Rightarrow> w32 \<times> w32 \<Rightarrow> sha_state" where
  "sha_round st kw = (case st of (a, b, c, d, e, f, g, h) \<Rightarrow>
     let s1 = rotr 6 e XOR rotr 11 e XOR rotr 25 e;
         ch = (e AND f) XOR (NOT e AND g);
         t1 = h + s1 + ch + fst kw + snd kw;
         s0 = rotr 2 a XOR rotr 13 a XOR rotr 22 a;
         maj = (a AND b) XOR (a AND c) XOR (b AND c)
     in (t1 + s0 + maj, a, b, c, d + t1, e, f, g))"

definition sha_block :: "sha_state \<Rightarrow> string \<Rightarrow> sha_state" where
  "sha_block st block =
     (let ws = rev (sha_extend 48 (rev (map word_of_bytes (chunks 16 4 block))))
      in case (st, foldl sha_round st (zip sha_k ws)) of
           ((a, b, c, d, e, f, g, h), (a', b', c', d', e', f', g', h')) \<Rightarrow>
             (a + a', b + b', c + c', d + d', e + e', f + f', g + g', h + h'))"

definition sha256 :: "string \<Rightarrow> string" where
  "sha256 m = (let p = sha_pad m in
     case foldl sha_block sha_init (chunks (length p div 64) 64 p) of (a, b, c, d, e, f, g, h) \<Rightarrow>
       concat (map (\<lambda>w. bytes_be 4 (uint w)) [a, b, c, d, e, f, g, h]))"

lemma length_bytes_be [simp]: "length (bytes_be k n) = k"
  by (induction k arbitrary: n) auto

lemma length_sha256 [simp]: "length (sha256 m) = 32"
  by (simp add: sha256_def Let_def split: prod.splits)

section \<open>Digest text is a bijection\<close>

lemma of_char_range: "0 \<le> (of_char c :: int)" "(of_char c :: int) < 256"
  using pos_mod_bound[of 256 "of_char c :: int"] pos_mod_sign[of 256 "of_char c :: int"] by simp_all

lemma char_eq_of_int: "c = d \<longleftrightarrow> (of_char c :: int) = of_char d"
  by simp

lemma hex_value_hex_digit [simp]: "0 \<le> d \<Longrightarrow> d < 16 \<Longrightarrow> hex_value (hex_digit d) = Some d"
  by (auto simp: hex_value_def hex_digit_def)

lemma hex_decode_hex_encode [simp]: "hex_decode (hex_encode bs) = Some bs"
proof (induction bs)
  case (Cons c cs)
  have "0 \<le> (of_char c :: int) div 16" "(of_char c :: int) div 16 < 16"
    using of_char_range[of c] by linarith+
  with Cons show ?case by (simp add: mult.commute)
qed simp

lemma hex_encode_not_upper [simp]: "\<not> has_upper (hex_encode bs)"
proof (induction bs)
  case (Cons c cs)
  have "\<not> (65 \<le> (of_char (hex_digit d) :: int) \<and> (of_char (hex_digit d) :: int) \<le> 90)" if "0 \<le> d" "d < 16" for d
    using that by (auto simp: hex_digit_def)
  moreover have "0 \<le> (of_char c :: int) div 16" "(of_char c :: int) div 16 < 16"
    using of_char_range[of c] by linarith+
  ultimately show ?case
    using Cons by (auto simp: has_upper_def)
qed (simp add: has_upper_def)

lemma hex_value_Some:
  "hex_value c = Some v \<Longrightarrow> \<not> (65 \<le> (of_char c :: int) \<and> (of_char c :: int) \<le> 90)
     \<Longrightarrow> 0 \<le> v \<and> v < 16 \<and> hex_digit v = c"
  unfolding char_eq_of_int by (auto simp: hex_value_def hex_digit_def Let_def split: if_splits)

lemma hex_encode_hex_decode:
  "hex_decode s = Some bs \<Longrightarrow> \<not> has_upper s \<Longrightarrow> hex_encode bs = s"
proof (induction s arbitrary: bs rule: hex_decode.induct)
  case (3 a b cs)
  then obtain h l rest where hl: "hex_value a = Some h" "hex_value b = Some l" "hex_decode cs = Some rest"
    and bs: "bs = char_of (16 * h + l) # rest"
    by (auto split: option.splits)
  have "0 \<le> h \<and> h < 16 \<and> hex_digit h = a" "0 \<le> l \<and> l < 16 \<and> hex_digit l = b"
    using hl 3(3) by (auto intro!: hex_value_Some simp: has_upper_def)
  moreover have "hex_encode rest = cs"
    using 3 hl by (auto simp: has_upper_def)
  ultimately show ?case
    using bs by auto
qed (auto simp: has_upper_def)

text \<open>
  The digest text is canonical: \<open>DecodeDigest\<close> accepts a text exactly when it is
  \<open>EncodeDigest\<close> of a 32-byte sum, and returns that sum. In particular decoding inverts encoding, and
  two different accepted texts never denote the same digest.
\<close>

theorem DecodeDigest_iff:
  "DecodeDigest text = Inr bs \<longleftrightarrow> text = EncodeDigest bs \<and> length bs = 32"
proof
  assume dec: "DecodeDigest text = Inr bs"
  then have pre: "has_prefix text digestPrefix"
    and up: "\<not> has_upper (drop (length digestPrefix) text)"
    and hex: "hex_decode (drop (length digestPrefix) text) = Some bs" and len: "length bs = 32"
    by (auto simp: DecodeDigest_def Let_def split: if_splits option.splits)
  from pre obtain r where "text = digestPrefix @ r"
    by (auto simp: has_prefix_iff)
  with up hex len hex_encode_hex_decode[of r bs] show "text = EncodeDigest bs \<and> length bs = 32"
    by (simp add: EncodeDigest_def)
qed (auto simp: DecodeDigest_def EncodeDigest_def)

text \<open>Every digest the program writes is accepted again.\<close>

lemma DecodeDigest_sha256: "DecodeDigest (EncodeDigest (sha256 m)) = Inr (sha256 m)"
  by (simp add: DecodeDigest_def EncodeDigest_def)


section \<open>Text order is time order\<close>

lemma div_mod_less: "0 < n \<Longrightarrow> a < b \<Longrightarrow> a div n < b div n \<or> a div n = b div n \<and> a mod n < (b::int) mod n"
proof (cases "a div n = b div n")
  case True
  assume "a < b"
  then show ?thesis
    using True by (simp add: minus_mult_div_eq_mod[symmetric])
qed (use zdiv_mono1[of a b n] in auto)

lemma int_less_iff: "(of_char c :: nat) < of_char d \<longleftrightarrow> (of_char c :: int) < of_char d"
  using of_nat_less_iff[where ?'a = int, of "of_char c" "of_char d"] by (simp add: of_nat_of_char)

lemma digit_char_less: "0 \<le> a \<Longrightarrow> a < 10 \<Longrightarrow> 0 \<le> b \<Longrightarrow> b < 10 \<Longrightarrow> digit_char a < digit_char b \<longleftrightarrow> a < b"
  by (simp add: digit_char_def less_char_def int_less_iff del: less_char_simp)

lemma append_less_append:
  fixes u v x y :: "'a::linorder list"
  shows "length u = length v \<Longrightarrow> u @ x < v @ y \<longleftrightarrow> u < v \<or> u = v \<and> x < y"
  by (induction u v rule: list_induct2) auto

lemma length_digits_w [simp]: "length (digits_w w n) = w"
  by (induction w arbitrary: n) auto

lemma digits_w_less:
  "0 \<le> a \<Longrightarrow> a < 10 ^ w \<Longrightarrow> 0 \<le> b \<Longrightarrow> b < 10 ^ w \<Longrightarrow> digits_w w a < digits_w w b \<longleftrightarrow> a < b"
proof (induction w arbitrary: a b)
  case (Suc w)
  have ih: "digits_w w (a div 10) < digits_w w (b div 10) \<longleftrightarrow> a div 10 < b div 10"
    "digits_w w (b div 10) < digits_w w (a div 10) \<longleftrightarrow> b div 10 < a div 10"
    using Suc by (auto intro!: Suc.IH)
  then have eq: "digits_w w (a div 10) = digits_w w (b div 10) \<longleftrightarrow> a div 10 = b div 10"
    by (metis less_irrefl linorder_less_linear)
  have split: "a < b \<longleftrightarrow> a div 10 < b div 10 \<or> a div 10 = b div 10 \<and> a mod 10 < b mod 10"
    using div_mod_less[of 10 a b] div_mod_less[of 10 b a] by (cases a b rule: linorder_cases) auto
  show ?case
    using ih(1) eq digit_char_less[of "a mod 10" "b mod 10"] split
    by (simp add: append_less_append)
qed simp

lemma digits_w_eq:
  "0 \<le> a \<Longrightarrow> a < 10 ^ w \<Longrightarrow> 0 \<le> b \<Longrightarrow> b < 10 ^ w \<Longrightarrow> digits_w w a = digits_w w b \<longleftrightarrow> a = b"
  by (metis digits_w_less less_irrefl linorder_less_linear)

lemma div_bounds: "0 < n \<Longrightarrow> n * (a div n) \<le> (a::int) \<and> a < n * (a div n + 1)"
proof -
  assume n: "0 < n"
  have "n * (a div n) = a - a mod n"
    by (simp add: minus_mod_eq_mult_div)
  with pos_mod_bound[OF n, of a] pos_mod_sign[OF n, of a] show ?thesis
    by (simp add: distrib_left)
qed

lemma days_before_year_bounds:
  "146097 * (y - 1) - 699 \<le> 400 * days_before_year y \<and> 400 * days_before_year y \<le> 146097 * (y - 1) + 396"
  using div_bounds[of 4 "y - 1"] div_bounds[of 100 "y - 1"] div_bounds[of 400 "y - 1"]
  unfolding days_before_year_def by (simp add: algebra_simps)

lemma year_of_day_bounds:
  "days_before_year (year_of_day d) \<le> d \<and> d < days_before_year (year_of_day d + 1)"
proof -
  define k where "k = 400 * d div 146097"
  have k: "146097 * k \<le> 400 * d" "400 * d < 146097 * (k + 1)"
    unfolding k_def using div_bounds[of 146097 "400 * d"] by auto
  have "days_before_year (k + 1) \<le> d" "d < days_before_year (k + 3)"
    using k days_before_year_bounds[of "k + 1"] days_before_year_bounds[of "k + 3"] by simp_all
  then show ?thesis
    unfolding year_of_day_def k_def Let_def by (auto simp: add.assoc)
qed

lemma days_before_year_mono: "y \<le> z \<Longrightarrow> days_before_year y \<le> days_before_year z"
proof (cases "y = z")
  case False
  assume "y \<le> z"
  with False have "y < z" by simp
  then show ?thesis
    using days_before_year_bounds[of y] days_before_year_bounds[of z] by simp
qed simp

lemma year_of_day_mono: "d \<le> e \<Longrightarrow> year_of_day d \<le> year_of_day e"
  using year_of_day_bounds[of d] year_of_day_bounds[of e]
    days_before_year_mono[of "year_of_day e + 1" "year_of_day d"] by force

lemma div_step: "0 < n \<Longrightarrow> (y::int) div n - (y - 1) div n = (if n dvd y then 1 else 0)"
proof -
  assume n: "0 < n"
  have "y - 1 = n * (y div n) + (y mod n - 1)"
    by simp
  then have "(y - 1) div n = y div n + (y mod n - 1) div n"
    using n by (metis add.commute div_mult_self4 less_irrefl)
  moreover have "(y mod n - 1) div n = (if n dvd y then -1 else 0)"
    using n pos_mod_bound[OF n, of y] pos_mod_sign[OF n, of y]
    by (auto simp: dvd_eq_mod_eq_0 div_eq_minus1 intro!: div_pos_pos_trivial)
  ultimately show ?thesis by simp
qed

lemma year_length: "days_before_year (y + 1) - days_before_year y = (if is_leap y then 366 else 365)"
proof -
  have imp: "400 dvd y \<longrightarrow> 100 dvd y" "100 dvd y \<longrightarrow> 4 dvd y"
    using dvd_trans[of 100 400 y] dvd_trans[of 4 100 y] by auto
  have step: "y div 4 - (y - 1) div 4 = (if 4 dvd y then 1 else 0)"
    "y div 100 - (y - 1) div 100 = (if 100 dvd y then 1 else 0)"
    "y div 400 - (y - 1) div 400 = (if 400 dvd y then 1 else 0)"
    by (rule div_step; simp)+
  have split: "days_before_year (y + 1) - days_before_year y
      = 365 + (y div 4 - (y - 1) div 4) - (y div 100 - (y - 1) div 100) + (y div 400 - (y - 1) div 400)"
    unfolding days_before_year_def by (simp only: add_diff_cancel_right' algebra_simps) simp
  show ?thesis
    unfolding split step is_leap_def using imp
    by (cases "4 dvd y"; cases "100 dvd y"; cases "400 dvd y") simp_all
qed


lemma month_walk_fst: "m \<le> fst (month_walk m ls d)"
  by (induction m ls d rule: month_walk.induct) auto

lemma month_walk_mono: "d < e \<Longrightarrow> month_walk m ls d < month_walk m ls e"
proof (induction ls arbitrary: m d e)
  case (Cons l ls)
  then show ?case
    using month_walk_fst[of "m + 1" ls "e - l"] Cons.IH[of "d - l" "e - l" "m + 1"]
    by (cases "month_walk (m + 1) ls (e - l)"; cases "month_walk (m + 1) ls (d - l)") auto
qed (simp add: less_prod_def)

lemma month_walk_bounds:
  "0 \<le> d \<Longrightarrow> d < sum_list ls \<Longrightarrow> (\<forall>l \<in> set ls. l \<le> 31)
     \<Longrightarrow> fst (month_walk m ls d) < m + int (length ls) \<and> 0 \<le> snd (month_walk m ls d) \<and> snd (month_walk m ls d) < 31"
  by (induction m ls d rule: month_walk.induct) auto

lemma civil_mono: "d < e \<Longrightarrow> civil d < civil e"
  using year_of_day_mono[of d e]
    month_walk_mono[of "d - days_before_year (year_of_day e)" "e - days_before_year (year_of_day e)" 1
      "month_lengths (is_leap (year_of_day e))"]
  by (cases "year_of_day d = year_of_day e") (auto simp: civil_def Let_def split: prod.splits)

lemma civil_bounds:
  assumes "civil d = (y, m, k)"
  shows "y = year_of_day d" "0 \<le> m" "m < 100" "0 \<le> k" "k < 100"
proof -
  let ?ls = "month_lengths (is_leap (year_of_day d))"
  have "d - days_before_year (year_of_day d) < sum_list ?ls"
    using year_of_day_bounds[of d] year_length[of "year_of_day d"]
    by (auto simp: month_lengths_def split: if_splits)
  then show "y = year_of_day d" "0 \<le> m" "m < 100" "0 \<le> k" "k < 100"
    using assms month_walk_bounds[of "d - days_before_year (year_of_day d)" ?ls 1]
      month_walk_fst[of 1 ?ls "d - days_before_year (year_of_day d)"] year_of_day_bounds[of d]
    by (auto simp: civil_def Let_def month_lengths_def split: prod.splits if_splits)
qed

definition date_text :: "int \<Rightarrow> string" where
  "date_text d = (case civil d of (y, m, k) \<Rightarrow> digits_w 4 y @ ''-'' @ digits_w 2 m @ ''-'' @ digits_w 2 k)"

definition clock_text :: "int \<Rightarrow> string" where
  "clock_text tod = (let s = tod div second in
     digits_w 2 (s div 3600) @ '':'' @ digits_w 2 (s div 60 mod 60) @ '':'' @ digits_w 2 (s mod 60) @
     ''.'' @ digits_w 9 (tod mod second) @ ''Z'')"

lemma FormatTime_split:
  assumes "0 \<le> year_of_day (t div day_ns)" "year_of_day (t div day_ns) \<le> 9999"
  shows "FormatTime t = date_text (t div day_ns) @ ''T'' @ clock_text (t mod day_ns)"
proof -
  have "t mod day_ns mod second = t mod second"
    by (rule mod_mod_cancel) (simp add: day_ns_def second_def)
  with assms civil_bounds(1) show ?thesis
    by (cases "civil (t div day_ns)")
       (auto simp: FormatTime_def date_text_def clock_text_def append_int_def Let_def)
qed

lemma date_text_mono:
  assumes "d < e" "0 \<le> year_of_day d" "year_of_day e \<le> 9999"
  shows "date_text d < date_text e \<and> length (date_text d) = length (date_text e)"
proof -
  obtain y m k y' m' k' where c: "civil d = (y, m, k)" "civil e = (y', m', k')"
    by (metis prod_cases3)
  have "(y, m, k) < (y', m', k')" "0 \<le> y" "y' \<le> 9999" "y \<le> y'"
    using civil_mono[OF assms(1)] c civil_bounds(1) assms year_of_day_mono[of d e] by auto
  then show ?thesis
    using civil_bounds(2-5)[OF c(1)] civil_bounds(2-5)[OF c(2)]
    by (auto simp: date_text_def c append_less_append digits_w_less digits_w_eq less_prod_def)
qed

lemma clock_fields_less:
  assumes "0 \<le> h" "h < 100" "0 \<le> h'" "h' < 100" "0 \<le> n" "n < 10 ^ 9" "0 \<le> n'" "n' < 10 ^ 9"
    and "0 \<le> m" "m < 100" "0 \<le> m'" "m' < 100" "0 \<le> s" "s < 100" "0 \<le> s'" "s' < 100"
    and less: "(h, m, s, n) < (h', m', s', n')"
  shows "digits_w 2 h @ '':'' @ digits_w 2 m @ '':'' @ digits_w 2 s @ ''.'' @ digits_w 9 n @ ''Z''
    < digits_w 2 h' @ '':'' @ digits_w 2 m' @ '':'' @ digits_w 2 s' @ ''.'' @ digits_w 9 n' @ ''Z''"
proof -
  have two: "digits_w 2 x < digits_w 2 y \<longleftrightarrow> x < y" "digits_w 2 x = digits_w 2 y \<longleftrightarrow> x = y"
    if "0 \<le> x" "x < 100" "0 \<le> y" "y < 100" for x y
    using digits_w_less[of x 2 y] digits_w_eq[of x 2 y] that by simp_all
  have "digits_w 9 n < digits_w 9 n' \<longleftrightarrow> n < n'"
    using digits_w_less[of n 9 n'] assms by simp
  then show ?thesis
    using less by (auto simp: append_less_append two assms simp del: digits_w.simps)
qed

lemma lex_refine:
  fixes h m x n s q :: int
  assumes "s < t \<or> s = t \<and> n < n'" and "s < t \<Longrightarrow> q < q' \<or> q = q' \<and> x < x'"
    and "q < q' \<Longrightarrow> h < h' \<or> h = h' \<and> m < m'" and "s = t \<Longrightarrow> q = q' \<and> x = x'" and "q = q' \<Longrightarrow> h = h' \<and> m = m'"
  shows "(h, m, x, n) < (h', m', x', n')"
  using assms by auto

lemma clock_text_mono:
  assumes "a < b" "0 \<le> a" "b < day_ns"
  shows "clock_text a < clock_text b \<and> length (clock_text a) = length (clock_text b)"
proof -
  let ?s = "a div second" and ?t = "b div second"
  have sec: "0 < second" by (simp add: second_def)
  have bounds: "0 \<le> ?s" "?s < 86400" "0 \<le> ?t" "?t < 86400"
    using assms sec div_bounds[OF sec, of a] div_bounds[OF sec, of b]
    by (auto simp: second_def day_ns_def pos_imp_zdiv_nonneg_iff)
  have hours: "?s div 3600 = ?s div 60 div 60" "?t div 3600 = ?t div 60 div 60"
    using div_mult2_eq'[of ?s 60 60] div_mult2_eq'[of ?t 60 60] by simp_all
  have ranges: "0 \<le> ?s div 60 div 60" "?s div 60 div 60 < 100" "0 \<le> ?t div 60 div 60" "?t div 60 div 60 < 100"
    using bounds by (simp_all add: pos_imp_zdiv_nonneg_iff)
  have sixty: "0 \<le> x mod 60" "x mod 60 < 100" "0 \<le> x mod second" "x mod second < 10 ^ 9" for x :: int
    using pos_mod_bound[of 60 x] by (simp_all add: second_def)
  have "(?s div 60 div 60, ?s div 60 mod 60, ?s mod 60, a mod second)
      < (?t div 60 div 60, ?t div 60 mod 60, ?t mod 60, b mod second)"
    by (rule lex_refine[OF div_mod_less[OF sec assms(1)] div_mod_less div_mod_less]) simp_all
  from clock_fields_less[OF ranges sixty(3,4,3,4,1,2,1,2,1,2,1,2) this] show ?thesis
    by (simp add: clock_text_def Let_def hours)
qed

lemma FormatTime_mono:
  assumes "s < t" "0 \<le> year_of_day (s div day_ns)" "year_of_day (s div day_ns) \<le> 9999"
    "0 \<le> year_of_day (t div day_ns)" "year_of_day (t div day_ns) \<le> 9999"
  shows "FormatTime s < FormatTime t"
proof -
  have day: "0 < day_ns" by (simp add: day_ns_def)
  from div_mod_less[OF day assms(1)] show ?thesis
  proof
    assume "s div day_ns < t div day_ns"
    then show ?thesis
      using date_text_mono assms by (simp add: FormatTime_split append_less_append)
  next
    assume "s div day_ns = t div day_ns \<and> s mod day_ns < t mod day_ns"
    then show ?thesis
      using clock_text_mono[of "s mod day_ns" "t mod day_ns"] assms pos_mod_bound[OF day] pos_mod_sign[OF day]
      by (simp add: FormatTime_split append_less_append)
  qed
qed

lemma FormatTime_inj:
  assumes "FormatTime a = FormatTime b" "0 \<le> year_of_day (a div day_ns)" "year_of_day (a div day_ns) \<le> 9999"
    "0 \<le> year_of_day (b div day_ns)" "year_of_day (b div day_ns) \<le> 9999"
  shows "a = b"
  using FormatTime_mono[of a b] FormatTime_mono[of b a] assms by (cases a b rule: linorder_cases) auto

text \<open>
  The durable text of an instant sorts like the instant: for any two instants whose years
  are between 0 and 9999, the texts compare byte-wise exactly as the instants do. This is what every
  SQL comparison and \<open>ORDER BY\<close> on a stored time relies on.
\<close>

theorem FormatTime_order:
  assumes "0 \<le> year_of_day (a div day_ns)" "year_of_day (a div day_ns) \<le> 9999"
    and "0 \<le> year_of_day (b div day_ns)" "year_of_day (b div day_ns) \<le> 9999"
  shows "FormatTime a < FormatTime b \<longleftrightarrow> a < b"
  using FormatTime_mono[of a b] FormatTime_mono[of b a] assms by (metis less_asym linorder_neqE)

theorem FormatTime_order_witness:
  "FormatTime 63900000000000000000 < FormatTime 63900000000000000005 \<and> (63900000000000000000::int) < 63900000000000000005"
  using FormatTime_order[of 63900000000000000000 63900000000000000005]
  by (simp add: year_of_day_def days_before_year_def day_ns_def Let_def)

end
