(* ===== verification/Episode_Queue.thy ===== *)
theory Episode_Queue
  imports Go_Prelude
begin

text \<open>
  The scheduler queue of the episode ledger (\<open>src/internal/episodeledger/internal/domain/queue.go\<close>
  and the row parsing of \<open>store/scheduler_queue.go\<close>): which pending item is admitted next and which
  can never be admitted.

  A stored time column is \<open>ReadableTime t\<close> when \<open>kernel.ParseTime\<close> reads its text as \<open>t\<close> and
  \<open>UnreadableTime s\<close> for any other text \<open>s\<close>. The lemmas show that the poll picks the least admittable
  item of the queue order, that it never hands out an item it reports as expired, and that its answer
  does not depend on the scan order of the table.
\<close>

section \<open>Stored times\<close>

datatype stored_time = ReadableTime time | UnreadableTime string

fun ParseTime :: "stored_time \<Rightarrow> time option" where
  "ParseTime (ReadableTime t) = Some t"
| "ParseTime (UnreadableTime s) = None"

section \<open>Queue items\<close>

record queued_item =
  q_SchedulerItemID :: string
  q_CreatedAt :: time
  q_NotBefore :: "time option"
  q_ExpiresAt :: time

record due_item =
  d_SchedulerItemID :: string
  d_AdmitAt :: time
  d_ExpiresAt :: time

record unreadable_item =
  u_SchedulerItemID :: string
  u_Column :: string

record pending_queue =
  pq_Items :: "queued_item list"
  pq_Unreadable :: "unreadable_item list"

record expired_item =
  x_SchedulerItemID :: string
  x_Reason :: string

record queue_poll =
  p_Next :: string
  p_Found :: bool
  p_Expired :: "expired_item list"

fun compareNotBefore :: "time option \<Rightarrow> time option \<Rightarrow> int" where
  "compareNotBefore None None = 0"
| "compareNotBefore None (Some b) = -1"
| "compareNotBefore (Some a) None = 1"
| "compareNotBefore (Some a) (Some b) = compare3 a b"

definition compareQueueOrder :: "queued_item \<Rightarrow> queued_item \<Rightarrow> int" where
  "compareQueueOrder a b =
     cmp_or (compareNotBefore (q_NotBefore a) (q_NotBefore b))
       (cmp_or (compare3 (q_CreatedAt a) (q_CreatedAt b))
         (compare3 (q_SchedulerItemID a) (q_SchedulerItemID b)))"

definition compareUnreadable :: "unreadable_item \<Rightarrow> unreadable_item \<Rightarrow> int" where
  "compareUnreadable a b = compare3 (u_SchedulerItemID a) (u_SchedulerItemID b)"

definition admitAt :: "queued_item \<Rightarrow> time" where
  "admitAt q = (case q_NotBefore q of
     Some nb \<Rightarrow> if q_CreatedAt q < nb then nb else q_CreatedAt q
   | None \<Rightarrow> q_CreatedAt q)"

fun due_loop :: "time \<Rightarrow> queued_item list \<Rightarrow> due_item list" where
  "due_loop now [] = []"
| "due_loop now (item # rest) =
     (if admitAt item < q_ExpiresAt item \<and> \<not> now < admitAt item
      then \<lparr>d_SchedulerItemID = q_SchedulerItemID item, d_AdmitAt = admitAt item,
            d_ExpiresAt = q_ExpiresAt item\<rparr> # due_loop now rest
      else due_loop now rest)"

definition DueItems :: "queued_item list \<Rightarrow> time \<Rightarrow> due_item list" where
  "DueItems queued now = due_loop now (sort_func compareQueueOrder queued)"

definition Stale :: "due_item \<Rightarrow> time \<Rightarrow> bool" where
  "Stale d now \<longleftrightarrow> \<not> now < d_ExpiresAt d"

definition ReasonExpired :: string where
  "ReasonExpired = ''expired before admission''"

definition unreadableExpiries :: "unreadable_item list \<Rightarrow> expired_item list" where
  "unreadableExpiries unreadable =
     map (\<lambda>item. \<lparr>x_SchedulerItemID = u_SchedulerItemID item,
                  x_Reason = ''unreadable '' @ u_Column item\<rparr>)
       (sort_func compareUnreadable unreadable)"

definition staleExpiries :: "queued_item list \<Rightarrow> time \<Rightarrow> expired_item list" where
  "staleExpiries queued now =
     map (\<lambda>item. \<lparr>x_SchedulerItemID = q_SchedulerItemID item, x_Reason = ReasonExpired\<rparr>)
       (filter (\<lambda>item. \<not> now < q_ExpiresAt item) (sort_func compareQueueOrder queued))"

fun firstAdmittable :: "due_item list \<Rightarrow> time \<Rightarrow> string \<times> bool" where
  "firstAdmittable [] now = ('''', False)"
| "firstAdmittable (item # rest) now =
     (if \<not> Stale item now then (d_SchedulerItemID item, True) else firstAdmittable rest now)"

definition Poll :: "pending_queue \<Rightarrow> time \<Rightarrow> queue_poll" where
  "Poll queue now =
     (let (nxt, found) = firstAdmittable (DueItems (pq_Items queue) now) now
      in \<lparr>p_Next = nxt, p_Found = found,
          p_Expired = unreadableExpiries (pq_Unreadable queue) @ staleExpiries (pq_Items queue) now\<rparr>)"

definition queue_add :: "pending_queue \<Rightarrow> queued_item \<times> string \<Rightarrow> pending_queue" where
  "queue_add q row = (case row of (item, unreadableColumn) \<Rightarrow>
     if unreadableColumn \<noteq> ''''
     then q\<lparr>pq_Unreadable := pq_Unreadable q
              @ [\<lparr>u_SchedulerItemID = q_SchedulerItemID item, u_Column = unreadableColumn\<rparr>]\<rparr>
     else q\<lparr>pq_Items := pq_Items q @ [item]\<rparr>)"

section \<open>Parsing the stored rows\<close>

record queue_row =
  qr_id :: string
  qr_createdAt :: stored_time
  qr_notBefore :: "stored_time option"
  qr_expiresAt :: stored_time

definition parseNotBefore :: "queue_row \<Rightarrow> queued_item \<Rightarrow> queued_item \<times> string" where
  "parseNotBefore r item = (case qr_notBefore r of
     None \<Rightarrow> (item, '''')
   | Some text \<Rightarrow> (case ParseTime text of
       None \<Rightarrow> (item, ''not_before'')
     | Some notBefore \<Rightarrow> (item\<lparr>q_NotBefore := Some notBefore\<rparr>, '''')))"

definition parse_queue_row :: "queue_row \<Rightarrow> queued_item \<times> string" where
  "parse_queue_row r =
     (let item = \<lparr>q_SchedulerItemID = qr_id r, q_CreatedAt = 0, q_NotBefore = None, q_ExpiresAt = 0\<rparr>
      in case ParseTime (qr_createdAt r) of
           None \<Rightarrow> (item, ''created_at'')
         | Some createdAt \<Rightarrow>
             (case ParseTime (qr_expiresAt r) of
                None \<Rightarrow> (item\<lparr>q_CreatedAt := createdAt\<rparr>, ''expires_at'')
              | Some expiresAt \<Rightarrow>
                  parseNotBefore r (item\<lparr>q_CreatedAt := createdAt, q_ExpiresAt := expiresAt\<rparr>)))"

definition collect_queue :: "queue_row list \<Rightarrow> pending_queue" where
  "collect_queue rows =
     foldl (\<lambda>q row. queue_add q (parse_queue_row row)) \<lparr>pq_Items = [], pq_Unreadable = []\<rparr> rows"

section \<open>The queue order\<close>

interpretation notBefore: comparison compareNotBefore "\<lambda>t. t"
proof
  fix x y z :: "time option"
  show "compareNotBefore x y = 0 \<longleftrightarrow> x = y"
    by (cases x; cases y) (auto simp: compare3_def)
  show "compareNotBefore x y < 0 \<longleftrightarrow> 0 < compareNotBefore y x"
    by (cases x; cases y) (auto simp: compare3_def)
  show "compareNotBefore x y \<le> 0 \<Longrightarrow> compareNotBefore y z \<le> 0 \<Longrightarrow> compareNotBefore x z \<le> 0"
    by (cases x; cases y; cases z) (auto simp: compare3_def split: if_splits)
qed

interpretation queueOrder: comparison compareQueueOrder
  "\<lambda>q. (q_NotBefore q, q_CreatedAt q, q_SchedulerItemID q)"
  unfolding compareQueueOrder_def
  by (intro comparison_cmp_or comparison_on[OF notBefore.comparison_axioms] compare3_on)

interpretation unreadableOrder: comparison compareUnreadable u_SchedulerItemID
  unfolding compareUnreadable_def by (rule compare3_on)

lemma queue_keys_inj:
  "distinct (map q_SchedulerItemID qs)
     \<Longrightarrow> inj_on (\<lambda>q. (q_NotBefore q, q_CreatedAt q, q_SchedulerItemID q)) (set qs)"
  by (auto simp: distinct_map inj_on_def)

section \<open>What a poll answers\<close>

definition admittable :: "time \<Rightarrow> queued_item \<Rightarrow> bool" where
  "admittable now q \<longleftrightarrow> admitAt q \<le> now \<and> now < q_ExpiresAt q"

lemma firstAdmittable_due_loop:
  "firstAdmittable (due_loop now qs) now =
     (case find (admittable now) qs of
        None \<Rightarrow> ('''', False) | Some q \<Rightarrow> (q_SchedulerItemID q, True))"
  by (induction qs) (auto simp: admittable_def Stale_def)

lemma find_sorted_least:
  assumes "sorted_wrt (\<lambda>a b. cmp a b \<le> 0) xs" and "find P xs = Some x" and "y \<in> set xs" and "P y"
  shows "y = x \<or> cmp x y \<le> 0"
  using assms
proof (induction xs)
  case (Cons a xs)
  then show ?case
    by (cases "P a") (auto simp: find_Some_iff)
qed simp

lemma staleExpiries_ids:
  "x_SchedulerItemID ` set (staleExpiries qs now)
     = q_SchedulerItemID ` {q \<in> set qs. q_ExpiresAt q \<le> now}"
  by (auto simp: staleExpiries_def image_iff not_less)

lemma unreadableExpiries_ids:
  "x_SchedulerItemID ` set (unreadableExpiries us) = u_SchedulerItemID ` set us"
  by (auto simp: unreadableExpiries_def image_iff)

text \<open>
  Claim C35. The poll finds an item exactly when some item of the queue is admittable (its admission
  time has arrived and its expiry has not). The item it names is then an admittable one that precedes
  every other admittable item in the queue order (not_before, then creation, then identity). The ids
  it lists for expiry are exactly those of the unreadable rows and of the items whose expiry has
  passed, and the named item is not among them when the ids of the queue are distinct.
\<close>

theorem Poll_spec:
  assumes "distinct (map q_SchedulerItemID (pq_Items queue) @ map u_SchedulerItemID (pq_Unreadable queue))"
  shows "(p_Found (Poll queue now) \<longleftrightarrow> (\<exists>q \<in> set (pq_Items queue). admittable now q))
    \<and> (p_Found (Poll queue now) \<longrightarrow>
        (\<exists>q \<in> set (pq_Items queue). admittable now q \<and> p_Next (Poll queue now) = q_SchedulerItemID q
          \<and> (\<forall>q' \<in> set (pq_Items queue). admittable now q' \<longrightarrow> compareQueueOrder q q' \<le> 0))
        \<and> p_Next (Poll queue now) \<notin> x_SchedulerItemID ` set (p_Expired (Poll queue now)))
    \<and> x_SchedulerItemID ` set (p_Expired (Poll queue now))
        = u_SchedulerItemID ` set (pq_Unreadable queue)
          \<union> q_SchedulerItemID ` {q \<in> set (pq_Items queue). q_ExpiresAt q \<le> now}"
proof -
  let ?sorted = "sort_func compareQueueOrder (pq_Items queue)"
  let ?hit = "find (admittable now) ?sorted"
  have ids: "x_SchedulerItemID ` set (p_Expired (Poll queue now))
      = u_SchedulerItemID ` set (pq_Unreadable queue)
        \<union> q_SchedulerItemID ` {q \<in> set (pq_Items queue). q_ExpiresAt q \<le> now}"
    by (simp add: Poll_def Let_def case_prod_beta image_Un staleExpiries_ids unreadableExpiries_ids)
  have poll: "p_Found (Poll queue now) \<longleftrightarrow> ?hit \<noteq> None"
    "\<And>q. ?hit = Some q \<Longrightarrow> p_Next (Poll queue now) = q_SchedulerItemID q"
    by (auto simp: Poll_def Let_def case_prod_beta DueItems_def firstAdmittable_due_loop split: option.splits)
  have found: "?hit \<noteq> None \<longleftrightarrow> (\<exists>q \<in> set (pq_Items queue). admittable now q)"
    by (auto simp: find_None_iff)
  have hit: "q \<in> set (pq_Items queue) \<and> admittable now q \<and> p_Next (Poll queue now) = q_SchedulerItemID q
      \<and> (\<forall>q' \<in> set (pq_Items queue). admittable now q' \<longrightarrow> compareQueueOrder q q' \<le> 0)
      \<and> p_Next (Poll queue now) \<notin> x_SchedulerItemID ` set (p_Expired (Poll queue now))"
    if q: "?hit = Some q" for q
  proof -
    have mem: "q \<in> set (pq_Items queue)" "admittable now q"
      using find_SomeD[OF q] by auto
    have "compareQueueOrder q q' \<le> 0" if "q' \<in> set (pq_Items queue)" "admittable now q'" for q'
      using find_sorted_least[OF queueOrder.sorted_sort_func q, of q'] that queueOrder.cmp_zero[of q q]
      by auto
    moreover have "q_SchedulerItemID q \<notin> x_SchedulerItemID ` set (p_Expired (Poll queue now))"
    proof -
      have "q_SchedulerItemID q \<notin> u_SchedulerItemID ` set (pq_Unreadable queue)"
        using assms mem(1) by (simp add: disjoint_iff)
      moreover have "q_SchedulerItemID q \<noteq> q_SchedulerItemID q'"
        if "q' \<in> set (pq_Items queue)" "q_ExpiresAt q' \<le> now" for q'
        using assms mem that distinct_key_eq[of q_SchedulerItemID "pq_Items queue" q q']
        by (auto simp: admittable_def)
      ultimately show ?thesis
        unfolding ids by blast
    qed
    ultimately show ?thesis
      using mem poll(2)[OF q] by auto
  qed
  show ?thesis
    using found hit ids poll(1) by auto
qed

theorem Poll_spec_witness:
  "\<exists>queue. p_Next (Poll queue 10) = ''b'' \<and> ''a'' \<in> x_SchedulerItemID ` set (p_Expired (Poll queue 10))"
proof -
  let ?q = "\<lparr>pq_Items =
      [\<lparr>q_SchedulerItemID = ''a'', q_CreatedAt = 1, q_NotBefore = None, q_ExpiresAt = 9\<rparr>,
       \<lparr>q_SchedulerItemID = ''c'', q_CreatedAt = 2, q_NotBefore = Some 7, q_ExpiresAt = 50\<rparr>,
       \<lparr>q_SchedulerItemID = ''b'', q_CreatedAt = 3, q_NotBefore = None, q_ExpiresAt = 50\<rparr>],
     pq_Unreadable = [\<lparr>u_SchedulerItemID = ''z'', u_Column = ''expires_at''\<rparr>]\<rparr>"
  have dist: "distinct (map q_SchedulerItemID (pq_Items ?q) @ map u_SchedulerItemID (pq_Unreadable ?q))"
    by simp
  have "''a'' \<in> x_SchedulerItemID ` set (p_Expired (Poll ?q 10))"
    unfolding Poll_spec[OF dist, of 10, THEN conjunct2, THEN conjunct2]
    by (intro UnI2 image_eqI[where x = "hd (pq_Items ?q)"]) simp_all
  moreover have "p_Next (Poll ?q 10) = ''b''"
    by code_simp
  ultimately show ?thesis
    by blast
qed

text \<open>
  Claim C36. The answer of a poll and the list of due items do not depend on the order in which the
  table is scanned: any two arrangements of the same rows with distinct ids give the same result.
\<close>

theorem Poll_order_independent:
  assumes "mset (pq_Items q1) = mset (pq_Items q2)"
    and "mset (pq_Unreadable q1) = mset (pq_Unreadable q2)"
    and "distinct (map q_SchedulerItemID (pq_Items q1))"
    and "distinct (map u_SchedulerItemID (pq_Unreadable q1))"
  shows "Poll q1 now = Poll q2 now \<and> DueItems (pq_Items q1) now = DueItems (pq_Items q2) now"
proof -
  have "sort_func compareQueueOrder (pq_Items q1) = sort_func compareQueueOrder (pq_Items q2)"
    using assms by (intro queueOrder.sort_func_perm queue_keys_inj) auto
  moreover have "sort_func compareUnreadable (pq_Unreadable q1) = sort_func compareUnreadable (pq_Unreadable q2)"
    using assms by (intro unreadableOrder.sort_func_perm) (auto simp: distinct_map)
  ultimately show ?thesis
    by (simp add: Poll_def DueItems_def staleExpiries_def unreadableExpiries_def)
qed

theorem Poll_order_independent_witness:
  "Poll \<lparr>pq_Items =
        [\<lparr>q_SchedulerItemID = ''a'', q_CreatedAt = 1, q_NotBefore = None, q_ExpiresAt = 9\<rparr>,
         \<lparr>q_SchedulerItemID = ''b'', q_CreatedAt = 1, q_NotBefore = Some 4, q_ExpiresAt = 9\<rparr>],
      pq_Unreadable = []\<rparr> 5
   = Poll \<lparr>pq_Items =
        [\<lparr>q_SchedulerItemID = ''b'', q_CreatedAt = 1, q_NotBefore = Some 4, q_ExpiresAt = 9\<rparr>,
         \<lparr>q_SchedulerItemID = ''a'', q_CreatedAt = 1, q_NotBefore = None, q_ExpiresAt = 9\<rparr>],
      pq_Unreadable = []\<rparr> 5"
  by (rule Poll_order_independent[THEN conjunct1]) auto

end
