(* ===== verification/Episode_Ledger.thy ===== *)
theory Episode_Ledger
  imports Kernel Episode_Queue
begin

text \<open>
  The episode ledger (\<open>src/internal/episodeledger\<close>): the durable tables \<open>episodes\<close>,
  \<open>episode_attempts\<close>, \<open>episode_rejections\<close> and \<open>scheduler_items\<close>, and every operation the facade
  exports on them.

  \<^item> The state is a record of the tables, each a list of rows. The schema of \<open>src/migrations\<close>
    (primary keys, unique and partial unique indexes, checks, foreign keys) is written out as the
    constraints a statement may violate; a violated constraint makes the statement fail.
  \<^item> An operation runs on the caller's transaction. It returns the tables after its statements, or an
    error; on an error the caller rolls back, so the model returns no tables.
  \<^item> When one statement violates several constraints, which one SQLite reports is the parameter
    \<open>report\<close> (the library's choice); the code relies only on it being one of them.
  \<^item> The runtime owner check is a parameter, as it is in the code (\<open>storage.OwnerCheck\<close>); the
    control component provides it. The cost settler of the recovery is a parameter in the same way.
  \<^item> Timestamps written by \<open>kernel.FormatTime\<close> are kept as instants (their text order is their order);
    only the queue columns that the code parses again may be unreadable.
  \<^item> A fence counts the attempts of one episode, so it stays far below the range of \<open>int64\<close> and is an
    \<open>int\<close>.
\<close>

section \<open>Vocabulary\<close>

type_synonym bytes = string

datatype lifecycle_status =
    LifecycleAdmitted | LifecycleRunning | LifecycleConcluded | LifecycleClosed
  | LifecycleSuperseded | LifecycleExpired | LifecycleAbandoned

datatype attempt_status =
    AttemptDispatched | AttemptRunning | AttemptCancelling | AttemptProduced | AttemptDeclined
  | AttemptCancelled | AttemptFailed | AttemptTimedOut | AttemptAbandoned

definition Live :: "lifecycle_status \<Rightarrow> bool" where
  "Live s \<longleftrightarrow> s = LifecycleAdmitted \<or> s = LifecycleRunning"

definition ProducedDecision :: "lifecycle_status \<Rightarrow> bool" where
  "ProducedDecision s \<longleftrightarrow> s = LifecycleConcluded \<or> s = LifecycleClosed"

definition Closed :: "lifecycle_status \<Rightarrow> bool" where
  "Closed s \<longleftrightarrow> ProducedDecision s \<or> s = LifecycleSuperseded \<or> s = LifecycleExpired \<or> s = LifecycleAbandoned"

definition InFlight :: "attempt_status \<Rightarrow> bool" where
  "InFlight s \<longleftrightarrow> s = AttemptDispatched \<or> s = AttemptRunning"

definition Unfinished :: "attempt_status \<Rightarrow> bool" where
  "Unfinished s \<longleftrightarrow> InFlight s \<or> s = AttemptCancelling"

definition CountsAsFailure :: "attempt_status \<Rightarrow> bool" where
  "CountsAsFailure s \<longleftrightarrow> s = AttemptFailed \<or> s = AttemptTimedOut \<or> s = AttemptCancelled"

definition CanTransitionAttempt :: "attempt_status \<Rightarrow> attempt_status \<Rightarrow> bool" where
  "CanTransitionAttempt from_status to_status = (case from_status of
     AttemptDispatched \<Rightarrow> to_status \<in> {AttemptRunning, AttemptCancelling, AttemptCancelled, AttemptFailed,
                                      AttemptTimedOut, AttemptAbandoned}
   | AttemptRunning \<Rightarrow> to_status \<in> {AttemptCancelling, AttemptProduced, AttemptDeclined, AttemptCancelled,
                                   AttemptFailed, AttemptTimedOut, AttemptAbandoned}
   | AttemptCancelling \<Rightarrow> to_status \<in> {AttemptCancelled, AttemptFailed, AttemptTimedOut, AttemptAbandoned}
   | _ \<Rightarrow> False)"

definition IsTerminalAttempt :: "attempt_status \<Rightarrow> bool" where
  "IsTerminalAttempt status \<longleftrightarrow> \<not> Unfinished status"

text \<open>The registered rejection reasons; \<open>UnregisteredReason\<close> is any other string.\<close>

datatype rejection_reason =
    RejectUnknownEpisode | RejectStaleAttempt | RejectWrongAttempt | RejectTerminalAttempt
  | RejectEpisodeClosed | RejectSchemaInvalid | RejectSnapshotMismatch | RejectEvidenceNotVisible
  | RejectForgedReference | RejectOversized | RejectExpired | RejectIntentTypeNotAllowed
  | RejectRiskCeilingExceeded | RejectCatalogMissing | RejectCatalogForged
  | RejectIntentTypeNotInCatalog | RejectRiskLabelMismatch | RejectParameterSchemaViolated
  | RejectPresetMismatch | RejectUngroundedEvidence | UnregisteredReason string

fun reason_text :: "rejection_reason \<Rightarrow> string" where
  "reason_text RejectUnknownEpisode = ''unknown_episode''"
| "reason_text RejectStaleAttempt = ''stale_attempt''"
| "reason_text RejectWrongAttempt = ''wrong_attempt''"
| "reason_text RejectTerminalAttempt = ''terminal_attempt''"
| "reason_text RejectEpisodeClosed = ''episode_closed''"
| "reason_text RejectSchemaInvalid = ''schema_invalid''"
| "reason_text RejectSnapshotMismatch = ''snapshot_mismatch''"
| "reason_text RejectEvidenceNotVisible = ''evidence_not_visible''"
| "reason_text RejectForgedReference = ''forged_reference''"
| "reason_text RejectOversized = ''oversized''"
| "reason_text RejectExpired = ''expired''"
| "reason_text RejectIntentTypeNotAllowed = ''intent_type_not_allowed''"
| "reason_text RejectRiskCeilingExceeded = ''risk_ceiling_exceeded''"
| "reason_text RejectCatalogMissing = ''catalog_missing''"
| "reason_text RejectCatalogForged = ''catalog_forged''"
| "reason_text RejectIntentTypeNotInCatalog = ''intent_type_not_in_catalog''"
| "reason_text RejectRiskLabelMismatch = ''risk_label_mismatch''"
| "reason_text RejectParameterSchemaViolated = ''parameter_schema_violation''"
| "reason_text RejectPresetMismatch = ''preset_mismatch''"
| "reason_text RejectUngroundedEvidence = ''ungrounded_evidence''"
| "reason_text (UnregisteredReason s) = s"

datatype sql_constraint = CheckFailed string | UniqueFailed string | ForeignKeyFailed string

datatype ledger_error =
    IdentityError rejection_reason
  | LiveEpisodeConflict
  | LiveEpisodeBusy
  | StatementFailed sql_constraint
  | OwnerUnchecked
  | OwnerCheckFailed
  | InvalidRequest string
  | ActiveAttempt string string
  | InvalidTransition attempt_status attempt_status
  | NotTransitioned string
  | NoRows
  | NotPending string
  | InvalidRejectionReason string
  | SettleFailed string

definition Refuse :: "rejection_reason \<Rightarrow> ledger_error + 'a" where
  "Refuse reason = Inl (IdentityError reason)"

definition IsIdentityReason :: "ledger_error \<Rightarrow> rejection_reason \<Rightarrow> bool" where
  "IsIdentityReason err reason \<longleftrightarrow> err = IdentityError reason"

definition CheckRejectionReason :: "rejection_reason \<Rightarrow> ledger_error + unit" where
  "CheckRejectionReason reason = (case reason of
     UnregisteredReason s \<Rightarrow> Inl (InvalidRejectionReason s) | _ \<Rightarrow> Inr ())"

section \<open>Rows and tables\<close>

record admission =
  a_EpisodeID :: string
  a_SchedulerItemID :: string
  a_Kind :: string
  a_TenantID :: string
  a_SituationID :: string
  a_SituationVersion :: int
  a_ExecutorName :: string
  a_ExecutorVersion :: string
  a_ModelPolicy :: string
  a_PromptVersion :: string
  a_SnapshotSHA256 :: bytes
  a_PromptSHA256 :: "bytes option"
  a_ObjectiveSHA256 :: "bytes option"
  a_AdmissionKey :: bytes
  a_RequestJSON :: bytes
  a_DispatchPolicy :: string
  a_PolicyEpoch :: string

definition KindStandard :: string where "KindStandard = ''standard''"
definition KindReconsider :: string where "KindReconsider = ''reconsider''"

definition ReportsLiveConflict :: "admission \<Rightarrow> bool" where
  "ReportsLiveConflict a \<longleftrightarrow> a_Kind a = KindReconsider"

record identity =
  i_EpisodeID :: string
  i_AttemptID :: string
  i_Fence :: int
  i_OwnerEpoch :: string

text \<open>
  The terminal document of an episode or attempt: bytes the caller supplies, or the document that
  \<open>RecoveryTerminal\<close> marshals from the previous owner epoch.
\<close>

datatype terminal_doc = TerminalJSON bytes | RecoveryTerminal string

record episode_row =
  e_admission :: admission
  e_lifecycle :: lifecycle_status
  e_attempt :: "string option"
  e_fence :: int
  e_accepted :: time
  e_started :: "time option"
  e_ended :: "time option"
  e_terminal :: "terminal_doc option"
  e_rebinds :: int

abbreviation e_id :: "episode_row \<Rightarrow> string" where "e_id r \<equiv> a_EpisodeID (e_admission r)"
abbreviation e_item :: "episode_row \<Rightarrow> string" where "e_item r \<equiv> a_SchedulerItemID (e_admission r)"
abbreviation e_situation :: "episode_row \<Rightarrow> string" where "e_situation r \<equiv> a_SituationID (e_admission r)"

record attempt_row =
  t_id :: string
  t_episode :: string
  t_fence :: int
  t_status :: attempt_status
  t_owner :: "string option"
  t_started :: "time option"
  t_ended :: "time option"
  t_terminal :: "terminal_doc option"

record rejection_row =
  r_id :: string
  r_episode :: "string option"
  r_attempt :: "string option"
  r_fence :: int
  r_reason :: rejection_reason
  r_details :: bytes
  r_created :: time

text \<open>A scheduler item. The ledger only stores the priority, so it is the bit pattern of the (finite)
  \<open>float64\<close>.\<close>

datatype item_status = ItemPending | ItemAdmitted | ItemCoalesced | ItemExpired | ItemCancelled | ItemCompleted

record scheduler_row =
  s_id :: string
  s_trigger :: string
  s_tenant :: string
  s_situation :: string
  s_version :: int
  s_kind :: string
  s_lane :: string
  s_priority :: "64 word"
  s_status :: item_status
  s_dedupe :: bytes
  s_notBefore :: "stored_time option"
  s_expires :: stored_time
  s_created :: stored_time
  s_updated :: time

text \<open>
  The tables of the ledger, and the columns of the tables it references: the situation versions, the
  trigger evaluations (trigger id, situation, trigger name, outcome admitted) and the killed epochs.
\<close>

record ledger =
  l_episodes :: "episode_row list"
  l_attempts :: "attempt_row list"
  l_rejections :: "rejection_row list"
  l_items :: "scheduler_row list"
  l_situations :: "(string \<times> int) list"
  l_triggers :: "(string \<times> string \<times> string \<times> bool) list"
  l_killed :: "string list"

definition find_episode :: "string \<Rightarrow> ledger \<Rightarrow> episode_row option" where
  "find_episode episodeID L = find (\<lambda>r. e_id r = episodeID) (l_episodes L)"

definition one_live_per_situation :: "episode_row list \<Rightarrow> bool" where
  "one_live_per_situation = unique_index (\<lambda>r. Live (e_lifecycle r)) e_situation"

text \<open>The checks of the schema on one row of \<open>episodes\<close>.\<close>

definition null_or_sha256 :: "bytes option \<Rightarrow> bool" where
  "null_or_sha256 column = (case column of None \<Rightarrow> True | Some b \<Rightarrow> length b = 32)"

definition episode_checks :: "episode_row \<Rightarrow> sql_constraint list" where
  "episode_checks r = (let a = e_admission r in
     (if length (a_SnapshotSHA256 a) = 32 then [] else [CheckFailed ''snapshot_sha256'']) @
     (if length (a_AdmissionKey a) = 32 then [] else [CheckFailed ''admission_key'']) @
     (if null_or_sha256 (a_PromptSHA256 a) then [] else [CheckFailed ''prompt_sha256'']) @
     (if null_or_sha256 (a_ObjectiveSHA256 a) then [] else [CheckFailed ''objective_sha256'']) @
     (if a_DispatchPolicy a \<in> {''active'', ''shadow''} then [] else [CheckFailed ''dispatch_policy'']) @
     (if 0 \<le> e_fence r then [] else [CheckFailed ''current_fence'']))"

definition situation_known :: "ledger \<Rightarrow> episode_row \<Rightarrow> bool" where
  "situation_known L r \<longleftrightarrow> (e_situation r, a_SituationVersion (e_admission r)) \<in> set (l_situations L)"

text \<open>
  Every constraint an \<open>INSERT INTO episodes\<close> violates. A key column is violated when an existing row
  has the same value; the partial index when both rows are live.
\<close>

definition episode_violations :: "ledger \<Rightarrow> episode_row \<Rightarrow> sql_constraint list" where
  "episode_violations L r =
     episode_checks r @
     (if e_id r \<in> e_id ` set (l_episodes L) then [UniqueFailed ''episodes.episode_id''] else []) @
     (if e_item r \<in> e_item ` set (l_episodes L) then [UniqueFailed ''episodes.scheduler_item_id''] else []) @
     (if a_AdmissionKey (e_admission r) \<in> (\<lambda>r. a_AdmissionKey (e_admission r)) ` set (l_episodes L)
      then [UniqueFailed ''episodes.admission_key''] else []) @
     (if Live (e_lifecycle r) \<and> (\<exists>x \<in> set (l_episodes L). Live (e_lifecycle x) \<and> e_situation x = e_situation r)
      then [UniqueFailed ''episodes.situation_id''] else []) @
     (if e_item r \<in> s_id ` set (l_items L) then [] else [ForeignKeyFailed ''scheduler_items'']) @
     (if situation_known L r then [] else [ForeignKeyFailed ''situation_versions''])"

text \<open>An \<open>UPDATE episodes\<close>: the new rows must satisfy the checks, the live index and the foreign key.\<close>

definition write_episodes ::
  "(episode_row \<Rightarrow> bool) \<Rightarrow> (episode_row \<Rightarrow> episode_row) \<Rightarrow> ledger \<Rightarrow> ledger_error + ledger" where
  "write_episodes where_row set_row L =
     (let rows = sql_update where_row set_row (l_episodes L);
          changed = map set_row (filter where_row (l_episodes L))
      in case concat (map episode_checks changed) of
           v # _ \<Rightarrow> Inl (StatementFailed v)
         | [] \<Rightarrow>
             if \<not> one_live_per_situation rows then Inl (StatementFailed (UniqueFailed ''episodes.situation_id''))
             else if \<not> list_all (situation_known L) changed
             then Inl (StatementFailed (ForeignKeyFailed ''situation_versions''))
             else Inr (L\<lparr>l_episodes := rows\<rparr>))"

section \<open>Admission and rejection\<close>

definition InsertEpisode :: "admission \<Rightarrow> time \<Rightarrow> ledger \<Rightarrow> sql_constraint list + ledger" where
  "InsertEpisode req acceptedAt L =
     (let row = \<lparr>e_admission = req\<lparr>a_Kind := ''''\<rparr>, e_lifecycle = LifecycleAdmitted, e_attempt = None,
                 e_fence = 0, e_accepted = acceptedAt, e_started = None, e_ended = None,
                 e_terminal = None, e_rebinds = 0\<rparr>
      in case episode_violations L row of
           [] \<Rightarrow> Inr (L\<lparr>l_episodes := l_episodes L @ [row]\<rparr>)
         | vs \<Rightarrow> Inl vs)"

definition IsLiveEpisodeViolation :: "sql_constraint \<Rightarrow> bool" where
  "IsLiveEpisodeViolation v \<longleftrightarrow> v = UniqueFailed ''episodes.situation_id''"

definition Admit ::
  "(sql_constraint list \<Rightarrow> sql_constraint) \<Rightarrow> admission \<Rightarrow> time \<Rightarrow> ledger \<Rightarrow> ledger_error + ledger" where
  "Admit report req now L = (case InsertEpisode req now L of
     Inr L' \<Rightarrow> Inr L'
   | Inl vs \<Rightarrow>
       let v = report vs in
       if \<not> IsLiveEpisodeViolation v then Inl (StatementFailed v)
       else if ReportsLiveConflict req then Inl LiveEpisodeConflict else Inl LiveEpisodeBusy)"

definition ReadAdmission :: "string \<Rightarrow> ledger \<Rightarrow> ledger_error + admission" where
  "ReadAdmission episodeID L = (case find_episode episodeID L of
     None \<Rightarrow> Inl NoRows | Some r \<Rightarrow> Inr (e_admission r))"

definition RejectionDetails :: "bytes \<Rightarrow> bytes" where
  "RejectionDetails details = (if details = [] then ''{}'' else details)"

definition RejectionID :: "identity \<Rightarrow> rejection_reason \<Rightarrow> bytes \<Rightarrow> time \<Rightarrow> string" where
  "RejectionID i reason details at =
     (let material = i_EpisodeID i @ ''|'' @ i_AttemptID i @ ''|'' @ show_int (i_Fence i) @ ''|'' @
        reason_text reason @ ''|'' @ details @ ''|'' @ FormatTime at
      in ''rej_'' @ hex_encode (sha256 material))"

definition episodeKnown :: "string \<Rightarrow> ledger \<Rightarrow> bool" where
  "episodeKnown episodeID L \<longleftrightarrow> episodeID \<noteq> '''' \<and> find_episode episodeID L \<noteq> None"

text \<open>\<open>INSERT ... ON CONFLICT (rejection_id) DO NOTHING\<close>.\<close>

definition InsertRejection :: "rejection_row \<Rightarrow> ledger \<Rightarrow> ledger_error + ledger" where
  "InsertRejection row L =
     (if r_fence row < 0 then Inl (StatementFailed (CheckFailed ''fence''))
      else if r_id row \<in> r_id ` set (l_rejections L) then Inr L
      else Inr (L\<lparr>l_rejections := l_rejections L @ [row]\<rparr>))"

definition RecordRejection ::
  "identity \<Rightarrow> rejection_reason \<Rightarrow> bytes \<Rightarrow> time \<Rightarrow> ledger \<Rightarrow> ledger_error + ledger" where
  "RecordRejection i reason details now L =
     bind_res (CheckRejectionReason reason) (\<lambda>_.
       let details' = RejectionDetails details in
       InsertRejection
         \<lparr>r_id = RejectionID i reason details' now,
          r_episode = (if episodeKnown (i_EpisodeID i) L then Some (i_EpisodeID i) else None),
          r_attempt = (if i_AttemptID i \<noteq> '''' then Some (i_AttemptID i) else None),
          r_fence = i_Fence i, r_reason = reason, r_details = details', r_created = now\<rparr> L)"

section \<open>Fencing\<close>

record episode_fence =
  f_TenantID :: string
  f_Lifecycle :: lifecycle_status
  f_Attempt :: string
  f_HasAttempt :: bool
  f_Fence :: int

record attempt_record =
  ar_Status :: attempt_status
  ar_OwnerEpoch :: string
  ar_HasOwnerEpoch :: bool

definition CheckIdentity :: "episode_fence \<Rightarrow> identity \<Rightarrow> ledger_error + unit" where
  "CheckIdentity f i =
     (if i_Fence i < f_Fence f then Refuse RejectStaleAttempt
      else if \<not> f_HasAttempt f \<or> i_AttemptID i \<noteq> f_Attempt f \<or> i_Fence i \<noteq> f_Fence f
      then Refuse RejectWrongAttempt
      else Inr ())"

definition CheckOpenIdentity :: "episode_fence \<Rightarrow> identity \<Rightarrow> ledger_error + unit" where
  "CheckOpenIdentity f i =
     (if Closed (f_Lifecycle f) then Refuse RejectEpisodeClosed else CheckIdentity f i)"

definition CheckStartable :: "episode_fence \<Rightarrow> ledger_error + int" where
  "CheckStartable f = (if \<not> Live (f_Lifecycle f) then Refuse RejectEpisodeClosed else Inr (f_Fence f))"

definition CheckAttemptNotTerminal :: "attempt_status \<Rightarrow> ledger_error + unit" where
  "CheckAttemptNotTerminal status =
     (if IsTerminalAttempt status then Refuse RejectTerminalAttempt else Inr ())"

definition CheckAttemptOpen :: "identity \<Rightarrow> attempt_record \<Rightarrow> ledger_error + unit" where
  "CheckAttemptOpen i rec =
     (if i_OwnerEpoch i \<noteq> '''' \<and> (\<not> ar_HasOwnerEpoch rec \<or> ar_OwnerEpoch rec \<noteq> i_OwnerEpoch i)
      then Refuse RejectStaleAttempt
      else CheckAttemptNotTerminal (ar_Status rec))"

definition CheckPriorAttemptTerminal :: "string \<Rightarrow> string \<Rightarrow> attempt_status \<Rightarrow> ledger_error + unit" where
  "CheckPriorAttemptTerminal episodeID attemptID status =
     (if \<not> IsTerminalAttempt status then Inl (ActiveAttempt episodeID attemptID) else Inr ())"

definition CheckTransition :: "attempt_status \<Rightarrow> attempt_status \<Rightarrow> ledger_error + unit" where
  "CheckTransition from_status to_status =
     (if \<not> CanTransitionAttempt from_status to_status then Inl (InvalidTransition from_status to_status)
      else Inr ())"

definition MayAcknowledgeCancellation :: "attempt_status \<Rightarrow> bool" where
  "MayAcknowledgeCancellation to_status \<longleftrightarrow>
     to_status = AttemptCancelling \<or> to_status = AttemptCancelled \<or> to_status = AttemptAbandoned"

datatype transition_kind = TransitionTerminal | TransitionRunning | TransitionStatusOnly

definition KindOf :: "attempt_status \<Rightarrow> transition_kind" where
  "KindOf to_status =
     (if IsTerminalAttempt to_status then TransitionTerminal
      else if to_status = AttemptRunning then TransitionRunning else TransitionStatusOnly)"

text \<open>The runtime owner check and its three answers: the epoch owns the runtime, lost it, or the
  check itself failed. A missing check is \<open>None\<close>.\<close>

datatype owner_verdict = OwnerHeld | OwnerLost | OwnerFailed

type_synonym owner_check = "(string \<Rightarrow> owner_verdict) option"

definition AssertOwner :: "owner_check \<Rightarrow> string \<Rightarrow> ledger_error + owner_verdict" where
  "AssertOwner owner epoch = (case owner of None \<Rightarrow> Inl OwnerUnchecked | Some check \<Rightarrow> Inr (check epoch))"

definition requireOwnerLease :: "owner_check \<Rightarrow> string \<Rightarrow> ledger_error + unit" where
  "requireOwnerLease owner ownerEpoch =
     (if ownerEpoch = '''' then Inr ()
      else bind_res (AssertOwner owner ownerEpoch) (\<lambda>verdict. case verdict of
        OwnerHeld \<Rightarrow> Inr ()
      | OwnerLost \<Rightarrow> Refuse RejectStaleAttempt
      | OwnerFailed \<Rightarrow> Inl OwnerCheckFailed))"

definition ReadEpisodeFence :: "string \<Rightarrow> ledger \<Rightarrow> episode_fence option" where
  "ReadEpisodeFence episodeID L = map_option (\<lambda>r.
     \<lparr>f_TenantID = a_TenantID (e_admission r), f_Lifecycle = e_lifecycle r,
      f_Attempt = (case e_attempt r of Some a \<Rightarrow> a | None \<Rightarrow> ''''), f_HasAttempt = (e_attempt r \<noteq> None),
      f_Fence = e_fence r\<rparr>) (find_episode episodeID L)"

definition episodeFence :: "string \<Rightarrow> ledger \<Rightarrow> ledger_error + episode_fence" where
  "episodeFence episodeID L = (case ReadEpisodeFence episodeID L of
     None \<Rightarrow> Refuse RejectUnknownEpisode | Some f \<Rightarrow> Inr f)"

definition ReadAttempt :: "identity \<Rightarrow> ledger \<Rightarrow> attempt_record option" where
  "ReadAttempt i L = map_option (\<lambda>t.
     \<lparr>ar_Status = t_status t, ar_OwnerEpoch = (case t_owner t of Some e \<Rightarrow> e | None \<Rightarrow> ''''),
      ar_HasOwnerEpoch = (t_owner t \<noteq> None)\<rparr>)
     (find (\<lambda>t. t_id t = i_AttemptID i \<and> t_episode t = i_EpisodeID i \<and> t_fence t = i_Fence i) (l_attempts L))"

definition attemptRecord :: "identity \<Rightarrow> ledger \<Rightarrow> ledger_error + attempt_record" where
  "attemptRecord i L = (case ReadAttempt i L of None \<Rightarrow> Refuse RejectWrongAttempt | Some r \<Rightarrow> Inr r)"

definition ReadAttemptStatus :: "string \<Rightarrow> ledger \<Rightarrow> ledger_error + attempt_status" where
  "ReadAttemptStatus attemptID L = (case find (\<lambda>t. t_id t = attemptID) (l_attempts L) of
     None \<Rightarrow> Inl NoRows | Some t \<Rightarrow> Inr (t_status t))"

definition ReadEpisodeAttemptStatus :: "string \<Rightarrow> string \<Rightarrow> ledger \<Rightarrow> ledger_error + attempt_status" where
  "ReadEpisodeAttemptStatus episodeID attemptID L =
     (case find (\<lambda>t. t_id t = attemptID \<and> t_episode t = episodeID) (l_attempts L) of
        None \<Rightarrow> Inl NoRows | Some t \<Rightarrow> Inr (t_status t))"

definition checkEpisodeFence :: "identity \<Rightarrow> ledger \<Rightarrow> ledger_error + unit" where
  "checkEpisodeFence i L = bind_res (episodeFence (i_EpisodeID i) L) (\<lambda>f. CheckOpenIdentity f i)"

definition checkAttemptOpen :: "identity \<Rightarrow> ledger \<Rightarrow> ledger_error + unit" where
  "checkAttemptOpen i L = bind_res (attemptRecord i L) (CheckAttemptOpen i)"

definition ValidateWorkerIdentity :: "identity \<Rightarrow> owner_check \<Rightarrow> ledger \<Rightarrow> ledger_error + unit" where
  "ValidateWorkerIdentity i owner L =
     bind_res (checkEpisodeFence i L) (\<lambda>_.
     bind_res (requireOwnerLease owner (i_OwnerEpoch i)) (\<lambda>_.
     checkAttemptOpen i L))"

definition checkTerminalFence :: "identity \<Rightarrow> ledger \<Rightarrow> ledger_error + unit" where
  "checkTerminalFence i L = bind_res (episodeFence (i_EpisodeID i) L) (\<lambda>f. CheckIdentity f i)"

definition validateTerminalIdentity :: "identity \<Rightarrow> owner_check \<Rightarrow> ledger \<Rightarrow> ledger_error + unit" where
  "validateTerminalIdentity i owner L =
     bind_res (checkTerminalFence i L) (\<lambda>_.
     bind_res (requireOwnerLease owner (i_OwnerEpoch i)) (\<lambda>_.
     bind_res (attemptRecord i L) (\<lambda>r. CheckAttemptNotTerminal (ar_Status r))))"

section \<open>Attempts\<close>

definition InsertAttempt :: "identity \<Rightarrow> time \<Rightarrow> ledger \<Rightarrow> ledger_error + ledger" where
  "InsertAttempt i startedAt L =
     (if i_Fence i < 1 then Inl (StatementFailed (CheckFailed ''fence''))
      else if i_AttemptID i \<in> t_id ` set (l_attempts L)
      then Inl (StatementFailed (UniqueFailed ''episode_attempts.attempt_id''))
      else if \<exists>t \<in> set (l_attempts L). t_episode t = i_EpisodeID i \<and> t_fence t = i_Fence i
      then Inl (StatementFailed (UniqueFailed ''episode_attempts.episode_id''))
      else if find_episode (i_EpisodeID i) L = None
      then Inl (StatementFailed (ForeignKeyFailed ''episodes''))
      else Inr (L\<lparr>l_attempts := l_attempts L @
        [\<lparr>t_id = i_AttemptID i, t_episode = i_EpisodeID i, t_fence = i_Fence i, t_status = AttemptDispatched,
          t_owner = (if i_OwnerEpoch i = '''' then None else Some (i_OwnerEpoch i)),
          t_started = Some startedAt, t_ended = None, t_terminal = None\<rparr>]\<rparr>))"

definition coalesce :: "'a option \<Rightarrow> 'a \<Rightarrow> 'a option" where
  "coalesce column v = (case column of Some x \<Rightarrow> Some x | None \<Rightarrow> Some v)"

definition RecordEpisodeAttempt :: "identity \<Rightarrow> time \<Rightarrow> ledger \<Rightarrow> ledger_error + ledger" where
  "RecordEpisodeAttempt i startedAt =
     write_episodes (\<lambda>r. e_id r = i_EpisodeID i)
       (\<lambda>r. r\<lparr>e_lifecycle := LifecycleRunning, e_attempt := Some (i_AttemptID i), e_fence := i_Fence i,
              e_started := coalesce (e_started r) startedAt\<rparr>)"

definition requireStartableEpisode :: "string \<Rightarrow> ledger \<Rightarrow> ledger_error + int" where
  "requireStartableEpisode episodeID L =
     bind_res (episodeFence episodeID L) (\<lambda>f.
     bind_res (CheckStartable f) (\<lambda>current.
       if \<not> f_HasAttempt f then Inr current
       else bind_res (ReadEpisodeAttemptStatus episodeID (f_Attempt f) L) (\<lambda>status.
            bind_res (CheckPriorAttemptTerminal episodeID (f_Attempt f) status) (\<lambda>_. Inr current))))"

definition recordStartedAttempt :: "identity \<Rightarrow> time \<Rightarrow> ledger \<Rightarrow> ledger_error + ledger" where
  "recordStartedAttempt i now L = bind_res (InsertAttempt i now L) (RecordEpisodeAttempt i now)"

definition startAttempt ::
  "string \<Rightarrow> string \<Rightarrow> string \<Rightarrow> owner_check \<Rightarrow> time \<Rightarrow> ledger \<Rightarrow> ledger_error + (identity \<times> ledger)" where
  "startAttempt episodeID attemptID ownerEpoch owner now L =
     (if episodeID = '''' \<or> attemptID = '''' then Inl (InvalidRequest ''episode and attempt IDs are required'')
      else bind_res (requireOwnerLease owner ownerEpoch) (\<lambda>_.
           bind_res (requireStartableEpisode episodeID L) (\<lambda>fence.
             let i = \<lparr>i_EpisodeID = episodeID, i_AttemptID = attemptID, i_Fence = fence + 1, i_OwnerEpoch = ownerEpoch\<rparr>
             in bind_res (recordStartedAttempt i now L) (\<lambda>L'. Inr (i, L')))))"

definition StartAttempt :: "string \<Rightarrow> string \<Rightarrow> time \<Rightarrow> ledger \<Rightarrow> ledger_error + (identity \<times> ledger)" where
  "StartAttempt episodeID attemptID now = startAttempt episodeID attemptID '''' None now"

definition StartAttemptOwned ::
  "string \<Rightarrow> string \<Rightarrow> string \<Rightarrow> owner_check \<Rightarrow> time \<Rightarrow> ledger \<Rightarrow> ledger_error + (identity \<times> ledger)" where
  "StartAttemptOwned episodeID attemptID ownerEpoch owner now L =
     (if ownerEpoch = '''' then Inl (InvalidRequest ''runtime owner epoch is required'')
      else startAttempt episodeID attemptID ownerEpoch owner now L)"

section \<open>Attempt transitions\<close>

definition under_identity :: "identity \<Rightarrow> attempt_row \<Rightarrow> bool" where
  "under_identity i t \<longleftrightarrow> t_id t = i_AttemptID i \<and> t_episode t = i_EpisodeID i \<and> t_fence t = i_Fence i"

definition updateAttempt :: "(attempt_row \<Rightarrow> attempt_row) \<Rightarrow> identity \<Rightarrow> ledger \<Rightarrow> int \<times> ledger" where
  "updateAttempt set_row i L =
     (rows_affected (under_identity i) (l_attempts L),
      L\<lparr>l_attempts := sql_update (under_identity i) set_row (l_attempts L)\<rparr>)"

definition FinishAttempt :: "identity \<Rightarrow> attempt_status \<Rightarrow> time \<Rightarrow> bytes \<Rightarrow> ledger \<Rightarrow> int \<times> ledger" where
  "FinishAttempt i to_status endedAt terminal =
     updateAttempt (\<lambda>t. t\<lparr>t_status := to_status, t_ended := Some endedAt, t_terminal := Some (TerminalJSON terminal)\<rparr>) i"

definition StartRunningAttempt :: "identity \<Rightarrow> time \<Rightarrow> ledger \<Rightarrow> int \<times> ledger" where
  "StartRunningAttempt i startedAt =
     updateAttempt (\<lambda>t. t\<lparr>t_status := AttemptRunning, t_started := coalesce (t_started t) startedAt\<rparr>) i"

definition SetAttemptStatus :: "identity \<Rightarrow> attempt_status \<Rightarrow> ledger \<Rightarrow> int \<times> ledger" where
  "SetAttemptStatus i to_status = updateAttempt (\<lambda>t. t\<lparr>t_status := to_status\<rparr>) i"

definition validateTransitionIdentity ::
  "identity \<Rightarrow> attempt_status \<Rightarrow> owner_check \<Rightarrow> ledger \<Rightarrow> ledger_error + unit" where
  "validateTransitionIdentity i to_status owner L = (case ValidateWorkerIdentity i owner L of
     Inr u \<Rightarrow> Inr u
   | Inl err \<Rightarrow>
       if \<not> MayAcknowledgeCancellation to_status \<or> \<not> IsIdentityReason err RejectEpisodeClosed then Inl err
       else validateTerminalIdentity i owner L)"

definition writeTransition ::
  "identity \<Rightarrow> attempt_status \<Rightarrow> time \<Rightarrow> bytes \<Rightarrow> ledger \<Rightarrow> int \<times> ledger" where
  "writeTransition i to_status now terminal = (case KindOf to_status of
     TransitionTerminal \<Rightarrow> FinishAttempt i to_status now terminal
   | TransitionRunning \<Rightarrow> StartRunningAttempt i now
   | TransitionStatusOnly \<Rightarrow> SetAttemptStatus i to_status)"

definition persistTransition ::
  "identity \<Rightarrow> attempt_status \<Rightarrow> time \<Rightarrow> bytes \<Rightarrow> ledger \<Rightarrow> ledger_error + ledger" where
  "persistTransition i to_status now terminal L =
     (case writeTransition i to_status now terminal L of (rows, L') \<Rightarrow>
        if rows \<noteq> 1 then Inl (NotTransitioned (i_AttemptID i)) else Inr L')"

definition TransitionAttempt ::
  "identity \<Rightarrow> attempt_status \<Rightarrow> time \<Rightarrow> bytes \<Rightarrow> owner_check \<Rightarrow> ledger \<Rightarrow> ledger_error + ledger" where
  "TransitionAttempt i to_status now terminal owner L =
     bind_res (validateTransitionIdentity i to_status owner L) (\<lambda>_.
     bind_res (ReadAttemptStatus (i_AttemptID i) L) (\<lambda>from_status.
     bind_res (CheckTransition from_status to_status) (\<lambda>_.
     persistTransition i to_status now terminal L)))"

section \<open>Episode lifecycle\<close>

definition has_id :: "string \<Rightarrow> episode_row \<Rightarrow> bool" where
  "has_id episodeID r \<longleftrightarrow> e_id r = episodeID"

definition Rebind :: "string \<Rightarrow> int \<Rightarrow> bytes \<Rightarrow> bytes \<Rightarrow> ledger \<Rightarrow> ledger_error + ledger" where
  "Rebind episodeID version digest request =
     write_episodes (has_id episodeID)
       (\<lambda>r. r\<lparr>e_admission := (e_admission r)\<lparr>a_SituationVersion := version, a_SnapshotSHA256 := digest,
                a_RequestJSON := request\<rparr>, e_rebinds := e_rebinds r + 1\<rparr>)"

definition BindRequest :: "string \<Rightarrow> bytes \<Rightarrow> ledger \<Rightarrow> ledger_error + ledger" where
  "BindRequest episodeID request =
     write_episodes (has_id episodeID) (\<lambda>r. r\<lparr>e_admission := (e_admission r)\<lparr>a_RequestJSON := request\<rparr>\<rparr>)"

definition end_episode :: "lifecycle_status \<Rightarrow> time \<Rightarrow> terminal_doc \<Rightarrow> episode_row \<Rightarrow> episode_row" where
  "end_episode status now terminal r =
     r\<lparr>e_lifecycle := status, e_ended := Some now, e_terminal := Some terminal\<rparr>"

definition AbandonRebind :: "string \<Rightarrow> time \<Rightarrow> bytes \<Rightarrow> ledger \<Rightarrow> ledger_error + ledger" where
  "AbandonRebind episodeID now terminal =
     write_episodes (has_id episodeID)
       (\<lambda>r. (end_episode LifecycleAbandoned now (TerminalJSON terminal) r)\<lparr>e_rebinds := e_rebinds r + 1\<rparr>)"

definition Abandon :: "string \<Rightarrow> time \<Rightarrow> bytes \<Rightarrow> ledger \<Rightarrow> ledger_error + ledger" where
  "Abandon episodeID now terminal =
     write_episodes (has_id episodeID) (end_episode LifecycleAbandoned now (TerminalJSON terminal))"

definition Conclude :: "string \<Rightarrow> time \<Rightarrow> bytes \<Rightarrow> ledger \<Rightarrow> ledger_error + ledger" where
  "Conclude episodeID now terminal =
     write_episodes (has_id episodeID) (end_episode LifecycleConcluded now (TerminalJSON terminal))"

definition RetainForRetry :: "string \<Rightarrow> ledger \<Rightarrow> ledger_error + ledger" where
  "RetainForRetry episodeID =
     write_episodes (has_id episodeID)
       (\<lambda>r. r\<lparr>e_lifecycle := LifecycleRunning, e_ended := None, e_terminal := None\<rparr>)"

definition supersede_row :: "time \<Rightarrow> episode_row \<Rightarrow> episode_row" where
  "supersede_row now r = r\<lparr>e_lifecycle := LifecycleSuperseded, e_ended := Some now\<rparr>"

definition SupersedeEpoch :: "string \<Rightarrow> time \<Rightarrow> ledger \<Rightarrow> ledger_error + ledger" where
  "SupersedeEpoch epoch now =
     write_episodes (\<lambda>r. a_PolicyEpoch (e_admission r) = epoch \<and> Live (e_lifecycle r)) (supersede_row now)"

definition coalesced_items :: "string \<Rightarrow> ledger \<Rightarrow> string list" where
  "coalesced_items situationID L =
     map s_id (filter (\<lambda>s. s_situation s = situationID \<and> s_status s = ItemCoalesced) (l_items L))"

definition SupersedeCoalescedEpisodes :: "string \<Rightarrow> time \<Rightarrow> ledger \<Rightarrow> ledger_error + ledger" where
  "SupersedeCoalescedEpisodes situationID now L =
     write_episodes (\<lambda>r. e_item r \<in> set (coalesced_items situationID L) \<and> Live (e_lifecycle r))
       (supersede_row now) L"

definition CancelCoalescedAttempts :: "string \<Rightarrow> ledger \<Rightarrow> ledger" where
  "CancelCoalescedAttempts situationID L =
     (let superseded = map e_id (filter (\<lambda>r. e_item r \<in> set (coalesced_items situationID L)
                          \<and> e_lifecycle r = LifecycleSuperseded) (l_episodes L))
      in L\<lparr>l_attempts := sql_update (\<lambda>t. t_episode t \<in> set superseded \<and> InFlight (t_status t))
             (\<lambda>t. t\<lparr>t_status := AttemptCancelling\<rparr>) (l_attempts L)\<rparr>)"

definition SupersedeCoalesced :: "string \<Rightarrow> time \<Rightarrow> ledger \<Rightarrow> ledger_error + ledger" where
  "SupersedeCoalesced situationID now L =
     bind_res (SupersedeCoalescedEpisodes situationID now L) (\<lambda>L'. Inr (CancelCoalescedAttempts situationID L'))"

section \<open>Recovery after a restart\<close>

record recovery_report =
  rr_AbandonedAttempts :: int
  rr_RequeuedEpisodes :: int
  rr_AbandonedEpisodes :: int

record unfinished_attempt =
  ua_AttemptID :: string
  ua_EpisodeID :: string
  ua_Status :: attempt_status
  ua_OwnerEpoch :: string

definition UnfinishedAttempts :: "string \<Rightarrow> ledger \<Rightarrow> unfinished_attempt list" where
  "UnfinishedAttempts currentEpoch L =
     map (\<lambda>t. \<lparr>ua_AttemptID = t_id t, ua_EpisodeID = t_episode t, ua_Status = t_status t,
               ua_OwnerEpoch = (case t_owner t of Some e \<Rightarrow> e | None \<Rightarrow> '''')\<rparr>)
       (filter (\<lambda>t. Unfinished (t_status t) \<and> t_owner t \<noteq> Some currentEpoch) (l_attempts L))"

definition Canceling :: "unfinished_attempt \<Rightarrow> bool" where
  "Canceling u \<longleftrightarrow> ua_Status u = AttemptCancelling"

definition IsRequeued :: "lifecycle_status \<Rightarrow> bool" where
  "IsRequeued lifecycle \<longleftrightarrow> lifecycle = LifecycleAdmitted \<or> lifecycle = LifecycleRunning"

definition abandonable :: "string \<Rightarrow> string \<Rightarrow> attempt_row \<Rightarrow> bool" where
  "abandonable attemptID episodeID t \<longleftrightarrow> t_id t = attemptID \<and> t_episode t = episodeID \<and> Unfinished (t_status t)"

definition AbandonUnfinishedAttempt :: "string \<Rightarrow> string \<Rightarrow> time \<Rightarrow> terminal_doc \<Rightarrow> ledger \<Rightarrow> int \<times> ledger" where
  "AbandonUnfinishedAttempt attemptID episodeID endedAt terminal L =
     (rows_affected (abandonable attemptID episodeID) (l_attempts L),
      L\<lparr>l_attempts := sql_update (abandonable attemptID episodeID)
          (\<lambda>t. t\<lparr>t_status := AttemptAbandoned, t_ended := Some endedAt, t_terminal := Some terminal\<rparr>)
          (l_attempts L)\<rparr>)"

definition AbandonOpenEpisode :: "string \<Rightarrow> time \<Rightarrow> terminal_doc \<Rightarrow> ledger \<Rightarrow> int \<times> ledger" where
  "AbandonOpenEpisode episodeID endedAt terminal L =
     (let open_row = (\<lambda>r. e_id r = episodeID \<and> \<not> Closed (e_lifecycle r))
      in (rows_affected open_row (l_episodes L),
          L\<lparr>l_episodes := sql_update open_row (end_episode LifecycleAbandoned endedAt terminal) (l_episodes L)\<rparr>))"

definition EpisodeLifecycle :: "string \<Rightarrow> ledger \<Rightarrow> ledger_error + lifecycle_status" where
  "EpisodeLifecycle episodeID L = (case ReadEpisodeFence episodeID L of
     None \<Rightarrow> Inl NoRows | Some f \<Rightarrow> Inr (f_Lifecycle f))"

type_synonym 'c settler = "(string \<Rightarrow> time \<Rightarrow> 'c \<Rightarrow> ledger_error + 'c) option"

record 'c recovery =
  rc_ledger :: ledger
  rc_costs :: 'c
  rc_report :: recovery_report

definition abandonCancelingEpisode ::
  "'c settler \<Rightarrow> time \<Rightarrow> string \<Rightarrow> terminal_doc \<Rightarrow> 'c recovery \<Rightarrow> ledger_error + 'c recovery" where
  "abandonCancelingEpisode costs now episodeID terminal rc =
     (case AbandonOpenEpisode episodeID now terminal (rc_ledger rc) of (rows, L') \<Rightarrow>
        let report = rc_report rc;
            report' = (if rows = 1 then report\<lparr>rr_AbandonedEpisodes := rr_AbandonedEpisodes report + 1\<rparr> else report);
            rc' = rc\<lparr>rc_ledger := L', rc_report := report'\<rparr>
        in case costs of
             None \<Rightarrow> Inr rc'
           | Some settle \<Rightarrow>
               (case settle episodeID now (rc_costs rc') of
                  Inl _ \<Rightarrow> Inl (SettleFailed episodeID)
                | Inr c \<Rightarrow> Inr (rc'\<lparr>rc_costs := c\<rparr>)))"

definition countRequeued :: "string \<Rightarrow> 'c recovery \<Rightarrow> ledger_error + 'c recovery" where
  "countRequeued episodeID rc =
     bind_res (EpisodeLifecycle episodeID (rc_ledger rc)) (\<lambda>lifecycle.
       Inr (if IsRequeued lifecycle
            then rc\<lparr>rc_report := (rc_report rc)\<lparr>rr_RequeuedEpisodes := rr_RequeuedEpisodes (rc_report rc) + 1\<rparr>\<rparr>
            else rc))"

definition recover_attempt ::
  "'c settler \<Rightarrow> time \<Rightarrow> unfinished_attempt \<Rightarrow> 'c recovery \<Rightarrow> ledger_error + 'c recovery" where
  "recover_attempt costs now item rc =
     (let terminal = RecoveryTerminal (ua_OwnerEpoch item)
      in case AbandonUnfinishedAttempt (ua_AttemptID item) (ua_EpisodeID item) now terminal (rc_ledger rc) of
           (rows, L') \<Rightarrow>
             if rows \<noteq> 1 then Inr (rc\<lparr>rc_ledger := L'\<rparr>)
             else let rc' = rc\<lparr>rc_ledger := L',
                        rc_report := (rc_report rc)\<lparr>rr_AbandonedAttempts := rr_AbandonedAttempts (rc_report rc) + 1\<rparr>\<rparr>
                  in if Canceling item then abandonCancelingEpisode costs now (ua_EpisodeID item) terminal rc'
                     else countRequeued (ua_EpisodeID item) rc')"

fun recover_all ::
  "'c settler \<Rightarrow> time \<Rightarrow> unfinished_attempt list \<Rightarrow> 'c recovery \<Rightarrow> ledger_error + 'c recovery" where
  "recover_all costs now [] rc = Inr rc"
| "recover_all costs now (item # rest) rc =
     bind_res (recover_attempt costs now item rc) (recover_all costs now rest)"

definition RecoverUnfinishedAttempts ::
  "string \<Rightarrow> time \<Rightarrow> 'c settler \<Rightarrow> ledger \<Rightarrow> 'c \<Rightarrow> ledger_error + 'c recovery" where
  "RecoverUnfinishedAttempts currentEpoch now costs L c =
     (if currentEpoch = '''' then Inl (InvalidRequest ''recovery transaction and current epoch are required'')
      else recover_all costs now (UnfinishedAttempts currentEpoch L)
        \<lparr>rc_ledger = L, rc_costs = c,
         rc_report = \<lparr>rr_AbandonedAttempts = 0, rr_RequeuedEpisodes = 0, rr_AbandonedEpisodes = 0\<rparr>\<rparr>)"

section \<open>The scheduler queue\<close>

record scheduler_item =
  si_SchedulerItemID :: string
  si_Kind :: string
  si_TriggerID :: string
  si_SituationID :: string
  si_SituationVersion :: int
  si_Lane :: string
  si_Priority :: "64 word"
  si_Status :: item_status
  si_NotBefore :: "time option"
  si_ExpiresAt :: time

definition itemValues :: "scheduler_item \<Rightarrow> string \<Rightarrow> bytes \<Rightarrow> time \<Rightarrow> scheduler_row" where
  "itemValues item tenantID dedupeKey now =
     \<lparr>s_id = si_SchedulerItemID item, s_trigger = si_TriggerID item, s_tenant = tenantID,
      s_situation = si_SituationID item, s_version = si_SituationVersion item, s_kind = si_Kind item,
      s_lane = si_Lane item, s_priority = si_Priority item, s_status = si_Status item, s_dedupe = dedupeKey,
      s_notBefore = map_option ReadableTime (si_NotBefore item), s_expires = ReadableTime (si_ExpiresAt item),
      s_created = ReadableTime now, s_updated = now\<rparr>"

definition item_checks :: "scheduler_row \<Rightarrow> sql_constraint list" where
  "item_checks r =
     (if s_kind r \<in> {KindStandard, KindReconsider} then [] else [CheckFailed ''kind'']) @
     (if s_lane r \<in> {''fast'', ''deep''} then [] else [CheckFailed ''lane'']) @
     (if length (s_dedupe r) = 32 then [] else [CheckFailed ''dedupe_key''])"

definition item_foreign_keys :: "ledger \<Rightarrow> scheduler_row \<Rightarrow> sql_constraint list" where
  "item_foreign_keys L r =
     (if s_trigger r \<in> fst ` set (l_triggers L) then [] else [ForeignKeyFailed ''trigger_evaluations'']) @
     (if (s_situation r, s_version r) \<in> set (l_situations L) then [] else [ForeignKeyFailed ''situation_versions''])"

definition item_conflicts :: "scheduler_row \<Rightarrow> scheduler_row list \<Rightarrow> sql_constraint list" where
  "item_conflicts r rows =
     (if s_id r \<in> s_id ` set rows then [UniqueFailed ''scheduler_items.scheduler_item_id''] else []) @
     (if s_dedupe r \<in> s_dedupe ` set rows then [UniqueFailed ''scheduler_items.dedupe_key''] else [])"

definition upsert_set :: "scheduler_row \<Rightarrow> scheduler_row \<Rightarrow> scheduler_row" where
  "upsert_set excluded r = r\<lparr>s_kind := s_kind excluded, s_version := s_version excluded, s_lane := s_lane excluded,
     s_priority := s_priority excluded, s_status := s_status excluded, s_dedupe := s_dedupe excluded,
     s_notBefore := s_notBefore excluded, s_expires := s_expires excluded, s_updated := s_updated excluded\<rparr>"

text \<open>
  \<open>INSERT ... ON CONFLICT(trigger_id) DO UPDATE\<close>. When the new row collides on the trigger and on
  another unique column at once, SQLite either takes the update or reports the other column; the
  parameter \<open>target_first\<close> says which.
\<close>

definition UpsertSchedulerItem ::
  "(sql_constraint list \<Rightarrow> sql_constraint) \<Rightarrow> bool \<Rightarrow> scheduler_item \<Rightarrow> string \<Rightarrow> bytes \<Rightarrow> time
     \<Rightarrow> ledger \<Rightarrow> ledger_error + ledger" where
  "UpsertSchedulerItem report target_first item tenantID dedupeKey now L =
     (let row = itemValues item tenantID dedupeKey now; rows = l_items L;
          collides = s_trigger row \<in> s_trigger ` set rows; others = item_conflicts row rows;
          rows' = (if collides then sql_update (\<lambda>r. s_trigger r = s_trigger row) (upsert_set row) rows
                   else rows @ [row])
      in if item_checks row \<noteq> [] then Inl (StatementFailed (report (item_checks row)))
         else if others \<noteq> [] \<and> \<not> (collides \<and> target_first) then Inl (StatementFailed (report others))
         else if \<not> distinct (map s_dedupe rows')
         then Inl (StatementFailed (UniqueFailed ''scheduler_items.dedupe_key''))
         else case concat (map (item_foreign_keys L) (filter (\<lambda>r. s_trigger r = s_trigger row) rows')) of
                v # _ \<Rightarrow> Inl (StatementFailed v)
              | [] \<Rightarrow> Inr (L\<lparr>l_items := rows'\<rparr>))"

definition pending_item :: "string \<Rightarrow> scheduler_row \<Rightarrow> bool" where
  "pending_item schedulerItemID r \<longleftrightarrow> s_id r = schedulerItemID \<and> s_status r = ItemPending"

definition leavePending :: "string \<Rightarrow> time \<Rightarrow> item_status \<Rightarrow> ledger \<Rightarrow> int \<times> ledger" where
  "leavePending schedulerItemID now status L =
     (rows_affected (pending_item schedulerItemID) (l_items L),
      L\<lparr>l_items := sql_update (pending_item schedulerItemID) (\<lambda>r. r\<lparr>s_status := status, s_updated := now\<rparr>) (l_items L)\<rparr>)"

definition requireStillPending :: "int \<times> ledger \<Rightarrow> string \<Rightarrow> ledger_error + ledger" where
  "requireStillPending result schedulerItemID =
     (if fst result \<noteq> 1 then Inl (NotPending schedulerItemID) else Inr (snd result))"

definition MarkSchedulerItemAdmitted :: "string \<Rightarrow> time \<Rightarrow> ledger \<Rightarrow> ledger_error + ledger" where
  "MarkSchedulerItemAdmitted schedulerItemID now L =
     requireStillPending (leavePending schedulerItemID now ItemAdmitted L) schedulerItemID"

definition coalescePending :: "string \<Rightarrow> time \<Rightarrow> ledger \<Rightarrow> ledger_error + ledger" where
  "coalescePending schedulerItemID now L =
     requireStillPending (leavePending schedulerItemID now ItemCoalesced L) schedulerItemID"

definition ExpireSchedulerItem :: "string \<Rightarrow> time \<Rightarrow> ledger \<Rightarrow> ledger_error + ledger" where
  "ExpireSchedulerItem schedulerItemID now L =
     requireStillPending (leavePending schedulerItemID now ItemExpired L) schedulerItemID"

record coalesced_item =
  ci_SchedulerItemID :: string
  ci_SituationVersion :: int

definition compareCoalesced :: "coalesced_item \<Rightarrow> coalesced_item \<Rightarrow> int" where
  "compareCoalesced a b = compare3 (ci_SchedulerItemID a) (ci_SchedulerItemID b)"

definition CoalesceSchedulerItems ::
  "string \<Rightarrow> string \<Rightarrow> time \<Rightarrow> ledger \<Rightarrow> coalesced_item list \<times> ledger" where
  "CoalesceSchedulerItems situationID triggerName now L =
     (let triggers = map fst (filter (\<lambda>(i, sit, name, admitted). sit = situationID \<and> name = triggerName \<and> admitted)
                       (l_triggers L));
          open_item = (\<lambda>r. s_situation r = situationID \<and> s_trigger r \<in> set triggers
                         \<and> (s_status r = ItemPending \<or> s_status r = ItemAdmitted))
      in (sort_func compareCoalesced
            (map (\<lambda>r. \<lparr>ci_SchedulerItemID = s_id r, ci_SituationVersion = s_version r\<rparr>) (filter open_item (l_items L))),
          L\<lparr>l_items := sql_update open_item (\<lambda>r. r\<lparr>s_status := ItemCoalesced, s_updated := now\<rparr>) (l_items L)\<rparr>))"

definition PendingQueue :: "string \<Rightarrow> ledger \<Rightarrow> pending_queue" where
  "PendingQueue tenantID L = collect_queue
     (map (\<lambda>r. \<lparr>qr_id = s_id r, qr_createdAt = s_created r, qr_notBefore = s_notBefore r, qr_expiresAt = s_expires r\<rparr>)
       (filter (\<lambda>r. s_tenant r = tenantID \<and> s_status r = ItemPending) (l_items L)))"

definition DueSchedulerItems :: "string \<Rightarrow> time \<Rightarrow> ledger \<Rightarrow> due_item list" where
  "DueSchedulerItems tenantID now L = DueItems (pq_Items (PendingQueue tenantID L)) now"

definition PollSchedulerQueue :: "string \<Rightarrow> time \<Rightarrow> ledger \<Rightarrow> queue_poll" where
  "PollSchedulerQueue tenantID now L = Poll (PendingQueue tenantID L) now"

section \<open>Dispatch and inspection\<close>

record dispatchable_episode =
  de_Admission :: admission
  de_StaleRebindCount :: int

definition compareDispatch :: "episode_row \<Rightarrow> episode_row \<Rightarrow> int" where
  "compareDispatch a b = cmp_or (compare3 (e_accepted a) (e_accepted b)) (compare3 (e_id a) (e_id b))"

definition dispatchable :: "bool \<Rightarrow> ledger \<Rightarrow> episode_row \<Rightarrow> bool" where
  "dispatchable killedSuperseded L r \<longleftrightarrow> Live (e_lifecycle r) \<or>
     killedSuperseded \<and> e_lifecycle r = LifecycleSuperseded \<and> e_attempt r = None
       \<and> a_PolicyEpoch (e_admission r) \<in> set (l_killed L)"

definition NextDispatchableEpisode :: "string \<Rightarrow> bool \<Rightarrow> ledger \<Rightarrow> dispatchable_episode option" where
  "NextDispatchableEpisode tenantID killedSuperseded L =
     (case sort_func compareDispatch
        (filter (\<lambda>r. a_TenantID (e_admission r) = tenantID \<and> dispatchable killedSuperseded L r) (l_episodes L)) of
        [] \<Rightarrow> None
      | r # _ \<Rightarrow> Some \<lparr>de_Admission = e_admission r, de_StaleRebindCount = e_rebinds r\<rparr>)"

definition ReasoningInFlight :: "ledger \<Rightarrow> bool" where
  "ReasoningInFlight L \<longleftrightarrow> (\<exists>r \<in> set (l_episodes L). Live (e_lifecycle r)) \<or>
     (\<exists>s \<in> set (l_items L). s_status s = ItemPending \<and> s_notBefore s = None)"

definition compareRejection :: "rejection_row \<Rightarrow> rejection_row \<Rightarrow> int" where
  "compareRejection a b = cmp_or (compare3 (r_created a) (r_created b)) (compare3 (r_id a) (r_id b))"

definition Rejections :: "string \<Rightarrow> ledger \<Rightarrow> rejection_row list" where
  "Rejections episodeID L =
     sort_func compareRejection (filter (\<lambda>r. r_episode r = Some episodeID) (l_rejections L))"

definition compareAttemptFence :: "attempt_row \<Rightarrow> attempt_row \<Rightarrow> int" where
  "compareAttemptFence a b = compare3 (t_fence a) (t_fence b)"

definition episode_attempts :: "string \<Rightarrow> ledger \<Rightarrow> attempt_row list" where
  "episode_attempts episodeID L =
     sort_func compareAttemptFence (filter (\<lambda>t. t_episode t = episodeID) (l_attempts L))"

text \<open>What \<open>Episode\<close> returns: the episode's row, its attempts by fence and its rejections by time.\<close>

record episode_record =
  er_row :: episode_row
  er_SnapshotSHA256 :: string
  er_CurrentAttemptID :: string
  er_Attempts :: "attempt_row list"
  er_Rejections :: "rejection_row list"

definition Episode :: "string \<Rightarrow> string \<Rightarrow> ledger \<Rightarrow> ledger_error + episode_record" where
  "Episode tenantID episodeID L =
     (case find (\<lambda>r. a_TenantID (e_admission r) = tenantID \<and> e_id r = episodeID) (l_episodes L) of
        None \<Rightarrow> Inl NoRows
      | Some r \<Rightarrow> Inr \<lparr>er_row = r, er_SnapshotSHA256 = EncodeDigest (a_SnapshotSHA256 (e_admission r)),
          er_CurrentAttemptID = (case e_attempt r of Some a \<Rightarrow> a | None \<Rightarrow> ''''),
          er_Attempts = episode_attempts episodeID L, er_Rejections = Rejections episodeID L\<rparr>)"

record scheduling_record =
  sr_item :: scheduler_row
  sr_EpisodeID :: string
  sr_EpisodeStatus :: "lifecycle_status option"
  sr_EpisodeSituationVersion :: int
  sr_Rejections :: "rejection_row list"

definition Scheduling :: "string \<Rightarrow> string \<Rightarrow> ledger \<Rightarrow> scheduling_record option" where
  "Scheduling tenantID triggerID L =
     map_option (\<lambda>s. let e = find (\<lambda>r. e_item r = s_id s) (l_episodes L);
                         episodeID = (case e of Some r \<Rightarrow> e_id r | None \<Rightarrow> '''')
        in \<lparr>sr_item = s, sr_EpisodeID = episodeID, sr_EpisodeStatus = map_option e_lifecycle e,
            sr_EpisodeSituationVersion = (case e of Some r \<Rightarrow> a_SituationVersion (e_admission r) | None \<Rightarrow> 0),
            sr_Rejections = Rejections episodeID L\<rparr>)
      (find (\<lambda>s. s_tenant s = tenantID \<and> s_trigger s = triggerID) (l_items L))"

end
