(* ===== verification/Episode_Fencing.thy ===== *)
theory Episode_Fencing
  imports Episode_Ledger
begin

text \<open>
  What the episode ledger guarantees over every sequence of its operations: the step relation whose
  steps are the successful operations of \<open>Episode_Ledger\<close> (any arguments, any owner check, any cost
  settler) and the writes of other components to the referenced tables, its invariant, and the
  fencing properties that follow from it.
\<close>

section \<open>The step relation\<close>

inductive ledger_step :: "ledger \<Rightarrow> ledger \<Rightarrow> bool" where
  admit: "Admit report req now L = Inr L' \<Longrightarrow> ledger_step L L'"
| reject: "RecordRejection i reason details now L = Inr L' \<Longrightarrow> ledger_step L L'"
| start: "startAttempt episodeID attemptID ownerEpoch owner now L = Inr (i, L') \<Longrightarrow> ledger_step L L'"
| transition: "TransitionAttempt i to_status now terminal owner L = Inr L' \<Longrightarrow> ledger_step L L'"
| rebind: "Rebind episodeID version digest request L = Inr L' \<Longrightarrow> ledger_step L L'"
| bind_request: "BindRequest episodeID request L = Inr L' \<Longrightarrow> ledger_step L L'"
| abandon_rebind: "AbandonRebind episodeID now terminal L = Inr L' \<Longrightarrow> ledger_step L L'"
| abandon: "Abandon episodeID now terminal L = Inr L' \<Longrightarrow> ledger_step L L'"
| conclude: "Conclude episodeID now terminal L = Inr L' \<Longrightarrow> ledger_step L L'"
| retain: "RetainForRetry episodeID L = Inr L' \<Longrightarrow> ledger_step L L'"
| supersede_epoch: "SupersedeEpoch epoch now L = Inr L' \<Longrightarrow> ledger_step L L'"
| supersede_coalesced: "SupersedeCoalesced situationID now L = Inr L' \<Longrightarrow> ledger_step L L'"
| recover: "RecoverUnfinishedAttempts epoch now (costs :: nat settler) L c = Inr rc
    \<Longrightarrow> ledger_step L (rc_ledger rc)"
| upsert: "UpsertSchedulerItem report target_first item tenantID key now L = Inr L' \<Longrightarrow> ledger_step L L'"
| mark_admitted: "MarkSchedulerItemAdmitted itemID now L = Inr L' \<Longrightarrow> ledger_step L L'"
| coalesce_pending: "coalescePending itemID now L = Inr L' \<Longrightarrow> ledger_step L L'"
| expire: "ExpireSchedulerItem itemID now L = Inr L' \<Longrightarrow> ledger_step L L'"
| coalesce_items: "ledger_step L (snd (CoalesceSchedulerItems situationID triggerName now L))"
| other_tables: "ledger_step L (L\<lparr>l_situations := sits, l_triggers := trigs, l_killed := killed\<rparr>)"

inductive ledger_steps :: "ledger \<Rightarrow> ledger \<Rightarrow> bool" where
  refl: "ledger_steps L L"
| step: "ledger_steps L M \<Longrightarrow> ledger_step M N \<Longrightarrow> ledger_steps L N"

definition empty_ledger :: ledger where
  "empty_ledger = \<lparr>l_episodes = [], l_attempts = [], l_rejections = [], l_items = [],
     l_situations = [], l_triggers = [], l_killed = []\<rparr>"

lemma unfinished_simps [simp]:
  "Unfinished AttemptDispatched" "Unfinished AttemptRunning" "Unfinished AttemptCancelling"
  "\<not> Unfinished AttemptProduced" "\<not> Unfinished AttemptDeclined" "\<not> Unfinished AttemptCancelled"
  "\<not> Unfinished AttemptFailed" "\<not> Unfinished AttemptTimedOut" "\<not> Unfinished AttemptAbandoned"
  by (simp_all add: Unfinished_def InFlight_def)

section \<open>The invariant\<close>

definition keys_ok :: "ledger \<Rightarrow> bool" where
  "keys_ok L \<longleftrightarrow> distinct (map e_id (l_episodes L)) \<and> one_live_per_situation (l_episodes L)
     \<and> distinct (map t_id (l_attempts L))"

definition attempt_linked :: "episode_row list \<Rightarrow> attempt_row \<Rightarrow> bool" where
  "attempt_linked eps t \<longleftrightarrow> 1 \<le> t_fence t \<and>
     (\<exists>r \<in> set eps. e_id r = t_episode t \<and> t_fence t \<le> e_fence r
        \<and> (Unfinished (t_status t) \<longrightarrow> e_attempt r = Some (t_id t) \<and> t_fence t = e_fence r))"

definition episode_linked :: "attempt_row list \<Rightarrow> episode_row \<Rightarrow> bool" where
  "episode_linked ats r \<longleftrightarrow> (case e_attempt r of
     None \<Rightarrow> e_fence r = 0
   | Some a \<Rightarrow> \<exists>t \<in> set ats. t_id t = a \<and> t_episode t = e_id r \<and> t_fence t = e_fence r)"

definition ledger_inv :: "ledger \<Rightarrow> bool" where
  "ledger_inv L \<longleftrightarrow> keys_ok L \<and> (\<forall>t \<in> set (l_attempts L). attempt_linked (l_episodes L) t)
     \<and> (\<forall>r \<in> set (l_episodes L). episode_linked (l_attempts L) r)"

lemma ledger_inv_cong:
  "l_episodes L = l_episodes L' \<Longrightarrow> l_attempts L = l_attempts L' \<Longrightarrow> ledger_inv L = ledger_inv L'"
  by (simp add: ledger_inv_def keys_ok_def)

text \<open>A write to the episodes that keeps each row's identity, attempt and fence keeps the invariant
  as soon as the live index holds, which the statement checks.\<close>

lemma ledger_inv_episodes:
  assumes inv: "ledger_inv L" and live: "one_live_per_situation (sql_update P f (l_episodes L))"
    and keep: "\<And>r. P r \<Longrightarrow> e_id (f r) = e_id r \<and> e_attempt (f r) = e_attempt r \<and> e_fence (f r) = e_fence r"
  shows "ledger_inv (L\<lparr>l_episodes := sql_update P f (l_episodes L)\<rparr>)"
proof -
  let ?g = "\<lambda>r. if P r then f r else r"
  have same: "e_id (?g r) = e_id r \<and> e_attempt (?g r) = e_attempt r \<and> e_fence (?g r) = e_fence r" for r
    using keep by simp
  have "attempt_linked (sql_update P f (l_episodes L)) t" if "attempt_linked (l_episodes L) t" for t
  proof -
    from that obtain r where r: "r \<in> set (l_episodes L)" "e_id r = t_episode t" "t_fence t \<le> e_fence r"
      "Unfinished (t_status t) \<longrightarrow> e_attempt r = Some (t_id t) \<and> t_fence t = e_fence r"
      by (auto simp: attempt_linked_def)
    have "?g r \<in> set (sql_update P f (l_episodes L))"
      using r(1) by (auto simp: set_sql_update)
    with that r same[of r] show ?thesis
      unfolding attempt_linked_def by (intro conjI bexI[of _ "?g r"]) simp_all
  qed
  moreover have "episode_linked ats (?g r) = episode_linked ats r" for ats r
    by (cases "P r"; cases "e_attempt r") (simp_all add: episode_linked_def keep)
  moreover have "map e_id (sql_update P f (l_episodes L)) = map e_id (l_episodes L)"
    using keep by (intro map_sql_update) simp
  ultimately show ?thesis
    using inv live by (simp add: ledger_inv_def keys_ok_def)
qed

text \<open>A write to the attempts that keeps each row's identity and never reopens a finished attempt
  keeps the invariant.\<close>

lemma ledger_inv_attempts:
  assumes inv: "ledger_inv L"
    and keep: "\<And>t. P t \<Longrightarrow> t_id (f t) = t_id t \<and> t_episode (f t) = t_episode t \<and> t_fence (f t) = t_fence t"
    and finish: "\<And>t. t \<in> set (l_attempts L) \<Longrightarrow> P t \<Longrightarrow> Unfinished (t_status (f t)) \<Longrightarrow> Unfinished (t_status t)"
  shows "ledger_inv (L\<lparr>l_attempts := sql_update P f (l_attempts L)\<rparr>)"
proof -
  let ?g = "\<lambda>t. if P t then f t else t"
  have same: "t_id (?g t) = t_id t \<and> t_episode (?g t) = t_episode t \<and> t_fence (?g t) = t_fence t" for t
    using keep by simp
  have "attempt_linked eps (?g t)" if "attempt_linked eps t" "t \<in> set (l_attempts L)" for eps t
    using that finish unfolding attempt_linked_def by (auto simp: keep)
  moreover have "episode_linked (sql_update P f (l_attempts L)) r" if "episode_linked (l_attempts L) r" for r
  proof (cases "e_attempt r")
    case (Some a)
    with that obtain t where t: "t \<in> set (l_attempts L)" "t_id t = a" "t_episode t = e_id r" "t_fence t = e_fence r"
      by (auto simp: episode_linked_def)
    have "?g t \<in> set (sql_update P f (l_attempts L))"
      using t(1) by (auto simp: set_sql_update)
    with t Some same[of t] show ?thesis
      unfolding episode_linked_def by (auto intro!: bexI[of _ "?g t"])
  qed (use that in \<open>simp add: episode_linked_def\<close>)
  moreover have "map t_id (sql_update P f (l_attempts L)) = map t_id (l_attempts L)"
    using keep by (intro map_sql_update) simp
  ultimately show ?thesis
    using inv by (simp add: ledger_inv_def keys_ok_def)
qed

lemma write_episodes_Inr:
  assumes "write_episodes P f L = Inr L'"
  shows "L' = L\<lparr>l_episodes := sql_update P f (l_episodes L)\<rparr>"
    and "one_live_per_situation (sql_update P f (l_episodes L))"
  using assms by (auto simp: write_episodes_def Let_def split: if_splits list.splits)

lemma write_episodes_succeeds:
  assumes "\<And>r. r \<in> set (l_episodes L) \<Longrightarrow> P r \<Longrightarrow> episode_checks (f r) = [] \<and> situation_known L (f r)"
    and "one_live_per_situation (sql_update P f (l_episodes L))"
  shows "write_episodes P f L = Inr (L\<lparr>l_episodes := sql_update P f (l_episodes L)\<rparr>)"
proof -
  have checks: "concat (map episode_checks (map f (filter P (l_episodes L)))) = []"
    using assms(1) by auto
  have "list_all (situation_known L) (map f (filter P (l_episodes L)))"
    using assms(1) by (auto simp: list_all_iff)
  with assms(2) show ?thesis
    unfolding write_episodes_def Let_def checks by simp
qed

lemma write_episodes_inv:
  assumes "write_episodes P f L = Inr L'" and "ledger_inv L"
    and "\<And>r. P r \<Longrightarrow> e_id (f r) = e_id r \<and> e_attempt (f r) = e_attempt r \<and> e_fence (f r) = e_fence r"
  shows "ledger_inv L'"
  using ledger_inv_episodes[OF assms(2) _ assms(3)] write_episodes_Inr[OF assms(1)] by simp

lemma find_episode_SomeD: "find_episode episodeID L = Some r \<Longrightarrow> r \<in> set (l_episodes L) \<and> e_id r = episodeID"
  unfolding find_episode_def by (drule find_SomeD) simp

lemma find_episode_member:
  "keys_ok L \<Longrightarrow> r \<in> set (l_episodes L) \<Longrightarrow> find_episode (e_id r) L = Some r"
  unfolding find_episode_def keys_ok_def by (rule find_by_key) auto

lemma attempt_unique:
  "ledger_inv L \<Longrightarrow> x \<in> set (l_attempts L) \<Longrightarrow> y \<in> set (l_attempts L) \<Longrightarrow> t_id x = t_id y \<Longrightarrow> x = y"
  by (rule distinct_key_eq[of t_id "l_attempts L"]) (simp_all add: ledger_inv_def keys_ok_def)

lemma episode_unique:
  "ledger_inv L \<Longrightarrow> x \<in> set (l_episodes L) \<Longrightarrow> y \<in> set (l_episodes L) \<Longrightarrow> e_id x = e_id y \<Longrightarrow> x = y"
  by (rule distinct_key_eq[of e_id "l_episodes L"]) (simp_all add: ledger_inv_def keys_ok_def)

section \<open>Each operation keeps the invariant\<close>

lemma InsertEpisode_Inr:
  assumes "InsertEpisode req now L = Inr L'"
  obtains row where "L' = L\<lparr>l_episodes := l_episodes L @ [row]\<rparr>"
    and "e_admission row = req\<lparr>a_Kind := ''''\<rparr>" "e_lifecycle row = LifecycleAdmitted"
    and "e_attempt row = None" "e_fence row = 0" "episode_violations L row = []"
  using assms by (auto simp: InsertEpisode_def Let_def split: list.splits)

lemma Admit_Inr: "Admit report req now L = Inr L' \<longleftrightarrow> InsertEpisode req now L = Inr L'"
  by (auto simp: Admit_def Let_def split: sum.splits if_splits)

lemma Admit_inv:
  assumes "Admit report req now L = Inr L'" and "ledger_inv L"
  shows "ledger_inv L'"
proof -
  from assms(1) obtain row where L': "L' = L\<lparr>l_episodes := l_episodes L @ [row]\<rparr>"
    and row: "e_attempt row = None" "e_fence row = 0" and none: "episode_violations L row = []"
    by (auto simp: Admit_Inr elim: InsertEpisode_Inr)
  have "e_id row \<notin> e_id ` set (l_episodes L)"
    "\<not> (Live (e_lifecycle row) \<and> (\<exists>x \<in> set (l_episodes L). Live (e_lifecycle x) \<and> e_situation x = e_situation row))"
    using none by (auto simp: episode_violations_def split: if_splits)
  then have "keys_ok L'"
    using assms(2) by (auto simp: L' ledger_inv_def keys_ok_def one_live_per_situation_def unique_index_def)
  moreover have "attempt_linked (l_episodes L') t" if "attempt_linked (l_episodes L) t" for t
    using that by (auto simp: attempt_linked_def L')
  ultimately show ?thesis
    using assms(2) row by (auto simp: ledger_inv_def L' episode_linked_def)
qed

lemma RecordRejection_tables:
  "RecordRejection i reason details now L = Inr L' \<Longrightarrow>
     l_episodes L' = l_episodes L \<and> l_attempts L' = l_attempts L \<and> l_items L' = l_items L"
  by (auto simp: RecordRejection_def bind_res_Inr_iff InsertRejection_def Let_def split: if_splits)

lemmas episode_write_defs =
  Rebind_def BindRequest_def AbandonRebind_def Abandon_def Conclude_def RetainForRetry_def
  SupersedeEpoch_def SupersedeCoalescedEpisodes_def end_episode_def supersede_row_def

lemma SupersedeCoalesced_inv:
  assumes "SupersedeCoalesced situationID now L = Inr L'" and "ledger_inv L"
  shows "ledger_inv L'"
proof -
  from assms(1) obtain M where M: "SupersedeCoalescedEpisodes situationID now L = Inr M"
    and L': "L' = CancelCoalescedAttempts situationID M"
    by (auto simp: SupersedeCoalesced_def bind_res_Inr_iff)
  have "ledger_inv M"
    using M assms(2) unfolding episode_write_defs by (rule write_episodes_inv) simp
  then show ?thesis
    unfolding L' CancelCoalescedAttempts_def Let_def
    by (rule ledger_inv_attempts) (auto simp: Unfinished_def)
qed

lemma requireStartableEpisode_Inr:
  assumes "requireStartableEpisode episodeID L = Inr n"
  obtains r where "find_episode episodeID L = Some r" "Live (e_lifecycle r)" "n = e_fence r"
    "\<And>a. e_attempt r = Some a \<Longrightarrow>
       \<exists>t. find (\<lambda>t. t_id t = a \<and> t_episode t = episodeID) (l_attempts L) = Some t \<and> \<not> Unfinished (t_status t)"
  using assms
  by (auto simp: requireStartableEpisode_def bind_res_Inr_iff episodeFence_def ReadEpisodeFence_def Refuse_def
      CheckStartable_def CheckPriorAttemptTerminal_def ReadEpisodeAttemptStatus_def IsTerminalAttempt_def
      split: option.splits if_splits)

lemma startAttempt_Inr:
  assumes "startAttempt episodeID attemptID ownerEpoch owner now L = Inr (i, L')" and "ledger_inv L"
  obtains r t where "find_episode episodeID L = Some r" "Live (e_lifecycle r)"
    "i = \<lparr>i_EpisodeID = episodeID, i_AttemptID = attemptID, i_Fence = e_fence r + 1, i_OwnerEpoch = ownerEpoch\<rparr>"
    "attemptID \<notin> t_id ` set (l_attempts L)"
    "requireOwnerLease owner ownerEpoch = Inr ()"
    "\<And>t. t \<in> set (l_attempts L) \<Longrightarrow> t_episode t = episodeID \<Longrightarrow> \<not> Unfinished (t_status t)"
    "L' = L\<lparr>l_attempts := l_attempts L @ [t], l_episodes := sql_update (\<lambda>r. e_id r = episodeID)
       (\<lambda>r. r\<lparr>e_lifecycle := LifecycleRunning, e_attempt := Some attemptID, e_fence := i_Fence i,
              e_started := coalesce (e_started r) now\<rparr>) (l_episodes L)\<rparr>"
    "one_live_per_situation (l_episodes L')"
    "t_id t = attemptID" "t_episode t = episodeID" "t_fence t = i_Fence i" "t_status t = AttemptDispatched"
    "t_owner t = (if ownerEpoch = '''' then None else Some ownerEpoch)" "1 \<le> i_Fence i"
proof -
  from assms(1) obtain n where lease: "requireOwnerLease owner ownerEpoch = Inr ()"
    and n: "requireStartableEpisode episodeID L = Inr n"
    and i: "i = \<lparr>i_EpisodeID = episodeID, i_AttemptID = attemptID, i_Fence = n + 1, i_OwnerEpoch = ownerEpoch\<rparr>"
    and rec: "recordStartedAttempt i now L = Inr L'"
    by (auto simp: startAttempt_def bind_res_Inr_iff Let_def split: if_splits)
  from n obtain r where r: "find_episode episodeID L = Some r" "Live (e_lifecycle r)" "n = e_fence r"
    and prior: "\<And>a. e_attempt r = Some a \<Longrightarrow> \<exists>t. find (\<lambda>t. t_id t = a \<and> t_episode t = episodeID) (l_attempts L) = Some t
      \<and> \<not> Unfinished (t_status t)"
    by (rule requireStartableEpisode_Inr) blast
  from rec obtain M where M: "InsertAttempt i now L = Inr M" "RecordEpisodeAttempt i now M = Inr L'"
    by (auto simp: recordStartedAttempt_def bind_res_Inr_iff)
  define t where "t = \<lparr>t_id = attemptID, t_episode = episodeID, t_fence = n + 1, t_status = AttemptDispatched,
    t_owner = (if ownerEpoch = '''' then None else Some ownerEpoch), t_started = Some now, t_ended = None, t_terminal = None\<rparr>"
  have ins: "M = L\<lparr>l_attempts := l_attempts L @ [t]\<rparr>" "attemptID \<notin> t_id ` set (l_attempts L)" "1 \<le> n + 1"
    using M(1) by (auto simp: InsertAttempt_def t_def i split: if_splits)
  have done_before: "\<not> Unfinished (t_status x)" if x: "x \<in> set (l_attempts L)" "t_episode x = episodeID" for x
  proof
    assume "Unfinished (t_status x)"
    with assms(2) x obtain r' where "r' \<in> set (l_episodes L)" "e_id r' = episodeID" "e_attempt r' = Some (t_id x)"
      by (auto simp: ledger_inv_def attempt_linked_def)
    then have "e_attempt r = Some (t_id x)"
      using r(1) find_episode_member[of L r'] assms(2) by (auto simp: ledger_inv_def)
    with prior obtain y where y: "y \<in> set (l_attempts L)" "t_id y = t_id x" "\<not> Unfinished (t_status y)"
      by (auto dest: find_SomeD)
    then have "y = x"
      using attempt_unique[OF assms(2) _ x(1)] by simp
    with y(3) \<open>Unfinished (t_status x)\<close> show False by simp
  qed
  show thesis
    using r lease ins done_before write_episodes_Inr[OF M(2)[unfolded RecordEpisodeAttempt_def]]
    by (intro that[of r t]) (auto simp: i t_def)
qed

lemma startAttempt_inv:
  assumes "startAttempt episodeID attemptID ownerEpoch owner now L = Inr (i, L')" and inv: "ledger_inv L"
  shows "ledger_inv L'"
  using assms
proof (rule startAttempt_Inr)
  fix r t
  let ?f = "\<lambda>r. r\<lparr>e_lifecycle := LifecycleRunning, e_attempt := Some attemptID, e_fence := i_Fence i,
    e_started := coalesce (e_started r) now\<rparr>"
  let ?g = "\<lambda>r. if e_id r = episodeID then ?f r else r"
  assume r: "find_episode episodeID L = Some r" and i: "i_Fence i \<ge> 1"
    "i = \<lparr>i_EpisodeID = episodeID, i_AttemptID = attemptID, i_Fence = e_fence r + 1, i_OwnerEpoch = ownerEpoch\<rparr>"
    and fresh: "attemptID \<notin> t_id ` set (l_attempts L)"
    and quiet: "\<And>t. t \<in> set (l_attempts L) \<Longrightarrow> t_episode t = episodeID \<Longrightarrow> \<not> Unfinished (t_status t)"
    and L': "L' = L\<lparr>l_attempts := l_attempts L @ [t],
      l_episodes := sql_update (\<lambda>r. e_id r = episodeID) ?f (l_episodes L)\<rparr>"
    and live: "one_live_per_situation (l_episodes L')"
    and t: "t_id t = attemptID" "t_episode t = episodeID" "t_fence t = i_Fence i" "t_status t = AttemptDispatched"
  have r_mem: "r \<in> set (l_episodes L)" "e_id r = episodeID"
    using find_episode_SomeD[OF r] by auto
  have only_r: "x = r" if "x \<in> set (l_episodes L)" "e_id x = episodeID" for x
    using episode_unique[OF inv that(1) r_mem(1)] that(2) r_mem(2) by simp
  have mem: "x \<in> set (l_episodes L) \<Longrightarrow> ?g x \<in> set (l_episodes L')" for x
    by (auto simp: L' set_sql_update)
  have "attempt_linked (l_episodes L') x" if x: "x \<in> set (l_attempts L)" for x
  proof -
    obtain y where y: "1 \<le> t_fence x" "y \<in> set (l_episodes L)" "e_id y = t_episode x" "t_fence x \<le> e_fence y"
      "Unfinished (t_status x) \<longrightarrow> e_attempt y = Some (t_id x) \<and> t_fence x = e_fence y"
      using inv x by (auto simp: ledger_inv_def attempt_linked_def)
    then show ?thesis
      using mem[OF y(2)] quiet[OF x] only_r[of y] i
      unfolding attempt_linked_def by (intro conjI bexI[of _ "?g y"]) auto
  qed
  moreover have "attempt_linked (l_episodes L') t"
    using mem[OF r_mem(1)] r_mem(2) t i unfolding attempt_linked_def by (intro conjI bexI[of _ "?g r"]) auto
  moreover have linked: "episode_linked (l_attempts L') (?g x)" if "x \<in> set (l_episodes L)" for x
  proof (cases "e_id x = episodeID")
    case False
    then show ?thesis
      using inv that by (auto simp: ledger_inv_def episode_linked_def L' split: option.splits)
  qed (use t in \<open>auto simp: episode_linked_def L'\<close>)
  moreover have "\<forall>x \<in> set (l_episodes L'). episode_linked (l_attempts L') x"
  proof
    fix x
    assume "x \<in> set (l_episodes L')"
    then obtain y where "y \<in> set (l_episodes L)" "x = ?g y"
      unfolding L' by (auto simp: set_sql_update)
    with linked show "episode_linked (l_attempts L') x" by simp
  qed
  moreover have "map e_id (l_episodes L') = map e_id (l_episodes L)"
    by (simp add: L' map_sql_update)
  moreover have "l_attempts L' = l_attempts L @ [t]"
    by (simp add: L')
  moreover have "distinct (map t_id (l_attempts L'))"
    using inv fresh t(1) by (simp add: L' ledger_inv_def keys_ok_def)
  ultimately show ?thesis
    using inv live by (auto simp: ledger_inv_def keys_ok_def)
qed

text \<open>The row a transition writes, by the kind of its target.\<close>

definition transitioned :: "attempt_status \<Rightarrow> time \<Rightarrow> bytes \<Rightarrow> attempt_row \<Rightarrow> attempt_row" where
  "transitioned to_status now terminal t = (case KindOf to_status of
     TransitionTerminal \<Rightarrow> t\<lparr>t_status := to_status, t_ended := Some now, t_terminal := Some (TerminalJSON terminal)\<rparr>
   | TransitionRunning \<Rightarrow> t\<lparr>t_status := AttemptRunning, t_started := coalesce (t_started t) now\<rparr>
   | TransitionStatusOnly \<Rightarrow> t\<lparr>t_status := to_status\<rparr>)"

lemma transitioned_keeps [simp]:
  "t_id (transitioned s now term t) = t_id t" "t_episode (transitioned s now term t) = t_episode t"
  "t_fence (transitioned s now term t) = t_fence t" "t_owner (transitioned s now term t) = t_owner t"
  by (simp_all add: transitioned_def split: transition_kind.splits)

lemma transitioned_status [simp]: "t_status (transitioned s now term t) = s"
  by (simp add: transitioned_def KindOf_def)

lemma validate_Inr:
  assumes "validateTransitionIdentity i to_status owner L = Inr u"
  obtains r t where "find_episode (i_EpisodeID i) L = Some r" "e_attempt r = Some (i_AttemptID i)"
    "e_fence r = i_Fence i" "t \<in> set (l_attempts L)" "under_identity i t" "Unfinished (t_status t)"
    "requireOwnerLease owner (i_OwnerEpoch i) = Inr ()"
    "MayAcknowledgeCancellation to_status \<or> \<not> Closed (e_lifecycle r)"
  using assms
  by (auto simp: validateTransitionIdentity_def ValidateWorkerIdentity_def validateTerminalIdentity_def
      checkEpisodeFence_def checkTerminalFence_def checkAttemptOpen_def attemptRecord_def episodeFence_def
      ReadEpisodeFence_def ReadAttempt_def CheckOpenIdentity_def CheckIdentity_def CheckAttemptOpen_def
      CheckAttemptNotTerminal_def IsTerminalAttempt_def Refuse_def bind_res_Inr_iff under_identity_def
      split: sum.splits option.splits if_splits dest!: find_SomeD)

lemma TransitionAttempt_Inr:
  assumes "TransitionAttempt i to_status now terminal owner L = Inr L'" and "ledger_inv L"
  obtains r t where "find_episode (i_EpisodeID i) L = Some r" "e_attempt r = Some (i_AttemptID i)"
    "e_fence r = i_Fence i" "t \<in> set (l_attempts L)" "under_identity i t" "Unfinished (t_status t)"
    "CanTransitionAttempt (t_status t) to_status" "requireOwnerLease owner (i_OwnerEpoch i) = Inr ()"
    "MayAcknowledgeCancellation to_status \<or> \<not> Closed (e_lifecycle r)"
    "L' = L\<lparr>l_attempts := sql_update (under_identity i) (transitioned to_status now terminal) (l_attempts L)\<rparr>"
proof -
  from assms(1) obtain s where v: "validateTransitionIdentity i to_status owner L = Inr ()"
    and s: "ReadAttemptStatus (i_AttemptID i) L = Inr s" "CanTransitionAttempt s to_status"
    and p: "persistTransition i to_status now terminal L = Inr L'"
    by (auto simp: TransitionAttempt_def bind_res_Inr_iff CheckTransition_def split: if_splits)
  have L': "L' = L\<lparr>l_attempts := sql_update (under_identity i) (transitioned to_status now terminal) (l_attempts L)\<rparr>"
    using p by (auto simp: persistTransition_def writeTransition_def FinishAttempt_def StartRunningAttempt_def
        SetAttemptStatus_def updateAttempt_def transitioned_def sql_update_def split: transition_kind.splits if_splits)
  from v show thesis
  proof (rule validate_Inr)
    fix r t
    assume "find_episode (i_EpisodeID i) L = Some r" "e_attempt r = Some (i_AttemptID i)" "e_fence r = i_Fence i"
      and t: "t \<in> set (l_attempts L)" "under_identity i t" "Unfinished (t_status t)"
      and "requireOwnerLease owner (i_OwnerEpoch i) = Inr ()"
      and "MayAcknowledgeCancellation to_status \<or> \<not> Closed (e_lifecycle r)"
    moreover have "t_status t = s"
    proof -
      from s(1) obtain t' where "t' \<in> set (l_attempts L)" "t_id t' = i_AttemptID i" "t_status t' = s"
        by (auto simp: ReadAttemptStatus_def split: option.splits dest!: find_SomeD)
      with attempt_unique[OF assms(2) t(1), of t'] t(2) show ?thesis
        by (simp add: under_identity_def)
    qed
    ultimately show thesis
      using that s(2) L' by blast
  qed
qed

lemma TransitionAttempt_inv:
  assumes "TransitionAttempt i to_status now terminal owner L = Inr L'" and inv: "ledger_inv L"
  shows "ledger_inv L'"
  using assms
proof (rule TransitionAttempt_Inr)
  fix r t
  assume t: "t \<in> set (l_attempts L)" "under_identity i t" "Unfinished (t_status t)"
    and L': "L' = L\<lparr>l_attempts := sql_update (under_identity i) (transitioned to_status now terminal) (l_attempts L)\<rparr>"
  show ?thesis
    unfolding L'
  proof (rule ledger_inv_attempts[OF inv])
    fix x
    assume "x \<in> set (l_attempts L)" "under_identity i x"
    with attempt_unique[OF inv _ t(1)] t(2) have "x = t"
      by (simp add: under_identity_def)
    with t(3) show "Unfinished (t_status x)" by simp
  qed simp
qed

subsection \<open>Recovery\<close>

definition abandon_row :: "time \<Rightarrow> terminal_doc \<Rightarrow> attempt_row \<Rightarrow> attempt_row" where
  "abandon_row now terminal t = t\<lparr>t_status := AttemptAbandoned, t_ended := Some now, t_terminal := Some terminal\<rparr>"

text \<open>
  What one recovered attempt leaves: its row abandoned if it was unfinished, every other attempt as it
  was, and the episodes either untouched or with this episode ended.
\<close>

lemma recover_attempt_Inr:
  assumes "recover_attempt costs now item rc = Inr rc'"
  shows "l_attempts (rc_ledger rc') = sql_update (abandonable (ua_AttemptID item) (ua_EpisodeID item))
           (abandon_row now (RecoveryTerminal (ua_OwnerEpoch item))) (l_attempts (rc_ledger rc))"
    and "l_episodes (rc_ledger rc') = l_episodes (rc_ledger rc) \<or>
         l_episodes (rc_ledger rc') = sql_update (\<lambda>r. e_id r = ua_EpisodeID item \<and> \<not> Closed (e_lifecycle r))
           (end_episode LifecycleAbandoned now (RecoveryTerminal (ua_OwnerEpoch item))) (l_episodes (rc_ledger rc))"
    and "rc_ledger rc' = (rc_ledger rc)\<lparr>l_attempts := l_attempts (rc_ledger rc'), l_episodes := l_episodes (rc_ledger rc')\<rparr>"
  using assms
  by (auto simp: recover_attempt_def AbandonUnfinishedAttempt_def abandonCancelingEpisode_def AbandonOpenEpisode_def
      countRequeued_def bind_res_Inr_iff abandon_row_def[abs_def] Let_def
      split: if_splits option.splits sum.splits)

lemma recover_attempt_inv:
  assumes step: "recover_attempt costs now item rc = Inr rc'" and inv: "ledger_inv (rc_ledger rc)"
  shows "ledger_inv (rc_ledger rc')"
proof -
  let ?doc = "RecoveryTerminal (ua_OwnerEpoch item)"
  define M where "M = (rc_ledger rc)\<lparr>l_attempts := l_attempts (rc_ledger rc')\<rparr>"
  have M: "ledger_inv M"
    unfolding M_def recover_attempt_Inr(1)[OF step]
    by (rule ledger_inv_attempts[OF inv]) (auto simp: abandon_row_def Unfinished_def InFlight_def)
  have closed: "ledger_inv (M\<lparr>l_episodes := sql_update (\<lambda>r. e_id r = ua_EpisodeID item \<and> \<not> Closed (e_lifecycle r))
      (end_episode LifecycleAbandoned now ?doc) (l_episodes M)\<rparr>)"
  proof (rule ledger_inv_episodes[OF M])
    show "one_live_per_situation (sql_update (\<lambda>r. e_id r = ua_EpisodeID item \<and> \<not> Closed (e_lifecycle r))
        (end_episode LifecycleAbandoned now ?doc) (l_episodes M))"
      using M unfolding one_live_per_situation_def
      by (intro unique_index_leave) (auto simp: ledger_inv_def keys_ok_def one_live_per_situation_def end_episode_def Live_def)
  qed (simp add: end_episode_def)
  from recover_attempt_Inr(2)[OF step] show ?thesis
  proof
    assume "l_episodes (rc_ledger rc') = l_episodes (rc_ledger rc)"
    with M show ?thesis
      by (subst ledger_inv_cong[of _ M]) (simp_all add: M_def)
  next
    assume "l_episodes (rc_ledger rc') = sql_update (\<lambda>r. e_id r = ua_EpisodeID item \<and> \<not> Closed (e_lifecycle r))
      (end_episode LifecycleAbandoned now ?doc) (l_episodes (rc_ledger rc))"
    then have "ledger_inv (rc_ledger rc') = ledger_inv (M\<lparr>l_episodes := sql_update
        (\<lambda>r. e_id r = ua_EpisodeID item \<and> \<not> Closed (e_lifecycle r))
        (end_episode LifecycleAbandoned now ?doc) (l_episodes M)\<rparr>)"
      by (intro ledger_inv_cong) (simp_all add: M_def)
    with closed show ?thesis by blast
  qed
qed

lemma recover_all_inv:
  "recover_all costs now items rc = Inr rc' \<Longrightarrow> ledger_inv (rc_ledger rc) \<Longrightarrow> ledger_inv (rc_ledger rc')"
  by (induction items arbitrary: rc) (auto simp: bind_res_Inr_iff dest: recover_attempt_inv)

lemma Recover_inv:
  "RecoverUnfinishedAttempts epoch now costs L c = Inr rc \<Longrightarrow> ledger_inv L \<Longrightarrow> ledger_inv (rc_ledger rc)"
  by (auto simp: RecoverUnfinishedAttempts_def split: if_splits dest: recover_all_inv)

subsection \<open>Scheduler items\<close>

lemma leavePending_tables:
  "requireStillPending (leavePending itemID now status L) itemID = Inr L' \<Longrightarrow>
     l_episodes L' = l_episodes L \<and> l_attempts L' = l_attempts L"
  by (auto simp: requireStillPending_def leavePending_def split: if_splits)

lemma UpsertSchedulerItem_tables:
  "UpsertSchedulerItem report target_first item tenantID key now L = Inr L' \<Longrightarrow>
     l_episodes L' = l_episodes L \<and> l_attempts L' = l_attempts L"
  by (auto simp: UpsertSchedulerItem_def Let_def split: if_splits list.splits)

lemma CoalesceSchedulerItems_tables:
  "l_episodes (snd (CoalesceSchedulerItems situationID triggerName now L)) = l_episodes L"
  "l_attempts (snd (CoalesceSchedulerItems situationID triggerName now L)) = l_attempts L"
  by (simp_all add: CoalesceSchedulerItems_def Let_def)

section \<open>Reachable ledgers\<close>

lemma ledger_step_inv: "ledger_step L L' \<Longrightarrow> ledger_inv L \<Longrightarrow> ledger_inv L'"
proof (induction rule: ledger_step.induct)
  case (reject i reason details now L L')
  then show ?case using RecordRejection_tables[OF reject(1)] ledger_inv_cong by metis
next
  case (upsert report target_first item tenantID key now L L')
  then show ?case using UpsertSchedulerItem_tables[OF upsert(1)] ledger_inv_cong by metis
next
  case (mark_admitted itemID now L L')
  then show ?case
    using leavePending_tables[OF mark_admitted(1)[unfolded MarkSchedulerItemAdmitted_def]] ledger_inv_cong by metis
next
  case (coalesce_pending itemID now L L')
  then show ?case
    using leavePending_tables[OF coalesce_pending(1)[unfolded coalescePending_def]] ledger_inv_cong by metis
next
  case (expire itemID now L L')
  then show ?case
    using leavePending_tables[OF expire(1)[unfolded ExpireSchedulerItem_def]] ledger_inv_cong by metis
next
  case (coalesce_items L situationID triggerName now)
  then show ?case using CoalesceSchedulerItems_tables ledger_inv_cong by metis
next
  case (other_tables L sits trigs killed)
  then show ?case by (subst ledger_inv_cong[of _ L]) simp_all
qed (auto intro: Admit_inv startAttempt_inv TransitionAttempt_inv SupersedeCoalesced_inv Recover_inv
      elim!: write_episodes_inv simp: episode_write_defs)

lemma ledger_steps_inv: "ledger_steps L L' \<Longrightarrow> ledger_inv L \<Longrightarrow> ledger_inv L'"
  by (induction rule: ledger_steps.induct) (auto dest: ledger_step_inv)

lemma empty_ledger_inv: "ledger_inv empty_ledger"
  by (simp add: ledger_inv_def keys_ok_def empty_ledger_def one_live_per_situation_def unique_index_def)

lemmas reachable_inv = ledger_steps_inv[OF _ empty_ledger_inv]

section \<open>What a step never undoes\<close>

text \<open>
  Episodes and attempts are never removed and keep their identity; a fence never goes back; the row of
  a finished attempt never changes again.
\<close>

definition episode_le :: "episode_row \<Rightarrow> episode_row \<Rightarrow> bool" where
  "episode_le r r' \<longleftrightarrow> e_id r' = e_id r \<and> e_situation r' = e_situation r \<and> e_fence r \<le> e_fence r'"

definition attempt_le :: "attempt_row \<Rightarrow> attempt_row \<Rightarrow> bool" where
  "attempt_le t t' \<longleftrightarrow> t_id t' = t_id t \<and> t_episode t' = t_episode t \<and> t_fence t' = t_fence t \<and> t_owner t' = t_owner t
     \<and> (\<not> Unfinished (t_status t) \<longrightarrow> t' = t)"

definition ledger_le :: "ledger \<Rightarrow> ledger \<Rightarrow> bool" where
  "ledger_le L L' \<longleftrightarrow>
     (\<forall>r \<in> set (l_episodes L). \<exists>r' \<in> set (l_episodes L'). episode_le r r')
     \<and> (\<forall>t \<in> set (l_attempts L). \<exists>t' \<in> set (l_attempts L'). attempt_le t t')"

lemma row_le_refl [simp]: "episode_le r r" "attempt_le t t"
  by (simp_all add: episode_le_def attempt_le_def)

lemma row_le_trans:
  "episode_le r r' \<Longrightarrow> episode_le r' r'' \<Longrightarrow> episode_le r r''"
  "attempt_le t t' \<Longrightarrow> attempt_le t' t'' \<Longrightarrow> attempt_le t t''"
  by (auto simp: episode_le_def attempt_le_def)

lemma ledger_le_same: "l_episodes L' = l_episodes L \<Longrightarrow> l_attempts L' = l_attempts L \<Longrightarrow> ledger_le L L'"
  unfolding ledger_le_def by (auto intro: bexI row_le_refl)

lemma ledger_le_trans: "ledger_le L M \<Longrightarrow> ledger_le M N \<Longrightarrow> ledger_le L N"
  unfolding ledger_le_def by (blast intro: row_le_trans)

lemma ledger_le_episodes:
  assumes "\<And>r. P r \<Longrightarrow> e_id (f r) = e_id r \<and> e_situation (f r) = e_situation r \<and> e_fence (f r) = e_fence r"
  shows "ledger_le L (L\<lparr>l_episodes := sql_update P f (l_episodes L)\<rparr>)"
  unfolding ledger_le_def
proof (intro conjI ballI)
  fix r
  assume "r \<in> set (l_episodes L)"
  then have "(if P r then f r else r) \<in> set (sql_update P f (l_episodes L))"
    by (auto simp: set_sql_update)
  with assms[of r] show "\<exists>r' \<in> set (l_episodes (L\<lparr>l_episodes := sql_update P f (l_episodes L)\<rparr>)). episode_le r r'"
    by (intro bexI[of _ "if P r then f r else r"]) (auto simp: episode_le_def)
qed (auto intro: bexI row_le_refl)

lemma ledger_le_attempts:
  assumes "\<And>t. t \<in> set (l_attempts L) \<Longrightarrow> P t \<Longrightarrow> Unfinished (t_status t) \<and> t_id (f t) = t_id t
      \<and> t_episode (f t) = t_episode t \<and> t_fence (f t) = t_fence t \<and> t_owner (f t) = t_owner t"
  shows "ledger_le L (L\<lparr>l_attempts := sql_update P f (l_attempts L)\<rparr>)"
  unfolding ledger_le_def
proof (intro conjI ballI)
  fix t
  assume t: "t \<in> set (l_attempts L)"
  then have "(if P t then f t else t) \<in> set (sql_update P f (l_attempts L))"
    by (auto simp: set_sql_update)
  with assms[OF t] show "\<exists>t' \<in> set (l_attempts (L\<lparr>l_attempts := sql_update P f (l_attempts L)\<rparr>)). attempt_le t t'"
    by (intro bexI[of _ "if P t then f t else t"]) (auto simp: attempt_le_def)
qed (auto intro: bexI row_le_refl)

lemma write_episodes_le:
  assumes "write_episodes P f L = Inr L'"
    and "\<And>r. P r \<Longrightarrow> e_id (f r) = e_id r \<and> e_situation (f r) = e_situation r \<and> e_fence (f r) = e_fence r"
  shows "ledger_le L L'"
  unfolding write_episodes_Inr(1)[OF assms(1)] using assms(2) by (rule ledger_le_episodes)

lemma startAttempt_le:
  assumes "startAttempt episodeID attemptID ownerEpoch owner now L = Inr (i, L')" and "ledger_inv L"
  shows "ledger_le L L'"
  using assms
proof (rule startAttempt_Inr)
  fix r t
  let ?f = "\<lambda>r. r\<lparr>e_lifecycle := LifecycleRunning, e_attempt := Some attemptID, e_fence := i_Fence i,
    e_started := coalesce (e_started r) now\<rparr>"
  assume r: "find_episode episodeID L = Some r"
    and i: "i = \<lparr>i_EpisodeID = episodeID, i_AttemptID = attemptID, i_Fence = e_fence r + 1, i_OwnerEpoch = ownerEpoch\<rparr>"
    and L': "L' = L\<lparr>l_attempts := l_attempts L @ [t],
      l_episodes := sql_update (\<lambda>r. e_id r = episodeID) ?f (l_episodes L)\<rparr>"
  have "\<exists>y \<in> set (l_episodes L'). episode_le x y"
    if x: "x \<in> set (l_episodes L)" for x
  proof -
    have "e_id x = episodeID \<Longrightarrow> x = r"
      using episode_unique[OF assms(2) x] find_episode_SomeD[OF r] by simp
    moreover have "(if e_id x = episodeID then ?f x else x) \<in> set (l_episodes L')"
      using x by (auto simp: L' set_sql_update)
    ultimately show ?thesis
      by (intro bexI[of _ "if e_id x = episodeID then ?f x else x"]) (auto simp: i episode_le_def)
  qed
  moreover have "t' \<in> set (l_attempts L')" if "t' \<in> set (l_attempts L)" for t'
    using that by (simp add: L')
  ultimately show ?thesis
    unfolding ledger_le_def using row_le_refl(2) by blast
qed

lemma recover_attempt_le: "recover_attempt costs now item rc = Inr rc' \<Longrightarrow> ledger_le (rc_ledger rc) (rc_ledger rc')"
proof -
  assume step: "recover_attempt costs now item rc = Inr rc'"
  let ?doc = "RecoveryTerminal (ua_OwnerEpoch item)"
  define M where "M = (rc_ledger rc)\<lparr>l_attempts := l_attempts (rc_ledger rc')\<rparr>"
  have "ledger_le (rc_ledger rc) M"
    unfolding M_def recover_attempt_Inr(1)[OF step]
    by (rule ledger_le_attempts) (simp add: abandonable_def abandon_row_def)
  moreover have "ledger_le M (M\<lparr>l_episodes := sql_update (\<lambda>r. e_id r = ua_EpisodeID item \<and> \<not> Closed (e_lifecycle r))
      (end_episode LifecycleAbandoned now ?doc) (l_episodes M)\<rparr>)" (is "ledger_le M ?N")
    by (rule ledger_le_episodes) (simp add: end_episode_def)
  moreover have "ledger_le M (rc_ledger rc') \<or> ledger_le ?N (rc_ledger rc')"
    using recover_attempt_Inr(2)[OF step]
    by (elim disjE) (rule disjI1 disjI2, rule ledger_le_same, simp_all add: M_def)+
  ultimately show ?thesis
    using ledger_le_trans by blast
qed

lemma recover_all_le: "recover_all costs now items rc = Inr rc' \<Longrightarrow> ledger_le (rc_ledger rc) (rc_ledger rc')"
proof (induction items arbitrary: rc)
  case (Cons item items)
  then obtain rm where "recover_attempt costs now item rc = Inr rm" "recover_all costs now items rm = Inr rc'"
    by (auto simp: bind_res_Inr_iff)
  with Cons.IH show ?case
    using recover_attempt_le ledger_le_trans by metis
qed (simp add: ledger_le_same)

lemma ledger_step_le: "ledger_step L L' \<Longrightarrow> ledger_inv L \<Longrightarrow> ledger_le L L'"
proof (induction rule: ledger_step.induct)
  case (admit report req now L L')
  then obtain row where "L' = L\<lparr>l_episodes := l_episodes L @ [row]\<rparr>"
    by (auto simp: Admit_Inr elim: InsertEpisode_Inr)
  then show ?case
    unfolding ledger_le_def by (fastforce intro: row_le_refl)
next
  case (transition i to_status now terminal owner L L')
  from transition show ?case
  proof (rule TransitionAttempt_Inr)
    fix r t
    assume t: "t \<in> set (l_attempts L)" "under_identity i t" "Unfinished (t_status t)"
      and L': "L' = L\<lparr>l_attempts := sql_update (under_identity i) (transitioned to_status now terminal) (l_attempts L)\<rparr>"
    show "ledger_le L L'"
      unfolding L'
    proof (rule ledger_le_attempts)
      fix x
      assume x: "x \<in> set (l_attempts L)" "under_identity i x"
      then have "x = t"
        using attempt_unique[OF transition(2) x(1) t(1)] t(2) by (simp add: under_identity_def)
      with t(3) show "Unfinished (t_status x) \<and> t_id (transitioned to_status now terminal x) = t_id x
          \<and> t_episode (transitioned to_status now terminal x) = t_episode x
          \<and> t_fence (transitioned to_status now terminal x) = t_fence x
          \<and> t_owner (transitioned to_status now terminal x) = t_owner x" by simp
    qed
  qed
next
  case (supersede_coalesced situationID now L L')
  then obtain M where M: "SupersedeCoalescedEpisodes situationID now L = Inr M"
    and L': "L' = CancelCoalescedAttempts situationID M"
    by (auto simp: SupersedeCoalesced_def bind_res_Inr_iff)
  have "ledger_le M L'"
    unfolding L' CancelCoalescedAttempts_def Let_def by (rule ledger_le_attempts) (auto simp: Unfinished_def)
  moreover have "ledger_le L M"
    using M unfolding episode_write_defs by (rule write_episodes_le) simp
  ultimately show ?case using ledger_le_trans by blast
next
  case (recover epoch now costs L c rc)
  then show ?case
    by (auto simp: RecoverUnfinishedAttempts_def split: if_splits dest: recover_all_le)
qed (auto intro: startAttempt_le ledger_le_same elim!: write_episodes_le
      dest: RecordRejection_tables UpsertSchedulerItem_tables leavePending_tables
      simp: episode_write_defs CoalesceSchedulerItems_tables MarkSchedulerItemAdmitted_def coalescePending_def
        ExpireSchedulerItem_def)

lemma ledger_steps_le: "ledger_steps L L' \<Longrightarrow> ledger_inv L \<Longrightarrow> ledger_le L L'"
proof (induction rule: ledger_steps.induct)
  case (step L M N)
  then show ?case
    using ledger_step_le[OF step(2)] ledger_steps_inv[OF step(1)] ledger_le_trans by blast
qed (simp add: ledger_le_same)

end
