(* ===== verification/Episode_Properties.thy ===== *)
theory Episode_Properties
  imports Episode_Fencing
begin

text \<open>
  The properties of the episode ledger over its reachable states, each with a run of the model that
  shows its hypotheses can hold: one live episode per situation, one unfinished attempt per episode,
  fences that never serve a stale worker again, finished attempts that never change, complete and
  idempotent recovery, and the exact behaviour of admission, start, dispatch and the pending queue.
\<close>

section \<open>A sample run\<close>

definition key32 :: "char \<Rightarrow> bytes" where
  "key32 c = replicate 32 c"

definition sample_item :: "string \<Rightarrow> string \<Rightarrow> scheduler_item" where
  "sample_item itemID triggerID =
     \<lparr>si_SchedulerItemID = itemID, si_Kind = KindStandard, si_TriggerID = triggerID, si_SituationID = ''s1'',
      si_SituationVersion = 1, si_Lane = ''fast'', si_Priority = 0, si_Status = ItemPending,
      si_NotBefore = None, si_ExpiresAt = 100\<rparr>"

definition sample_admission :: admission where
  "sample_admission =
     \<lparr>a_EpisodeID = ''ep1'', a_SchedulerItemID = ''si1'', a_Kind = KindStandard, a_TenantID = ''t'',
      a_SituationID = ''s1'', a_SituationVersion = 1, a_ExecutorName = ''x'', a_ExecutorVersion = ''1'',
      a_ModelPolicy = ''m'', a_PromptVersion = ''p'', a_SnapshotSHA256 = key32 CHR ''s'', a_PromptSHA256 = None,
      a_ObjectiveSHA256 = None, a_AdmissionKey = key32 CHR ''k'', a_RequestJSON = ''{}'',
      a_DispatchPolicy = ''active'', a_PolicyEpoch = ''pe1''\<rparr>"

definition held :: owner_check where
  "held = Some (\<lambda>epoch. if epoch = ''o1'' then OwnerHeld else OwnerLost)"

definition run :: "ledger_error + ledger \<Rightarrow> ledger" where
  "run r = (case r of Inr L \<Rightarrow> L | Inl _ \<Rightarrow> empty_ledger)"

definition ledger0 :: ledger where
  "ledger0 = empty_ledger\<lparr>l_situations := [(''s1'', 1)], l_triggers := [(''tr1'', ''s1'', ''n'', True)], l_killed := []\<rparr>"

definition ledger1 :: ledger where
  "ledger1 = run (UpsertSchedulerItem hd False (sample_item ''si1'' ''tr1'') ''t'' (key32 CHR ''d'') 5 ledger0)"

definition ledger2 :: ledger where
  "ledger2 = run (Admit hd sample_admission 6 ledger1)"

definition ledger3 :: ledger where
  "ledger3 = run (map_sum id snd (StartAttemptOwned ''ep1'' ''at1'' ''o1'' held 7 ledger2))"

definition sample_identity :: identity where
  "sample_identity = \<lparr>i_EpisodeID = ''ep1'', i_AttemptID = ''at1'', i_Fence = 1, i_OwnerEpoch = ''o1''\<rparr>"

definition ledger4 :: ledger where
  "ledger4 = run (TransitionAttempt sample_identity AttemptRunning 8 '''' held ledger3)"

definition ledger5 :: ledger where
  "ledger5 = run (TransitionAttempt sample_identity AttemptFailed 9 ''{}'' held ledger4)"

definition ledger6 :: ledger where
  "ledger6 = run (map_sum id snd (StartAttemptOwned ''ep1'' ''at2'' ''o1'' held 10 ledger5))"

lemma sample_runs:
  "UpsertSchedulerItem hd False (sample_item ''si1'' ''tr1'') ''t'' (key32 CHR ''d'') 5 ledger0 = Inr ledger1"
  "Admit hd sample_admission 6 ledger1 = Inr ledger2"
  "startAttempt ''ep1'' ''at1'' ''o1'' held 7 ledger2 = Inr (sample_identity, ledger3)"
  "TransitionAttempt sample_identity AttemptRunning 8 '''' held ledger3 = Inr ledger4"
  "TransitionAttempt sample_identity AttemptFailed 9 ''{}'' held ledger4 = Inr ledger5"
  "startAttempt ''ep1'' ''at2'' ''o1'' held 10 ledger5
     = Inr (sample_identity\<lparr>i_AttemptID := ''at2'', i_Fence := 2\<rparr>, ledger6)"
  by code_simp+

lemma sample_reachable:
  "ledger_steps empty_ledger ledger1" "ledger_steps empty_ledger ledger2" "ledger_steps empty_ledger ledger3"
  "ledger_steps empty_ledger ledger4" "ledger_steps empty_ledger ledger5" "ledger_steps empty_ledger ledger6"
proof -
  have "ledger_steps empty_ledger ledger0"
    unfolding ledger0_def by (rule ledger_steps.step[OF ledger_steps.refl]) (rule ledger_step.other_tables)
  then show 1: "ledger_steps empty_ledger ledger1"
    using sample_runs(1) by (rule ledger_steps.step[OF _ ledger_step.upsert])
  then show 2: "ledger_steps empty_ledger ledger2"
    using sample_runs(2) by (rule ledger_steps.step[OF _ ledger_step.admit])
  then show 3: "ledger_steps empty_ledger ledger3"
    using sample_runs(3) by (rule ledger_steps.step[OF _ ledger_step.start])
  then show 4: "ledger_steps empty_ledger ledger4"
    using sample_runs(4) by (rule ledger_steps.step[OF _ ledger_step.transition])
  then show 5: "ledger_steps empty_ledger ledger5"
    using sample_runs(5) by (rule ledger_steps.step[OF _ ledger_step.transition])
  then show "ledger_steps empty_ledger ledger6"
    using sample_runs(6) by (rule ledger_steps.step[OF _ ledger_step.start])
qed

section \<open>Exclusivity and fencing\<close>

text \<open>
  Claim C2. In every reachable ledger a situation has at most one live (admitted or running) episode,
  whatever mix of admissions, starts, retries, supersessions and recoveries led there.
\<close>

theorem one_live_episode_per_situation:
  assumes "ledger_steps empty_ledger L"
    and "r \<in> set (l_episodes L)" and "r' \<in> set (l_episodes L)"
    and "Live (e_lifecycle r)" and "Live (e_lifecycle r')" and "e_situation r = e_situation r'"
  shows "r = r'"
  using reachable_inv[OF assms(1)] assms(2-6) unfolding ledger_inv_def keys_ok_def one_live_per_situation_def
  by (auto intro: unique_index_eq)

theorem one_live_episode_per_situation_witness:
  "l_episodes ledger3 \<noteq> [] \<and> set (l_episodes ledger3) = {hd (l_episodes ledger3)}"
proof -
  have all: "\<forall>r \<in> set (l_episodes ledger3). Live (e_lifecycle r) \<and> e_situation r = ''s1''" "l_episodes ledger3 \<noteq> []"
    by code_simp+
  have "r = hd (l_episodes ledger3)" if r: "r \<in> set (l_episodes ledger3)" for r
    by (rule one_live_episode_per_situation[OF sample_reachable(3) r hd_in_set[OF all(2)]])
       (use all r hd_in_set[OF all(2)] in simp_all)
  with all(2) show ?thesis by auto
qed

text \<open>
  Claim C3. In every reachable ledger an unfinished attempt is the current attempt of its episode, under
  the episode's current fence; so an episode never has two unfinished attempts.
\<close>

theorem one_unfinished_attempt_per_episode:
  assumes "ledger_steps empty_ledger L" and "t \<in> set (l_attempts L)" and "Unfinished (t_status t)"
  shows "(\<exists>r \<in> set (l_episodes L). e_id r = t_episode t \<and> e_attempt r = Some (t_id t) \<and> e_fence r = t_fence t)
    \<and> (\<forall>t' \<in> set (l_attempts L). Unfinished (t_status t') \<and> t_episode t' = t_episode t \<longrightarrow> t' = t)"
proof -
  note inv = reachable_inv[OF assms(1)]
  have current: "\<exists>r \<in> set (l_episodes L). e_id r = t_episode x \<and> e_attempt r = Some (t_id x) \<and> e_fence r = t_fence x"
    if "x \<in> set (l_attempts L)" "Unfinished (t_status x)" for x
    using inv that unfolding ledger_inv_def attempt_linked_def by fastforce
  have "t' = t" if t': "t' \<in> set (l_attempts L)" "Unfinished (t_status t')" "t_episode t' = t_episode t" for t'
  proof -
    obtain r r' where "r \<in> set (l_episodes L)" "e_id r = t_episode t" "e_attempt r = Some (t_id t)"
      "r' \<in> set (l_episodes L)" "e_id r' = t_episode t" "e_attempt r' = Some (t_id t')"
      using current[OF assms(2,3)] current[OF t'(1,2)] t'(3) by auto
    with episode_unique[OF inv, of r r'] have "t_id t' = t_id t"
      by simp
    then show ?thesis
      by (rule attempt_unique[OF inv t'(1) assms(2)])
  qed
  with current[OF assms(2,3)] show ?thesis by blast
qed

theorem one_unfinished_attempt_per_episode_witness:
  "\<exists>t \<in> set (l_attempts ledger6). t_id t = ''at2'' \<and>
     (\<forall>t' \<in> set (l_attempts ledger6). Unfinished (t_status t') \<and> t_episode t' = t_episode t \<longrightarrow> t' = t)"
proof -
  let ?t = "last (l_attempts ledger6)"
  have "l_attempts ledger6 \<noteq> []" "Unfinished (t_status ?t)" "t_id ?t = ''at2''"
    by code_simp+
  then have "?t \<in> set (l_attempts ledger6)" "t_id ?t = ''at2''"
    "\<forall>t' \<in> set (l_attempts ledger6). Unfinished (t_status t') \<and> t_episode t' = t_episode ?t \<longrightarrow> t' = ?t"
    using one_unfinished_attempt_per_episode[OF sample_reachable(6), of ?t] by simp_all
  then show ?thesis by blast
qed

text \<open>The verdict on an identity whose fence is behind the episode's.\<close>

lemma stale_identity_refused:
  assumes "find_episode (i_EpisodeID j) L = Some r" and "i_Fence j < e_fence r"
  shows "\<exists>reason \<in> {RejectStaleAttempt, RejectEpisodeClosed}.
      ValidateWorkerIdentity j owner L = Inl (IdentityError reason)"
    and "\<exists>reason \<in> {RejectStaleAttempt, RejectEpisodeClosed}.
      TransitionAttempt j to_status now terminal owner L = Inl (IdentityError reason)"
proof -
  have fence: "\<exists>f. episodeFence (i_EpisodeID j) L = Inr f \<and> f_Fence f = e_fence r"
    using assms(1) by (simp add: episodeFence_def ReadEpisodeFence_def)
  then have open_check: "checkEpisodeFence j L = Inl (IdentityError RejectEpisodeClosed)
      \<or> checkEpisodeFence j L = Inl (IdentityError RejectStaleAttempt)"
    and closed_check: "checkTerminalFence j L = Inl (IdentityError RejectStaleAttempt)"
    using assms(2)
    by (auto simp: checkEpisodeFence_def checkTerminalFence_def CheckOpenIdentity_def CheckIdentity_def Refuse_def
        split: if_splits)
  then show "\<exists>reason \<in> {RejectStaleAttempt, RejectEpisodeClosed}.
      ValidateWorkerIdentity j owner L = Inl (IdentityError reason)"
    by (auto simp: ValidateWorkerIdentity_def)
  have "validateTransitionIdentity j to_status owner L = Inl (IdentityError RejectEpisodeClosed)
      \<or> validateTransitionIdentity j to_status owner L = Inl (IdentityError RejectStaleAttempt)"
    using open_check closed_check
    by (auto simp: validateTransitionIdentity_def ValidateWorkerIdentity_def validateTerminalIdentity_def IsIdentityReason_def)
  then show "\<exists>reason \<in> {RejectStaleAttempt, RejectEpisodeClosed}.
      TransitionAttempt j to_status now terminal owner L = Inl (IdentityError reason)"
    by (auto simp: TransitionAttempt_def)
qed

text \<open>
  Claim C1. Starting an attempt allocates a fence above every earlier attempt of the episode, and from
  then on every identity with an older fence of that episode is refused in every later ledger, whatever
  happens in between: its validation and each of its transitions fail as stale or closed. A worker that
  lost its episode can never write again.
\<close>

theorem older_fence_refused_forever:
  assumes "ledger_steps empty_ledger L"
    and "startAttempt episodeID attemptID ownerEpoch owner now L = Inr (i, L')"
    and "ledger_steps L' L''" and "i_EpisodeID j = episodeID" and "i_Fence j < i_Fence i"
  shows "(\<forall>t \<in> set (l_attempts L). t_episode t = episodeID \<longrightarrow> t_fence t < i_Fence i)
    \<and> (\<exists>reason \<in> {RejectStaleAttempt, RejectEpisodeClosed}.
         ValidateWorkerIdentity j owner' L'' = Inl (IdentityError reason))
    \<and> (\<exists>reason \<in> {RejectStaleAttempt, RejectEpisodeClosed}.
         TransitionAttempt j to_status now' terminal owner' L'' = Inl (IdentityError reason))"
proof -
  note inv = reachable_inv[OF assms(1)]
  note inv' = startAttempt_inv[OF assms(2) inv]
  obtain r t where r: "find_episode episodeID L = Some r" and fi: "i_Fence i = e_fence r + 1"
    and t: "t \<in> set (l_attempts L')" "t_episode t = episodeID" "t_fence t = i_Fence i" "Unfinished (t_status t)"
  proof (rule startAttempt_Inr[OF assms(2) inv])
    fix r t
    assume "find_episode episodeID L = Some r" "t_episode t = episodeID" "t_fence t = i_Fence i"
      and dispatched: "t_status t = AttemptDispatched"
      and "i = \<lparr>i_EpisodeID = episodeID, i_AttemptID = attemptID, i_Fence = e_fence r + 1, i_OwnerEpoch = ownerEpoch\<rparr>"
      and "L' = L\<lparr>l_attempts := l_attempts L @ [t], l_episodes := sql_update (\<lambda>r. e_id r = episodeID)
        (\<lambda>r. r\<lparr>e_lifecycle := LifecycleRunning, e_attempt := Some attemptID, e_fence := i_Fence i,
          e_started := coalesce (e_started r) now\<rparr>) (l_episodes L)\<rparr>"
    then show thesis
      by (intro that[of r t]) (simp_all add: dispatched)
  qed
  have r': "\<exists>x \<in> set (l_episodes L'). e_id x = episodeID \<and> e_fence x = i_Fence i"
    using inv' t unfolding ledger_inv_def attempt_linked_def by fastforce
  have above: "t_fence t < i_Fence i" if u: "t \<in> set (l_attempts L)" "t_episode t = episodeID" for t
  proof -
    obtain x where "x \<in> set (l_episodes L)" "e_id x = episodeID" "t_fence t \<le> e_fence x"
      using inv u unfolding ledger_inv_def attempt_linked_def by fastforce
    with episode_unique[OF inv, of x r] find_episode_SomeD[OF r] fi show ?thesis
      by simp
  qed
  obtain x where "x \<in> set (l_episodes L'')" "e_id x = episodeID" "i_Fence i \<le> e_fence x"
    using r' ledger_steps_le[OF assms(3) inv'] unfolding ledger_le_def episode_le_def by fastforce
  then have "find_episode (i_EpisodeID j) L'' = Some x" "i_Fence j < e_fence x"
    using find_episode_member[of L'' x] ledger_steps_inv[OF assms(3) inv'] assms(4,5)
    by (auto simp: ledger_inv_def)
  from stale_identity_refused[OF this] above show ?thesis
    by blast
qed

theorem older_fence_refused_forever_witness:
  "\<exists>reason \<in> {RejectStaleAttempt, RejectEpisodeClosed}.
     TransitionAttempt sample_identity AttemptProduced 11 ''{}'' held ledger6 = Inl (IdentityError reason)"
proof -
  have "i_EpisodeID sample_identity = ''ep1''" "i_Fence sample_identity < i_Fence (sample_identity\<lparr>i_AttemptID := ''at2'', i_Fence := 2\<rparr>)"
    by code_simp+
  from older_fence_refused_forever[OF sample_reachable(5) sample_runs(6) ledger_steps.refl this]
  show ?thesis by blast
qed

text \<open>
  Claim C22. The row of a finished attempt (produced, declined, cancelled, failed, timed out or
  abandoned) never changes again: it is in every later ledger exactly as it was.
\<close>

theorem finished_attempt_is_final:
  assumes "ledger_steps empty_ledger L" and "ledger_steps L L'"
    and "t \<in> set (l_attempts L)" and "IsTerminalAttempt (t_status t)"
  shows "t \<in> set (l_attempts L')"
  using ledger_steps_le[OF assms(2) reachable_inv[OF assms(1)]] assms(3,4)
  unfolding ledger_le_def attempt_le_def IsTerminalAttempt_def by fastforce

theorem finished_attempt_is_final_witness:
  "hd (l_attempts ledger5) \<in> set (l_attempts ledger6) \<and> t_status (hd (l_attempts ledger5)) = AttemptFailed"
proof -
  have "l_attempts ledger5 \<noteq> []" "IsTerminalAttempt (t_status (hd (l_attempts ledger5)))"
    "t_status (hd (l_attempts ledger5)) = AttemptFailed"
    by code_simp+
  moreover have "ledger_steps ledger5 ledger6"
    using sample_runs(6) by (rule ledger_steps.step[OF ledger_steps.refl ledger_step.start])
  ultimately show ?thesis
    using finished_attempt_is_final[OF sample_reachable(5)] by simp
qed

text \<open>
  A Decision is recorded as produced only by the current attempt of an episode that is still
  open: the attempt was running under exactly the presented fence, and an owned identity needs an owner
  check that confirms the lease. The cancellation exception for closed episodes never yields a produced
  attempt.
\<close>

theorem produced_requires_open_episode:
  assumes "ledger_steps empty_ledger L"
    and "TransitionAttempt i AttemptProduced now terminal owner L = Inr L'"
  shows "(\<exists>r \<in> set (l_episodes L). e_id r = i_EpisodeID i \<and> \<not> Closed (e_lifecycle r)
        \<and> e_attempt r = Some (i_AttemptID i) \<and> e_fence r = i_Fence i)
    \<and> (\<exists>t \<in> set (l_attempts L). t_id t = i_AttemptID i \<and> t_fence t = i_Fence i \<and> t_status t = AttemptRunning)
    \<and> (i_OwnerEpoch i \<noteq> '''' \<longrightarrow> (\<exists>check. owner = Some check \<and> check (i_OwnerEpoch i) = OwnerHeld))
    \<and> (\<exists>t \<in> set (l_attempts L'). t_id t = i_AttemptID i \<and> t_status t = AttemptProduced
        \<and> t_terminal t = Some (TerminalJSON terminal) \<and> t_ended t = Some now)"
proof (rule TransitionAttempt_Inr[OF assms(2) reachable_inv[OF assms(1)]])
  fix r t
  assume r: "find_episode (i_EpisodeID i) L = Some r" "e_attempt r = Some (i_AttemptID i)" "e_fence r = i_Fence i"
    and t: "t \<in> set (l_attempts L)" "under_identity i t" "CanTransitionAttempt (t_status t) AttemptProduced"
    and lease: "requireOwnerLease owner (i_OwnerEpoch i) = Inr ()"
    and ack: "MayAcknowledgeCancellation AttemptProduced \<or> \<not> Closed (e_lifecycle r)"
    and L': "L' = L\<lparr>l_attempts := sql_update (under_identity i) (transitioned AttemptProduced now terminal) (l_attempts L)\<rparr>"
  have "\<not> Closed (e_lifecycle r)"
    using ack by (simp add: MayAcknowledgeCancellation_def)
  moreover have "t_status t = AttemptRunning"
    using t(3) by (auto simp: CanTransitionAttempt_def split: attempt_status.splits)
  moreover have "i_OwnerEpoch i \<noteq> '''' \<longrightarrow> (\<exists>check. owner = Some check \<and> check (i_OwnerEpoch i) = OwnerHeld)"
    using lease by (auto simp: requireOwnerLease_def AssertOwner_def bind_res_Inr_iff Refuse_def
        split: option.splits owner_verdict.splits if_splits)
  moreover have "transitioned AttemptProduced now terminal t \<in> set (l_attempts L')"
    using t(1,2) by (auto simp: L' set_sql_update)
  then have "\<exists>t \<in> set (l_attempts L'). t_id t = i_AttemptID i \<and> t_status t = AttemptProduced
      \<and> t_terminal t = Some (TerminalJSON terminal) \<and> t_ended t = Some now"
    by (rule bexI[rotated])
       (use t(2) in \<open>simp add: under_identity_def transitioned_def KindOf_def IsTerminalAttempt_def\<close>)
  ultimately show ?thesis
    using find_episode_SomeD[OF r(1)] r(2,3) t(1,2) unfolding under_identity_def by blast
qed

theorem produced_requires_open_episode_witness:
  "\<exists>L'. TransitionAttempt sample_identity AttemptProduced 9 ''{}'' held ledger4 = Inr L' \<and>
     (\<exists>t \<in> set (l_attempts L'). t_id t = ''at1'' \<and> t_status t = AttemptProduced)"
proof -
  let ?L' = "run (TransitionAttempt sample_identity AttemptProduced 9 ''{}'' held ledger4)"
  have run: "TransitionAttempt sample_identity AttemptProduced 9 ''{}'' held ledger4 = Inr ?L'"
    "i_AttemptID sample_identity = ''at1''"
    by code_simp+
  show ?thesis
    using produced_requires_open_episode[OF sample_reachable(4) run(1)] run by auto
qed

section \<open>Recovery\<close>

lemma recover_all_attempts:
  assumes "recover_all costs now items rc = Inr rc'"
  shows "\<And>t. t \<in> set (l_attempts (rc_ledger rc')) \<Longrightarrow> Unfinished (t_status t) \<Longrightarrow>
      t \<in> set (l_attempts (rc_ledger rc)) \<and> (\<forall>u \<in> set items. \<not> abandonable (ua_AttemptID u) (ua_EpisodeID u) t)"
    and "\<And>t. t \<in> set (l_attempts (rc_ledger rc)) \<Longrightarrow> (\<forall>u \<in> set items. \<not> abandonable (ua_AttemptID u) (ua_EpisodeID u) t)
      \<Longrightarrow> t \<in> set (l_attempts (rc_ledger rc'))"
  using assms
proof (induction items arbitrary: rc)
  case (Cons item items)
  {
    case (1 t)
    then obtain rm where rm: "recover_attempt costs now item rc = Inr rm" "recover_all costs now items rm = Inr rc'"
      by (auto simp: bind_res_Inr_iff)
    from Cons.IH(1)[OF 1(1,2) rm(2)] recover_attempt_Inr(1)[OF rm(1)] 1(2) show ?case
      by (auto simp: set_sql_update abandon_row_def)
  next
    case (2 t)
    then obtain rm where rm: "recover_attempt costs now item rc = Inr rm" "recover_all costs now items rm = Inr rc'"
      by (auto simp: bind_res_Inr_iff)
    have "t \<in> set (l_attempts (rc_ledger rm))"
      using recover_attempt_Inr(1)[OF rm(1)] 2(1,2) by (auto simp: set_sql_update)
    with Cons.IH(2)[OF _ _ rm(2)] 2(2) show ?case by simp
  }
qed auto

lemma recover_attempt_fences:
  "recover_attempt costs now item rc = Inr rc' \<Longrightarrow>
     map (\<lambda>r. (e_id r, e_attempt r, e_fence r)) (l_episodes (rc_ledger rc'))
       = map (\<lambda>r. (e_id r, e_attempt r, e_fence r)) (l_episodes (rc_ledger rc))"
  by (drule recover_attempt_Inr(2)) (auto simp: map_sql_update end_episode_def)

lemma recover_all_fences:
  "recover_all costs now items rc = Inr rc' \<Longrightarrow>
     map (\<lambda>r. (e_id r, e_attempt r, e_fence r)) (l_episodes (rc_ledger rc'))
       = map (\<lambda>r. (e_id r, e_attempt r, e_fence r)) (l_episodes (rc_ledger rc))"
  by (induction items arbitrary: rc) (auto simp: bind_res_Inr_iff dest: recover_attempt_fences)

lemma unfinished_listed:
  "Unfinished (t_status t) \<Longrightarrow> t_owner t \<noteq> Some epoch \<Longrightarrow> t \<in> set (l_attempts L) \<Longrightarrow>
     \<exists>u \<in> set (UnfinishedAttempts epoch L). abandonable (ua_AttemptID u) (ua_EpisodeID u) t"
  unfolding UnfinishedAttempts_def by (fastforce simp: abandonable_def)

lemma unlisted_kept:
  assumes "ledger_inv L" and "t \<in> set (l_attempts L)" and "t_owner t = Some epoch \<or> \<not> Unfinished (t_status t)"
  shows "\<forall>u \<in> set (UnfinishedAttempts epoch L). \<not> abandonable (ua_AttemptID u) (ua_EpisodeID u) t"
proof
  fix u
  assume "u \<in> set (UnfinishedAttempts epoch L)"
  then obtain x where x: "x \<in> set (l_attempts L)" "t_owner x \<noteq> Some epoch" "ua_AttemptID u = t_id x"
    by (auto simp: UnfinishedAttempts_def)
  show "\<not> abandonable (ua_AttemptID u) (ua_EpisodeID u) t"
    using attempt_unique[OF assms(1,2) x(1)] x(2,3) assms(3) by (auto simp: abandonable_def)
qed

lemma UnfinishedAttempts_empty:
  "UnfinishedAttempts epoch L = [] \<longleftrightarrow> (\<forall>t \<in> set (l_attempts L). Unfinished (t_status t) \<longrightarrow> t_owner t = Some epoch)"
  by (auto simp: UnfinishedAttempts_def filter_empty_conv)

text \<open>
  Claim C23. A completed recovery leaves no unfinished attempt of an older or missing owner epoch, keeps
  every attempt of the current epoch and every finished attempt exactly as it was, keeps every fence (so
  the next start allocates the next one), and is idempotent: running it again changes nothing and
  reports nothing.
\<close>

theorem recovery_is_complete:
  assumes "ledger_steps empty_ledger L" and "RecoverUnfinishedAttempts epoch now costs L c = Inr rc"
  shows "(\<forall>t \<in> set (l_attempts (rc_ledger rc)). Unfinished (t_status t) \<longrightarrow> t_owner t = Some epoch)
    \<and> (\<forall>t \<in> set (l_attempts L). t_owner t = Some epoch \<or> IsTerminalAttempt (t_status t) \<longrightarrow> t \<in> set (l_attempts (rc_ledger rc)))
    \<and> map (\<lambda>r. (e_id r, e_attempt r, e_fence r)) (l_episodes (rc_ledger rc))
        = map (\<lambda>r. (e_id r, e_attempt r, e_fence r)) (l_episodes L)
    \<and> RecoverUnfinishedAttempts epoch now' costs' (rc_ledger rc) c' =
        Inr \<lparr>rc_ledger = rc_ledger rc, rc_costs = c',
             rc_report = \<lparr>rr_AbandonedAttempts = 0, rr_RequeuedEpisodes = 0, rr_AbandonedEpisodes = 0\<rparr>\<rparr>"
proof -
  note inv = reachable_inv[OF assms(1)]
  let ?rc0 = "\<lparr>rc_ledger = L, rc_costs = c,
    rc_report = \<lparr>rr_AbandonedAttempts = 0, rr_RequeuedEpisodes = 0, rr_AbandonedEpisodes = 0\<rparr>\<rparr>"
  have epoch: "epoch \<noteq> ''''" and all: "recover_all costs now (UnfinishedAttempts epoch L) ?rc0 = Inr rc"
    using assms(2) by (auto simp: RecoverUnfinishedAttempts_def split: if_splits)
  have clean: "\<forall>t \<in> set (l_attempts (rc_ledger rc)). Unfinished (t_status t) \<longrightarrow> t_owner t = Some epoch"
    using recover_all_attempts(1)[OF all] unfinished_listed[of _ epoch L] by fastforce
  have kept: "t \<in> set (l_attempts (rc_ledger rc))"
    if "t \<in> set (l_attempts L)" "t_owner t = Some epoch \<or> IsTerminalAttempt (t_status t)" for t
    using recover_all_attempts(2)[OF all, of t] unlisted_kept[OF inv that(1), of epoch] that
    by (auto simp: IsTerminalAttempt_def)
  have fences: "map (\<lambda>r. (e_id r, e_attempt r, e_fence r)) (l_episodes (rc_ledger rc))
      = map (\<lambda>r. (e_id r, e_attempt r, e_fence r)) (l_episodes L)"
    using recover_all_fences[OF all] by simp
  from clean have "UnfinishedAttempts epoch (rc_ledger rc) = []"
    by (simp add: UnfinishedAttempts_empty)
  with epoch have "RecoverUnfinishedAttempts epoch now' costs' (rc_ledger rc) c' =
      Inr \<lparr>rc_ledger = rc_ledger rc, rc_costs = c',
           rc_report = \<lparr>rr_AbandonedAttempts = 0, rr_RequeuedEpisodes = 0, rr_AbandonedEpisodes = 0\<rparr>\<rparr>"
    by (simp add: RecoverUnfinishedAttempts_def)
  with clean kept fences show ?thesis by blast
qed

theorem recovery_is_complete_witness:
  "\<exists>rc. RecoverUnfinishedAttempts ''o2'' 20 None ledger6 () = Inr rc
     \<and> (\<forall>t \<in> set (l_attempts (rc_ledger rc)). Unfinished (t_status t) \<longrightarrow> t_owner t = Some ''o2'')"
proof -
  have "\<exists>rc. RecoverUnfinishedAttempts ''o2'' 20 (None :: unit settler) ledger6 () = Inr rc"
  proof -
    have "(case RecoverUnfinishedAttempts ''o2'' 20 (None :: unit settler) ledger6 () of Inr _ \<Rightarrow> True | Inl _ \<Rightarrow> False)"
      by code_simp
    then show ?thesis by (auto split: sum.splits)
  qed
  then obtain rc where rc: "RecoverUnfinishedAttempts ''o2'' 20 (None :: unit settler) ledger6 () = Inr rc" ..
  from recovery_is_complete[OF sample_reachable(6) rc, THEN conjunct1] rc show ?thesis by blast
qed

text \<open>The attempts that recovery lists: each is there once, unfinished, with its episode.\<close>

definition listed :: "unfinished_attempt list \<Rightarrow> ledger \<Rightarrow> bool" where
  "listed items L \<longleftrightarrow> distinct (map t_id (l_attempts L)) \<and> distinct (map ua_AttemptID items)
     \<and> (\<forall>u \<in> set items. (\<exists>t \<in> set (l_attempts L). abandonable (ua_AttemptID u) (ua_EpisodeID u) t)
          \<and> ua_EpisodeID u \<in> e_id ` set (l_episodes L))"

lemma UnfinishedAttempts_listed:
  assumes "ledger_inv L"
  shows "listed (UnfinishedAttempts epoch L) L"
proof -
  have keys: "distinct (map t_id (l_attempts L))" using assms by (simp add: ledger_inv_def keys_ok_def)
  have "\<forall>t \<in> set (l_attempts L). t_episode t \<in> e_id ` set (l_episodes L)"
    using assms unfolding ledger_inv_def attempt_linked_def by force
  then show ?thesis
    using keys by (auto simp: listed_def UnfinishedAttempts_def abandonable_def comp_def distinct_map_filter)
qed

lemma listed_one:
  assumes "listed (item # items) L"
  shows "rows_affected (abandonable (ua_AttemptID item) (ua_EpisodeID item)) (l_attempts L) = 1"
  using assms rows_affected_unique_key(1)[of t_id "l_attempts L" "abandonable (ua_AttemptID item) (ua_EpisodeID item)" "ua_AttemptID item"]
  by (auto simp: listed_def abandonable_def)

lemma listed_step:
  assumes ok: "recover_attempt costs now item rc = Inr rm" and "listed (item # items) (rc_ledger rc)"
  shows "listed items (rc_ledger rm)"
proof -
  have ats: "l_attempts (rc_ledger rm) = sql_update (abandonable (ua_AttemptID item) (ua_EpisodeID item))
      (abandon_row now (RecoveryTerminal (ua_OwnerEpoch item))) (l_attempts (rc_ledger rc))"
    by (rule recover_attempt_Inr(1)[OF ok])
  have "map e_id (l_episodes (rc_ledger rm)) = map e_id (l_episodes (rc_ledger rc))"
    using arg_cong[OF recover_attempt_fences[OF ok], of "map fst"] by (simp add: comp_def)
  then have eps: "e_id ` set (l_episodes (rc_ledger rm)) = e_id ` set (l_episodes (rc_ledger rc))" by (metis set_map)
  have "distinct (map t_id (l_attempts (rc_ledger rm)))"
    using assms(2) by (simp add: ats map_sql_update abandon_row_def listed_def)
  moreover have "\<exists>t \<in> set (l_attempts (rc_ledger rm)). abandonable (ua_AttemptID u) (ua_EpisodeID u) t"
    if u: "u \<in> set items" for u
  proof -
    obtain t where t: "t \<in> set (l_attempts (rc_ledger rc))" "abandonable (ua_AttemptID u) (ua_EpisodeID u) t"
      using assms(2) u by (auto simp: listed_def)
    moreover have "ua_AttemptID u \<noteq> ua_AttemptID item"
      using assms(2) u by (auto simp: listed_def image_iff)
    ultimately show ?thesis
      unfolding ats set_sql_update by (intro bexI[of _ t]) (auto simp: abandonable_def image_iff)
  qed
  ultimately show ?thesis using assms(2) by (simp add: listed_def eps)
qed

lemma recover_attempt_count:
  assumes "recover_attempt costs now item rc = Inr rc'"
    and "rows_affected (abandonable (ua_AttemptID item) (ua_EpisodeID item)) (l_attempts (rc_ledger rc)) = 1"
  shows "rr_AbandonedAttempts (rc_report rc') = rr_AbandonedAttempts (rc_report rc) + 1"
  using assms
  by (auto simp: recover_attempt_def AbandonUnfinishedAttempt_def abandonCancelingEpisode_def AbandonOpenEpisode_def
      countRequeued_def bind_res_Inr_iff Let_def split: if_splits option.splits sum.splits)

lemma recover_all_count:
  "recover_all costs now items rc = Inr rc' \<Longrightarrow> listed items (rc_ledger rc)
     \<Longrightarrow> rr_AbandonedAttempts (rc_report rc') = rr_AbandonedAttempts (rc_report rc) + int (length items)"
proof (induction items arbitrary: rc)
  case (Cons item items)
  from Cons.prems(1) obtain rm where rm: "recover_attempt costs now item rc = Inr rm" "recover_all costs now items rm = Inr rc'"
    by (auto simp: bind_res_Inr_iff)
  show ?case
    using Cons.IH[OF rm(2) listed_step[OF rm(1) Cons.prems(2)]] recover_attempt_count[OF rm(1) listed_one[OF Cons.prems(2)]] by simp
qed simp

lemma recover_attempt_settles:
  assumes "listed (item # items) (rc_ledger rc)"
  shows "(\<exists>rc'. recover_attempt (Some settle) now item rc = Inr rc') \<longleftrightarrow>
      (Canceling item \<longrightarrow> (\<exists>c. settle (ua_EpisodeID item) now (rc_costs rc) = Inr c))"
    and "recover_attempt (Some settle) now item rc = Inr rc' \<Longrightarrow>
      (if Canceling item then settle (ua_EpisodeID item) now (rc_costs rc) = Inr (rc_costs rc') else rc_costs rc' = rc_costs rc)"
proof -
  note one = listed_one[OF assms]
  have "find (\<lambda>r. e_id r = ua_EpisodeID item) (l_episodes (rc_ledger rc)) \<noteq> None"
    using assms by (auto simp: listed_def find_None_iff)
  then have life: "\<exists>s. EpisodeLifecycle (ua_EpisodeID item) ((rc_ledger rc)\<lparr>l_attempts := ats\<rparr>) = Inr s" for ats
    by (auto simp: EpisodeLifecycle_def ReadEpisodeFence_def find_episode_def)
  show "(\<exists>rc'. recover_attempt (Some settle) now item rc = Inr rc') \<longleftrightarrow>
      (Canceling item \<longrightarrow> (\<exists>c. settle (ua_EpisodeID item) now (rc_costs rc) = Inr c))"
  proof (cases "Canceling item")
    case True
    then show ?thesis
      using one by (cases "settle (ua_EpisodeID item) now (rc_costs rc)")
        (auto simp: recover_attempt_def AbandonUnfinishedAttempt_def abandonCancelingEpisode_def AbandonOpenEpisode_def Let_def)
  next
    case False
    obtain st where "EpisodeLifecycle (ua_EpisodeID item) (snd (AbandonUnfinishedAttempt (ua_AttemptID item) (ua_EpisodeID item) now
        (RecoveryTerminal (ua_OwnerEpoch item)) (rc_ledger rc))) = Inr st"
      using life unfolding AbandonUnfinishedAttempt_def snd_conv by blast
    then show ?thesis
      using one False by (simp add: recover_attempt_def AbandonUnfinishedAttempt_def countRequeued_def Let_def)
  qed
  show "recover_attempt (Some settle) now item rc = Inr rc' \<Longrightarrow>
      (if Canceling item then settle (ua_EpisodeID item) now (rc_costs rc) = Inr (rc_costs rc') else rc_costs rc' = rc_costs rc)"
    using one by (auto simp: recover_attempt_def AbandonUnfinishedAttempt_def abandonCancelingEpisode_def AbandonOpenEpisode_def
        countRequeued_def bind_res_Inr_iff Let_def split: if_splits sum.splits)
qed

text \<open>
  What recovery relies on in the settler it is given: settling an episode succeeds exactly when the episode
  can be settled, which no settlement changes, and leaves it released for good.
\<close>

locale cost_settler =
  fixes settle :: "string \<Rightarrow> time \<Rightarrow> 'c \<Rightarrow> ledger_error + 'c"
    and good :: "'c \<Rightarrow> bool"
    and settleable :: "'c \<Rightarrow> string \<Rightarrow> bool"
    and settled :: "'c \<Rightarrow> string \<Rightarrow> bool"
  assumes settles: "good c \<Longrightarrow> (\<exists>c'. settle e now c = Inr c') \<longleftrightarrow> settleable c e"
    and keeps: "good c \<Longrightarrow> settle e now c = Inr c' \<Longrightarrow> good c' \<and> settleable c' = settleable c"
    and releases: "good c \<Longrightarrow> settle e now c = Inr c' \<Longrightarrow> settled c' e \<and> (\<forall>e'. settled c e' \<longrightarrow> settled c' e')"
begin

lemma recover_attempt_good:
  assumes "good (rc_costs rc)" and "listed (item # items) (rc_ledger rc)" and "recover_attempt (Some settle) now item rc = Inr rm"
  shows "good (rc_costs rm) \<and> settleable (rc_costs rm) = settleable (rc_costs rc) \<and> (\<forall>e. settled (rc_costs rc) e \<longrightarrow> settled (rc_costs rm) e)
    \<and> (Canceling item \<longrightarrow> settled (rc_costs rm) (ua_EpisodeID item))"
  using recover_attempt_settles(2)[OF assms(2,3)] keeps[OF assms(1)] releases[OF assms(1)] assms(1) by (metis (full_types))

lemma recover_all_iff:
  "good (rc_costs rc) \<Longrightarrow> listed items (rc_ledger rc) \<Longrightarrow>
     (\<exists>rc'. recover_all (Some settle) now items rc = Inr rc') \<longleftrightarrow> (\<forall>u \<in> set items. Canceling u \<longrightarrow> settleable (rc_costs rc) (ua_EpisodeID u))"
proof (induction items arbitrary: rc)
  case (Cons item items)
  note first = recover_attempt_settles(1)[OF Cons.prems(2), of settle now] settles[OF Cons.prems(1), of "ua_EpisodeID item" now]
  show ?case
  proof (cases "recover_attempt (Some settle) now item rc")
    case (Inl e)
    then show ?thesis using first by auto
  next
    case (Inr rm)
    note g = recover_attempt_good[OF Cons.prems Inr]
    show ?thesis using Cons.IH[OF _ listed_step[OF Inr Cons.prems(2)]] g first Inr by auto
  qed
qed simp

lemma recover_all_releases:
  "recover_all (Some settle) now items rc = Inr rc' \<Longrightarrow> good (rc_costs rc) \<Longrightarrow> listed items (rc_ledger rc) \<Longrightarrow>
     good (rc_costs rc') \<and> (\<forall>e. settled (rc_costs rc) e \<longrightarrow> settled (rc_costs rc') e)
     \<and> (\<forall>u \<in> set items. Canceling u \<longrightarrow> settled (rc_costs rc') (ua_EpisodeID u))"
proof (induction items arbitrary: rc)
  case (Cons item items)
  from Cons.prems(1) obtain rm where rm: "recover_attempt (Some settle) now item rc = Inr rm" "recover_all (Some settle) now items rm = Inr rc'"
    by (auto simp: bind_res_Inr_iff)
  note g = recover_attempt_good[OF Cons.prems(2,3) rm(1)]
  from Cons.IH[OF rm(2) _ listed_step[OF rm(1) Cons.prems(3)]] g show ?case by auto
qed simp

end

section \<open>Admission and start\<close>

lemma find_append: "find P (xs @ ys) = (case find P xs of Some x \<Rightarrow> Some x | None \<Rightarrow> find P ys)"
  by (induction xs) auto

text \<open>
  What the table asks of a new episode besides a quiet situation: digests of the right length, a known
  dispatch policy, an id, a scheduler item and an admission key no episode has, and rows to refer to.
\<close>

definition admissible :: "ledger \<Rightarrow> admission \<Rightarrow> bool" where
  "admissible L req \<longleftrightarrow>
     length (a_SnapshotSHA256 req) = 32 \<and> length (a_AdmissionKey req) = 32
     \<and> null_or_sha256 (a_PromptSHA256 req) \<and> null_or_sha256 (a_ObjectiveSHA256 req)
     \<and> (a_DispatchPolicy req = ''active'' \<or> a_DispatchPolicy req = ''shadow'')
     \<and> (\<forall>r \<in> set (l_episodes L). a_EpisodeID (e_admission r) \<noteq> a_EpisodeID req
          \<and> a_SchedulerItemID (e_admission r) \<noteq> a_SchedulerItemID req \<and> a_AdmissionKey (e_admission r) \<noteq> a_AdmissionKey req)
     \<and> (\<exists>s \<in> set (l_items L). a_SchedulerItemID req = s_id s)
     \<and> (a_SituationID req, a_SituationVersion req) \<in> set (l_situations L)"

definition situation_busy :: "ledger \<Rightarrow> admission \<Rightarrow> bool" where
  "situation_busy L req \<longleftrightarrow> (\<exists>r \<in> set (l_episodes L). Live (e_lifecycle r) \<and> a_SituationID (e_admission r) = a_SituationID req)"

lemma admission_violations:
  assumes "e_admission row = req\<lparr>a_Kind := k\<rparr>" and "e_lifecycle row = LifecycleAdmitted" and "e_fence row = 0"
  shows "episode_violations L row = [] \<longleftrightarrow> admissible L req \<and> \<not> situation_busy L req"
    and "admissible L req \<Longrightarrow> situation_busy L req \<Longrightarrow> episode_violations L row = [UniqueFailed ''episodes.situation_id'']"
    and "UniqueFailed ''episodes.situation_id'' \<in> set (episode_violations L row) \<longleftrightarrow> situation_busy L req"
proof -
  have live: "Live (e_lifecycle row)" by (simp add: assms Live_def)
  have busy: "(\<exists>x \<in> set (l_episodes L). Live (e_lifecycle x) \<and> e_situation x = e_situation row) \<longleftrightarrow> situation_busy L req"
    by (simp add: situation_busy_def assms)
  have rest: "admissible L req \<longleftrightarrow> episode_checks row = [] \<and> e_id row \<notin> e_id ` set (l_episodes L)
      \<and> e_item row \<notin> e_item ` set (l_episodes L)
      \<and> a_AdmissionKey (e_admission row) \<notin> (\<lambda>r. a_AdmissionKey (e_admission r)) ` set (l_episodes L)
      \<and> e_item row \<in> s_id ` set (l_items L) \<and> situation_known L row"
    by (auto simp: admissible_def episode_checks_def situation_known_def Let_def assms image_iff)
  have other: "UniqueFailed ''episodes.situation_id'' \<notin> set (episode_checks row)"
    by (auto simp: episode_checks_def Let_def)
  show "episode_violations L row = [] \<longleftrightarrow> admissible L req \<and> \<not> situation_busy L req"
    unfolding rest episode_violations_def busy using live by auto
  show "admissible L req \<Longrightarrow> situation_busy L req \<Longrightarrow> episode_violations L row = [UniqueFailed ''episodes.situation_id'']"
    unfolding rest episode_violations_def busy using live by auto
  show "UniqueFailed ''episodes.situation_id'' \<in> set (episode_violations L row) \<longleftrightarrow> situation_busy L req"
    unfolding episode_violations_def busy using live other by auto
qed

lemma InsertEpisode_cases:
  obtains row where "e_admission row = req\<lparr>a_Kind := ''''\<rparr>" "e_lifecycle row = LifecycleAdmitted" "e_fence row = 0" "e_attempt row = None"
    and "InsertEpisode req now L = (if episode_violations L row = [] then Inr (L\<lparr>l_episodes := l_episodes L @ [row]\<rparr>) else Inl (episode_violations L row))"
proof -
  define row where "row = \<lparr>e_admission = req\<lparr>a_Kind := ''''\<rparr>, e_lifecycle = LifecycleAdmitted, e_attempt = None,
    e_fence = 0, e_accepted = now, e_started = None, e_ended = None, e_terminal = None, e_rebinds = 0\<rparr>"
  have "InsertEpisode req now L = (if episode_violations L row = [] then Inr (L\<lparr>l_episodes := l_episodes L @ [row]\<rparr>) else Inl (episode_violations L row))"
    unfolding InsertEpisode_def Let_def row_def[symmetric] by (simp split: list.splits)
  then show thesis by (intro that[of row]) (simp_all add: row_def)
qed

lemma Admit_outcome:
  assumes "\<forall>vs. vs \<noteq> [] \<longrightarrow> report vs \<in> set vs"
  obtains row where "e_admission row = req\<lparr>a_Kind := ''''\<rparr>" "e_lifecycle row = LifecycleAdmitted" "e_fence row = 0" "e_attempt row = None"
    and "\<forall>L'. Admit report req now L = Inr L' \<longleftrightarrow> admissible L req \<and> \<not> situation_busy L req \<and> L' = L\<lparr>l_episodes := l_episodes L @ [row]\<rparr>"
    and "admissible L req \<and> situation_busy L req \<longrightarrow>
      Admit report req now L = Inl (if a_Kind req = KindReconsider then LiveEpisodeConflict else LiveEpisodeBusy)"
    and "Admit report req now L \<in> {Inl LiveEpisodeConflict, Inl LiveEpisodeBusy} \<longrightarrow>
      situation_busy L req \<and> (Admit report req now L = Inl LiveEpisodeConflict \<longleftrightarrow> a_Kind req = KindReconsider)"
proof -
  obtain row where row: "e_admission row = req\<lparr>a_Kind := ''''\<rparr>" "e_lifecycle row = LifecycleAdmitted" "e_fence row = 0" "e_attempt row = None"
    and ins: "InsertEpisode req now L = (if episode_violations L row = [] then Inr (L\<lparr>l_episodes := l_episodes L @ [row]\<rparr>) else Inl (episode_violations L row))"
    by (rule InsertEpisode_cases)
  note v = admission_violations[OF row(1-3), of L]
  have ok: "Admit report req now L = Inr L' \<longleftrightarrow> admissible L req \<and> \<not> situation_busy L req \<and> L' = L\<lparr>l_episodes := l_episodes L @ [row]\<rparr>" for L'
    by (auto simp: Admit_Inr ins v(1))
  have refused: "Admit report req now L = Inl (if a_Kind req = KindReconsider then LiveEpisodeConflict else LiveEpisodeBusy)"
    if "admissible L req" "situation_busy L req"
    using v(2)[OF that] assms[rule_format, of "[UniqueFailed ''episodes.situation_id'']"]
    by (simp add: Admit_def ins IsLiveEpisodeViolation_def ReportsLiveConflict_def)
  have busy: "situation_busy L req \<and> (Admit report req now L = Inl LiveEpisodeConflict \<longleftrightarrow> a_Kind req = KindReconsider)"
    if "Admit report req now L \<in> {Inl LiveEpisodeConflict, Inl LiveEpisodeBusy}"
    using that v(3) assms[rule_format, of "episode_violations L row"]
    by (auto simp: Admit_def ins IsLiveEpisodeViolation_def ReportsLiveConflict_def Let_def split: if_splits)
  show thesis by (rule that[OF row]) (use ok refused busy in blast)+
qed

text \<open>
  Claim C25. Admission succeeds exactly when the request is admissible (its digests and dispatch policy
  are well formed, its episode id, scheduler item and admission key are new, its item and situation
  version exist) and the situation has no live episode. Then the episode is admitted with fence 0 and no
  attempt, and reading its admission back returns the request (the kind is not stored). An admissible
  request for a situation with a live episode is refused as a live conflict when it is a
  reconsideration and as busy otherwise, and no admission is refused so without a live episode.
\<close>

theorem Admit_spec:
  assumes "ledger_steps empty_ledger L" and "\<forall>vs. vs \<noteq> [] \<longrightarrow> report vs \<in> set vs"
  shows "((\<exists>L'. Admit report req now L = Inr L') \<longleftrightarrow> admissible L req \<and> \<not> situation_busy L req)
    \<and> (\<forall>L'. Admit report req now L = Inr L' \<longrightarrow>
        (\<forall>r \<in> set (l_episodes L). \<not> (Live (e_lifecycle r) \<and> e_situation r = a_SituationID req))
        \<and> ReadAdmission (a_EpisodeID req) L' = Inr (req\<lparr>a_Kind := ''''\<rparr>)
        \<and> (\<exists>r \<in> set (l_episodes L'). e_id r = a_EpisodeID req \<and> e_lifecycle r = LifecycleAdmitted
             \<and> e_fence r = 0 \<and> e_attempt r = None))
    \<and> (admissible L req \<and> situation_busy L req \<longrightarrow>
        Admit report req now L = Inl (if a_Kind req = KindReconsider then LiveEpisodeConflict else LiveEpisodeBusy))
    \<and> (Admit report req now L \<in> {Inl LiveEpisodeConflict, Inl LiveEpisodeBusy} \<longrightarrow>
        (\<exists>r \<in> set (l_episodes L). Live (e_lifecycle r) \<and> e_situation r = a_SituationID req)
        \<and> (Admit report req now L = Inl LiveEpisodeConflict \<longleftrightarrow> a_Kind req = KindReconsider))"
proof -
  obtain row where row: "e_admission row = req\<lparr>a_Kind := ''''\<rparr>" "e_lifecycle row = LifecycleAdmitted" "e_fence row = 0" "e_attempt row = None"
    and ok: "\<forall>L'. Admit report req now L = Inr L' \<longleftrightarrow> admissible L req \<and> \<not> situation_busy L req \<and> L' = L\<lparr>l_episodes := l_episodes L @ [row]\<rparr>"
    and refused: "admissible L req \<and> situation_busy L req \<longrightarrow>
      Admit report req now L = Inl (if a_Kind req = KindReconsider then LiveEpisodeConflict else LiveEpisodeBusy)"
    and busy: "Admit report req now L \<in> {Inl LiveEpisodeConflict, Inl LiveEpisodeBusy} \<longrightarrow>
      situation_busy L req \<and> (Admit report req now L = Inl LiveEpisodeConflict \<longleftrightarrow> a_Kind req = KindReconsider)"
    by (rule Admit_outcome[OF assms(2), of req now L])
  let ?L' = "L\<lparr>l_episodes := l_episodes L @ [row]\<rparr>"
  have "find (\<lambda>r. e_id r = a_EpisodeID req) (l_episodes L) = None" if "admissible L req"
    using that by (simp add: find_None_iff admissible_def)
  then have stored: "ReadAdmission (a_EpisodeID req) ?L' = Inr (req\<lparr>a_Kind := ''''\<rparr>)" if "admissible L req"
    using that by (simp add: ReadAdmission_def find_episode_def find_append row)
  have quiet: "(\<exists>r \<in> set (l_episodes L). Live (e_lifecycle r) \<and> e_situation r = a_SituationID req) \<longleftrightarrow> situation_busy L req"
    by (simp add: situation_busy_def)
  have admitted: "row \<in> set (l_episodes ?L')" "e_id row = a_EpisodeID req" by (simp_all add: row(1))
  show ?thesis
  proof (intro conjI allI impI)
    show "(\<exists>L'. Admit report req now L = Inr L') \<longleftrightarrow> admissible L req \<and> \<not> situation_busy L req"
      using ok by blast
  next
    fix L'
    assume "Admit report req now L = Inr L'"
    then have L': "admissible L req" "\<not> situation_busy L req" "L' = ?L'" by (simp_all add: ok)
    show "\<forall>r \<in> set (l_episodes L). \<not> (Live (e_lifecycle r) \<and> e_situation r = a_SituationID req)"
      using quiet L'(2) by blast
    show "ReadAdmission (a_EpisodeID req) L' = Inr (req\<lparr>a_Kind := ''''\<rparr>)"
      unfolding L'(3) by (rule stored[OF L'(1)])
    show "\<exists>r \<in> set (l_episodes L'). e_id r = a_EpisodeID req \<and> e_lifecycle r = LifecycleAdmitted \<and> e_fence r = 0 \<and> e_attempt r = None"
      unfolding L'(3) using admitted row(2-4) by blast
  next
    assume "admissible L req \<and> situation_busy L req"
    then show "Admit report req now L = Inl (if a_Kind req = KindReconsider then LiveEpisodeConflict else LiveEpisodeBusy)"
      using refused by blast
  next
    assume "Admit report req now L \<in> {Inl LiveEpisodeConflict, Inl LiveEpisodeBusy}"
    note b = busy[rule_format, OF this]
    show "\<exists>r \<in> set (l_episodes L). Live (e_lifecycle r) \<and> e_situation r = a_SituationID req" using b quiet by blast
    show "Admit report req now L = Inl LiveEpisodeConflict \<longleftrightarrow> a_Kind req = KindReconsider" using b by blast
  qed
qed

text \<open>A second item of the same situation, queued while the situation has a live episode.\<close>

definition ledger_triggered :: ledger where
  "ledger_triggered = ledger2\<lparr>l_situations := l_situations ledger2,
     l_triggers := (''tr2'', ''s1'', ''n'', True) # l_triggers ledger2, l_killed := l_killed ledger2\<rparr>"

definition ledger_second :: ledger where
  "ledger_second = run (UpsertSchedulerItem hd False (sample_item ''si2'' ''tr2'') ''t'' (key32 CHR ''e'') 7 ledger_triggered)"

definition second_admission :: admission where
  "second_admission = sample_admission\<lparr>a_EpisodeID := ''ep2'', a_SchedulerItemID := ''si2'', a_AdmissionKey := key32 CHR ''z''\<rparr>"

lemma second_reachable: "ledger_steps empty_ledger ledger_second"
proof -
  have "ledger_step ledger2 ledger_triggered"
    unfolding ledger_triggered_def by (rule ledger_step.other_tables)
  moreover have "UpsertSchedulerItem hd False (sample_item ''si2'' ''tr2'') ''t'' (key32 CHR ''e'') 7 ledger_triggered = Inr ledger_second"
    by code_simp
  ultimately show ?thesis
    using sample_reachable(2) by (blast intro: ledger_steps.step ledger_step.upsert)
qed

theorem Admit_spec_witness:
  "ReadAdmission ''ep1'' ledger2 = Inr (sample_admission\<lparr>a_Kind := ''''\<rparr>)
   \<and> Admit hd second_admission 8 ledger_second = Inl LiveEpisodeBusy
   \<and> Admit hd (second_admission\<lparr>a_Kind := KindReconsider\<rparr>) 8 ledger_second = Inl LiveEpisodeConflict
   \<and> \<not> (\<exists>L'. Admit hd (second_admission\<lparr>a_SchedulerItemID := ''si1''\<rparr>) 8 ledger_second = Inr L')"
proof -
  have hd: "\<forall>vs. vs \<noteq> [] \<longrightarrow> hd vs \<in> set vs" by simp
  from Admit_spec[OF sample_reachable(1) hd, of sample_admission 6] sample_runs(2)
  have "ReadAdmission (a_EpisodeID sample_admission) ledger2 = Inr (sample_admission\<lparr>a_Kind := ''''\<rparr>)"
    by blast
  moreover have "a_EpisodeID sample_admission = ''ep1''" by code_simp
  moreover have "Admit hd second_admission 8 ledger_second = Inl LiveEpisodeBusy"
  proof -
    have "admissible ledger_second second_admission \<and> situation_busy ledger_second second_admission"
      "a_Kind second_admission \<noteq> KindReconsider" by code_simp+
    with Admit_spec[OF second_reachable hd, of second_admission 8] show ?thesis by simp
  qed
  moreover have "Admit hd (second_admission\<lparr>a_Kind := KindReconsider\<rparr>) 8 ledger_second = Inl LiveEpisodeConflict"
  proof -
    have "admissible ledger_second (second_admission\<lparr>a_Kind := KindReconsider\<rparr>)
       \<and> situation_busy ledger_second (second_admission\<lparr>a_Kind := KindReconsider\<rparr>)" by code_simp
    with Admit_spec[OF second_reachable hd, of "second_admission\<lparr>a_Kind := KindReconsider\<rparr>" 8] show ?thesis by simp
  qed
  moreover have "\<not> admissible ledger_second (second_admission\<lparr>a_SchedulerItemID := ''si1''\<rparr>)" by code_simp
  then have "\<not> (\<exists>L'. Admit hd (second_admission\<lparr>a_SchedulerItemID := ''si1''\<rparr>) 8 ledger_second = Inr L')"
    using Admit_spec[OF second_reachable hd, of "second_admission\<lparr>a_SchedulerItemID := ''si1''\<rparr>" 8] by blast
  ultimately show ?thesis by simp
qed

lemma start_checks:
  assumes inv: "ledger_inv L" and r: "find_episode episodeID L = Some r" and live: "Live (e_lifecycle r)"
    and quiet: "\<forall>t \<in> set (l_attempts L). t_episode t = episodeID \<longrightarrow> \<not> Unfinished (t_status t)"
  shows "requireStartableEpisode episodeID L = Inr (e_fence r)"
proof -
  have "r \<in> set (l_episodes L)" "e_id r = episodeID"
    using find_episode_SomeD[OF r] by auto
  then have linked: "episode_linked (l_attempts L) r"
    using inv by (simp add: ledger_inv_def)
  show ?thesis
  proof (cases "e_attempt r")
    case (Some a)
    have "find (\<lambda>t. t_id t = a \<and> t_episode t = episodeID) (l_attempts L) \<noteq> None"
      using linked Some \<open>e_id r = episodeID\<close> by (auto simp: episode_linked_def find_None_iff)
    then obtain t where t: "find (\<lambda>t. t_id t = a \<and> t_episode t = episodeID) (l_attempts L) = Some t"
      by auto
    then have "\<not> Unfinished (t_status t)"
      using find_SomeD[OF t] quiet by auto
    with t Some r live show ?thesis
      by (simp add: requireStartableEpisode_def episodeFence_def ReadEpisodeFence_def CheckStartable_def
          ReadEpisodeAttemptStatus_def CheckPriorAttemptTerminal_def IsTerminalAttempt_def)
  qed (use r live in \<open>simp add: requireStartableEpisode_def episodeFence_def ReadEpisodeFence_def CheckStartable_def\<close>)
qed

lemma InsertAttempt_fresh:
  "i_AttemptID i \<notin> t_id ` set (l_attempts L) \<Longrightarrow> 1 \<le> i_Fence i
     \<Longrightarrow> (\<And>t. t \<in> set (l_attempts L) \<Longrightarrow> t_episode t = i_EpisodeID i \<Longrightarrow> t_fence t \<noteq> i_Fence i)
     \<Longrightarrow> find_episode (i_EpisodeID i) L \<noteq> None
     \<Longrightarrow> \<exists>t. InsertAttempt i now L = Inr (L\<lparr>l_attempts := l_attempts L @ [t]\<rparr>)"
  by (auto simp: InsertAttempt_def)

lemma record_attempt_succeeds:
  assumes inv: "ledger_inv L" and r: "find_episode (i_EpisodeID i) L = Some r" and live: "Live (e_lifecycle r)"
    and rows: "episode_checks (r\<lparr>e_fence := i_Fence i\<rparr>) = []" "situation_known L r"
  shows "\<exists>L'. RecordEpisodeAttempt i now (L\<lparr>l_attempts := ats\<rparr>) = Inr L'"
proof -
  let ?f = "\<lambda>r. r\<lparr>e_lifecycle := LifecycleRunning, e_attempt := Some (i_AttemptID i), e_fence := i_Fence i,
    e_started := coalesce (e_started r) now\<rparr>"
  have mem: "r \<in> set (l_episodes L)" "e_id r = i_EpisodeID i"
    using find_episode_SomeD[OF r] by auto
  have only: "x = r" if "x \<in> set (l_episodes L)" "e_id x = i_EpisodeID i" for x
    using episode_unique[OF inv that(1) mem(1)] that(2) mem(2) by simp
  have "one_live_per_situation (sql_update (\<lambda>r. e_id r = i_EpisodeID i) ?f (l_episodes L))
      = one_live_per_situation (l_episodes L)"
    unfolding one_live_per_situation_def by (rule unique_index_same) (use only live in \<open>auto simp: Live_def\<close>)
  then have "one_live_per_situation (sql_update (\<lambda>r. e_id r = i_EpisodeID i) ?f (l_episodes L))"
    using inv by (simp add: ledger_inv_def keys_ok_def)
  moreover have "episode_checks (?f r) = []"
    using rows(1) by (simp add: episode_checks_def)
  moreover have "situation_known (L\<lparr>l_attempts := ats\<rparr>) (?f r)"
    using rows(2) by (simp add: situation_known_def)
  ultimately show ?thesis
    unfolding RecordEpisodeAttempt_def
    by (subst write_episodes_succeeds) (use only in auto)
qed

text \<open>
  Starting never gets stuck: in a reachable ledger, an admitted or running episode without an
  unfinished attempt, a fresh attempt id and a confirmed owner always yield the identity with the next
  fence. (The episode's own row satisfies the schema and its situation version still exists.)
\<close>

theorem startAttempt_succeeds:
  assumes "ledger_steps empty_ledger L" and r: "find_episode episodeID L = Some r" and live: "Live (e_lifecycle r)"
    and quiet: "\<forall>t \<in> set (l_attempts L). t_episode t = episodeID \<longrightarrow> \<not> Unfinished (t_status t)"
    and fresh: "attemptID \<notin> t_id ` set (l_attempts L)" and ids: "episodeID \<noteq> ''''" "attemptID \<noteq> ''''"
    and lease: "requireOwnerLease owner ownerEpoch = Inr ()"
    and rows: "episode_checks r = []" "situation_known L r"
  shows "\<exists>L'. startAttempt episodeID attemptID ownerEpoch owner now L =
    Inr (\<lparr>i_EpisodeID = episodeID, i_AttemptID = attemptID, i_Fence = e_fence r + 1, i_OwnerEpoch = ownerEpoch\<rparr>, L')"
proof -
  note inv = reachable_inv[OF assms(1)]
  let ?i = "\<lparr>i_EpisodeID = episodeID, i_AttemptID = attemptID, i_Fence = e_fence r + 1, i_OwnerEpoch = ownerEpoch\<rparr>"
  have fence: "0 \<le> e_fence r"
    using rows(1) by (auto simp: episode_checks_def Let_def split: if_splits)
  have "t_fence t \<noteq> e_fence r + 1" if t: "t \<in> set (l_attempts L)" "t_episode t = episodeID" for t
  proof -
    obtain x where "x \<in> set (l_episodes L)" "e_id x = episodeID" "t_fence t \<le> e_fence x"
      using inv t unfolding ledger_inv_def attempt_linked_def by fastforce
    with episode_unique[OF inv, of x r] find_episode_SomeD[OF r] show ?thesis by simp
  qed
  then obtain t where ins: "InsertAttempt ?i now L = Inr (L\<lparr>l_attempts := l_attempts L @ [t]\<rparr>)"
    using InsertAttempt_fresh[of ?i L now] fresh fence r by auto
  have "episode_checks (r\<lparr>e_fence := i_Fence ?i\<rparr>) = []"
    using rows(1) fence by (simp add: episode_checks_def Let_def)
  then obtain L' where "RecordEpisodeAttempt ?i now (L\<lparr>l_attempts := l_attempts L @ [t]\<rparr>) = Inr L'"
    using record_attempt_succeeds[OF inv _ live, of ?i] r rows(2) by auto
  with ins start_checks[OF inv r live quiet] ids lease show ?thesis
    by (simp add: startAttempt_def recordStartedAttempt_def Let_def)
qed

theorem startAttempt_succeeds_witness:
  "\<exists>L'. startAttempt ''ep1'' ''at2'' ''o1'' held 10 ledger5
     = Inr (\<lparr>i_EpisodeID = ''ep1'', i_AttemptID = ''at2'', i_Fence = 2, i_OwnerEpoch = ''o1''\<rparr>, L')"
proof -
  let ?r = "hd (l_episodes ledger5)"
  have "find_episode ''ep1'' ledger5 = Some ?r" "Live (e_lifecycle ?r)" "e_fence ?r + 1 = 2"
    "\<forall>t \<in> set (l_attempts ledger5). t_episode t = ''ep1'' \<longrightarrow> \<not> Unfinished (t_status t)"
    "''at2'' \<notin> t_id ` set (l_attempts ledger5)" "requireOwnerLease held ''o1'' = Inr ()"
    "episode_checks ?r = []" "situation_known ledger5 ?r"
    by code_simp+
  then show ?thesis
    using startAttempt_succeeds[OF sample_reachable(5), of "''ep1''" ?r "''at2''" held "''o1''" 10] by simp
qed

section \<open>The queue and the dispatcher\<close>

lemma write_episodes_items: "write_episodes P f L = Inr L' \<Longrightarrow> l_items L' = l_items L"
  by (drule write_episodes_Inr(1)) simp

lemma recover_all_items: "recover_all costs now items rc = Inr rc' \<Longrightarrow> l_items (rc_ledger rc') = l_items (rc_ledger rc)"
proof (induction items arbitrary: rc)
  case (Cons item items)
  then obtain rm where rm: "recover_attempt costs now item rc = Inr rm" "recover_all costs now items rm = Inr rc'"
    by (auto simp: bind_res_Inr_iff)
  have "l_items (rc_ledger rm) = l_items (rc_ledger rc)"
    by (subst recover_attempt_Inr(3)[OF rm(1)]) simp
  with Cons.IH[OF rm(2)] show ?case by simp
qed simp

lemma startAttempt_items:
  "startAttempt episodeID attemptID ownerEpoch owner now L = Inr (i, L') \<Longrightarrow> l_items L' = l_items L"
  by (auto simp: startAttempt_def recordStartedAttempt_def InsertAttempt_def RecordEpisodeAttempt_def
      bind_res_Inr_iff Let_def split: if_splits dest!: write_episodes_items)

lemma upsert_item_ids:
  assumes "UpsertSchedulerItem report target_first item tenantID key now L = Inr L'" and "distinct (map s_id (l_items L))"
  shows "distinct (map s_id (l_items L'))"
proof -
  let ?row = "itemValues item tenantID key now"
  have "map s_id (sql_update (\<lambda>r. s_trigger r = s_trigger ?row) (upsert_set ?row) (l_items L)) = map s_id (l_items L)"
    by (rule map_sql_update) (simp add: upsert_set_def)
  then show ?thesis
    using assms by (auto simp: UpsertSchedulerItem_def Let_def item_conflicts_def split: if_splits list.splits)
qed

lemma ledger_step_items: "ledger_step L L' \<Longrightarrow> ledger_inv L \<Longrightarrow> distinct (map s_id (l_items L)) \<Longrightarrow> distinct (map s_id (l_items L'))"
proof (induction rule: ledger_step.induct)
  case (upsert report target_first item tenantID key now L L')
  then show ?case by (blast intro: upsert_item_ids)
next
  case (admit report req now L L')
  then show ?case by (auto simp: Admit_Inr elim!: InsertEpisode_Inr)
next
  case (start episodeID attemptID ownerEpoch owner now L i L')
  then show ?case using startAttempt_items[OF start(1)] by simp
next
  case (transition i to_status now terminal owner L L')
  from transition(1,2) have "l_items L' = l_items L" by (elim TransitionAttempt_Inr) simp_all
  with transition show ?case by simp
next
  case (recover epoch now costs L c rc)
  then show ?case
    by (auto simp: RecoverUnfinishedAttempts_def split: if_splits dest: recover_all_items)
next
  case (supersede_coalesced situationID now L L')
  then show ?case
    by (auto simp: SupersedeCoalesced_def bind_res_Inr_iff CancelCoalescedAttempts_def Let_def
        SupersedeCoalescedEpisodes_def dest: write_episodes_items)
qed (auto dest!: write_episodes_items dest: RecordRejection_tables
      simp: episode_write_defs MarkSchedulerItemAdmitted_def coalescePending_def ExpireSchedulerItem_def
        requireStillPending_def leavePending_def CoalesceSchedulerItems_def Let_def map_sql_update split: if_splits)

lemma reachable_item_ids: "ledger_steps empty_ledger L \<Longrightarrow> distinct (map s_id (l_items L))"
proof (induction empty_ledger L rule: ledger_steps.induct)
  case (step M N)
  then show ?case using ledger_step_items reachable_inv by blast
qed (simp add: empty_ledger_def)

lemma leavePending_result:
  assumes "distinct (map s_id (l_items L))"
  shows "(\<exists>s \<in> set (l_items L). pending_item itemID s) \<Longrightarrow>
      requireStillPending (leavePending itemID now status L) itemID = Inr (snd (leavePending itemID now status L))"
    and "\<not> (\<exists>s \<in> set (l_items L). pending_item itemID s) \<Longrightarrow>
      requireStillPending (leavePending itemID now status L) itemID = Inl (NotPending itemID)"
  using rows_affected_unique_key(1)[OF assms, of "pending_item itemID" itemID]
  by (auto simp: requireStillPending_def leavePending_def pending_item_def)

text \<open>
  A pending scheduler item is taken at most once: in a reachable ledger admitting it succeeds
  exactly when it is pending, the success changes only that row, and afterwards admitting, coalescing
  and expiring it are all refused as no longer pending.
\<close>

theorem pending_item_taken_once:
  assumes "ledger_steps empty_ledger L"
  shows "((\<exists>L'. MarkSchedulerItemAdmitted itemID now L = Inr L') \<longleftrightarrow>
        (\<exists>s \<in> set (l_items L). s_id s = itemID \<and> s_status s = ItemPending))
    \<and> (\<forall>L'. MarkSchedulerItemAdmitted itemID now L = Inr L' \<longrightarrow>
        (\<forall>s \<in> set (l_items L). s_id s \<noteq> itemID \<longrightarrow> s \<in> set (l_items L'))
        \<and> (\<forall>s \<in> set (l_items L'). s_id s = itemID \<longrightarrow> s_status s = ItemAdmitted)
        \<and> MarkSchedulerItemAdmitted itemID now' L' = Inl (NotPending itemID)
        \<and> coalescePending itemID now' L' = Inl (NotPending itemID)
        \<and> ExpireSchedulerItem itemID now' L' = Inl (NotPending itemID))"
proof -
  note ids = reachable_item_ids[OF assms]
  have iff: "(\<exists>L'. MarkSchedulerItemAdmitted itemID now L = Inr L') \<longleftrightarrow> (\<exists>s \<in> set (l_items L). pending_item itemID s)"
    unfolding MarkSchedulerItemAdmitted_def using leavePending_result[OF ids, of itemID] by fastforce
  have "(\<forall>s \<in> set (l_items L). s_id s \<noteq> itemID \<longrightarrow> s \<in> set (l_items L'))
      \<and> (\<forall>s \<in> set (l_items L'). s_id s = itemID \<longrightarrow> s_status s = ItemAdmitted)
      \<and> distinct (map s_id (l_items L'))"
    if ok: "MarkSchedulerItemAdmitted itemID now L = Inr L'" for L'
  proof -
    obtain p where p: "p \<in> set (l_items L)" "s_id p = itemID" "s_status p = ItemPending"
      using iff ok by (auto simp: pending_item_def)
    have only: "s = p" if "s \<in> set (l_items L)" "s_id s = itemID" for s
      using distinct_key_eq[OF ids that(1) p(1)] that(2) p(2) by simp
    have L': "l_items L' = sql_update (pending_item itemID) (\<lambda>r. r\<lparr>s_status := ItemAdmitted, s_updated := now\<rparr>) (l_items L)"
      using ok by (auto simp: MarkSchedulerItemAdmitted_def requireStillPending_def leavePending_def split: if_splits)
    have "\<forall>s \<in> set (l_items L'). s_id s = itemID \<longrightarrow> s_status s = ItemAdmitted"
      unfolding L' ball_sql_update
    proof
      fix s
      assume s: "s \<in> set (l_items L)"
      show "s_id (if pending_item itemID s then s\<lparr>s_status := ItemAdmitted, s_updated := now\<rparr> else s) = itemID \<longrightarrow>
          s_status (if pending_item itemID s then s\<lparr>s_status := ItemAdmitted, s_updated := now\<rparr> else s) = ItemAdmitted"
        by (cases "s_id s = itemID") (use only[OF s] p in \<open>auto simp: pending_item_def\<close>)
    qed
    moreover have "s \<in> set (l_items L')" if "s \<in> set (l_items L)" "s_id s \<noteq> itemID" for s
      using that unfolding L' set_sql_update by (intro image_eqI[of _ _ s]) (auto simp: pending_item_def)
    ultimately show ?thesis
      using ids by (simp add: L' map_sql_update)
  qed
  moreover have "\<not> (\<exists>s \<in> set (l_items L'). pending_item itemID s)"
    if "\<forall>s \<in> set (l_items L'). s_id s = itemID \<longrightarrow> s_status s = ItemAdmitted" for L'
    using that by (auto simp: pending_item_def)
  ultimately show ?thesis
    using iff leavePending_result(2)
    unfolding MarkSchedulerItemAdmitted_def coalescePending_def ExpireSchedulerItem_def pending_item_def by meson
qed

theorem pending_item_taken_once_witness:
  "\<exists>L'. MarkSchedulerItemAdmitted ''si1'' 6 ledger1 = Inr L' \<and>
     MarkSchedulerItemAdmitted ''si1'' 7 L' = Inl (NotPending ''si1'')"
proof -
  have "\<exists>s \<in> set (l_items ledger1). s_id s = ''si1'' \<and> s_status s = ItemPending"
    by code_simp
  then show ?thesis
    using pending_item_taken_once[OF sample_reachable(1), of "''si1''" 6 7] by blast
qed

interpretation dispatchOrder: comparison compareDispatch "\<lambda>r. (e_accepted r, e_id r)"
  unfolding compareDispatch_def by (intro comparison_cmp_or compare3_on)

text \<open>
  The dispatcher is given nothing exactly when the tenant has no dispatchable episode, and
  otherwise the one accepted first, ties broken by episode id. Without the killed option that is a live
  episode; with it also a superseded one that never started under a killed epoch.
\<close>

theorem NextDispatchableEpisode_oldest:
  "(NextDispatchableEpisode tenantID killed L = None \<longleftrightarrow>
      (\<forall>r \<in> set (l_episodes L). a_TenantID (e_admission r) = tenantID \<longrightarrow> \<not> dispatchable killed L r))
   \<and> (\<forall>d. NextDispatchableEpisode tenantID killed L = Some d \<longrightarrow>
      (\<exists>r \<in> set (l_episodes L). a_TenantID (e_admission r) = tenantID \<and> dispatchable killed L r
        \<and> de_Admission d = e_admission r \<and> de_StaleRebindCount d = e_rebinds r
        \<and> (\<forall>r' \<in> set (l_episodes L). a_TenantID (e_admission r') = tenantID \<and> dispatchable killed L r'
             \<longrightarrow> (e_accepted r, e_id r) \<le> (e_accepted r', e_id r'))))"
proof -
  let ?rows = "filter (\<lambda>r. a_TenantID (e_admission r) = tenantID \<and> dispatchable killed L r) (l_episodes L)"
  have le: "compareDispatch a b \<le> 0 \<longleftrightarrow> (e_accepted a, e_id a) \<le> (e_accepted b, e_id b)" for a b
    by (auto simp: compareDispatch_def cmp_or_def compare3_def)
  have mem: "set (sort_func compareDispatch ?rows) = set ?rows"
    by simp
  show ?thesis
  proof (cases "sort_func compareDispatch ?rows")
    case Nil
    then have "?rows = []"
      using length_sort_func[of compareDispatch ?rows] by simp
    then show ?thesis
      using Nil by (auto simp: NextDispatchableEpisode_def filter_empty_conv)
  next
    case (Cons r rs)
    then have "sorted_wrt (\<lambda>a b. compareDispatch a b \<le> 0) (r # rs)"
      using dispatchOrder.sorted_sort_func[of ?rows] by simp
    then have least: "\<forall>r' \<in> set ?rows. (e_accepted r, e_id r) \<le> (e_accepted r', e_id r')"
      unfolding mem[symmetric] Cons by (simp add: le)
    have r: "r \<in> set ?rows"
      using mem Cons by (metis list.set_intros(1))
    have hit: "NextDispatchableEpisode tenantID killed L
        = Some \<lparr>de_Admission = e_admission r, de_StaleRebindCount = e_rebinds r\<rparr>"
      by (simp add: NextDispatchableEpisode_def Cons)
    show ?thesis
      unfolding hit using r least by auto
  qed
qed

theorem NextDispatchableEpisode_oldest_witness:
  "\<exists>d. NextDispatchableEpisode ''t'' False ledger2 = Some d \<and> a_EpisodeID (de_Admission d) = ''ep1''
     \<and> (\<forall>r' \<in> set (l_episodes ledger2). a_TenantID (e_admission r') = ''t'' \<longrightarrow> dispatchable False ledger2 r' \<longrightarrow> e_accepted r' \<ge> 6)"
proof -
  have "(case NextDispatchableEpisode ''t'' False ledger2 of Some d \<Rightarrow> a_EpisodeID (de_Admission d) = ''ep1'' | None \<Rightarrow> False)"
    "\<forall>r \<in> set (l_episodes ledger2). e_accepted r = 6"
    by code_simp+
  then obtain d where d: "NextDispatchableEpisode ''t'' False ledger2 = Some d" "a_EpisodeID (de_Admission d) = ''ep1''"
    and six: "\<forall>r \<in> set (l_episodes ledger2). e_accepted r = 6"
    by (auto split: option.splits)
  then show ?thesis
    using NextDispatchableEpisode_oldest[of "''t''" False ledger2] by force
qed

text \<open>
  Recording a rejection is idempotent: once it succeeded, the same identity, reason, details
  and time change nothing more, and no rejection ever touches episodes, attempts or the queue. A reason
  outside the registry is always refused.
\<close>

theorem RecordRejection_idempotent:
  "(\<forall>L'. RecordRejection i reason details now L = Inr L' \<longrightarrow>
      RecordRejection i reason details now L' = Inr L'
      \<and> l_episodes L' = l_episodes L \<and> l_attempts L' = l_attempts L \<and> l_items L' = l_items L)
   \<and> RecordRejection i (UnregisteredReason s) details now L = Inl (InvalidRejectionReason s)"
proof -
  have stored: "\<not> r_fence row < 0 \<and> r_id row \<in> r_id ` set (l_rejections L')"
    if "InsertRejection row L = Inr L'" for row L'
    using that by (auto simp: InsertRejection_def split: if_splits)
  have again: "InsertRejection row' L' = Inr L'"
    if "InsertRejection row L = Inr L'" "r_id row' = r_id row" "r_fence row' = r_fence row" for row row' L'
    using stored[OF that(1)] that(2,3) by (simp add: InsertRejection_def)
  have "RecordRejection i reason details now L' = Inr L'" if ok: "RecordRejection i reason details now L = Inr L'" for L'
  proof -
    from ok have "CheckRejectionReason reason = Inr ()"
      by (auto simp: RecordRejection_def bind_res_Inr_iff)
    with ok show ?thesis
      unfolding RecordRejection_def Let_def by (auto elim!: again)
  qed
  then show ?thesis
    using RecordRejection_tables by (auto simp: RecordRejection_def CheckRejectionReason_def)
qed

theorem RecordRejection_idempotent_witness:
  "\<exists>L'. RecordRejection sample_identity RejectExpired '''' 12 ledger6 = Inr L'
     \<and> RecordRejection sample_identity RejectExpired '''' 12 L' = Inr L'"
proof -
  have "l_rejections ledger6 = []" "i_Fence sample_identity = 1"
    by code_simp+
  then have "\<exists>L'. RecordRejection sample_identity RejectExpired '''' 12 ledger6 = Inr L'"
    by (simp add: RecordRejection_def CheckRejectionReason_def InsertRejection_def Let_def)
  then show ?thesis
    using RecordRejection_idempotent[of sample_identity RejectExpired "''''" 12 ledger6] by blast
qed

end
