(* ===== verification/Control_Cost.thy ===== *)
theory Control_Cost
  imports Go_Prelude
begin

text \<open>
  Aggregate cost control (\<open>src/internal/control/internal\<close>: \<open>domain/cost.go\<close>, \<open>domain/ceilings.go\<close>,
  \<open>app/cost*.go\<close>, \<open>store/cost_*.go\<close>): a reservation is taken against the global and the tenant ceiling
  before an episode is admitted and settled with the actual cost when it ends.

  Amounts arrive as \<open>uint64\<close> and are kept at that width; the checks refuse what does not fit the signed
  column, so \<open>Micro\<close> is exact there. A column that would leave the signed 64-bit range makes the
  statement fail. Times are the texts the caller passes. An operation runs on the caller's transaction
  and returns no tables when it fails.
\<close>

section \<open>Tables\<close>

datatype reservation_status = ReservationReserved | ReservationSettled | ReservationRejected

record limit_row =
  cl_scope :: string
  cl_tenant :: "string option"
  cl_max :: int
  cl_reserved :: int
  cl_spent :: int
  cl_kill :: bool
  cl_updated :: string

record reservation_row =
  cr_episode :: string
  cr_tenant :: string
  cr_reserved :: int
  cr_actual :: int
  cr_status :: reservation_status
  cr_created :: string
  cr_settled :: "string option"

record costs =
  k_limits :: "limit_row list"
  k_reservations :: "reservation_row list"

datatype cost_error =
    InvalidReservation | InvalidSettlement | InvalidLimit
  | CostReservationRejected string
  | CostStatementFailed string
  | GlobalLimitMissing
  | LimitNotUpdated
  | LimitMissing string
  | ReservationMissing string
  | SettledDifferently string
  | NegativeLimit string

definition GlobalScope :: string where
  "GlobalScope = ''global''"

definition TenantScope :: "string \<Rightarrow> string" where
  "TenantScope tenantID = ''tenant:'' @ tenantID"

section \<open>Checks\<close>

definition fits_column :: "64 word \<Rightarrow> bool" where
  "fits_column amount \<longleftrightarrow> uint amount \<le> max_int64"

definition CheckReservation :: "string \<Rightarrow> string \<Rightarrow> 64 word \<Rightarrow> string \<Rightarrow> cost_error + unit" where
  "CheckReservation episodeID tenantID amount now =
     (if episodeID = '''' \<or> tenantID = '''' \<or> now = '''' \<or> \<not> fits_column amount
      then Inl InvalidReservation else Inr ())"

definition CheckSettlement :: "string \<Rightarrow> 64 word \<Rightarrow> string \<Rightarrow> cost_error + unit" where
  "CheckSettlement episodeID actual now =
     (if episodeID = '''' \<or> now = '''' \<or> \<not> fits_column actual then Inl InvalidSettlement else Inr ())"

definition CheckLimit :: "string \<Rightarrow> 64 word \<Rightarrow> string \<Rightarrow> cost_error + unit" where
  "CheckLimit scopeKey maxMicro now =
     (if scopeKey = '''' \<or> now = '''' \<or> \<not> fits_column maxMicro then Inl InvalidLimit else Inr ())"

definition Micro :: "64 word \<Rightarrow> int" where
  "Micro value = sint value"

definition CheckNoActiveCeiling :: "int \<Rightarrow> bool \<Rightarrow> cost_error + unit" where
  "CheckNoActiveCeiling maxMicro killSwitch =
     (if 0 < maxMicro \<or> killSwitch then Inl (CostReservationRejected ''cost estimate is required'') else Inr ())"

definition CheckReserved :: "int \<Rightarrow> string \<Rightarrow> cost_error + unit" where
  "CheckReserved rows scopeKey = (if rows \<noteq> 1 then Inl (CostReservationRejected scopeKey) else Inr ())"

definition RefuseMissingLimit :: "string \<Rightarrow> cost_error + unit" where
  "RefuseMissingLimit scopeKey = (if scopeKey = GlobalScope then Inl GlobalLimitMissing else Inr ())"

definition CheckLimitWritten :: "int \<Rightarrow> cost_error + unit" where
  "CheckLimitWritten rows = (if rows \<noteq> 1 then Inl LimitNotUpdated else Inr ())"

definition CheckLimitSettled :: "int \<Rightarrow> string \<Rightarrow> cost_error + unit" where
  "CheckLimitSettled rows scopeKey = (if rows \<noteq> 1 then Inl (LimitMissing scopeKey) else Inr ())"

definition NeedsSettlement :: "reservation_row \<Rightarrow> string \<Rightarrow> 64 word \<Rightarrow> cost_error + bool" where
  "NeedsSettlement r episodeID actual =
     (if cr_status r = ReservationReserved then Inr True
      else if cr_status r = ReservationSettled \<and> cr_actual r = Micro actual then Inr False
      else Inl (SettledDifferently episodeID))"

definition CheckStoredLimit :: "string \<Rightarrow> int \<Rightarrow> cost_error + 64 word" where
  "CheckStoredLimit scopeKey maxMicro =
     (if maxMicro < 0 then Inl (NegativeLimit scopeKey) else Inr (of_int maxMicro))"

section \<open>Statements\<close>

definition find_limit :: "string \<Rightarrow> costs \<Rightarrow> limit_row option" where
  "find_limit scopeKey K = find (\<lambda>r. cl_scope r = scopeKey) (k_limits K)"

definition LimitExists :: "string \<Rightarrow> costs \<Rightarrow> bool" where
  "LimitExists scopeKey K \<longleftrightarrow> find_limit scopeKey K \<noteq> None"

text \<open>An \<open>UPDATE cost_limits\<close>: it fails when a new column value leaves the signed 64-bit range.\<close>

definition in_columns :: "limit_row \<Rightarrow> bool" where
  "in_columns r \<longleftrightarrow> cl_reserved r \<le> max_int64 \<and> cl_spent r \<le> max_int64"

definition update_limits ::
  "(limit_row \<Rightarrow> bool) \<Rightarrow> (limit_row \<Rightarrow> limit_row) \<Rightarrow> costs \<Rightarrow> cost_error + (int \<times> costs)" where
  "update_limits where_row set_row K =
     (if \<exists>r \<in> set (k_limits K). where_row r \<and> \<not> in_columns (set_row r)
      then Inl (CostStatementFailed ''cost_limits'')
      else Inr (rows_affected where_row (k_limits K), K\<lparr>k_limits := sql_update where_row set_row (k_limits K)\<rparr>))"

definition ReserveAvailable :: "string \<Rightarrow> int \<Rightarrow> string \<Rightarrow> costs \<Rightarrow> cost_error + (int \<times> costs)" where
  "ReserveAvailable scopeKey amount now =
     update_limits
       (\<lambda>r. cl_scope r = scopeKey \<and> \<not> cl_kill r
          \<and> (cl_max r = 0 \<or> cl_max r \<ge> cl_spent r + cl_reserved r + amount))
       (\<lambda>r. r\<lparr>cl_reserved := cl_reserved r + amount, cl_updated := now\<rparr>)"

definition SettleLimit :: "string \<Rightarrow> int \<Rightarrow> int \<Rightarrow> string \<Rightarrow> costs \<Rightarrow> cost_error + (int \<times> costs)" where
  "SettleLimit scopeKey reserved actual now =
     update_limits (\<lambda>r. cl_scope r = scopeKey)
       (\<lambda>r. r\<lparr>cl_reserved := max 0 (cl_reserved r - reserved), cl_spent := cl_spent r + actual,
              cl_kill := (if 0 < cl_max r \<and> cl_spent r + actual \<ge> cl_max r then True else cl_kill r),
              cl_updated := now\<rparr>)"

definition nullif_empty :: "string \<Rightarrow> string option" where
  "nullif_empty s = (if s = '''' then None else Some s)"

definition WriteLimit :: "string \<Rightarrow> string \<Rightarrow> int \<Rightarrow> bool \<Rightarrow> string \<Rightarrow> costs \<Rightarrow> cost_error + (int \<times> costs)" where
  "WriteLimit scopeKey tenantID maxMicro killSwitch now K =
     (let rows = (if LimitExists scopeKey K
                  then sql_update (\<lambda>r. cl_scope r = scopeKey)
                         (\<lambda>r. r\<lparr>cl_tenant := nullif_empty tenantID, cl_max := maxMicro, cl_kill := killSwitch, cl_updated := now\<rparr>)
                         (k_limits K)
                  else k_limits K @ [\<lparr>cl_scope = scopeKey, cl_tenant = nullif_empty tenantID, cl_max = maxMicro,
                         cl_reserved = 0, cl_spent = 0, cl_kill = killSwitch, cl_updated = now\<rparr>])
      in if maxMicro < 0 then Inl (CostStatementFailed ''max_micro'')
         else if \<not> unique_index (\<lambda>r. cl_tenant r \<noteq> None) cl_tenant rows
         then Inl (CostStatementFailed ''cost_limits.tenant_id'')
         else Inr (1, K\<lparr>k_limits := rows\<rparr>))"

definition InsertReservation :: "string \<Rightarrow> string \<Rightarrow> int \<Rightarrow> string \<Rightarrow> costs \<Rightarrow> cost_error + costs" where
  "InsertReservation episodeID tenantID reserved now K =
     (if reserved < 0 \<or> episodeID \<in> cr_episode ` set (k_reservations K)
      then Inl (CostStatementFailed ''cost_reservations'')
      else Inr (K\<lparr>k_reservations := k_reservations K @
        [\<lparr>cr_episode = episodeID, cr_tenant = tenantID, cr_reserved = reserved, cr_actual = 0,
          cr_status = ReservationReserved, cr_created = now, cr_settled = None\<rparr>]\<rparr>))"

definition LoadReservation :: "string \<Rightarrow> costs \<Rightarrow> reservation_row option" where
  "LoadReservation episodeID K = find (\<lambda>r. cr_episode r = episodeID) (k_reservations K)"

definition RecordSettlement :: "string \<Rightarrow> int \<Rightarrow> string \<Rightarrow> costs \<Rightarrow> costs" where
  "RecordSettlement episodeID actual now K =
     K\<lparr>k_reservations := sql_update (\<lambda>r. cr_episode r = episodeID \<and> cr_status r = ReservationReserved)
         (\<lambda>r. r\<lparr>cr_actual := actual, cr_status := ReservationSettled, cr_settled := Some now\<rparr>) (k_reservations K)\<rparr>"

section \<open>Operations\<close>

fun check_ceilings :: "limit_row list \<Rightarrow> cost_error + unit" where
  "check_ceilings [] = Inr ()"
| "check_ceilings (r # rs) =
     bind_res (CheckNoActiveCeiling (cl_max r) (cl_kill r)) (\<lambda>_. check_ceilings rs)"

definition requireNoActiveCostControl :: "string \<Rightarrow> costs \<Rightarrow> cost_error + unit" where
  "requireNoActiveCostControl tenantID K =
     check_ceilings (filter (\<lambda>r. cl_scope r \<in> {GlobalScope, TenantScope tenantID}) (k_limits K))"

definition reserveLimit :: "string \<Rightarrow> 64 word \<Rightarrow> string \<Rightarrow> costs \<Rightarrow> cost_error + costs" where
  "reserveLimit scopeKey amount now K =
     (if \<not> LimitExists scopeKey K then bind_res (RefuseMissingLimit scopeKey) (\<lambda>_. Inr K)
      else bind_res (ReserveAvailable scopeKey (Micro amount) now K) (\<lambda>(rows, K').
           bind_res (CheckReserved rows scopeKey) (\<lambda>_. Inr K')))"

definition Reserve :: "string \<Rightarrow> string \<Rightarrow> 64 word \<Rightarrow> string \<Rightarrow> costs \<Rightarrow> cost_error + costs" where
  "Reserve episodeID tenantID amount now K =
     bind_res (CheckReservation episodeID tenantID amount now) (\<lambda>_.
     bind_res (if amount = 0 then requireNoActiveCostControl tenantID K else Inr ()) (\<lambda>_.
     bind_res (InsertReservation episodeID tenantID (Micro amount) now K) (\<lambda>K1.
     bind_res (reserveLimit GlobalScope amount now K1) (\<lambda>K2.
     reserveLimit (TenantScope tenantID) amount now K2))))"

definition settleLimit :: "string \<Rightarrow> int \<Rightarrow> 64 word \<Rightarrow> string \<Rightarrow> costs \<Rightarrow> cost_error + costs" where
  "settleLimit scopeKey reserved actual now K =
     (if \<not> LimitExists scopeKey K then bind_res (RefuseMissingLimit scopeKey) (\<lambda>_. Inr K)
      else bind_res (SettleLimit scopeKey reserved (Micro actual) now K) (\<lambda>(rows, K').
           bind_res (CheckLimitSettled rows scopeKey) (\<lambda>_. Inr K')))"

definition applySettlement :: "string \<Rightarrow> reservation_row \<Rightarrow> 64 word \<Rightarrow> string \<Rightarrow> costs \<Rightarrow> cost_error + costs" where
  "applySettlement episodeID r actual now K =
     bind_res (settleLimit GlobalScope (cr_reserved r) actual now (RecordSettlement episodeID (Micro actual) now K))
       (settleLimit (TenantScope (cr_tenant r)) (cr_reserved r) actual now)"

definition Settle :: "string \<Rightarrow> 64 word \<Rightarrow> string \<Rightarrow> costs \<Rightarrow> cost_error + costs" where
  "Settle episodeID actual now K =
     bind_res (CheckSettlement episodeID actual now) (\<lambda>_.
       case LoadReservation episodeID K of
         None \<Rightarrow> Inl (ReservationMissing episodeID)
       | Some r \<Rightarrow> bind_res (NeedsSettlement r episodeID actual) (\<lambda>needed.
           if \<not> needed then Inr K else applySettlement episodeID r actual now K))"

definition SetLimit :: "string \<Rightarrow> string \<Rightarrow> 64 word \<Rightarrow> bool \<Rightarrow> string \<Rightarrow> costs \<Rightarrow> cost_error + costs" where
  "SetLimit scopeKey tenantID maxMicro killSwitch now K =
     bind_res (CheckLimit scopeKey maxMicro now) (\<lambda>_.
     bind_res (WriteLimit scopeKey tenantID (Micro maxMicro) killSwitch now K) (\<lambda>(rows, K').
     bind_res (CheckLimitWritten rows) (\<lambda>_. Inr K')))"

record cost_ceilings =
  cc_Global :: "64 word option"
  cc_Tenant :: "64 word option"
  cc_KillSwitch :: "bool option"

definition valueOr :: "'a option \<Rightarrow> 'a \<Rightarrow> 'a" where
  "valueOr v fallback = (case v of None \<Rightarrow> fallback | Some x \<Rightarrow> x)"

definition ChangesGlobal :: "cost_ceilings \<Rightarrow> bool" where
  "ChangesGlobal c \<longleftrightarrow> cc_Global c \<noteq> None \<or> cc_KillSwitch c \<noteq> None"

definition MergeGlobal :: "cost_ceilings \<Rightarrow> 64 word \<Rightarrow> bool \<Rightarrow> 64 word \<times> bool" where
  "MergeGlobal c maxMicro killSwitch = (valueOr (cc_Global c) maxMicro, valueOr (cc_KillSwitch c) killSwitch)"

definition TenantKillSwitch :: "cost_ceilings \<Rightarrow> bool" where
  "TenantKillSwitch c = valueOr (cc_KillSwitch c) False"

definition readLimit :: "string \<Rightarrow> costs \<Rightarrow> cost_error + (64 word \<times> bool)" where
  "readLimit scopeKey K = (case find_limit scopeKey K of
     None \<Rightarrow> Inl (LimitMissing scopeKey)
   | Some r \<Rightarrow> bind_res (CheckStoredLimit scopeKey (cl_max r)) (\<lambda>v. Inr (v, cl_kill r)))"

definition applyGlobalCeiling :: "cost_ceilings \<Rightarrow> string \<Rightarrow> costs \<Rightarrow> cost_error + costs" where
  "applyGlobalCeiling c now K =
     (if \<not> ChangesGlobal c then Inr K
      else bind_res (readLimit GlobalScope K) (\<lambda>(current, kill).
        let (maxMicro, kill') = MergeGlobal c current kill
        in SetLimit GlobalScope '''' maxMicro kill' now K))"

definition applyTenantCeiling :: "cost_ceilings \<Rightarrow> string \<Rightarrow> string \<Rightarrow> costs \<Rightarrow> cost_error + costs" where
  "applyTenantCeiling c tenantID now K = (case cc_Tenant c of
     None \<Rightarrow> Inr K
   | Some m \<Rightarrow> SetLimit (TenantScope tenantID) tenantID m (TenantKillSwitch c) now K)"

definition ApplyCeilings :: "cost_ceilings \<Rightarrow> string \<Rightarrow> string \<Rightarrow> costs \<Rightarrow> cost_error + costs" where
  "ApplyCeilings c tenantID now K =
     bind_res (applyGlobalCeiling c now K) (applyTenantCeiling c tenantID now)"

section \<open>Accounting\<close>

definition outstanding :: "costs \<Rightarrow> int" where
  "outstanding K = (\<Sum>r\<leftarrow>k_reservations K. if cr_status r = ReservationReserved then cr_reserved r else 0)"

definition settled_total :: "costs \<Rightarrow> int" where
  "settled_total K = (\<Sum>r\<leftarrow>k_reservations K. if cr_status r = ReservationSettled then cr_actual r else 0)"

text \<open>
  The same two sums for one scope: the global limit is charged for every reservation, the limit of a
  tenant for the reservations of the tenant. The books of a scope balance when its limit exists and its
  counters are these sums.
\<close>

definition charged :: "string \<Rightarrow> reservation_row \<Rightarrow> bool" where
  "charged scope r \<longleftrightarrow> scope = GlobalScope \<or> scope = TenantScope (cr_tenant r)"

definition reserved_in :: "string \<Rightarrow> costs \<Rightarrow> int" where
  "reserved_in scope K = (\<Sum>r\<leftarrow>k_reservations K. if charged scope r \<and> cr_status r = ReservationReserved then cr_reserved r else 0)"

definition spent_in :: "string \<Rightarrow> costs \<Rightarrow> int" where
  "spent_in scope K = (\<Sum>r\<leftarrow>k_reservations K. if charged scope r \<and> cr_status r = ReservationSettled then cr_actual r else 0)"

definition balanced :: "string \<Rightarrow> costs \<Rightarrow> bool" where
  "balanced scope K \<longleftrightarrow> LimitExists scope K
     \<and> (\<forall>l \<in> set (k_limits K). cl_scope l = scope \<longrightarrow> cl_reserved l = reserved_in scope K \<and> cl_spent l = spent_in scope K)"

text \<open>
  The books of the cost ledger: keys are unique, the global limit exists, and its two counters are
  exactly what the outstanding reservations hold and the settled ones spent.
\<close>

definition cost_inv :: "costs \<Rightarrow> bool" where
  "cost_inv K \<longleftrightarrow> distinct (map cl_scope (k_limits K)) \<and> distinct (map cr_episode (k_reservations K))
     \<and> (\<forall>r \<in> set (k_reservations K). 0 \<le> cr_reserved r \<and> 0 \<le> cr_actual r)
     \<and> LimitExists GlobalScope K
     \<and> (\<forall>g \<in> set (k_limits K). cl_scope g = GlobalScope \<longrightarrow> cl_reserved g = outstanding K \<and> cl_spent g = settled_total K)"

inductive cost_step :: "costs \<Rightarrow> costs \<Rightarrow> bool" where
  reserve: "Reserve episodeID tenantID amount now K = Inr K' \<Longrightarrow> cost_step K K'"
| settle: "Settle episodeID actual now K = Inr K' \<Longrightarrow> cost_step K K'"
| set_limit: "SetLimit scopeKey tenantID maxMicro killSwitch now K = Inr K' \<Longrightarrow> cost_step K K'"

text \<open>The migration creates the global limit, unlimited.\<close>

definition initial_costs :: "string \<Rightarrow> costs" where
  "initial_costs now = \<lparr>k_limits = [\<lparr>cl_scope = GlobalScope, cl_tenant = None, cl_max = 0, cl_reserved = 0,
     cl_spent = 0, cl_kill = False, cl_updated = now\<rparr>], k_reservations = []\<rparr>"

inductive cost_reachable :: "costs \<Rightarrow> bool" where
  initial: "cost_reachable (initial_costs now)"
| step: "cost_reachable K \<Longrightarrow> cost_step K K' \<Longrightarrow> cost_reachable K'"

lemma TenantScope_not_Global [simp]: "TenantScope t \<noteq> GlobalScope" "GlobalScope \<noteq> TenantScope t"
  by (simp_all add: TenantScope_def GlobalScope_def)

lemma TenantScope_inj [simp]: "TenantScope t = TenantScope u \<longleftrightarrow> t = u"
  by (simp add: TenantScope_def)

lemma global_sums: "outstanding K = reserved_in GlobalScope K" "settled_total K = spent_in GlobalScope K"
  by (simp_all add: outstanding_def settled_total_def reserved_in_def spent_in_def charged_def)

lemma Micro_exact: "fits_column a \<Longrightarrow> Micro a = uint a"
proof -
  assume "fits_column a"
  moreover have "- (2 ^ 63) \<le> uint a"
    by (rule order_trans[of _ 0]) simp_all
  ultimately show ?thesis
    using signed_take_bit_int_eq_self[of 63 "uint a"] by (simp add: fits_column_def Micro_def sint_uint max_int64_def)
qed

lemma Micro_nonneg: "fits_column a \<Longrightarrow> 0 \<le> Micro a"
  by (simp add: Micro_exact)

lemma update_limits_Inr:
  "update_limits P f K = Inr (n, K') \<longleftrightarrow>
     (\<forall>r \<in> set (k_limits K). P r \<longrightarrow> in_columns (f r)) \<and> n = rows_affected P (k_limits K)
     \<and> K' = K\<lparr>k_limits := sql_update P f (k_limits K)\<rparr>"
  by (auto simp: update_limits_def)

lemma LimitExists_iff: "LimitExists s K \<longleftrightarrow> s \<in> cl_scope ` set (k_limits K)"
  by (auto simp: LimitExists_def find_limit_def find_None_iff)

lemma reserveLimit_Inr:
  assumes "reserveLimit s amount now K = Inr K'" and "distinct (map cl_scope (k_limits K))"
  shows "k_reservations K' = k_reservations K"
    and "k_limits K' = sql_update (\<lambda>r. cl_scope r = s)
      (\<lambda>r. r\<lparr>cl_reserved := cl_reserved r + Micro amount, cl_updated := now\<rparr>) (k_limits K)"
    and "\<And>r. r \<in> set (k_limits K) \<Longrightarrow> cl_scope r = s \<Longrightarrow>
      \<not> cl_kill r \<and> (cl_max r = 0 \<or> cl_spent r + cl_reserved r + Micro amount \<le> cl_max r)"
    and "s = GlobalScope \<Longrightarrow> LimitExists s K"
proof -
  let ?P = "\<lambda>r. cl_scope r = s \<and> \<not> cl_kill r \<and> (cl_max r = 0 \<or> cl_max r \<ge> cl_spent r + cl_reserved r + Micro amount)"
  let ?f = "\<lambda>r. r\<lparr>cl_reserved := cl_reserved r + Micro amount, cl_updated := now\<rparr>"
  have "k_reservations K' = k_reservations K \<and> k_limits K' = sql_update (\<lambda>r. cl_scope r = s) ?f (k_limits K)
      \<and> (\<forall>r \<in> set (k_limits K). cl_scope r = s \<longrightarrow> ?P r) \<and> (s = GlobalScope \<longrightarrow> LimitExists s K)"
  proof (cases "LimitExists s K")
    case False
    then have "K' = K" "s \<noteq> GlobalScope" and none: "\<And>r. r \<in> set (k_limits K) \<Longrightarrow> cl_scope r \<noteq> s"
      using assms(1) by (auto simp: reserveLimit_def bind_res_Inr_iff RefuseMissingLimit_def LimitExists_iff split: if_splits)
    with none show ?thesis
      using sql_update_none[of "k_limits K" "\<lambda>r. cl_scope r = s" ?f] by auto
  next
    case True
    then have K': "K' = K\<lparr>k_limits := sql_update ?P ?f (k_limits K)\<rparr>" and one: "rows_affected ?P (k_limits K) = 1"
      using assms(1) by (auto simp: reserveLimit_def bind_res_Inr_iff CheckReserved_def ReserveAvailable_def
          update_limits_Inr split: if_splits)
    obtain p where p: "p \<in> set (k_limits K)" "?P p"
      using one rows_affected_unique_key(1)[OF assms(2), of ?P s] by auto
    have all: "?P r" if "r \<in> set (k_limits K)" "cl_scope r = s" for r
      using distinct_key_eq[OF assms(2) that(1) p(1)] that(2) p(2) by simp
    then have "sql_update ?P ?f (k_limits K) = sql_update (\<lambda>r. cl_scope r = s) ?f (k_limits K)"
      unfolding sql_update_def by (intro map_cong) auto
    with K' all True show ?thesis by auto
  qed
  then show "k_reservations K' = k_reservations K"
    and "k_limits K' = sql_update (\<lambda>r. cl_scope r = s) ?f (k_limits K)"
    and "\<And>r. r \<in> set (k_limits K) \<Longrightarrow> cl_scope r = s \<Longrightarrow>
      \<not> cl_kill r \<and> (cl_max r = 0 \<or> cl_spent r + cl_reserved r + Micro amount \<le> cl_max r)"
    and "s = GlobalScope \<Longrightarrow> LimitExists s K"
    by auto
qed

lemma settleLimit_Inr:
  assumes "settleLimit s x actual now K = Inr K'"
  shows "k_reservations K' = k_reservations K"
    and "k_limits K' = sql_update (\<lambda>r. cl_scope r = s)
       (\<lambda>r. r\<lparr>cl_reserved := max 0 (cl_reserved r - x), cl_spent := cl_spent r + Micro actual,
              cl_kill := (if 0 < cl_max r \<and> cl_spent r + Micro actual \<ge> cl_max r then True else cl_kill r),
              cl_updated := now\<rparr>) (k_limits K)"
proof -
  let ?f = "\<lambda>r. r\<lparr>cl_reserved := max 0 (cl_reserved r - x), cl_spent := cl_spent r + Micro actual,
    cl_kill := (if 0 < cl_max r \<and> cl_spent r + Micro actual \<ge> cl_max r then True else cl_kill r), cl_updated := now\<rparr>"
  have "k_reservations K' = k_reservations K \<and> k_limits K' = sql_update (\<lambda>r. cl_scope r = s) ?f (k_limits K)"
  proof (cases "LimitExists s K")
    case False
    then have "K' = K" and none: "\<And>r. r \<in> set (k_limits K) \<Longrightarrow> cl_scope r \<noteq> s"
      using assms by (auto simp: settleLimit_def bind_res_Inr_iff RefuseMissingLimit_def LimitExists_iff split: if_splits)
    then show ?thesis
      using sql_update_none[of "k_limits K" "\<lambda>r. cl_scope r = s" ?f] by auto
  next
    case True
    then have "K' = K\<lparr>k_limits := sql_update (\<lambda>r. cl_scope r = s) ?f (k_limits K)\<rparr>"
      using assms by (auto simp: settleLimit_def bind_res_Inr_iff SettleLimit_def update_limits_Inr split: if_splits)
    then show ?thesis by simp
  qed
  then show "k_reservations K' = k_reservations K"
    and "k_limits K' = sql_update (\<lambda>r. cl_scope r = s) ?f (k_limits K)"
    by auto
qed

lemma Reserve_Inr:
  assumes "Reserve episodeID tenantID amount now K = Inr K'"
  obtains K1 K2 where "fits_column amount" "InsertReservation episodeID tenantID (Micro amount) now K = Inr K1"
    "reserveLimit GlobalScope amount now K1 = Inr K2" "reserveLimit (TenantScope tenantID) amount now K2 = Inr K'"
  using assms by (auto simp: Reserve_def bind_res_Inr_iff CheckReservation_def split: if_splits)

lemma InsertReservation_Inr:
  assumes "InsertReservation episodeID tenantID n now K = Inr K'"
  obtains row where "K' = K\<lparr>k_reservations := k_reservations K @ [row]\<rparr>" "cr_episode row = episodeID"
    "cr_reserved row = n" "cr_actual row = 0" "cr_status row = ReservationReserved" "cr_tenant row = tenantID"
    "episodeID \<notin> cr_episode ` set (k_reservations K)" "0 \<le> n"
  using assms by (auto simp: InsertReservation_def split: if_splits)

lemma Settle_Inr:
  assumes "Settle episodeID actual now K = Inr K'"
  obtains (repeated) r where "K' = K" "LoadReservation episodeID K = Some r" "cr_status r = ReservationSettled"
      "cr_actual r = Micro actual" "fits_column actual"
    | (applied) r K1 where "LoadReservation episodeID K = Some r" "cr_status r = ReservationReserved" "fits_column actual"
      "settleLimit GlobalScope (cr_reserved r) actual now (RecordSettlement episodeID (Micro actual) now K) = Inr K1"
      "settleLimit (TenantScope (cr_tenant r)) (cr_reserved r) actual now K1 = Inr K'"
  using assms
  by (auto simp: Settle_def bind_res_Inr_iff NeedsSettlement_def CheckSettlement_def applySettlement_def
      split: if_splits option.splits)

lemma scopes_sql_update [simp]:
  "map cl_scope (sql_update (\<lambda>r. cl_scope r = s) (\<lambda>r. r\<lparr>cl_reserved := a r, cl_updated := u\<rparr>) rows) = map cl_scope rows"
  "map cl_scope (sql_update (\<lambda>r. cl_scope r = s)
     (\<lambda>r. r\<lparr>cl_reserved := a r, cl_spent := b r, cl_kill := c r, cl_updated := u\<rparr>) rows) = map cl_scope rows"
  by (simp_all add: map_sql_update)

lemma Reserve_balanced:
  assumes ok: "Reserve episodeID tenantID amount now K = Inr K'" and scopes: "distinct (map cl_scope (k_limits K))"
    and bal: "balanced s K"
  shows "balanced s K'"
  using ok
proof (rule Reserve_Inr)
  fix K1 K2
  assume K1: "InsertReservation episodeID tenantID (Micro amount) now K = Inr K1"
    and K2: "reserveLimit GlobalScope amount now K1 = Inr K2"
    and K3: "reserveLimit (TenantScope tenantID) amount now K2 = Inr K'"
  from K1 obtain row where row: "K1 = K\<lparr>k_reservations := k_reservations K @ [row]\<rparr>"
    "cr_reserved row = Micro amount" "cr_status row = ReservationReserved" "cr_tenant row = tenantID"
    by (rule InsertReservation_Inr)
  have d1: "distinct (map cl_scope (k_limits K1))" using scopes row(1) by simp
  note g = reserveLimit_Inr[OF K2 d1]
  have d2: "distinct (map cl_scope (k_limits K2))" using d1 by (simp add: g(2))
  note t = reserveLimit_Inr[OF K3 d2]
  let ?add = "if charged s row then Micro amount else 0"
  have sums: "reserved_in s K' = reserved_in s K + ?add" "spent_in s K' = spent_in s K"
    by (simp_all add: reserved_in_def spent_in_def t(1) g(1) row)
  have "map cl_scope (k_limits K') = map cl_scope (k_limits K)" by (simp add: t(2) g(2) row(1))
  then have "LimitExists s K'" using bal unfolding balanced_def LimitExists_iff by (metis set_map)
  moreover have "cl_reserved x = reserved_in s K' \<and> cl_spent x = spent_in s K'" if x: "x \<in> set (k_limits K')" "cl_scope x = s" for x
  proof -
    obtain y where "y \<in> set (k_limits K)" "cl_scope y = s" "cl_reserved x = cl_reserved y + ?add" "cl_spent x = cl_spent y"
      using x by (auto simp: t(2) g(2) set_sql_update row(1,4) charged_def split: if_splits)
    with bal show ?thesis by (auto simp: balanced_def sums)
  qed
  ultimately show ?thesis by (simp add: balanced_def)
qed

lemma cost_inv_balanced: "cost_inv K \<Longrightarrow> balanced GlobalScope K"
  by (simp add: cost_inv_def balanced_def global_sums)

lemma Reserve_inv:
  assumes ok: "Reserve episodeID tenantID amount now K = Inr K'" and inv: "cost_inv K"
  shows "cost_inv K'"
  using ok
proof (rule Reserve_Inr)
  fix K1 K2
  assume K1: "InsertReservation episodeID tenantID (Micro amount) now K = Inr K1"
    and K2: "reserveLimit GlobalScope amount now K1 = Inr K2"
    and K3: "reserveLimit (TenantScope tenantID) amount now K2 = Inr K'"
  from K1 obtain row where row: "K1 = K\<lparr>k_reservations := k_reservations K @ [row]\<rparr>" "cr_episode row = episodeID"
    "cr_reserved row = Micro amount" "cr_actual row = 0" "episodeID \<notin> cr_episode ` set (k_reservations K)" "0 \<le> Micro amount"
    by (rule InsertReservation_Inr)
  have d: "distinct (map cl_scope (k_limits K))" using inv by (simp add: cost_inv_def)
  then have d1: "distinct (map cl_scope (k_limits K1))" using row(1) by simp
  note g = reserveLimit_Inr[OF K2 d1]
  have d2: "distinct (map cl_scope (k_limits K2))" using d1 by (simp add: g(2))
  note t = reserveLimit_Inr[OF K3 d2]
  have "distinct (map cl_scope (k_limits K'))" using d by (simp add: t(2) g(2) row(1))
  moreover have "balanced GlobalScope K'" using Reserve_balanced[OF ok d cost_inv_balanced[OF inv]] .
  moreover have "distinct (map cr_episode (k_reservations K'))" "\<forall>r \<in> set (k_reservations K'). 0 \<le> cr_reserved r \<and> 0 \<le> cr_actual r"
    using inv by (auto simp: t(1) g(1) row cost_inv_def)
  ultimately show ?thesis by (simp add: cost_inv_def balanced_def global_sums)
qed

lemma reserved_covers:
  assumes "cost_inv K" and "r \<in> set (k_reservations K)" and "cr_status r = ReservationReserved" and "charged s r"
  shows "cr_reserved r \<le> reserved_in s K"
proof -
  let ?w = "\<lambda>r. if charged s r \<and> cr_status r = ReservationReserved then cr_reserved r else 0"
  have "?w r \<le> (\<Sum>r\<leftarrow>k_reservations K. ?w r)"
    using assms(1,2) by (intro member_le_sum_list) (auto simp: cost_inv_def)
  with assms(3,4) show ?thesis by (simp add: reserved_in_def)
qed

lemma RecordSettlement_scopes:
  assumes inv: "cost_inv K" and r: "LoadReservation episodeID K = Some r" "cr_status r = ReservationReserved"
  shows "reserved_in s (RecordSettlement episodeID a now K) = reserved_in s K - (if charged s r then cr_reserved r else 0)"
    and "spent_in s (RecordSettlement episodeID a now K) = spent_in s K + (if charged s r then a else 0)"
proof -
  have mem: "r \<in> set (k_reservations K)" "cr_episode r = episodeID"
    using find_SomeD[OF r(1)[unfolded LoadReservation_def]] by auto
  have keys: "distinct (map cr_episode (k_reservations K))"
    using inv by (simp add: cost_inv_def)
  let ?P = "\<lambda>r. cr_episode r = episodeID \<and> cr_status r = ReservationReserved"
  let ?f = "\<lambda>r. r\<lparr>cr_actual := a, cr_status := ReservationSettled, cr_settled := Some now\<rparr>"
  have c: "charged s (?f r) = charged s r" by (simp add: charged_def)
  note sum = sum_list_sql_update[OF keys mem(1), of ?P]
  show "reserved_in s (RecordSettlement episodeID a now K) = reserved_in s K - (if charged s r then cr_reserved r else 0)"
    using sum[where f = ?f and w = "\<lambda>r. if charged s r \<and> cr_status r = ReservationReserved then cr_reserved r else 0"] mem(2) r(2)
    by (simp add: reserved_in_def RecordSettlement_def)
  show "spent_in s (RecordSettlement episodeID a now K) = spent_in s K + (if charged s r then a else 0)"
    using sum[where f = ?f and w = "\<lambda>r. if charged s r \<and> cr_status r = ReservationSettled then cr_actual r else 0"] mem(2) r(2) c
    by (simp add: spent_in_def RecordSettlement_def)
qed

lemma RecordSettlement_sums:
  assumes "cost_inv K" and "LoadReservation episodeID K = Some r" "cr_status r = ReservationReserved"
  shows "outstanding (RecordSettlement episodeID a now K) = outstanding K - cr_reserved r"
    and "settled_total (RecordSettlement episodeID a now K) = settled_total K + a"
  using RecordSettlement_scopes[OF assms, of GlobalScope] by (simp_all add: global_sums charged_def)

lemma Settle_balanced:
  assumes ok: "Settle episodeID actual now K = Inr K'" and inv: "cost_inv K" and bal: "balanced s K"
  shows "balanced s K'"
  using ok
proof (cases rule: Settle_Inr)
  case (applied r K1)
  let ?M = "RecordSettlement episodeID (Micro actual) now K"
  note g = settleLimit_Inr[OF applied(4)] and t = settleLimit_Inr[OF applied(5)]
  note sums = RecordSettlement_scopes[OF inv applied(1,2), of s "Micro actual" now]
  have lims: "k_limits ?M = k_limits K" by (simp add: RecordSettlement_def)
  have reservations: "k_reservations K' = k_reservations ?M" by (simp add: t(1) g(1))
  have "map cl_scope (k_limits K') = map cl_scope (k_limits K)" by (simp add: t(2) g(2) lims)
  then have "LimitExists s K'" using bal unfolding balanced_def LimitExists_iff by (metis set_map)
  moreover have "cl_reserved x = reserved_in s K' \<and> cl_spent x = spent_in s K'" if x: "x \<in> set (k_limits K')" "cl_scope x = s" for x
  proof -
    obtain y where y: "y \<in> set (k_limits K)" "cl_scope y = s"
      and xy: "cl_reserved x = (if charged s r then max 0 (cl_reserved y - cr_reserved r) else cl_reserved y)"
        "cl_spent x = cl_spent y + (if charged s r then Micro actual else 0)"
      using x by (auto simp: t(2) g(2) lims set_sql_update charged_def split: if_splits)
    have "cl_reserved y = reserved_in s K" "cl_spent y = spent_in s K"
      using bal y by (auto simp: balanced_def)
    moreover have "charged s r \<Longrightarrow> cr_reserved r \<le> reserved_in s K"
      using reserved_covers[OF inv _ applied(2)] find_SomeD[OF applied(1)[unfolded LoadReservation_def]] by auto
    ultimately show ?thesis
      using xy sums by (auto simp: reserved_in_def spent_in_def reservations)
  qed
  ultimately show ?thesis by (simp add: balanced_def)
qed (use bal in simp)

lemma Settle_inv:
  assumes ok: "Settle episodeID actual now K = Inr K'" and inv: "cost_inv K"
  shows "cost_inv K'"
  using ok
proof (cases rule: Settle_Inr)
  case (applied r K1)
  let ?M = "RecordSettlement episodeID (Micro actual) now K"
  note g = settleLimit_Inr[OF applied(4)] and t = settleLimit_Inr[OF applied(5)]
  have lims: "k_limits ?M = k_limits K" by (simp add: RecordSettlement_def)
  have reservations: "k_reservations K' = k_reservations ?M" by (simp add: t(1) g(1))
  have "map cl_scope (k_limits K') = map cl_scope (k_limits K)" by (simp add: t(2) g(2) lims)
  moreover have "balanced GlobalScope K'" using Settle_balanced[OF ok inv cost_inv_balanced[OF inv]] .
  moreover have "map cr_episode (k_reservations ?M) = map cr_episode (k_reservations K)"
    by (simp add: RecordSettlement_def map_sql_update)
  moreover have "\<forall>x \<in> set (k_reservations ?M). 0 \<le> cr_reserved x \<and> 0 \<le> cr_actual x"
    using inv Micro_nonneg[OF applied(3)] by (simp add: RecordSettlement_def cost_inv_def)
  ultimately show ?thesis
    using inv by (simp add: cost_inv_def reservations balanced_def global_sums)
qed (use inv in simp)

lemma SetLimit_Inr:
  assumes "SetLimit s tenantID m kill now K = Inr K'"
  shows "k_reservations K' = k_reservations K"
    and "LimitExists s K \<Longrightarrow> k_limits K' = sql_update (\<lambda>r. cl_scope r = s)
      (\<lambda>r. r\<lparr>cl_tenant := nullif_empty tenantID, cl_max := Micro m, cl_kill := kill, cl_updated := now\<rparr>) (k_limits K)"
    and "\<not> LimitExists s K \<Longrightarrow> \<exists>row. cl_scope row = s \<and> cl_reserved row = 0 \<and> cl_spent row = 0 \<and> k_limits K' = k_limits K @ [row]"
  using assms by (auto simp: SetLimit_def bind_res_Inr_iff WriteLimit_def Let_def split: if_splits)

lemma SetLimit_inv:
  assumes ok: "SetLimit s tenantID m kill now K = Inr K'" and inv: "cost_inv K"
  shows "cost_inv K'"
proof (cases "LimitExists s K")
  case True
  note lims = SetLimit_Inr(2)[OF ok True] and res = SetLimit_Inr(1)[OF ok]
  have scopes: "map cl_scope (k_limits K') = map cl_scope (k_limits K)"
    by (simp add: lims map_sql_update)
  then have "LimitExists GlobalScope K'"
    using inv unfolding cost_inv_def LimitExists_iff by (metis set_map)
  then show ?thesis
    using inv scopes by (simp add: cost_inv_def res outstanding_def settled_total_def lims)
next
  case False
  then obtain row where row: "cl_scope row = s" "k_limits K' = k_limits K @ [row]"
    using SetLimit_Inr(3)[OF ok] by blast
  have "s \<noteq> GlobalScope" "s \<notin> cl_scope ` set (k_limits K)"
    using False inv by (auto simp: cost_inv_def LimitExists_iff)
  with inv row show ?thesis
    by (auto simp: cost_inv_def SetLimit_Inr(1)[OF ok] outstanding_def settled_total_def LimitExists_iff)
qed

lemma SetLimit_balanced:
  assumes ok: "SetLimit s tenantID m kill now K = Inr K'" and bal: "balanced scope K"
  shows "balanced scope K'"
proof (cases "LimitExists s K")
  case True
  note lims = SetLimit_Inr(2)[OF ok True] and res = SetLimit_Inr(1)[OF ok]
  have "map cl_scope (k_limits K') = map cl_scope (k_limits K)" by (simp add: lims map_sql_update)
  then have "LimitExists scope K'" using bal unfolding balanced_def LimitExists_iff by (metis set_map)
  then show ?thesis using bal by (simp add: balanced_def res reserved_in_def spent_in_def lims)
next
  case False
  then obtain row where row: "cl_scope row = s" "k_limits K' = k_limits K @ [row]"
    using SetLimit_Inr(3)[OF ok] by blast
  have "s \<noteq> scope" using False bal by (auto simp: balanced_def)
  with bal row show ?thesis
    by (auto simp: balanced_def SetLimit_Inr(1)[OF ok] reserved_in_def spent_in_def LimitExists_iff)
qed

lemma cost_reachable_inv: "cost_reachable K \<Longrightarrow> cost_inv K"
proof (induction rule: cost_reachable.induct)
  case (step K K')
  from step(2,3) show ?case
    by (cases rule: cost_step.cases) (auto intro: Reserve_inv Settle_inv SetLimit_inv)
qed (simp add: cost_inv_def initial_costs_def LimitExists_iff outstanding_def settled_total_def)

section \<open>The limit of a tenant\<close>

lemma cost_steps_inv: "cost_step\<^sup>*\<^sup>* K K' \<Longrightarrow> cost_inv K \<Longrightarrow> cost_inv K'"
proof (induction rule: rtranclp_induct)
  case (step K1 K2)
  from step(2,3,4) show ?case by (cases rule: cost_step.cases) (auto intro: Reserve_inv Settle_inv SetLimit_inv)
qed

lemma cost_steps_balanced: "cost_step\<^sup>*\<^sup>* K K' \<Longrightarrow> cost_inv K \<Longrightarrow> balanced s K \<Longrightarrow> balanced s K'"
proof (induction rule: rtranclp_induct)
  case (step K1 K2)
  note inv = cost_steps_inv[OF step(1,4)] and bal = step(3)[OF step(4,5)]
  from step(2) show ?case
  proof (cases rule: cost_step.cases)
    case (reserve episodeID tenantID amount now)
    then show ?thesis using Reserve_balanced[OF reserve _ bal] inv by (simp add: cost_inv_def)
  qed (auto intro: Settle_balanced[OF _ inv bal] SetLimit_balanced[OF _ bal])
qed

text \<open>Counters move only with a reservation of their scope, so a limit is clean until its tenant reserves.\<close>

definition clean :: "string \<Rightarrow> costs \<Rightarrow> bool" where
  "clean s K \<longleftrightarrow> (\<forall>r \<in> set (k_reservations K). \<not> charged s r)"

lemma cost_step_clean:
  assumes "cost_step K K'" and "cost_inv K"
  shows "clean s K' \<Longrightarrow> clean s K"
    and "clean s K' \<Longrightarrow> x \<in> set (k_limits K') \<Longrightarrow> cl_scope x = s \<Longrightarrow>
      cl_reserved x = 0 \<and> cl_spent x = 0 \<or> (\<exists>y \<in> set (k_limits K). cl_scope y = s \<and> cl_reserved x = cl_reserved y \<and> cl_spent x = cl_spent y)"
proof -
  have "(clean s K' \<longrightarrow> clean s K) \<and> (clean s K' \<longrightarrow> (\<forall>x \<in> set (k_limits K'). cl_scope x = s \<longrightarrow>
      cl_reserved x = 0 \<and> cl_spent x = 0 \<or> (\<exists>y \<in> set (k_limits K). cl_scope y = s \<and> cl_reserved x = cl_reserved y \<and> cl_spent x = cl_spent y)))"
    using assms(1)
  proof (cases rule: cost_step.cases)
    case (reserve episodeID tenantID amount now)
    then show ?thesis
    proof (rule Reserve_Inr)
      fix K1 K2
      assume K1: "InsertReservation episodeID tenantID (Micro amount) now K = Inr K1"
        and K2: "reserveLimit GlobalScope amount now K1 = Inr K2" and K3: "reserveLimit (TenantScope tenantID) amount now K2 = Inr K'"
      from K1 obtain row where row: "K1 = K\<lparr>k_reservations := k_reservations K @ [row]\<rparr>" "cr_tenant row = tenantID"
        by (rule InsertReservation_Inr)
      have d1: "distinct (map cl_scope (k_limits K1))" using assms(2) row(1) by (simp add: cost_inv_def)
      note g = reserveLimit_Inr[OF K2 d1]
      have d2: "distinct (map cl_scope (k_limits K2))" using d1 by (simp add: g(2))
      note t = reserveLimit_Inr[OF K3 d2]
      have "clean s K' \<longleftrightarrow> clean s K \<and> \<not> charged s row" by (auto simp: clean_def t(1) g(1) row(1))
      then show ?thesis by (auto simp: t(2) g(2) row charged_def set_sql_update split: if_splits)
    qed
  next
    case (settle episodeID actual now)
    then show ?thesis
    proof (cases rule: Settle_Inr)
      case (applied r K1)
      note g = settleLimit_Inr[OF applied(4)] and t = settleLimit_Inr[OF applied(5)]
      have res: "k_reservations K' = k_reservations (RecordSettlement episodeID (Micro actual) now K)" by (simp add: t(1) g(1))
      have "clean s K' \<longleftrightarrow> clean s K" unfolding clean_def res RecordSettlement_def by (auto simp: charged_def)
      moreover have "r \<in> set (k_reservations K)" using find_SomeD[OF applied(1)[unfolded LoadReservation_def]] by simp
      ultimately show ?thesis by (auto simp: t(2) g(2) RecordSettlement_def clean_def charged_def set_sql_update split: if_splits)
    qed auto
  next
    case (set_limit scopeKey tenantID maxMicro killSwitch now)
    have c: "clean s K' \<longleftrightarrow> clean s K" by (simp add: clean_def SetLimit_Inr(1)[OF set_limit])
    show ?thesis
    proof (cases "LimitExists scopeKey K")
      case True
      then show ?thesis using c by (auto simp: SetLimit_Inr(2)[OF set_limit True] set_sql_update split: if_splits)
    next
      case False
      then show ?thesis using c SetLimit_Inr(3)[OF set_limit False] by auto
    qed
  qed
  then show "clean s K' \<Longrightarrow> clean s K"
    and "clean s K' \<Longrightarrow> x \<in> set (k_limits K') \<Longrightarrow> cl_scope x = s \<Longrightarrow>
      cl_reserved x = 0 \<and> cl_spent x = 0 \<or> (\<exists>y \<in> set (k_limits K). cl_scope y = s \<and> cl_reserved x = cl_reserved y \<and> cl_spent x = cl_spent y)"
    by blast+
qed

lemma clean_counters:
  "cost_reachable K \<Longrightarrow> clean s K \<Longrightarrow> x \<in> set (k_limits K) \<Longrightarrow> cl_scope x = s \<Longrightarrow> cl_reserved x = 0 \<and> cl_spent x = 0"
proof (induction arbitrary: x rule: cost_reachable.induct)
  case (step K K')
  note c = cost_step_clean[OF step(2) cost_reachable_inv[OF step(1)]]
  from c(2)[OF step(4-6)] step(3)[OF c(1)[OF step(4)]] show ?case by auto
qed (simp add: initial_costs_def)

lemma clean_balanced:
  assumes "cost_reachable K" and "LimitExists s K" and "clean s K"
  shows "balanced s K"
proof -
  have "reserved_in s K = 0" "spent_in s K = 0"
    using assms(3) by (auto simp: reserved_in_def spent_in_def clean_def intro!: sum_list_0 cong: map_cong)
  with clean_counters[OF assms(1,3)] assms(2) show ?thesis by (simp add: balanced_def)
qed

section \<open>What later steps keep\<close>

text \<open>Every step but an operator's write that turns the global kill switch off.\<close>

inductive unreset_step :: "costs \<Rightarrow> costs \<Rightarrow> bool" where
  reserve: "Reserve episodeID tenantID amount now K = Inr K' \<Longrightarrow> unreset_step K K'"
| settle: "Settle episodeID actual now K = Inr K' \<Longrightarrow> unreset_step K K'"
| set_limit: "SetLimit scopeKey tenantID maxMicro killSwitch now K = Inr K' \<Longrightarrow> scopeKey \<noteq> GlobalScope \<or> killSwitch \<Longrightarrow> unreset_step K K'"

definition global_killed :: "costs \<Rightarrow> bool" where
  "global_killed K \<longleftrightarrow> (\<exists>l \<in> set (k_limits K). cl_scope l = GlobalScope \<and> cl_kill l)"

lemma unreset_cost_step: "unreset_step K K' \<Longrightarrow> cost_step K K'"
  by (induction rule: unreset_step.induct) (auto intro: cost_step.intros)

lemma killed_refuses:
  assumes "cost_inv K" and "global_killed K"
  shows "\<exists>e. Reserve ep t a n K = Inl e"
proof (cases "Reserve ep t a n K")
  case (Inr K')
  then obtain N1 N2 where N: "InsertReservation ep t (Micro a) n K = Inr N1" "reserveLimit GlobalScope a n N1 = Inr N2"
    by (rule Reserve_Inr)
  obtain l where "l \<in> set (k_limits K)" "cl_scope l = GlobalScope" "cl_kill l" using assms(2) by (auto simp: global_killed_def)
  moreover have "k_limits N1 = k_limits K" using N(1) by (auto elim: InsertReservation_Inr)
  ultimately show ?thesis using reserveLimit_Inr(3)[OF N(2), of l] assms(1) by (simp add: cost_inv_def)
qed simp

lemma settle_keeps_kill:
  assumes "settleLimit s x a now K = Inr K'" and "global_killed K"
  shows "global_killed K'"
proof -
  obtain l where l: "l \<in> set (k_limits K)" "cl_scope l = GlobalScope" "cl_kill l" using assms(2) by (auto simp: global_killed_def)
  let ?f = "\<lambda>r. r\<lparr>cl_reserved := max 0 (cl_reserved r - x), cl_spent := cl_spent r + Micro a,
    cl_kill := (if 0 < cl_max r \<and> cl_spent r + Micro a \<ge> cl_max r then True else cl_kill r), cl_updated := now\<rparr>"
  have "(if cl_scope l = s then ?f l else l) \<in> set (k_limits K')"
    unfolding settleLimit_Inr(2)[OF assms(1)] set_sql_update using l(1) by (intro image_eqI[of _ _ l]) auto
  moreover have "cl_scope (if cl_scope l = s then ?f l else l) = GlobalScope" "cl_kill (if cl_scope l = s then ?f l else l)"
    using l(2,3) by simp_all
  ultimately show ?thesis unfolding global_killed_def by blast
qed

lemma unreset_keeps_kill:
  assumes "unreset_step K K'" and "cost_inv K" and "global_killed K"
  shows "global_killed K'"
  using assms(1)
proof (cases rule: unreset_step.cases)
  case (reserve episodeID tenantID amount now)
  then show ?thesis using killed_refuses[OF assms(2,3), of episodeID tenantID amount now] by auto
next
  case (settle episodeID actual now)
  then show ?thesis
  proof (cases rule: Settle_Inr)
    case (applied r K1)
    have "global_killed (RecordSettlement episodeID (Micro actual) now K)"
      using assms(3) by (simp add: global_killed_def RecordSettlement_def)
    then show ?thesis using settle_keeps_kill applied(4,5) by blast
  qed (use assms(3) in simp)
next
  case (set_limit scopeKey tenantID maxMicro killSwitch now)
  then show ?thesis
  proof (cases "LimitExists scopeKey K")
    case True
    let ?f = "\<lambda>r. r\<lparr>cl_tenant := nullif_empty tenantID, cl_max := Micro maxMicro, cl_kill := killSwitch, cl_updated := now\<rparr>"
    obtain l where l: "l \<in> set (k_limits K)" "cl_scope l = GlobalScope" "cl_kill l" using assms(3) by (auto simp: global_killed_def)
    then have "(if cl_scope l = scopeKey then ?f l else l) \<in> set (k_limits K')"
      unfolding SetLimit_Inr(2)[OF set_limit(1) True] set_sql_update by (intro image_eqI[of _ _ l]) auto
    moreover have "cl_scope (if cl_scope l = scopeKey then ?f l else l) = GlobalScope" "cl_kill (if cl_scope l = scopeKey then ?f l else l)"
      using l set_limit(2) by auto
    ultimately show ?thesis unfolding global_killed_def by blast
  next
    case False
    then show ?thesis using assms(3) SetLimit_Inr(3)[OF set_limit(1) False] by (auto simp: global_killed_def)
  qed
qed

lemma unreset_steps_refuse:
  assumes "unreset_step\<^sup>*\<^sup>* K K'" and "cost_inv K" and "global_killed K"
  shows "cost_inv K' \<and> global_killed K'"
  using assms
proof (induction rule: rtranclp_induct)
  case (step K1 K2)
  then show ?case using cost_steps_inv[of K1 K2] unreset_cost_step[OF step(2)] unreset_keeps_kill[OF step(2)] by blast
qed simp

lemma settled_kept:
  assumes "cost_step K K'" and "LoadReservation e K = Some r" and "cr_status r = ReservationSettled"
  shows "LoadReservation e K' = Some r"
  using assms(1)
proof (cases rule: cost_step.cases)
  case (reserve episodeID tenantID amount now)
  then obtain K1 K2 where K: "InsertReservation episodeID tenantID (Micro amount) now K = Inr K1"
    "reserveLimit GlobalScope amount now K1 = Inr K2" "reserveLimit (TenantScope tenantID) amount now K2 = Inr K'"
    by (rule Reserve_Inr)
  from K(1) obtain row where "k_reservations K1 = k_reservations K @ [row]" by (rule InsertReservation_Inr) simp
  moreover have "k_reservations K' = k_reservations K1"
    using K(2,3) by (auto simp: reserveLimit_def ReserveAvailable_def bind_res_Inr_iff update_limits_Inr split: if_splits)
  moreover have "find P (xs @ [y]) = Some x" if "find P xs = Some x" for P xs and x y :: reservation_row
    using that by (induction xs) (auto split: if_splits)
  ultimately show ?thesis using assms(2) by (simp add: LoadReservation_def)
next
  case (settle episodeID actual now)
  then show ?thesis
  proof (cases rule: Settle_Inr)
    case (applied s K1)
    have "k_reservations K' = k_reservations (RecordSettlement episodeID (Micro actual) now K)"
      using settleLimit_Inr(1)[OF applied(4)] settleLimit_Inr(1)[OF applied(5)] by simp
    then show ?thesis using assms(2,3) by (simp add: LoadReservation_def RecordSettlement_def find_sql_update)
  qed (use assms(2) in simp)
next
  case (set_limit scopeKey tenantID maxMicro killSwitch now)
  then show ?thesis using assms(2) SetLimit_Inr(1)[OF set_limit] by (simp add: LoadReservation_def)
qed

lemma settled_kept_later:
  "cost_step\<^sup>*\<^sup>* K K' \<Longrightarrow> LoadReservation e K = Some r \<Longrightarrow> cr_status r = ReservationSettled \<Longrightarrow> LoadReservation e K' = Some r"
  by (induction rule: rtranclp_induct) (auto dest: settled_kept)

section \<open>Properties\<close>

text \<open>
  Claim C20. In every reachable state of the cost ledger the global limit's reserved counter is exactly
  the sum of the outstanding reservations and its spent counter exactly the sum of the settled actual
  costs: no reservation is lost or released twice.
\<close>

theorem cost_books_balance:
  assumes "cost_reachable K" and "g \<in> set (k_limits K)" and "cl_scope g = GlobalScope"
  shows "cl_reserved g = outstanding K \<and> cl_spent g = settled_total K"
  using cost_reachable_inv[OF assms(1)] assms(2,3) by (simp add: cost_inv_def)

text \<open>A sample run: a ceiling, a reservation under it, and its settlement.\<close>

definition sample_costs :: costs where
  "sample_costs = (case SetLimit GlobalScope '''' 100 False ''n'' (initial_costs ''n'') of Inr K \<Rightarrow> K | Inl _ \<Rightarrow> initial_costs ''n'')"

definition sample_reserved :: costs where
  "sample_reserved = (case Reserve ''e1'' ''t'' 60 ''n'' sample_costs of Inr K \<Rightarrow> K | Inl _ \<Rightarrow> initial_costs ''n'')"

definition sample_settled :: costs where
  "sample_settled = (case Settle ''e1'' 100 ''n'' sample_reserved of Inr K \<Rightarrow> K | Inl _ \<Rightarrow> initial_costs ''n'')"

lemma sample_cost_runs:
  "SetLimit GlobalScope '''' 100 False ''n'' (initial_costs ''n'') = Inr sample_costs"
  "Reserve ''e1'' ''t'' 60 ''n'' sample_costs = Inr sample_reserved"
  "Settle ''e1'' 100 ''n'' sample_reserved = Inr sample_settled"
  by code_simp+

lemma sample_cost_reachable: "cost_reachable sample_costs" "cost_reachable sample_reserved" "cost_reachable sample_settled"
proof -
  show 1: "cost_reachable sample_costs"
    using sample_cost_runs(1) by (rule cost_reachable.step[OF cost_reachable.initial cost_step.set_limit])
  show 2: "cost_reachable sample_reserved"
    using sample_cost_runs(2) by (rule cost_reachable.step[OF 1 cost_step.reserve])
  show "cost_reachable sample_settled"
    using sample_cost_runs(3) by (rule cost_reachable.step[OF 2 cost_step.settle])
qed

theorem cost_books_balance_witness:
  "hd (k_limits sample_reserved) \<in> set (k_limits sample_reserved) \<and> cl_reserved (hd (k_limits sample_reserved)) = outstanding sample_reserved
   \<and> outstanding sample_reserved = 60"
proof -
  have "hd (k_limits sample_reserved) \<in> set (k_limits sample_reserved)"
    "cl_scope (hd (k_limits sample_reserved)) = GlobalScope" "outstanding sample_reserved = 60"
    by code_simp+
  with cost_books_balance[OF sample_cost_reachable(2)] show ?thesis by blast
qed

lemma tenant_total:
  "(\<Sum>r\<leftarrow>k_reservations K. if cr_tenant r = t then
      (case cr_status r of ReservationReserved \<Rightarrow> cr_reserved r | ReservationSettled \<Rightarrow> cr_actual r | ReservationRejected \<Rightarrow> 0) else 0)
   = spent_in (TenantScope t) K + reserved_in (TenantScope t) K"
proof -
  have "(\<Sum>r\<leftarrow>rs. if cr_tenant r = t then
      (case cr_status r of ReservationReserved \<Rightarrow> cr_reserved r | ReservationSettled \<Rightarrow> cr_actual r | ReservationRejected \<Rightarrow> 0) else 0)
    = (\<Sum>r\<leftarrow>rs. if charged (TenantScope t) r \<and> cr_status r = ReservationSettled then cr_actual r else 0)
      + (\<Sum>r\<leftarrow>rs. if charged (TenantScope t) r \<and> cr_status r = ReservationReserved then cr_reserved r else 0)" for rs
    by (induction rs) (auto simp: charged_def split: reservation_status.splits)
  then show ?thesis by (simp add: reserved_in_def spent_in_def)
qed

text \<open>
  Claim C19. A granted reservation respects both ceilings: when it succeeds in a reachable state, no kill
  switch of the global or tenant limit was engaged. With a global ceiling set, everything spent plus
  everything outstanding, the new reservation included, stays within it. With a tenant ceiling set,
  everything that the tenant spent plus everything it has outstanding stays within it, provided the
  tenant's limit was there before its first reservation; a limit that is set later does not count
  what was reserved before.
\<close>

theorem reservation_within_ceiling:
  assumes "cost_reachable K" and "Reserve episodeID tenantID amount now K = Inr K'"
  shows "(\<forall>l \<in> set (k_limits K). cl_scope l \<in> {GlobalScope, TenantScope tenantID} \<longrightarrow> \<not> cl_kill l)
    \<and> (\<forall>g \<in> set (k_limits K'). cl_scope g = GlobalScope \<and> cl_max g \<noteq> 0 \<longrightarrow> settled_total K' + outstanding K' \<le> cl_max g)
    \<and> (\<forall>K0. cost_reachable K0 \<and> LimitExists (TenantScope tenantID) K0 \<and> (\<forall>r \<in> set (k_reservations K0). cr_tenant r \<noteq> tenantID)
          \<and> cost_step\<^sup>*\<^sup>* K0 K \<longrightarrow>
        (\<forall>l \<in> set (k_limits K'). cl_scope l = TenantScope tenantID \<and> cl_max l \<noteq> 0 \<longrightarrow>
           (\<Sum>r\<leftarrow>k_reservations K'. if cr_tenant r = tenantID then
              (case cr_status r of ReservationReserved \<Rightarrow> cr_reserved r | ReservationSettled \<Rightarrow> cr_actual r | ReservationRejected \<Rightarrow> 0) else 0) \<le> cl_max l))"
  using assms(2)
proof (rule Reserve_Inr)
  fix K1 K2
  assume K1: "InsertReservation episodeID tenantID (Micro amount) now K = Inr K1"
    and K2: "reserveLimit GlobalScope amount now K1 = Inr K2"
    and K3: "reserveLimit (TenantScope tenantID) amount now K2 = Inr K'"
  note inv = cost_reachable_inv[OF assms(1)] and inv' = Reserve_inv[OF assms(2) cost_reachable_inv[OF assms(1)]]
  have lim1: "k_limits K1 = k_limits K"
    using K1 by (auto elim: InsertReservation_Inr)
  then have d1: "distinct (map cl_scope (k_limits K1))"
    using inv by (simp add: cost_inv_def)
  note g = reserveLimit_Inr[OF K2 d1]
  have d2: "distinct (map cl_scope (k_limits K2))"
    using d1 by (simp add: g(2))
  note t = reserveLimit_Inr[OF K3 d2]
  have kills: "\<not> cl_kill l" if "l \<in> set (k_limits K)" "cl_scope l \<in> {GlobalScope, TenantScope tenantID}" for l
  proof (cases "cl_scope l = GlobalScope")
    case True
    then show ?thesis using g(3)[of l] that by (simp add: lim1)
  next
    case False
    then have "l \<in> set (k_limits K2)"
      using that(1) by (auto simp: g(2) set_sql_update lim1)
    then show ?thesis using t(3)[of l] that False by simp
  qed
  have global: "settled_total K' + outstanding K' \<le> cl_max x"
    if x: "x \<in> set (k_limits K')" "cl_scope x = GlobalScope" "cl_max x \<noteq> 0" for x
  proof -
    obtain y where "y \<in> set (k_limits K)" "cl_scope y = GlobalScope"
      "x = y\<lparr>cl_reserved := cl_reserved y + Micro amount, cl_updated := now\<rparr>"
      using x(1,2) by (auto simp: t(2) g(2) lim1 set_sql_update split: if_splits)
    then have "cl_spent x + cl_reserved x \<le> cl_max x"
      using g(3)[of y] x(3) by (simp add: lim1 add.assoc)
    then show ?thesis
      using inv' x(1,2) by (simp add: cost_inv_def)
  qed
  have tenant: "cl_spent x + cl_reserved x \<le> cl_max x"
    if x: "x \<in> set (k_limits K')" "cl_scope x = TenantScope tenantID" "cl_max x \<noteq> 0" for x
  proof -
    obtain y where "y \<in> set (k_limits K2)" "cl_scope y = TenantScope tenantID"
      "x = y\<lparr>cl_reserved := cl_reserved y + Micro amount, cl_updated := now\<rparr>"
      using x(1,2) by (auto simp: t(2) set_sql_update split: if_splits)
    then show ?thesis
      using t(3)[of y] x(3) by (simp add: add.assoc)
  qed
  have total: "(\<Sum>r\<leftarrow>k_reservations K'. if cr_tenant r = tenantID then
      (case cr_status r of ReservationReserved \<Rightarrow> cr_reserved r | ReservationSettled \<Rightarrow> cr_actual r | ReservationRejected \<Rightarrow> 0) else 0) \<le> cl_max x"
    if K0: "cost_reachable K0" "LimitExists (TenantScope tenantID) K0" "\<forall>r \<in> set (k_reservations K0). cr_tenant r \<noteq> tenantID" "cost_step\<^sup>*\<^sup>* K0 K"
      and x: "x \<in> set (k_limits K')" "cl_scope x = TenantScope tenantID" "cl_max x \<noteq> 0" for K0 x
  proof -
    have "clean (TenantScope tenantID) K0" using K0(3) by (auto simp: clean_def charged_def)
    then have "balanced (TenantScope tenantID) K0" using clean_balanced[OF K0(1,2)] by blast
    then have "balanced (TenantScope tenantID) K" using cost_steps_balanced[OF K0(4) cost_reachable_inv[OF K0(1)]] by blast
    then have "balanced (TenantScope tenantID) K'" using Reserve_balanced[OF assms(2)] inv by (simp add: cost_inv_def)
    then show ?thesis using tenant[OF x] x(1,2) tenant_total[of tenantID K'] by (simp add: balanced_def)
  qed
  show ?thesis
    using kills global total by blast
qed


text \<open>A run with a limit of the tenant from the start, and one where the limit comes after a reservation.\<close>

definition run_costs :: "cost_error + costs \<Rightarrow> costs" where
  "run_costs r = (case r of Inr K \<Rightarrow> K | Inl _ \<Rightarrow> initial_costs ''n'')"

definition sample_limited :: costs where
  "sample_limited = run_costs (SetLimit (TenantScope ''t'') ''t'' 50 False ''n'' sample_costs)"

definition late_reserved :: costs where
  "late_reserved = run_costs (Reserve ''e1'' ''t'' 60 ''n'' (initial_costs ''n''))"

definition late_limited :: costs where
  "late_limited = run_costs (SetLimit (TenantScope ''t'') ''t'' 50 False ''n'' late_reserved)"

theorem reservation_within_ceiling_witness:
  "settled_total sample_reserved + outstanding sample_reserved \<le> 100
   \<and> (\<exists>K. Reserve ''e1'' ''t'' 40 ''n'' sample_limited = Inr K \<and> (\<Sum>r\<leftarrow>k_reservations K. cr_reserved r) \<le> 50)
   \<and> (\<exists>e. Reserve ''e1'' ''t'' 51 ''n'' sample_limited = Inl e)
   \<and> (\<exists>K. Reserve ''e2'' ''t'' 40 ''n'' late_limited = Inr K \<and> (\<Sum>r\<leftarrow>k_reservations K. cr_reserved r) = 100)"
proof (intro conjI)
  have "hd (k_limits sample_reserved) \<in> set (k_limits sample_reserved)"
    "cl_scope (hd (k_limits sample_reserved)) = GlobalScope" "cl_max (hd (k_limits sample_reserved)) = 100"
    by code_simp+
  with reservation_within_ceiling[OF sample_cost_reachable(1) sample_cost_runs(2)]
  show "settled_total sample_reserved + outstanding sample_reserved \<le> 100" by force
  have set: "SetLimit (TenantScope ''t'') ''t'' 50 False ''n'' sample_costs = Inr sample_limited" by code_simp
  have reach: "cost_reachable sample_limited"
    using set by (rule cost_reachable.step[OF sample_cost_reachable(1) cost_step.set_limit])
  obtain K where K: "Reserve ''e1'' ''t'' 40 ''n'' sample_limited = Inr K" "k_reservations K = [\<lparr>cr_episode = ''e1'', cr_tenant = ''t'',
      cr_reserved = 40, cr_actual = 0, cr_status = ReservationReserved, cr_created = ''n'', cr_settled = None\<rparr>]"
    "\<exists>l \<in> set (k_limits K). cl_scope l = TenantScope ''t'' \<and> cl_max l = 50"
  proof -
    define K where "K = run_costs (Reserve ''e1'' ''t'' 40 ''n'' sample_limited)"
    have "Reserve ''e1'' ''t'' 40 ''n'' sample_limited = Inr K" unfolding K_def by code_simp
    moreover have "k_reservations K = [\<lparr>cr_episode = ''e1'', cr_tenant = ''t'', cr_reserved = 40, cr_actual = 0,
        cr_status = ReservationReserved, cr_created = ''n'', cr_settled = None\<rparr>]" unfolding K_def by code_simp
    moreover have "\<exists>l \<in> set (k_limits K). cl_scope l = TenantScope ''t'' \<and> cl_max l = 50" unfolding K_def by code_simp
    ultimately show thesis by (rule that)
  qed
  have "LimitExists (TenantScope ''t'') sample_limited" "\<forall>r \<in> set (k_reservations sample_limited). cr_tenant r \<noteq> ''t''" by code_simp+
  with reservation_within_ceiling[OF reach K(1)] reach K(2,3)
  show "\<exists>K. Reserve ''e1'' ''t'' 40 ''n'' sample_limited = Inr K \<and> (\<Sum>r\<leftarrow>k_reservations K. cr_reserved r) \<le> 50"
    using K(1) by (intro exI[of _ K]) fastforce
  have "isl (Reserve ''e1'' ''t'' 51 ''n'' sample_limited)" by code_simp
  then show "\<exists>e. Reserve ''e1'' ''t'' 51 ''n'' sample_limited = Inl e" by (auto simp: isl_def)
  have "case Reserve ''e2'' ''t'' 40 ''n'' late_limited of Inr K \<Rightarrow> (\<Sum>r\<leftarrow>k_reservations K. cr_reserved r) = 100 | Inl _ \<Rightarrow> False" by code_simp
  then show "\<exists>K. Reserve ''e2'' ''t'' 40 ''n'' late_limited = Inr K \<and> (\<Sum>r\<leftarrow>k_reservations K. cr_reserved r) = 100"
    by (auto split: sum.splits)
qed

text \<open>
  Claim C21. A settlement is final and trips the kill switch. In every later state of the ledger, repeating it
  with the same actual cost changes nothing and settling with another actual cost is refused. When it
  reaches the global ceiling, every reservation of every tenant is refused in every later state, however many
  reservations, settlements and changes of limits come between, until an operator writes the global
  limit with the switch off.
\<close>

theorem settlement_final_and_trips_kill_switch:
  assumes "cost_reachable K" and "Settle episodeID actual now K = Inr K'"
  shows "(\<forall>K''. cost_step\<^sup>*\<^sup>* K' K'' \<longrightarrow> Settle episodeID actual now K'' = Inr K''
        \<and> (\<forall>other now'. other \<noteq> actual \<longrightarrow> (\<exists>e. Settle episodeID other now' K'' = Inl e)))
    \<and> ((\<exists>g \<in> set (k_limits K). cl_scope g = GlobalScope \<and> 0 < cl_max g \<and> cl_max g \<le> settled_total K')
        \<and> K' \<noteq> K \<longrightarrow> (\<forall>K'' ep t a n. unreset_step\<^sup>*\<^sup>* K' K'' \<longrightarrow> (\<exists>e. Reserve ep t a n K'' = Inl e)))"
proof -
  note inv = cost_reachable_inv[OF assms(1)] and inv' = Settle_inv[OF assms(2) cost_reachable_inv[OF assms(1)]]
  have check: "CheckSettlement episodeID actual now = Inr ()"
    using assms(2) by (auto simp: Settle_def bind_res_Inr_iff)
  obtain r where r: "LoadReservation episodeID K' = Some r" "cr_status r = ReservationSettled" "cr_actual r = Micro actual"
    using assms(2)
  proof (cases rule: Settle_Inr)
    case (applied s K1)
    have "k_reservations K' = k_reservations (RecordSettlement episodeID (Micro actual) now K)"
      using settleLimit_Inr(1)[OF applied(4)] settleLimit_Inr(1)[OF applied(5)] by simp
    then have "LoadReservation episodeID K' = Some (s\<lparr>cr_actual := Micro actual, cr_status := ReservationSettled, cr_settled := Some now\<rparr>)"
      using applied(1,2) find_SomeD[OF applied(1)[unfolded LoadReservation_def]]
      by (simp add: LoadReservation_def RecordSettlement_def find_sql_update)
    then show thesis by (rule that) simp_all
  qed (use that in blast)
  have later: "LoadReservation episodeID K'' = Some r" if "cost_step\<^sup>*\<^sup>* K' K''" for K''
    using settled_kept_later[OF that r(1,2)] .
  have again: "Settle episodeID actual now K'' = Inr K''" if "cost_step\<^sup>*\<^sup>* K' K''" for K''
    using later[OF that] r(2,3) check by (simp add: Settle_def NeedsSettlement_def)
  have other: "\<exists>e. Settle episodeID b now' K'' = Inl e" if "b \<noteq> actual" "cost_step\<^sup>*\<^sup>* K' K''" for b now' K''
  proof -
    have "Micro b \<noteq> Micro actual"
      using that(1) signed_word_eqI[of b actual] by (auto simp: Micro_def)
    then show ?thesis
      using later[OF that(2)] r(2,3) by (cases "CheckSettlement episodeID b now'") (auto simp: Settle_def NeedsSettlement_def)
  qed
  have tripped: "global_killed K'"
    if g: "g \<in> set (k_limits K)" "cl_scope g = GlobalScope" "0 < cl_max g" "cl_max g \<le> settled_total K'" and "K' \<noteq> K" for g
    using assms(2)
  proof (cases rule: Settle_Inr)
    case (applied s K1)
    let ?M = "RecordSettlement episodeID (Micro actual) now K"
    note l1 = settleLimit_Inr(2)[OF applied(4)] and l2 = settleLimit_Inr(2)[OF applied(5)]
    let ?h = "\<lambda>r. r\<lparr>cl_reserved := max 0 (cl_reserved r - cr_reserved s), cl_spent := cl_spent r + Micro actual,
        cl_kill := (if 0 < cl_max r \<and> cl_spent r + Micro actual \<ge> cl_max r then True else cl_kill r), cl_updated := now\<rparr>"
    have lims: "k_limits ?M = k_limits K" by (simp add: RecordSettlement_def)
    have total: "settled_total K' = cl_spent g + Micro actual"
      using RecordSettlement_sums(2)[OF inv applied(1,2), of "Micro actual" now] inv g(1,2)
        settleLimit_Inr(1)[OF applied(4)] settleLimit_Inr(1)[OF applied(5)]
      by (simp add: settled_total_def cost_inv_def)
    define l1' where "l1' = ?h g"
    have l1': "l1' \<in> set (k_limits K1)"
      unfolding l1 set_sql_update lims l1'_def by (rule image_eqI[of _ _ g]) (simp_all add: g)
    moreover have l1'_kill: "cl_scope l1' = GlobalScope" "cl_kill l1'"
      using g(2,3,4) total by (simp_all add: l1'_def)
    ultimately have "l1' \<in> set (k_limits K')"
      unfolding l2 set_sql_update by (auto intro!: image_eqI[of _ _ l1'])
    then show ?thesis
      using l1'_kill unfolding global_killed_def by blast
  qed (use that(5) in blast)
  have refused: "\<exists>e. Reserve ep t a n K'' = Inl e" if "global_killed K'" "unreset_step\<^sup>*\<^sup>* K' K''" for K'' ep t a n
    using unreset_steps_refuse[OF that(2) inv' that(1)] killed_refuses by blast
  show ?thesis
    using again other tripped refused by blast
qed

theorem settlement_final_and_trips_kill_switch_witness:
  "\<exists>K. SetLimit (TenantScope ''t'') ''t'' 0 False ''n'' sample_settled = Inr K
     \<and> Settle ''e1'' 100 ''n'' K = Inr K \<and> (\<exists>e. Settle ''e1'' 99 ''n'' K = Inl e) \<and> (\<exists>e. Reserve ''e2'' ''u'' 1 ''n'' K = Inl e)"
proof -
  define K where "K = run_costs (SetLimit (TenantScope ''t'') ''t'' 0 False ''n'' sample_settled)"
  have K: "SetLimit (TenantScope ''t'') ''t'' 0 False ''n'' sample_settled = Inr K" unfolding K_def by code_simp
  have "hd (k_limits sample_reserved) \<in> set (k_limits sample_reserved)"
    "cl_scope (hd (k_limits sample_reserved)) = GlobalScope" "0 < cl_max (hd (k_limits sample_reserved))"
    "cl_max (hd (k_limits sample_reserved)) \<le> settled_total sample_settled" "sample_settled \<noteq> sample_reserved"
    by code_simp+
  moreover have "unreset_step\<^sup>*\<^sup>* sample_settled K" "cost_step\<^sup>*\<^sup>* sample_settled K"
    using unreset_step.set_limit[OF K] cost_step.set_limit[OF K] by auto
  moreover have "(99 :: 64 word) \<noteq> 100" by simp
  ultimately show ?thesis
    using settlement_final_and_trips_kill_switch[OF sample_cost_reachable(2) sample_cost_runs(3)] K by blast
qed

end
