(* ===== verification/Control_Runtime.thy ===== *)
theory Control_Runtime
  imports Control_Cost Episode_Fencing
begin

text \<open>
  Runtime ownership and epoch control (\<open>src/internal/control/internal\<close>: \<open>domain/owner.go\<close>,
  \<open>domain/epoch.go\<close>, \<open>app/owner.go\<close>, \<open>app/epoch.go\<close>, \<open>app/epoch_gates.go\<close>, \<open>store/owner.go\<close>,
  \<open>store/epoch.go\<close>), and the owner check the episode runner hands to the ledger
  (\<open>src/internal/episodes/internal/store/owner.go\<close>).

  The database is the lease row, the epoch control rows, the episode ledger and the cost ledger. A
  clock is read where the code calls \<open>Now\<close>, so an operation that reads it twice takes two times. Lease
  times are compared as stored texts; texts written by \<open>FormatTime\<close> compare as the times they show
  (see the kernel theory), so a readable lease is compared by its time.
\<close>

section \<open>State\<close>

record lease_row =
  lr_epoch :: string
  lr_instance :: string
  lr_acquired :: time
  lr_heartbeat :: time
  lr_until :: stored_time

record epoch_row =
  ec_epoch :: string
  ec_state :: string
  ec_updated :: time

record runtime_db =
  d_owner :: "lease_row option"
  d_epochs :: "epoch_row list"
  d_ledger :: ledger
  d_costs :: costs

datatype control_error =
    ErrRuntimeOwnerBusy | ErrOwnerNotConfigured
  | ErrEpochControlNotConfigured
  | ErrEpochKilled | ErrEpochUnbound | ErrEpochDraining
  | InvalidEpochState string | UnknownEpochState string
  | RecoveryFailed | NoOwnerRow
  | EpochLedgerFailed ledger_error | EpochCostFailed cost_error

record holder =
  h_Epoch :: string
  h_Instance :: string

text \<open>A configured owner; an owner without a database, or a missing one, is \<open>None\<close>.\<close>

record owner_config =
  o_Instance :: string
  o_Lease :: duration

section \<open>The runtime owner lease\<close>

definition CheckHolder :: "holder \<Rightarrow> string \<Rightarrow> string \<Rightarrow> control_error + unit" where
  "CheckHolder recorded epoch inst =
     (if h_Epoch recorded \<noteq> epoch \<or> h_Instance recorded \<noteq> inst then Inl ErrRuntimeOwnerBusy else Inr ())"

definition CheckOwnerMutation :: "int \<Rightarrow> control_error + unit" where
  "CheckOwnerMutation rows = (if rows \<noteq> 1 then Inl ErrRuntimeOwnerBusy else Inr ())"

definition DefaultLease :: duration where
  "DefaultLease = 60 * 1000000000"

definition OrLease :: "duration \<Rightarrow> duration" where
  "OrLease lease = (if lease \<le> 0 then DefaultLease else lease)"

text \<open>\<open>lease_until > now AND stored_time_ok(lease_until)\<close>.\<close>

definition lease_live :: "stored_time \<Rightarrow> time \<Rightarrow> bool" where
  "lease_live until now = (case ParseTime until of None \<Rightarrow> False | Some t \<Rightarrow> now < t)"

definition owned_by :: "string \<Rightarrow> string \<Rightarrow> lease_row \<Rightarrow> bool" where
  "owned_by epoch inst r \<longleftrightarrow> lr_epoch r = epoch \<and> lr_instance r = inst"

definition ClaimLease :: "string \<Rightarrow> string \<Rightarrow> time \<Rightarrow> time \<Rightarrow> runtime_db \<Rightarrow> runtime_db" where
  "ClaimLease epoch inst now until db =
     (case d_owner db of
        None \<Rightarrow> db\<lparr>d_owner := Some \<lparr>lr_epoch = epoch, lr_instance = inst, lr_acquired = now,
                                   lr_heartbeat = now, lr_until = ReadableTime until\<rparr>\<rparr>
      | Some r \<Rightarrow>
          if owned_by epoch inst r \<or> lr_epoch r \<noteq> epoch \<and> \<not> lease_live (lr_until r) now
          then db\<lparr>d_owner := Some \<lparr>lr_epoch = epoch, lr_instance = inst,
                    lr_acquired = (if owned_by epoch inst r then lr_acquired r else now),
                    lr_heartbeat = now, lr_until = ReadableTime until\<rparr>\<rparr>
          else db)"

definition RecordedOwner :: "runtime_db \<Rightarrow> control_error + holder" where
  "RecordedOwner db = (case d_owner db of
     None \<Rightarrow> Inl NoOwnerRow
   | Some r \<Rightarrow> Inr \<lparr>h_Epoch = lr_epoch r, h_Instance = lr_instance r\<rparr>)"

definition RenewLease :: "string \<Rightarrow> string \<Rightarrow> time \<Rightarrow> time \<Rightarrow> runtime_db \<Rightarrow> int \<times> runtime_db" where
  "RenewLease epoch inst now until db = (case d_owner db of
     Some r \<Rightarrow> if owned_by epoch inst r \<and> lease_live (lr_until r) now
              then (1, db\<lparr>d_owner := Some (r\<lparr>lr_heartbeat := now, lr_until := ReadableTime until\<rparr>)\<rparr>)
              else (0, db)
   | None \<Rightarrow> (0, db))"

definition ReleaseLease :: "string \<Rightarrow> string \<Rightarrow> time \<Rightarrow> runtime_db \<Rightarrow> int \<times> runtime_db" where
  "ReleaseLease epoch inst now db = (case d_owner db of
     Some r \<Rightarrow> if owned_by epoch inst r
              then (1, db\<lparr>d_owner := Some (r\<lparr>lr_heartbeat := now, lr_until := ReadableTime now\<rparr>)\<rparr>)
              else (0, db)
   | None \<Rightarrow> (0, db))"

definition HoldsLease :: "string \<Rightarrow> string \<Rightarrow> time \<Rightarrow> runtime_db \<Rightarrow> bool" where
  "HoldsLease epoch inst now db = (case d_owner db of
     Some r \<Rightarrow> owned_by epoch inst r \<and> lease_live (lr_until r) now
   | None \<Rightarrow> False)"

definition assert_owner :: "owner_config \<Rightarrow> string \<Rightarrow> time \<Rightarrow> runtime_db \<Rightarrow> control_error + unit" where
  "assert_owner c epoch now db =
     (if HoldsLease epoch (o_Instance c) now db then Inr () else Inl ErrRuntimeOwnerBusy)"

definition claim_lease :: "owner_config \<Rightarrow> string \<Rightarrow> time \<Rightarrow> runtime_db \<Rightarrow> control_error + runtime_db" where
  "claim_lease c epoch now db =
     (let db' = ClaimLease epoch (o_Instance c) now (now + OrLease (o_Lease c)) db
      in bind_res (RecordedOwner db') (\<lambda>recorded.
         bind_res (CheckHolder recorded epoch (o_Instance c)) (\<lambda>_. Inr db')))"

type_synonym owner_recovery = "time \<Rightarrow> runtime_db \<Rightarrow> control_error + runtime_db"

definition claimAndRecover ::
  "owner_config \<Rightarrow> string \<Rightarrow> time \<Rightarrow> time \<Rightarrow> owner_recovery option \<Rightarrow> runtime_db \<Rightarrow> control_error + runtime_db" where
  "claimAndRecover c epoch now later recover db =
     bind_res (claim_lease c epoch now db) (\<lambda>db1.
     bind_res (case recover of None \<Rightarrow> Inr db1 | Some work \<Rightarrow> work now db1) (\<lambda>db2.
     bind_res (assert_owner c epoch later db2) (\<lambda>_. Inr db2)))"

definition ClaimAndRecover ::
  "owner_config option \<Rightarrow> string \<Rightarrow> time \<Rightarrow> time \<Rightarrow> owner_recovery option \<Rightarrow> runtime_db \<Rightarrow> control_error + runtime_db" where
  "ClaimAndRecover owner epoch now later recover db = (case owner of
     None \<Rightarrow> Inl ErrOwnerNotConfigured
   | Some c \<Rightarrow> if epoch = '''' \<or> o_Instance c = '''' then Inl ErrOwnerNotConfigured
              else claimAndRecover c epoch now later recover db)"

definition Claim :: "owner_config option \<Rightarrow> string \<Rightarrow> time \<Rightarrow> time \<Rightarrow> runtime_db \<Rightarrow> control_error + runtime_db" where
  "Claim owner epoch now later = ClaimAndRecover owner epoch now later None"

definition Renew :: "owner_config option \<Rightarrow> string \<Rightarrow> time \<Rightarrow> runtime_db \<Rightarrow> control_error + runtime_db" where
  "Renew owner epoch now db = (case owner of
     None \<Rightarrow> Inl ErrOwnerNotConfigured
   | Some c \<Rightarrow> if epoch = '''' then Inl ErrOwnerNotConfigured
              else (case RenewLease epoch (o_Instance c) now (now + OrLease (o_Lease c)) db of
                (rows, db') \<Rightarrow> bind_res (CheckOwnerMutation rows) (\<lambda>_. Inr db')))"

definition Release :: "owner_config option \<Rightarrow> string \<Rightarrow> time \<Rightarrow> runtime_db \<Rightarrow> control_error + runtime_db" where
  "Release owner epoch now db = (case owner of
     None \<Rightarrow> Inl ErrOwnerNotConfigured
   | Some c \<Rightarrow> if epoch = '''' then Inl ErrOwnerNotConfigured
              else (case ReleaseLease epoch (o_Instance c) now db of
                (rows, db') \<Rightarrow> bind_res (CheckOwnerMutation rows) (\<lambda>_. Inr db')))"

definition AssertOwnership :: "owner_config option \<Rightarrow> string \<Rightarrow> time \<Rightarrow> runtime_db \<Rightarrow> control_error + unit" where
  "AssertOwnership owner epoch now db = (case owner of
     None \<Rightarrow> Inl ErrOwnerNotConfigured
   | Some c \<Rightarrow> if epoch = '''' then Inl ErrOwnerNotConfigured else assert_owner c epoch now db)"

text \<open>The check the episode runner gives the ledger: a busy lease is a lost owner, any other error a
  failed check.\<close>

definition ownerLostCheck :: "owner_config option \<Rightarrow> time \<Rightarrow> runtime_db \<Rightarrow> owner_check" where
  "ownerLostCheck owner now db = Some (\<lambda>epoch. case AssertOwnership owner epoch now db of
     Inr _ \<Rightarrow> OwnerHeld
   | Inl e \<Rightarrow> if e = ErrRuntimeOwnerBusy then OwnerLost else OwnerFailed)"

section \<open>Epoch control\<close>

definition EpochDraining :: string where "EpochDraining = ''draining''"
definition EpochKilled :: string where "EpochKilled = ''killed''"

definition CheckControllable :: "string \<Rightarrow> control_error + unit" where
  "CheckControllable state =
     (if state \<noteq> EpochDraining \<and> state \<noteq> EpochKilled then Inl (InvalidEpochState state) else Inr ())"

definition RefuseDecision :: "string \<Rightarrow> control_error + unit" where
  "RefuseDecision state = (if state = EpochKilled then Inl ErrEpochKilled else Inr ())"

definition RefuseOrdinary :: "string \<Rightarrow> control_error + unit" where
  "RefuseOrdinary state =
     (if state = EpochKilled then Inl ErrEpochKilled
      else if state = EpochDraining then Inl ErrEpochDraining
      else Inl (UnknownEpochState state))"

definition RefuseAdmission :: "string \<Rightarrow> control_error + unit" where
  "RefuseAdmission state =
     (if state = EpochKilled \<or> state = EpochDraining then Inl ErrEpochDraining else Inr ())"

definition killed_epochs :: "epoch_row list \<Rightarrow> string list" where
  "killed_epochs rows = map ec_epoch (filter (\<lambda>r. ec_state r = EpochKilled) rows)"

text \<open>The upsert of \<open>epoch_control\<close>; the ledger reads the killed rows of the same table.\<close>

definition RecordEpochState :: "string \<Rightarrow> string \<Rightarrow> time \<Rightarrow> runtime_db \<Rightarrow> runtime_db" where
  "RecordEpochState epoch state now db =
     (let rows = (if epoch \<in> ec_epoch ` set (d_epochs db)
                  then sql_update (\<lambda>r. ec_epoch r = epoch \<and> ec_state r \<noteq> EpochKilled)
                         (\<lambda>r. r\<lparr>ec_state := state, ec_updated := now\<rparr>) (d_epochs db)
                  else d_epochs db @ [\<lparr>ec_epoch = epoch, ec_state = state, ec_updated = now\<rparr>])
      in db\<lparr>d_epochs := rows, d_ledger := (d_ledger db)\<lparr>l_killed := killed_epochs rows\<rparr>\<rparr>)"

definition EpochState :: "string \<Rightarrow> runtime_db \<Rightarrow> string \<times> bool" where
  "EpochState epoch db = (case find (\<lambda>r. ec_epoch r = epoch) (d_epochs db) of
     None \<Rightarrow> ('''', False) | Some r \<Rightarrow> (ec_state r, True))"

definition recordState :: "string \<Rightarrow> string \<Rightarrow> time \<Rightarrow> runtime_db \<Rightarrow> control_error + runtime_db" where
  "recordState epoch state now db =
     bind_res (CheckControllable state) (\<lambda>_. Inr (RecordEpochState epoch state now db))"

definition unstarted :: "string \<Rightarrow> episode_row \<Rightarrow> bool" where
  "unstarted epoch e \<longleftrightarrow>
     a_PolicyEpoch (e_admission e) = epoch \<and> e_lifecycle e = LifecycleAdmitted \<and> e_attempt e = None"

definition UnstartedReservedEpisodes :: "string \<Rightarrow> runtime_db \<Rightarrow> string list" where
  "UnstartedReservedEpisodes epoch db =
     [e_id e. e \<leftarrow> l_episodes (d_ledger db), r \<leftarrow> k_reservations (d_costs db),
        cr_episode r = e_id e, unstarted epoch e, cr_status r = ReservationReserved]"

fun releaseEpisodeCosts :: "string list \<Rightarrow> time \<Rightarrow> costs \<Rightarrow> cost_error + costs" where
  "releaseEpisodeCosts [] now K = Inr K"
| "releaseEpisodeCosts (episodeID # rest) now K =
     bind_res (Settle episodeID 0 (FormatTime now) K) (releaseEpisodeCosts rest now)"

definition killTx :: "string \<Rightarrow> time \<Rightarrow> runtime_db \<Rightarrow> control_error + runtime_db" where
  "killTx epoch now db =
     bind_res (recordState epoch EpochKilled now db) (\<lambda>db1.
       let unstarted_ids = UnstartedReservedEpisodes epoch db1
       in case SupersedeEpoch epoch now (d_ledger db1) of
            Inl e \<Rightarrow> Inl (EpochLedgerFailed e)
          | Inr L \<Rightarrow> (case releaseEpisodeCosts unstarted_ids now (d_costs db1) of
              Inl e \<Rightarrow> Inl (EpochCostFailed e)
            | Inr K \<Rightarrow> Inr (db1\<lparr>d_ledger := L, d_costs := K\<rparr>)))"

text \<open>The first argument says whether epoch control has a database.\<close>

definition Kill :: "bool \<Rightarrow> string \<Rightarrow> time \<Rightarrow> runtime_db \<Rightarrow> control_error + runtime_db" where
  "Kill configured epoch now db =
     (if \<not> configured \<or> epoch = '''' then Inl ErrEpochControlNotConfigured else killTx epoch now db)"

definition Drain :: "bool \<Rightarrow> string \<Rightarrow> time \<Rightarrow> runtime_db \<Rightarrow> control_error + runtime_db" where
  "Drain configured epoch now db =
     (if \<not> configured \<or> epoch = '''' then Inl ErrEpochControlNotConfigured
      else recordState epoch EpochDraining now db)"

definition State :: "bool \<Rightarrow> string \<Rightarrow> runtime_db \<Rightarrow> control_error + string" where
  "State configured epoch db =
     (if \<not> configured \<or> epoch = '''' then Inl ErrEpochControlNotConfigured else Inr (fst (EpochState epoch db)))"

definition AssertDecision :: "bool \<Rightarrow> string \<Rightarrow> runtime_db \<Rightarrow> control_error + unit" where
  "AssertDecision configured episodeEpoch db =
     (if \<not> configured then Inl ErrEpochControlNotConfigured
      else if episodeEpoch = '''' then Inl ErrEpochUnbound
      else bind_res (State configured episodeEpoch db) RefuseDecision)"

definition AssertDecisionTx :: "bool \<Rightarrow> string \<Rightarrow> runtime_db \<Rightarrow> control_error + unit" where
  "AssertDecisionTx configured episodeEpoch db =
     (if \<not> configured then Inl ErrEpochControlNotConfigured
      else if episodeEpoch = '''' then Inl ErrEpochUnbound
      else RefuseDecision (fst (EpochState episodeEpoch db)))"

definition AssertOrdinaryTx :: "bool \<Rightarrow> string \<Rightarrow> runtime_db \<Rightarrow> control_error + unit" where
  "AssertOrdinaryTx configured epoch db =
     (if \<not> configured \<or> epoch = '''' then Inl ErrEpochControlNotConfigured
      else (case EpochState epoch db of
        (state, found) \<Rightarrow> if \<not> found then Inr () else RefuseOrdinary state))"

definition AssertAdmission :: "bool \<Rightarrow> string \<Rightarrow> runtime_db \<Rightarrow> control_error + unit" where
  "AssertAdmission configured currentEpoch db =
     bind_res (State configured currentEpoch db) RefuseAdmission"

end
