(* ===== verification/Control_Fencing.thy ===== *)
theory Control_Fencing
  imports Control_Runtime Episode_Properties
begin

text \<open>
  What runtime control promises. The lease is an instance of a single-owner contract: as long as it is
  live at the clock of every operation, its recorded owner does not change; so a takeover needs a moment
  at which the lease had expired. A kill is terminal, it always succeeds, and it leaves the epoch without
  live episodes and without reservations of episodes that never started.
\<close>

section \<open>The single-owner contract\<close>

text \<open>A run is a list of operations, each with the clock it read and the state it left.\<close>

fun timed_run :: "(time \<Rightarrow> 's \<Rightarrow> 's \<Rightarrow> bool) \<Rightarrow> 's \<Rightarrow> (time \<times> 's) list \<Rightarrow> bool" where
  "timed_run step s [] = True"
| "timed_run step s ((now, s') # rest) = (step now s s' \<and> timed_run step s' rest)"

fun moments :: "'s \<Rightarrow> (time \<times> 's) list \<Rightarrow> (time \<times> 's) list" where
  "moments s [] = []"
| "moments s ((now, s') # rest) = (now, s) # moments s' rest"

definition run_end :: "'s \<Rightarrow> (time \<times> 's) list \<Rightarrow> 's" where
  "run_end s es = last (s # map snd es)"

lemma run_end_simps [simp]: "run_end s [] = s" "run_end s ((now, s') # rest) = run_end s' rest"
  by (simp_all add: run_end_def)

locale single_owner =
  fixes owner :: "'s \<Rightarrow> 'h option"
    and live :: "time \<Rightarrow> 's \<Rightarrow> bool"
    and step :: "time \<Rightarrow> 's \<Rightarrow> 's \<Rightarrow> bool"
  assumes live_owned: "live now s \<Longrightarrow> owner s \<noteq> None"
    and live_kept: "step now s s' \<Longrightarrow> live now s \<Longrightarrow> owner s' = owner s"
begin

lemma owner_kept:
  assumes "timed_run step s es" and "\<forall>(now, x) \<in> set (moments s es). live now x"
  shows "owner (run_end s es) = owner s"
  using assms by (induction s es rule: moments.induct) (auto dest: live_kept)

lemma handover_needs_expiry:
  assumes "timed_run step s es" and "owner (run_end s es) \<noteq> owner s"
  shows "\<exists>(now, x) \<in> set (moments s es). \<not> live now x"
  using owner_kept[OF assms(1)] assms(2) by blast

lemma holder_still_owns:
  assumes "timed_run step s es" and "\<forall>(now, x) \<in> set (moments s es). live now x"
    and "live now s" and "owner s = Some h"
  shows "owner (run_end s es) = Some h"
  using owner_kept[OF assms(1,2)] assms(4) by simp

end

section \<open>The operations of a runtime database\<close>

definition recorded_holder :: "runtime_db \<Rightarrow> holder option" where
  "recorded_holder db = map_option (\<lambda>r. \<lparr>h_Epoch = lr_epoch r, h_Instance = lr_instance r\<rparr>) (d_owner db)"

definition lease_held :: "time \<Rightarrow> runtime_db \<Rightarrow> bool" where
  "lease_held now db = (case d_owner db of None \<Rightarrow> False | Some r \<Rightarrow> lease_live (lr_until r) now)"

text \<open>What recovery may do to the database: it writes the ledger and the costs only.\<close>

definition recovery_effect :: "runtime_db \<Rightarrow> runtime_db \<Rightarrow> bool" where
  "recovery_effect db db' \<longleftrightarrow> d_owner db' = d_owner db \<and> d_epochs db' = d_epochs db
     \<and> (ledger_steps empty_ledger (d_ledger db) \<longrightarrow> ledger_steps empty_ledger (d_ledger db'))
     \<and> l_killed (d_ledger db') = l_killed (d_ledger db)
     \<and> (cost_reachable (d_costs db) \<longrightarrow> cost_reachable (d_costs db'))"

inductive runtime_step :: "time \<Rightarrow> runtime_db \<Rightarrow> runtime_db \<Rightarrow> bool" where
  claimed: "ClaimAndRecover owner epoch now later recover db = Inr db' \<Longrightarrow>
    (\<And>work t x x'. recover = Some work \<Longrightarrow> work t x = Inr x' \<Longrightarrow> recovery_effect x x') \<Longrightarrow> runtime_step now db db'"
| renewed: "Renew owner epoch now db = Inr db' \<Longrightarrow> runtime_step now db db'"
| released: "Release owner epoch now db = Inr db' \<Longrightarrow> runtime_step now db db'"
| killed: "Kill configured epoch now db = Inr db' \<Longrightarrow> runtime_step now db db'"
| drained: "Drain configured epoch now db = Inr db' \<Longrightarrow> runtime_step now db db'"
| ledger_write: "ledger_step (d_ledger db) L \<Longrightarrow> l_killed L = l_killed (d_ledger db)
    \<Longrightarrow> runtime_step now db (db\<lparr>d_ledger := L\<rparr>)"
| cost_write: "cost_step (d_costs db) K \<Longrightarrow> runtime_step now db (db\<lparr>d_costs := K\<rparr>)"

definition initial_db :: "string \<Rightarrow> runtime_db" where
  "initial_db now = \<lparr>d_owner = None, d_epochs = [], d_ledger = empty_ledger, d_costs = initial_costs now\<rparr>"

definition runtime_reachable :: "runtime_db \<Rightarrow> bool" where
  "runtime_reachable db \<longleftrightarrow> (\<exists>now es. timed_run runtime_step (initial_db now) es \<and> run_end (initial_db now) es = db)"

text \<open>How an operation that succeeded changed the lease row.\<close>

lemma claim_lease_Inr:
  assumes "claim_lease c epoch now db = Inr db'"
  obtains acquired where "db' = db\<lparr>d_owner := Some \<lparr>lr_epoch = epoch, lr_instance = o_Instance c,
      lr_acquired = acquired, lr_heartbeat = now, lr_until = ReadableTime (now + OrLease (o_Lease c))\<rparr>\<rparr>"
    and "\<And>r. d_owner db = Some r \<Longrightarrow> owned_by epoch (o_Instance c) r \<or> \<not> lease_live (lr_until r) now"
  using assms that
  by (auto simp: claim_lease_def Let_def bind_res_Inr_iff RecordedOwner_def CheckHolder_def ClaimLease_def owned_by_def
      split: option.splits if_splits)

lemma Renew_Inr:
  assumes "Renew owner epoch now db = Inr db'"
  obtains r until where "d_owner db = Some r" "lr_epoch r = epoch"
    "db' = db\<lparr>d_owner := Some (r\<lparr>lr_heartbeat := now, lr_until := until\<rparr>)\<rparr>"
  using assms that
  by (auto simp: Renew_def RenewLease_def bind_res_Inr_iff CheckOwnerMutation_def owned_by_def
      split: option.splits if_splits prod.splits)

lemma Release_Inr:
  assumes "Release owner epoch now db = Inr db'"
  obtains r until where "d_owner db = Some r" "lr_epoch r = epoch"
    "db' = db\<lparr>d_owner := Some (r\<lparr>lr_heartbeat := now, lr_until := until\<rparr>)\<rparr>"
  using assms that
  by (auto simp: Release_def ReleaseLease_def bind_res_Inr_iff CheckOwnerMutation_def owned_by_def
      split: option.splits if_splits prod.splits)

lemma recordState_Inr:
  "recordState epoch state now db = Inr db' \<longleftrightarrow>
     state \<in> {EpochDraining, EpochKilled} \<and> db' = RecordEpochState epoch state now db"
  by (auto simp: recordState_def CheckControllable_def)

lemma Kill_Inr:
  assumes "Kill configured epoch now db = Inr db'"
  obtains L K where "configured" "epoch \<noteq> ''''"
    "SupersedeEpoch epoch now (d_ledger (RecordEpochState epoch EpochKilled now db)) = Inr L"
    "releaseEpisodeCosts (UnstartedReservedEpisodes epoch (RecordEpochState epoch EpochKilled now db)) now (d_costs db) = Inr K"
    "db' = (RecordEpochState epoch EpochKilled now db)\<lparr>d_ledger := L, d_costs := K\<rparr>"
proof -
  have "d_costs (RecordEpochState epoch EpochKilled now db) = d_costs db"
    by (simp add: RecordEpochState_def Let_def)
  then show thesis
    using assms that
    by (auto simp: Kill_def killTx_def bind_res_Inr_iff recordState_Inr Let_def split: if_splits sum.splits)
qed

lemma RecordEpochState_keeps [simp]:
  "d_owner (RecordEpochState epoch state now db) = d_owner db"
  "d_costs (RecordEpochState epoch state now db) = d_costs db"
  "l_episodes (d_ledger (RecordEpochState epoch state now db)) = l_episodes (d_ledger db)"
  "l_killed (d_ledger (RecordEpochState epoch state now db)) = killed_epochs (d_epochs (RecordEpochState epoch state now db))"
  by (simp_all add: RecordEpochState_def Let_def)

lemma ClaimAndRecover_Inr:
  assumes "ClaimAndRecover owner epoch now later recover db = Inr db'"
  obtains c db1 where "owner = Some c" "claim_lease c epoch now db = Inr db1"
    "(case recover of None \<Rightarrow> Inr db1 | Some work \<Rightarrow> work now db1) = Inr db'"
    "HoldsLease epoch (o_Instance c) later db'"
  using assms
  by (auto simp: ClaimAndRecover_def claimAndRecover_def assert_owner_def bind_res_Inr_iff split: option.splits if_splits)

lemma step_keeps_live_owner:
  assumes "runtime_step now db db'" and "lease_held now db"
  shows "recorded_holder db' = recorded_holder db"
  using assms
proof (induction rule: runtime_step.induct)
  case (claimed owner epoch now later recover db db')
  from claimed(1) obtain c db1 where c: "claim_lease c epoch now db = Inr db1"
    and rec: "(case recover of None \<Rightarrow> Inr db1 | Some work \<Rightarrow> work now db1) = Inr db'"
    by (rule ClaimAndRecover_Inr)
  have "d_owner db' = d_owner db1"
    using rec claimed(2) by (auto simp: recovery_effect_def split: option.splits)
  with c claimed(3) show ?case
    by (auto simp: recorded_holder_def lease_held_def owned_by_def elim!: claim_lease_Inr split: option.splits)
qed (auto simp: recorded_holder_def Drain_def recordState_Inr split: if_splits elim!: Renew_Inr Release_Inr Kill_Inr)

interpretation lease: single_owner recorded_holder lease_held runtime_step
proof unfold_locales
  show "recorded_holder s \<noteq> None" if "lease_held now s" for now s
    using that by (auto simp: lease_held_def recorded_holder_def split: option.splits)
qed (rule step_keeps_live_owner)

section \<open>The books of the cost ledger stay within their columns\<close>

definition cost_columns :: "costs \<Rightarrow> bool" where
  "cost_columns K \<longleftrightarrow> (\<forall>r \<in> set (k_limits K). in_columns r) \<and> (\<forall>r \<in> set (k_reservations K). cr_episode r \<noteq> '''')"

lemma update_limits_columns:
  assumes "update_limits P f K = Inr (n, K')" and "cost_columns K"
  shows "cost_columns K'"
  using assms by (auto simp: update_limits_Inr cost_columns_def)

lemma reserveLimit_columns: "reserveLimit s a now K = Inr K' \<Longrightarrow> cost_columns K \<Longrightarrow> cost_columns K'"
  by (auto simp: reserveLimit_def bind_res_Inr_iff ReserveAvailable_def dest: update_limits_columns split: if_splits)

lemma settleLimit_columns: "settleLimit s x a now K = Inr K' \<Longrightarrow> cost_columns K \<Longrightarrow> cost_columns K'"
  by (auto simp: settleLimit_def bind_res_Inr_iff SettleLimit_def dest: update_limits_columns split: if_splits)

lemma RecordSettlement_columns: "cost_columns K \<Longrightarrow> cost_columns (RecordSettlement e a now K)"
  by (auto simp: cost_columns_def RecordSettlement_def)

lemma cost_step_columns: "cost_step K K' \<Longrightarrow> cost_columns K \<Longrightarrow> cost_columns K'"
proof (induction rule: cost_step.induct)
  case (reserve episodeID tenantID amount now K K')
  have "episodeID \<noteq> ''''"
    using reserve(1) by (auto simp: Reserve_def CheckReservation_def bind_res_Inr_iff split: if_splits)
  from reserve(1) show ?case
  proof (rule Reserve_Inr)
    fix K1 K2
    assume K1: "InsertReservation episodeID tenantID (Micro amount) now K = Inr K1"
      and K2: "reserveLimit GlobalScope amount now K1 = Inr K2"
      and K': "reserveLimit (TenantScope tenantID) amount now K2 = Inr K'"
    from K1 have "cost_columns K1"
      by (rule InsertReservation_Inr) (use reserve(2) \<open>episodeID \<noteq> ''''\<close> in \<open>simp add: cost_columns_def\<close>)
    then show "cost_columns K'"
      using reserveLimit_columns[OF K2] reserveLimit_columns[OF K'] by blast
  qed
next
  case (settle episodeID actual now K K')
  from settle(1) show ?case
    by (cases rule: Settle_Inr)
       (use settle(2) in \<open>auto dest!: settleLimit_columns intro: RecordSettlement_columns\<close>)
next
  case (set_limit scopeKey tenantID maxMicro killSwitch now K K')
  then show ?case
    by (auto simp: SetLimit_def bind_res_Inr_iff WriteLimit_def Let_def cost_columns_def in_columns_def max_int64_def
        set_sql_update split: if_splits)
qed

lemma cost_reachable_columns: "cost_reachable K \<Longrightarrow> cost_columns K"
proof (induction rule: cost_reachable.induct)
  case (initial now)
  then show ?case
    by (simp add: initial_costs_def cost_columns_def in_columns_def max_int64_def)
next
  case (step K K')
  then show ?case by (simp add: cost_step_columns)
qed

section \<open>Releasing a reservation always succeeds\<close>

lemma settleLimit_zero_succeeds:
  assumes "distinct (map cl_scope (k_limits K))" and "cost_columns K" and "0 \<le> x"
    and "s = GlobalScope \<Longrightarrow> LimitExists s K"
  shows "\<exists>K'. settleLimit s x 0 now K = Inr K'"
proof (cases "LimitExists s K")
  case True
  then have "rows_affected (\<lambda>r. cl_scope r = s) (k_limits K) = 1"
    using rows_affected_unique_key(1)[OF assms(1), of "\<lambda>r. cl_scope r = s"] by (auto simp: LimitExists_iff)
  moreover have "\<not> (\<exists>r \<in> set (k_limits K). cl_scope r = s \<and> \<not> in_columns
      (r\<lparr>cl_reserved := max 0 (cl_reserved r - x), cl_spent := cl_spent r + 0,
         cl_kill := (if 0 < cl_max r \<and> cl_spent r + 0 \<ge> cl_max r then True else cl_kill r), cl_updated := now\<rparr>))"
    using assms(2,3) by (auto simp: cost_columns_def in_columns_def max_int64_def)
  ultimately show ?thesis
    using True by (auto simp: settleLimit_def SettleLimit_def update_limits_def Micro_def CheckLimitSettled_def)
qed (use assms(4) in \<open>auto simp: settleLimit_def RefuseMissingLimit_def\<close>)

lemma settle_scopes: "settleLimit s x a now K = Inr K' \<Longrightarrow> map cl_scope (k_limits K') = map cl_scope (k_limits K)"
  using settleLimit_Inr(2)[of s x a now K K'] by (simp add: map_sql_update)

lemma Settle_zero_succeeds:
  assumes inv: "cost_inv K" "cost_columns K" and r: "LoadReservation episodeID K = Some r" "cr_status r = ReservationReserved"
    and "now \<noteq> ''''"
  obtains K' where "Settle episodeID 0 now K = Inr K'"
proof -
  have r': "r \<in> set (k_reservations K)" "cr_episode r = episodeID"
    using find_SomeD[OF r(1)[unfolded LoadReservation_def]] by auto
  then have ne: "episodeID \<noteq> ''''" and x: "0 \<le> cr_reserved r"
    using inv by (auto simp: cost_columns_def cost_inv_def)
  let ?M = "RecordSettlement episodeID (Micro 0) now K"
  have M: "k_limits ?M = k_limits K" by (simp add: RecordSettlement_def)
  have d: "distinct (map cl_scope (k_limits ?M))" and g: "LimitExists GlobalScope ?M"
    using inv(1) by (auto simp: cost_inv_def M LimitExists_iff)
  obtain K1 where K1: "settleLimit GlobalScope (cr_reserved r) 0 now ?M = Inr K1"
    using settleLimit_zero_succeeds[OF d RecordSettlement_columns[OF inv(2)] x g] by blast
  have "distinct (map cl_scope (k_limits K1))"
    using d settle_scopes[OF K1] by simp
  then obtain K2 where "settleLimit (TenantScope (cr_tenant r)) (cr_reserved r) 0 now K1 = Inr K2"
    using settleLimit_zero_succeeds[OF _ settleLimit_columns[OF K1 RecordSettlement_columns[OF inv(2)]] x,
        of "TenantScope (cr_tenant r)" now] by auto
  then have "Settle episodeID 0 now K = Inr K2"
    using K1 r ne assms(5)
    by (simp add: Settle_def CheckSettlement_def NeedsSettlement_def applySettlement_def fits_column_def max_int64_def)
  then show thesis by (rule that)
qed

lemma Settle_reservations:
  assumes "Settle episodeID a now K = Inr K'"
  shows "LoadReservation other K' = map_option (\<lambda>r. if cr_episode r = episodeID \<and> cr_status r = ReservationReserved
      then r\<lparr>cr_actual := Micro a, cr_status := ReservationSettled, cr_settled := Some now\<rparr> else r) (LoadReservation other K)"
  using assms
proof (cases rule: Settle_Inr)
  case (repeated r)
  show ?thesis
  proof (cases "other = episodeID")
    case False
    then show ?thesis
      using repeated(1) by (cases "LoadReservation other K") (auto simp: LoadReservation_def dest!: find_SomeD)
  qed (use repeated in simp)
next
  case (applied r K1)
  have "k_reservations K' = k_reservations (RecordSettlement episodeID (Micro a) now K)"
    using settleLimit_Inr(1)[OF applied(4)] settleLimit_Inr(1)[OF applied(5)] by simp
  then show ?thesis
    by (simp add: LoadReservation_def RecordSettlement_def find_sql_update)
qed

lemma FormatTime_nonempty [simp]: "FormatTime t \<noteq> ''''"
  by (simp add: FormatTime_def Let_def split: prod.splits)

lemma releaseEpisodeCosts_reachable:
  "releaseEpisodeCosts ids now K = Inr K' \<Longrightarrow> cost_reachable K \<Longrightarrow> cost_reachable K'"
  by (induction ids arbitrary: K)
     (auto simp: bind_res_Inr_iff dest!: cost_step.settle dest: cost_reachable.step)

lemma releaseEpisodeCosts_succeeds:
  assumes "cost_reachable K" and "distinct ids"
    and "\<And>i. i \<in> set ids \<Longrightarrow> \<exists>r. LoadReservation i K = Some r \<and> cr_status r = ReservationReserved"
  shows "\<exists>K'. releaseEpisodeCosts ids now K = Inr K' \<and> settled_total K' = settled_total K
    \<and> (\<forall>i \<in> set ids. \<exists>r. LoadReservation i K' = Some r \<and> cr_status r = ReservationSettled \<and> cr_actual r = 0)
    \<and> (\<forall>i. i \<notin> set ids \<longrightarrow> LoadReservation i K' = LoadReservation i K)"
  using assms
proof (induction ids arbitrary: K)
  case (Cons i ids)
  note inv = cost_reachable_inv[OF Cons.prems(1)]
  obtain r where r: "LoadReservation i K = Some r" "cr_status r = ReservationReserved"
    using Cons.prems(3) by force
  have ri: "cr_episode r = i"
    using find_SomeD[OF r(1)[unfolded LoadReservation_def]] by simp
  obtain K1 where K1: "Settle i 0 (FormatTime now) K = Inr K1"
    using Settle_zero_succeeds[OF inv cost_reachable_columns[OF Cons.prems(1)] r FormatTime_nonempty] by blast
  have reach: "cost_reachable K1"
    using Cons.prems(1) K1 by (blast intro: cost_reachable.step cost_step.settle)
  have same: "LoadReservation j K1 = LoadReservation j K" if "j \<noteq> i" for j
    using Settle_reservations[OF K1, of j] that
    by (cases "LoadReservation j K") (auto simp: LoadReservation_def dest!: find_SomeD)
  have done_i: "\<exists>r. LoadReservation i K1 = Some r \<and> cr_status r = ReservationSettled \<and> cr_actual r = 0"
    using Settle_reservations[OF K1, of i] r ri by (simp add: Micro_def)
  have total: "settled_total K1 = settled_total K"
    using K1
  proof (cases rule: Settle_Inr)
    case (applied s K2)
    then show ?thesis
      using RecordSettlement_sums(2)[OF inv applied(1,2), of "Micro 0" "FormatTime now"]
        settleLimit_Inr(1)[OF applied(4)] settleLimit_Inr(1)[OF applied(5)]
      by (simp add: settled_total_def Micro_def)
  qed simp
  have later: "\<exists>r. LoadReservation j K1 = Some r \<and> cr_status r = ReservationReserved" if "j \<in> set ids" for j
  proof -
    have "j \<noteq> i" using Cons.prems(2) that by auto
    then show ?thesis using Cons.prems(3)[of j] that same[of j] by auto
  qed
  from Cons.IH[OF reach _ later] Cons.prems(2) obtain K' where K': "releaseEpisodeCosts ids now K1 = Inr K'"
    "settled_total K' = settled_total K1"
    "\<forall>i \<in> set ids. \<exists>r. LoadReservation i K' = Some r \<and> cr_status r = ReservationSettled \<and> cr_actual r = 0"
    "\<forall>i. i \<notin> set ids \<longrightarrow> LoadReservation i K' = LoadReservation i K1"
    by auto
  then show ?case
    using K1 total same done_i Cons.prems(2) by auto
qed simp

section \<open>The invariant of the runtime database\<close>

definition runtime_inv :: "runtime_db \<Rightarrow> bool" where
  "runtime_inv db \<longleftrightarrow> ledger_steps empty_ledger (d_ledger db) \<and> cost_reachable (d_costs db)
     \<and> distinct (map ec_epoch (d_epochs db)) \<and> l_killed (d_ledger db) = killed_epochs (d_epochs db)
     \<and> (\<forall>r \<in> set (d_epochs db). ec_state r \<in> {EpochDraining, EpochKilled})"

lemma RecordEpochState_inv:
  assumes "runtime_inv db" and "state \<in> {EpochDraining, EpochKilled}"
  shows "runtime_inv (RecordEpochState epoch state now db)"
proof -
  let ?rows = "d_epochs (RecordEpochState epoch state now db)"
  have "ledger_step (d_ledger db) ((d_ledger db)\<lparr>l_situations := l_situations (d_ledger db),
      l_triggers := l_triggers (d_ledger db), l_killed := killed_epochs ?rows\<rparr>)"
    by (rule ledger_step.other_tables)
  then have "ledger_steps empty_ledger ((d_ledger db)\<lparr>l_killed := killed_epochs ?rows\<rparr>)"
    using assms(1) by (auto simp: runtime_inv_def intro: ledger_steps.step)
  then show ?thesis
    using assms by (auto simp: runtime_inv_def RecordEpochState_def Let_def map_sql_update)
qed

lemma SupersedeEpoch_step:
  assumes "SupersedeEpoch epoch now L = Inr L'"
  shows "ledger_step L L'" and "l_killed L' = l_killed L"
    and "\<And>r. r \<in> set (l_episodes L') \<Longrightarrow> a_PolicyEpoch (e_admission r) = epoch \<Longrightarrow> \<not> Live (e_lifecycle r)"
proof -
  note L' = write_episodes_Inr(1)[OF assms[unfolded SupersedeEpoch_def]]
  show "ledger_step L L'" using assms by (rule ledger_step.supersede_epoch)
  show "l_killed L' = l_killed L" using arg_cong[OF L', of l_killed] by simp
  have eps: "l_episodes L' = sql_update (\<lambda>r. a_PolicyEpoch (e_admission r) = epoch \<and> Live (e_lifecycle r))
      (supersede_row now) (l_episodes L)"
    using arg_cong[OF L', of l_episodes] by simp
  fix r assume "r \<in> set (l_episodes L')" "a_PolicyEpoch (e_admission r) = epoch"
  then obtain x where x: "r = (if a_PolicyEpoch (e_admission x) = epoch \<and> Live (e_lifecycle x) then supersede_row now x else x)"
    unfolding eps set_sql_update by blast
  show "\<not> Live (e_lifecycle r)"
  proof (cases "a_PolicyEpoch (e_admission x) = epoch \<and> Live (e_lifecycle x)")
    case True
    then have "r = supersede_row now x" using x by simp
    then have "e_lifecycle r = LifecycleSuperseded" by (simp add: supersede_row_def)
    then show ?thesis by (simp add: Live_def)
  next
    case False
    then have "r = x" using x by (simp only: if_False)
    then show ?thesis using False \<open>a_PolicyEpoch (e_admission r) = epoch\<close> by simp
  qed
qed

lemma runtime_step_inv: "runtime_step now db db' \<Longrightarrow> runtime_inv db \<Longrightarrow> runtime_inv db'"
proof (induction rule: runtime_step.induct)
  case (claimed owner epoch now later recover db db')
  from claimed(1) obtain c db1 where c: "claim_lease c epoch now db = Inr db1"
    and rec: "(case recover of None \<Rightarrow> Inr db1 | Some work \<Rightarrow> work now db1) = Inr db'"
    by (rule ClaimAndRecover_Inr)
  have "runtime_inv db1"
    using c claimed(3) by (auto simp: runtime_inv_def elim!: claim_lease_Inr)
  then show ?case
    using rec claimed(2) by (auto simp: runtime_inv_def recovery_effect_def split: option.splits)
next
  case (killed configured epoch now db db')
  from killed(1) show ?case
  proof (rule Kill_Inr)
    fix L K
    let ?db1 = "RecordEpochState epoch EpochKilled now db"
    assume L: "SupersedeEpoch epoch now (d_ledger ?db1) = Inr L"
      and K: "releaseEpisodeCosts (UnstartedReservedEpisodes epoch ?db1) now (d_costs db) = Inr K"
      and db': "db' = ?db1\<lparr>d_ledger := L, d_costs := K\<rparr>"
    have inv: "runtime_inv ?db1"
      using RecordEpochState_inv[OF killed(2)] by simp
    then have "ledger_steps empty_ledger L"
      using SupersedeEpoch_step(1)[OF L] by (auto simp: runtime_inv_def intro: ledger_steps.step)
    moreover have "cost_reachable K"
      using releaseEpisodeCosts_reachable[OF K] killed(2) by (simp add: runtime_inv_def)
    ultimately show "runtime_inv db'"
      using inv SupersedeEpoch_step(2)[OF L] by (simp add: runtime_inv_def db')
  qed
next
  case (drained configured epoch now db db')
  then show ?case
    by (auto simp: Drain_def recordState_Inr RecordEpochState_inv split: if_splits)
qed (auto simp: runtime_inv_def intro: ledger_steps.step cost_reachable.step elim!: Renew_Inr Release_Inr)

lemma timed_run_inv: "timed_run runtime_step db es \<Longrightarrow> runtime_inv db \<Longrightarrow> runtime_inv (run_end db es)"
  by (induction db es rule: moments.induct) (auto dest: runtime_step_inv)

lemma runtime_reachable_inv: "runtime_reachable db \<Longrightarrow> runtime_inv db"
proof -
  have "runtime_inv (initial_db now)" for now
    by (simp add: initial_db_def runtime_inv_def ledger_steps.refl cost_reachable.initial empty_ledger_def killed_epochs_def)
  then show "runtime_reachable db \<Longrightarrow> ?thesis"
    by (auto simp: runtime_reachable_def dest: timed_run_inv)
qed

section \<open>Properties of the lease\<close>

text \<open>
  Claim C5. Ownership of the runtime changes hands only through an expired lease: over any run of
  operations, by any number of processes with their own clocks, if the recorded owner (epoch and
  instance) at the end is not the one at the start, then some operation found the lease expired or
  unreadable at its clock, or there was none.
\<close>

theorem owner_changes_only_after_expiry:
  assumes "timed_run runtime_step db es" and "recorded_holder (run_end db es) \<noteq> recorded_holder db"
  shows "\<exists>(now, x) \<in> set (moments db es). \<not> lease_held now x"
  using assms by (rule lease.handover_needs_expiry)

definition sample_owner :: owner_config where
  "sample_owner = \<lparr>o_Instance = ''host-a'', o_Lease = 0\<rparr>"

definition sample_rival :: owner_config where
  "sample_rival = \<lparr>o_Instance = ''host-b'', o_Lease = 0\<rparr>"

definition owned_db :: runtime_db where
  "owned_db = (case Claim (Some sample_owner) ''epoch-1'' 100 101 (initial_db ''n'') of Inr db \<Rightarrow> db | Inl _ \<Rightarrow> initial_db ''n'')"

definition taken_db :: runtime_db where
  "taken_db = (case Claim (Some sample_rival) ''epoch-2'' 60000000101 60000000102 owned_db of Inr db \<Rightarrow> db | Inl _ \<Rightarrow> owned_db)"

lemma sample_claims:
  "Claim (Some sample_owner) ''epoch-1'' 100 101 (initial_db ''n'') = Inr owned_db"
  "Claim (Some sample_rival) ''epoch-2'' 60000000101 60000000102 owned_db = Inr taken_db"
  by code_simp+

theorem owner_changes_only_after_expiry_witness:
  "recorded_holder taken_db \<noteq> recorded_holder owned_db \<and> \<not> lease_held 60000000101 owned_db"
proof -
  have run: "timed_run runtime_step owned_db [(60000000101, taken_db)]"
    using sample_claims(2)[unfolded Claim_def] by (auto intro: runtime_step.claimed)
  moreover have changed: "recorded_holder taken_db \<noteq> recorded_holder owned_db"
    by code_simp
  ultimately show ?thesis
    using owner_changes_only_after_expiry[of owned_db "[(60000000101, taken_db)]"] by simp
qed

text \<open>
  While a lease is live, every claim by another epoch or another instance is refused as busy,
  whatever recovery it brings. Once it has expired, a claim under a new epoch succeeds, and from then on
  the previous owner's renewals, releases and assertions are all refused, at any clock; a claim under the
  same epoch by another instance is refused even then.
\<close>

theorem lease_takeover:
  assumes "d_owner db = Some r" and "epoch \<noteq> ''''" and "o_Instance c \<noteq> ''''"
    and "\<not> owned_by epoch (o_Instance c) r"
  shows "(if lease_live (lr_until r) now \<or> lr_epoch r = epoch
      then ClaimAndRecover (Some c) epoch now later recover db = Inl ErrRuntimeOwnerBusy
      else later < now + OrLease (o_Lease c) \<longrightarrow>
        (\<exists>db'. Claim (Some c) epoch now later db = Inr db' \<and> HoldsLease epoch (o_Instance c) later db'
           \<and> (\<forall>c' t. o_Instance c' = lr_instance r \<and> lr_epoch r \<noteq> '''' \<longrightarrow>
                Renew (Some c') (lr_epoch r) t db' = Inl ErrRuntimeOwnerBusy
                \<and> Release (Some c') (lr_epoch r) t db' = Inl ErrRuntimeOwnerBusy
                \<and> AssertOwnership (Some c') (lr_epoch r) t db' = Inl ErrRuntimeOwnerBusy)))"
proof (cases "lease_live (lr_until r) now \<or> lr_epoch r = epoch")
  case True
  then show ?thesis
    using assms by (auto simp: ClaimAndRecover_def claimAndRecover_def claim_lease_def ClaimLease_def RecordedOwner_def
        CheckHolder_def owned_by_def)
next
  case False
  let ?row = "\<lparr>lr_epoch = epoch, lr_instance = o_Instance c, lr_acquired = now, lr_heartbeat = now,
      lr_until = ReadableTime (now + OrLease (o_Lease c))\<rparr>"
  have "Claim (Some c) epoch now later db = Inr (db\<lparr>d_owner := Some ?row\<rparr>)" if "later < now + OrLease (o_Lease c)"
    using assms False that
    by (simp add: Claim_def ClaimAndRecover_def claimAndRecover_def claim_lease_def ClaimLease_def RecordedOwner_def
        CheckHolder_def owned_by_def assert_owner_def HoldsLease_def lease_live_def)
  moreover have "HoldsLease epoch (o_Instance c) later (db\<lparr>d_owner := Some ?row\<rparr>)" if "later < now + OrLease (o_Lease c)"
    using that by (simp add: HoldsLease_def owned_by_def lease_live_def)
  ultimately show ?thesis
    using False assms(2)
    by (auto simp: Renew_def RenewLease_def Release_def ReleaseLease_def AssertOwnership_def assert_owner_def HoldsLease_def
        owned_by_def CheckOwnerMutation_def)
qed

theorem lease_takeover_witness:
  "Claim (Some sample_rival) ''epoch-2'' 200 201 owned_db = Inl ErrRuntimeOwnerBusy
   \<and> (\<exists>db'. Claim (Some sample_rival) ''epoch-2'' 60000000101 60000000102 owned_db = Inr db'
        \<and> Renew (Some sample_owner) ''epoch-1'' 60000000103 db' = Inl ErrRuntimeOwnerBusy)"
proof -
  define r where "r = the (d_owner owned_db)"
  have r: "d_owner owned_db = Some r" "\<not> owned_by ''epoch-2'' (o_Instance sample_rival) r"
    "lease_live (lr_until r) 200" "\<not> lease_live (lr_until r) 60000000101" "lr_epoch r = ''epoch-1''"
    "o_Instance sample_owner = lr_instance r" "o_Instance sample_rival \<noteq> ''''"
    "60000000102 < 60000000101 + OrLease (o_Lease sample_rival)"
    unfolding r_def by code_simp+
  show ?thesis
    using lease_takeover[OF r(1) _ r(7,2), of 200 201 None] lease_takeover[OF r(1) _ r(7,2), of 60000000101 60000000102 None]
      r(3-6,8) by (auto simp: Claim_def)
qed

section \<open>Properties of epoch control\<close>

lemma killed_state:
  assumes "runtime_inv db"
  shows "EpochState epoch db = (EpochKilled, True) \<longleftrightarrow> epoch \<in> set (l_killed (d_ledger db))"
proof
  assume "epoch \<in> set (l_killed (d_ledger db))"
  then obtain r where r: "r \<in> set (d_epochs db)" "ec_epoch r = epoch" "ec_state r = EpochKilled"
    using assms by (auto simp: runtime_inv_def killed_epochs_def)
  then have "find (\<lambda>r. ec_epoch r = epoch) (d_epochs db) = Some r"
    using assms find_by_key[of ec_epoch "d_epochs db" r] by (simp add: runtime_inv_def)
  then show "EpochState epoch db = (EpochKilled, True)"
    using r by (simp add: EpochState_def)
next
  assume "EpochState epoch db = (EpochKilled, True)"
  then show "epoch \<in> set (l_killed (d_ledger db))"
    using assms by (auto simp: EpochState_def runtime_inv_def killed_epochs_def dest!: find_SomeD split: option.splits)
qed

lemma RecordEpochState_killed:
  "epoch \<in> set (killed_epochs (d_epochs db)) \<Longrightarrow> epoch \<in> set (killed_epochs (d_epochs (RecordEpochState e state now db)))"
  by (auto simp: RecordEpochState_def Let_def killed_epochs_def set_sql_update image_iff)

lemma runtime_step_killed:
  assumes "runtime_step now db db'" and "runtime_inv db" and "epoch \<in> set (l_killed (d_ledger db))"
  shows "epoch \<in> set (l_killed (d_ledger db'))"
proof -
  have "epoch \<in> set (killed_epochs (d_epochs db'))"
    using assms
  proof (induction rule: runtime_step.induct)
    case (claimed owner e now later recover db db')
    from claimed(1) obtain c db1 where c: "claim_lease c e now db = Inr db1"
      and rec: "(case recover of None \<Rightarrow> Inr db1 | Some work \<Rightarrow> work now db1) = Inr db'"
      by (rule ClaimAndRecover_Inr)
    have "d_epochs db' = d_epochs db1"
      using rec claimed(2) by (auto simp: recovery_effect_def split: option.splits)
    then show ?case
      using c claimed(3,4) by (auto simp: runtime_inv_def elim!: claim_lease_Inr)
  qed (auto simp: runtime_inv_def Drain_def recordState_Inr intro: RecordEpochState_killed
      split: if_splits elim!: Renew_Inr Release_Inr Kill_Inr)
  then show ?thesis
    using runtime_step_inv[OF assms(1,2)] by (simp add: runtime_inv_def)
qed

lemma timed_run_killed:
  "timed_run runtime_step db es \<Longrightarrow> runtime_inv db \<Longrightarrow> epoch \<in> set (l_killed (d_ledger db))
    \<Longrightarrow> epoch \<in> set (l_killed (d_ledger (run_end db es)))"
  by (induction db es rule: moments.induct) (auto dest: runtime_step_inv runtime_step_killed)

lemma RecordEpochState_records:
  "epoch \<in> set (killed_epochs (d_epochs (RecordEpochState epoch EpochKilled now db)))"
proof (cases "epoch \<in> ec_epoch ` set (d_epochs db)")
  case True
  then obtain r where r: "r \<in> set (d_epochs db)" "ec_epoch r = epoch" by blast
  define P where "P x \<longleftrightarrow> ec_epoch x = epoch \<and> ec_state x \<noteq> EpochKilled" for x :: epoch_row
  define f where "f x = x\<lparr>ec_state := EpochKilled, ec_updated := now\<rparr>" for x :: epoch_row
  have rows: "d_epochs (RecordEpochState epoch EpochKilled now db) = sql_update P f (d_epochs db)"
    using True by (simp add: RecordEpochState_def P_def[abs_def] f_def[abs_def] Let_def)
  define r' where "r' = (if P r then f r else r)"
  have "r' \<in> set (sql_update P f (d_epochs db))"
    unfolding set_sql_update r'_def using r(1) by (rule imageI)
  moreover have "ec_state r' = EpochKilled" "ec_epoch r' = epoch"
    using r(2) by (cases "P r"; simp add: r'_def P_def f_def)+
  ultimately show ?thesis
    unfolding killed_epochs_def rows by (auto simp: image_iff intro!: bexI[of _ r'])
qed (simp add: RecordEpochState_def killed_epochs_def)

lemma Kill_recorded:
  assumes "Kill configured epoch now db = Inr db'" and "runtime_inv db"
  shows "epoch \<in> set (l_killed (d_ledger db'))"
  using assms(1)
proof (rule Kill_Inr)
  fix L K
  let ?db1 = "RecordEpochState epoch EpochKilled now db"
  assume L: "SupersedeEpoch epoch now (d_ledger ?db1) = Inr L" and db': "db' = ?db1\<lparr>d_ledger := L, d_costs := K\<rparr>"
  show ?thesis
    using SupersedeEpoch_step(2)[OF L] RecordEpochState_records by (simp add: db')
qed

text \<open>
  Claim C37. A kill is terminal: after an epoch was killed, whatever the runtime does later (drains and
  repeated kills included), every decision and every ordinary action under that epoch is refused as
  killed, and no new episode is admitted under it.
\<close>

theorem kill_is_terminal:
  assumes "runtime_reachable db" and "Kill configured epoch now db = Inr db1"
    and "timed_run runtime_step db1 es" and "db2 = run_end db1 es"
  shows "AssertDecision True epoch db2 = Inl ErrEpochKilled \<and> AssertDecisionTx True epoch db2 = Inl ErrEpochKilled
    \<and> AssertOrdinaryTx True epoch db2 = Inl ErrEpochKilled \<and> AssertAdmission True epoch db2 = Inl ErrEpochDraining"
proof -
  note inv = runtime_reachable_inv[OF assms(1)]
  have inv1: "runtime_inv db1"
    using runtime_step_inv[OF runtime_step.killed[OF assms(2)] inv] .
  have "epoch \<in> set (l_killed (d_ledger db2))"
    using timed_run_killed[OF assms(3) inv1 Kill_recorded[OF assms(2) inv]] assms(4) by simp
  then have "EpochState epoch db2 = (EpochKilled, True)"
    using killed_state timed_run_inv[OF assms(3) inv1] assms(4) by simp
  moreover have "epoch \<noteq> ''''"
    using assms(2) by (auto simp: Kill_def split: if_splits)
  ultimately show ?thesis
    by (simp add: AssertDecision_def AssertDecisionTx_def AssertOrdinaryTx_def AssertAdmission_def State_def
        RefuseDecision_def RefuseOrdinary_def RefuseAdmission_def)
qed

theorem kill_is_terminal_witness:
  "AssertDecision True ''pe1'' owned_db = Inr () \<and>
   (\<exists>db1 db2. Kill True ''pe1'' 5 owned_db = Inr db1 \<and> Drain True ''pe1'' 6 db1 = Inr db2
      \<and> AssertDecision True ''pe1'' db2 = Inl ErrEpochKilled)"
proof -
  obtain db1 where db1: "Kill True ''pe1'' 5 owned_db = Inr db1" and "\<exists>db2. Drain True ''pe1'' 6 db1 = Inr db2"
    and free: "AssertDecision True ''pe1'' owned_db = Inr ()"
  proof -
    have "case Kill True ''pe1'' 5 owned_db of Inl _ \<Rightarrow> False | Inr db1 \<Rightarrow> (case Drain True ''pe1'' 6 db1 of Inl _ \<Rightarrow> False | Inr _ \<Rightarrow> True)"
      "AssertDecision True ''pe1'' owned_db = Inr ()" by code_simp+
    then show thesis by (auto intro: that split: sum.splits)
  qed
  then obtain db2 where db2: "Drain True ''pe1'' 6 db1 = Inr db2" by blast
  have "runtime_reachable owned_db"
    unfolding runtime_reachable_def
    by (rule exI[of _ "''n''"], rule exI[of _ "[(100, owned_db)]"])
       (use sample_claims(1)[unfolded Claim_def] in \<open>auto intro: runtime_step.claimed\<close>)
  then show ?thesis
    using kill_is_terminal[OF _ db1, of "[(6, db2)]" db2] db1 db2 free by (auto intro: runtime_step.drained)
qed

lemma unstarted_ids:
  assumes "distinct (map e_id (l_episodes (d_ledger db)))" and keys: "distinct (map cr_episode (k_reservations (d_costs db)))"
  shows "distinct (UnstartedReservedEpisodes epoch db)"
    and "i \<in> set (UnstartedReservedEpisodes epoch db) \<longleftrightarrow>
      (\<exists>e \<in> set (l_episodes (d_ledger db)). e_id e = i \<and> unstarted epoch e) \<and>
      (\<exists>r. LoadReservation i (d_costs db) = Some r \<and> cr_status r = ReservationReserved)"
proof -
  let ?res = "k_reservations (d_costs db)"
  define g where "g e = map (\<lambda>_. e_id e) (filter (\<lambda>r. cr_episode r = e_id e \<and> unstarted epoch e \<and> cr_status r = ReservationReserved) ?res)"
    for e
  have g: "concat (map (\<lambda>r. if cr_episode r = e_id e then if unstarted epoch e then if cr_status r = ReservationReserved
      then [e_id e] else [] else [] else []) rs) = map (\<lambda>_. e_id e)
        (filter (\<lambda>r. cr_episode r = e_id e \<and> unstarted epoch e \<and> cr_status r = ReservationReserved) rs)" for e rs
    by (induction rs) auto
  have ids: "UnstartedReservedEpisodes epoch db = concat (map g (l_episodes (d_ledger db)))"
    unfolding UnstartedReservedEpisodes_def g g_def ..
  have "length (g e) \<le> 1" for e
    using rows_affected_unique_key(2)[OF keys, of "\<lambda>r. cr_episode r = e_id e \<and> unstarted epoch e \<and> cr_status r = ReservationReserved" "e_id e"]
    by (auto simp: g_def rows_affected_def)
  then have "distinct (g e)" for e
    by (cases "g e") (use \<open>length (g e) \<le> 1\<close> in auto)
  moreover have "set (g e) \<subseteq> {e_id e}" for e
    by (auto simp: g_def)
  moreover have "distinct (concat (map g eps))" if "\<And>e. distinct (g e)" "\<And>e. set (g e) \<subseteq> {e_id e}" "distinct (map e_id eps)" for eps
    using that(3) that(1) subsetD[OF that(2)] by (induction eps) fastforce+
  ultimately show "distinct (UnstartedReservedEpisodes epoch db)"
    using assms(1) by (simp add: ids)
  have "LoadReservation i (d_costs db) = Some r \<longleftrightarrow> r \<in> set ?res \<and> cr_episode r = i" for r
    using find_by_key[OF keys, of r] by (auto simp: LoadReservation_def dest: find_SomeD)
  then show "i \<in> set (UnstartedReservedEpisodes epoch db) \<longleftrightarrow>
      (\<exists>e \<in> set (l_episodes (d_ledger db)). e_id e = i \<and> unstarted epoch e) \<and>
      (\<exists>r. LoadReservation i (d_costs db) = Some r \<and> cr_status r = ReservationReserved)"
    by (auto simp: ids g_def)
qed

text \<open>
  A kill always goes through and leaves nothing of the epoch behind: in a reachable database
  whose episode rows satisfy the schema, it succeeds, no episode of the epoch is live afterwards, the
  reservation of every admitted episode of the epoch that never started is settled at zero cost, every
  other reservation is untouched, and nothing is added to what was spent.
\<close>

theorem Kill_clears_epoch:
  assumes "runtime_reachable db" and "epoch \<noteq> ''''"
    and schema: "\<forall>r \<in> set (l_episodes (d_ledger db)). episode_checks r = [] \<and> situation_known (d_ledger db) r"
  shows "\<exists>db'. Kill True epoch now db = Inr db'
    \<and> (\<forall>r \<in> set (l_episodes (d_ledger db')). a_PolicyEpoch (e_admission r) = epoch \<longrightarrow> \<not> Live (e_lifecycle r))
    \<and> (\<forall>i \<in> set (UnstartedReservedEpisodes epoch db).
         \<exists>s. LoadReservation i (d_costs db') = Some s \<and> cr_status s = ReservationSettled \<and> cr_actual s = 0)
    \<and> (\<forall>i. i \<notin> set (UnstartedReservedEpisodes epoch db) \<longrightarrow> LoadReservation i (d_costs db') = LoadReservation i (d_costs db))
    \<and> settled_total (d_costs db') = settled_total (d_costs db)"
proof -
  note inv = runtime_reachable_inv[OF assms(1)]
  have linv: "ledger_inv (d_ledger db)" and cinv: "cost_reachable (d_costs db)"
    using inv reachable_inv by (auto simp: runtime_inv_def)
  let ?db1 = "RecordEpochState epoch EpochKilled now db" and ?ids = "UnstartedReservedEpisodes epoch db"
  let ?P = "\<lambda>r. a_PolicyEpoch (e_admission r) = epoch \<and> Live (e_lifecycle r)"
  have sit: "l_situations (d_ledger ?db1) = l_situations (d_ledger db)"
    by (simp add: RecordEpochState_def Let_def)
  have "one_live_per_situation (sql_update ?P (supersede_row now) (l_episodes (d_ledger db)))"
    unfolding one_live_per_situation_def
    by (rule unique_index_leave)
       (use linv in \<open>auto simp: ledger_inv_def keys_ok_def one_live_per_situation_def supersede_row_def Live_def\<close>)
  then have "SupersedeEpoch epoch now (d_ledger ?db1)
      = Inr ((d_ledger ?db1)\<lparr>l_episodes := sql_update ?P (supersede_row now) (l_episodes (d_ledger ?db1))\<rparr>)" (is "_ = Inr ?L")
    unfolding SupersedeEpoch_def using schema
    by (intro write_episodes_succeeds) (auto simp: supersede_row_def episode_checks_def situation_known_def sit)
  then have L: "SupersedeEpoch epoch now (d_ledger ?db1) = Inr ?L" .
  have ids: "UnstartedReservedEpisodes epoch ?db1 = ?ids"
    by (simp add: UnstartedReservedEpisodes_def)
  have keys: "distinct (map e_id (l_episodes (d_ledger db)))" "distinct (map cr_episode (k_reservations (d_costs db)))"
    using linv cost_reachable_inv[OF cinv] by (auto simp: ledger_inv_def keys_ok_def cost_inv_def)
  obtain K where K: "releaseEpisodeCosts ?ids now (d_costs db) = Inr K" "settled_total K = settled_total (d_costs db)"
    "\<forall>i \<in> set ?ids. \<exists>r. LoadReservation i K = Some r \<and> cr_status r = ReservationSettled \<and> cr_actual r = 0"
    "\<forall>i. i \<notin> set ?ids \<longrightarrow> LoadReservation i K = LoadReservation i (d_costs db)"
    using releaseEpisodeCosts_succeeds[OF cinv unstarted_ids(1)[OF keys], of epoch now] unstarted_ids(2)[OF keys] by blast
  have "Kill True epoch now db = Inr (?db1\<lparr>d_ledger := ?L, d_costs := K\<rparr>)"
    using assms(2) L K(1) ids by (simp add: Kill_def killTx_def recordState_def CheckControllable_def)
  then show ?thesis
    using K(2-4) SupersedeEpoch_step(3)[OF L] by auto
qed

definition admitted_db :: runtime_db where
  "admitted_db = \<lparr>d_owner = None, d_epochs = [], d_ledger = ledger2,
     d_costs = (case Reserve ''ep1'' ''t'' 5 ''n'' (initial_costs ''n'') of Inr K \<Rightarrow> K | Inl _ \<Rightarrow> initial_costs ''n'')\<rparr>"

lemma admitted_db_reachable: "runtime_reachable admitted_db"
proof -
  let ?d = "initial_db ''n''"
  let ?es = "[(1, ?d\<lparr>d_ledger := ledger0\<rparr>), (2, ?d\<lparr>d_ledger := ledger1\<rparr>), (3, ?d\<lparr>d_ledger := ledger2\<rparr>), (4, admitted_db)]"
  have L: "ledger_step empty_ledger ledger0" "ledger_step ledger0 ledger1" "ledger_step ledger1 ledger2"
    using sample_runs(1,2) by (auto simp: ledger0_def intro: ledger_step.intros)
  have k: "l_killed empty_ledger = []" "l_killed ledger0 = []" "l_killed ledger1 = []" "l_killed ledger2 = []"
    by code_simp+
  have "Reserve ''ep1'' ''t'' 5 ''n'' (initial_costs ''n'') = Inr (d_costs admitted_db)"
    by code_simp
  then have c: "cost_step (initial_costs ''n'') (d_costs admitted_db)"
    by (rule cost_step.reserve)
  have "runtime_step 1 ?d (?d\<lparr>d_ledger := ledger0\<rparr>)" "runtime_step 2 (?d\<lparr>d_ledger := ledger0\<rparr>) (?d\<lparr>d_ledger := ledger1\<rparr>)"
    "runtime_step 3 (?d\<lparr>d_ledger := ledger1\<rparr>) (?d\<lparr>d_ledger := ledger2\<rparr>)"
    "runtime_step 4 (?d\<lparr>d_ledger := ledger2\<rparr>) admitted_db"
    using runtime_step.ledger_write[of ?d ledger0 1] L(1) k
      runtime_step.ledger_write[of "?d\<lparr>d_ledger := ledger0\<rparr>" ledger1 2] L(2)
      runtime_step.ledger_write[of "?d\<lparr>d_ledger := ledger1\<rparr>" ledger2 3] L(3)
      runtime_step.cost_write[of "?d\<lparr>d_ledger := ledger2\<rparr>" "d_costs admitted_db" 4] c
    by (simp_all add: initial_db_def admitted_db_def)
  then have "timed_run runtime_step ?d ?es \<and> run_end ?d ?es = admitted_db" by simp
  then show ?thesis unfolding runtime_reachable_def by blast
qed

theorem Kill_clears_epoch_witness:
  "outstanding (d_costs admitted_db) = 5 \<and> (\<exists>db' s. Kill True ''pe1'' 9 admitted_db = Inr db'
     \<and> LoadReservation ''ep1'' (d_costs db') = Some s \<and> cr_status s = ReservationSettled \<and> cr_actual s = 0)"
proof -
  have facts: "\<forall>r \<in> set (l_episodes (d_ledger admitted_db)). episode_checks r = [] \<and> situation_known (d_ledger admitted_db) r"
    "''ep1'' \<in> set (UnstartedReservedEpisodes ''pe1'' admitted_db)" "outstanding (d_costs admitted_db) = 5"
    by code_simp+
  with Kill_clears_epoch[OF admitted_db_reachable _ facts(1), of "''pe1''" 9] show ?thesis by blast
qed

text \<open>
  Claim C4. A runtime that does not hold the lease cannot write the episode ledger: under the owner check
  the runner uses, an owned start is refused as a stale attempt, an owned identity fails validation, and
  none of its transitions succeeds, whatever the ledger holds. Together with the takeover property, the
  epoch that lost the lease is fenced off from that moment.
\<close>

theorem lost_owner_cannot_write:
  assumes "\<not> HoldsLease epoch (o_Instance c) t db" and "epoch \<noteq> ''''" and "episodeID \<noteq> ''''" and "attemptID \<noteq> ''''"
    and "i_OwnerEpoch i = epoch"
  shows "StartAttemptOwned episodeID attemptID epoch (ownerLostCheck (Some c) t db) now L = Refuse RejectStaleAttempt
    \<and> (\<exists>e. ValidateWorkerIdentity i (ownerLostCheck (Some c) t db) L = Inl e)
    \<and> (\<exists>e. TransitionAttempt i to_status now terminal (ownerLostCheck (Some c) t db) L = Inl e)"
proof -
  have lost: "requireOwnerLease (ownerLostCheck (Some c) t db) epoch = Refuse RejectStaleAttempt"
    using assms(1,2)
    by (simp add: requireOwnerLease_def AssertOwner_def ownerLostCheck_def AssertOwnership_def assert_owner_def)
  have never: "ValidateWorkerIdentity i (ownerLostCheck (Some c) t db) L \<noteq> Inr x"
    "validateTerminalIdentity i (ownerLostCheck (Some c) t db) L \<noteq> Inr x" for x
    using lost assms(5)
    by (auto simp: ValidateWorkerIdentity_def validateTerminalIdentity_def bind_res_Inr_iff Refuse_def)
  then have "TransitionAttempt i to_status now terminal (ownerLostCheck (Some c) t db) L \<noteq> Inr L'" for L'
    by (auto simp: TransitionAttempt_def validateTransitionIdentity_def bind_res_Inr_iff split: if_splits sum.splits)
  then have "\<exists>e. TransitionAttempt i to_status now terminal (ownerLostCheck (Some c) t db) L = Inl e"
    by (cases "TransitionAttempt i to_status now terminal (ownerLostCheck (Some c) t db) L") auto
  with never(1) show ?thesis
    using lost assms(2-4)
    by (auto simp: StartAttemptOwned_def startAttempt_def Refuse_def intro: sum.exhaust)
qed

theorem lost_owner_cannot_write_witness:
  "StartAttemptOwned ''ep1'' ''at1'' ''epoch-1'' (ownerLostCheck (Some sample_owner) 60000000103 taken_db) 9 ledger2
     = Refuse RejectStaleAttempt"
proof -
  have "\<not> HoldsLease ''epoch-1'' (o_Instance sample_owner) 60000000103 taken_db" by code_simp
  from lost_owner_cannot_write[OF this, of "''ep1''" "''at1''" "sample_identity\<lparr>i_OwnerEpoch := ''epoch-1''\<rparr>"]
  show ?thesis by simp
qed

end
