(* ===== verification/Control_Recovery.thy ===== *)
theory Control_Recovery
  imports Control_Fencing
begin

text \<open>
  Recovery of the episode ledger against the settler the runtime passes to it: the cost ledger of runtime
  control. Settling an abandoned episode at zero is an instance of the contract recovery relies on, so
  the theory says exactly when recovery after a restart succeeds and what it releases.
\<close>

section \<open>The cost ledger as the settler of recovery\<close>

definition SettleEpisodeCost :: "string \<Rightarrow> time \<Rightarrow> costs \<Rightarrow> ledger_error + costs" where
  "SettleEpisodeCost episodeID now K =
     (case Settle episodeID 0 (FormatTime now) K of Inl _ \<Rightarrow> Inl (SettleFailed episodeID) | Inr K' \<Rightarrow> Inr K')"

definition released :: "costs \<Rightarrow> string \<Rightarrow> bool" where
  "released K e \<longleftrightarrow> (\<exists>r. LoadReservation e K = Some r \<and> cr_status r = ReservationSettled \<and> cr_actual r = 0)"

definition releasable :: "costs \<Rightarrow> string \<Rightarrow> bool" where
  "releasable K e \<longleftrightarrow> (\<exists>r. LoadReservation e K = Some r \<and> (cr_status r = ReservationReserved \<or> cr_status r = ReservationSettled \<and> cr_actual r = 0))"

lemma LoadReservation_episode: "LoadReservation e K = Some r \<Longrightarrow> r \<in> set (k_reservations K) \<and> cr_episode r = e"
  by (auto simp: LoadReservation_def dest: find_SomeD)

lemma SettleEpisodeCost_Inr: "SettleEpisodeCost e now K = Inr K' \<longleftrightarrow> Settle e 0 (FormatTime now) K = Inr K'"
  by (auto simp: SettleEpisodeCost_def split: sum.splits)

lemma Settle_zero_iff:
  assumes "cost_reachable K"
  shows "(\<exists>K'. Settle e 0 (FormatTime now) K = Inr K') \<longleftrightarrow> releasable K e"
proof
  assume "\<exists>K'. Settle e 0 (FormatTime now) K = Inr K'"
  then show "releasable K e" by (auto simp: releasable_def Micro_def elim!: Settle_Inr)
next
  assume "releasable K e"
  then obtain r where r: "LoadReservation e K = Some r"
    and st: "cr_status r = ReservationReserved \<or> cr_status r = ReservationSettled \<and> cr_actual r = 0"
    by (auto simp: releasable_def)
  from st show "\<exists>K'. Settle e 0 (FormatTime now) K = Inr K'"
  proof
    assume "cr_status r = ReservationReserved"
    then show ?thesis
      using Settle_zero_succeeds[OF cost_reachable_inv[OF assms] cost_reachable_columns[OF assms] r _ FormatTime_nonempty] by metis
  next
    assume "cr_status r = ReservationSettled \<and> cr_actual r = 0"
    moreover have "e \<noteq> ''''"
      using LoadReservation_episode[OF r] cost_reachable_columns[OF assms] by (auto simp: cost_columns_def)
    ultimately show ?thesis
      using r by (simp add: Settle_def CheckSettlement_def NeedsSettlement_def fits_column_def max_int64_def Micro_def)
  qed
qed

lemma Settle_zero_releases:
  assumes "Settle e 0 now K = Inr K'"
  shows "releasable K' = releasable K" and "released K' e" and "released K e' \<Longrightarrow> released K' e'"
proof -
  note after = Settle_reservations[OF assms]
  show "releasable K' = releasable K"
  proof
    fix x
    show "releasable K' x = releasable K x"
      by (cases "LoadReservation x K") (auto simp: releasable_def after Micro_def)
  qed
  show "released K e' \<Longrightarrow> released K' e'"
    by (cases "LoadReservation e' K") (auto simp: released_def after)
  from assms show "released K' e"
    by (cases rule: Settle_Inr) (auto simp: released_def after[of e] Micro_def dest: LoadReservation_episode)
qed

interpretation episodeCosts: cost_settler SettleEpisodeCost cost_reachable releasable released
proof unfold_locales
  fix c c' :: costs and e :: string and now :: time
  assume "cost_reachable c"
  then show "(\<exists>c'. SettleEpisodeCost e now c = Inr c') \<longleftrightarrow> releasable c e"
    by (simp add: SettleEpisodeCost_Inr Settle_zero_iff)
  assume "cost_reachable c" and "SettleEpisodeCost e now c = Inr c'"
  then have ok: "cost_reachable c" "Settle e 0 (FormatTime now) c = Inr c'" by (simp_all add: SettleEpisodeCost_Inr)
  then show "cost_reachable c' \<and> releasable c' = releasable c"
    using Settle_zero_releases(1) by (blast intro: cost_reachable.step cost_step.settle)
  show "released c' e \<and> (\<forall>e'. released c e' \<longrightarrow> released c' e')"
    using Settle_zero_releases(2,3)[OF ok(2)] by blast
qed

section \<open>Recovery succeeds\<close>

lemma Canceling_listed:
  "(\<forall>u \<in> set (UnfinishedAttempts epoch L). Canceling u \<longrightarrow> P (ua_EpisodeID u)) \<longleftrightarrow>
     (\<forall>t \<in> set (l_attempts L). t_status t = AttemptCancelling \<and> t_owner t \<noteq> Some epoch \<longrightarrow> P (t_episode t))"
  by (auto simp: UnfinishedAttempts_def Canceling_def Unfinished_def IsTerminalAttempt_def)

text \<open>
  Claim C24. Recovery with the runtime's cost ledger, from any reachable ledger and any reachable costs,
  succeeds exactly when each attempt of another epoch that was being cancelled has an episode whose
  reservation is still open or was already settled at zero; it fails on nothing else. When it succeeds
  it reports every unfinished attempt of another epoch as abandoned, once, it leaves the costs in a
  reachable state, and the reservation of each such episode is settled at zero.
\<close>

theorem recovery_succeeds:
  assumes "ledger_steps empty_ledger L" and "cost_reachable K" and "epoch \<noteq> ''''"
  shows "((\<exists>rc. RecoverUnfinishedAttempts epoch now (Some SettleEpisodeCost) L K = Inr rc) \<longleftrightarrow>
        (\<forall>t \<in> set (l_attempts L). t_status t = AttemptCancelling \<and> t_owner t \<noteq> Some epoch \<longrightarrow>
           (\<exists>r. LoadReservation (t_episode t) K = Some r
              \<and> (cr_status r = ReservationReserved \<or> cr_status r = ReservationSettled \<and> cr_actual r = 0))))
    \<and> (\<forall>rc. RecoverUnfinishedAttempts epoch now (Some SettleEpisodeCost) L K = Inr rc \<longrightarrow>
        rr_AbandonedAttempts (rc_report rc) =
          int (length (filter (\<lambda>t. Unfinished (t_status t) \<and> t_owner t \<noteq> Some epoch) (l_attempts L)))
        \<and> cost_reachable (rc_costs rc)
        \<and> (\<forall>t \<in> set (l_attempts L). t_status t = AttemptCancelling \<and> t_owner t \<noteq> Some epoch \<longrightarrow>
             (\<exists>r. LoadReservation (t_episode t) (rc_costs rc) = Some r \<and> cr_status r = ReservationSettled \<and> cr_actual r = 0)))"
proof -
  let ?items = "UnfinishedAttempts epoch L"
  let ?rc0 = "\<lparr>rc_ledger = L, rc_costs = K,
    rc_report = \<lparr>rr_AbandonedAttempts = 0, rr_RequeuedEpisodes = 0, rr_AbandonedEpisodes = 0\<rparr>\<rparr>"
  have recover: "RecoverUnfinishedAttempts epoch now (Some SettleEpisodeCost) L K = recover_all (Some SettleEpisodeCost) now ?items ?rc0"
    using assms(3) by (simp add: RecoverUnfinishedAttempts_def)
  have listed: "listed ?items (rc_ledger ?rc0)" and good: "cost_reachable (rc_costs ?rc0)"
    using UnfinishedAttempts_listed[OF reachable_inv[OF assms(1)]] assms(2) by simp_all
  have "(\<exists>rc. recover_all (Some SettleEpisodeCost) now ?items ?rc0 = Inr rc) \<longleftrightarrow>
      (\<forall>t \<in> set (l_attempts L). t_status t = AttemptCancelling \<and> t_owner t \<noteq> Some epoch \<longrightarrow> releasable K (t_episode t))"
    using episodeCosts.recover_all_iff[OF good listed] by (simp add: Canceling_listed)
  moreover have "rr_AbandonedAttempts (rc_report rc) = int (length ?items) \<and> cost_reachable (rc_costs rc)
      \<and> (\<forall>t \<in> set (l_attempts L). t_status t = AttemptCancelling \<and> t_owner t \<noteq> Some epoch \<longrightarrow> released (rc_costs rc) (t_episode t))"
    if ok: "recover_all (Some SettleEpisodeCost) now ?items ?rc0 = Inr rc" for rc
    using recover_all_count[OF ok listed] episodeCosts.recover_all_releases[OF ok good listed] by (simp add: Canceling_listed)
  ultimately show ?thesis
    unfolding recover releasable_def released_def by (simp add: UnfinishedAttempts_def)
qed

text \<open>A sample: the attempt was being cancelled when its owner died, and its episode holds a reservation.\<close>

definition ledger_cancelling :: ledger where
  "ledger_cancelling = run (TransitionAttempt sample_identity AttemptCancelling 9 '''' held ledger4)"

definition costs_reserved :: costs where
  "costs_reserved = run_costs (Reserve ''ep1'' ''t'' 40 ''n'' sample_costs)"

theorem recovery_succeeds_witness:
  "(\<exists>rc r. RecoverUnfinishedAttempts ''o2'' 20 (Some SettleEpisodeCost) ledger_cancelling costs_reserved = Inr rc
      \<and> rr_AbandonedAttempts (rc_report rc) = 1
      \<and> LoadReservation ''ep1'' (rc_costs rc) = Some r \<and> cr_status r = ReservationSettled \<and> cr_actual r = 0)
   \<and> \<not> (\<exists>rc. RecoverUnfinishedAttempts ''o2'' 20 (Some SettleEpisodeCost) ledger_cancelling sample_costs = Inr rc)"
proof -
  have "TransitionAttempt sample_identity AttemptCancelling 9 '''' held ledger4 = Inr ledger_cancelling" by code_simp
  then have L: "ledger_steps empty_ledger ledger_cancelling"
    by (rule ledger_steps.step[OF sample_reachable(4) ledger_step.transition])
  have "Reserve ''ep1'' ''t'' 40 ''n'' sample_costs = Inr costs_reserved" by code_simp
  then have K: "cost_reachable costs_reserved"
    by (rule cost_reachable.step[OF sample_cost_reachable(1) cost_step.reserve])
  have rows: "\<forall>t \<in> set (l_attempts ledger_cancelling). t_episode t = ''ep1'' \<and> t_status t = AttemptCancelling \<and> t_owner t \<noteq> Some ''o2''"
    "length (l_attempts ledger_cancelling) = 1"
    "map_option cr_status (LoadReservation ''ep1'' costs_reserved) = Some ReservationReserved"
    "LoadReservation ''ep1'' sample_costs = None"
    by code_simp+
  obtain t where t: "l_attempts ledger_cancelling = [t]" using rows(2) by (auto simp: length_Suc_conv)
  have o2: "''o2'' \<noteq> ''''" by simp
  note ok = recovery_succeeds[OF L K o2, of 20] and stuck = recovery_succeeds[OF L sample_cost_reachable(1) o2, of 20]
  have un: "Unfinished AttemptCancelling" by code_simp
  from ok rows t obtain rc where rc: "RecoverUnfinishedAttempts ''o2'' 20 (Some SettleEpisodeCost) ledger_cancelling costs_reserved = Inr rc"
    by auto
  with ok rows t un have "\<exists>r. rr_AbandonedAttempts (rc_report rc) = 1
      \<and> LoadReservation ''ep1'' (rc_costs rc) = Some r \<and> cr_status r = ReservationSettled \<and> cr_actual r = 0"
    by (auto cong: filter_cong)
  with rc stuck rows t show ?thesis by auto
qed

end
