(* ===== verification/Go_Float.thy ===== *)
theory Go_Float
  imports Spec_Duration
begin

text \<open>
  Go's \<open>float64\<close>: IEEE binary64 with rounding to nearest, ties to even. A finite value is the rational
  it denotes, with a value of its own for the negative zero (the canonical encoder refuses it); each
  operation is the exact one followed by one rounding, which is also what an explicit \<open>float64(a * b)\<close>
  conversion forces in the source.
\<close>

datatype float64 = NaN | Infinite bool | NegZero | Finite rat

definition max_finite :: rat where
  "max_finite = (2 ^ 53 - 1) * 2 ^ 971"

definition round_positive :: "rat \<Rightarrow> rat" where
  "round_positive x =
     (let e = max (binary_exponent x - 52) (- 1074)
      in of_int (round_half_even (x / pow2 e)) * pow2 e)"

definition signed_zero :: "bool \<Rightarrow> float64" where
  "signed_zero s = (if s then NegZero else Finite 0)"

definition float_signed :: "bool \<Rightarrow> rat \<Rightarrow> float64" where
  "float_signed s x =
     (if x = 0 then signed_zero s
      else let r = round_positive x
           in if r > max_finite then Infinite s
              else if r = 0 then signed_zero s else Finite (if s then - r else r))"

definition float_round :: "rat \<Rightarrow> float64" where
  "float_round x = float_signed (x < 0) \<bar>x\<bar>"

definition float_of_int :: "int \<Rightarrow> float64" where
  "float_of_int n = float_round (of_int n)"

fun sign_bit :: "float64 \<Rightarrow> bool" where
  "sign_bit NaN = False"
| "sign_bit (Infinite s) = s"
| "sign_bit NegZero = True"
| "sign_bit (Finite x) = (x < 0)"

fun is_infinite :: "float64 \<Rightarrow> bool" where
  "is_infinite (Infinite s) = True"
| "is_infinite _ = False"

fun is_finite :: "float64 \<Rightarrow> bool" where
  "is_finite (Finite x) = True"
| "is_finite NegZero = True"
| "is_finite _ = False"

fun finite_value :: "float64 \<Rightarrow> rat" where
  "finite_value (Finite x) = x"
| "finite_value _ = 0"

definition is_zero :: "float64 \<Rightarrow> bool" where
  "is_zero f \<longleftrightarrow> is_finite f \<and> finite_value f = 0"

fun float_neg :: "float64 \<Rightarrow> float64" where
  "float_neg NaN = NaN"
| "float_neg (Infinite s) = Infinite (\<not> s)"
| "float_neg NegZero = Finite 0"
| "float_neg (Finite x) = (if x = 0 then NegZero else Finite (- x))"

fun float_add :: "float64 \<Rightarrow> float64 \<Rightarrow> float64" where
  "float_add NaN b = NaN"
| "float_add a NaN = NaN"
| "float_add (Infinite s) (Infinite t) = (if s = t then Infinite s else NaN)"
| "float_add (Infinite s) b = Infinite s"
| "float_add a (Infinite t) = Infinite t"
| "float_add NegZero b = b"
| "float_add a NegZero = a"
| "float_add (Finite x) (Finite y) = float_round (x + y)"

definition float_sub :: "float64 \<Rightarrow> float64 \<Rightarrow> float64" where
  "float_sub a b = float_add a (float_neg b)"

definition float_mul :: "float64 \<Rightarrow> float64 \<Rightarrow> float64" where
  "float_mul a b =
     (let s = (sign_bit a \<noteq> sign_bit b)
      in if a = NaN \<or> b = NaN then NaN
         else if is_infinite a \<or> is_infinite b then (if is_zero a \<or> is_zero b then NaN else Infinite s)
         else float_signed s \<bar>finite_value a * finite_value b\<bar>)"

definition float_div :: "float64 \<Rightarrow> float64 \<Rightarrow> float64" where
  "float_div a b =
     (let s = (sign_bit a \<noteq> sign_bit b)
      in if a = NaN \<or> b = NaN \<or> is_infinite a \<and> is_infinite b \<or> is_zero a \<and> is_zero b then NaN
         else if is_infinite a \<or> is_zero b then Infinite s
         else if is_infinite b then signed_zero s
         else float_signed s \<bar>finite_value a / finite_value b\<bar>)"

function int_sqrt :: "int \<Rightarrow> int" where
  "int_sqrt n = (if n \<le> 0 then 0
     else let r = 2 * int_sqrt (n div 4) in if (r + 1) * (r + 1) \<le> n then r + 1 else r)"
  by pat_completeness auto
termination
  by (relation "measure nat") auto

declare int_sqrt.simps [simp del]

text \<open>\<open>math.Sqrt\<close> is correctly rounded: the 53-bit integer root of the scaled operand, rounded up when
  the operand lies beyond the midpoint (a midpoint is never an exact square of a binary64).\<close>

fun float_sqrt :: "float64 \<Rightarrow> float64" where
  "float_sqrt NaN = NaN"
| "float_sqrt (Infinite s) = (if s then NaN else Infinite False)"
| "float_sqrt NegZero = NegZero"
| "float_sqrt (Finite x) =
     (if x < 0 then NaN else if x = 0 then Finite 0
      else let k = binary_exponent x div 2 - 52;
               y = x / (pow2 k * pow2 k);
               r = int_sqrt \<lfloor>y\<rfloor>;
               half = of_int r + 1 / 2
           in Finite (of_int (if y > half * half then r + 1 else r) * pow2 k))"

text \<open>Comparison: the two zeros are equal, a NaN compares false with everything.\<close>

fun float_less :: "float64 \<Rightarrow> float64 \<Rightarrow> bool" where
  "float_less NaN b = False"
| "float_less a NaN = False"
| "float_less (Infinite s) (Infinite t) = (s \<and> \<not> t)"
| "float_less (Infinite s) b = s"
| "float_less a (Infinite t) = (\<not> t)"
| "float_less a b = (finite_value a < finite_value b)"

fun float_eq :: "float64 \<Rightarrow> float64 \<Rightarrow> bool" where
  "float_eq NaN b = False"
| "float_eq a NaN = False"
| "float_eq (Infinite s) (Infinite t) = (s = t)"
| "float_eq (Infinite s) b = False"
| "float_eq a (Infinite t) = False"
| "float_eq a b = (finite_value a = finite_value b)"

lemma int_sqrt_bounds: "0 \<le> n \<Longrightarrow> 0 \<le> int_sqrt n \<and> int_sqrt n * int_sqrt n \<le> n \<and> n < (int_sqrt n + 1) * (int_sqrt n + 1)"
proof (induction n rule: int_sqrt.induct)
  case (1 n)
  show ?case
  proof (cases "n \<le> 0")
    case True
    then show ?thesis using 1(2) by (simp add: int_sqrt.simps)
  next
    case False
    define s where "s = int_sqrt (n div 4)"
    have s: "0 \<le> s" "s * s \<le> n div 4" "n div 4 < (s + 1) * (s + 1)"
      using 1(1)[OF False] False by (simp_all add: s_def)
    have lower: "2 * s * (2 * s) \<le> n"
      using s(2) by (simp add: mult.assoc) 
    have upper: "n < (2 * s + 2) * (2 * s + 2)"
    proof -
      have "n div 4 + 1 \<le> (s + 1) * (s + 1)" using s(3) by simp
      then have "4 * (n div 4) + 4 \<le> (2 * s + 2) * (2 * s + 2)" by (simp add: algebra_simps)
      then show ?thesis using mult_div_mod_eq[of 4 n] pos_mod_bound[of 4 n] by linarith
    qed
    have "int_sqrt n = (if (2 * s + 1) * (2 * s + 1) \<le> n then 2 * s + 1 else 2 * s)"
      using False by (subst int_sqrt.simps) (simp add: s_def Let_def)
    then show ?thesis using s(1) lower upper by (auto simp: algebra_simps)
  qed
qed


section \<open>Reading a decimal\<close>

definition pow10 :: "int \<Rightarrow> rat" where
  "pow10 e = (if 0 \<le> e then 10 ^ nat e else 1 / 10 ^ nat (- e))"

text \<open>\<open>strconv.ParseFloat\<close> on decimal texts: sign, digits with at most one point, exponent. The library
  stops accumulating an exponent at \<open>10000\<close>. The hexadecimal and the named forms, which no JSON number
  has, are errors here.\<close>

fun exponent_value :: "string \<Rightarrow> int \<Rightarrow> int" where
  "exponent_value [] acc = acc"
| "exponent_value (c # cs) acc = exponent_value cs (if acc < 10000 then acc * 10 + digit_value c else acc)"

definition read_sign :: "string \<Rightarrow> bool \<times> string" where
  "read_sign s = (case s of
     c # rest \<Rightarrow> if c = CHR ''-'' then (True, rest) else if c = CHR ''+'' then (False, rest) else (False, s)
   | [] \<Rightarrow> (False, s))"

definition read_exponent :: "string \<Rightarrow> int option" where
  "read_exponent s = (case s of
     [] \<Rightarrow> Some 0
   | c # rest \<Rightarrow>
       let (neg, ds) = read_sign rest
       in if c \<noteq> CHR ''e'' \<and> c \<noteq> CHR ''E'' \<or> ds = [] \<or> \<not> list_all is_digit ds then None
          else Some (if neg then - exponent_value ds 0 else exponent_value ds 0))"

definition read_decimal :: "string \<Rightarrow> (bool \<times> int \<times> int) option" where
  "read_decimal s =
     (let (neg, s1) = read_sign s;
          whole = takeWhile is_digit s1;
          s2 = dropWhile is_digit s1;
          point = (s2 \<noteq> [] \<and> hd s2 = CHR ''.'');
          frac = (if point then takeWhile is_digit (tl s2) else []);
          s3 = (if point then dropWhile is_digit (tl s2) else s2)
      in if whole = [] \<and> frac = [] then None
         else case read_exponent s3 of None \<Rightarrow> None
         | Some e \<Rightarrow> Some (neg, decimal_value (whole @ frac) 0, e - int (length frac)))"

definition ParseFloat :: "string \<Rightarrow> float64 result" where
  "ParseFloat s = (case read_decimal s of
     None \<Rightarrow> Inl (Errorf ''invalid syntax'')
   | Some (neg, digits, e) \<Rightarrow>
       let f = float_signed neg (of_int digits * pow10 e)
       in if is_finite f then Inr f else Inl (Errorf ''value out of range''))"

end
