(* ===== verification/Contracts.thy ===== *)
theory Contracts
  imports Go_Float
begin

text \<open>
  The shared contracts (\<^verbatim>\<open>internal/contractsv1/internal/domain\<close>: \<^verbatim>\<open>envelope.go\<close>, \<^verbatim>\<open>trace_context.go\<close>,
  \<^verbatim>\<open>risk.go\<close>, \<^verbatim>\<open>fields.go\<close>): dynamic values, the event envelope and its partition, the W3C trace
  context and the risk classes.

  A Go \<open>any\<close> holds one of the dynamic types the source switches on: \<open>AnyStrings\<close> and \<open>AnyStringMap\<close>
  are the typed \<open>[]string\<close> and \<open>map[string]string\<close>, a \<open>json.Number\<close> is the text it was read from. A Go
  map is an association list.
\<close>

section \<open>Dynamic values\<close>

datatype any_value =
    AnyNil
  | AnyBool bool
  | AnyString string
  | AnyFloat64 float64
  | AnyFloat32 float64
  | AnyInt int
  | AnyInt64 int
  | AnyUint64 int
  | AnyNumber string
  | AnyTime time
  | AnyStrings "string list"
  | AnyStringMap "(string \<times> string) list"
  | AnySlice "any_value list"
  | AnyMap "(string \<times> any_value) list"

type_synonym document = "(string \<times> any_value) list"

fun as_string :: "any_value option \<Rightarrow> string option" where
  "as_string (Some (AnyString s)) = Some s"
| "as_string _ = None"

definition DocumentString :: "document \<Rightarrow> string \<Rightarrow> string" where
  "DocumentString d key = (case as_string (map_of d key) of Some s \<Rightarrow> s | None \<Rightarrow> '''')"

text \<open>\<open>strings.TrimSpace\<close>: the UTF-8 encodings of the runes \<open>unicode.IsSpace\<close> accepts.\<close>

definition space_runes :: "string list" where
  "space_runes =
     [[CHR 0x09], [CHR 0x0A], [CHR 0x0B], [CHR 0x0C], [CHR 0x0D], [CHR 0x20],
      [CHR 0xC2, CHR 0x85], [CHR 0xC2, CHR 0xA0], [CHR 0xE1, CHR 0x9A, CHR 0x80],
      [CHR 0xE2, CHR 0x80, CHR 0xA8], [CHR 0xE2, CHR 0x80, CHR 0xA9], [CHR 0xE2, CHR 0x80, CHR 0xAF],
      [CHR 0xE2, CHR 0x81, CHR 0x9F], [CHR 0xE3, CHR 0x80, CHR 0x80],
      [CHR 0xE2, CHR 0x80, CHR 0x80], [CHR 0xE2, CHR 0x80, CHR 0x81], [CHR 0xE2, CHR 0x80, CHR 0x82],
      [CHR 0xE2, CHR 0x80, CHR 0x83], [CHR 0xE2, CHR 0x80, CHR 0x84], [CHR 0xE2, CHR 0x80, CHR 0x85],
      [CHR 0xE2, CHR 0x80, CHR 0x86], [CHR 0xE2, CHR 0x80, CHR 0x87], [CHR 0xE2, CHR 0x80, CHR 0x88],
      [CHR 0xE2, CHR 0x80, CHR 0x89], [CHR 0xE2, CHR 0x80, CHR 0x8A]]"

fun trim_front :: "string list \<Rightarrow> nat \<Rightarrow> string \<Rightarrow> string" where
  "trim_front runes 0 s = s"
| "trim_front runes (Suc n) s = (case find (\<lambda>p. has_prefix s p) runes of
     None \<Rightarrow> s | Some p \<Rightarrow> trim_front runes n (drop (length p) s))"

definition trim_space :: "string \<Rightarrow> string" where
  "trim_space s =
     (let front = trim_front space_runes (length s) s
      in rev (trim_front (map rev space_runes) (length front) (rev front)))"

section \<open>The event envelope\<close>

record quality_flag =
  qf_Code :: string
  qf_Message :: string

record entity_ref =
  er_Type :: string
  er_ID :: string

record envelope =
  env_ID :: string
  env_Type :: string
  env_SchemaVersion :: string
  env_TenantID :: string
  env_Source :: string
  env_PartitionKey :: string
  env_Entity :: entity_ref
  env_EventTime :: time
  env_ObservedAt :: "time option"
  env_IngestedAt :: time
  env_CorrelationID :: string
  env_CausationID :: string
  env_Traceparent :: string
  env_Tracestate :: string
  env_Classification :: string
  env_Quality :: "quality_flag list"
  env_Data :: "document option"

definition validateEnvelopeIdentity :: "envelope \<Rightarrow> string \<Rightarrow> unit result" where
  "validateEnvelopeIdentity e tenantID =
     (if env_ID e = '''' \<or> env_Type e = '''' \<or> env_SchemaVersion e = '''' \<or> env_Source e = ''''
      then Inl (Errorf ''event id, type, schema_version, and source are required'')
      else if env_TenantID e = '''' then Inl (Errorf ''tenant_id is required'')
      else if tenantID \<noteq> '''' \<and> env_TenantID e \<noteq> tenantID then Inl (Errorf ''tenant mismatch'')
      else if env_PartitionKey e = '''' \<or> er_Type (env_Entity e) = '''' \<or> er_ID (env_Entity e) = ''''
      then Inl (Errorf ''partition_key and entity identity are required'')
      else Inr ())"

definition ValidateEnvelope :: "envelope \<Rightarrow> string \<Rightarrow> unit result" where
  "ValidateEnvelope e tenantID =
     bind_res (validateEnvelopeIdentity e tenantID) (\<lambda>_.
       if is_zero_time (env_EventTime e) \<or> is_zero_time (env_IngestedAt e)
       then Inl (Errorf ''event_time and ingested_at are required'')
       else if (case env_ObservedAt e of Some t \<Rightarrow> t < env_EventTime e | None \<Rightarrow> False)
       then Inl (Errorf ''observed_at must not precede event_time'')
       else if env_Data e = None then Inl (Errorf ''data is required'')
       else Inr ())"

text \<open>\<open>hash/fnv\<close>'s 64-bit FNV-1a.\<close>

definition fnv64a :: "string \<Rightarrow> 64 word" where
  "fnv64a s = foldl (\<lambda>h c. (h XOR of_int (of_char c)) * 1099511628211) 14695981039346656037 s"

definition PartitionCount :: int where
  "PartitionCount = 64"

definition PartitionID :: "envelope \<Rightarrow> int \<Rightarrow> int" where
  "PartitionID e partitions =
     (let n = (if partitions \<le> 0 then PartitionCount else partitions)
      in uint (fnv64a (env_TenantID e @ [char_of (0::nat)] @ env_PartitionKey e)) mod n)"

section \<open>Trace context\<close>

record trace_context =
  tc_Traceparent :: string
  tc_Tracestate :: string

definition is_lower_hex :: "char \<Rightarrow> bool" where
  "is_lower_hex c \<longleftrightarrow> is_digit c \<or> 97 \<le> (of_char c :: int) \<and> (of_char c :: int) \<le> 102"

definition hex_field :: "nat \<Rightarrow> string \<Rightarrow> bool" where
  "hex_field n s \<longleftrightarrow> length s = n \<and> list_all is_lower_hex s"

text \<open>The pattern has fixed width: fields of 2, 32, 16 and 2 hexadecimal digits joined by dashes.\<close>

definition traceparentPattern :: "string \<Rightarrow> bool" where
  "traceparentPattern s \<longleftrightarrow> length s = 55
     \<and> hex_field 2 (take 2 s) \<and> s ! 2 = CHR ''-''
     \<and> hex_field 32 (take 32 (drop 3 s)) \<and> s ! 35 = CHR ''-''
     \<and> hex_field 16 (take 16 (drop 36 s)) \<and> s ! 52 = CHR ''-''
     \<and> hex_field 2 (drop 53 s)"

definition all_char :: "char \<Rightarrow> string \<Rightarrow> bool" where
  "all_char c s \<longleftrightarrow> list_all (\<lambda>x. x = c) s"

definition checkTraceparent :: "string \<Rightarrow> unit result" where
  "checkTraceparent s =
     (if \<not> traceparentPattern s then Inl (Errorf ''invalid W3C traceparent'')
      else if all_char CHR ''0'' (take 32 (drop 3 s)) \<or> all_char CHR ''0'' (take 16 (drop 36 s))
              \<or> take 32 (drop 3 s) = replicate 32 CHR ''f''
      then Inl (Errorf ''traceparent contains an invalid zero or all-ones identifier'')
      else Inr ())"

definition ParseTraceContext :: "string \<Rightarrow> string \<Rightarrow> trace_context result" where
  "ParseTraceContext traceparent tracestate =
     (if traceparent = '''' \<and> tracestate \<noteq> '''' then Inl (Errorf ''tracestate requires traceparent'')
      else if traceparent = '''' then Inr \<lparr>tc_Traceparent = '''', tc_Tracestate = ''''\<rparr>
      else bind_res (checkTraceparent traceparent) (\<lambda>_.
        if length tracestate > 512 \<or> list_ex (\<lambda>c. c = CHR 0x0D \<or> c = CHR 0x0A) tracestate
        then Inl (Errorf ''invalid tracestate'')
        else Inr \<lparr>tc_Traceparent = traceparent, tc_Tracestate = tracestate\<rparr>))"

definition Link :: "trace_context \<Rightarrow> trace_context option" where
  "Link c = (if tc_Traceparent c = '''' then None
     else Some \<lparr>tc_Traceparent = tc_Traceparent c, tc_Tracestate = tc_Tracestate c\<rparr>)"

section \<open>Risk classes\<close>

datatype route = RouteAutomatic | RouteApproval | RouteDenied

definition riskPolicy :: "(string \<times> route) list" where
  "riskPolicy = [(''R0'', RouteAutomatic), (''R1'', RouteAutomatic), (''R2'', RouteApproval),
     (''R3'', RouteDenied), (''R4'', RouteDenied)]"

definition RiskClasses :: "string list" where
  "RiskClasses = map fst riskPolicy"

fun rank_from :: "int \<Rightarrow> (string \<times> route) list \<Rightarrow> string \<Rightarrow> int" where
  "rank_from i [] r = 0"
| "rank_from i ((c, _) # rest) r = (if c = r then i + 1 else rank_from (i + 1) rest r)"

definition Rank :: "string \<Rightarrow> int" where
  "Rank = rank_from 0 riskPolicy"

definition risk_Valid :: "string \<Rightarrow> bool" where
  "risk_Valid r \<longleftrightarrow> Rank r \<noteq> 0"

definition AtMost :: "string \<Rightarrow> string \<Rightarrow> bool" where
  "AtMost r limit \<longleftrightarrow> Rank r \<le> Rank limit"

definition baseRoute :: "string \<Rightarrow> route" where
  "baseRoute r = (case map_of riskPolicy r of Some route \<Rightarrow> route | None \<Rightarrow> RouteDenied)"

definition Consequential :: "string \<Rightarrow> bool" where
  "Consequential r \<longleftrightarrow> risk_Valid r \<and> baseRoute r \<noteq> RouteAutomatic"

definition Approvable :: "string \<Rightarrow> bool" where
  "Approvable r \<longleftrightarrow> risk_Valid r \<and> baseRoute r \<noteq> RouteDenied"

definition RouteFor :: "string \<Rightarrow> bool \<Rightarrow> route" where
  "RouteFor risk requiresApproval =
     (if baseRoute risk = RouteAutomatic \<and> requiresApproval then RouteApproval else baseRoute risk)"

section \<open>Facts\<close>

lemma PartitionID_range: "0 \<le> PartitionID e partitions" "PartitionID e partitions < (if partitions \<le> 0 then 64 else partitions)"
  by (simp_all add: PartitionID_def PartitionCount_def Let_def)

text \<open>The risk policy is monotone in the class: a higher class never gets a more permissive route.\<close>

fun route_rank :: "route \<Rightarrow> nat" where
  "route_rank RouteAutomatic = 0"
| "route_rank RouteApproval = 1"
| "route_rank RouteDenied = 2"

lemma RouteFor_monotone:
  assumes "risk_Valid r" and "risk_Valid s" and "AtMost r s"
  shows "route_rank (RouteFor r b) \<le> route_rank (RouteFor s b)"
proof -
  have "r \<in> set RiskClasses" "s \<in> set RiskClasses"
    using assms by (auto simp: risk_Valid_def Rank_def riskPolicy_def RiskClasses_def split: if_splits)
  then show ?thesis
    using assms(3) by (auto simp: RiskClasses_def riskPolicy_def AtMost_def Rank_def RouteFor_def baseRoute_def)
qed

end
