(* ===== verification/Operators.thy ===== *)
theory Operators
  imports Engine_Time Contracts
begin

text \<open>
  The stream operators (\<^verbatim>\<open>internal/operators/internal/domain\<close>): window configuration, boot fencing,
  windowed aggregates with the journal of unsaved samples, heartbeats and their timers.

  The runtime's state is a partition: for each operator and state key a blob with a window, a heartbeat
  or the boot admissions of an entity. The identifier generator is a function from the number of
  identifiers drawn so far, which every operation threads. An operation that fails returns no state,
  because its caller drops the cached partition and reloads it.
\<close>

section \<open>Completeness\<close>

definition CompletenessProvisional :: string where "CompletenessProvisional = ''provisional''"
definition CompletenessOnTime :: string where "CompletenessOnTime = ''on_time''"
definition CompletenessCorrected :: string where "CompletenessCorrected = ''corrected''"
definition CompletenessFinalByPolicy :: string where "CompletenessFinalByPolicy = ''final_by_policy''"
definition CompletenessUncertain :: string where "CompletenessUncertain = ''uncertain''"

text \<open>A value outside the table has rank 0, as a Go map gives its zero value.\<close>

definition completenessRank :: "string \<Rightarrow> int" where
  "completenessRank c =
     (if c = CompletenessProvisional then 1 else if c = CompletenessOnTime then 2
      else if c = CompletenessCorrected then 3 else if c = CompletenessFinalByPolicy then 4 else 0)"

definition AtLeast :: "string \<Rightarrow> string \<Rightarrow> bool" where
  "AtLeast c required \<longleftrightarrow> completenessRank c \<ge> completenessRank required"

definition weaker :: "string \<Rightarrow> string \<Rightarrow> string" where
  "weaker weakest v = (if completenessRank v < completenessRank weakest then v else weakest)"

fun Weakest :: "string list \<Rightarrow> string" where
  "Weakest [] = ''''"
| "Weakest (v # vs) = foldl weaker v vs"

section \<open>The compiled specification\<close>

record spec_input =
  in_Name :: string
  in_EventType :: string
  in_SchemaVersion :: string
  in_SchemaRef :: string
  in_PartitionKey :: string
  in_EntityType :: string

record spec_window =
  w_Name :: string
  w_Kind :: string
  w_Size :: string
  w_Slide :: string
  w_Emit :: string

record spec_operator =
  op_Name :: string
  op_Kind :: string
  op_Inputs :: "string list"
  op_Field :: string
  op_Window :: string
  op_Aggregate :: string
  op_Duration :: string
  op_Output :: string
  op_Unit :: string

text \<open>Of a registered event schema the operators use the names of its fields only.\<close>

record compiled_spec =
  cs_Inputs :: "spec_input list"
  cs_Time :: time_policy
  cs_Windows :: "spec_window list"
  cs_Operators :: "spec_operator list"
  cs_EventSchema :: "(string \<times> string list) list"

section \<open>State\<close>

record sample =
  sa_EventID :: string
  sa_EventTime :: time
  sa_Value :: float64
  sa_BootID :: string

record window_state =
  ws_BootID :: string
  ws_Samples :: "sample list"
  ws_LastEmit :: time
  ws_WindowEnd :: time
  ws_admitted :: "sample list"
  ws_expired :: "sample list"

record heartbeat_state =
  hs_BootID :: string
  hs_LastEventTime :: "time option"
  hs_LastEventID :: string
  hs_LastProcessingTime :: "time option"
  hs_Traceparent :: string
  hs_Tracestate :: string

record runtime_state =
  rs_CurrentBootID :: string
  rs_SeenBootIDs :: "string list"

record state_blob =
  b_Window :: "window_state option"
  b_Heartbeat :: "heartbeat_state option"
  b_Runtime :: "runtime_state option"

type_synonym operator_states = "(string \<times> state_blob) list"
type_synonym partition_state = "(string \<times> operator_states) list"

record feature =
  f_FeatureID :: string
  f_OperatorID :: string
  f_OutputName :: string
  f_TenantID :: string
  f_EntityType :: string
  f_EntityID :: string
  f_StateKey :: string
  f_BootID :: string
  f_PartitionID :: int
  f_WindowStart :: time
  f_WindowEnd :: time
  f_Value :: any_value
  f_Unit :: string
  f_EventTime :: time
  f_Watermark :: time
  f_InputEventIDs :: "string list"
  f_Completeness :: string
  f_Traceparent :: string
  f_Tracestate :: string
  f_TraceContinuation :: bool
  f_Metadata :: document

record window_config =
  wc_size :: duration
  wc_slide :: duration
  wc_emit :: string

record operator_instance =
  oi_def :: spec_operator
  oi_window :: "window_config option"

record operator_runtime =
  or_spec :: compiled_spec
  or_newID :: "nat \<Rightarrow> string"
  or_byInput :: "(string \<times> operator_instance list) list"

section \<open>Configuration\<close>

definition parse_duration :: "string \<Rightarrow> duration result" where
  "parse_duration s = wrap_err ''parse duration'' (ParseDuration s)"

definition emitMode :: "string \<Rightarrow> string result" where
  "emitMode emit =
     (if emit = '''' then Inr ''on_close''
      else if emit \<in> {''on_update'', ''on_close'', ''early_and_close''} then Inr emit
      else Inl (Errorf ''unsupported emit mode''))"

definition tumblingWindow :: "spec_window \<Rightarrow> string \<Rightarrow> window_config result" where
  "tumblingWindow w emit =
     (if w_Slide w \<noteq> '''' then Inl (Errorf ''tumbling windows do not support slide'')
      else bind_res (wrap_err ''tumbling size'' (parse_duration (w_Size w))) (\<lambda>size.
        if size \<le> 0 then Inl (Errorf ''tumbling size must be positive'')
        else Inr \<lparr>wc_size = size, wc_slide = 0, wc_emit = emit\<rparr>))"

definition checkSlide :: "duration \<Rightarrow> duration \<Rightarrow> unit result" where
  "checkSlide width slide =
     (if width \<le> 0 then Inl (Errorf ''sliding size must be positive'')
      else if slide \<le> 0 then Inl (Errorf ''sliding slide must be positive'')
      else if slide > width then Inl (Errorf ''sliding slide exceeds size'')
      else Inr ())"

definition slidingWindow :: "spec_window \<Rightarrow> string \<Rightarrow> window_config result" where
  "slidingWindow w emit =
     bind_res (wrap_err ''sliding size'' (parse_duration (w_Size w))) (\<lambda>size.
     bind_res (wrap_err ''sliding slide'' (parse_duration (w_Slide w))) (\<lambda>slide.
     bind_res (checkSlide size slide) (\<lambda>_.
     Inr \<lparr>wc_size = size, wc_slide = slide, wc_emit = emit\<rparr>)))"

definition newWindowConfig :: "spec_window \<Rightarrow> window_config result" where
  "newWindowConfig w = bind_res (emitMode (w_Emit w)) (\<lambda>emit.
     if w_Kind w = ''tumbling'' then tumblingWindow w emit
     else if w_Kind w = ''sliding'' then slidingWindow w emit
     else Inl (Errorf ''unsupported window kind''))"

fun buildWindowConfigs :: "spec_window list \<Rightarrow> (string \<times> window_config) list \<Rightarrow> (string \<times> window_config) list result" where
  "buildWindowConfigs [] cfgs = Inr cfgs"
| "buildWindowConfigs (w # ws) cfgs =
     bind_res (wrap_err ''window'' (newWindowConfig w)) (\<lambda>cfg.
       buildWindowConfigs ws (AList.update (w_Name w) cfg cfgs))"

definition append_instance ::
  "operator_instance \<Rightarrow> string \<Rightarrow> (string \<times> operator_instance list) list \<Rightarrow> (string \<times> operator_instance list) list" where
  "append_instance inst input byInput =
     AList.update input ((case map_of byInput input of Some is \<Rightarrow> is | None \<Rightarrow> []) @ [inst]) byInput"

fun indexOperatorsByInput ::
  "spec_operator list \<Rightarrow> (string \<times> window_config) list \<Rightarrow> (string \<times> operator_instance list) list
     \<Rightarrow> (string \<times> operator_instance list) list result" where
  "indexOperatorsByInput [] cfgs byInput = Inr byInput"
| "indexOperatorsByInput (op # ops) cfgs byInput =
     bind_res (if op_Window op \<noteq> '''' then
                 (case map_of cfgs (op_Window op) of
                    None \<Rightarrow> Inl (Errorf ''operator references unknown window'')
                  | Some cfg \<Rightarrow> Inr (Some cfg))
               else Inr None) (\<lambda>window.
       indexOperatorsByInput ops cfgs
         (foldl (\<lambda>m input. append_instance \<lparr>oi_def = op, oi_window = window\<rparr> input m) byInput (op_Inputs op)))"

definition NewOperatorRuntime :: "compiled_spec \<Rightarrow> (nat \<Rightarrow> string) \<Rightarrow> operator_runtime result" where
  "NewOperatorRuntime compiled newID =
     bind_res (buildWindowConfigs (cs_Windows compiled) []) (\<lambda>cfgs.
     bind_res (indexOperatorsByInput (cs_Operators compiled) cfgs []) (\<lambda>byInput.
     Inr \<lparr>or_spec = compiled, or_newID = newID, or_byInput = byInput\<rparr>))"

section \<open>Boot identity and fencing\<close>

definition RuntimeOperatorID :: string where
  "RuntimeOperatorID = ''__agentic_stream_runtime__''"

definition maxSeenBootIDs :: nat where
  "maxSeenBootIDs = 64"

definition env_field :: "envelope \<Rightarrow> string \<Rightarrow> any_value option" where
  "env_field env key = (case env_Data env of None \<Rightarrow> None | Some d \<Rightarrow> map_of d key)"

definition deviceBootID :: "envelope \<Rightarrow> string" where
  "deviceBootID env = (case as_string (env_field env ''boot_id'') of
     None \<Rightarrow> '''' | Some bootID \<Rightarrow> trim_space bootID)"

definition unit_separator :: char where
  "unit_separator = CHR 0x1F"

definition operatorStateKey :: "envelope \<Rightarrow> string" where
  "operatorStateKey env =
     (if deviceBootID env = '''' then er_ID (env_Entity env)
      else er_ID (env_Entity env) @ [unit_separator] @ deviceBootID env)"

definition entityIDFromStateKey :: "string \<Rightarrow> string" where
  "entityIDFromStateKey key = (case cut_byte unit_separator key of Some (entityID, _) \<Rightarrow> entityID | None \<Rightarrow> key)"

definition bootIDFromStateKey :: "string \<Rightarrow> string" where
  "bootIDFromStateKey key = (case cut_byte unit_separator key of Some (_, bootID) \<Rightarrow> bootID | None \<Rightarrow> '''')"

definition empty_blob :: state_blob where
  "empty_blob = \<lparr>b_Window = None, b_Heartbeat = None, b_Runtime = None\<rparr>"

definition states_of :: "partition_state \<Rightarrow> string \<Rightarrow> operator_states" where
  "states_of ps operatorID = (case map_of ps operatorID of Some s \<Rightarrow> s | None \<Rightarrow> [])"

definition getBlob :: "partition_state \<Rightarrow> string \<Rightarrow> string \<Rightarrow> state_blob" where
  "getBlob ps operatorID stateKey =
     (case map_of (states_of ps operatorID) stateKey of Some blob \<Rightarrow> blob | None \<Rightarrow> empty_blob)"

text \<open>Writing through the pointer \<open>getBlob\<close> returned, which created the entry.\<close>

definition put_blob :: "string \<Rightarrow> string \<Rightarrow> state_blob \<Rightarrow> partition_state \<Rightarrow> partition_state" where
  "put_blob operatorID stateKey blob ps =
     AList.update operatorID (AList.update stateKey blob (states_of ps operatorID)) ps"

definition runtimeState :: "partition_state \<Rightarrow> string \<Rightarrow> runtime_state" where
  "runtimeState ps entityID = (case b_Runtime (getBlob ps RuntimeOperatorID entityID) of
     Some s \<Rightarrow> s | None \<Rightarrow> \<lparr>rs_CurrentBootID = '''', rs_SeenBootIDs = []\<rparr>)"

definition put_runtime :: "string \<Rightarrow> runtime_state \<Rightarrow> partition_state \<Rightarrow> partition_state" where
  "put_runtime entityID s ps =
     put_blob RuntimeOperatorID entityID ((getBlob ps RuntimeOperatorID entityID)\<lparr>b_Runtime := Some s\<rparr>) ps"

definition acceptsNewBoot :: "runtime_state \<Rightarrow> string \<Rightarrow> bool" where
  "acceptsNewBoot s bootID \<longleftrightarrow> bootID \<notin> set (rs_SeenBootIDs s) \<and> length (rs_SeenBootIDs s) < maxSeenBootIDs"

definition of_entity :: "string \<Rightarrow> string \<Rightarrow> bool" where
  "of_entity entityID stateKey \<longleftrightarrow> stateKey = entityID \<or> has_prefix stateKey (entityID @ [unit_separator])"

definition discardEntityState :: "string \<Rightarrow> partition_state \<Rightarrow> partition_state" where
  "discardEntityState entityID ps =
     map (\<lambda>(operatorID, states). (operatorID,
       if operatorID = RuntimeOperatorID then states
       else filter (\<lambda>(stateKey, _). \<not> of_entity entityID stateKey) states)) ps"

definition admitBoot :: "partition_state \<Rightarrow> envelope \<Rightarrow> bool \<times> partition_state" where
  "admitBoot ps env =
     (let entityID = er_ID (env_Entity env);
          s = runtimeState ps entityID;
          ps0 = put_runtime entityID s ps;
          bootID = deviceBootID env
      in if bootID = '''' then (rs_CurrentBootID s = '''', ps0)
         else if rs_CurrentBootID s = bootID then (True, ps0)
         else if \<not> acceptsNewBoot s bootID then (False, ps0)
         else (True, put_runtime entityID \<lparr>rs_CurrentBootID = bootID, rs_SeenBootIDs = rs_SeenBootIDs s @ [bootID]\<rparr>
                       (discardEntityState entityID ps0)))"

definition isActiveBoot :: "partition_state \<Rightarrow> string \<Rightarrow> bool" where
  "isActiveBoot ps stateKey =
     (let bootID = bootIDFromStateKey stateKey;
          current = (case map_of (states_of ps RuntimeOperatorID) (entityIDFromStateKey stateKey) of
            None \<Rightarrow> ''''
          | Some meta \<Rightarrow> (case b_Runtime meta of None \<Rightarrow> '''' | Some s \<Rightarrow> rs_CurrentBootID s))
      in if bootID = '''' then current = '''' else current = '''' \<or> current = bootID)"

definition IsTimerStateActive :: "partition_state option \<Rightarrow> string \<Rightarrow> bool" where
  "IsTimerStateActive ps stateKey = (case ps of None \<Rightarrow> False | Some p \<Rightarrow> isActiveBoot p stateKey)"

section \<open>Samples\<close>

definition inputRequiresBootIdentity :: "operator_runtime \<Rightarrow> operator_instance \<Rightarrow> bool" where
  "inputRequiresBootIdentity r inst =
     (let candidates = [input. inputName \<leftarrow> op_Inputs (oi_def inst), input \<leftarrow> cs_Inputs (or_spec r),
                          in_Name input = inputName, in_SchemaRef input \<noteq> '''']
      in case candidates of
           [] \<Rightarrow> False
         | input # _ \<Rightarrow> (case map_of (cs_EventSchema (or_spec r)) (in_SchemaRef input) of
             None \<Rightarrow> False
           | Some names \<Rightarrow> ''quality'' \<in> set names \<and> ''boot_id'' \<in> set names))"

definition finiteValue :: "float64 \<Rightarrow> float64 option" where
  "finiteValue v = (if is_finite v then Some v else None)"

definition jsonNumberValue :: "string \<Rightarrow> float64 option" where
  "jsonNumberValue number = (case ParseFloat number of Inl _ \<Rightarrow> None | Inr f \<Rightarrow> finiteValue f)"

fun numericValue :: "any_value \<Rightarrow> float64 option" where
  "numericValue (AnyFloat64 x) = finiteValue x"
| "numericValue (AnyFloat32 x) = finiteValue x"
| "numericValue (AnyInt n) = finiteValue (float_of_int n)"
| "numericValue (AnyInt64 n) = finiteValue (float_of_int n)"
| "numericValue (AnyNumber number) = jsonNumberValue number"
| "numericValue _ = None"

definition sampleQualityValid :: "envelope \<Rightarrow> bool" where
  "sampleQualityValid env \<longleftrightarrow>
     (case env_field env ''quality'' of None \<Rightarrow> True | Some raw \<Rightarrow> raw = AnyString ''valid'') \<and> env_Quality env = []"

definition numericObservationQualityValid :: "operator_runtime \<Rightarrow> operator_instance \<Rightarrow> envelope \<Rightarrow> bool" where
  "numericObservationQualityValid r inst env \<longleftrightarrow>
     sampleQualityValid env \<and> (inputRequiresBootIdentity r inst \<longrightarrow> deviceBootID env \<noteq> '''')"

definition operatorAdmitsEvent :: "operator_runtime \<Rightarrow> operator_instance \<Rightarrow> envelope \<Rightarrow> bool" where
  "operatorAdmitsEvent r inst env =
     (let kind = op_Kind (oi_def inst)
      in if kind = ''missing_heartbeat'' then sampleQualityValid env
         else if kind = ''aggregate'' \<or> kind = ''slope'' then numericObservationQualityValid r inst env
         else True)"

definition extractValue :: "operator_runtime \<Rightarrow> operator_instance \<Rightarrow> envelope \<Rightarrow> float64 option" where
  "extractValue r inst env =
     (if op_Field (oi_def inst) = '''' \<or> \<not> numericObservationQualityValid r inst env then None
      else (case split_byte CHR ''.'' (op_Field (oi_def inst)) of
        [part, name] \<Rightarrow> if part \<noteq> ''data'' then None
          else (case env_field env name of None \<Rightarrow> None | Some v \<Rightarrow> numericValue v)
      | _ \<Rightarrow> None))"

definition same_sample :: "sample \<Rightarrow> sample \<Rightarrow> bool" where
  "same_sample want got \<longleftrightarrow> sa_EventID got = sa_EventID want \<and> sa_EventTime got = sa_EventTime want"

definition compareSamples :: "sample \<Rightarrow> sample \<Rightarrow> int" where
  "compareSamples a b =
     (if sa_EventTime a = sa_EventTime b then compare3 (sa_EventID a) (sa_EventID b)
      else if sa_EventTime a < sa_EventTime b then -1 else 1)"

fun remove_first :: "('a \<Rightarrow> bool) \<Rightarrow> 'a list \<Rightarrow> 'a list" where
  "remove_first p [] = []"
| "remove_first p (x # xs) = (if p x then xs else x # remove_first p xs)"

definition admit_sample :: "sample \<Rightarrow> window_state \<Rightarrow> window_state" where
  "admit_sample s ws = ws\<lparr>ws_admitted := ws_admitted ws @ [s]\<rparr>"

definition expire_sample :: "sample \<Rightarrow> window_state \<Rightarrow> window_state" where
  "expire_sample s ws =
     (if list_ex (same_sample s) (ws_admitted ws)
      then ws\<lparr>ws_admitted := remove_first (same_sample s) (ws_admitted ws)\<rparr>
      else ws\<lparr>ws_expired := ws_expired ws @ [s]\<rparr>)"

definition dropSamplesBefore :: "time \<Rightarrow> window_state \<Rightarrow> window_state" where
  "dropSamplesBefore cutoff ws =
     (let dropped = filter (\<lambda>s. sa_EventTime s < cutoff) (ws_Samples ws)
      in (fold expire_sample dropped ws)\<lparr>ws_Samples := filter (\<lambda>s. \<not> sa_EventTime s < cutoff) (ws_Samples ws)\<rparr>)"

definition AddSample :: "sample \<Rightarrow> time \<Rightarrow> window_state \<Rightarrow> window_state" where
  "AddSample s cutoff ws =
     (let ws1 = admit_sample s ws;
          ws2 = dropSamplesBefore cutoff (ws1\<lparr>ws_Samples := ws_Samples ws1 @ [s]\<rparr>)
      in ws2\<lparr>ws_Samples := sort_func compareSamples (ws_Samples ws2)\<rparr>)"

definition UnsavedSamples :: "window_state \<Rightarrow> sample list \<times> sample list" where
  "UnsavedSamples ws = (ws_admitted ws, ws_expired ws)"

definition SamplesSaved :: "window_state \<Rightarrow> window_state" where
  "SamplesSaved ws = ws\<lparr>ws_admitted := [], ws_expired := []\<rparr>"

definition RestoreSamples :: "sample list \<Rightarrow> window_state \<Rightarrow> window_state" where
  "RestoreSamples samples ws =
     ws\<lparr>ws_Samples := sort_func compareSamples samples, ws_admitted := [], ws_expired := []\<rparr>"

section \<open>Aggregates\<close>

definition sumValues :: "sample list \<Rightarrow> float64" where
  "sumValues samples = foldl (\<lambda>acc s. float_add acc (sa_Value s)) (Finite 0) samples"

definition roundedProduct :: "float64 \<Rightarrow> float64 \<Rightarrow> float64" where
  "roundedProduct a b = float_mul a b"

definition rootMeanSquare :: "sample list \<Rightarrow> float64" where
  "rootMeanSquare samples =
     float_sqrt (float_div (foldl (\<lambda>acc s. float_add acc (roundedProduct (sa_Value s) (sa_Value s))) (Finite 0) samples)
       (float_of_int (int (length samples))))"

definition extremeValue :: "(float64 \<Rightarrow> float64 \<Rightarrow> bool) \<Rightarrow> sample list \<Rightarrow> float64" where
  "extremeValue beats samples =
     foldl (\<lambda>extreme s. if beats (sa_Value s) extreme then sa_Value s else extreme) (sa_Value (hd samples)) samples"

text \<open>\<open>Duration.Hours\<close>.\<close>

definition hours_of :: "duration \<Rightarrow> float64" where
  "hours_of d =
     (let h = sgn d * (\<bar>d\<bar> div hour); nsec = d - h * hour
      in float_add (float_of_int h) (float_div (float_of_int nsec) (float_of_int hour)))"

definition slopeSums :: "sample list \<Rightarrow> float64 \<times> float64 \<times> float64 \<times> float64" where
  "slopeSums samples =
     (let start = sa_EventTime (hd samples)
      in foldl (\<lambda>(sumX, sumY, sumXY, sumXX) s.
           let x = hours_of (time_sub (sa_EventTime s) start)
           in (float_add sumX x, float_add sumY (sa_Value s),
               float_add sumXY (roundedProduct x (sa_Value s)), float_add sumXX (roundedProduct x x)))
         (Finite 0, Finite 0, Finite 0, Finite 0) samples)"

definition linearSlope :: "sample list \<Rightarrow> float64" where
  "linearSlope samples =
     (if length samples < 2 then Finite 0
      else case slopeSums samples of (sumX, sumY, sumXY, sumXX) \<Rightarrow>
        let n = float_of_int (int (length samples));
            denom = float_sub (roundedProduct n sumXX) (roundedProduct sumX sumX)
        in if float_eq denom (Finite 0) then Finite 0
           else float_div (float_sub (roundedProduct n sumXY) (roundedProduct sumX sumY)) denom)"

definition aggregates :: "string \<Rightarrow> (sample list \<Rightarrow> float64) option" where
  "aggregates agg =
     (if agg = ''mean'' then Some (\<lambda>s. float_div (sumValues s) (float_of_int (int (length s))))
      else if agg = ''rms'' then Some rootMeanSquare
      else if agg = ''slope'' then Some linearSlope
      else if agg = ''count'' then Some (\<lambda>s. float_of_int (int (length s)))
      else if agg = ''sum'' then Some sumValues
      else if agg = ''min'' then Some (extremeValue float_less)
      else if agg = ''max'' then Some (extremeValue (\<lambda>a b. float_less b a))
      else if agg = ''latest'' then Some (\<lambda>s. sa_Value (last s))
      else None)"

definition computeAggregate :: "string \<Rightarrow> sample list \<Rightarrow> float64 result" where
  "computeAggregate agg samples =
     (if samples = [] then Inr (Finite 0)
      else case aggregates agg of None \<Rightarrow> Inl (Errorf ''unsupported aggregate'') | Some compute \<Rightarrow> Inr (compute samples))"

section \<open>Windows\<close>

definition windowState :: "string \<Rightarrow> time \<Rightarrow> state_blob \<Rightarrow> window_state" where
  "windowState bootID watermark blob =
     (let ws = (case b_Window blob of Some w \<Rightarrow> w
                | None \<Rightarrow> \<lparr>ws_BootID = '''', ws_Samples = [], ws_LastEmit = 0, ws_WindowEnd = 0,
                           ws_admitted = [], ws_expired = []\<rparr>);
          ws1 = (if ws_BootID ws = '''' then ws\<lparr>ws_BootID := bootID\<rparr> else ws)
      in if is_zero_time (ws_WindowEnd ws1) then ws1\<lparr>ws_WindowEnd := watermark\<rparr> else ws1)"

definition windowCloseDue :: "window_config \<Rightarrow> window_state \<Rightarrow> time \<Rightarrow> bool" where
  "windowCloseDue cfg ws watermark =
     (if is_zero_time (ws_WindowEnd ws) \<or> watermark < ws_WindowEnd ws then False
      else time_sub watermark (ws_WindowEnd ws) \<ge> (if 0 < wc_slide cfg then wc_slide cfg else wc_size cfg))"

definition windowEmissions :: "string \<Rightarrow> bool \<Rightarrow> bool \<Rightarrow> bool \<Rightarrow> string list" where
  "windowEmissions emit corrected closeDue hasSamples =
     (if \<not> hasSamples then []
      else if corrected then [CompletenessCorrected]
      else (if emit = ''on_update'' \<or> emit = ''early_and_close'' then [CompletenessProvisional] else [])
           @ (if closeDue \<and> emit \<noteq> ''on_update'' then [CompletenessFinalByPolicy] else []))"

definition isLateWindowCorrection :: "operator_runtime \<Rightarrow> duration \<Rightarrow> time \<Rightarrow> time \<Rightarrow> time \<Rightarrow> bool result" where
  "isLateWindowCorrection r windowSize eventTime watermark lastEmit =
     (let policy = cs_Time (or_spec r)
      in if LatePolicy policy \<noteq> ''correct'' \<and> LatePolicy policy \<noteq> ''correct_and_reconsider'' then Inr False
         else if is_zero_time lastEmit \<or> \<not> eventTime < watermark \<or> \<not> eventTime < lastEmit
                 \<or> eventTime < lastEmit + neg_duration windowSize then Inr False
         else if AllowedLateness policy = '''' then Inr False
         else bind_res (wrap_err ''allowed lateness'' (parse_duration (AllowedLateness policy))) (\<lambda>allowed.
           Inr (time_sub watermark eventTime \<le> allowed)))"

definition windowFeature ::
  "string \<Rightarrow> operator_instance \<Rightarrow> window_config \<Rightarrow> envelope \<Rightarrow> window_state \<Rightarrow> float64 \<Rightarrow> time \<Rightarrow> string \<Rightarrow> feature" where
  "windowFeature featureID inst cfg env ws agg watermark completeness =
     \<lparr>f_FeatureID = featureID, f_OperatorID = op_Name (oi_def inst), f_OutputName = op_Output (oi_def inst),
      f_TenantID = env_TenantID env, f_EntityType = er_Type (env_Entity env), f_EntityID = er_ID (env_Entity env),
      f_StateKey = operatorStateKey env, f_BootID = deviceBootID env, f_PartitionID = PartitionID env 0,
      f_WindowStart = watermark + neg_duration (wc_size cfg), f_WindowEnd = watermark,
      f_Value = AnyFloat64 agg, f_Unit = op_Unit (oi_def inst), f_EventTime = env_EventTime env,
      f_Watermark = watermark, f_InputEventIDs = map sa_EventID (ws_Samples ws), f_Completeness = completeness,
      f_Traceparent = env_Traceparent env, f_Tracestate = env_Tracestate env, f_TraceContinuation = False, f_Metadata = []\<rparr>"

fun number_features :: "(nat \<Rightarrow> string) \<Rightarrow> nat \<Rightarrow> (string \<Rightarrow> 'a \<Rightarrow> feature) \<Rightarrow> 'a list \<Rightarrow> feature list" where
  "number_features newID n mk [] = []"
| "number_features newID n mk (x # xs) = mk (newID n) x # number_features newID (Suc n) mk xs"

definition emitWindow ::
  "operator_runtime \<Rightarrow> nat \<Rightarrow> operator_instance \<Rightarrow> window_config \<Rightarrow> envelope \<Rightarrow> window_state \<Rightarrow> float64 \<Rightarrow> time \<Rightarrow> bool
     \<Rightarrow> feature list \<times> window_state" where
  "emitWindow r n inst cfg env ws agg watermark corrected =
     (let closeDue = windowCloseDue cfg ws watermark;
          features = number_features (or_newID r) n
            (\<lambda>featureID completeness. windowFeature featureID inst cfg env ws agg watermark completeness)
            (windowEmissions (wc_emit cfg) corrected closeDue (ws_Samples ws \<noteq> []));
          ws1 = (if features \<noteq> [] then ws\<lparr>ws_LastEmit := watermark\<rparr> else ws);
          ws2 = (if closeDue then ws1\<lparr>ws_WindowEnd := watermark\<rparr> else ws1)
      in (features, ws2))"

text \<open>An operator of these kinds without a window is a nil dereference in the code.\<close>

definition applyWindowOperator ::
  "operator_runtime \<Rightarrow> nat \<Rightarrow> operator_instance \<Rightarrow> state_blob \<Rightarrow> envelope \<Rightarrow> time \<Rightarrow> (feature list \<times> state_blob) result" where
  "applyWindowOperator r n inst blob env watermark =
     (case extractValue r inst env of
        None \<Rightarrow> Inr ([], blob)
      | Some value \<Rightarrow>
          (case oi_window inst of
             None \<Rightarrow> Inl (Errorf ''nil window'')
           | Some cfg \<Rightarrow>
               let ws = windowState (deviceBootID env) watermark blob
               in bind_res (isLateWindowCorrection r (wc_size cfg) (env_EventTime env) watermark (ws_LastEmit ws)) (\<lambda>corrected.
                  let ws1 = AddSample \<lparr>sa_EventID = env_ID env, sa_EventTime = env_EventTime env, sa_Value = value,
                              sa_BootID = deviceBootID env\<rparr> (watermark + neg_duration (wc_size cfg)) ws
                  in bind_res (computeAggregate (op_Aggregate (oi_def inst)) (ws_Samples ws1)) (\<lambda>agg.
                     let (features, ws2) = emitWindow r n inst cfg env ws1 agg watermark corrected
                     in Inr (features, blob\<lparr>b_Window := Some ws2\<rparr>)))))"

section \<open>Heartbeats\<close>

definition adoptBoot :: "string \<Rightarrow> heartbeat_state \<Rightarrow> heartbeat_state" where
  "adoptBoot bootID hs =
     (if bootID \<noteq> '''' \<and> hs_BootID hs \<noteq> bootID
      then \<lparr>hs_BootID = bootID, hs_LastEventTime = None, hs_LastEventID = '''', hs_LastProcessingTime = None,
            hs_Traceparent = '''', hs_Tracestate = ''''\<rparr>
      else if hs_BootID hs = '''' then hs\<lparr>hs_BootID := bootID\<rparr> else hs)"

definition isNewerThanLatest :: "heartbeat_state \<Rightarrow> envelope \<Rightarrow> bool" where
  "isNewerThanLatest hs env = (case hs_LastEventTime hs of
     None \<Rightarrow> True
   | Some t \<Rightarrow> t < env_EventTime env \<or> env_EventTime env = t \<and> hs_LastEventID hs < env_ID env)"

definition empty_heartbeat :: heartbeat_state where
  "empty_heartbeat = \<lparr>hs_BootID = '''', hs_LastEventTime = None, hs_LastEventID = '''', hs_LastProcessingTime = None,
     hs_Traceparent = '''', hs_Tracestate = ''''\<rparr>"

definition record_beat :: "envelope \<Rightarrow> time \<Rightarrow> heartbeat_state \<Rightarrow> heartbeat_state" where
  "record_beat env processingTime hs0 =
     (let hs = adoptBoot (deviceBootID env) hs0;
          hs1 = (if isNewerThanLatest hs env
                 then hs\<lparr>hs_LastEventTime := Some (env_EventTime env), hs_LastEventID := env_ID env,
                         hs_Traceparent := env_Traceparent env, hs_Tracestate := env_Tracestate env\<rparr>
                 else hs)
      in hs1\<lparr>hs_LastProcessingTime := Some processingTime\<rparr>)"

definition recordHeartbeat :: "state_blob \<Rightarrow> envelope \<Rightarrow> time \<Rightarrow> heartbeat_state" where
  "recordHeartbeat blob env processingTime =
     record_beat env processingTime (case b_Heartbeat blob of Some hs \<Rightarrow> hs | None \<Rightarrow> empty_heartbeat)"

definition last_event :: "heartbeat_state \<Rightarrow> time" where
  "last_event hs = (case hs_LastEventTime hs of Some t \<Rightarrow> t | None \<Rightarrow> 0)"

definition heartbeatFeature ::
  "string \<Rightarrow> operator_instance \<Rightarrow> envelope \<Rightarrow> heartbeat_state \<Rightarrow> time \<Rightarrow> duration \<Rightarrow> bool \<Rightarrow> feature" where
  "heartbeatFeature featureID inst env hs watermark d missing =
     \<lparr>f_FeatureID = featureID, f_OperatorID = op_Name (oi_def inst), f_OutputName = op_Output (oi_def inst),
      f_TenantID = env_TenantID env, f_EntityType = er_Type (env_Entity env), f_EntityID = er_ID (env_Entity env),
      f_StateKey = operatorStateKey env, f_BootID = hs_BootID hs, f_PartitionID = PartitionID env 0,
      f_WindowStart = last_event hs, f_WindowEnd = watermark, f_Value = AnyBool missing, f_Unit = '''',
      f_EventTime = (if missing then last_event hs + d else last_event hs), f_Watermark = watermark,
      f_InputEventIDs = [hs_LastEventID hs],
      f_Completeness = (if missing then CompletenessUncertain else CompletenessOnTime),
      f_Traceparent = hs_Traceparent hs, f_Tracestate = hs_Tracestate hs, f_TraceContinuation = False, f_Metadata = []\<rparr>"

definition applyHeartbeatOperator ::
  "operator_runtime \<Rightarrow> nat \<Rightarrow> operator_instance \<Rightarrow> state_blob \<Rightarrow> envelope \<Rightarrow> time \<Rightarrow> time
     \<Rightarrow> (feature list \<times> state_blob) result" where
  "applyHeartbeatOperator r n inst blob env watermark processingTime =
     (if \<not> sampleQualityValid env then Inr ([], blob)
      else let beatAt = (if is_zero_time processingTime then env_EventTime env else processingTime);
               hs = recordHeartbeat blob env beatAt
           in bind_res (wrap_err ''heartbeat duration'' (parse_duration (op_Duration (oi_def inst)))) (\<lambda>d.
              let missing = (time_sub watermark (last_event hs) \<ge> d)
              in Inr ([heartbeatFeature (or_newID r n) inst env hs watermark d missing], blob\<lparr>b_Heartbeat := Some hs\<rparr>)))"

section \<open>Applying an event\<close>

definition inputForEvent :: "operator_runtime \<Rightarrow> envelope \<Rightarrow> string option" where
  "inputForEvent r env =
     map_option in_Name (find (\<lambda>input. in_EventType input = env_Type env) (cs_Inputs (or_spec r)))"

definition operatorApplies ::
  "operator_runtime \<Rightarrow> partition_state \<Rightarrow> operator_instance \<Rightarrow> string \<Rightarrow> envelope \<Rightarrow> bool \<times> partition_state" where
  "operatorApplies r ps inst inputName env =
     (if op_Inputs (oi_def inst) \<noteq> [] \<and> hd (op_Inputs (oi_def inst)) \<noteq> inputName then (False, ps)
      else if \<not> operatorAdmitsEvent r inst env then (False, ps)
      else admitBoot ps env)"

definition applyOperator ::
  "operator_runtime \<Rightarrow> nat \<Rightarrow> partition_state \<Rightarrow> operator_instance \<Rightarrow> envelope \<Rightarrow> time \<Rightarrow> time
     \<Rightarrow> (feature list \<times> partition_state) result" where
  "applyOperator r n ps inst env watermark processingTime =
     (let name = op_Name (oi_def inst);
          stateKey = operatorStateKey env;
          blob = getBlob ps name stateKey;
          kind = op_Kind (oi_def inst);
          outcome = (if kind = ''aggregate'' \<or> kind = ''slope'' then applyWindowOperator r n inst blob env watermark
                     else if kind = ''missing_heartbeat''
                     then applyHeartbeatOperator r n inst blob env watermark processingTime
                     else Inl (Errorf ''unsupported operator kind''))
      in bind_res outcome (\<lambda>(features, blob'). Inr (features, put_blob name stateKey blob' ps)))"

fun apply_instances ::
  "operator_runtime \<Rightarrow> string \<Rightarrow> envelope \<Rightarrow> time \<Rightarrow> time \<Rightarrow> operator_instance list \<Rightarrow> nat \<Rightarrow> partition_state
     \<Rightarrow> (feature list \<times> partition_state) result" where
  "apply_instances r inputName env watermark processingTime [] n ps = Inr ([], ps)"
| "apply_instances r inputName env watermark processingTime (inst # rest) n ps =
     (case operatorApplies r ps inst inputName env of (applies, ps1) \<Rightarrow>
        if \<not> applies then apply_instances r inputName env watermark processingTime rest n ps1
        else bind_res (applyOperator r n ps1 inst env watermark processingTime) (\<lambda>(fs, ps2).
             bind_res (apply_instances r inputName env watermark processingTime rest (n + length fs) ps2) (\<lambda>(fs', ps3).
             Inr (fs @ fs', ps3))))"

definition applyInput ::
  "operator_runtime \<Rightarrow> nat \<Rightarrow> partition_state \<Rightarrow> string \<Rightarrow> envelope \<Rightarrow> time \<Rightarrow> time \<Rightarrow> (feature list \<times> partition_state) result" where
  "applyInput r n ps inputName env watermark processingTime =
     apply_instances r inputName env watermark processingTime
       (case map_of (or_byInput r) inputName of Some is \<Rightarrow> is | None \<Rightarrow> []) n ps"

definition ApplyEventAt ::
  "operator_runtime \<Rightarrow> nat \<Rightarrow> partition_state option \<Rightarrow> envelope \<Rightarrow> time \<Rightarrow> time \<Rightarrow> (feature list \<times> partition_state) result" where
  "ApplyEventAt r n state env watermark processingTime =
     (let ps = (case state of None \<Rightarrow> [] | Some p \<Rightarrow> p)
      in case inputForEvent r env of
           None \<Rightarrow> Inr ([], ps)
         | Some inputName \<Rightarrow> applyInput r n ps inputName env watermark processingTime)"

section \<open>Heartbeat timers\<close>

record timer_identity =
  ti_TenantID :: string
  ti_PartitionID :: int

definition timerIdentity :: "timer_identity list \<Rightarrow> timer_identity result" where
  "timerIdentity ids = (case ids of
     [] \<Rightarrow> Inr \<lparr>ti_TenantID = '''', ti_PartitionID = -1\<rparr>
   | [i] \<Rightarrow> if ti_TenantID i = '''' then Inl (Errorf ''timer identity tenant is required'')
            else if ti_PartitionID i < 0 then Inl (Errorf ''timer identity partition must be non-negative'')
            else Inr i
   | _ \<Rightarrow> Inl (Errorf ''timer identity must be provided at most once''))"

fun compact :: "('a \<Rightarrow> 'a \<Rightarrow> bool) \<Rightarrow> 'a list \<Rightarrow> 'a list" where
  "compact eq [] = []"
| "compact eq [x] = [x]"
| "compact eq (x # y # rest) = (if eq x y then compact eq (x # rest) else x # compact eq (y # rest))"

definition compare_name :: "operator_instance \<Rightarrow> operator_instance \<Rightarrow> int" where
  "compare_name a b = compare3 (op_Name (oi_def a)) (op_Name (oi_def b))"

definition operatorsByName :: "operator_runtime \<Rightarrow> operator_instance list" where
  "operatorsByName r =
     compact (\<lambda>a b. op_Name (oi_def a) = op_Name (oi_def b))
       (sort_func compare_name (concat (map snd (or_byInput r))))"

definition heartbeatOverdue :: "heartbeat_state option \<Rightarrow> time \<Rightarrow> duration \<Rightarrow> bool" where
  "heartbeatOverdue state processingTime d = (case state of
     None \<Rightarrow> False
   | Some hs \<Rightarrow> (case hs_LastEventTime hs of
       None \<Rightarrow> False
     | Some t \<Rightarrow> time_sub processingTime (case hs_LastProcessingTime hs of Some p \<Rightarrow> p | None \<Rightarrow> t) \<ge> d))"

definition entityTypeForOperator :: "operator_runtime \<Rightarrow> string \<Rightarrow> string" where
  "entityTypeForOperator r operatorID =
     (let types = [in_EntityType specIn. op \<leftarrow> cs_Operators (or_spec r), op_Name op = operatorID,
                     input \<leftarrow> op_Inputs op, specIn \<leftarrow> cs_Inputs (or_spec r), in_Name specIn = input]
      in case types of [] \<Rightarrow> '''' | t # _ \<Rightarrow> t)"

definition missedHeartbeatFeature ::
  "operator_runtime \<Rightarrow> string \<Rightarrow> operator_instance \<Rightarrow> string \<Rightarrow> heartbeat_state \<Rightarrow> timer_identity \<Rightarrow> time \<Rightarrow> duration \<Rightarrow> feature" where
  "missedHeartbeatFeature r featureID inst stateKey hs ident watermark d =
     \<lparr>f_FeatureID = featureID, f_OperatorID = op_Name (oi_def inst), f_OutputName = op_Output (oi_def inst),
      f_TenantID = ti_TenantID ident, f_EntityType = entityTypeForOperator r (op_Name (oi_def inst)),
      f_EntityID = entityIDFromStateKey stateKey, f_StateKey = stateKey, f_BootID = hs_BootID hs,
      f_PartitionID = ti_PartitionID ident, f_WindowStart = last_event hs, f_WindowEnd = last_event hs + d,
      f_Value = AnyBool True, f_Unit = '''', f_EventTime = last_event hs + d, f_Watermark = watermark,
      f_InputEventIDs = [hs_LastEventID hs], f_Completeness = CompletenessUncertain,
      f_Traceparent = hs_Traceparent hs, f_Tracestate = hs_Tracestate hs, f_TraceContinuation = True, f_Metadata = []\<rparr>"

definition overdue_keys :: "partition_state \<Rightarrow> operator_instance \<Rightarrow> time \<Rightarrow> duration \<Rightarrow> (string \<times> heartbeat_state) list" where
  "overdue_keys ps inst processingTime d =
     (let states = states_of ps (op_Name (oi_def inst))
      in [(stateKey, hs). stateKey \<leftarrow> sort (map fst states),
            isActiveBoot ps stateKey \<and> heartbeatOverdue (b_Heartbeat (getBlob ps (op_Name (oi_def inst)) stateKey)) processingTime d,
            hs \<leftarrow> (case b_Heartbeat (getBlob ps (op_Name (oi_def inst)) stateKey) of Some hs \<Rightarrow> [hs] | None \<Rightarrow> [])])"

definition applyHeartbeatTimer ::
  "operator_runtime \<Rightarrow> nat \<Rightarrow> operator_instance \<Rightarrow> partition_state \<Rightarrow> time \<Rightarrow> time \<Rightarrow> timer_identity \<Rightarrow> feature list result" where
  "applyHeartbeatTimer r n inst ps watermark processingTime ident =
     bind_res (wrap_err ''heartbeat duration'' (parse_duration (op_Duration (oi_def inst)))) (\<lambda>d.
       Inr (number_features (or_newID r) n
         (\<lambda>featureID (stateKey, hs). missedHeartbeatFeature r featureID inst stateKey hs ident watermark d)
         (overdue_keys ps inst processingTime d)))"

fun apply_timers ::
  "operator_runtime \<Rightarrow> partition_state \<Rightarrow> time \<Rightarrow> time \<Rightarrow> timer_identity \<Rightarrow> operator_instance list \<Rightarrow> nat \<Rightarrow> feature list result" where
  "apply_timers r ps watermark processingTime ident [] n = Inr []"
| "apply_timers r ps watermark processingTime ident (op # ops) n =
     (if op_Kind (oi_def op) \<noteq> ''missing_heartbeat'' then apply_timers r ps watermark processingTime ident ops n
      else bind_res (applyHeartbeatTimer r n op ps watermark processingTime ident) (\<lambda>fs.
           bind_res (apply_timers r ps watermark processingTime ident ops (n + length fs)) (\<lambda>fs'.
           Inr (fs @ fs'))))"

definition applyHeartbeatTimers ::
  "operator_runtime \<Rightarrow> nat \<Rightarrow> partition_state \<Rightarrow> time \<Rightarrow> time \<Rightarrow> timer_identity \<Rightarrow> feature list result" where
  "applyHeartbeatTimers r n ps watermark processingTime ident =
     apply_timers r ps watermark processingTime ident (operatorsByName r) n"

definition ApplyTimer ::
  "operator_runtime \<Rightarrow> nat \<Rightarrow> partition_state option \<Rightarrow> time \<Rightarrow> time \<Rightarrow> timer_identity list
     \<Rightarrow> (feature list \<times> partition_state option) result" where
  "ApplyTimer r n state watermark processingTime identities = (case state of
     None \<Rightarrow> Inr ([], None)
   | Some ps \<Rightarrow> bind_res (timerIdentity identities) (\<lambda>ident.
       bind_res (applyHeartbeatTimers r n ps watermark processingTime ident) (\<lambda>fs. Inr (fs, Some ps))))"

end
