(* ===== verification/Operator_Samples.thy ===== *)
theory Operator_Samples
  imports Operators
begin

text \<open>
  The samples of a window are durable as rows of their own: the window journals what it admitted and
  expired since the last save, and the engine writes that journal in the transaction of the event
  (\<^verbatim>\<open>internal/engine/internal/store/window_samples.go\<close>). The lemmas show that the journal is exact: saved
  rows restored after a restart give the window that was in memory. A row holds the value of a sample as
  it is; that an SQLite column forgets the sign of a zero is left out.
\<close>

section \<open>Writing the journal\<close>

definition deleteWindowSample :: "sample \<Rightarrow> sample list \<Rightarrow> sample list" where
  "deleteWindowSample s rows = filter (\<lambda>r. \<not> same_sample s r) rows"

text \<open>The primary key of a row within one operator and state key is its event time and event id.\<close>

definition insertWindowSample :: "sample \<Rightarrow> sample list \<Rightarrow> sample list result" where
  "insertWindowSample s rows =
     (if list_ex (same_sample s) rows then Inl (Errorf ''insert window sample'') else Inr (rows @ [s]))"

fun insert_samples :: "sample list \<Rightarrow> sample list \<Rightarrow> sample list result" where
  "insert_samples [] rows = Inr rows"
| "insert_samples (s # rest) rows = bind_res (insertWindowSample s rows) (insert_samples rest)"

definition writeSampleChanges :: "window_state \<Rightarrow> sample list \<Rightarrow> (sample list \<times> window_state) result" where
  "writeSampleChanges ws rows =
     (case UnsavedSamples ws of (admitted, expired) \<Rightarrow>
        bind_res (insert_samples admitted (fold deleteWindowSample expired rows)) (\<lambda>rows'.
          Inr (rows', SamplesSaved ws)))"

section \<open>The sample order\<close>

definition sample_key :: "sample \<Rightarrow> time \<times> string" where
  "sample_key s = (sa_EventTime s, sa_EventID s)"

lemma fst_sample_key [simp]: "fst (sample_key s) = sa_EventTime s"
  by (simp add: sample_key_def)

lemma same_sample_iff: "same_sample s r \<longleftrightarrow> sample_key r = sample_key s"
  by (auto simp: same_sample_def sample_key_def)

lemma compareSamples_alt:
  "compareSamples = (\<lambda>a b. cmp_or (compare3 (sa_EventTime a) (sa_EventTime b)) (compare3 (sa_EventID a) (sa_EventID b)))"
  by (intro ext) (simp add: compareSamples_def cmp_or_def compare3_def)

interpretation sampleOrder: comparison compareSamples sample_key
  unfolding compareSamples_alt sample_key_def[abs_def] by (intro comparison_cmp_or compare3_on)

section \<open>Expiry and the journal\<close>

text \<open>How many samples of a list belong to one event.\<close>

primrec key_count :: "time \<times> string \<Rightarrow> sample list \<Rightarrow> nat" where
  "key_count k [] = 0"
| "key_count k (x # xs) = (if sample_key x = k then Suc (key_count k xs) else key_count k xs)"

lemma key_count_filter: "key_count k xs = length (filter (\<lambda>x. sample_key x = k) xs)"
  by (induction xs) auto

lemma key_count_pos: "0 < key_count k xs \<longleftrightarrow> k \<in> sample_key ` set xs"
  by (induction xs) auto

lemma ex_same_sample: "list_ex (same_sample s) xs \<longleftrightarrow> sample_key s \<in> sample_key ` set xs"
proof
  assume "sample_key s \<in> sample_key ` set xs"
  then obtain x where "x \<in> set xs" "sample_key s = sample_key x" by (rule imageE)
  then show "list_ex (same_sample s) xs" by (auto simp: list_ex_iff same_sample_iff)
next
  assume "list_ex (same_sample s) xs"
  then obtain x where "x \<in> set xs" "same_sample s x" by (auto simp: list_ex_iff)
  then show "sample_key s \<in> sample_key ` set xs" by (intro image_eqI[of _ _ x]) (simp_all add: same_sample_iff)
qed

lemma key_count_remove_first:
  "list_ex (same_sample s) xs \<Longrightarrow> key_count k (remove_first (same_sample s) xs) = key_count k xs - (if k = sample_key s then 1 else 0)"
  by (induction xs) (auto simp: same_sample_iff)

lemma filter_remove_first: "\<not> P s \<Longrightarrow> (\<And>x. same_sample s x \<Longrightarrow> P x = P s) \<Longrightarrow> filter P (remove_first (same_sample s) xs) = filter P xs"
  by (induction xs) auto

lemma expire_keeps [simp]:
  "ws_Samples (expire_sample s ws) = ws_Samples ws" "ws_BootID (expire_sample s ws) = ws_BootID ws"
  "ws_LastEmit (expire_sample s ws) = ws_LastEmit ws" "ws_WindowEnd (expire_sample s ws) = ws_WindowEnd ws"
  by (simp_all add: expire_sample_def)

lemma fold_expire_keeps [simp]: "ws_Samples (fold expire_sample ds ws) = ws_Samples ws"
  by (induction ds arbitrary: ws) auto

text \<open>
  An expired sample takes an admitted sample of its event out of the journal, or is noted for deletion when
  there is none.
\<close>

lemma fold_expire_journal:
  "key_count k (ws_admitted (fold expire_sample ds ws)) = key_count k (ws_admitted ws) - key_count k ds
   \<and> (k \<in> sample_key ` set (ws_expired (fold expire_sample ds ws))
        \<longleftrightarrow> k \<in> sample_key ` set (ws_expired ws) \<or> key_count k (ws_admitted ws) < key_count k ds)"
proof (induction ds arbitrary: ws)
  case (Cons s ds)
  show ?case
  proof (cases "list_ex (same_sample s) (ws_admitted ws)")
    case True
    then have "0 < key_count (sample_key s) (ws_admitted ws)"
      unfolding key_count_pos ex_same_sample .
    moreover have "expire_sample s ws = ws\<lparr>ws_admitted := remove_first (same_sample s) (ws_admitted ws)\<rparr>"
      using True by (simp add: expire_sample_def)
    ultimately show ?thesis
      using Cons.IH[of "expire_sample s ws"] key_count_remove_first[OF True, of k] by auto
  next
    case False
    then have "key_count (sample_key s) (ws_admitted ws) = 0"
      using key_count_pos[of "sample_key s" "ws_admitted ws"] unfolding ex_same_sample by blast
    moreover have "expire_sample s ws = ws\<lparr>ws_expired := ws_expired ws @ [s]\<rparr>"
      using False by (simp add: expire_sample_def)
    ultimately show ?thesis using Cons.IH[of "expire_sample s ws"] by auto
  qed
qed simp

lemma fold_expire_recent:
  assumes "\<forall>s \<in> set ds. sa_EventTime s < cutoff"
  shows "filter (\<lambda>x. \<not> sa_EventTime x < cutoff) (ws_admitted (fold expire_sample ds ws)) = filter (\<lambda>x. \<not> sa_EventTime x < cutoff) (ws_admitted ws)"
  using assms
proof (induction ds arbitrary: ws)
  case (Cons s ds)
  have "filter (\<lambda>x. \<not> sa_EventTime x < cutoff) (remove_first (same_sample s) xs) = filter (\<lambda>x. \<not> sa_EventTime x < cutoff) xs" for xs
    using Cons.prems by (intro filter_remove_first) (auto simp: same_sample_iff sample_key_def)
  then show ?case using Cons by (simp add: expire_sample_def)
qed simp

text \<open>
  The journal of a window against its saved rows: what is in memory is what is saved and not noted for
  deletion, and what is admitted.
\<close>

definition surviving :: "window_state \<Rightarrow> sample list \<Rightarrow> sample list" where
  "surviving ws rows = filter (\<lambda>r. sample_key r \<notin> sample_key ` set (ws_expired ws)) rows"

definition journal_inv :: "sample list \<Rightarrow> window_state \<Rightarrow> bool" where
  "journal_inv rows ws \<longleftrightarrow> distinct (map sample_key rows)
     \<and> mset (ws_Samples ws) = mset (surviving ws rows) + mset (ws_admitted ws)
     \<and> sorted_wrt (\<lambda>a b. compareSamples a b \<le> 0) (ws_Samples ws)"

lemma key_count_mset: "mset xs = mset ys + mset zs \<Longrightarrow> key_count k xs = key_count k ys + key_count k zs"
proof -
  assume "mset xs = mset ys + mset zs"
  then have "mset (filter (\<lambda>x. sample_key x = k) xs) = mset (filter (\<lambda>x. sample_key x = k) ys @ filter (\<lambda>x. sample_key x = k) zs)" by simp
  then show ?thesis unfolding key_count_filter by (metis length_append size_mset)
qed

lemma AddSample_journal:
  assumes inv: "journal_inv rows ws"
  shows "journal_inv rows (AddSample s cutoff ws)"
proof -
  define ws1 where "ws1 = (admit_sample s ws)\<lparr>ws_Samples := ws_Samples ws @ [s]\<rparr>"
  define ds where "ds = filter (\<lambda>x. sa_EventTime x < cutoff) (ws_Samples ws1)"
  define ws2 where "ws2 = fold expire_sample ds ws1"
  define kept where "kept = filter (\<lambda>x. \<not> sa_EventTime x < cutoff) (ws_Samples ws1)"
  have add: "AddSample s cutoff ws = ws2\<lparr>ws_Samples := sort_func compareSamples kept\<rparr>"
    by (simp add: AddSample_def Let_def dropSamplesBefore_def ws1_def ws2_def ds_def kept_def admit_sample_def)
  have eq: "mset (ws_Samples ws1) = mset (surviving ws1 rows) + mset (ws_admitted ws1)"
    using inv by (simp add: ws1_def admit_sample_def journal_inv_def surviving_def)
  have dk: "key_count k ds = (if fst k < cutoff then key_count k (surviving ws1 rows) + key_count k (ws_admitted ws1) else 0)" for k
  proof -
    have "key_count k ds = (if fst k < cutoff then key_count k (ws_Samples ws1) else 0)"
      unfolding ds_def by (induction "ws_Samples ws1") (auto simp: key_count_filter sample_key_def filter_empty_conv intro!: arg_cong[of _ _ length] filter_cong)
    then show ?thesis using key_count_mset[OF eq, of k] by simp
  qed
  have old_gone: "\<not> sa_EventTime x < cutoff" if "x \<in> set (ws_admitted ws2)" for x
  proof
    assume "sa_EventTime x < cutoff"
    then have "key_count (sample_key x) (ws_admitted ws2) = 0"
      using fold_expire_journal[of "sample_key x" ds ws1] dk[of "sample_key x"] by (simp add: ws2_def)
    then show False using that key_count_pos[of "sample_key x" "ws_admitted ws2"] by auto
  qed
  have admitted: "ws_admitted ws2 = filter (\<lambda>x. \<not> sa_EventTime x < cutoff) (ws_admitted ws1)"
  proof -
    have "filter (\<lambda>x. \<not> sa_EventTime x < cutoff) (ws_admitted ws2) = ws_admitted ws2"
      using old_gone by (simp add: filter_id_conv)
    moreover have "\<forall>x \<in> set ds. sa_EventTime x < cutoff" by (simp add: ds_def)
    ultimately show ?thesis using fold_expire_recent[of ds cutoff ws1] by (simp add: ws2_def)
  qed
  have "sample_key r \<notin> sample_key ` set (ws_expired ws2) \<longleftrightarrow> sample_key r \<notin> sample_key ` set (ws_expired ws1) \<and> \<not> sa_EventTime r < cutoff"
    if r: "r \<in> set rows" for r
  proof (cases "sample_key r \<in> sample_key ` set (ws_expired ws1)")
    case True
    then show ?thesis using fold_expire_journal[of "sample_key r" ds ws1] by (simp add: ws2_def)
  next
    case False
    then have "0 < key_count (sample_key r) (surviving ws1 rows)" using r unfolding key_count_pos by (auto simp: surviving_def)
    then show ?thesis using False fold_expire_journal[of "sample_key r" ds ws1] dk[of "sample_key r"] by (simp add: ws2_def)
  qed
  then have "surviving ws2 rows = filter (\<lambda>x. \<not> sa_EventTime x < cutoff) (surviving ws1 rows)"
    unfolding surviving_def filter_filter by (intro filter_cong) auto
  then have "mset kept = mset (surviving ws2 rows) + mset (ws_admitted ws2)"
    using eq by (simp add: kept_def admitted)
  then show ?thesis
    using inv sampleOrder.sorted_sort_func[of kept] by (simp add: journal_inv_def add surviving_def)
qed

section \<open>Saving and restoring\<close>

lemma fold_delete: "fold deleteWindowSample es rows = filter (\<lambda>r. sample_key r \<notin> sample_key ` set es) rows"
  by (induction es arbitrary: rows) (auto simp: deleteWindowSample_def same_sample_iff intro!: filter_cong)

lemma insert_samples_cases:
  "distinct (map sample_key rows) \<Longrightarrow> insert_samples as rows =
     (if distinct (map sample_key (rows @ as)) then Inr (rows @ as) else Inl (Errorf ''insert window sample''))"
proof (induction as arbitrary: rows)
  case (Cons a as)
  note e = ex_same_sample[of a rows]
  show ?case
  proof (cases "sample_key a \<in> sample_key ` set rows")
    case True
    then show ?thesis using e by (auto simp: insertWindowSample_def)
  next
    case False
    then have "distinct (map sample_key (rows @ [a]))" using Cons.prems by auto
    from Cons.IH[OF this] show ?thesis using e False by (simp add: insertWindowSample_def)
  qed
qed simp

lemma save_cases:
  assumes inv: "journal_inv rows ws"
  shows "writeSampleChanges ws rows =
    (if distinct (map sample_key (ws_Samples ws)) then Inr (surviving ws rows @ ws_admitted ws, SamplesSaved ws) else Inl (Errorf ''insert window sample''))"
proof -
  let ?rows = "surviving ws rows @ ws_admitted ws"
  have "distinct (map sample_key (surviving ws rows))"
    using inv by (simp add: journal_inv_def surviving_def distinct_map_filter)
  moreover have "distinct (map sample_key ?rows) \<longleftrightarrow> distinct (map sample_key (ws_Samples ws))"
  proof (rule mset_eq_imp_distinct_iff)
    show "mset (map sample_key ?rows) = mset (map sample_key (ws_Samples ws))" using inv by (simp add: journal_inv_def)
  qed
  ultimately show ?thesis
    using insert_samples_cases[of "surviving ws rows" "ws_admitted ws"]
    by (simp add: writeSampleChanges_def UnsavedSamples_def fold_delete surviving_def)
qed

lemma saved_journal:
  assumes "journal_inv rows ws" and "writeSampleChanges ws rows = Inr (rows', ws')"
  shows "ws' = SamplesSaved ws" and "mset rows' = mset (ws_Samples ws)" and "distinct (map sample_key rows')" and "journal_inv rows' ws'"
proof -
  have d: "distinct (map sample_key (ws_Samples ws))" and r: "rows' = surviving ws rows @ ws_admitted ws" and w: "ws' = SamplesSaved ws"
    using assms(2) unfolding save_cases[OF assms(1)] by (auto split: if_splits)
  show "ws' = SamplesSaved ws" by (fact w)
  show m: "mset rows' = mset (ws_Samples ws)" using assms(1) by (simp add: r journal_inv_def)
  show k: "distinct (map sample_key rows')" using d m by (metis mset_eq_imp_distinct_iff mset_map)
  show "journal_inv rows' ws'" using assms(1) m k by (simp add: journal_inv_def w SamplesSaved_def surviving_def)
qed

text \<open>
  What happens to one window: it is restored from saved rows, whose key is unique, samples are added in
  any order and with any repetitions, and the journal is written now and then.
\<close>

inductive window_run :: "sample list \<Rightarrow> window_state \<Rightarrow> bool" where
  restored: "distinct (map sample_key rows) \<Longrightarrow> window_run rows (RestoreSamples rows ws)"
| added: "window_run rows ws \<Longrightarrow> window_run rows (AddSample s cutoff ws)"
| saved: "window_run rows ws \<Longrightarrow> writeSampleChanges ws rows = Inr (rows', ws') \<Longrightarrow> window_run rows' ws'"

lemma window_run_inv: "window_run rows ws \<Longrightarrow> journal_inv rows ws"
proof (induction rule: window_run.induct)
  case (restored rows ws)
  then show ?case
    using sampleOrder.sorted_sort_func by (simp add: journal_inv_def RestoreSamples_def surviving_def)
qed (auto intro: AddSample_journal saved_journal(4))

lemma AddSample_keys:
  assumes "distinct (map sample_key (ws_Samples ws))" and "sample_key s \<notin> sample_key ` set (ws_Samples ws)"
  shows "distinct (map sample_key (ws_Samples (AddSample s cutoff ws)))"
proof -
  let ?kept = "filter (\<lambda>x. \<not> sa_EventTime x < cutoff) (ws_Samples ws @ [s])"
  have "distinct (map sample_key (ws_Samples ws @ [s]))" using assms by auto
  then have "distinct (map sample_key ?kept)" by (rule distinct_map_filter)
  moreover have "mset (ws_Samples (AddSample s cutoff ws)) = mset ?kept"
    by (simp add: AddSample_def Let_def dropSamplesBefore_def admit_sample_def)
  ultimately show ?thesis by (metis mset_eq_imp_distinct_iff mset_map)
qed

text \<open>
  Claim C38. The sample journal is an exact refinement of the window: after any sequence of samples, repeated
  ones included, and saves, writing the journal succeeds exactly when the window holds no two samples of one
  event (the primary key of the rows). When it succeeds, it leaves nothing unsaved, and the rows then stored,
  restored in whatever order the database returns them, give exactly the samples the window had in memory: a
  restart loses and duplicates no sample. A window without two samples of one event stays so when a sample of
  an event that it does not hold is added.
\<close>

theorem samples_survive_restart:
  assumes "window_run rows ws"
  shows "((\<exists>rows' ws'. writeSampleChanges ws rows = Inr (rows', ws')) \<longleftrightarrow> distinct (map sample_key (ws_Samples ws)))
    \<and> (\<forall>rows' ws'. writeSampleChanges ws rows = Inr (rows', ws') \<longrightarrow> ws' = SamplesSaved ws \<and> UnsavedSamples ws' = ([], [])
        \<and> ws_Samples ws' = ws_Samples ws
        \<and> (\<forall>read other. mset read = mset rows' \<longrightarrow> ws_Samples (RestoreSamples read other) = ws_Samples ws))
    \<and> (\<forall>s cutoff. distinct (map sample_key (ws_Samples ws)) \<and> sample_key s \<notin> sample_key ` set (ws_Samples ws) \<longrightarrow>
        distinct (map sample_key (ws_Samples (AddSample s cutoff ws))))"
proof -
  note inv = window_run_inv[OF assms]
  have read: "sort_func compareSamples read = ws_Samples ws"
    if "writeSampleChanges ws rows = Inr (rows', ws')" "mset read = mset rows'" for rows' ws' read
  proof -
    note saved = saved_journal[OF inv that(1)]
    have "inj_on sample_key (set (ws_Samples ws))"
      using saved(2,3) by (metis distinct_map mset_eq_setD)
    moreover have "sorted_wrt (\<lambda>a b. compareSamples a b \<le> 0) (ws_Samples ws)" using inv by (simp add: journal_inv_def)
    ultimately show ?thesis
      using sampleOrder.sort_func_perm[of "ws_Samples ws" read] sampleOrder.sort_func_sorted[of "ws_Samples ws"] saved(2) that(2) by simp
  qed
  show ?thesis
  proof (intro conjI allI impI)
    show "(\<exists>rows' ws'. writeSampleChanges ws rows = Inr (rows', ws')) \<longleftrightarrow> distinct (map sample_key (ws_Samples ws))"
      by (simp add: save_cases[OF inv])
  next
    fix rows' ws'
    assume w: "writeSampleChanges ws rows = Inr (rows', ws')"
    show "ws' = SamplesSaved ws" "UnsavedSamples ws' = ([], [])" "ws_Samples ws' = ws_Samples ws"
      using saved_journal(1)[OF inv w] by (simp_all add: UnsavedSamples_def SamplesSaved_def)
    show "ws_Samples (RestoreSamples read other) = ws_Samples ws" if "mset read = mset rows'" for read other
      using read[OF w that] by (simp add: RestoreSamples_def)
  qed (use AddSample_keys in blast)
qed

definition sample_at :: "string \<Rightarrow> time \<Rightarrow> sample" where
  "sample_at i t = \<lparr>sa_EventID = i, sa_EventTime = t, sa_Value = Finite 1, sa_BootID = ''''\<rparr>"

definition window0 :: window_state where
  "window0 = RestoreSamples [sample_at ''a'' 5] \<lparr>ws_BootID = '''', ws_Samples = [], ws_LastEmit = 0, ws_WindowEnd = 0,
     ws_admitted = [], ws_expired = []\<rparr>"

definition window1 :: window_state where
  "window1 = AddSample (sample_at ''c'' 20) 10 (AddSample (sample_at ''b'' 12) 5 window0)"

theorem samples_survive_restart_witness:
  "ws_admitted window1 = [sample_at ''b'' 12, sample_at ''c'' 20] \<and> ws_expired window1 = [sample_at ''a'' 5]
   \<and> (\<exists>rows'. writeSampleChanges window1 [sample_at ''a'' 5] = Inr (rows', SamplesSaved window1)
        \<and> ws_Samples (RestoreSamples (rev rows') window0) = ws_Samples window1)
   \<and> \<not> (\<exists>rows' ws'. writeSampleChanges (AddSample (sample_at ''c'' 20) 10 window1) [sample_at ''a'' 5] = Inr (rows', ws'))"
proof (intro conjI)
  show "ws_admitted window1 = [sample_at ''b'' 12, sample_at ''c'' 20]" "ws_expired window1 = [sample_at ''a'' 5]" by code_simp+
  have "window_run [sample_at ''a'' 5] window0"
    unfolding window0_def by (rule window_run.restored) simp
  then have run: "window_run [sample_at ''a'' 5] window1"
    unfolding window1_def by (intro window_run.added)
  have "distinct (map sample_key (ws_Samples window1))" by code_simp
  then obtain rows' ws' where w: "writeSampleChanges window1 [sample_at ''a'' 5] = Inr (rows', ws')"
    using samples_survive_restart[OF run] by blast
  with samples_survive_restart[OF run]
  show "\<exists>rows'. writeSampleChanges window1 [sample_at ''a'' 5] = Inr (rows', SamplesSaved window1)
      \<and> ws_Samples (RestoreSamples (rev rows') window0) = ws_Samples window1"
    by (intro exI[of _ rows']) (metis mset_rev)
  have "\<not> distinct (map sample_key (ws_Samples (AddSample (sample_at ''c'' 20) 10 window1)))" by code_simp
  with samples_survive_restart[OF window_run.added[OF run]]
  show "\<not> (\<exists>rows' ws'. writeSampleChanges (AddSample (sample_at ''c'' 20) 10 window1) [sample_at ''a'' 5] = Inr (rows', ws'))" by blast
qed

end
