(* ===== verification/Operator_Properties.thy ===== *)
theory Operator_Properties
  imports Operator_Samples
begin

text \<open>
  What the operators promise: a retired boot never touches the state of its entity again, a window closes
  at most once per interval, and a heartbeat remembers the latest event of its boot whatever the order of
  arrival.
\<close>

section \<open>Reading the partition\<close>

lemma states_of_update: "states_of (AList.update o1 s ps) o2 = (if o1 = o2 then s else states_of ps o2)"
  by (simp add: states_of_def update_conv')

lemma getBlob_put: "getBlob (put_blob o1 k1 b ps) o2 k2 = (if o1 = o2 \<and> k1 = k2 then b else getBlob ps o2 k2)"
  by (simp add: getBlob_def put_blob_def states_of_update update_conv')

lemma runtimeState_put_runtime:
  "runtimeState (put_runtime e s ps) e' = (if e = e' then s else runtimeState ps e')"
  by (simp add: runtimeState_def put_runtime_def getBlob_put)

lemma runtimeState_put_blob: "o1 \<noteq> RuntimeOperatorID \<Longrightarrow> runtimeState (put_blob o1 k b ps) e = runtimeState ps e"
  by (simp add: runtimeState_def getBlob_put)

lemma states_of_discard_runtime: "states_of (discardEntityState e ps) RuntimeOperatorID = states_of ps RuntimeOperatorID"
  unfolding states_of_def discardEntityState_def by (induction ps) auto

lemma runtimeState_discard [simp]: "runtimeState (discardEntityState e ps) e' = runtimeState ps e'"
  by (simp add: runtimeState_def getBlob_def states_of_discard_runtime)

section \<open>Boot fencing\<close>

text \<open>A boot is fenced for an entity when it was seen before and is no longer the current one; a
  missing boot is fenced as soon as the entity has an identified boot.\<close>

definition fenced :: "partition_state \<Rightarrow> string \<Rightarrow> string \<Rightarrow> bool" where
  "fenced ps entityID bootID \<longleftrightarrow>
     (let s = runtimeState ps entityID
      in rs_CurrentBootID s \<noteq> bootID \<and> (bootID = '''' \<or> bootID \<in> set (rs_SeenBootIDs s)))"

text \<open>No declared operator uses the reserved name of the boot records.\<close>

definition reserved_name_free :: "operator_runtime \<Rightarrow> bool" where
  "reserved_name_free r \<longleftrightarrow> (\<forall>(_, insts) \<in> set (or_byInput r). \<forall>inst \<in> set insts. op_Name (oi_def inst) \<noteq> RuntimeOperatorID)"

fun apply_events ::
  "operator_runtime \<Rightarrow> nat \<Rightarrow> (envelope \<times> time \<times> time) list \<Rightarrow> partition_state \<Rightarrow> (feature list \<times> partition_state) result" where
  "apply_events r n [] ps = Inr ([], ps)"
| "apply_events r n ((env, watermark, processingTime) # rest) ps =
     bind_res (ApplyEventAt r n (Some ps) env watermark processingTime) (\<lambda>(fs, ps1).
     bind_res (apply_events r (n + length fs) rest ps1) (\<lambda>(fs', ps2). Inr (fs @ fs', ps2)))"

lemma admitBoot_refuses_fenced:
  assumes "fenced ps (er_ID (env_Entity env)) (deviceBootID env)"
  shows "admitBoot ps env = (False, put_runtime (er_ID (env_Entity env)) (runtimeState ps (er_ID (env_Entity env))) ps)"
  using assms by (auto simp: admitBoot_def Let_def fenced_def acceptsNewBoot_def)

lemma applyOperator_runtimeState:
  assumes "applyOperator r n ps inst env w p = Inr (fs, ps')" and "op_Name (oi_def inst) \<noteq> RuntimeOperatorID"
  shows "runtimeState ps' e = runtimeState ps e"
  using assms by (auto simp: applyOperator_def Let_def bind_res_Inr_iff runtimeState_put_blob split: if_splits prod.splits)

text \<open>A property of the boot records that every admission keeps is kept by every run of events.\<close>

locale boot_property =
  fixes Q :: "(string \<Rightarrow> runtime_state) \<Rightarrow> bool"
  assumes admit: "admitBoot ps env = (ok, ps') \<Longrightarrow> Q (runtimeState ps) \<Longrightarrow> Q (runtimeState ps')"
begin

lemma apply_instances_keeps:
  assumes "apply_instances r input env w p insts n ps = Inr (fs, ps')" and "Q (runtimeState ps)"
    and "\<forall>inst \<in> set insts. op_Name (oi_def inst) \<noteq> RuntimeOperatorID"
  shows "Q (runtimeState ps')"
  using assms
proof (induction insts arbitrary: n ps fs ps')
  case (Cons inst insts)
  obtain ok ps1 where ok: "operatorApplies r ps inst input env = (ok, ps1)" by force
  have f1: "Q (runtimeState ps1)"
    using ok Cons.prems(2) admit[of ps env] by (auto simp: operatorApplies_def split: if_splits)
  show ?case
  proof (cases ok)
    case False
    then show ?thesis using Cons.IH[OF _ f1] Cons.prems(1,3) ok by auto
  next
    case True
    then obtain fs1 ps2 fs2 where a: "applyOperator r n ps1 inst env w p = Inr (fs1, ps2)"
      and rest: "apply_instances r input env w p insts (n + length fs1) ps2 = Inr (fs2, ps')"
      using Cons.prems(1) ok by (auto simp: bind_res_Inr_iff split: prod.splits)
    have "runtimeState ps2 = runtimeState ps1"
      using applyOperator_runtimeState[OF a] Cons.prems(3) by (intro ext) simp
    then show ?thesis using Cons.IH[OF rest] Cons.prems(3) f1 by simp
  qed
qed simp

lemma ApplyEventAt_keeps:
  assumes "ApplyEventAt r n (Some ps) env w p = Inr (fs, ps')" and "Q (runtimeState ps)" and "reserved_name_free r"
  shows "Q (runtimeState ps')"
proof (cases "inputForEvent r env")
  case (Some input)
  have "\<forall>inst \<in> set (case map_of (or_byInput r) input of Some is \<Rightarrow> is | None \<Rightarrow> []). op_Name (oi_def inst) \<noteq> RuntimeOperatorID"
    using assms(3) by (cases "map_of (or_byInput r) input") (auto simp: reserved_name_free_def dest!: map_of_SomeD)
  then show ?thesis
    using assms(1,2) Some apply_instances_keeps by (simp add: ApplyEventAt_def applyInput_def)
qed (use assms in \<open>simp add: ApplyEventAt_def\<close>)

lemma apply_events_keeps:
  "apply_events r n evs ps = Inr (fs, ps') \<Longrightarrow> Q (runtimeState ps) \<Longrightarrow> reserved_name_free r \<Longrightarrow> Q (runtimeState ps')"
proof (induction r n evs ps arbitrary: fs ps' rule: apply_events.induct)
  case (2 r n env w p rest ps)
  then show ?case
    by (auto simp: bind_res_Inr_iff split: prod.splits) (metis ApplyEventAt_keeps)
qed simp

end

lemma admitBoot_runtimeState:
  assumes "admitBoot ps env = (ok, ps')"
  shows "runtimeState ps' e = runtimeState ps e \<or>
    (let s = runtimeState ps e; b = deviceBootID env
     in b \<noteq> '''' \<and> acceptsNewBoot s b \<and> runtimeState ps' e = \<lparr>rs_CurrentBootID = b, rs_SeenBootIDs = rs_SeenBootIDs s @ [b]\<rparr>)"
  using assms by (auto simp: admitBoot_def Let_def runtimeState_put_runtime split: if_splits)

text \<open>The current boot was recorded as seen; what was seen stays seen; and a fenced boot stays fenced.\<close>

definition current_boot :: "partition_state \<Rightarrow> string \<Rightarrow> string" where
  "current_boot ps e = rs_CurrentBootID (runtimeState ps e)"

interpretation recorded: boot_property "\<lambda>rs. rs_CurrentBootID (rs e) = '''' \<or> rs_CurrentBootID (rs e) \<in> set (rs_SeenBootIDs (rs e))" for e
proof
  fix ps env ok ps'
  assume a: "admitBoot ps env = (ok, ps')"
    and q: "rs_CurrentBootID (runtimeState ps e) = '''' \<or> rs_CurrentBootID (runtimeState ps e) \<in> set (rs_SeenBootIDs (runtimeState ps e))"
  show "rs_CurrentBootID (runtimeState ps' e) = '''' \<or> rs_CurrentBootID (runtimeState ps' e) \<in> set (rs_SeenBootIDs (runtimeState ps' e))"
    using admitBoot_runtimeState[OF a, of e] q by (auto simp: Let_def)
qed

interpretation remembered: boot_property "\<lambda>rs. b \<in> set (rs_SeenBootIDs (rs e))" for b e
proof
  fix ps env ok ps'
  assume a: "admitBoot ps env = (ok, ps')" and q: "b \<in> set (rs_SeenBootIDs (runtimeState ps e))"
  show "b \<in> set (rs_SeenBootIDs (runtimeState ps' e))"
    using admitBoot_runtimeState[OF a, of e] q by (auto simp: Let_def)
qed

interpretation fence: boot_property "\<lambda>rs. rs_CurrentBootID (rs e) \<noteq> b \<and> (b = '''' \<or> b \<in> set (rs_SeenBootIDs (rs e)))" for e b
proof
  fix ps env ok ps'
  assume a: "admitBoot ps env = (ok, ps')"
    and q: "rs_CurrentBootID (runtimeState ps e) \<noteq> b \<and> (b = '''' \<or> b \<in> set (rs_SeenBootIDs (runtimeState ps e)))"
  show "rs_CurrentBootID (runtimeState ps' e) \<noteq> b \<and> (b = '''' \<or> b \<in> set (rs_SeenBootIDs (runtimeState ps' e)))"
    using admitBoot_runtimeState[OF a, of e] q by (auto simp: Let_def acceptsNewBoot_def)
qed

lemma replaced_boot_fenced:
  assumes free: "reserved_name_free r" and first: "apply_events r n1 evs1 [] = Inr (fs1, ps1)" "current_boot ps1 e = b"
    and second: "apply_events r n2 evs2 ps1 = Inr (fs2, ps2)" "current_boot ps2 e \<noteq> b"
  shows "fenced ps2 e b"
proof -
  have "rs_CurrentBootID (runtimeState [] e) = ''''" by (simp add: runtimeState_def getBlob_def states_of_def empty_blob_def)
  then have "b = '''' \<or> b \<in> set (rs_SeenBootIDs (runtimeState ps1 e))"
    using recorded.apply_events_keeps[OF first(1) _ free, of e] first(2) by (auto simp: current_boot_def)
  then have "b = '''' \<or> b \<in> set (rs_SeenBootIDs (runtimeState ps2 e))"
    using remembered.apply_events_keeps[OF second(1) _ free] by blast
  with second(2) show ?thesis by (simp add: fenced_def current_boot_def Let_def)
qed

lemma apply_instances_fenced:
  assumes "fenced ps (er_ID (env_Entity env)) (deviceBootID env)"
  shows "\<exists>ps'. apply_instances r input env w p insts n ps = Inr ([], ps') \<and> (\<forall>e. runtimeState ps' e = runtimeState ps e)
    \<and> (\<forall>o1 k. o1 \<noteq> RuntimeOperatorID \<longrightarrow> getBlob ps' o1 k = getBlob ps o1 k)"
  using assms
proof (induction insts arbitrary: ps)
  case (Cons inst insts)
  let ?e = "er_ID (env_Entity env)"
  obtain ok ps1 where ok: "operatorApplies r ps inst input env = (ok, ps1)" by force
  then have no: "\<not> ok" and ps1: "ps1 = ps \<or> ps1 = put_runtime ?e (runtimeState ps ?e) ps"
    using admitBoot_refuses_fenced[OF Cons.prems] by (auto simp: operatorApplies_def split: if_splits)
  have "fenced ps1 ?e (deviceBootID env)"
    using ps1 Cons.prems by (auto simp: fenced_def runtimeState_put_runtime)
  moreover have "getBlob ps1 o1 k = getBlob ps o1 k" if "o1 \<noteq> RuntimeOperatorID" for o1 k
    using ps1 that by (auto simp: put_runtime_def getBlob_put)
  moreover have "runtimeState ps1 e = runtimeState ps e" for e
    using ps1 by (auto simp: runtimeState_put_runtime)
  ultimately show ?case
    using Cons.IH[of ps1] ok no by auto
qed simp

text \<open>
  Claim C39. A retired device boot stays retired: take any run of events from the empty partition after which a boot is
  the current one of an entity (or the entity has none yet, and the boot is the missing one), and any further
  run after which it no longer is, because another boot was admitted. Then after any further events of any
  entities the boot is still not the current one, and every event of the entity that carries it is accepted
  without error, emits no feature, admits no boot and leaves every operator's state as it was. Delayed
  evidence of an old boot can never mix with the current one.
\<close>

theorem retired_boot_never_returns:
  assumes "reserved_name_free r"
    and "apply_events r n1 evs1 [] = Inr (fs1, ps1)" and "current_boot ps1 (er_ID (env_Entity env)) = deviceBootID env"
    and "apply_events r n2 evs2 ps1 = Inr (fs2, ps2)" and "current_boot ps2 (er_ID (env_Entity env)) \<noteq> deviceBootID env"
    and "apply_events r n3 evs3 ps2 = Inr (fs3, ps3)"
  shows "current_boot ps3 (er_ID (env_Entity env)) \<noteq> deviceBootID env
    \<and> (\<exists>ps4. ApplyEventAt r m (Some ps3) env watermark processingTime = Inr ([], ps4)
        \<and> (\<forall>e. current_boot ps4 e = current_boot ps3 e)
        \<and> (\<forall>o1 k. o1 \<noteq> RuntimeOperatorID \<longrightarrow> getBlob ps4 o1 k = getBlob ps3 o1 k))"
proof -
  let ?e = "er_ID (env_Entity env)"
  have "fenced ps2 ?e (deviceBootID env)" using replaced_boot_fenced[OF assms(1-5)] .
  then have f: "fenced ps3 ?e (deviceBootID env)"
    using fence.apply_events_keeps[OF assms(6) _ assms(1)] by (simp add: fenced_def Let_def)
  then have "current_boot ps3 ?e \<noteq> deviceBootID env" by (simp add: fenced_def current_boot_def Let_def)
  moreover obtain ps4 where "ApplyEventAt r m (Some ps3) env watermark processingTime = Inr ([], ps4)"
    "\<forall>e. runtimeState ps4 e = runtimeState ps3 e" "\<forall>o1 k. o1 \<noteq> RuntimeOperatorID \<longrightarrow> getBlob ps4 o1 k = getBlob ps3 o1 k"
  proof (cases "inputForEvent r env")
    case (Some input)
    then show thesis
      using that apply_instances_fenced[OF f, of r input watermark processingTime
          "case map_of (or_byInput r) input of Some is \<Rightarrow> is | None \<Rightarrow> []" m]
      by (auto simp: ApplyEventAt_def applyInput_def)
  qed (simp add: ApplyEventAt_def)
  ultimately show ?thesis by (auto simp: current_boot_def)
qed

definition demo_spec :: compiled_spec where
  "demo_spec = \<lparr>cs_Inputs = [\<lparr>in_Name = ''temp'', in_EventType = ''t'', in_SchemaVersion = ''1'', in_SchemaRef = '''',
       in_PartitionKey = ''p'', in_EntityType = ''pump''\<rparr>],
     cs_Time = demo_time_policy,
     cs_Windows = [\<lparr>w_Name = ''w'', w_Kind = ''tumbling'', w_Size = ''10s'', w_Slide = '''', w_Emit = ''on_close''\<rparr>],
     cs_Operators = [\<lparr>op_Name = ''mx'', op_Kind = ''aggregate'', op_Inputs = [''temp''], op_Field = ''data.v'',
       op_Window = ''w'', op_Aggregate = ''max'', op_Duration = '''', op_Output = ''o'', op_Unit = ''''\<rparr>],
     cs_EventSchema = []\<rparr>"

definition demo_runtime :: operator_runtime where
  "demo_runtime = \<lparr>or_spec = demo_spec, or_newID = (\<lambda>n. replicate n CHR ''i''),
     or_byInput = [(''temp'', map (\<lambda>op. \<lparr>oi_def = op,
       oi_window = Some \<lparr>wc_size = 10000000000, wc_slide = 0, wc_emit = ''on_close''\<rparr>\<rparr>) (cs_Operators demo_spec))]\<rparr>"

definition boot_event :: "string \<Rightarrow> string \<Rightarrow> time \<Rightarrow> envelope" where
  "boot_event i b t = \<lparr>env_ID = i, env_Type = ''t'', env_SchemaVersion = ''1'', env_TenantID = ''x'', env_Source = ''s'',
     env_PartitionKey = ''p'', env_Entity = \<lparr>er_Type = ''pump'', er_ID = ''P1''\<rparr>, env_EventTime = t, env_ObservedAt = None,
     env_IngestedAt = t, env_CorrelationID = '''', env_CausationID = '''', env_Traceparent = '''', env_Tracestate = '''',
     env_Classification = ''internal'', env_Quality = [], env_Data = Some [(''v'', AnyFloat64 (Finite 7)), (''boot_id'', AnyString b)]\<rparr>"

definition demo_first_boot :: "feature list \<times> partition_state" where
  "demo_first_boot = (case apply_events demo_runtime 0 [(boot_event ''e1'' ''b1'' 5, 5, 5)] [] of Inr x \<Rightarrow> x | Inl _ \<Rightarrow> ([], []))"

definition demo_booted :: "feature list \<times> partition_state" where
  "demo_booted = (case apply_events demo_runtime 1 [(boot_event ''e2'' ''b2'' 6, 6, 6)] (snd demo_first_boot) of Inr x \<Rightarrow> x | Inl _ \<Rightarrow> ([], []))"

theorem retired_boot_never_returns_witness:
  "current_boot (snd demo_first_boot) ''P1'' = ''b1'' \<and> current_boot (snd demo_booted) ''P1'' = ''b2'' \<and>
   (\<exists>ps4. ApplyEventAt demo_runtime 9 (Some (snd demo_booted)) (boot_event ''e3'' ''b1'' 30) 30 30 = Inr ([], ps4)
      \<and> current_boot ps4 ''P1'' = ''b2''
      \<and> getBlob ps4 ''mx'' (''P1'' @ [unit_separator] @ ''b2'') = getBlob (snd demo_booted) ''mx'' (''P1'' @ [unit_separator] @ ''b2''))"
proof -
  let ?env = "boot_event ''e3'' ''b1'' 30"
  have free: "reserved_name_free demo_runtime" and i: "er_ID (env_Entity ?env) = ''P1''" "deviceBootID ?env = ''b1''"
    and n: "''mx'' \<noteq> RuntimeOperatorID" by code_simp+
  have one: "apply_events demo_runtime 0 [(boot_event ''e1'' ''b1'' 5, 5, 5)] [] = Inr (fst demo_first_boot, snd demo_first_boot)" by code_simp
  have two: "apply_events demo_runtime 1 [(boot_event ''e2'' ''b2'' 6, 6, 6)] (snd demo_first_boot) = Inr (fst demo_booted, snd demo_booted)" by code_simp
  have b: "current_boot (snd demo_first_boot) ''P1'' = ''b1''" "current_boot (snd demo_booted) ''P1'' = ''b2''" by code_simp+
  have "current_boot (snd demo_first_boot) (er_ID (env_Entity ?env)) = deviceBootID ?env"
    "current_boot (snd demo_booted) (er_ID (env_Entity ?env)) \<noteq> deviceBootID ?env" using b i by simp_all
  from retired_boot_never_returns[OF free one this(1) two this(2), of 2 "[]" "[]" "snd demo_booted" 9 30 30] b n
  show ?thesis by auto
qed

section \<open>Windows\<close>

definition interval :: "window_config \<Rightarrow> duration" where
  "interval cfg = (if 0 < wc_slide cfg then wc_slide cfg else wc_size cfg)"

lemma newWindowConfig_wf:
  assumes "newWindowConfig w = Inr cfg"
  shows "0 < wc_size cfg \<and> 0 \<le> wc_slide cfg \<and> wc_slide cfg \<le> wc_size cfg
    \<and> wc_emit cfg \<in> {''on_update'', ''on_close'', ''early_and_close''}"
  using assms
  by (auto simp: newWindowConfig_def bind_res_Inr_iff emitMode_def tumblingWindow_def slidingWindow_def checkSlide_def
      split: if_splits)

lemma interval_pos: "newWindowConfig w = Inr cfg \<Longrightarrow> 0 < interval cfg"
  using newWindowConfig_wf[of w cfg] by (simp add: interval_def)

fun apply_window_events ::
  "operator_runtime \<Rightarrow> nat \<Rightarrow> operator_instance \<Rightarrow> (envelope \<times> time) list \<Rightarrow> state_blob \<Rightarrow> (feature list \<times> state_blob) result" where
  "apply_window_events r n inst [] blob = Inr ([], blob)"
| "apply_window_events r n inst ((env, watermark) # rest) blob =
     bind_res (applyWindowOperator r n inst blob env watermark) (\<lambda>(fs, blob1).
     bind_res (apply_window_events r (n + length fs) inst rest blob1) (\<lambda>(fs', blob2). Inr (fs @ fs', blob2)))"

definition window_end :: "state_blob \<Rightarrow> time" where
  "window_end blob = (case b_Window blob of None \<Rightarrow> 0 | Some ws \<Rightarrow> ws_WindowEnd ws)"

definition finals :: "feature list \<Rightarrow> feature list" where
  "finals fs = filter (\<lambda>f. f_Completeness f = CompletenessFinalByPolicy) fs"

lemma number_features_map: "\<exists>ids. length ids = length xs \<and> number_features newID n mk xs = map2 mk ids xs"
proof (induction xs arbitrary: n)
  case (Cons x xs)
  from Cons[of "Suc n"] obtain ids where "length ids = length xs" "number_features newID (Suc n) mk xs = map2 mk ids xs" by blast
  then show ?case by (intro exI[of _ "newID n # ids"]) simp
qed simp

lemma emitWindow_facts:
  assumes "emitWindow r n inst cfg env ws agg watermark corrected = (fs, ws')"
  shows "\<forall>f \<in> set fs. f_Watermark f = watermark" and "length (finals fs) \<le> 1"
    and "finals fs \<noteq> [] \<Longrightarrow> windowCloseDue cfg ws watermark"
    and "ws_WindowEnd ws' = (if windowCloseDue cfg ws watermark then watermark else ws_WindowEnd ws)"
proof -
  let ?em = "windowEmissions (wc_emit cfg) corrected (windowCloseDue cfg ws watermark) (ws_Samples ws \<noteq> [])"
  obtain ids where ids: "length ids = length ?em"
    and fs: "fs = map2 (\<lambda>featureID c. windowFeature featureID inst cfg env ws agg watermark c) ids ?em"
    using assms number_features_map[of ?em "or_newID r" n "\<lambda>featureID c. windowFeature featureID inst cfg env ws agg watermark c"]
    by (auto simp: emitWindow_def Let_def)
  show "\<forall>f \<in> set fs. f_Watermark f = watermark"
    by (auto simp: fs windowFeature_def)
  have comp: "map f_Completeness fs = ?em"
    using ids by (simp add: fs windowFeature_def comp_def case_prod_unfold map_snd_zip_take)
  have "length (finals fs) = length (filter (\<lambda>c. c = CompletenessFinalByPolicy) (map f_Completeness fs))"
    by (simp add: finals_def filter_map comp_def)
  also have "\<dots> = (if windowCloseDue cfg ws watermark \<and> wc_emit cfg \<noteq> ''on_update'' \<and> \<not> corrected \<and> ws_Samples ws \<noteq> [] then 1 else 0)"
    by (simp add: comp windowEmissions_def CompletenessFinalByPolicy_def CompletenessProvisional_def CompletenessCorrected_def)
  finally show "length (finals fs) \<le> 1" and "finals fs \<noteq> [] \<Longrightarrow> windowCloseDue cfg ws watermark"
    by (auto split: if_splits)
  show "ws_WindowEnd ws' = (if windowCloseDue cfg ws watermark then watermark else ws_WindowEnd ws)"
    using assms by (auto simp: emitWindow_def Let_def)
qed

lemma closeDue_spacing:
  assumes "windowCloseDue cfg ws watermark"
  shows "ws_WindowEnd ws + interval cfg \<le> watermark"
proof -
  have "interval cfg \<le> time_sub watermark (ws_WindowEnd ws)" "ws_WindowEnd ws \<le> watermark"
    using assms by (auto simp: windowCloseDue_def interval_def split: if_splits)
  moreover have "time_sub watermark (ws_WindowEnd ws) \<le> watermark - ws_WindowEnd ws" if "ws_WindowEnd ws \<le> watermark"
    using that by (simp add: time_sub_def min_int64_def)
  ultimately show ?thesis by simp
qed

lemma AddSample_keeps [simp]: "ws_WindowEnd (AddSample s cutoff ws) = ws_WindowEnd ws"
proof -
  have "ws_WindowEnd (fold expire_sample ds w) = ws_WindowEnd w" for ds w
    by (induction ds arbitrary: w) auto
  then show ?thesis by (simp add: AddSample_def Let_def dropSamplesBefore_def admit_sample_def)
qed

lemma applyWindowOperator_Inr:
  assumes "applyWindowOperator r n inst blob env watermark = Inr (fs, blob')" and "oi_window inst = Some cfg"
  shows "fs = [] \<and> blob' = blob \<or> (\<exists>corrected agg ws2 s cutoff.
    emitWindow r n inst cfg env (AddSample s cutoff (windowState (deviceBootID env) watermark blob)) agg watermark corrected = (fs, ws2)
    \<and> blob' = blob\<lparr>b_Window := Some ws2\<rparr>)"
proof (cases "extractValue r inst env")
  case None
  then show ?thesis using assms by (simp add: applyWindowOperator_def)
next
  case (Some v)
  show ?thesis
    using assms(1) unfolding applyWindowOperator_def Some assms(2) option.case Let_def bind_res_Inr_iff
    by (elim exE conjE) (rule disjI2, auto split: prod.splits, blast)
qed

text \<open>One event of a window: how far the window end moves, and what a final feature means.\<close>

lemma applyWindowOperator_step:
  assumes "applyWindowOperator r n inst blob env watermark = Inr (fs, blob')" and "oi_window inst = Some cfg"
    and "0 < watermark" and "0 < interval cfg"
  shows "\<forall>f \<in> set (finals fs). f_Watermark f = watermark \<and> window_end blob \<noteq> 0 \<and> window_end blob + interval cfg \<le> watermark"
    and "length (finals fs) \<le> 1"
    and "window_end blob' = window_end blob \<or> window_end blob = 0 \<and> window_end blob' = watermark
      \<or> window_end blob + interval cfg \<le> watermark \<and> window_end blob' = watermark"
    and "finals fs \<noteq> [] \<Longrightarrow> window_end blob' = watermark"
proof -
  consider (quiet) "fs = []" "blob' = blob"
    | (applied) ws corrected agg ws2 s cutoff where "ws = windowState (deviceBootID env) watermark blob"
      "emitWindow r n inst cfg env (AddSample s cutoff ws) agg watermark corrected = (fs, ws2)"
      "blob' = blob\<lparr>b_Window := Some ws2\<rparr>"
    using applyWindowOperator_Inr[OF assms(1,2)] by metis
  then have "(\<forall>f \<in> set (finals fs). f_Watermark f = watermark \<and> window_end blob \<noteq> 0 \<and> window_end blob + interval cfg \<le> watermark)
    \<and> length (finals fs) \<le> 1
    \<and> (window_end blob' = window_end blob \<or> window_end blob = 0 \<and> window_end blob' = watermark
      \<or> window_end blob + interval cfg \<le> watermark \<and> window_end blob' = watermark)
    \<and> (finals fs \<noteq> [] \<longrightarrow> window_end blob' = watermark)"
  proof cases
    case quiet
    then show ?thesis by (simp add: finals_def)
  next
    case applied
    let ?ws = "AddSample s cutoff ws"
    note e = emitWindow_facts[OF applied(2)]
    have start: "ws_WindowEnd ?ws = (if window_end blob = 0 then watermark else window_end blob)"
      by (auto simp: applied(1) windowState_def window_end_def Let_def is_zero_time_def split: option.splits)
    have end': "window_end blob' = ws_WindowEnd ws2"
      by (simp add: applied(3) window_end_def)
    have due: "window_end blob \<noteq> 0 \<and> window_end blob + interval cfg \<le> watermark" if "windowCloseDue cfg ?ws watermark"
      using closeDue_spacing[OF that] start assms(4) by (auto split: if_splits)

    have fin: "set (finals fs) \<subseteq> set fs" by (auto simp: finals_def)
    show ?thesis
    proof (cases "windowCloseDue cfg ?ws watermark")
      case True
      then show ?thesis using e(1,2,4) due[OF True] end' fin by auto
    next
      case False
      then have "finals fs = []" using e(3) by blast
      then show ?thesis using e(4) False start end' by auto
    qed
  qed
  then show "\<forall>f \<in> set (finals fs). f_Watermark f = watermark \<and> window_end blob \<noteq> 0 \<and> window_end blob + interval cfg \<le> watermark"
    and "length (finals fs) \<le> 1"
    and "window_end blob' = window_end blob \<or> window_end blob = 0 \<and> window_end blob' = watermark
      \<or> window_end blob + interval cfg \<le> watermark \<and> window_end blob' = watermark"
    and "finals fs \<noteq> [] \<Longrightarrow> window_end blob' = watermark"
    by blast+
qed

lemma apply_window_events_spacing:
  assumes "apply_window_events r n inst evs blob = Inr (fs, blob')" and "oi_window inst = Some cfg"
    and "\<forall>(_, w) \<in> set evs. 0 < w" and "0 < interval cfg" and "0 \<le> window_end blob"
  shows "sorted_wrt (\<lambda>a b. f_Watermark a + interval cfg \<le> f_Watermark b) (finals fs)
    \<and> (window_end blob \<noteq> 0 \<longrightarrow> (\<forall>f \<in> set (finals fs). window_end blob + interval cfg \<le> f_Watermark f))"
  using assms
proof (induction r n inst evs blob arbitrary: fs blob' rule: apply_window_events.induct)
  case (2 r n inst env w rest blob)
  then obtain fs1 blob1 fs2 where a: "applyWindowOperator r n inst blob env w = Inr (fs1, blob1)"
    and rest: "apply_window_events r (n + length fs1) inst rest blob1 = Inr (fs2, blob')" and fs: "fs = fs1 @ fs2"
    by (auto simp: bind_res_Inr_iff split: prod.splits)
  have w: "0 < w" using 2(4) by simp
  note step = applyWindowOperator_step[OF a 2(3) w 2(5)]
  have nn: "0 \<le> window_end blob1" using step(3) w 2(6) by auto
  have ih: "sorted_wrt (\<lambda>a b. f_Watermark a + interval cfg \<le> f_Watermark b) (finals fs2)
    \<and> (window_end blob1 \<noteq> 0 \<longrightarrow> (\<forall>f \<in> set (finals fs2). window_end blob1 + interval cfg \<le> f_Watermark f))"
    using 2(1)[OF rest] 2(3,4,5) nn by simp
  have "finals fs = finals fs1 @ finals fs2" by (simp add: fs finals_def)
  moreover have "finals fs1 = [] \<or> (\<exists>f. finals fs1 = [f])"
    using step(2) by (cases "finals fs1") auto
  moreover have "window_end blob1 \<noteq> 0 \<and> window_end blob \<le> window_end blob1" if "window_end blob \<noteq> 0"
    using step(3) that w 2(5) by auto
  ultimately show ?case
    using ih step(1,4) w by force
qed (simp add: finals_def)

text \<open>
  Claim C40. A window closes at most once per interval: over any sequence of events applied to one key of
  a windowed operator whose configuration was accepted, in any order of event times, the features emitted
  as final by policy have watermarks that are apart by at least the slide of a sliding window and by at
  least the size of a tumbling one.
\<close>

theorem window_closes_once_per_interval:
  assumes "newWindowConfig w = Inr cfg" and "oi_window inst = Some cfg"
    and "\<forall>(_, watermark) \<in> set evs. 0 < watermark"
    and "apply_window_events r n inst evs empty_blob = Inr (fs, blob)"
  shows "sorted_wrt (\<lambda>a b. f_Watermark a + (if 0 < wc_slide cfg then wc_slide cfg else wc_size cfg) \<le> f_Watermark b)
    (filter (\<lambda>f. f_Completeness f = CompletenessFinalByPolicy) fs)"
  using apply_window_events_spacing[OF assms(4,2,3) interval_pos[OF assms(1)]]
  by (simp add: window_end_def empty_blob_def interval_def[symmetric] finals_def[symmetric])

definition demo_window_events :: "(envelope \<times> time) list" where
  "demo_window_events = [(boot_event ''e1'' ''b1'' 5, 5), (boot_event ''e2'' ''b1'' 6, 10000000005), (boot_event ''e3'' ''b1'' 7, 10000000006),
     (boot_event ''e4'' ''b1'' 20000000000, 20000000005)]"

theorem window_closes_once_per_interval_witness:
  "\<exists>fs blob. apply_window_events demo_runtime 0 (hd (snd (hd (or_byInput demo_runtime)))) demo_window_events empty_blob = Inr (fs, blob)
     \<and> map f_Watermark (filter (\<lambda>f. f_Completeness f = CompletenessFinalByPolicy) fs) = [10000000005, 20000000005]
     \<and> sorted_wrt (\<lambda>a b. f_Watermark a + 10000000000 \<le> f_Watermark b) (filter (\<lambda>f. f_Completeness f = CompletenessFinalByPolicy) fs)"
proof -
  define inst where "inst = hd (snd (hd (or_byInput demo_runtime)))"
  define cfg where "cfg = \<lparr>wc_size = 10000000000, wc_slide = 0, wc_emit = ''on_close''\<rparr>"
  have new: "newWindowConfig (hd (cs_Windows demo_spec)) = Inr \<lparr>wc_size = 10000000000, wc_slide = 0, wc_emit = ''on_close''\<rparr>"
    by code_simp
  have win: "oi_window inst = Some cfg"
    by (simp add: inst_def cfg_def demo_runtime_def demo_spec_def)
  have pos: "\<forall>(_, watermark) \<in> set demo_window_events. 0 < watermark"
    by (simp add: demo_window_events_def)
  have "case apply_window_events demo_runtime 0 (hd (snd (hd (or_byInput demo_runtime)))) demo_window_events empty_blob of Inl _ \<Rightarrow> False
    | Inr (fs, _) \<Rightarrow> map f_Watermark (filter (\<lambda>f. f_Completeness f = CompletenessFinalByPolicy) fs) = [10000000005, 20000000005]"
    by code_simp
  then obtain fs blob where run: "apply_window_events demo_runtime 0 inst demo_window_events empty_blob = Inr (fs, blob)"
    and ws: "map f_Watermark (filter (\<lambda>f. f_Completeness f = CompletenessFinalByPolicy) fs) = [10000000005, 20000000005]"
    by (auto simp: inst_def split: sum.splits prod.splits)
  show ?thesis
    using window_closes_once_per_interval[OF new[folded cfg_def] win pos run] run ws
    by (auto simp: inst_def cfg_def)
qed

section \<open>Heartbeats\<close>

definition beat_key :: "envelope \<Rightarrow> time \<times> string" where
  "beat_key env = (env_EventTime env, env_ID env)"

definition heard :: "heartbeat_state \<Rightarrow> (time \<times> string) option" where
  "heard hs = map_option (\<lambda>t. (t, hs_LastEventID hs)) (hs_LastEventTime hs)"

lemma record_beat_same_boot:
  assumes "hs_BootID hs = deviceBootID env \<or> hs = empty_heartbeat"
  shows "hs_BootID (record_beat env p hs) = deviceBootID env"
    and "heard (record_beat env p hs) = Some (case heard hs of None \<Rightarrow> beat_key env | Some k \<Rightarrow> max k (beat_key env))"
  using assms
  by (auto simp: record_beat_def Let_def adoptBoot_def isNewerThanLatest_def heard_def beat_key_def empty_heartbeat_def
      max_def less_eq_prod_def split: option.splits)

lemma heartbeat_fold:
  assumes "\<forall>(env, _) \<in> set evs. deviceBootID env = b" and "hs_BootID hs = b \<or> hs = empty_heartbeat"
  shows "heard (foldl (\<lambda>hs (env, p). record_beat env p hs) hs evs)
    = (if evs = [] then heard hs else Some (Max (set (map (beat_key \<circ> fst) evs) \<union> set_option (heard hs))))"
  using assms
proof (induction evs arbitrary: hs)
  case (Cons ev evs)
  obtain env p where ev: "ev = (env, p)" by force
  note step = record_beat_same_boot[of hs env p]
  have boot: "hs_BootID (record_beat env p hs) = b" and h: "heard (record_beat env p hs)
      = Some (case heard hs of None \<Rightarrow> beat_key env | Some k \<Rightarrow> max k (beat_key env))"
    using step Cons.prems by (auto simp: ev)
  have ih: "heard (foldl (\<lambda>hs (env, p). record_beat env p hs) (record_beat env p hs) evs)
      = (if evs = [] then heard (record_beat env p hs)
         else Some (Max (set (map (beat_key \<circ> fst) evs) \<union> set_option (heard (record_beat env p hs)))))"
    using Cons.IH[of "record_beat env p hs"] Cons.prems boot by auto
  have "Max (A \<union> {case heard hs of None \<Rightarrow> k | Some k0 \<Rightarrow> max k0 k}) = Max (insert k A \<union> set_option (heard hs))"
    if "finite A" for A k
    using that by (cases "heard hs"; cases "A = {}") (auto simp: max.commute max.left_commute max.assoc)
  from this[of "set (map (beat_key \<circ> fst) evs)" "beat_key env"] show ?case
    using ih h by (auto simp: ev)
qed simp

text \<open>
  The heartbeat of a key is the latest event of its boot, whatever the order of arrival: after
  any non-empty sequence of heartbeats of one boot, the recorded event is the maximum of their event
  times, ties broken by event id. Delayed or reordered heartbeats neither lose nor rejuvenate it.
\<close>

theorem heartbeat_is_latest:
  assumes "evs \<noteq> []" and "\<forall>(env, _) \<in> set evs. deviceBootID env = b"
    and "hs = foldl (\<lambda>hs (env, p). record_beat env p hs) empty_heartbeat evs"
  shows "hs_LastEventTime hs = Some (fst (Max (set (map (\<lambda>(env, _). (env_EventTime env, env_ID env)) evs))))
    \<and> hs_LastEventID hs = snd (Max (set (map (\<lambda>(env, _). (env_EventTime env, env_ID env)) evs)))"
proof -
  have keys: "map (beat_key \<circ> fst) evs = map (\<lambda>(env, _). (env_EventTime env, env_ID env)) evs"
    by (auto simp: beat_key_def)
  have "heard hs = Some (Max (set (map (\<lambda>(env, _). (env_EventTime env, env_ID env)) evs)))"
    using heartbeat_fold[OF assms(2), of empty_heartbeat] assms(1,3) unfolding keys
    by (simp add: heard_def empty_heartbeat_def)
  then have "\<exists>t. hs_LastEventTime hs = Some t \<and> (t, hs_LastEventID hs) = Max (set (map (\<lambda>(env, _). (env_EventTime env, env_ID env)) evs))"
    by (simp add: heard_def)
  then show ?thesis by (metis fst_conv snd_conv)
qed

theorem heartbeat_is_latest_witness:
  "hs_LastEventTime (foldl (\<lambda>hs (env, p). record_beat env p hs) empty_heartbeat
     [(boot_event ''e1'' ''b1'' 5, 5), (boot_event ''e9'' ''b1'' 9, 6), (boot_event ''e3'' ''b1'' 7, 7)]) = Some 9"
proof -
  let ?evs = "[(boot_event ''e1'' ''b1'' 5, 5), (boot_event ''e9'' ''b1'' 9, 6), (boot_event ''e3'' ''b1'' 7, 7)] :: (envelope \<times> time) list"
  have boots: "\<forall>(env, _) \<in> set ?evs. deviceBootID env = ''b1''" by code_simp
  have "Max (set (map (\<lambda>(env, _). (env_EventTime env, env_ID env)) ?evs)) = (9, ''e9'')"
    by (simp add: boot_event_def less_eq_prod_def max_def)
  with heartbeat_is_latest[OF _ boots refl] show ?thesis by simp
qed

end
