(* ===== verification/Go_Effect.thy ===== *)
theory Go_Effect
  imports Go_Prelude
begin

text \<open>
  Methods that change a structure through a pointer and return an error: an operation maps the state
  before to its result and the state after, and the changes made before an error stay, as they do in
  Go. A relation between the states before and after an operation is proved for composite operations
  from their parts when it is reflexive and transitive; that interface is the locale \<open>effects\<close>.
\<close>

named_theorems op_simps
  \<comment> \<open>unfolding rules of the operation combinators\<close>

type_synonym ('s, 'a) op = "'s \<Rightarrow> 'a result \<times> 's"

definition op_return :: "'a \<Rightarrow> ('s, 'a) op" where
  [op_simps]: "op_return x s = (Inr x, s)"

definition op_lift :: "'a result \<Rightarrow> ('s, 'a) op" where
  [op_simps]: "op_lift r s = (r, s)"

definition op_modify :: "('s \<Rightarrow> 's) \<Rightarrow> ('s, unit) op" where
  [op_simps]: "op_modify f s = (Inr (), f s)"

definition op_bind :: "('s, 'a) op \<Rightarrow> ('a \<Rightarrow> ('s, 'b) op) \<Rightarrow> ('s, 'b) op" where
  "op_bind m f s = (case m s of (Inl err, s') \<Rightarrow> (Inl err, s') | (Inr x, s') \<Rightarrow> f x s')"

definition op_wrap :: "string \<Rightarrow> ('s, 'a) op \<Rightarrow> ('s, 'a) op" where
  [op_simps]: "op_wrap msg m s = apfst (wrap_err msg) (m s)"

lemma op_bind_simps [op_simps]:
  "m s = (Inl err, s') \<Longrightarrow> op_bind m f s = (Inl err, s')"
  "m s = (Inr x, s') \<Longrightarrow> op_bind m f s = f x s'"
  by (simp_all add: op_bind_def)

lemma op_bind_Inr_iff:
  "op_bind m f s = (Inr y, s') \<longleftrightarrow> (\<exists>x s1. m s = (Inr x, s1) \<and> f x s1 = (Inr y, s'))"
  by (auto simp: op_bind_def split: prod.splits sum.splits)

lemma op_bind_InrE:
  assumes "op_bind m f s = (Inr y, s')"
  obtains x s1 where "m s = (Inr x, s1)" and "f x s1 = (Inr y, s')"
  using assms by (auto simp: op_bind_Inr_iff)

lemma op_lift_Inr_iff: "op_lift r s = (Inr y, s') \<longleftrightarrow> r = Inr y \<and> s' = s"
  by (auto simp: op_lift_def)

lemma op_return_Inr_iff: "op_return x s = (Inr y, s') \<longleftrightarrow> y = x \<and> s' = s"
  by (auto simp: op_return_def)

lemma op_wrap_Inr_iff: "op_wrap msg m s = (Inr y, s') \<longleftrightarrow> m s = (Inr y, s')"
  by (cases "m s") (auto simp: op_wrap_def)

lemma op_modify_Inr_iff: "op_modify f s = (Inr y, s') \<longleftrightarrow> s' = f s"
  by (auto simp: op_modify_def)

lemmas op_Inr_iff = op_bind_Inr_iff op_lift_Inr_iff op_return_Inr_iff op_wrap_Inr_iff op_modify_Inr_iff

definition op_keeps :: "('s \<Rightarrow> 's \<Rightarrow> bool) \<Rightarrow> ('s, 'a) op \<Rightarrow> bool" where
  "op_keeps R m \<longleftrightarrow> (\<forall>s. R s (snd (m s)))"

lemma op_keepsI: "(\<And>s. R s (snd (m s))) \<Longrightarrow> op_keeps R m"
  by (simp add: op_keeps_def)

lemma op_keepsD: "op_keeps R m \<Longrightarrow> m s = (r, s') \<Longrightarrow> R s s'"
  by (metis op_keeps_def snd_conv)

locale effects =
  fixes R :: "'s \<Rightarrow> 's \<Rightarrow> bool"
  assumes effect_refl: "R s s"
    and effect_trans: "R s1 s2 \<Longrightarrow> R s2 s3 \<Longrightarrow> R s1 s3"
begin

lemma keeps_return: "op_keeps R (op_return x)"
  by (simp add: op_keeps_def op_return_def effect_refl)

lemma keeps_lift: "op_keeps R (op_lift r)"
  by (simp add: op_keeps_def op_lift_def effect_refl)

lemma keeps_modify: "(\<And>s. R s (f s)) \<Longrightarrow> op_keeps R (op_modify f)"
  by (simp add: op_keeps_def op_modify_def)

lemma keeps_wrap: "op_keeps R m \<Longrightarrow> op_keeps R (op_wrap msg m)"
  by (simp add: op_keeps_def op_wrap_def)

lemma keeps_bind:
  assumes "op_keeps R m" and "\<And>x. op_keeps R (f x)"
  shows "op_keeps R (op_bind m f)"
proof (rule op_keepsI)
  fix s
  obtain r s1 where m: "m s = (r, s1)"
    by fastforce
  then have "R s s1"
    using assms(1) by (rule op_keepsD[rotated])
  moreover have "R s1 (snd (f x s1))" for x
    using assms(2) by (simp add: op_keeps_def)
  ultimately show "R s (snd (op_bind m f s))"
    using m effect_trans by (auto simp: op_bind_def split: sum.splits)
qed

lemma keeps_if: "(b \<Longrightarrow> op_keeps R m) \<Longrightarrow> (\<not> b \<Longrightarrow> op_keeps R m') \<Longrightarrow> op_keeps R (if b then m else m')"
  by simp

lemmas keeps_rules = keeps_return keeps_lift keeps_wrap keeps_bind keeps_if

end

end
