(* ===== verification/Go_Decimal.thy ===== *)
theory Go_Decimal
  imports Go_Float Kernel
begin

text \<open>
  Decimal text of a \<open>float64\<close>: \<open>strconv.FormatFloat(f, 'g', -1, 64)\<close>, the shortest decimal that reads back
  as the same value, the nearest one where there are several. The lemmas show that seventeen digits
  always suffice, so that the text of every finite value reads back exactly.
\<close>

section \<open>Powers\<close>

lemma pow2_powi: "pow2 e = 2 powi e"
  by (simp add: pow2_def power_int_def power_one_over inverse_eq_divide)

lemma pow10_powi: "pow10 e = 10 powi e"
  by (simp add: pow10_def power_int_def power_one_over inverse_eq_divide)

lemma pow_pos [simp]: "0 < pow2 e" "0 < pow10 e" "pow2 e \<noteq> 0" "pow10 e \<noteq> 0"
  by (simp_all add: pow2_powi pow10_powi)

lemma pow_sign [simp]: "0 \<le> pow2 e" "0 \<le> pow10 e" "\<not> pow2 e < 0" "\<not> pow10 e < 0" "\<bar>pow2 e\<bar> = pow2 e" "\<bar>pow10 e\<bar> = pow10 e"
  using pow_pos(1)[of e] pow_pos(2)[of e] by (simp_all del: pow_pos)

lemma pow2_add: "pow2 (a + b) = pow2 a * pow2 b"
  by (simp add: pow2_powi power_int_add)

lemma pow2_numeral_add: "pow2 (numeral k + e) = 2 ^ numeral k * pow2 e"
  by (simp only: pow2_add) (simp add: pow2_def)

lemma pow10_add: "pow10 (a + b) = pow10 a * pow10 b"
  by (simp add: pow10_powi power_int_add)

lemma pow10_nat_add: "pow10 (int n + k) = 10 ^ n * pow10 k"
  by (simp only: pow10_add) (simp add: pow10_def)

lemma pow2_less_iff: "pow2 a < pow2 b \<longleftrightarrow> a < b"
  unfolding pow2_powi
  by (metis linorder_less_linear one_less_numeral_iff order_less_asym power_int_strict_increasing semiring_norm(76))

lemma pow2_le_iff: "pow2 a \<le> pow2 b \<longleftrightarrow> a \<le> b"
  using pow2_less_iff[of b a] by (simp add: linorder_not_less[symmetric])

section \<open>The exponent of a positive rational\<close>

function digit_count :: "int \<Rightarrow> int" where
  "digit_count n = (if n \<le> 0 then 0 else 1 + digit_count (n div 10))"
  by pat_completeness auto
termination
  by (relation "measure nat") auto

declare digit_count.simps [simp del]

definition decimal_exponent :: "rat \<Rightarrow> int" where
  "decimal_exponent x =
     (let (p, q) = quotient_of x;
          k = digit_count p - digit_count q
      in if pow10 k \<le> x then k else k - 1)"

lemma radix_step:
  fixes b n :: int
  assumes "1 < b" and "0 < n" and rec: "0 < n div b \<Longrightarrow> 0 < l \<and> b ^ nat (l - 1) \<le> n div b \<and> n div b < b ^ nat l"
    and zero: "n div b \<le> 0 \<Longrightarrow> l = 0"
  shows "0 < 1 + l \<and> b ^ nat (1 + l - 1) \<le> n \<and> n < b ^ nat (1 + l)"
proof (cases "0 < n div b")
  case True
  from rec[OF this] have l: "0 < l" and lo: "b ^ nat (l - 1) \<le> n div b" and hi: "n div b + 1 \<le> b ^ nat l" by auto
  have n1: "nat l = Suc (nat (l - 1))" and n2: "nat (1 + l) = Suc (nat l)" using l by auto
  have "b * b ^ nat (l - 1) \<le> b * (n div b)" using lo assms(1) by simp
  also have "\<dots> \<le> n" using div_bounds[of b n] assms(1) by simp
  finally have "b ^ nat l \<le> n" by (simp add: n1)
  moreover have "n < b * (n div b + 1)" using div_bounds[of b n] assms(1) by simp
  moreover have "b * (n div b + 1) \<le> b * b ^ nat l" using hi assms(1) by simp
  ultimately show ?thesis using l by (simp add: n2)
next
  case False
  have "l = 0" using zero False by simp
  moreover have "n < b" using False assms(1,2) by (metis div_pos_pos_trivial dual_order.refl linorder_not_less
      nonneg1_imp_zdiv_pos_iff order.strict_trans1 zero_less_one int_one_le_iff_zero_less order_less_le)
  ultimately show ?thesis using assms(2) by simp
qed

lemma bit_length_bounds: "0 < n \<Longrightarrow> 0 < bit_length n \<and> 2 ^ nat (bit_length n - 1) \<le> n \<and> n < 2 ^ nat (bit_length n)"
proof (induction n rule: bit_length.induct)
  case (1 n)
  have "bit_length n = 1 + bit_length (n div 2)" using "1.prems" by (subst bit_length.simps) simp
  moreover have "n div 2 \<le> 0 \<Longrightarrow> bit_length (n div 2) = 0" by (subst bit_length.simps) simp
  ultimately show ?case using radix_step[of 2 n "bit_length (n div 2)"] 1 by simp
qed

lemma digit_count_bounds: "0 < n \<Longrightarrow> 0 < digit_count n \<and> 10 ^ nat (digit_count n - 1) \<le> n \<and> n < 10 ^ nat (digit_count n)"
proof (induction n rule: digit_count.induct)
  case (1 n)
  have "digit_count n = 1 + digit_count (n div 10)" using "1.prems" by (subst digit_count.simps) simp
  moreover have "n div 10 \<le> 0 \<Longrightarrow> digit_count (n div 10) = 0" by (subst digit_count.simps) simp
  ultimately show ?case using radix_step[of 10 n "digit_count (n div 10)"] 1 by simp
qed

lemma of_int_powi: "0 \<le> e \<Longrightarrow> of_int (b ^ nat e) = (of_int b :: rat) powi e"
  by (simp add: power_int_def)

lemma quotient_exponent:
  fixes b p q :: int and x :: rat
  assumes "1 < b" and "0 < p" and "0 < q" and x: "x = of_int p / of_int q"
    and p: "0 < i \<and> b ^ nat (i - 1) \<le> p \<and> p < b ^ nat i"
    and q: "0 < j \<and> b ^ nat (j - 1) \<le> q \<and> q < b ^ nat j"
  shows "of_int b powi (i - j - 1) \<le> x \<and> x < of_int b powi (i - j + 1)"
proof -
  let ?b = "of_int b :: rat"
  have b: "1 < ?b" "?b \<noteq> 0" using assms(1) by auto
  have lo: "?b powi (i - 1) \<le> of_int p" "?b powi (j - 1) \<le> of_int q"
    using p q of_int_powi[of "i - 1" b] of_int_powi[of "j - 1" b] by (metis diff_ge_0_iff_ge int_one_le_iff_zero_less of_int_le_iff)+
  have hi: "of_int p < ?b powi i" "of_int q < ?b powi j"
    using p q of_int_powi[of i b] of_int_powi[of j b] by (metis of_int_less_iff order_less_imp_le)+
  have "?b powi (i - j - 1) * of_int q \<le> ?b powi (i - j - 1) * ?b powi j"
    using hi(2) b by (intro mult_left_mono) auto
  also have "\<dots> = ?b powi (i - 1)" using b by (simp flip: power_int_add)
  also have "\<dots> \<le> of_int p" by (rule lo)
  finally have "?b powi (i - j - 1) \<le> x" using assms(3) by (simp add: x pos_le_divide_eq)
  moreover have "of_int p < ?b powi i" by (rule hi)
  then have "of_int p < ?b powi (i - j + 1) * ?b powi (j - 1)" using b by (simp flip: power_int_add)
  then have "of_int p < ?b powi (i - j + 1) * of_int q"
    using lo(2) b mult_left_mono[of "?b powi (j - 1)" "of_int q" "?b powi (i - j + 1)"]
    by (meson less_le_trans order_less_imp_le zero_less_power_int order_less_trans zero_less_one)
  then have "x < ?b powi (i - j + 1)" using assms(3) by (simp add: x pos_divide_less_eq)
  ultimately show ?thesis by simp
qed

lemma quotient_pos: "0 < x \<Longrightarrow> quotient_of x = (p, q) \<Longrightarrow> 0 < p \<and> 0 < q \<and> x = of_int p / of_int q"
  using quotient_of_denom_pos quotient_of_div by (metis divide_pos_pos of_int_0_less_iff pos_less_divide_eq zero_less_divide_iff mult_zero_left)

lemma binary_exponent_bounds: "0 < x \<Longrightarrow> pow2 (binary_exponent x) \<le> x \<and> x < pow2 (binary_exponent x + 1)"
proof -
  assume x: "0 < x"
  obtain p q where pq: "quotient_of x = (p, q)" by force
  note pos = quotient_pos[OF x pq]
  from quotient_exponent[of 2 p q x "bit_length p" "bit_length q"] bit_length_bounds pos
  have "pow2 (bit_length p - bit_length q - 1) \<le> x \<and> x < pow2 (bit_length p - bit_length q + 1)" by (simp add: pow2_powi)
  then show ?thesis by (auto simp: binary_exponent_def pq Let_def)
qed

lemma decimal_exponent_bounds: "0 < x \<Longrightarrow> pow10 (decimal_exponent x) \<le> x \<and> x < pow10 (decimal_exponent x + 1)"
proof -
  assume x: "0 < x"
  obtain p q where pq: "quotient_of x = (p, q)" by force
  note pos = quotient_pos[OF x pq]
  from quotient_exponent[of 10 p q x "digit_count p" "digit_count q"] digit_count_bounds pos
  have "pow10 (digit_count p - digit_count q - 1) \<le> x \<and> x < pow10 (digit_count p - digit_count q + 1)" by (simp add: pow10_powi)
  then show ?thesis by (auto simp: decimal_exponent_def pq Let_def)
qed

lemma binary_exponent_eq: "pow2 e \<le> x \<Longrightarrow> x < pow2 (e + 1) \<Longrightarrow> binary_exponent x = e"
proof -
  assume e: "pow2 e \<le> x" "x < pow2 (e + 1)"
  have "0 < x" using e(1) pow_pos(1)[of e] by (rule less_le_trans[rotated])
  note b = binary_exponent_bounds[OF this]
  have "pow2 e < pow2 (binary_exponent x + 1)" "pow2 (binary_exponent x) < pow2 (e + 1)" using b e by linarith+
  then show ?thesis by (simp add: pow2_less_iff)
qed


section \<open>Rounding\<close>

lemma round_half_even_near: "\<bar>y - of_int m\<bar> < 1 / 2 \<Longrightarrow> round_half_even y = m"
proof -
  assume near: "\<bar>y - of_int m\<bar> < 1 / 2"
  show ?thesis
  proof (cases "of_int m \<le> y")
    case True
    then have "\<lfloor>y\<rfloor> = m" using near by (intro floor_unique) auto
    then show ?thesis using near True by (simp add: round_half_even_def Let_def)
  next
    case False
    then have "\<lfloor>y\<rfloor> = m - 1" using near by (intro floor_unique) auto
    then show ?thesis using near False by (simp add: round_half_even_def Let_def)
  qed
qed

lemma round_half_even_of_int [simp]: "round_half_even (of_int m) = m"
  by (rule round_half_even_near) simp

lemma round_half_even_error: "\<bar>of_int (round_half_even y) - y\<bar> \<le> 1 / 2"
proof -
  have "of_int \<lfloor>y\<rfloor> \<le> y" "y < of_int \<lfloor>y\<rfloor> + 1" using floor_correct[of y] by simp_all
  then show ?thesis unfolding round_half_even_def Let_def by (auto simp only: abs_if of_int_add of_int_1 split: if_splits)
qed

lemma round_half_even_ge: "of_int m \<le> y \<Longrightarrow> m \<le> round_half_even y"
proof -
  assume "of_int m \<le> y"
  then have "(of_int m :: rat) - 1 < of_int (round_half_even y)" using round_half_even_error[of y] by linarith
  then have "(of_int (m - 1) :: rat) < of_int (round_half_even y)" by simp
  then show ?thesis by (simp only: of_int_less_iff)
qed

lemma round_half_even_le: "y \<le> of_int m \<Longrightarrow> round_half_even y \<le> m"
proof -
  assume "y \<le> of_int m"
  then have "of_int (round_half_even y) < (of_int m :: rat) + 1" using round_half_even_error[of y] by linarith
  then have "of_int (round_half_even y) < (of_int (m + 1) :: rat)" by simp
  then show ?thesis by (simp only: of_int_less_iff)
qed

definition grid :: "rat \<Rightarrow> int" where
  "grid x = max (binary_exponent x - 52) (- 1074)"

lemma round_positive_grid: "round_positive x = of_int (round_half_even (x / pow2 (grid x))) * pow2 (grid x)"
  by (simp add: round_positive_def grid_def Let_def)

lemma round_positive_near:
  assumes "\<bar>y / pow2 (grid y) - of_int m\<bar> < 1 / 2"
  shows "round_positive y = of_int m * pow2 (grid y)"
  using round_half_even_near[OF assms] by (simp add: round_positive_grid)

lemma grid_mantissa:
  assumes "0 < x" and "round_positive x = x"
  obtains m where "x = of_int m * pow2 (grid x)" and "0 < m" and "m < 2 ^ 53"
    and "- 1074 < grid x \<longrightarrow> 2 ^ 52 \<le> m"
proof -
  let ?g = "grid x"
  define m where "m = round_half_even (x / pow2 ?g)"
  have x: "x = of_int m * pow2 ?g" using assms(2) by (simp add: round_positive_grid m_def)
  have "0 < of_int m * pow2 ?g" using assms(1) x by simp
  then have pos: "0 < m" by (simp add: zero_less_mult_iff)
  note b = binary_exponent_bounds[OF assms(1)]
  have "binary_exponent x + 1 \<le> 53 + ?g" by (simp add: grid_def)
  then have "pow2 (binary_exponent x + 1) \<le> pow2 53 * pow2 ?g" by (simp add: pow2_le_iff flip: pow2_add)
  then have "of_int m * pow2 ?g < pow2 53 * pow2 ?g" using b x by simp
  then have "(of_int m :: rat) < pow2 53" by (simp only: mult_less_cancel_right_pos pow_pos)
  then have "(of_int m :: rat) < 2 ^ 53" by (simp add: pow2_def)
  then have small: "m < 2 ^ 53" by simp
  have "2 ^ 52 \<le> m" if "- 1074 < ?g"
  proof -
    have "binary_exponent x = 52 + ?g" using that by (simp add: grid_def max_def split: if_splits)
    then have "pow2 52 * pow2 ?g \<le> of_int m * pow2 ?g" using b x by (simp flip: pow2_add)
    then have "pow2 52 \<le> (of_int m :: rat)" by (simp only: mult_le_cancel_right_pos pow_pos)
    then have "2 ^ 52 \<le> (of_int m :: rat)" by (simp add: pow2_def)
    then show ?thesis by simp
  qed
  then show ?thesis using that[OF x pos small] by blast
qed

text \<open>Rounding is idempotent: a mantissa of at most 53 bits on the grid is a binary64.\<close>

lemma round_positive_mantissa:
  assumes "0 < m" and "m < 2 ^ 53" and "- 1074 \<le> g"
  shows "round_positive (of_int m * pow2 g) = of_int m * pow2 g"
proof -
  define r where "r = of_int m * pow2 g"
  let ?r = r
  have r0: "0 < ?r" using assms(1) by (simp add: r_def)
  have "(of_int m :: rat) < 2 ^ 53" using assms(2) by simp
  then have "?r < pow2 (53 + g)" by (simp add: pow2_numeral_add r_def)
  then have "pow2 (binary_exponent ?r) < pow2 (53 + g)" using binary_exponent_bounds[OF r0] by linarith
  then have le: "grid ?r \<le> g" using assms(3) by (simp add: pow2_less_iff grid_def)
  then have "pow2 g = 2 ^ nat (g - grid ?r) * pow2 (grid ?r)"
    using pow2_add[of "g - grid ?r" "grid ?r"] by (simp add: pow2_def[of "g - grid ?r"])
  then have "?r = of_int m * (2 ^ nat (g - grid ?r) * pow2 (grid ?r))" by (simp only: r_def)
  then have q: "?r / pow2 (grid ?r) = of_int (m * 2 ^ nat (g - grid ?r))" by (simp add: divide_eq_eq mult.assoc)
  have "round_half_even (?r / pow2 (grid ?r)) = m * 2 ^ nat (g - grid ?r)" unfolding q by (rule round_half_even_of_int)
  then have "round_positive ?r = of_int (m * 2 ^ nat (g - grid ?r)) * pow2 (grid ?r)" by (simp only: round_positive_grid)
  then show ?thesis unfolding q[symmetric] by (simp add: r_def)
qed

lemma round_positive_idem:
  assumes "0 < y" and "0 < round_positive y"
  shows "round_positive (round_positive y) = round_positive y"
proof -
  let ?g = "grid y"
  define m where "m = round_half_even (y / pow2 ?g)"
  have r: "round_positive y = of_int m * pow2 ?g" by (simp add: round_positive_grid m_def)
  have m0: "0 < m" using assms(2) by (simp add: r zero_less_mult_iff)
  have g: "- 1074 \<le> ?g" by (simp add: grid_def)
  have "binary_exponent y + 1 \<le> 53 + ?g" by (simp add: grid_def)
  then have "y < pow2 (53 + ?g)" using binary_exponent_bounds[OF assms(1)] pow2_le_iff[of "binary_exponent y + 1" "53 + ?g"] by linarith
  then have "y / pow2 ?g \<le> of_int (2 ^ 53)" by (simp add: pow2_numeral_add divide_le_eq)
  then have "m \<le> 2 ^ 53" unfolding m_def by (rule round_half_even_le)
  then consider "m < 2 ^ 53" | "m = 2 ^ 53" by linarith
  then show ?thesis
  proof cases
    case 2
    then have "round_positive y = of_int (2 ^ 52) * pow2 (?g + 1)" by (simp only: r pow2_add) (simp add: pow2_def[of 1])
    then show ?thesis using round_positive_mantissa[of "2 ^ 52" "?g + 1"] g by simp
  qed (use m0 g round_positive_mantissa[of m ?g] r in simp)
qed

lemma grid_eq: "pow2 (52 + g) \<le> y \<Longrightarrow> y < pow2 (53 + g) \<Longrightarrow> - 1074 \<le> g \<Longrightarrow> grid y = g"
  using binary_exponent_eq[of "52 + g" y] by (simp add: grid_def add.commute add.left_commute)

lemma grid_subnormal: "0 < y \<Longrightarrow> y < pow2 (52 - 1074 + 1) \<Longrightarrow> grid y = - 1074"
proof -
  assume y: "0 < y" "y < pow2 (52 - 1074 + 1)"
  have "pow2 (binary_exponent y) < pow2 (52 - 1074 + 1)" using binary_exponent_bounds[OF y(1)] y(2) by linarith
  then show ?thesis by (simp add: pow2_less_iff grid_def)
qed

text \<open>A value within half a unit of the seventeenth decimal digit of a binary64 rounds to it.\<close>

lemma round_positive_seventeen:
  assumes x: "0 < x" "round_positive x = x" and near: "\<bar>y - x\<bar> \<le> x / (2 * 10 ^ 16)"
  shows "round_positive y = x"
proof -
  define g where "g = grid x"
  obtain m where xm: "x = of_int m * pow2 g" and m: "0 < m" "m < 2 ^ 53" and normal: "- 1074 < g \<longrightarrow> 2 ^ 52 \<le> m"
    using grid_mantissa[OF x] by (metis g_def)
  define u where "u = y / pow2 g"
  have yu: "y = u * pow2 g" by (simp add: u_def)
  have "\<bar>u - of_int m\<bar> * pow2 g \<le> of_int m / (2 * 10 ^ 16) * pow2 g"
    using near by (simp add: yu xm left_diff_distrib[symmetric] abs_mult)
  then have u: "\<bar>u - of_int m\<bar> \<le> of_int m / (2 * 10 ^ 16)" by simp
  have mr: "1 \<le> (of_int m :: rat)" "(of_int m :: rat) \<le> 2 ^ 53 - 1" using m by (simp_all add: int_one_le_iff_zero_less)
  have half: "\<bar>u - of_int m\<bar> < 1 / 2" using u mr(2) by (simp add: field_simps)
  have g0: "- 1074 \<le> g" by (simp add: g_def grid_def)
  have upos: "0 < u" using half mr by (simp add: abs_if split: if_splits)
  have uhi: "u < 2 ^ 53" using half mr(2) by (simp add: abs_if split: if_splits)
  have p53: "pow2 (53 + g) = 2 ^ 53 * pow2 g" and p52: "pow2 (52 + g) = 2 ^ 52 * pow2 g" by (rule pow2_numeral_add)+
  show ?thesis
  proof (cases "2 ^ 52 \<le> u \<or> g = - 1074")
    case True
    have "grid y = g"
    proof (cases "2 ^ 52 \<le> u")
      case True
      then show ?thesis using uhi g0 by (intro grid_eq) (simp_all add: yu p53 p52)
    next
      case False
      then have "y < 2 ^ 53 * pow2 g" using uhi by (simp add: yu)
      then show ?thesis using True False upos p53 by (intro trans[OF grid_subnormal]) (simp_all add: yu)
    qed
    then show ?thesis using round_positive_near[of y m] half by (simp add: u_def xm)
  next
    case False
    then have gn: "- 1074 < g" and lo: "u < 2 ^ 52" using g0 by auto
    have m52: "m = 2 ^ 52"
    proof (rule antisym)
      show "2 ^ 52 \<le> m" using normal gn by simp
      have "(of_int m :: rat) < 2 ^ 52 + 1" using half lo by (simp add: abs_if split: if_splits)
      then have "m < 2 ^ 52 + 1" by simp
      then show "m \<le> 2 ^ 52" by simp
    qed
    then have quarter: "\<bar>u - 2 ^ 52\<bar> < 1 / 4" using u by (simp add: field_simps)
    have pg: "pow2 g = 2 * pow2 (g - 1)" using pow2_add[of 1 "g - 1"] by (simp add: pow2_def)
    have p: "pow2 (52 + (g - 1)) = 2 ^ 52 * pow2 (g - 1)" "pow2 (53 + (g - 1)) = 2 ^ 53 * pow2 (g - 1)" by (rule pow2_numeral_add)+
    have "2 ^ 51 \<le> u" using quarter by (simp add: abs_if split: if_splits)
    then have "2 ^ 52 * pow2 (g - 1) \<le> y" "y < 2 ^ 53 * pow2 (g - 1)"
      using lo mult_right_mono[of "2 ^ 51" u "2 * pow2 (g - 1)"] mult_strict_right_mono[of u "2 ^ 52" "2 * pow2 (g - 1)"]
      unfolding yu pg by simp_all
    then have "grid y = g - 1" using gn by (intro grid_eq) (simp_all only: p)
    then show ?thesis using round_positive_near[of y "2 ^ 53"] quarter by (simp add: yu pg xm m52 abs_if split: if_splits)
  qed
qed


section \<open>The shortest decimal\<close>

text \<open>With \<open>n\<close> digits: the nearest decimal (ties to the even one) when it reads back, else its neighbour
  on the other side of the value.\<close>

definition digits_at :: "rat \<Rightarrow> nat \<Rightarrow> int option" where
  "digits_at x n =
     (let k = decimal_exponent x + 1 - int n;
          d = x / pow10 k;
          near = round_half_even d;
          other = (if of_int near < d then near + 1 else near - 1)
      in if round_positive (of_int near * pow10 k) = x then Some near
         else if round_positive (of_int other * pow10 k) = x then Some other
         else None)"

fun first_digits :: "rat \<Rightarrow> nat list \<Rightarrow> int \<times> int" where
  "first_digits x [] = (0, 0)"
| "first_digits x (n # ns) = (case digits_at x n of
     Some d \<Rightarrow> (d, decimal_exponent x + 1 - int n)
   | None \<Rightarrow> first_digits x ns)"

function strip_zeros :: "int \<Rightarrow> int \<Rightarrow> int \<times> int" where
  "strip_zeros d k = (if d \<le> 0 \<or> d mod 10 \<noteq> 0 then (d, k) else strip_zeros (d div 10) (k + 1))"
  by pat_completeness auto
termination
  by (relation "measure (nat \<circ> fst)") auto

declare strip_zeros.simps [simp del]

definition shortest_decimal :: "rat \<Rightarrow> int \<times> int" where
  "shortest_decimal x = (case first_digits x [1..<18] of (d, k) \<Rightarrow> strip_zeros d k)"

lemma strip_zeros_value:
  "0 < d \<Longrightarrow> strip_zeros d k = (d', k') \<Longrightarrow>
     0 < d' \<and> d' mod 10 \<noteq> 0 \<and> k \<le> k' \<and> d = d' * 10 ^ nat (k' - k)"
proof (induction d k arbitrary: d' k' rule: strip_zeros.induct)
  case (1 d k)
  show ?case
  proof (cases "d mod 10 = 0")
    case True
    then have s: "strip_zeros (d div 10) (k + 1) = (d', k')" using "1.prems" by (simp add: strip_zeros.simps[of d k])
    have "0 < d div 10" using True "1.prems"(1) by (simp add: zmod_eq_0_iff) (metis mult_pos_pos mult.commute nonzero_mult_div_cancel_left zero_less_mult_pos zero_less_numeral zero_neq_numeral)
    then have ih: "0 < d' \<and> d' mod 10 \<noteq> 0 \<and> k + 1 \<le> k' \<and> d div 10 = d' * 10 ^ nat (k' - (k + 1))"
      using "1.IH"[OF _ _ s] True "1.prems"(1) by auto
    moreover have "nat (k' - k) = Suc (nat (k' - (k + 1)))" using ih by auto
    moreover have "d = 10 * (d div 10)" using True by auto
    ultimately show ?thesis by auto
  qed (use 1 in \<open>simp add: strip_zeros.simps[of d k]\<close>)
qed

lemma strip_zeros_pow10:
  assumes "0 < d" and "strip_zeros d k = (d', k')"
  shows "of_int d' * pow10 k' = of_int d * pow10 k"
proof -
  note s = strip_zeros_value[OF assms]
  have "pow10 k' = 10 ^ nat (k' - k) * pow10 k" using s pow10_add[of "k' - k" k] by (simp add: pow10_def)
  then show ?thesis using s by simp
qed

lemma round_positive_nonpos: "y \<le> 0 \<Longrightarrow> round_positive y \<le> 0"
proof -
  assume "y \<le> 0"
  then have "y / pow2 (grid y) \<le> 0" by (simp add: divide_nonpos_pos)
  then have "round_half_even (y / pow2 (grid y)) \<le> 0"
    using round_half_even_error[of "y / pow2 (grid y)"] by (simp add: abs_if split: if_splits) 
  then show ?thesis by (simp add: round_positive_grid mult_nonpos_nonneg)
qed

lemma digits_at_reads_back:
  "digits_at x n = Some d \<Longrightarrow> round_positive (of_int d * pow10 (decimal_exponent x + 1 - int n)) = x"
  by (auto simp: digits_at_def Let_def split: if_splits)

lemma digits_at_seventeen:
  assumes "0 < x" and "round_positive x = x"
  shows "digits_at x 17 \<noteq> None"
proof -
  let ?k = "decimal_exponent x + 1 - 17"
  let ?near = "round_half_even (x / pow10 ?k)"
  have "\<bar>of_int ?near - x / pow10 ?k\<bar> * pow10 ?k \<le> 1 / 2 * pow10 ?k"
    by (intro mult_right_mono round_half_even_error) simp
  then have "\<bar>of_int ?near * pow10 ?k - x\<bar> \<le> pow10 ?k / 2"
    by (simp add: abs_mult_pos left_diff_distrib flip: abs_mult)
  moreover have "pow10 ?k / 2 = pow10 (decimal_exponent x) / (2 * 10 ^ 16)"
    using pow10_add[of ?k 16] by (simp add: pow10_def)
  moreover have "pow10 (decimal_exponent x) / (2 * 10 ^ 16) \<le> x / (2 * 10 ^ 16)"
    using decimal_exponent_bounds[OF assms(1)] by simp
  ultimately have "\<bar>of_int ?near * pow10 ?k - x\<bar> \<le> x / (2 * 10 ^ 16)" by linarith
  then show ?thesis using round_positive_seventeen[OF assms] by (simp add: digits_at_def Let_def)
qed

lemma first_digits_found:
  "n \<in> set ns \<Longrightarrow> digits_at x n \<noteq> None \<Longrightarrow> first_digits x ns = (d, k) \<Longrightarrow>
     round_positive (of_int d * pow10 k) = x"
  by (induction ns) (auto split: option.splits dest: digits_at_reads_back)

lemma shortest_decimal_reads_back:
  assumes "0 < x" and "round_positive x = x" and "shortest_decimal x = (d, k)"
  shows "0 < d" and "d mod 10 \<noteq> 0" and "round_positive (of_int d * pow10 k) = x"
proof -
  obtain d0 k0 where f: "first_digits x [1..<18] = (d0, k0)" by force
  have r: "round_positive (of_int d0 * pow10 k0) = x"
    by (rule first_digits_found[OF _ digits_at_seventeen[OF assms(1,2)] f]) simp
  have "0 < of_int d0 * pow10 k0" using r assms(1) round_positive_nonpos[of "of_int d0 * pow10 k0"] by force
  then have d0: "0 < d0" by (simp add: zero_less_mult_iff)
  have s: "strip_zeros d0 k0 = (d, k)" using assms(3) f by (simp add: shortest_decimal_def)
  show "0 < d" and "d mod 10 \<noteq> 0" using strip_zeros_value[OF d0 s] by simp_all
  show "round_positive (of_int d * pow10 k) = x" using r strip_zeros_pow10[OF d0 s] by simp
qed


section \<open>FormatFloat\<close>

text \<open>The digits \<open>ds\<close> stand for \<open>0.ds * 10 ^ dp\<close>. The \<open>'g'\<close> format with the shortest precision uses the
  exponent form below \<open>10 ^ -4\<close> and from \<open>10 ^ 6\<close>; an exponent has a sign and at least two digits.\<close>

definition fmt_f :: "string \<Rightarrow> int \<Rightarrow> string" where
  "fmt_f ds dp =
     (if 0 < dp then take (nat dp) ds @ replicate (nat dp - length ds) CHR ''0'' else ''0'') @
     (if dp < int (length ds) then CHR ''.'' # replicate (nat (- dp)) CHR ''0'' @ drop (nat dp) ds else [])"

definition fmt_e :: "string \<Rightarrow> int \<Rightarrow> string" where
  "fmt_e ds e =
     hd ds # (if tl ds = [] then [] else CHR ''.'' # tl ds) @ CHR ''e'' # (if e < 0 then CHR ''-'' else CHR ''+'') #
     (if \<bar>e\<bar> < 10 then CHR ''0'' # dec_digits \<bar>e\<bar> else dec_digits \<bar>e\<bar>)"

definition fmt_g :: "rat \<Rightarrow> string" where
  "fmt_g x =
     (let (d, k) = shortest_decimal x;
          ds = dec_digits d;
          dp = int (length ds) + k
      in if dp - 1 < - 4 \<or> dp - 1 \<ge> 6 then fmt_e ds (dp - 1) else fmt_f ds dp)"

fun FormatFloat :: "float64 \<Rightarrow> string" where
  "FormatFloat NaN = ''NaN''"
| "FormatFloat (Infinite s) = (if s then ''-Inf'' else ''+Inf'')"
| "FormatFloat NegZero = ''-0''"
| "FormatFloat (Finite x) =
     (if x = 0 then ''0'' else if x < 0 then CHR ''-'' # fmt_g (- x) else fmt_g x)"

section \<open>Digit strings\<close>

lemma digit_char_is_digit: "0 \<le> d \<Longrightarrow> d < 10 \<Longrightarrow> is_digit (digit_char d) \<and> digit_value (digit_char d) = d"
  by (simp add: is_digit_def digit_value_def digit_char_def of_char_of take_bit_eq_mod)

lemma decimal_value_append [simp]: "decimal_value (xs @ ys) acc = decimal_value ys (decimal_value xs acc)"
  by (induction xs acc rule: decimal_value.induct) auto

lemma decimal_value_zeros [simp]: "decimal_value (replicate n CHR ''0'') acc = acc * 10 ^ n"
  by (induction n arbitrary: acc) (simp_all add: digit_value_def)

lemma decimal_value_acc: "decimal_value xs acc = acc * 10 ^ length xs + decimal_value xs 0"
proof (induction xs arbitrary: acc)
  case (Cons c cs)
  show ?case using Cons[of "acc * 10 + digit_value c"] Cons[of "digit_value c"] by (simp add: algebra_simps)
qed simp

lemma dec_digits_digits: "0 \<le> n \<Longrightarrow> list_all is_digit (dec_digits n) \<and> dec_digits n \<noteq> [] \<and> decimal_value (dec_digits n) 0 = n"
proof (induction n rule: dec_digits.induct)
  case (1 n)
  show ?case
  proof (cases "n < 10")
    case True
    then show ?thesis using 1(2) digit_char_is_digit[of n] by (simp add: dec_digits.simps[of n])
  next
    case False
    then show ?thesis using 1 digit_char_is_digit[of "n mod 10"] by (simp add: dec_digits.simps[of n])
  qed
qed

lemma dec_digits_hd: "0 < n \<Longrightarrow> hd (dec_digits n) \<noteq> CHR ''0''"
proof (induction n rule: dec_digits.induct)
  case (1 n)
  have zero: "digit_char d \<noteq> CHR ''0''" if "0 < d" "d < 10" for d
    using digit_char_is_digit[of d] that by (auto simp: digit_value_def)
  show ?case
  proof (cases "n < 10")
    case True
    then show ?thesis using 1(2) zero by (simp add: dec_digits.simps[of n])
  next
    case False
    then have "0 < n div 10" by auto
    then show ?thesis using 1(1) False dec_digits_digits[of "n div 10"] by (simp add: dec_digits.simps[of n])
  qed
qed

lemma takeWhile_digits [simp]:
  "list_all is_digit ds \<Longrightarrow> takeWhile is_digit (ds @ rest) = ds @ takeWhile is_digit rest"
  "list_all is_digit ds \<Longrightarrow> dropWhile is_digit (ds @ rest) = dropWhile is_digit rest"
  by (simp_all add: list_all_iff)

lemma takeWhile_all_digits [simp]:
  "list_all is_digit ds \<Longrightarrow> takeWhile is_digit ds = ds" "list_all is_digit ds \<Longrightarrow> dropWhile is_digit ds = []"
  by (simp_all add: list_all_iff)

lemma not_digit [simp]: "\<not> is_digit CHR ''.''" "\<not> is_digit CHR ''e''" "\<not> is_digit CHR ''E''" "\<not> is_digit CHR ''-''" "\<not> is_digit CHR ''+''"
  "is_digit CHR ''0''" "\<not> is_digit CHR '',''" "\<not> is_digit (CHR '']'')" "\<not> is_digit CHR ''}''" "\<not> is_digit (CHR 0x22)"
  by (simp_all add: is_digit_def)

end
