(* ===== verification/Canonical_Number.thy ===== *)
theory Canonical_Number
  imports Go_Decimal
begin

text \<open>
  Numbers of the canonical JSON encoder (\<^verbatim>\<open>internal/canonicaljson/internal/domain/number.go\<close>): safe
  integers, exactly representable literals and the JCS text of a double. The lemmas show that the text
  reads back as the same double and that a safe integer has one text, whichever Go type held it.
\<close>

section \<open>Integers\<close>

definition maxSafeInteger :: int where
  "maxSafeInteger = 2 ^ 53 - 1"

definition encodeInteger :: "int \<Rightarrow> string result" where
  "encodeInteger value =
     (if value > maxSafeInteger \<or> value < - maxSafeInteger
      then Inl (Errorf ''canonicaljson: integer exceeds exact JSON number range'')
      else Inr (show_int value))"

definition encodeUnsigned :: "int \<Rightarrow> string result" where
  "encodeUnsigned value =
     (if value > maxSafeInteger then Inl (Errorf ''canonicaljson: integer exceeds exact JSON number range'')
      else Inr (show_int value))"

section \<open>Placing the exponent of a double\<close>

definition splitSign :: "string \<Rightarrow> string \<times> string" where
  "splitSign value = (if has_prefix value ''-'' then (''-'', drop 1 value) else ('''', value))"

definition expandExponent :: "string \<Rightarrow> int \<Rightarrow> string" where
  "expandExponent mantissa0 e =
     (let (sgn, mantissa) = splitSign mantissa0;
          dot = (case cut_byte CHR ''.'' mantissa of None \<Rightarrow> length mantissa | Some (a, _) \<Rightarrow> length a);
          digits = removeAll CHR ''.'' mantissa;
          position = int dot + e
      in if position \<le> 0 then sgn @ ''0.'' @ replicate (nat (- position)) CHR ''0'' @ digits
         else if position \<ge> int (length digits) then sgn @ digits @ replicate (nat (position - int (length digits))) CHR ''0''
         else sgn @ take (nat position) digits @ ''.'' @ drop (nat position) digits)"

definition normalizeExponent :: "string \<Rightarrow> int \<Rightarrow> string" where
  "normalizeExponent mantissa e =
     (if e \<ge> 0 then mantissa @ ''e+'' @ show_int e else mantissa @ ''e'' @ show_int e)"

definition placeExponent :: "string \<Rightarrow> int \<Rightarrow> string" where
  "placeExponent mantissa e =
     (if e \<ge> -6 \<and> e \<le> 20 then expandExponent mantissa e else normalizeExponent mantissa e)"

definition formatFloat :: "float64 \<Rightarrow> string result" where
  "formatFloat f =
     (if is_zero f then Inr ''0''
      else let shortest = FormatFloat f
           in case cut_byte CHR ''e'' shortest of
                None \<Rightarrow> Inr shortest
              | Some (mantissa, exponentText) \<Rightarrow>
                  bind_res (wrap_err ''canonicaljson: parse float exponent'' (atoi exponentText))
                    (\<lambda>e. Inr (placeExponent mantissa e)))"

definition encodeFloat :: "float64 \<Rightarrow> string result" where
  "encodeFloat f =
     (if \<not> is_finite f then Inl (Errorf ''canonicaljson: non-finite float'')
      else if is_zero f \<and> sign_bit f then Inl (Errorf ''canonicaljson: negative zero is not allowed'')
      else formatFloat f)"

section \<open>JSON number literals\<close>

definition splitExponent :: "string \<Rightarrow> (string \<times> int) option" where
  "splitExponent raw =
     (let is_e = (\<lambda>c. c = CHR ''e'' \<or> c = CHR ''E'');
          mantissa = takeWhile (\<lambda>c. \<not> is_e c) raw
      in case dropWhile (\<lambda>c. \<not> is_e c) raw of
           [] \<Rightarrow> Some (raw, 0)
         | _ # rest \<Rightarrow> (case atoi rest of Inl _ \<Rightarrow> None | Inr e \<Rightarrow> Some (mantissa, e)))"

definition all_zeros :: "string \<Rightarrow> bool" where
  "all_zeros s \<longleftrightarrow> list_all (\<lambda>c. c = CHR ''0'') s"

definition scaleDigits :: "string \<Rightarrow> int \<Rightarrow> string \<times> bool" where
  "scaleDigits digits decimalPlaces =
     (if decimalPlaces < 0 then (digits @ replicate (nat (- decimalPlaces)) CHR ''0'', True)
      else if decimalPlaces = 0 then (digits, True)
      else if decimalPlaces \<ge> int (length digits) then (''0'', all_zeros digits)
      else let cut = length digits - nat decimalPlaces
           in (take cut digits, all_zeros (drop cut digits)))"

definition decimalInteger :: "string \<Rightarrow> int option" where
  "decimalInteger raw0 =
     (if has_prefix raw0 ''+'' then None
      else let (sgn, raw) = splitSign raw0
           in case splitExponent raw of None \<Rightarrow> None
           | Some (mantissa, e) \<Rightarrow>
               let (whole, fraction) = (case cut_byte CHR ''.'' mantissa of None \<Rightarrow> (mantissa, '''') | Some p \<Rightarrow> p);
                   (digits, ok) = scaleDigits (whole @ fraction) (int (length fraction) - e)
               in if \<not> ok \<or> \<not> list_all is_digit digits then None
                  else Some (if sgn = ''-'' then - decimal_value digits 0 else decimal_value digits 0))"

definition integerRoundTrips :: "int \<Rightarrow> float64 \<Rightarrow> bool" where
  "integerRoundTrips want f \<longleftrightarrow> finite_value f = of_int \<lfloor>finite_value f\<rfloor> \<and> want = \<lfloor>finite_value f\<rfloor>"

definition checkExactInteger :: "string \<Rightarrow> float64 \<Rightarrow> unit result" where
  "checkExactInteger raw f = (case decimalInteger raw of
     None \<Rightarrow> Inr ()
   | Some integer \<Rightarrow>
       if \<bar>integer\<bar> > maxSafeInteger then Inl (Errorf ''canonicaljson: unsafe JSON integer'')
       else if \<not> integerRoundTrips integer f then Inl (Errorf ''canonicaljson: JSON integer does not round-trip'')
       else Inr ())"

definition encodeNumber :: "string \<Rightarrow> string result" where
  "encodeNumber raw =
     (if raw = [] then Inl (Errorf ''canonicaljson: empty JSON number'')
      else case ParseFloat raw of
        Inl _ \<Rightarrow> Inl (Errorf ''canonicaljson: invalid JSON number'')
      | Inr f \<Rightarrow>
          if is_zero f \<and> has_prefix raw ''-'' then Inl (Errorf ''canonicaljson: negative zero is not allowed'')
          else bind_res (checkExactInteger raw f) (\<lambda>_. encodeFloat f))"


section \<open>The shape of a number text\<close>

definition exponent_text :: "int option \<Rightarrow> string" where
  "exponent_text e = (case e of None \<Rightarrow> []
     | Some n \<Rightarrow> CHR ''e'' # (if n \<ge> 0 then CHR ''+'' # dec_digits n else CHR ''-'' # dec_digits (- n)))"

definition num_text :: "string \<Rightarrow> string \<Rightarrow> int option \<Rightarrow> string" where
  "num_text whole fraction e = whole @ (if fraction = [] then [] else CHR ''.'' # fraction) @ exponent_text e"

definition positional :: "string \<Rightarrow> int \<Rightarrow> string" where
  "positional ds dp =
     (if dp \<le> 0 then num_text ''0'' (replicate (nat (- dp)) CHR ''0'' @ ds) None
      else num_text (take (nat dp) ds @ replicate (nat dp - length ds) CHR ''0'') (drop (nat dp) ds) None)"

definition placed :: "string \<Rightarrow> int \<Rightarrow> string" where
  "placed ds dp =
     (if -6 \<le> dp - 1 \<and> dp - 1 \<le> 20 then positional ds dp
      else num_text [hd ds] (tl ds) (Some (dp - 1)))"

lemma digit_chars: "is_digit c \<Longrightarrow> c \<noteq> CHR ''e'' \<and> c \<noteq> CHR ''E'' \<and> c \<noteq> CHR ''.'' \<and> c \<noteq> CHR ''-'' \<and> c \<noteq> CHR ''+''"
  by auto

lemma digits_free:
  "list_all is_digit ds \<Longrightarrow> CHR ''e'' \<notin> set ds \<and> CHR ''.'' \<notin> set ds \<and> CHR ''-'' \<notin> set ds"
  by (auto simp: list_all_iff)

lemma digits_zeros [simp]: "list_all is_digit (replicate n CHR ''0'')"
  by (simp add: list_all_iff)

lemma fmt_f_positional: "ds \<noteq> [] \<Longrightarrow> fmt_f ds dp = positional ds dp"
  by (auto simp: fmt_f_def positional_def num_text_def exponent_text_def)

lemma positional_no_e:
  assumes "list_all is_digit ds"
  shows "CHR ''e'' \<notin> set (positional ds dp)"
  using digits_free[OF assms]
  by (auto simp: positional_def num_text_def exponent_text_def dest: in_set_takeD in_set_dropD)

lemma atoi_exponent:
  assumes "\<bar>e\<bar> < 2 ^ 63"
  shows "atoi ((if e < 0 then CHR ''-'' else CHR ''+'') # (if \<bar>e\<bar> < 10 then CHR ''0'' # dec_digits \<bar>e\<bar> else dec_digits \<bar>e\<bar>)) = Inr e"
proof -
  have "list_all is_digit (dec_digits \<bar>e\<bar>)" "decimal_value (dec_digits \<bar>e\<bar>) 0 = \<bar>e\<bar>" "dec_digits \<bar>e\<bar> \<noteq> []"
    using dec_digits_digits[of "\<bar>e\<bar>"] by auto
  then show ?thesis using assms by (auto simp: atoi_def Let_def digit_value_def)
qed

lemma expand_mantissa:
  assumes ds: "ds \<noteq> []" "list_all is_digit ds" and s: "s = '''' \<or> s = ''-''"
  shows "expandExponent (s @ hd ds # (if tl ds = [] then [] else CHR ''.'' # tl ds)) e = s @ positional ds (e + 1)"
proof -
  obtain c cs where c: "ds = c # cs" using ds(1) by (cases ds) auto
  have dig: "is_digit c" "list_all is_digit cs" using ds(2) c by auto
  have cs: "removeAll CHR ''.'' cs = cs" using digits_free[OF dig(2)] by simp
  have sign: "splitSign (s @ c # t) = (s, c # t)" for t
    using s digit_chars[OF dig(1)] by (auto simp: splitSign_def has_prefix_def)
  have cut: "cut_byte CHR ''.'' (c # CHR ''.'' # cs) = Some ([c], cs)" "cut_byte CHR ''.'' [c] = None"
    using digit_chars[OF dig(1)] by auto
  have nats: "nat (1 + e) = Suc (nat e)" if "0 \<le> e" using that by simp
  show ?thesis
  proof (cases "cs = []")
    case True
    have "expandExponent (s @ [c]) e = s @ positional [c] (e + 1)"
      using digit_chars[OF dig(1)] unfolding expandExponent_def sign Let_def cut
      by (auto simp: positional_def num_text_def exponent_text_def add.commute)
    then show ?thesis using True c by simp
  next
    case False
    have "expandExponent (s @ c # CHR ''.'' # cs) e = s @ positional (c # cs) (e + 1)"
      using digit_chars[OF dig(1)] unfolding expandExponent_def sign Let_def cut
      by (auto simp: positional_def num_text_def exponent_text_def cs add.commute nat_add_distrib algebra_simps)
    then show ?thesis using False c by simp
  qed
qed

lemma place_mantissa:
  assumes ds: "ds \<noteq> []" "list_all is_digit ds" and s: "s = '''' \<or> s = ''-''"
  shows "placeExponent (s @ hd ds # (if tl ds = [] then [] else CHR ''.'' # tl ds)) e = s @ placed ds (e + 1)"
  using expand_mantissa[OF assms]
  by (simp add: placeExponent_def placed_def normalizeExponent_def num_text_def exponent_text_def show_int_def)


section \<open>Bounds of the decimal exponent\<close>

definition is_binary64 :: "rat \<Rightarrow> bool" where
  "is_binary64 x \<longleftrightarrow> 0 < x \<and> round_positive x = x \<and> x \<le> max_finite"

lemma round_positive_factor:
  assumes "round_positive y = x" and "0 < x"
  shows "y \<le> 2 * x" and "x \<le> 2 * y" and "pow2 (- 1074) \<le> x"
proof -
  let ?p = "pow2 (grid y)"
  define m where "m = round_half_even (y / ?p)"
  have x: "x = of_int m * ?p" using assms(1) by (simp add: round_positive_grid m_def)
  have "0 < m" using assms(2) by (simp add: x zero_less_mult_iff)
  then have m: "1 \<le> (of_int m :: rat)" by (simp add: int_one_le_iff_zero_less)
  have "\<bar>of_int m - y / ?p\<bar> \<le> 1 / 2" unfolding m_def by (rule round_half_even_error)
  then have q: "y / ?p \<le> 2 * of_int m" "of_int m \<le> 2 * (y / ?p)" using m by linarith+
  have y: "y / ?p * ?p = y" by simp
  show "y \<le> 2 * x" using mult_right_mono[OF q(1), of ?p] by (simp add: x)
  show "x \<le> 2 * y" using mult_right_mono[OF q(2), of ?p] by (simp add: x)
  have "pow2 (- 1074) \<le> ?p" by (simp add: pow2_le_iff grid_def)
  also have "\<dots> \<le> of_int m * ?p" using mult_right_mono[OF m, of ?p] by simp
  finally show "pow2 (- 1074) \<le> x" by (simp add: x)
qed

lemma dec_digits_bounds: "0 < n \<Longrightarrow> 10 ^ (length (dec_digits n) - 1) \<le> n \<and> n < 10 ^ length (dec_digits n)"
proof (induction n rule: dec_digits.induct)
  case (1 n)
  show ?case
  proof (cases "n < 10")
    case True
    then show ?thesis using 1(2) by (simp add: dec_digits.simps[of n])
  next
    case False
    define l where "l = length (dec_digits (n div 10))"
    have l: "0 < l" using dec_digits_digits[of "n div 10"] False by (simp add: l_def)
    have ih: "10 ^ (l - 1) \<le> n div 10" "n div 10 < 10 ^ l" using 1(1) False by (auto simp: l_def)
    have "10 * 10 ^ (l - 1) \<le> 10 * (n div 10)" using ih(1) by simp
    then have "10 ^ l \<le> n" using l div_bounds[of 10 n] by (cases l) auto
    moreover have "n < 10 * 10 ^ l" using ih(2) div_bounds[of 10 n] by linarith
    ultimately show ?thesis using False by (simp add: dec_digits.simps[of n] l_def)
  qed
qed

lemma pow10_numeral_bounds:
  "0 \<le> e \<Longrightarrow> pow2 e \<le> pow10 e" "e \<le> 0 \<Longrightarrow> pow10 e \<le> pow2 e"
  by (auto simp: pow2_def pow10_def intro!: power_mono divide_left_mono)

lemma decimal_point_bounds:
  assumes x: "is_binary64 x" and s: "shortest_decimal x = (d, k)"
  shows "\<bar>int (length (dec_digits d)) + k - 1\<bar> < 10000"
proof -
  define y where "y = of_int d * pow10 k"
  define e where "e = int (length (dec_digits d)) + k - 1"
  have x0: "0 < x" and xr: "round_positive x = x" using x by (auto simp: is_binary64_def)
  note sd = shortest_decimal_reads_back[OF x0 xr s]
  note f = round_positive_factor[OF sd(3) x0, folded y_def]
  define l where "l = length (dec_digits d)"
  have l: "0 < l" using dec_digits_digits[of d] sd(1) by (simp add: l_def)
  have db: "(10 ^ (l - 1) :: rat) \<le> of_int d" "(of_int d :: rat) < 10 ^ l"
    using dec_digits_bounds[OF sd(1)] unfolding l_def
    by (metis of_int_le_iff of_int_numeral of_int_power, metis of_int_less_iff of_int_numeral of_int_power)
  have p: "pow10 e = 10 ^ (l - 1) * pow10 k" "pow10 (e + 1) = 10 ^ l * pow10 k"
    using l by (simp_all only: pow10_nat_add[symmetric] e_def l_def[symmetric]) (simp_all add: of_nat_diff add.commute algebra_simps)
  have lo: "pow10 e \<le> y" and hi: "y < pow10 (e + 1)" using db by (simp_all add: y_def p)
  have "x \<le> 2 ^ 1024" using x by (simp add: is_binary64_def max_finite_def)
  then have "y \<le> pow2 1025" using f(1) by (simp add: pow2_def)
  have "e \<le> 1025"
  proof (rule ccontr)
    assume "\<not> e \<le> 1025"
    then have "pow2 1025 < pow10 e" using pow10_numeral_bounds(1)[of e] pow2_less_iff[of 1025 e] by linarith
    then show False using lo \<open>y \<le> pow2 1025\<close> by linarith
  qed
  moreover have "- 1077 \<le> e"
  proof (rule ccontr)
    assume e: "\<not> - 1077 \<le> e"
    then have "pow10 (e + 1) \<le> pow2 (e + 1)" "pow2 (e + 1) \<le> pow2 (- 1075)" using pow10_numeral_bounds(2)[of "e + 1"] by (simp_all add: pow2_le_iff)
    moreover have "pow2 (- 1074) = 2 * pow2 (- 1075)" by (simp add: pow2_def)
    ultimately show False using hi f by linarith
  qed
  ultimately show ?thesis by (simp add: e_def)
qed


section \<open>Every double reads back\<close>

lemma exponent_value_small:
  "list_all is_digit ds \<Longrightarrow> 0 \<le> acc \<Longrightarrow> decimal_value ds acc < 10000 \<Longrightarrow> exponent_value ds acc = decimal_value ds acc"
proof (induction ds arbitrary: acc)
  case (Cons c cs)
  have c: "0 \<le> digit_value c" using Cons.prems(1) by (simp add: is_digit_def digit_value_def)
  have grow: "list_all is_digit ds \<Longrightarrow> 0 \<le> a \<Longrightarrow> a \<le> decimal_value ds a" for ds a
  proof (induction ds arbitrary: a)
    case (Cons q qs)
    then have "0 \<le> digit_value q" by (simp add: is_digit_def digit_value_def)
    then show ?case using Cons.IH[of "a * 10 + digit_value q"] Cons.prems by simp
  qed simp
  have "acc * 10 + digit_value c \<le> decimal_value cs (acc * 10 + digit_value c)" using grow c Cons.prems by simp
  then have "acc < 10000" using Cons.prems c by simp
  then show ?case using Cons c by simp
qed simp

lemma read_sign_digit: "is_digit c \<Longrightarrow> read_sign (c # s) = (False, c # s)"
  by (auto simp: read_sign_def)

lemma read_exponent_text:
  assumes "\<forall>n. e = Some n \<longrightarrow> \<bar>n\<bar> < 10000"
  shows "read_exponent (exponent_text e) = Some (case e of None \<Rightarrow> 0 | Some n \<Rightarrow> n)"
proof (cases e)
  case None
  then show ?thesis by (simp add: exponent_text_def read_exponent_def)
next
  case (Some n)
  have d: "list_all is_digit (dec_digits \<bar>n\<bar>)" "dec_digits \<bar>n\<bar> \<noteq> []" "decimal_value (dec_digits \<bar>n\<bar>) 0 = \<bar>n\<bar>"
    using dec_digits_digits[of "\<bar>n\<bar>"] by auto
  then have "exponent_value (dec_digits \<bar>n\<bar>) 0 = \<bar>n\<bar>" using assms Some by (simp add: exponent_value_small)
  then show ?thesis using d Some by (cases "0 \<le> n") (auto simp: exponent_text_def read_exponent_def read_sign_def)
qed

lemma exponent_text_start: "takeWhile is_digit (exponent_text e) = []" "dropWhile is_digit (exponent_text e) = exponent_text e"
    "exponent_text e \<noteq> [] \<Longrightarrow> hd (exponent_text e) \<noteq> CHR ''.''"
  by (cases e; simp add: exponent_text_def)+

lemma read_num_text:
  assumes w: "whole \<noteq> []" "list_all is_digit whole" "list_all is_digit fraction" and e: "\<forall>n. e = Some n \<longrightarrow> \<bar>n\<bar> < 10000"
  shows "read_decimal (num_text whole fraction e)
    = Some (False, decimal_value (whole @ fraction) 0, (case e of None \<Rightarrow> 0 | Some n \<Rightarrow> n) - int (length fraction))"
proof -
  obtain c cs where c: "whole = c # cs" "is_digit c" using w by (cases whole) auto
  have sign: "read_sign (num_text whole fraction e) = (False, num_text whole fraction e)"
    by (simp add: num_text_def c read_sign_digit)
  show ?thesis
    using w read_exponent_text[OF e] exponent_text_start[of e] sign
    by (cases "fraction = []"; cases "exponent_text e = []")
      (simp_all add: read_decimal_def num_text_def Let_def del: dropWhile_eq_Nil_conv)
qed

lemma read_placed:
  assumes d: "0 < d" and dp: "dp = int (length (dec_digits d)) + k" and small: "\<bar>dp - 1\<bar> < 10000"
  shows "\<exists>m e. read_decimal (placed (dec_digits d) dp) = Some (False, m, e) \<and> of_int m * pow10 e = of_int d * pow10 k"
proof -
  define ds where "ds = dec_digits d"
  have ds: "list_all is_digit ds" "ds \<noteq> []" "decimal_value ds 0 = d" using dec_digits_digits[of d] d by (auto simp: ds_def)
  have part: "list_all is_digit (take n ds)" "list_all is_digit (drop n ds)" for n
    using ds(1) by (auto simp: list_all_iff dest: in_set_takeD in_set_dropD)
  have whole: "take (nat dp) ds @ drop (nat dp) ds = ds" by simp
  consider (small) "-6 \<le> dp - 1" "dp - 1 \<le> 20" "dp \<le> 0" | (large) "-6 \<le> dp - 1" "dp - 1 \<le> 20" "0 < dp"
    | (exp) "\<not> (-6 \<le> dp - 1 \<and> dp - 1 \<le> 20)" by linarith
  then show ?thesis
  proof cases
    case small
    then show ?thesis
      using read_num_text[of "''0''" "replicate (nat (- dp)) CHR ''0'' @ ds" None] ds dp
      by (simp add: placed_def positional_def ds_def[symmetric] digit_value_def)
  next
    case large
    let ?w = "take (nat dp) ds @ replicate (nat dp - length ds) CHR ''0''"
    have "?w \<noteq> []" using large ds by simp
    then have r: "read_decimal (placed ds dp) = Some (False, decimal_value (?w @ drop (nat dp) ds) 0, - int (length (drop (nat dp) ds)))"
      using read_num_text[of ?w "drop (nat dp) ds" None] part large by (simp add: placed_def positional_def)
    show ?thesis
    proof (cases "int (length ds) \<le> dp")
      case True
      then have "nat dp - length ds = nat k" using dp by (simp add: ds_def)
      then have "decimal_value (?w @ drop (nat dp) ds) 0 = d * 10 ^ nat k" using ds True by simp
      moreover have "(10 ^ nat k :: rat) = pow10 k" using True dp by (simp add: pow10_def ds_def)
      ultimately show ?thesis using r True by (simp add: ds_def[symmetric] pow10_def[of 0])
    next
      case False
      then have "?w @ drop (nat dp) ds = ds" by simp
      moreover have "- int (length (drop (nat dp) ds)) = k" using False large dp by (simp add: ds_def)
      ultimately show ?thesis using r ds by (simp add: ds_def[symmetric])
    qed
  next
    case exp
    obtain c cs where c: "ds = c # cs" using ds by (cases ds) auto
    have p: "placed ds dp = num_text [c] cs (Some (dp - 1))" using exp c by (auto simp: placed_def)
    have "dp - 1 - int (length cs) = k" using dp c by (simp add: ds_def[symmetric])
    then show ?thesis unfolding ds_def[symmetric] p using read_num_text[of "[c]" cs "Some (dp - 1)"] ds small c by simp
  qed
qed


definition float_text :: "rat \<Rightarrow> string" where
  "float_text x = (case shortest_decimal x of (d, k) \<Rightarrow>
     placed (dec_digits d) (int (length (dec_digits d)) + k))"

text \<open>The text of a finite double that is neither zero: its sign and the placed shortest digits.\<close>

definition binary64 :: "float64 \<Rightarrow> bool" where
  "binary64 f \<longleftrightarrow> (\<forall>x. f = Finite x \<longrightarrow> x = 0 \<or> is_binary64 \<bar>x\<bar>)"

lemma formatFloat_placed:
  assumes x: "is_binary64 x" and s: "s = '''' \<and> f = Finite x \<or> s = ''-'' \<and> f = Finite (- x)"
  shows "formatFloat f = Inr (s @ float_text x)"
proof -
  obtain d k where dk: "shortest_decimal x = (d, k)" by force
  define ds where "ds = dec_digits d"
  define dp where "dp = int (length ds) + k"
  have x0: "0 < x" "round_positive x = x" using x by (auto simp: is_binary64_def)
  note sd = shortest_decimal_reads_back[OF x0 dk]
  have ds: "ds \<noteq> []" "list_all is_digit ds" using dec_digits_digits[of d] sd(1) by (auto simp: ds_def)
  have small: "\<bar>dp - 1\<bar> < 10000" using decimal_point_bounds[OF x dk] by (simp add: dp_def ds_def)
  have ft: "float_text x = placed ds dp" by (simp add: float_text_def dk ds_def dp_def)
  have fmt: "FormatFloat f = s @ (if dp - 1 < - 4 \<or> dp - 1 \<ge> 6 then fmt_e ds (dp - 1) else positional ds dp)"
    using s x0 by (auto simp: fmt_g_def dk Let_def ds_def[symmetric] dp_def[symmetric] fmt_f_positional[OF ds(1)])
  have nz: "\<not> is_zero f" using s x0 by (auto simp: is_zero_def)
  have se: "CHR ''e'' \<notin> set s" using s by auto
  show ?thesis
  proof (cases "dp - 1 < - 4 \<or> dp - 1 \<ge> 6")
    case True
    let ?m = "s @ hd ds # (if tl ds = [] then [] else CHR ''.'' # tl ds)"
    let ?e = "(if dp - 1 < 0 then CHR ''-'' else CHR ''+'') # (if \<bar>dp - 1\<bar> < 10 then CHR ''0'' # dec_digits \<bar>dp - 1\<bar> else dec_digits \<bar>dp - 1\<bar>)"
    have "CHR ''e'' \<notin> set ?m" using se digits_free[OF ds(2)] ds(1) list.set_sel by (cases ds) auto
    then have cut: "cut_byte CHR ''e'' (?m @ CHR ''e'' # ?e) = Some (?m, ?e)" by (rule cut_byte_append)
    have F: "FormatFloat f = ?m @ CHR ''e'' # ?e" using True fmt by (simp add: fmt_e_def)
    have "atoi ?e = Inr (dp - 1)" using small by (intro atoi_exponent) simp
    then have "formatFloat f = Inr (placeExponent ?m (dp - 1))" unfolding formatFloat_def F Let_def cut using nz by simp
    then show ?thesis using place_mantissa[OF ds, of s "dp - 1"] s ft by auto
  next
    case False
    then have "placed ds dp = positional ds dp" by (auto simp: placed_def)
    moreover have "cut_byte CHR ''e'' (s @ positional ds dp) = None"
      using se positional_no_e[OF ds(2)] by (intro cut_byte_None) auto
    ultimately show ?thesis using False fmt nz ft by (simp add: formatFloat_def)
  qed
qed

lemma float_text_reads_back:
  assumes x: "is_binary64 x"
  shows "\<exists>m e. read_decimal (float_text x) = Some (False, m, e) \<and> float_signed s (of_int m * pow10 e) = Finite (if s then - x else x)"
proof -
  obtain d k where dk: "shortest_decimal x = (d, k)" by force
  have x0: "0 < x" "round_positive x = x" "x \<le> max_finite" using x by (auto simp: is_binary64_def)
  note sd = shortest_decimal_reads_back[OF x0(1,2) dk]
  have "of_int d * pow10 k \<noteq> 0" using sd(1) by simp
  then have "float_signed s (of_int d * pow10 k) = Finite (if s then - x else x)"
    using sd(3) x0 by (auto simp: float_signed_def Let_def)
  then show ?thesis using read_placed[OF sd(1) refl decimal_point_bounds[OF x dk]] by (auto simp: float_text_def dk)
qed

lemma num_text_sign:
  assumes "whole \<noteq> []" "list_all is_digit whole"
  shows "read_decimal (CHR ''-'' # num_text whole fraction e) = map_option (\<lambda>(_, r). (True, r)) (read_decimal (num_text whole fraction e))"
proof -
  obtain c cs where c: "whole = c # cs" "is_digit c" using assms by (cases whole) auto
  have sign: "read_sign (num_text whole fraction e) = (False, num_text whole fraction e)"
    by (simp add: num_text_def c read_sign_digit)
  have minus: "read_sign (CHR ''-'' # t) = (True, t)" for t by (simp add: read_sign_def)
  show ?thesis unfolding read_decimal_def sign minus by (auto simp: Let_def split: option.splits)
qed


definition num_shape :: "string \<Rightarrow> bool" where
  "num_shape t \<longleftrightarrow> (\<exists>whole fraction e. t = num_text whole fraction e \<and> whole \<noteq> [] \<and> list_all is_digit whole \<and>
     (whole = ''0'' \<or> hd whole \<noteq> CHR ''0'') \<and> list_all is_digit fraction)"

lemma placed_shape:
  assumes "0 < d"
  shows "num_shape (placed (dec_digits d) dp)"
proof -
  define ds where "ds = dec_digits d"
  have ds: "list_all is_digit ds" "ds \<noteq> []" using dec_digits_digits[of d] assms by (auto simp: ds_def)
  have hd: "hd ds \<noteq> CHR ''0''" using dec_digits_hd[OF assms] by (simp add: ds_def)
  obtain c cs where c: "ds = c # cs" using ds by (cases ds) auto
  have part: "list_all is_digit (take n ds)" "list_all is_digit (drop n ds)" for n
    using ds(1) by (auto simp: list_all_iff dest: in_set_takeD in_set_dropD)
  have small: "num_shape (num_text ''0'' (replicate n CHR ''0'' @ ds) None)" for n
    using ds unfolding num_shape_def by (intro exI[of _ "''0''"] exI[of _ "replicate n CHR ''0'' @ ds"] exI[of _ None]) simp
  have large: "num_shape (num_text (take n ds @ replicate m CHR ''0'') (drop n ds) None)" if "0 < n" for n m
    using part[of n] hd that c unfolding num_shape_def
    by (intro exI[of _ "take n ds @ replicate m CHR ''0''"] exI[of _ "drop n ds"] exI[of _ None]) (cases n; simp)
  have exp: "num_shape (num_text [hd ds] (tl ds) (Some n))" for n
    using ds hd c unfolding num_shape_def by (intro exI[of _ "[hd ds]"] exI[of _ "tl ds"] exI[of _ "Some n"]) simp
  show ?thesis unfolding ds_def[symmetric] placed_def positional_def using small large exp by auto
qed

lemma float_text_shape:
  assumes "is_binary64 x"
  shows "num_shape (float_text x)"
proof -
  obtain d k where dk: "shortest_decimal x = (d, k)" by force
  have "0 < d" using shortest_decimal_reads_back(1)[OF _ _ dk] assms by (simp add: is_binary64_def)
  then show ?thesis by (simp add: float_text_def dk placed_shape)
qed

lemma ParseFloat_float_text:
  assumes x: "is_binary64 x"
  shows "ParseFloat (float_text x) = Inr (Finite x)" and "ParseFloat (CHR ''-'' # float_text x) = Inr (Finite (- x))"
proof -
  show "ParseFloat (float_text x) = Inr (Finite x)"
    using float_text_reads_back[OF x, of False] by (auto simp: ParseFloat_def Let_def)
  obtain whole fraction e where t: "float_text x = num_text whole fraction e" "whole \<noteq> []" "list_all is_digit whole"
    using float_text_shape[OF x] by (auto simp: num_shape_def)
  show "ParseFloat (CHR ''-'' # float_text x) = Inr (Finite (- x))"
    using float_text_reads_back[OF x, of True] num_text_sign[OF t(2,3), of fraction e]
    by (auto simp: ParseFloat_def Let_def t(1)[symmetric])
qed

section \<open>Safe integers\<close>

lemma round_positive_int:
  assumes "0 < c" and "c \<le> 2 ^ 53"
  shows "round_positive (of_int c) = of_int c"
proof -
  let ?g = "grid (of_int c)"
  have cr: "0 < (of_int c :: rat)" using assms(1) by simp
  note b = binary_exponent_bounds[OF cr]
  have "\<exists>m. (of_int c :: rat) / pow2 ?g = of_int m"
  proof (cases "c = 2 ^ 53")
    case True
    have "?g = 1" unfolding True by (rule grid_eq) (simp_all add: pow2_def)
    then show ?thesis using True by (intro exI[of _ "2 ^ 52"]) (simp add: pow2_def)
  next
    case False
    then have "(of_int c :: rat) < 2 ^ 53" using assms(2) by simp
    then have "pow2 (binary_exponent (of_int c)) < pow2 53" using b by (simp add: pow2_def[of 53])
    then have "?g \<le> 0" by (simp add: pow2_less_iff grid_def)
    then have "pow2 ?g = 1 / 2 ^ nat (- ?g)" by (cases "?g = 0") (simp_all add: pow2_def)
    then show ?thesis by (intro exI[of _ "c * 2 ^ nat (- ?g)"]) simp
  qed
  then obtain m where m: "(of_int c :: rat) / pow2 ?g = of_int m" by blast
  have "of_int m * pow2 ?g = (of_int c :: rat)" using m by (simp add: field_simps)
  then show ?thesis by (simp add: round_positive_grid m)
qed

lemma round_positive_large: "2 ^ 53 \<le> y \<Longrightarrow> 2 ^ 53 \<le> round_positive y"
proof -
  assume y: "2 ^ 53 \<le> y"
  then have y0: "0 < y" by (rule less_le_trans[rotated]) simp
  note b = binary_exponent_bounds[OF y0]
  have "pow2 53 < pow2 (binary_exponent y + 1)" using b y by (simp add: pow2_def[of 53])
  then have e: "53 \<le> binary_exponent y" by (simp add: pow2_less_iff)
  then have g: "grid y = binary_exponent y - 52" "1 \<le> grid y" by (simp_all add: grid_def)
  have "2 ^ 52 * pow2 (grid y) = pow2 (binary_exponent y)" using pow2_numeral_add[of "Num.num_of_nat 52" "grid y"] g
    by (metis add.commute diff_add_cancel pow2_numeral_add)
  then have "2 ^ 52 \<le> y / pow2 (grid y)" using b by (simp add: pos_le_divide_eq)
  then have "2 ^ 52 \<le> round_half_even (y / pow2 (grid y))" by (intro round_half_even_ge) simp
  moreover have "2 \<le> pow2 (grid y)" using g(2) pow2_le_iff[of 1 "grid y"] by (simp add: pow2_def[of 1])
  ultimately have "2 ^ 52 * 2 \<le> of_int (round_half_even (y / pow2 (grid y))) * pow2 (grid y)"
    by (intro mult_mono) simp_all
  then show ?thesis by (simp add: round_positive_grid)
qed

lemma round_positive_safe:
  assumes "round_positive (of_int c) = of_int n" and "0 < n" and "n \<le> maxSafeInteger"
  shows "c = n"
proof (cases "0 < c \<and> c \<le> 2 ^ 53")
  case True
  then show ?thesis using round_positive_int[of c] assms(1) by simp
next
  case False
  then have "c \<le> 0 \<or> (2 ^ 53 :: rat) \<le> of_int c" by (auto simp: not_le)
  then have "(of_int n :: rat) \<le> 0 \<or> 2 ^ 53 \<le> (of_int n :: rat)"
    using round_positive_nonpos[of "of_int c"] round_positive_large[of "of_int c"] assms(1) by auto
  then show ?thesis using assms(2,3) by (simp add: maxSafeInteger_def)
qed


lemma digits_at_safe:
  assumes n: "0 < n" "n \<le> maxSafeInteger" and k: "0 \<le> decimal_exponent (of_int n) + 1 - int w"
    and "digits_at (of_int n) w = Some d"
  shows "d * 10 ^ nat (decimal_exponent (of_int n) + 1 - int w) = n"
proof -
  let ?k = "decimal_exponent (of_int n :: rat) + 1 - int w"
  have "(of_int d * pow10 ?k :: rat) = of_int (d * 10 ^ nat ?k)" using k by (simp add: pow10_def)
  then have "round_positive (of_int (d * 10 ^ nat ?k)) = of_int n" using digits_at_reads_back[OF assms(4)] by (simp only:)
  then show ?thesis by (rule round_positive_safe) (use n in simp_all)
qed

lemma digits_at_exact: "0 \<le> w \<Longrightarrow> decimal_exponent (of_int n) + 1 = int w \<Longrightarrow> 0 < n \<Longrightarrow> n \<le> 2 ^ 53 \<Longrightarrow> digits_at (of_int n) w = Some n"
  by (simp add: digits_at_def Let_def pow10_def[of 0] round_positive_int)

lemma first_digits_safe:
  assumes n: "0 < n" "n \<le> maxSafeInteger" and e: "decimal_exponent (of_int n) = e" "int w \<le> e + 1" "e + 1 < int w + int l"
    and "first_digits (of_int n) [w..<w + l] = (d, k)"
  shows "0 \<le> k \<and> d * 10 ^ nat k = n"
  using e(2,3) assms(6)
proof (induction l arbitrary: w)
  case (Suc l)
  have up: "[w..<w + Suc l] = w # [Suc w..<Suc w + l]" using upt_rec[of w "w + Suc l"] by simp
  show ?case
  proof (cases "digits_at (of_int n) w")
    case (Some q)
    then have "d = q" "k = e + 1 - int w" using Suc.prems(3)[unfolded up] e(1) by simp_all
    then show ?thesis using digits_at_safe[OF n _ Some] e(1) Suc.prems(1) by simp
  next
    case None
    then have "e + 1 \<noteq> int w" using digits_at_exact[of w n] e(1) n by (auto simp: maxSafeInteger_def)
    then show ?thesis using Suc.IH[of "Suc w"] Suc.prems(1,2) Suc.prems(3)[unfolded up] None by simp
  qed
qed simp

lemma safe_exponent:
  assumes "0 < n" and "n \<le> maxSafeInteger"
  shows "0 \<le> decimal_exponent (of_int n)" and "decimal_exponent (of_int n) \<le> 15"
proof -
  have n: "1 \<le> (of_int n :: rat)" "(of_int n :: rat) < 10 ^ 16" using assms by (simp_all add: maxSafeInteger_def)
  note b = decimal_exponent_bounds[of "of_int n"]
  have mono: "a \<le> b \<Longrightarrow> pow10 a \<le> pow10 b" for a b by (simp add: pow10_powi power_int_increasing)
  show "0 \<le> decimal_exponent (of_int n)"
  proof (rule ccontr)
    assume "\<not> 0 \<le> decimal_exponent (of_int n :: rat)"
    then have "pow10 (decimal_exponent (of_int n) + 1) \<le> pow10 0" by (intro mono) simp
    then show False using b n by (simp add: pow10_def[of 0])
  qed
  show "decimal_exponent (of_int n) \<le> 15"
  proof (rule ccontr)
    assume "\<not> decimal_exponent (of_int n :: rat) \<le> 15"
    then have "pow10 16 \<le> pow10 (decimal_exponent (of_int n))" by (intro mono) simp
    then show False using b n by (simp add: pow10_def[of 16])
  qed
qed

lemma shortest_decimal_safe:
  assumes "0 < n" and "n \<le> maxSafeInteger" and "shortest_decimal (of_int n) = (d, k)"
  shows "0 < d" and "0 \<le> k" and "d * 10 ^ nat k = n"
proof -
  obtain d0 k0 where f: "first_digits (of_int n) [1..<18] = (d0, k0)" by force
  have s: "0 \<le> k0 \<and> d0 * 10 ^ nat k0 = n"
    using first_digits_safe[OF assms(1,2) refl, of 1 17] safe_exponent[OF assms(1,2)] f by simp
  then have d0: "0 < d0" using assms(1) by (metis zero_less_mult_pos2 zero_less_numeral zero_less_power)
  have z: "strip_zeros d0 k0 = (d, k)" using assms(3) f by (simp add: shortest_decimal_def)
  note v = strip_zeros_value[OF d0 z]
  have "nat k = nat (k - k0) + nat k0" using v s by (simp add: nat_add_distrib[symmetric])
  then show "0 < d" and "0 \<le> k" and "d * 10 ^ nat k = n" using v s by (auto simp: power_add)
qed

lemma dec_digits_zeros: "0 < d \<Longrightarrow> dec_digits (d * 10 ^ j) = dec_digits d @ replicate j CHR ''0''"
proof (induction j)
  case (Suc j)
  have zero: "digit_char 0 = CHR ''0''" by code_simp
  have "\<not> d * 10 ^ Suc j < 10" using Suc.prems by simp (metis linorder_not_le mult_le_cancel_left_pos mult.commute one_le_power one_le_numeral mult_mono int_one_le_iff_zero_less mult_1 zero_le_one order_trans)
  then have "dec_digits (d * 10 ^ Suc j) = dec_digits (d * 10 ^ j) @ [CHR ''0'']" by (subst dec_digits.simps) (simp add: zero)
  then show ?case using Suc by (simp flip: replicate_append_same)
qed simp


lemma safe_binary64: "0 < n \<Longrightarrow> n \<le> maxSafeInteger \<Longrightarrow> is_binary64 (of_int n)"
proof -
  assume n: "0 < n" "n \<le> maxSafeInteger"
  have "(of_int n :: rat) \<le> 2 ^ 53" using n by (simp add: maxSafeInteger_def)
  also have "\<dots> \<le> max_finite" by (simp add: max_finite_def)
  finally show ?thesis using n round_positive_int[of n] by (simp add: is_binary64_def maxSafeInteger_def)
qed

lemma float_of_int_safe: "\<bar>n\<bar> \<le> maxSafeInteger \<Longrightarrow> float_of_int n = Finite (of_int n)"
proof -
  assume n: "\<bar>n\<bar> \<le> maxSafeInteger"
  consider "n = 0" | "0 < n" | "n < 0" by linarith
  then show ?thesis
  proof cases
    case 1
    then show ?thesis by (simp add: float_of_int_def float_round_def float_signed_def signed_zero_def)
  next
    case 2
    then have "is_binary64 (of_int n)" using n by (intro safe_binary64) auto
    then show ?thesis using 2 by (simp add: float_of_int_def float_round_def float_signed_def is_binary64_def Let_def)
  next
    case 3
    then have "is_binary64 (of_int (- n))" using n by (intro safe_binary64) auto
    then show ?thesis using 3 by (simp add: float_of_int_def float_round_def float_signed_def is_binary64_def Let_def)
  qed
qed

lemma float_text_safe:
  assumes "0 < n" and "n \<le> maxSafeInteger"
  shows "float_text (of_int n) = dec_digits n"
proof -
  obtain d k where dk: "shortest_decimal (of_int n :: rat) = (d, k)" by force
  note s = shortest_decimal_safe[OF assms dk]
  define ds where "ds = dec_digits d"
  have ds: "ds \<noteq> []" using dec_digits_digits[of d] s(1) by (simp add: ds_def)
  have dn: "dec_digits n = ds @ replicate (nat k) CHR ''0''" using dec_digits_zeros[OF s(1), of "nat k"] s(3) by (simp add: ds_def)
  have "10 ^ (length (dec_digits n) - 1) \<le> n" using dec_digits_bounds[OF assms(1)] by simp
  also have "n < 10 ^ 16" using assms(2) by (simp add: maxSafeInteger_def)
  finally have "length (dec_digits n) - 1 < 16" by (simp only: power_strict_increasing_iff)
  then have len: "int (length ds) + k \<le> 16" using dn s(2) by simp
  have pos: "0 < int (length ds) + k" using ds s(2) by (cases ds) simp_all
  have nk: "nat (int (length ds) + k) - length ds = nat k" "length ds \<le> nat (int (length ds) + k)" using s(2) by simp_all
  have "placed ds (int (length ds) + k) = ds @ replicate (nat k) CHR ''0''"
    using len pos nk by (simp add: placed_def positional_def num_text_def exponent_text_def)
  then show ?thesis by (simp add: float_text_def dk dn ds_def)
qed

lemma encodeFloat_safe:
  assumes "\<bar>n\<bar> \<le> maxSafeInteger"
  shows "encodeFloat (float_of_int n) = Inr (show_int n)"
proof -
  have f: "float_of_int n = Finite (of_int n)" by (rule float_of_int_safe[OF assms])
  consider "n = 0" | "0 < n" | "n < 0" by linarith
  then show ?thesis
  proof cases
    case 1
    have "show_int 0 = ''0''" by code_simp
    then show ?thesis using 1 f by (simp add: encodeFloat_def formatFloat_def is_zero_def)
  next
    case 2
    then have b: "is_binary64 (of_int n)" "n \<le> maxSafeInteger" using assms by (auto intro: safe_binary64)
    have "formatFloat (Finite (of_int n)) = Inr (dec_digits n)"
      using formatFloat_placed[OF b(1), of "''''"] float_text_safe[OF 2 b(2)] by simp
    then show ?thesis using 2 by (simp add: f encodeFloat_def is_zero_def show_int_def)
  next
    case 3
    then have b: "is_binary64 (of_int (- n))" "- n \<le> maxSafeInteger" using assms by (auto intro: safe_binary64 simp del: of_int_minus)
    have "formatFloat (Finite (of_int n)) = Inr (CHR ''-'' # dec_digits (- n))"
      using formatFloat_placed[OF b(1), of "''-''"] float_text_safe[of "- n"] 3 b(2) by simp
    then show ?thesis using 3 by (simp add: f encodeFloat_def is_zero_def show_int_def)
  qed
qed

text \<open>What every successful encoding of a number is: the text of one double, which reads back as that double.\<close>

lemma encodeFloat_text:
  assumes "binary64 f" and "encodeFloat f = Inr t"
  shows "ParseFloat t = Inr f \<and> (num_shape t \<or> (\<exists>u. t = CHR ''-'' # u \<and> num_shape u))"
proof -
  obtain x where x: "f = Finite x" using assms(2) by (cases f) (auto simp: encodeFloat_def is_zero_def)
  consider "x = 0" | (pos) "0 < x" "is_binary64 x" | (neg) "x < 0" "is_binary64 (- x)"
    using assms(1) x by (cases "x < 0") (auto simp: binary64_def is_binary64_def)
  then show ?thesis
  proof cases
    case 1
    then have t: "t = ''0''" using assms(2) x by (simp add: encodeFloat_def formatFloat_def is_zero_def)
    have "ParseFloat ''0'' = Inr (Finite 0)" by code_simp
    moreover have "num_shape ''0''" unfolding num_shape_def
      by (intro exI[of _ "''0''"] exI[of _ "''''"] exI[of _ None]) (simp add: num_text_def exponent_text_def)
    ultimately show ?thesis using t x 1 by simp
  next
    case pos
    then have "t = float_text x" using assms(2) formatFloat_placed[OF pos(2), of "''''" f] by (simp add: x encodeFloat_def is_zero_def)
    then show ?thesis using ParseFloat_float_text(1)[OF pos(2)] float_text_shape[OF pos(2)] x by simp
  next
    case neg
    then have "t = CHR ''-'' # float_text (- x)" using assms(2) formatFloat_placed[OF neg(2), of "''-''" f] by (simp add: x encodeFloat_def is_zero_def)
    then show ?thesis using ParseFloat_float_text(2)[OF neg(2)] float_text_shape[OF neg(2)] x by simp
  qed
qed


lemma float_signed_binary64:
  assumes "0 \<le> x"
  shows "binary64 (float_signed s x)"
proof (cases "x = 0")
  case False
  then have x: "0 < x" using assms by simp
  show ?thesis
  proof (cases "0 < round_positive x")
    case True
    then show ?thesis using False round_positive_idem[OF x True]
      by (auto simp: float_signed_def Let_def binary64_def is_binary64_def signed_zero_def)
  next
    case neg: False
    have "0 \<le> round_half_even (x / pow2 (grid x))" using x by (intro round_half_even_ge) simp
    then have "round_positive x = 0" using neg by (simp add: round_positive_grid zero_less_mult_iff)
    then show ?thesis using False by (auto simp: float_signed_def binary64_def signed_zero_def max_finite_def)
  qed
qed (auto simp: float_signed_def signed_zero_def binary64_def)

lemma ParseFloat_binary64: "ParseFloat raw = Inr f \<Longrightarrow> binary64 f"
proof -
  assume p: "ParseFloat raw = Inr f"
  then obtain neg m e where r: "read_decimal raw = Some (neg, m, e)" and f: "f = float_signed neg (of_int m * pow10 e)"
    by (auto simp: ParseFloat_def Let_def split: option.splits if_splits prod.splits)
  have dig: "list_all is_digit (takeWhile is_digit s)" for s by (auto simp: list_all_iff dest: set_takeWhileD)
  have "0 \<le> m" using r by (auto simp: read_decimal_def Let_def dig intro!: decimal_value_nonneg split: option.splits if_splits prod.splits)
  then show ?thesis using f by (simp add: float_signed_binary64)
qed

end
