(* ===== verification/Canonical_Text.thy ===== *)
theory Canonical_Text
  imports Kernel
begin

text \<open>
  Strings of the canonical JSON encoder (\<^verbatim>\<open>internal/canonicaljson/internal/domain/text.go\<close>) and the string
  scanner of the raw JSON validator (\<^verbatim>\<open>validate.go\<close>), over the part of \<open>unicode/utf8\<close> they use. A Go
  string is its bytes. An index into the scanned data is the suffix of the data from that index on.
  The lemmas relate the two directions of UTF-8 and show that UTF-16 order tells valid strings apart.
\<close>

section \<open>UTF-8\<close>

definition byte :: "char \<Rightarrow> int" where
  "byte c = of_char c"

definition cont :: "int \<Rightarrow> int \<Rightarrow> char \<Rightarrow> bool" where
  "cont lo hi c \<longleftrightarrow> lo \<le> byte c \<and> byte c \<le> hi"

abbreviation tail_byte :: "char \<Rightarrow> bool" where
  "tail_byte \<equiv> cont 0x80 0xBF"

fun utf8_2 :: "int \<Rightarrow> string \<Rightarrow> (int \<times> nat) option" where
  "utf8_2 x (b # _) = (if tail_byte b then Some ((x - 0xC0) * 64 + (byte b - 0x80), 2) else None)"
| "utf8_2 x _ = None"

fun utf8_3 :: "int \<Rightarrow> int \<Rightarrow> int \<Rightarrow> string \<Rightarrow> (int \<times> nat) option" where
  "utf8_3 x lo hi (b # c # _) =
     (if cont lo hi b \<and> tail_byte c
      then Some ((x - 0xE0) * 4096 + (byte b - 0x80) * 64 + (byte c - 0x80), 3) else None)"
| "utf8_3 x lo hi _ = None"

fun utf8_4 :: "int \<Rightarrow> int \<Rightarrow> int \<Rightarrow> string \<Rightarrow> (int \<times> nat) option" where
  "utf8_4 x lo hi (b # c # d # _) =
     (if cont lo hi b \<and> tail_byte c \<and> tail_byte d
      then Some ((x - 0xF0) * 262144 + (byte b - 0x80) * 4096 + (byte c - 0x80) * 64 + (byte d - 0x80), 4) else None)"
| "utf8_4 x lo hi _ = None"

text \<open>The first rune of a string and its size, or \<open>None\<close> where the first byte starts no valid encoding.\<close>

fun utf8_first :: "string \<Rightarrow> (int \<times> nat) option" where
  "utf8_first [] = None"
| "utf8_first (a # s) =
     (let x = byte a
      in if x < 0x80 then Some (x, 1)
         else if x < 0xC2 then None
         else if x < 0xE0 then utf8_2 x s
         else if x < 0xF0 then utf8_3 x (if x = 0xE0 then 0xA0 else 0x80) (if x = 0xED then 0x9F else 0xBF) s
         else if x < 0xF5 then utf8_4 x (if x = 0xF0 then 0x90 else 0x80) (if x = 0xF4 then 0x8F else 0xBF) s
         else None)"

definition RuneError :: int where
  "RuneError = 0xFFFD"

definition decode_rune :: "string \<Rightarrow> int \<times> nat" where
  "decode_rune s = (case utf8_first s of Some p \<Rightarrow> p | None \<Rightarrow> (RuneError, if s = [] then 0 else 1))"

definition utf8_encode :: "int \<Rightarrow> string" where
  "utf8_encode r =
     (if r < 0x80 then [char_of r]
      else if r < 0x800 then [char_of (0xC0 + r div 64), char_of (0x80 + r mod 64)]
      else if r < 0x10000 then [char_of (0xE0 + r div 4096), char_of (0x80 + r div 64 mod 64), char_of (0x80 + r mod 64)]
      else [char_of (0xF0 + r div 262144), char_of (0x80 + r div 4096 mod 64), char_of (0x80 + r div 64 mod 64), char_of (0x80 + r mod 64)])"

lemma utf8_first_size: "utf8_first s = Some (r, n) \<Longrightarrow> 0 < n \<and> n \<le> length s"
  by (cases s; cases "tl s"; cases "tl (tl s)"; cases "tl (tl (tl s))") (auto simp: Let_def split: if_splits)

text \<open>A \<open>range\<close> over a string, and \<open>utf8.ValidString\<close>.\<close>

function runes :: "string \<Rightarrow> int list" where
  "runes s = (if s = [] then [] else (case decode_rune s of (r, n) \<Rightarrow> r # runes (drop n s)))"
  by pat_completeness auto
termination
  by (relation "measure length")
    (auto simp: decode_rune_def split: option.splits if_splits prod.splits dest: utf8_first_size)

function valid_utf8 :: "string \<Rightarrow> bool" where
  "valid_utf8 s = (s = [] \<or> (case utf8_first s of None \<Rightarrow> False | Some (_, n) \<Rightarrow> valid_utf8 (drop n s)))"
  by pat_completeness auto
termination
  by (relation "measure length") (auto dest: utf8_first_size)

declare runes.simps [simp del] valid_utf8.simps [simp del]

section \<open>Strings\<close>

definition shortEscapes :: "(int \<times> string) list" where
  "shortEscapes =
     [(0x22, [CHR 0x5C, CHR 0x22]), (0x5C, [CHR 0x5C, CHR 0x5C]), (0x08, CHR 0x5C # ''b''), (0x0C, CHR 0x5C # ''f''),
      (0x0A, CHR 0x5C # ''n''), (0x0D, CHR 0x5C # ''r''), (0x09, CHR 0x5C # ''t'')]"

definition writeStringRune :: "int \<Rightarrow> string" where
  "writeStringRune r = (case map_of shortEscapes r of
     Some escape \<Rightarrow> escape
   | None \<Rightarrow>
       if r < 0x20 then CHR 0x5C # ''u00'' @ [hex_digit (r div 16), hex_digit (r mod 16)]
       else utf8_encode r)"

definition containsSurrogate :: "string \<Rightarrow> bool" where
  "containsSurrogate value \<longleftrightarrow> list_ex (\<lambda>r. r \<ge> 0xd800 \<and> r \<le> 0xdfff) (runes value)"

definition encodeString :: "string \<Rightarrow> string result" where
  "encodeString value =
     (if \<not> valid_utf8 value \<or> containsSurrogate value
      then Inl (Errorf ''canonicaljson: string is not well-formed Unicode'')
      else Inr ([CHR 0x22] @ concat (map writeStringRune (runes value)) @ [CHR 0x22]))"

definition utf16_rune :: "int \<Rightarrow> int list" where
  "utf16_rune r =
     (if r \<le> 0xffff then [r]
      else let q = r - 0x10000 in [0xd800 + q div 1024, 0xdc00 + q mod 1024])"

definition utf16Units :: "string \<Rightarrow> int list" where
  "utf16Units value = concat (map utf16_rune (runes value))"

fun slices_compare :: "int list \<Rightarrow> int list \<Rightarrow> int" where
  "slices_compare [] [] = 0"
| "slices_compare [] (_ # _) = -1"
| "slices_compare (_ # _) [] = 1"
| "slices_compare (a # as) (b # bs) = (if compare3 a b \<noteq> 0 then compare3 a b else slices_compare as bs)"

definition compareUTF16 :: "string \<Rightarrow> string \<Rightarrow> int" where
  "compareUTF16 a b = slices_compare (utf16Units a) (utf16Units b)"

section \<open>Scanning raw JSON strings\<close>

definition hexDigit :: "char \<Rightarrow> int option" where
  "hexDigit c =
     (if 0x30 \<le> byte c \<and> byte c \<le> 0x39 then Some (byte c - 0x30)
      else if 0x61 \<le> byte c \<and> byte c \<le> 0x66 then Some (byte c - 0x61 + 10)
      else if 0x41 \<le> byte c \<and> byte c \<le> 0x46 then Some (byte c - 0x41 + 10)
      else None)"

fun parseHex4 :: "string \<Rightarrow> int option" where
  "parseHex4 [a, b, c, d] = (case (hexDigit a, hexDigit b, hexDigit c, hexDigit d) of
     (Some w, Some x, Some y, Some z) \<Rightarrow> Some (((w * 16 + x) * 16 + y) * 16 + z)
   | _ \<Rightarrow> None)"
| "parseHex4 _ = None"

definition scanLowSurrogate :: "string \<Rightarrow> string result" where
  "scanLowSurrogate s =
     (if length s \<le> 5 \<or> hd s \<noteq> CHR 0x5C \<or> s ! 1 \<noteq> CHR ''u'' then Inl (Errorf ''lone high surrogate'')
      else case parseHex4 (take 4 (drop 2 s)) of
        None \<Rightarrow> Inl (Errorf ''invalid surrogate pair'')
      | Some low \<Rightarrow> if low < 0xdc00 \<or> low > 0xdfff then Inl (Errorf ''invalid surrogate pair'') else Inr (drop 6 s))"

definition scanUnicodeEscape :: "string \<Rightarrow> string result" where
  "scanUnicodeEscape s =
     (if length s \<le> 4 then Inl (Errorf ''short Unicode escape'')
      else case parseHex4 (take 4 (drop 1 s)) of
        None \<Rightarrow> Inl (Errorf ''invalid Unicode escape'')
      | Some code \<Rightarrow>
          if code \<ge> 0xdc00 \<and> code \<le> 0xdfff then Inl (Errorf ''lone low surrogate'')
          else if code < 0xd800 \<or> code > 0xdbff then Inr (drop 5 s)
          else scanLowSurrogate (drop 5 s))"

definition scanEscape :: "string \<Rightarrow> string result" where
  "scanEscape s = (case s of
     [] \<Rightarrow> Inl (Errorf ''unterminated JSON escape'')
   | c # rest \<Rightarrow>
       if c = CHR ''u'' then scanUnicodeEscape s
       else if c \<notin> set ([CHR 0x22, CHR 0x5C] @ ''/bfnrt'') then Inl (Errorf ''invalid JSON escape'')
       else Inr rest)"

definition scanMultibyte :: "string \<Rightarrow> string result" where
  "scanMultibyte s =
     (let (_, size) = decode_rune s
      in if size = 1 \<or> \<not> valid_utf8 (take size s) then Inl (Errorf ''invalid UTF-8 in string'')
         else Inr (drop size s))"

definition scanStringUnit :: "string \<Rightarrow> string result" where
  "scanStringUnit s = (case s of
     [] \<Rightarrow> Inl (Errorf ''index out of range'')
   | c # rest \<Rightarrow>
       if c = CHR 0x5C then scanEscape rest
       else if byte c < 0x20 then Inl (Errorf ''unescaped control character in string'')
       else if byte c \<ge> 0x80 then scanMultibyte s
       else Inr rest)"

text \<open>The two loops, with the length of the data as fuel: every unit takes at least one byte.\<close>

fun scan_string :: "nat \<Rightarrow> string \<Rightarrow> string result" where
  "scan_string n [] = Inl (Errorf ''unterminated JSON string'')"
| "scan_string 0 s = Inl (Errorf ''fuel'')"
| "scan_string (Suc n) (c # rest) =
     (if c = CHR 0x22 then Inr rest else bind_res (scanStringUnit (c # rest)) (scan_string n))"

definition scanString :: "string \<Rightarrow> string result" where
  "scanString s = scan_string (length s) s"

fun validate_strings :: "nat \<Rightarrow> string \<Rightarrow> unit result" where
  "validate_strings n [] = Inr ()"
| "validate_strings 0 s = Inl (Errorf ''fuel'')"
| "validate_strings (Suc n) (c # rest) =
     (if c \<noteq> CHR 0x22 then validate_strings n rest
      else bind_res (scanString rest) (validate_strings n))"

definition validateStrings :: "string \<Rightarrow> unit result" where
  "validateStrings data = validate_strings (length data) data"


section \<open>UTF-8 round trips\<close>

definition scalar :: "int \<Rightarrow> bool" where
  "scalar r \<longleftrightarrow> 0 \<le> r \<and> r < 0x110000 \<and> \<not> (0xd800 \<le> r \<and> r \<le> 0xdfff)"

lemma byte_range [simp]: "0 \<le> byte c" "byte c < 256"
  using of_char_range[of c] by (simp_all add: byte_def)

lemma byte_char_of [simp]: "0 \<le> x \<Longrightarrow> x < 256 \<Longrightarrow> byte (char_of x) = x"
  by (simp add: byte_def of_char_of take_bit_eq_mod)

lemma char_of_byte [simp]: "char_of (byte c) = c"
  by (simp add: byte_def)

lemma char_of_eq: "0 \<le> x \<Longrightarrow> x < 256 \<Longrightarrow> byte c = x \<Longrightarrow> char_of x = c"
  by auto

lemma base64: "0 \<le> y \<Longrightarrow> y < 64 \<Longrightarrow> (x * 64 + y) div 64 = (x::int)" "0 \<le> y \<Longrightarrow> y < 64 \<Longrightarrow> (x * 64 + y) mod 64 = (y::int)"
  by simp_all

lemma div_4096: "(r::int) div 4096 = r div 64 div 64" "r div 262144 = r div 64 div 64 div 64"
  using zdiv_zmult2_eq[of 64 r 64] zdiv_zmult2_eq[of 64 "r div 64" 64] zdiv_zmult2_eq[of 4096 r 64] by simp_all

lemma div64_range: "n * 64 \<le> r \<Longrightarrow> (n::int) \<le> r div 64" "r < n * 64 \<Longrightarrow> r div 64 < n"
  by simp_all

lemma mod64_eq: "(r::int) = r div 64 * 64 + r mod 64"
  by simp

lemma utf8_2_encode:
  assumes "utf8_2 (byte a) s = Some (r, n)" and "0xC2 \<le> byte a" and "byte a < 0xE0"
  shows "scalar r" and "utf8_encode r = take n (a # s)"
proof -
  obtain b t where s: "s = b # t" "tail_byte b" and r: "r = (byte a - 0xC0) * 64 + (byte b - 0x80)" and n: "n = 2"
    using assms(1) by (cases s) (auto split: if_splits)
  have b: "0x80 \<le> byte b" "byte b \<le> 0xBF" using s(2) by (auto simp: cont_def)
  have q: "r div 64 = byte a - 0xC0" "r mod 64 = byte b - 0x80" unfolding r using b base64[of "byte b - 0x80" "byte a - 0xC0"] by auto
  have "0x80 \<le> r" "r < 0x800" using b assms(2,3) by (simp_all add: r)
  then show "scalar r" and "utf8_encode r = take n (a # s)" by (simp_all add: scalar_def utf8_encode_def q s n)
qed

lemma utf8_3_encode:
  assumes "utf8_3 (byte a) (if byte a = 0xE0 then 0xA0 else 0x80) (if byte a = 0xED then 0x9F else 0xBF) s = Some (r, n)"
    and "0xE0 \<le> byte a" and "byte a < 0xF0"
  shows "scalar r" and "utf8_encode r = take n (a # s)"
proof -
  obtain b c t where s: "s = b # c # t" "tail_byte c" and bb: "cont (if byte a = 0xE0 then 0xA0 else 0x80) (if byte a = 0xED then 0x9F else 0xBF) b"
    and r: "r = (byte a - 0xE0) * 4096 + (byte b - 0x80) * 64 + (byte c - 0x80)" and n: "n = 3"
    using assms(1) by (cases s; cases "tl s") (auto split: if_splits)
  have b: "0x80 \<le> byte b" "byte b \<le> 0xBF" "byte a = 0xE0 \<Longrightarrow> 0xA0 \<le> byte b" "byte a = 0xED \<Longrightarrow> byte b \<le> 0x9F"
    using bb by (auto simp: cont_def split: if_splits)
  have c: "0x80 \<le> byte c" "byte c \<le> 0xBF" using s(2) by (auto simp: cont_def)
  define x y z where xyz: "x = byte a - 0xE0" "y = byte b - 0x80" "z = byte c - 0x80"
  have y: "0 \<le> y" "y < 64" "0 \<le> z" "z < 64" using b c by (simp_all add: xyz)
  have r64: "r = (x * 64 + y) * 64 + z" by (simp add: r xyz)
  have q: "r div 4096 = byte a - 0xE0" "r div 64 mod 64 = byte b - 0x80" "r mod 64 = byte c - 0x80"
    unfolding div_4096 r64 base64[OF y(3,4)] base64[OF y(1,2)] by (simp_all add: xyz)
  have lo: "0x800 \<le> r" using b c assms(2) unfolding r by (cases "byte a = 0xE0") auto
  have hi: "r < 0x10000" using b(1,2) c assms(3) unfolding r by simp
  have "\<not> (0xd800 \<le> r \<and> r \<le> 0xdfff)"
  proof (cases "byte a = 0xED")
    case False
    then consider (low) "byte a \<le> 0xEC" | (high) "0xEE \<le> byte a" by linarith
    then show ?thesis
    proof cases
      case low
      then have "r < 0xd800" using b(1,2) c unfolding r by simp
      then show ?thesis by simp
    next
      case high
      then have "0xdfff < r" using b(1,2) c unfolding r by simp
      then show ?thesis by simp
    qed
  qed (use b c in \<open>simp add: r\<close>)
  then show "scalar r" and "utf8_encode r = take n (a # s)" using lo hi by (simp_all add: scalar_def utf8_encode_def q s n)
qed

lemma utf8_4_encode:
  assumes "utf8_4 (byte a) (if byte a = 0xF0 then 0x90 else 0x80) (if byte a = 0xF4 then 0x8F else 0xBF) s = Some (r, n)"
    and "0xF0 \<le> byte a" and "byte a < 0xF5"
  shows "scalar r" and "utf8_encode r = take n (a # s)"
proof -
  obtain b c d t where s: "s = b # c # d # t" "tail_byte c" "tail_byte d"
    and bb: "cont (if byte a = 0xF0 then 0x90 else 0x80) (if byte a = 0xF4 then 0x8F else 0xBF) b"
    and r: "r = (byte a - 0xF0) * 262144 + (byte b - 0x80) * 4096 + (byte c - 0x80) * 64 + (byte d - 0x80)" and n: "n = 4"
    using assms(1) by (cases s; cases "tl s"; cases "tl (tl s)") (auto split: if_splits)
  have b: "0x80 \<le> byte b" "byte b \<le> 0xBF" "byte a = 0xF0 \<Longrightarrow> 0x90 \<le> byte b" "byte a = 0xF4 \<Longrightarrow> byte b \<le> 0x8F"
    using bb by (auto simp: cont_def split: if_splits)
  have c: "0x80 \<le> byte c" "byte c \<le> 0xBF" "0x80 \<le> byte d" "byte d \<le> 0xBF" using s by (auto simp: cont_def)
  define w x y z where xyz: "w = byte a - 0xF0" "x = byte b - 0x80" "y = byte c - 0x80" "z = byte d - 0x80"
  have y: "0 \<le> x" "x < 64" "0 \<le> y" "y < 64" "0 \<le> z" "z < 64" using b c by (simp_all add: xyz)
  have r64: "r = ((w * 64 + x) * 64 + y) * 64 + z" by (simp add: r xyz)
  have q: "r div 262144 = byte a - 0xF0" "r div 4096 mod 64 = byte b - 0x80" "r div 64 mod 64 = byte c - 0x80" "r mod 64 = byte d - 0x80"
    unfolding div_4096 r64 base64[OF y(5,6)] base64[OF y(3,4)] base64[OF y(1,2)] by (simp_all add: xyz)
  have lo: "0x10000 \<le> r" using b c assms(2) unfolding r by (cases "byte a = 0xF0") auto
  have hi: "r < 0x110000" using b c assms(3) unfolding r by (cases "byte a = 0xF4") auto
  show "scalar r" and "utf8_encode r = take n (a # s)" using lo hi by (simp_all add: scalar_def utf8_encode_def q s n)
qed

lemma utf8_first_encode:
  assumes "utf8_first s = Some (r, n)"
  shows "scalar r" and "utf8_encode r = take n s"
proof -
  obtain a t where s: "s = a # t" using assms by (cases s) auto
  note u = assms[unfolded s utf8_first.simps Let_def]
  consider (one) "byte a < 0x80" | (none) "0x80 \<le> byte a" "byte a < 0xC2 \<or> 0xF5 \<le> byte a" | (two) "0xC2 \<le> byte a" "byte a < 0xE0"
    | (three) "0xE0 \<le> byte a" "byte a < 0xF0" | (four) "0xF0 \<le> byte a" "byte a < 0xF5" by linarith
  then have "scalar r \<and> utf8_encode r = take n s"
  proof cases
    case one
    then show ?thesis using u by (auto simp: s scalar_def utf8_encode_def)
  next
    case none
    then show ?thesis using u by (auto split: if_splits)
  next
    case two
    then show ?thesis using u utf8_2_encode[of a t r n] by (simp add: s)
  next
    case three
    then show ?thesis using u utf8_3_encode[of a t r n] by (simp add: s)
  next
    case four
    then show ?thesis using u utf8_4_encode[of a t r n] by (simp add: s)
  qed
  then show "scalar r" and "utf8_encode r = take n s" by auto
qed

lemma utf8_first_utf8_encode:
  assumes "scalar r"
  shows "utf8_first (utf8_encode r @ s) = Some (r, length (utf8_encode r))"
proof -
  have r: "0 \<le> r" "r < 0x110000" "\<not> (0xd800 \<le> r \<and> r \<le> 0xdfff)" using assms by (auto simp: scalar_def)
  define z y x w where xyz: "z = r mod 64" "y = r div 64 mod 64" "x = r div 4096 mod 64" "w = r div 262144"
  have bd: "0 \<le> z" "z < 64" "0 \<le> y" "y < 64" "0 \<le> x" "x < 64" by (simp_all add: xyz)
  have r1: "r = r div 64 * 64 + z" and r2: "r div 64 = r div 4096 * 64 + y" and r3: "r div 4096 = w * 64 + x"
    using mod64_eq[of r] mod64_eq[of "r div 64"] mod64_eq[of "r div 4096"] by (simp_all add: xyz div_4096)
  have r0: "0 \<le> r div 64" "0 \<le> r div 4096" "0 \<le> w" using r(1) by (simp_all add: xyz)
  note enc = utf8_encode_def[of r, folded xyz]
  consider (a) "r < 0x80" | (b) "0x80 \<le> r" "r < 0x800" | (c) "0x800 \<le> r" "r < 0x10000" | (d) "0x10000 \<le> r" by linarith
  then show ?thesis
  proof cases
    case a
    then show ?thesis using r by (simp add: utf8_encode_def)
  next
    case b
    have q: "2 \<le> r div 64" "r div 64 < 32" using b by simp_all
    then show ?thesis using b bd r1 by (simp add: enc cont_def)
  next
    case c
    have q: "r div 4096 < 16" using c by simp
    have "r div 4096 = 0 \<longrightarrow> 32 \<le> y" "r div 4096 = 13 \<longrightarrow> y \<le> 31" using c r r1 r2 bd by linarith+
    then show ?thesis using c q bd r0 r1 r2 by (simp add: enc cont_def)
  next
    case d
    have q: "w < 5" using r by (simp add: xyz)
    have "w = 0 \<longrightarrow> 16 \<le> x" "w = 4 \<longrightarrow> x \<le> 15" using d r r1 r2 r3 bd by linarith+
    moreover have "w * 262144 + x * 4096 + y * 64 + z = r" using r1 r2 r3 by linarith
    ultimately show ?thesis using d q bd r0(3) by (simp add: enc cont_def)
  qed
qed


lemma valid_utf8_runes:
  "valid_utf8 s \<Longrightarrow> concat (map utf8_encode (runes s)) = s \<and> list_all scalar (runes s)"
proof (induction s rule: valid_utf8.induct)
  case (1 s)
  show ?case
  proof (cases "s = []")
    case True
    then show ?thesis by (simp add: runes.simps)
  next
    case False
    then obtain r n where u: "utf8_first s = Some (r, n)" and v: "valid_utf8 (drop n s)"
      using "1.prems" valid_utf8.simps[of s] by (auto split: option.splits)
    have "runes s = r # runes (drop n s)" using False u by (simp add: runes.simps[of s] decode_rune_def)
    then show ?thesis using "1.IH"[OF u refl v] utf8_first_encode[OF u] by simp
  qed
qed

lemma utf8_encode_nonempty [simp]: "utf8_encode r \<noteq> []"
  by (simp add: utf8_encode_def)

lemma runes_utf8_encode:
  "list_all scalar rs \<Longrightarrow> runes (concat (map utf8_encode rs)) = rs \<and> valid_utf8 (concat (map utf8_encode rs))"
proof (induction rs)
  case (Cons r rs)
  let ?s = "utf8_encode r @ concat (map utf8_encode rs)"
  have u: "utf8_first ?s = Some (r, length (utf8_encode r))" using Cons.prems by (intro utf8_first_utf8_encode) simp
  have ne: "?s \<noteq> []" by simp
  have "runes ?s = r # runes (concat (map utf8_encode rs))" by (subst runes.simps) (simp add: decode_rune_def u)
  moreover have "valid_utf8 ?s = valid_utf8 (concat (map utf8_encode rs))" by (subst valid_utf8.simps) (simp add: u)
  ultimately show ?case using Cons by simp
qed (simp add: runes.simps valid_utf8.simps)

lemma valid_not_surrogate: "valid_utf8 s \<Longrightarrow> \<not> containsSurrogate s"
  using valid_utf8_runes[of s] by (auto simp: containsSurrogate_def list_all_iff list_ex_iff scalar_def)

lemma encodeString_Inr: "encodeString s = Inr t \<longleftrightarrow>
    valid_utf8 s \<and> t = [CHR 0x22] @ concat (map writeStringRune (runes s)) @ [CHR 0x22]"
  using valid_not_surrogate by (auto simp: encodeString_def)

section \<open>UTF-16 order\<close>

lemma utf16_rune_inj:
  assumes "list_all scalar rs" and "list_all scalar ss"
    and "concat (map utf16_rune rs) = concat (map utf16_rune ss)"
  shows "rs = ss"
  using assms
proof (induction rs arbitrary: ss)
  case Nil
  then show ?case by (cases ss) (auto simp: utf16_rune_def Let_def split: if_splits)
next
  case (Cons r rs)
  then obtain q qs where ss: "ss = q # qs" by (cases ss) (auto simp: utf16_rune_def Let_def split: if_splits)
  have rq: "scalar r" "scalar q" using Cons.prems ss by auto
  have div: "r - 0x10000 = q - 0x10000" if "(r - 0x10000) div 1024 = (q - 0x10000) div 1024" "(r - 0x10000) mod 1024 = (q - 0x10000) mod 1024"
    using that by (metis div_mult_mod_eq)
  have low: "q \<le> 0xffff \<Longrightarrow> \<not> r \<le> 0xffff \<Longrightarrow> q \<noteq> 0xd800 + (r - 0x10000) div 1024"
    "r \<le> 0xffff \<Longrightarrow> \<not> q \<le> 0xffff \<Longrightarrow> r \<noteq> 0xd800 + (q - 0x10000) div 1024"
    using rq by (auto simp: scalar_def)
  have "r = q \<and> concat (map utf16_rune rs) = concat (map utf16_rune qs)"
    using Cons.prems(3) low div
    by (auto simp: ss utf16_rune_def[of r] utf16_rune_def[of q] Let_def split: if_splits)
  then show ?case using Cons ss by simp
qed

lemma utf16Units_inj: "valid_utf8 s \<Longrightarrow> valid_utf8 t \<Longrightarrow> utf16Units s = utf16Units t \<Longrightarrow> s = t"
  using valid_utf8_runes[of s] valid_utf8_runes[of t] utf16_rune_inj[of "runes s" "runes t"]
  unfolding utf16Units_def by metis

lemma slices_compare_compare3: "slices_compare a b = compare3 a b"
  by (induction a b rule: slices_compare.induct) (auto simp: compare3_def)

interpretation utf16: comparison compareUTF16 utf16Units
  unfolding compareUTF16_def slices_compare_compare3 by (rule compare3_on)

end
