(* ===== verification/Canonical_JSON.thy ===== *)
theory Canonical_JSON
  imports Contracts Canonical_Number Canonical_Text
begin

text \<open>
  The canonical JSON codec (\<^verbatim>\<open>internal/canonicaljson/internal/domain\<close>: \<^verbatim>\<open>digest.go\<close>, \<^verbatim>\<open>validate.go\<close>,
  \<^verbatim>\<open>stored.go\<close>): the encoder, the strict decoder, domain-separated digests and the check of stored
  documents, over the JSON reader of \<open>encoding/json\<close>.
\<close>

section \<open>Encoding\<close>

fun join_comma :: "string list \<Rightarrow> string" where
  "join_comma [] = []"
| "join_comma [x] = x"
| "join_comma (x # y # ys) = x @ '','' @ join_comma (y # ys)"

fun collect_results :: "'a result list \<Rightarrow> 'a list result" where
  "collect_results [] = Inr []"
| "collect_results (r # rs) = bind_res r (\<lambda>x. bind_res (collect_results rs) (\<lambda>xs. Inr (x # xs)))"

definition encodeArray :: "string result list \<Rightarrow> string result" where
  "encodeArray values = bind_res (collect_results values) (\<lambda>ts. Inr (''['' @ join_comma ts @ '']''))"

definition encodeMember :: "string \<times> string result \<Rightarrow> string result" where
  "encodeMember kv = (case kv of (key, value) \<Rightarrow>
     bind_res (encodeString key) (\<lambda>k. bind_res value (\<lambda>v. Inr (k @ '':'' @ v))))"

definition compare_member :: "string \<times> 'a \<Rightarrow> string \<times> 'a \<Rightarrow> int" where
  "compare_member a b = compareUTF16 (fst a) (fst b)"

definition sortedKeys :: "(string \<times> 'a) list \<Rightarrow> (string \<times> 'a) list result" where
  "sortedKeys values =
     (if list_ex (\<lambda>(key, _). \<not> valid_utf8 key) values then Inl (Errorf ''canonicaljson: invalid UTF-8 object key'')
      else if list_ex (\<lambda>(key, _). containsSurrogate key) values then Inl (Errorf ''canonicaljson: object key contains surrogate'')
      else Inr (sort_func compare_member values))"

definition encodeObject :: "(string \<times> string result) list \<Rightarrow> string result" where
  "encodeObject values =
     bind_res (sortedKeys values) (\<lambda>members.
       bind_res (collect_results (map encodeMember members)) (\<lambda>ts. Inr (''{'' @ join_comma ts @ ''}'')))"

text \<open>
  \<open>json.Marshal\<close> of the typed values the documents hold: a nil \<open>[]string\<close> is \<open>null\<close>, invalid bytes of a string
  become the replacement character, a time is its RFC 3339 text (in UTC) with a fraction without
  trailing zeros. \<open>encodeMarshaled\<close> decodes the result again and encodes it canonically, so keys that the
  replacement made equal are refused as duplicates.
\<close>

definition to_valid :: "string \<Rightarrow> string" where
  "to_valid s = concat (map utf8_encode (runes s))"

definition time_json :: "time \<Rightarrow> string result" where
  "time_json t =
     (let (y, _, _) = civil (t div day_ns);
          trimmed = rev (dropWhile (\<lambda>c. c = CHR ''0'') (tl (rev (FormatTime t))));
          text = (if last trimmed = CHR ''.'' then butlast trimmed else trimmed)
      in if y < 0 \<or> y > 9999 then Inl (Errorf ''canonicaljson: fallback marshal'') else Inr (text @ ''Z''))"

definition encodeStrings :: "string list \<Rightarrow> string result" where
  "encodeStrings xs = (if xs = [] then Inr ''null'' else encodeArray (map (encodeString \<circ> to_valid) xs))"

definition encodeStringMap :: "(string \<times> string) list \<Rightarrow> string result" where
  "encodeStringMap kvs =
     (let valid = map (map_prod to_valid (encodeString \<circ> to_valid)) kvs
      in if \<not> distinct (map fst valid) then Inl (Errorf ''canonicaljson: fallback unmarshal'')
         else encodeObject valid)"

primrec encode :: "any_value \<Rightarrow> string result" where
  "encode AnyNil = Inr ''null''"
| "encode (AnyBool b) = Inr (if b then ''true'' else ''false'')"
| "encode (AnyString s) = encodeString s"
| "encode (AnyFloat64 f) = encodeFloat f"
| "encode (AnyFloat32 f) = encodeFloat f"
| "encode (AnyInt n) = encodeInteger n"
| "encode (AnyInt64 n) = encodeInteger n"
| "encode (AnyUint64 n) = encodeUnsigned n"
| "encode (AnyNumber raw) = encodeNumber raw"
| "encode (AnyTime t) = bind_res (time_json t) encodeString"
| "encode (AnyStrings xs) = encodeStrings xs"
| "encode (AnyStringMap kvs) = encodeStringMap kvs"
| "encode (AnySlice xs) = encodeArray (map encode xs)"
| "encode (AnyMap kvs) = encodeObject (map (map_prod id encode) kvs)"

definition Marshal :: "any_value \<Rightarrow> string result" where
  "Marshal v = encode v"

section \<open>The JSON reader of the standard library\<close>

definition is_space :: "char \<Rightarrow> bool" where
  "is_space c \<longleftrightarrow> c = CHR '' '' \<or> c = CHR 0x09 \<or> c = CHR 0x0A \<or> c = CHR 0x0D"

definition skip_space :: "string \<Rightarrow> string" where
  "skip_space s = dropWhile is_space s"

definition combine_surrogates :: "int \<Rightarrow> int \<Rightarrow> int" where
  "combine_surrogates high low = (high - 0xd800) * 1024 + (low - 0xdc00) + 0x10000"

text \<open>A \<open>\u\<close> escape: a surrogate pair is one rune, a lone surrogate becomes the replacement character.\<close>

definition unquote_unicode :: "string \<Rightarrow> (string \<times> string) option" where
  "unquote_unicode s = (case parseHex4 (take 4 s) of
     None \<Rightarrow> None
   | Some code \<Rightarrow>
       let rest = drop 4 s;
           low = (if has_prefix rest [CHR 0x5C, CHR ''u''] then parseHex4 (take 4 (drop 2 rest)) else None)
       in if code < 0xd800 \<or> code > 0xdfff then Some (utf8_encode code, rest)
          else (case low of
            Some l \<Rightarrow> if code < 0xdc00 \<and> 0xdc00 \<le> l \<and> l \<le> 0xdfff
                      then Some (utf8_encode (combine_surrogates code l), drop 6 rest)
                      else Some (utf8_encode RuneError, rest)
          | None \<Rightarrow> Some (utf8_encode RuneError, rest)))"

definition escape_table :: "(char \<times> string) list" where
  "escape_table = [(CHR 0x22, [CHR 0x22]), (CHR 0x5C, [CHR 0x5C]), (CHR ''/'', ''/''), (CHR ''b'', [CHR 0x08]),
     (CHR ''f'', [CHR 0x0C]), (CHR ''n'', [CHR 0x0A]), (CHR ''r'', [CHR 0x0D]), (CHR ''t'', [CHR 0x09])]"

definition unquote_escape :: "string \<Rightarrow> (string \<times> string) option" where
  "unquote_escape s = (case s of
     [] \<Rightarrow> None
   | c # rest \<Rightarrow> if c = CHR ''u'' then unquote_unicode rest
                  else map_option (\<lambda>out. (out, rest)) (map_of escape_table c))"

fun json_string :: "nat \<Rightarrow> string \<Rightarrow> (string \<times> string) option" where
  "json_string n [] = None"
| "json_string 0 s = None"
| "json_string (Suc n) (c # rest) =
     (if c = CHR 0x22 then Some ([], rest)
      else if c = CHR 0x5C then
        (case unquote_escape rest of None \<Rightarrow> None
         | Some (out, rest') \<Rightarrow> map_option (\<lambda>(t, r). (out @ t, r)) (json_string n rest'))
      else if byte c < 0x20 then None
      else (case decode_rune (c # rest) of
         (r, width) \<Rightarrow> map_option (\<lambda>(t, q). (utf8_encode r @ t, q)) (json_string n (drop width (c # rest)))))"

definition read_string :: "string \<Rightarrow> (string \<times> string) option" where
  "read_string s = json_string (length s) s"

text \<open>A number literal is the longest prefix that follows the grammar; \<open>1.\<close>, \<open>1e\<close> and \<open>-\<close> are errors.\<close>

definition scan_fraction :: "string \<Rightarrow> (string \<times> string) option" where
  "scan_fraction s =
     (if s = [] \<or> hd s \<noteq> CHR ''.'' then Some ('''', s)
      else let ds = takeWhile is_digit (tl s)
           in if ds = [] then None else Some (CHR ''.'' # ds, dropWhile is_digit (tl s)))"

definition scan_exponent :: "string \<Rightarrow> (string \<times> string) option" where
  "scan_exponent s =
     (if s = [] \<or> hd s \<noteq> CHR ''e'' \<and> hd s \<noteq> CHR ''E'' then Some ('''', s)
      else let signed = (tl s \<noteq> [] \<and> (hd (tl s) = CHR ''+'' \<or> hd (tl s) = CHR ''-''));
               body = (if signed then tl (tl s) else tl s);
               ds = takeWhile is_digit body
           in if ds = [] then None
              else Some (hd s # (if signed then [hd (tl s)] else []) @ ds, dropWhile is_digit body))"

definition scan_whole :: "string \<Rightarrow> (string \<times> string) option" where
  "scan_whole s = (case s of
     [] \<Rightarrow> None
   | c # rest \<Rightarrow> if c = CHR ''0'' then Some (''0'', rest)
                  else if is_digit c then Some (takeWhile is_digit s, dropWhile is_digit s)
                  else None)"

definition scan_number :: "string \<Rightarrow> (string \<times> string) option" where
  "scan_number s =
     (let (minus, s1) = (if s \<noteq> [] \<and> hd s = CHR ''-'' then (''-'', tl s) else ('''', s))
      in case scan_whole s1 of None \<Rightarrow> None
      | Some (whole, s2) \<Rightarrow> (case scan_fraction s2 of None \<Rightarrow> None
        | Some (fraction, s3) \<Rightarrow> (case scan_exponent s3 of None \<Rightarrow> None
          | Some (e, s4) \<Rightarrow> Some (minus @ whole @ fraction @ e, s4))))"

text \<open>Without \<open>UseNumber\<close> a literal is converted, and one out of range is an error.\<close>

definition number_value :: "bool \<Rightarrow> string \<Rightarrow> any_value option" where
  "number_value use_number raw =
     (if use_number then Some (AnyNumber raw)
      else case ParseFloat raw of Inl _ \<Rightarrow> None | Inr f \<Rightarrow> Some (AnyFloat64 f))"

definition max_nesting_depth :: nat where
  "max_nesting_depth = 10000"

text \<open>
  The reader: the first argument is \<open>UseNumber\<close>, the second the fuel (every call reads at least one byte),
  the third how much deeper the text may nest. Members keep their order and their duplicates.
\<close>

fun json_value :: "bool \<Rightarrow> nat \<Rightarrow> nat \<Rightarrow> string \<Rightarrow> (any_value \<times> string) option"
  and json_elements :: "bool \<Rightarrow> nat \<Rightarrow> nat \<Rightarrow> string \<Rightarrow> (any_value list \<times> string) option"
  and json_members :: "bool \<Rightarrow> nat \<Rightarrow> nat \<Rightarrow> string \<Rightarrow> ((string \<times> any_value) list \<times> string) option" where
  "json_value m 0 d s = None"
| "json_value m (Suc n) d s = (case skip_space s of
     [] \<Rightarrow> None
   | c # rest \<Rightarrow>
       if c = CHR ''{'' then
         (if d = 0 then None
          else case skip_space rest of
            [] \<Rightarrow> None
          | c' # rest' \<Rightarrow> if c' = CHR ''}'' then Some (AnyMap [], rest')
              else map_option (\<lambda>(kvs, r). (AnyMap kvs, r)) (json_members m n (d - 1) (c' # rest')))
       else if c = CHR ''['' then
         (if d = 0 then None
          else case skip_space rest of
            [] \<Rightarrow> None
          | c' # rest' \<Rightarrow> if c' = CHR '']'' then Some (AnySlice [], rest')
              else map_option (\<lambda>(xs, r). (AnySlice xs, r)) (json_elements m n (d - 1) (c' # rest')))
       else if c = CHR 0x22 then map_option (\<lambda>(t, r). (AnyString t, r)) (read_string rest)
       else if has_prefix (c # rest) ''true'' then Some (AnyBool True, drop 4 (c # rest))
       else if has_prefix (c # rest) ''false'' then Some (AnyBool False, drop 5 (c # rest))
       else if has_prefix (c # rest) ''null'' then Some (AnyNil, drop 4 (c # rest))
       else (case scan_number (c # rest) of
          None \<Rightarrow> None
        | Some (raw, r) \<Rightarrow> map_option (\<lambda>v. (v, r)) (number_value m raw)))"
| "json_elements m 0 d s = None"
| "json_elements m (Suc n) d s = (case json_value m n d s of
     None \<Rightarrow> None
   | Some (v, rest) \<Rightarrow> (case skip_space rest of
       [] \<Rightarrow> None
     | c # rest' \<Rightarrow>
         if c = CHR '','' then map_option (\<lambda>(vs, r). (v # vs, r)) (json_elements m n d rest')
         else if c = CHR '']'' then Some ([v], rest')
         else None))"
| "json_members m 0 d s = None"
| "json_members m (Suc n) d s = (case skip_space s of
     [] \<Rightarrow> None
   | q # body \<Rightarrow> if q \<noteq> CHR 0x22 then None else (case read_string body of
       None \<Rightarrow> None
     | Some (k, rest) \<Rightarrow> (case skip_space rest of
         [] \<Rightarrow> None
       | colon # rest1 \<Rightarrow> if colon \<noteq> CHR '':'' then None else (case json_value m n d rest1 of
           None \<Rightarrow> None
         | Some (v, rest2) \<Rightarrow> (case skip_space rest2 of
             [] \<Rightarrow> None
           | c # rest3 \<Rightarrow>
               if c = CHR '','' then map_option (\<lambda>(kvs, r). ((k, v) # kvs, r)) (json_members m n d rest3)
               else if c = CHR ''}'' then Some ([(k, v)], rest3)
               else None)))))"

definition read_json :: "bool \<Rightarrow> string \<Rightarrow> any_value option" where
  "read_json use_number data = (case json_value use_number (Suc (length data)) max_nesting_depth data of
     Some (v, rest) \<Rightarrow> if skip_space rest = [] then Some v else None
   | None \<Rightarrow> None)"

text \<open>\<open>json.Unmarshal\<close> into an \<open>any\<close>: the last of several members with one key wins.\<close>

primrec last_wins :: "any_value \<Rightarrow> any_value" where
  "last_wins AnyNil = AnyNil"
| "last_wins (AnyBool b) = AnyBool b"
| "last_wins (AnyString s) = AnyString s"
| "last_wins (AnyFloat64 f) = AnyFloat64 f"
| "last_wins (AnyFloat32 f) = AnyFloat32 f"
| "last_wins (AnyInt n) = AnyInt n"
| "last_wins (AnyInt64 n) = AnyInt64 n"
| "last_wins (AnyUint64 n) = AnyUint64 n"
| "last_wins (AnyNumber raw) = AnyNumber raw"
| "last_wins (AnyTime t) = AnyTime t"
| "last_wins (AnyStrings xs) = AnyStrings xs"
| "last_wins (AnyStringMap kvs) = AnyStringMap kvs"
| "last_wins (AnySlice xs) = AnySlice (map last_wins xs)"
| "last_wins (AnyMap kvs) = AnyMap (foldl (\<lambda>m (k, v). AList.update k v m) [] (map (map_prod id last_wins) kvs))"

definition json_unmarshal :: "string \<Rightarrow> any_value option" where
  "json_unmarshal data = map_option last_wins (read_json False data)"

section \<open>The strict decoder\<close>

text \<open>
  \<open>validateTokens\<close> walks the token stream of a \<open>json.Decoder\<close>; here it walks the tree of the same tokens.
  Both passes of the source refuse a text that is not JSON, so only the choice between two errors of
  one text depends on the order of the passes.
\<close>

fun readUniqueKeys :: "string list \<Rightarrow> string list \<Rightarrow> unit result" where
  "readUniqueKeys keys [] = Inr ()"
| "readUniqueKeys keys (key # rest) =
     (if key \<in> set keys then Inl (Errorf ''duplicate object key'') else readUniqueKeys (key # keys) rest)"

fun first_error :: "unit result list \<Rightarrow> unit result" where
  "first_error [] = Inr ()"
| "first_error (r # rs) = bind_res r (\<lambda>_. first_error rs)"

primrec validateTokens :: "any_value \<Rightarrow> unit result" where
  "validateTokens AnyNil = Inr ()"
| "validateTokens (AnyBool b) = Inr ()"
| "validateTokens (AnyString s) = Inr ()"
| "validateTokens (AnyFloat64 f) = Inr ()"
| "validateTokens (AnyFloat32 f) = Inr ()"
| "validateTokens (AnyInt n) = Inr ()"
| "validateTokens (AnyInt64 n) = Inr ()"
| "validateTokens (AnyUint64 n) = Inr ()"
| "validateTokens (AnyNumber raw) = Inr ()"
| "validateTokens (AnyTime t) = Inr ()"
| "validateTokens (AnyStrings xs) = Inr ()"
| "validateTokens (AnyStringMap kvs) = Inr ()"
| "validateTokens (AnySlice xs) = first_error (map validateTokens xs)"
| "validateTokens (AnyMap kvs) =
     bind_res (first_error (map snd (map (map_prod id validateTokens) kvs))) (\<lambda>_. readUniqueKeys [] (map fst kvs))"

definition decodeJSON :: "string \<Rightarrow> any_value result" where
  "decodeJSON data =
     bind_res (validateStrings data) (\<lambda>_. case read_json True data of
       None \<Rightarrow> Inl (Errorf ''read JSON token'')
     | Some v \<Rightarrow> bind_res (validateTokens v) (\<lambda>_. Inr v))"

definition encodeRaw :: "string \<Rightarrow> string result" where
  "encodeRaw raw = bind_res (wrap_err ''canonicaljson: invalid RawMessage'' (decodeJSON raw)) encode"

section \<open>Digests\<close>

definition domains :: "string list" where
  "domains = map (\<lambda>name. ''situation-runtime/'' @ name @ ''/v1'' @ [CHR 0x0A])
     [''snapshot'', ''spec'', ''decision'', ''intent'', ''command'', ''event'', ''outcome'', ''situation-state'',
      ''envelope'', ''prompt'', ''objective'', ''diagnosis-catalog'', ''intent-catalog'', ''approval-assertion'',
      ''policy'', ''capability-catalog'', ''shadow-comparison'', ''event-schemas'', ''playbook'']"

definition Seal :: "string \<Rightarrow> any_value \<Rightarrow> (string \<times> string) result" where
  "Seal domain v =
     (if domain = [] then Inl (Errorf ''canonicaljson: empty digest domain'')
      else bind_res (Marshal v) (\<lambda>canonical. Inr (canonical, sha256 (domain @ canonical))))"

definition DigestSum :: "string \<Rightarrow> any_value \<Rightarrow> string result" where
  "DigestSum domain v = bind_res (Seal domain v) (\<lambda>(_, sum). Inr sum)"

definition Digest :: "string \<Rightarrow> any_value \<Rightarrow> string result" where
  "Digest domain v = bind_res (DigestSum domain v) (\<lambda>sum. Inr (EncodeDigest sum))"

definition VerifySum :: "string \<Rightarrow> any_value \<Rightarrow> string \<Rightarrow> bool" where
  "VerifySum domain v digest = (case DigestSum domain v of
     Inl _ \<Rightarrow> False
   | Inr expected \<Rightarrow> length expected = length digest \<and> expected = digest)"

definition Verify :: "string \<Rightarrow> any_value \<Rightarrow> string \<Rightarrow> bool" where
  "Verify domain v digest = (case Digest domain v of
     Inl _ \<Rightarrow> False
   | Inr expected \<Rightarrow> length expected = length digest \<and> expected = digest)"

section \<open>Stored documents\<close>

definition Sum :: "string \<Rightarrow> string" where
  "Sum data = sha256 data"

definition ContentDigest :: "string \<Rightarrow> string" where
  "ContentDigest data = EncodeDigest (Sum data)"

definition HasSumLength :: "string \<Rightarrow> bool" where
  "HasSumLength b \<longleftrightarrow> length b = 32"

definition checkCanonical :: "string \<Rightarrow> unit result" where
  "checkCanonical data = (case json_unmarshal data of
     None \<Rightarrow> Inl (Errorf ''stored JSON is invalid'')
   | Some value \<Rightarrow> (case Marshal value of
       Inl _ \<Rightarrow> Inl (Errorf ''stored JSON is not canonical'')
     | Inr canonical \<Rightarrow> if canonical \<noteq> data then Inl (Errorf ''stored JSON is not canonical'') else Inr ()))"

definition VerifyStored :: "string \<Rightarrow> string \<Rightarrow> unit result" where
  "VerifyStored data digest =
     (if \<not> HasSumLength digest then Inl (Errorf ''stored digest length'')
      else bind_res (checkCanonical data) (\<lambda>_.
        if Sum data \<noteq> digest then Inl (Errorf ''stored JSON digest mismatch'') else Inr ()))"

end
