(* ===== verification/Situations.thy ===== *)
theory Situations
  imports Operators Go_Effect Canonical_JSON
begin

text \<open>
  The situation engine (\<^verbatim>\<open>internal/situations/internal/domain\<close>: \<^verbatim>\<open>situations.go\<close>, \<^verbatim>\<open>evaluate.go\<close>,
  \<^verbatim>\<open>materialize.go\<close>, \<^verbatim>\<open>reducers.go\<close>): one situation per entity of a partition, fed by operator features,
  moved through the phases of the specification and published as numbered versions.

  \<^item> The engine keeps its situations in an association list under \<open>situationKey\<close>. A method that changes
    a situation through its pointer is an operation of \<open>Go_Effect\<close> on the situation and the program
    cache: what it changed before an error stays changed.
  \<^item> The CEL library is a parameter: an environment compiles an expression to an AST and an AST to a
    program. Of a program's output the source sees only what \<open>ConvertToNative(bool)\<close> gives for it, so
    that stands for the output. The snapshot's compiled JSON schema is the parameter \<open>schema\<close>.
  \<^item> A nil map and an empty map behave alike in this code (\<open>Restore\<close> replaces nil maps before anything
    writes to them), so both are the empty list.
  \<^item> Version numbers are Go \<open>int\<close>s counted from 0 by one; they are unbounded integers here.
\<close>

section \<open>The specification of a situation\<close>

record spec_phase =
  ph_Name :: string
  ph_Severity :: int

record spec_transition =
  tr_From :: string
  tr_To :: string
  tr_When :: string
  tr_MinDuration :: string

record spec_reducer =
  rd_Field :: string
  rd_Strategy :: string
  rd_Input :: string
  rd_Limit :: int

record spec_occurrence =
  oc_OpenWhen :: string
  oc_CloseWhen :: string
  oc_ReopenCooldown :: string

record spec_situation =
  ss_Type :: string
  ss_Occurrence :: spec_occurrence
  ss_InitialPhase :: string
  ss_Phases :: "spec_phase list"
  ss_Transitions :: "spec_transition list"
  ss_Reducers :: "spec_reducer list"

record situation_spec = compiled_spec +
  cs_Situation :: spec_situation
  cs_Digest :: string

section \<open>The CEL library\<close>

type_synonym cel_output = "any_value result"
type_synonym cel_program = "document \<Rightarrow> cel_output result"
type_synonym cel_ast = string

record cel_env =
  ce_Compile :: "string \<Rightarrow> cel_ast result"
  ce_Program :: "cel_ast \<Rightarrow> cel_program result"

type_synonym programs = "(string \<times> cel_program) list"

definition CELBool :: "cel_output \<Rightarrow> bool result" where
  "CELBool out = bind_res (wrap_err ''cel result not bool'' out) (\<lambda>v. case v of
     AnyBool b \<Rightarrow> Inr b
   | _ \<Rightarrow> Inl (Errorf ''cel result not bool''))"

section \<open>Situations and versions\<close>

record situation =
  st_SituationID :: string
  st_TenantID :: string
  st_DeploymentID :: string
  st_Type :: string
  st_EntityType :: string
  st_EntityID :: string
  st_PartitionID :: int
  st_OccurrenceID :: string
  st_Version :: int
  st_Phase :: string
  st_PreviousPhase :: string
  st_Severity :: int
  st_Confidence :: float64
  st_Completeness :: string
  st_FirstEventTime :: time
  st_LatestEventTime :: time
  st_Facts :: document
  st_Evidence :: "string list"
  st_Inputs :: "(string \<times> string) list"
  st_ConditionStart :: "(string \<times> time) list"
  st_OpenedAt :: time
  st_ResolvedAt :: time
  st_UpdatedAt :: time
  st_Traceparent :: string
  st_Tracestate :: string

record situation_version =
  sv_SituationID :: string
  sv_Type :: string
  sv_Version :: int
  sv_PreviousVersion :: int
  sv_Phase :: string
  sv_PreviousPhase :: string
  sv_Severity :: int
  sv_Confidence :: float64
  sv_Completeness :: string
  sv_EntityType :: string
  sv_EntityID :: string
  sv_EventHorizon :: time
  sv_Watermark :: time
  sv_Traceparent :: string
  sv_Tracestate :: string
  sv_OccurrenceID :: string
  sv_FirstEventTime :: time
  sv_UpdatedAt :: time
  sv_ConditionStart :: "(string \<times> time) list"
  sv_StateJSON :: string
  sv_StateSHA256 :: string
  sv_Facts :: document
  sv_Evidence :: "string list"
  sv_SnapshotJSON :: string
  sv_SnapshotSHA256 :: string

type_synonym situation_key = "int \<times> string \<times> string"

record situation_engine =
  se_deploymentID :: string
  se_tenantID :: string
  se_partitionID :: int
  se_spec :: situation_spec
  se_idGen :: "nat \<Rightarrow> string"
  se_celEnv :: cel_env
  se_programs :: programs
  se_active :: "(situation_key \<times> situation) list"

definition NewEngine ::
  "string \<Rightarrow> string \<Rightarrow> int \<Rightarrow> situation_spec \<Rightarrow> (nat \<Rightarrow> string) \<Rightarrow> cel_env result \<Rightarrow> situation_engine result" where
  "NewEngine deploymentID tenantID partitionID compiled idGen newCELEnv =
     bind_res (wrap_err ''cel env'' newCELEnv) (\<lambda>env.
       Inr \<lparr>se_deploymentID = deploymentID, se_tenantID = tenantID, se_partitionID = partitionID,
            se_spec = compiled, se_idGen = idGen, se_celEnv = env, se_programs = [], se_active = []\<rparr>)"

definition key_of_situation :: "situation \<Rightarrow> situation_key" where
  "key_of_situation s = (st_PartitionID s, st_EntityType s, st_EntityID s)"

definition Restore :: "situation \<Rightarrow> situation_engine \<Rightarrow> unit result \<times> situation_engine" where
  "Restore s e =
     (if st_SituationID s = '''' \<or> st_EntityType s = '''' \<or> st_EntityID s = ''''
      then (Inl (Errorf ''restore situation requires identity''), e)
      else (Inr (), e\<lparr>se_active := AList.update (key_of_situation s) s (se_active e)\<rparr>))"

definition Reset :: "situation_engine \<Rightarrow> situation_engine" where
  "Reset e = e\<lparr>se_active := []\<rparr>"

section \<open>Evaluation\<close>

type_synonym 'a eval = "(situation \<times> programs, 'a) op"

definition on_sit :: "(situation \<Rightarrow> situation) \<Rightarrow> unit eval" where
  "on_sit f = op_modify (apfst f)"

definition with_sit :: "(situation \<Rightarrow> 'a eval) \<Rightarrow> 'a eval" where
  "with_sit m st = m (fst st) st"

record evaluation_inputs =
  ei_features :: document
  ei_situation :: document
  ei_eventTime :: time
  ei_watermark :: time

definition PhaseResolved :: string where
  "PhaseResolved = ''resolved''"

definition compileProgram :: "situation_engine \<Rightarrow> string \<Rightarrow> cel_program result" where
  "compileProgram e expr =
     bind_res (wrap_err ''compile cel'' (ce_Compile (se_celEnv e) expr)) (\<lambda>ast.
       wrap_err ''program cel'' (ce_Program (se_celEnv e) ast))"

definition cel_program_for :: "situation_engine \<Rightarrow> string \<Rightarrow> cel_program eval" where
  "cel_program_for e expr st = (case map_of (snd st) expr of
     Some cached \<Rightarrow> (Inr cached, st)
   | None \<Rightarrow> (case compileProgram e expr of
       Inl err \<Rightarrow> (Inl err, st)
     | Inr prg \<Rightarrow> (Inr prg, apsnd (AList.update expr prg) st)))"

definition evalBool :: "situation_engine \<Rightarrow> string \<Rightarrow> evaluation_inputs \<Rightarrow> bool eval" where
  "evalBool e expr inp =
     (if expr = '''' then op_return False
      else op_bind (cel_program_for e expr) (\<lambda>prg.
        op_lift (bind_res (wrap_err ''eval cel''
          (prg [(''features'', AnyMap (ei_features inp)), (''situation'', AnyMap (ei_situation inp))])) CELBool)))"

definition phase_severity :: "spec_phase list \<Rightarrow> string \<Rightarrow> int" where
  "phase_severity phases name = (case find (\<lambda>p. ph_Name p = name) phases of Some p \<Rightarrow> ph_Severity p | None \<Rightarrow> 0)"

definition initialSeverity :: "situation_engine \<Rightarrow> int" where
  "initialSeverity e = phase_severity (ss_Phases (cs_Situation (se_spec e))) (ss_InitialPhase (cs_Situation (se_spec e)))"

definition severityForPhase :: "situation_engine \<Rightarrow> string \<Rightarrow> int" where
  "severityForPhase e phase = phase_severity (ss_Phases (cs_Situation (se_spec e))) phase"

text \<open>\<open>transition\<close>: whether the phase changed, and the situation after.\<close>

definition moved_to :: "situation_engine \<Rightarrow> string \<Rightarrow> evaluation_inputs \<Rightarrow> situation \<Rightarrow> situation" where
  "moved_to e to inp sit =
     (let s1 = sit\<lparr>st_Phase := to, st_Severity := severityForPhase e to, st_ConditionStart := []\<rparr>
      in if to = PhaseResolved then s1\<lparr>st_ResolvedAt := ei_eventTime inp\<rparr> else s1)"

definition transition_to :: "situation_engine \<Rightarrow> string \<Rightarrow> evaluation_inputs \<Rightarrow> bool eval" where
  "transition_to e to inp = with_sit (\<lambda>sit.
     if st_Phase sit = to then op_return False
     else op_bind (on_sit (moved_to e to inp)) (\<lambda>_. op_return True))"

definition closesThroughTransitions :: "situation_engine \<Rightarrow> bool" where
  "closesThroughTransitions e \<longleftrightarrow>
     list_ex (\<lambda>tr. tr_To tr = PhaseResolved) (ss_Transitions (cs_Situation (se_spec e)))"

definition occurrenceOpen :: "situation_engine \<Rightarrow> situation \<Rightarrow> bool" where
  "occurrenceOpen e sit \<longleftrightarrow>
     (let notYetOpened = (st_Version sit = 0 \<and> st_Phase sit = ss_InitialPhase (cs_Situation (se_spec e)))
      in \<not> notYetOpened \<and> st_Phase sit \<noteq> PhaseResolved)"

definition closeOccurrence :: "situation_engine \<Rightarrow> evaluation_inputs \<Rightarrow> bool eval" where
  "closeOccurrence e inp = with_sit (\<lambda>sit.
     if closesThroughTransitions e \<or> \<not> occurrenceOpen e sit then op_return False
     else op_bind (evalBool e (oc_CloseWhen (ss_Occurrence (cs_Situation (se_spec e)))) inp) (\<lambda>closed.
       if \<not> closed then op_return False else transition_to e PhaseResolved inp))"

definition optionalMinDuration :: "string \<Rightarrow> duration result" where
  "optionalMinDuration txt = (if txt = '''' then Inr 0 else wrap_err ''parse duration'' (ParseDuration txt))"

definition conditionStart :: "string \<Rightarrow> time \<Rightarrow> time eval" where
  "conditionStart key eventTime = with_sit (\<lambda>sit.
     let start = (case map_of (st_ConditionStart sit) key of Some t \<Rightarrow> t | None \<Rightarrow> 0)
     in if is_zero_time start
        then op_bind (on_sit (\<lambda>s. s\<lparr>st_ConditionStart := AList.update key eventTime (st_ConditionStart s)\<rparr>))
               (\<lambda>_. op_return eventTime)
        else op_return start)"

definition transition_key :: "spec_transition \<Rightarrow> string" where
  "transition_key tr = tr_From tr @ ''->'' @ tr_To tr"

definition applyTransition :: "situation_engine \<Rightarrow> spec_transition \<Rightarrow> evaluation_inputs \<Rightarrow> bool eval" where
  "applyTransition e tr inp =
     op_bind (evalBool e (tr_When tr) inp) (\<lambda>held.
       if \<not> held
       then op_bind (on_sit (\<lambda>s. s\<lparr>st_ConditionStart := AList.delete (transition_key tr) (st_ConditionStart s)\<rparr>))
              (\<lambda>_. op_return False)
       else op_bind (op_lift (wrap_err ''transition minDuration'' (optionalMinDuration (tr_MinDuration tr)))) (\<lambda>minDuration.
            op_bind (conditionStart (transition_key tr) (ei_eventTime inp)) (\<lambda>start.
              if minDuration \<le> time_sub (ei_eventTime inp) start then transition_to e (tr_To tr) inp
              else op_return False)))"

fun apply_transitions :: "situation_engine \<Rightarrow> evaluation_inputs \<Rightarrow> spec_transition list \<Rightarrow> bool \<Rightarrow> bool eval" where
  "apply_transitions e inp [] changed = op_return changed"
| "apply_transitions e inp (tr # trs) changed = with_sit (\<lambda>sit.
     if tr_From tr \<noteq> st_Phase sit then apply_transitions e inp trs changed
     else op_bind (applyTransition e tr inp) (\<lambda>moved. apply_transitions e inp trs (changed \<or> moved)))"

definition applyTransitions :: "situation_engine \<Rightarrow> evaluation_inputs \<Rightarrow> bool eval" where
  "applyTransitions e inp = apply_transitions e inp (ss_Transitions (cs_Situation (se_spec e))) False"

definition nul :: string where
  "nul = [CHR 0x00]"

definition nextOccurrenceID :: "string \<Rightarrow> int \<Rightarrow> string" where
  "nextOccurrenceID situationID version =
     ''occ_'' @ hex_encode (Sum (situationID @ nul @ ''occurrence'' @ nul @ show_int version))"

definition startNextOccurrence :: "situation_engine \<Rightarrow> time \<Rightarrow> situation \<Rightarrow> situation" where
  "startNextOccurrence e eventTime sit =
     sit\<lparr>st_OccurrenceID := nextOccurrenceID (st_SituationID sit) (st_Version sit + 1),
         st_Phase := ss_InitialPhase (cs_Situation (se_spec e)), st_Severity := initialSeverity e,
         st_FirstEventTime := eventTime, st_OpenedAt := eventTime, st_ResolvedAt := 0, st_ConditionStart := []\<rparr>"

definition reopenOccurrence :: "situation_engine \<Rightarrow> evaluation_inputs \<Rightarrow> bool eval" where
  "reopenOccurrence e inp =
     op_bind (op_lift (wrap_err ''occurrence reopenCooldown''
         (optionalMinDuration (oc_ReopenCooldown (ss_Occurrence (cs_Situation (se_spec e))))))) (\<lambda>cooldown.
       with_sit (\<lambda>sit.
         if time_sub (ei_eventTime inp) (st_ResolvedAt sit) < cooldown then op_return False
         else op_bind (evalBool e (oc_OpenWhen (ss_Occurrence (cs_Situation (se_spec e)))) inp) (\<lambda>opened.
           if \<not> opened then op_return False
           else op_bind (on_sit (startNextOccurrence e (ei_eventTime inp))) (\<lambda>_. op_return True))))"

definition openOccurrence :: "situation_engine \<Rightarrow> evaluation_inputs \<Rightarrow> bool eval" where
  "openOccurrence e inp = with_sit (\<lambda>sit.
     if st_Version sit = 0 \<and> st_Phase sit = ss_InitialPhase (cs_Situation (se_spec e))
     then evalBool e (oc_OpenWhen (ss_Occurrence (cs_Situation (se_spec e)))) inp
     else if st_Phase sit = PhaseResolved then reopenOccurrence e inp
     else op_return False)"

definition advanceLifecycle :: "situation_engine \<Rightarrow> evaluation_inputs \<Rightarrow> bool eval" where
  "advanceLifecycle e inp =
     op_bind (closeOccurrence e inp) (\<lambda>closed.
     op_bind (applyTransitions e inp) (\<lambda>transitioned.
     op_bind (openOccurrence e inp) (\<lambda>opened.
       op_return (closed \<or> transitioned \<or> opened))))"


section \<open>What the expressions see\<close>

definition addReducedFeature :: "document \<Rightarrow> string list \<Rightarrow> spec_reducer \<Rightarrow> document \<Rightarrow> document" where
  "addReducedFeature facts evidence r features =
     (if rd_Strategy r = ''latest_event_time'' then
        (case map_of facts (rd_Field r) of
           None \<Rightarrow> features
         | Some v \<Rightarrow> if v = AnyNil then features else AList.update (rd_Input r) v features)
      else if rd_Strategy r = ''set_union'' then AList.update (rd_Field r) (AnyStrings evidence) features
      else features)"

definition addOperatorDefault :: "spec_operator \<Rightarrow> document \<Rightarrow> document" where
  "addOperatorDefault op features =
     (if map_of features (op_Output op) \<noteq> None then features
      else if op_Kind op = ''missing_heartbeat'' then AList.update (op_Output op) (AnyBool False) features
      else AList.update (op_Output op) (AnyFloat64 (Finite 0)) features)"

definition addOperatorDefaults :: "document \<Rightarrow> spec_operator list \<Rightarrow> document" where
  "addOperatorDefaults features ops = fold addOperatorDefault ops features"

definition CELFeatures :: "situation_spec \<Rightarrow> document \<Rightarrow> string list \<Rightarrow> document" where
  "CELFeatures compiled facts evidence =
     addOperatorDefaults (fold (addReducedFeature facts evidence) (ss_Reducers (cs_Situation compiled)) [])
       (cs_Operators compiled)"

definition sortedEvidenceIDs :: "situation \<Rightarrow> string list" where
  "sortedEvidenceIDs sit = sort (st_Evidence sit)"

definition buildFeaturesMap :: "situation_engine \<Rightarrow> situation \<Rightarrow> document" where
  "buildFeaturesMap e sit = CELFeatures (se_spec e) (st_Facts sit) (sortedEvidenceIDs sit)"

definition buildSituationMap :: "situation \<Rightarrow> document" where
  "buildSituationMap sit =
     [(''phase'', AnyString (st_Phase sit)), (''severity'', AnyInt (st_Severity sit)),
      (''confidence'', AnyFloat64 (st_Confidence sit)),
      (''entity'', AnyMap [(''type'', AnyString (st_EntityType sit)), (''id'', AnyString (st_EntityID sit))])]"

section \<open>Materialisation\<close>

definition DomainSnapshot :: string where
  "DomainSnapshot = ''situation-runtime/snapshot/v1'' @ [CHR 0x0A]"

definition DomainSituationState :: string where
  "DomainSituationState = ''situation-runtime/situation-state/v1'' @ [CHR 0x0A]"

definition checkSpecDigest :: "situation_engine \<Rightarrow> unit result" where
  "checkSpecDigest e =
     (if cs_Digest (se_spec e) = '''' then Inl (Errorf ''compiled spec has no digest'')
      else bind_res (wrap_err ''invalid spec digest'' (DecodeDigest (cs_Digest (se_spec e)))) (\<lambda>_. Inr ()))"

definition publishedFacts :: "situation \<Rightarrow> document" where
  "publishedFacts sit = filter (\<lambda>kv. \<not> has_suffix (fst kv) ''_event_time'') (st_Facts sit)"

definition publicationVersion :: "situation \<Rightarrow> time \<Rightarrow> situation_version" where
  "publicationVersion sit watermark =
     \<lparr>sv_SituationID = st_SituationID sit, sv_Type = st_Type sit, sv_Version = st_Version sit,
      sv_PreviousVersion = st_Version sit - 1, sv_Phase = st_Phase sit, sv_PreviousPhase = st_PreviousPhase sit,
      sv_Severity = st_Severity sit, sv_Confidence = st_Confidence sit, sv_Completeness = st_Completeness sit,
      sv_EntityType = st_EntityType sit, sv_EntityID = st_EntityID sit, sv_EventHorizon = st_LatestEventTime sit,
      sv_Watermark = watermark, sv_Traceparent = st_Traceparent sit, sv_Tracestate = st_Tracestate sit,
      sv_OccurrenceID = st_OccurrenceID sit, sv_FirstEventTime = st_FirstEventTime sit,
      sv_UpdatedAt = st_UpdatedAt sit, sv_ConditionStart = st_ConditionStart sit, sv_StateJSON = [],
      sv_StateSHA256 = '''', sv_Facts = publishedFacts sit, sv_Evidence = sortedEvidenceIDs sit,
      sv_SnapshotJSON = [], sv_SnapshotSHA256 = ''''\<rparr>"

definition snapshotDocument ::
  "situation_engine \<Rightarrow> situation \<Rightarrow> document \<Rightarrow> string list \<Rightarrow> time \<Rightarrow> document" where
  "snapshotDocument e sit facts evidenceIDs watermark =
     [(''situation_id'', AnyString (st_SituationID sit)), (''situation_version'', AnyInt (st_Version sit)),
      (''situation_type'', AnyString (st_Type sit)), (''tenant_id'', AnyString (st_TenantID sit)),
      (''entity'', AnyMap [(''type'', AnyString (st_EntityType sit)), (''id'', AnyString (st_EntityID sit))]),
      (''partition_id'', AnyInt (st_PartitionID sit)), (''phase'', AnyString (st_Phase sit)),
      (''previous_phase'', AnyString (st_PreviousPhase sit)), (''severity'', AnyInt (st_Severity sit)),
      (''confidence'', AnyFloat64 (st_Confidence sit)), (''completeness'', AnyString (st_Completeness sit)),
      (''facts'', AnyMap facts), (''evidence'', AnySlice (map AnyString evidenceIDs)),
      (''event_horizon'', AnyString (FormatTime (st_LatestEventTime sit))),
      (''watermark'', AnyString (FormatTime watermark)), (''spec_digest'', AnyString (cs_Digest (se_spec e)))]"

definition validateContract :: "(document \<Rightarrow> unit result) \<Rightarrow> string \<Rightarrow> document \<Rightarrow> unit result" where
  "validateContract schema name document = wrap_err (''validate '' @ name) (schema document)"

definition snapshot ::
  "(document \<Rightarrow> unit result) \<Rightarrow> situation_engine \<Rightarrow> situation \<Rightarrow> document \<Rightarrow> string list \<Rightarrow> time \<Rightarrow> (string \<times> string) result" where
  "snapshot schema e sit facts evidenceIDs watermark =
     (let doc = snapshotDocument e sit facts evidenceIDs watermark
      in bind_res (wrap_err ''validate snapshot'' (validateContract schema ''snapshot'' doc)) (\<lambda>_.
         bind_res (wrap_err ''seal snapshot'' (Seal DomainSnapshot (AnyMap doc))) (\<lambda>(snapshotJSON, sum).
           Inr (snapshotJSON, EncodeDigest sum))))"

fun state_fact :: "any_value \<Rightarrow> any_value" where
  "state_fact (AnyTime t) = AnyString (FormatTime t)"
| "state_fact v = v"

definition stateFacts :: "situation \<Rightarrow> document" where
  "stateFacts sit = map (map_prod id state_fact) (st_Facts sit)"

definition stateConditionStart :: "situation \<Rightarrow> (string \<times> string) list" where
  "stateConditionStart sit = map (map_prod id FormatTime) (st_ConditionStart sit)"

definition stateInputs :: "(string \<times> string) list \<Rightarrow> document" where
  "stateInputs inputs = map (map_prod id AnyString) inputs"

definition addLifecycleState :: "situation \<Rightarrow> document \<Rightarrow> document" where
  "addLifecycleState sit doc =
     (let d1 = (if st_Inputs sit \<noteq> [] then AList.update ''inputs'' (AnyMap (stateInputs (st_Inputs sit))) doc else doc)
      in if \<not> is_zero_time (st_ResolvedAt sit)
         then AList.update ''resolved_at'' (AnyString (FormatTime (st_ResolvedAt sit))) d1 else d1)"

text \<open>
  Evidence without entries is the nil slice, written as \<open>null\<close>; an empty slice that is not nil, as a restore of
  \<open>[]\<close> would leave it, is not told apart from it.
\<close>

definition stateDocument :: "situation \<Rightarrow> document \<Rightarrow> string list \<Rightarrow> (string \<times> string) list \<Rightarrow> document" where
  "stateDocument sit facts evidence conditionStarts =
     addLifecycleState sit
       [(''situation_id'', AnyString (st_SituationID sit)), (''occurrence_id'', AnyString (st_OccurrenceID sit)),
        (''partition_id'', AnyInt (st_PartitionID sit)), (''version'', AnyInt (st_Version sit)),
        (''facts'', AnyMap facts), (''evidence'', AnyStrings evidence),
        (''condition_start'', AnyStringMap conditionStarts),
        (''traceparent'', AnyString (st_Traceparent sit)), (''tracestate'', AnyString (st_Tracestate sit))]"

definition stateJSON :: "situation \<Rightarrow> string result" where
  "stateJSON sit = wrap_err ''marshal situation state''
     (Marshal (AnyMap (stateDocument sit (stateFacts sit) (st_Evidence sit) (stateConditionStart sit))))"

text \<open>\<open>json.Unmarshal\<close> into a \<open>map[string]any\<close>: \<open>null\<close> leaves it nil.\<close>

definition unmarshal_map :: "string \<Rightarrow> document option" where
  "unmarshal_map blob = (case json_unmarshal blob of
     Some (AnyMap d) \<Rightarrow> Some d
   | Some AnyNil \<Rightarrow> Some []
   | _ \<Rightarrow> None)"

definition persistedState :: "situation \<Rightarrow> (string \<times> string) result" where
  "persistedState sit =
     bind_res (wrap_err ''marshal persisted state'' (stateJSON sit)) (\<lambda>stateBlob. case unmarshal_map stateBlob of
       None \<Rightarrow> Inl (Errorf ''decode persisted state'')
     | Some doc \<Rightarrow> bind_res (wrap_err ''digest persisted state'' (Digest DomainSituationState (AnyMap doc))) (\<lambda>digest.
         Inr (stateBlob, digest)))"

definition materialize ::
  "(document \<Rightarrow> unit result) \<Rightarrow> situation_engine \<Rightarrow> situation \<Rightarrow> time \<Rightarrow> situation_version result" where
  "materialize schema e sit watermark =
     bind_res (checkSpecDigest e) (\<lambda>_.
       let version = publicationVersion sit watermark
       in bind_res (snapshot schema e sit (sv_Facts version) (sv_Evidence version) watermark) (\<lambda>(snapshotJSON, snapshotDigest).
          bind_res (persistedState sit) (\<lambda>(stateBlob, stateDigest).
            Inr (version\<lparr>sv_SnapshotJSON := snapshotJSON, sv_SnapshotSHA256 := snapshotDigest,
                         sv_StateJSON := stateBlob, sv_StateSHA256 := stateDigest\<rparr>))))"

definition stateDigest :: "string \<Rightarrow> string result" where
  "stateDigest blob = (case unmarshal_map blob of
     None \<Rightarrow> Inl (Errorf ''decode current state'')
   | Some doc \<Rightarrow> wrap_err ''digest current state'' (Digest DomainSituationState (AnyMap doc)))"

text \<open>\<open>CurrentState\<close> works on a clone; a value needs none.\<close>

definition CurrentState ::
  "situation_engine \<Rightarrow> int \<Rightarrow> string \<Rightarrow> string \<Rightarrow> (situation \<times> string \<times> string) option result" where
  "CurrentState e partitionID entityType entityID = (case map_of (se_active e) (partitionID, entityType, entityID) of
     None \<Rightarrow> Inr None
   | Some sit \<Rightarrow> bind_res (stateJSON sit) (\<lambda>blob.
       bind_res (stateDigest blob) (\<lambda>digest. Inr (Some (sit, blob, digest)))))"


section \<open>Reducing features\<close>

definition recordInputCompleteness :: "feature \<Rightarrow> situation \<Rightarrow> bool \<times> situation" where
  "recordInputCompleteness f sit =
     (if f_Completeness f = '''' then (False, sit)
      else let inputs = AList.update (f_OutputName f) (f_Completeness f) (st_Inputs sit);
               wasUncertain = (st_Completeness sit = CompletenessUncertain);
               sit1 = sit\<lparr>st_Inputs := inputs, st_Completeness := Weakest (map snd inputs)\<rparr>;
               isUncertain = (st_Completeness sit1 = CompletenessUncertain)
           in (wasUncertain \<noteq> isUncertain \<or> f_Completeness f = CompletenessCorrected, sit1))"

definition recordTimerProvenance :: "document \<Rightarrow> situation \<Rightarrow> situation" where
  "recordTimerProvenance metadata sit =
     (if metadata = [] then sit
      else sit\<lparr>st_Facts := AList.update ''timer_provenance'' (AnyMap metadata) (st_Facts sit)\<rparr>)"

fun as_time :: "any_value option \<Rightarrow> time" where
  "as_time (Some (AnyTime t)) = t"
| "as_time _ = 0"

definition keepLatestFact :: "string \<Rightarrow> feature \<Rightarrow> situation \<Rightarrow> situation" where
  "keepLatestFact field f sit =
     (let currentTime = as_time (map_of (st_Facts sit) (field @ ''_event_time''))
      in if map_of (st_Facts sit) field = None \<or> currentTime < f_EventTime f
         then sit\<lparr>st_Facts := AList.update (field @ ''_event_time'') (AnyTime (f_EventTime f))
                              (AList.update field (f_Value f) (st_Facts sit))\<rparr>
         else sit)"

definition MaxEvidence :: int where
  "MaxEvidence = 4096"

definition evidenceLimit :: "int \<Rightarrow> int" where
  "evidenceLimit declared = (if declared \<le> 0 \<or> declared > MaxEvidence then MaxEvidence else declared)"

fun newEvidenceBatch :: "string list \<Rightarrow> string list \<Rightarrow> string list" where
  "newEvidenceBatch order [] = order"
| "newEvidenceBatch order (eventID # eventIDs) =
     (if eventID \<in> set order then newEvidenceBatch order eventIDs else newEvidenceBatch (order @ [eventID]) eventIDs)"

definition keepNewest :: "string list \<Rightarrow> int \<Rightarrow> string list" where
  "keepNewest evidence limit =
     (let excess = int (length evidence) - limit in if excess > 0 then drop (nat excess) evidence else evidence)"

definition addEvidence :: "string list \<Rightarrow> int \<Rightarrow> situation \<Rightarrow> situation" where
  "addEvidence eventIDs limit sit =
     (let batch = newEvidenceBatch [] eventIDs;
          merged = filter (\<lambda>eventID. eventID \<notin> set batch) (st_Evidence sit) @ batch
      in sit\<lparr>st_Evidence := keepNewest merged limit\<rparr>)"

definition applyReducer :: "feature \<Rightarrow> spec_reducer \<Rightarrow> situation \<Rightarrow> situation" where
  "applyReducer f r sit =
     (if rd_Input r \<noteq> f_OutputName f then sit
      else if rd_Strategy r = ''latest_event_time'' then keepLatestFact (rd_Field r) f sit
      else if rd_Strategy r = ''set_union'' then addEvidence (f_InputEventIDs f) (evidenceLimit (rd_Limit r)) sit
      else sit)"

definition applyReducers :: "situation_engine \<Rightarrow> feature \<Rightarrow> situation \<Rightarrow> situation" where
  "applyReducers e f sit = fold (applyReducer f) (ss_Reducers (cs_Situation (se_spec e))) sit"

definition applyFeatureEvidence :: "situation_engine \<Rightarrow> feature \<Rightarrow> situation \<Rightarrow> bool \<times> situation" where
  "applyFeatureEvidence e f sit =
     (let (completenessMatters, s1) = recordInputCompleteness f sit;
          s2 = applyReducers e f s1;
          s3 = recordTimerProvenance (f_Metadata f) s2;
          s4 = (if st_LatestEventTime s3 < f_EventTime f then s3\<lparr>st_LatestEventTime := f_EventTime f\<rparr> else s3);
          s5 = (if f_Traceparent f \<noteq> '''' \<or> \<not> f_TraceContinuation f
                then s4\<lparr>st_Traceparent := f_Traceparent f, st_Tracestate := f_Tracestate f\<rparr> else s4)
      in (completenessMatters, s5))"

section \<open>Applying a feature\<close>

definition publish ::
  "(document \<Rightarrow> unit result) \<Rightarrow> situation_engine \<Rightarrow> string \<Rightarrow> time \<Rightarrow> situation_version eval" where
  "publish schema e publishedPhase watermark =
     op_bind (on_sit (\<lambda>sit.
       let s1 = (if st_Phase sit \<noteq> publishedPhase then sit\<lparr>st_PreviousPhase := publishedPhase\<rparr> else sit)
       in s1\<lparr>st_Version := st_Version s1 + 1, st_UpdatedAt := watermark\<rparr>)) (\<lambda>_.
     with_sit (\<lambda>sit. op_lift (materialize schema e sit watermark)))"

definition evaluate ::
  "(document \<Rightarrow> unit result) \<Rightarrow> situation_engine \<Rightarrow> time \<Rightarrow> bool \<Rightarrow> situation_version option eval" where
  "evaluate schema e watermark completenessChanged = with_sit (\<lambda>sit.
     let inputs = \<lparr>ei_features = buildFeaturesMap e sit, ei_situation = buildSituationMap sit,
                   ei_eventTime = st_LatestEventTime sit, ei_watermark = watermark\<rparr>
     in op_bind (advanceLifecycle e inputs) (\<lambda>changed. with_sit (\<lambda>sit'.
          if \<not> changed \<and> (\<not> completenessChanged \<or> st_Version sit' = 0) then op_return None
          else op_bind (publish schema e (st_Phase sit) watermark) (\<lambda>version. op_return (Some version)))))"

definition PrefixSituation :: string where
  "PrefixSituation = ''sit_''"

definition situation_hash :: "situation_engine \<Rightarrow> situation_key \<Rightarrow> string" where
  "situation_hash e key = (case key of (partitionID, entityType, entityID) \<Rightarrow>
     hex_encode (Sum (se_tenantID e @ nul @ se_deploymentID e @ nul @ show_int partitionID @ nul
       @ ss_Type (cs_Situation (se_spec e)) @ nul @ entityType @ nul @ entityID)))"

definition newSituation :: "situation_engine \<Rightarrow> situation_key \<Rightarrow> time \<Rightarrow> situation" where
  "newSituation e key eventTime = (case key of (partitionID, entityType, entityID) \<Rightarrow>
     \<lparr>st_SituationID = PrefixSituation @ situation_hash e key, st_TenantID = se_tenantID e,
      st_DeploymentID = se_deploymentID e, st_Type = ss_Type (cs_Situation (se_spec e)), st_EntityType = entityType,
      st_EntityID = entityID, st_PartitionID = partitionID, st_OccurrenceID = ''occ_'' @ situation_hash e key,
      st_Version = 0, st_Phase = ss_InitialPhase (cs_Situation (se_spec e)), st_PreviousPhase = '''',
      st_Severity = initialSeverity e, st_Confidence = Finite 1,
      st_Completeness = CompletenessProvisional, st_FirstEventTime = eventTime, st_LatestEventTime = eventTime,
      st_Facts = [], st_Evidence = [], st_Inputs = [], st_ConditionStart = [], st_OpenedAt = eventTime,
      st_ResolvedAt = 0, st_UpdatedAt = eventTime, st_Traceparent = '''', st_Tracestate = ''''\<rparr>)"

definition feature_key :: "feature \<Rightarrow> situation_key" where
  "feature_key f = (f_PartitionID f, f_EntityType f, f_EntityID f)"

definition situationForFeature :: "situation_engine \<Rightarrow> feature \<Rightarrow> situation" where
  "situationForFeature e f = (case map_of (se_active e) (feature_key f) of
     Some sit \<Rightarrow> sit
   | None \<Rightarrow> newSituation e (feature_key f) (f_EventTime f))"

definition ApplyFeature ::
  "(document \<Rightarrow> unit result) \<Rightarrow> feature \<Rightarrow> time \<Rightarrow> (situation_engine, situation_version list) op" where
  "ApplyFeature schema f watermark e =
     (let (completenessChanged, sit) = applyFeatureEvidence e f (situationForFeature e f);
          (version, sit', programs') = evaluate schema e watermark completenessChanged (sit, se_programs e);
          e' = e\<lparr>se_programs := programs', se_active := AList.update (feature_key f) sit' (se_active e)\<rparr>
      in (case version of
            Inl err \<Rightarrow> (Inl (Wrapf ''evaluate situation'' err), e')
          | Inr None \<Rightarrow> (Inr [], e')
          | Inr (Some v) \<Rightarrow> (Inr [v], e')))"

end
