(* ===== verification/Canonical_Reading.thy ===== *)
theory Canonical_Reading
  imports Canonical_JSON
begin

text \<open>
  The JSON reader on canonical texts: every text the encoder writes for a string, a number, an array or an
  object reads back as the value it stands for. The lemmas are stated for a text followed by a rest, so
  that they compose along the structure of a document.
\<close>

section \<open>Strings\<close>

lemma hd_utf8_encode:
  assumes "scalar r" and "0x20 \<le> r" and "map_of shortEscapes r = None"
  obtains c cs where "utf8_encode r = c # cs" and "c \<noteq> CHR 0x22" and "c \<noteq> CHR 0x5C" and "0x20 \<le> byte c"
proof -
  have r: "r \<noteq> 0x22" "r \<noteq> 0x5C" using assms(3) by (auto simp: shortEscapes_def)
  have ne: "c \<noteq> CHR 0x22 \<and> c \<noteq> CHR 0x5C" if "byte c \<noteq> 0x22" "byte c \<noteq> 0x5C" for c
    using that by (auto simp: byte_def)
  define x where "x = byte (hd (utf8_encode r))"
  have "x = (if r < 0x80 then r else if r < 0x800 then 0xC0 + r div 64 else if r < 0x10000 then 0xE0 + r div 4096 else 0xF0 + r div 262144)"
    using assms(1,2) unfolding x_def utf8_encode_def scalar_def by auto
  then have x: "x \<noteq> 0x22" "x \<noteq> 0x5C" "0x20 \<le> x" using r assms(1,2) by (auto simp: scalar_def split: if_splits)
  show ?thesis
    using that[of "hd (utf8_encode r)" "tl (utf8_encode r)"] ne[of "hd (utf8_encode r)"] x by (simp add: x_def)
qed

lemma hexDigit_hex_digit: "0 \<le> d \<Longrightarrow> d < 16 \<Longrightarrow> hexDigit (hex_digit d) = Some d"
  by (auto simp: hexDigit_def hex_digit_def)

lemma unquote_control:
  assumes "0 \<le> r" and "r < 0x20"
  shows "unquote_escape (''u00'' @ [hex_digit (r div 16), hex_digit (r mod 16)] @ s) = Some (utf8_encode r, s)"
proof -
  have z: "hexDigit CHR ''0'' = Some 0" by (simp add: hexDigit_def byte_def)
  have d: "0 \<le> r div 16" "r div 16 < 16" "0 \<le> r mod 16" "r mod 16 < 16" using assms by auto
  have e: "((0 * 16 + 0) * 16 + r div 16) * 16 + r mod 16 = r" by simp
  have "parseHex4 [CHR ''0'', CHR ''0'', hex_digit (r div 16), hex_digit (r mod 16)] = Some r"
    by (simp only: parseHex4.simps z hexDigit_hex_digit[OF d(1,2)] hexDigit_hex_digit[OF d(3,4)] prod.case option.case e)
  then show ?thesis using assms(2) by (simp add: unquote_escape_def unquote_unicode_def Let_def)
qed

lemma short_escape:
  assumes "map_of shortEscapes r = Some e"
  shows "\<exists>c. e = [CHR 0x5C, c] \<and> (\<forall>s. unquote_escape (c # s) = Some (utf8_encode r, s))"
proof -
  have "list_all (\<lambda>(r, e). case e of [b, c] \<Rightarrow> b = CHR 0x5C \<and> c \<noteq> CHR ''u'' \<and> map_of escape_table c = Some (utf8_encode r)
      | _ \<Rightarrow> False) shortEscapes" by code_simp
  then have "case e of [b, c] \<Rightarrow> b = CHR 0x5C \<and> c \<noteq> CHR ''u'' \<and> map_of escape_table c = Some (utf8_encode r) | _ \<Rightarrow> False"
    using map_of_SomeD[OF assms] by (auto simp: list_all_iff)
  then show ?thesis by (auto simp: unquote_escape_def split: list.splits)
qed

lemma json_string_step:
  assumes "scalar r" and "length (writeStringRune r @ s) \<le> Suc n"
  shows "json_string (Suc n) (writeStringRune r @ s) = map_option (\<lambda>(t, q). (utf8_encode r @ t, q)) (json_string n s)"
proof (cases "map_of shortEscapes r")
  case (Some e)
  then obtain c where "e = [CHR 0x5C, c]" "\<And>s. unquote_escape (c # s) = Some (utf8_encode r, s)" using short_escape by blast
  then show ?thesis using Some by (simp add: writeStringRune_def)
next
  case None
  show ?thesis
  proof (cases "r < 0x20")
    case True
    have "unquote_escape (''u00'' @ [hex_digit (r div 16), hex_digit (r mod 16)] @ s) = Some (utf8_encode r, s)"
      using True assms(1) by (intro unquote_control) (auto simp: scalar_def)
    then show ?thesis using True None by (simp add: writeStringRune_def)
  next
    case False
    then obtain c cs where c: "utf8_encode r = c # cs" "c \<noteq> CHR 0x22" "c \<noteq> CHR 0x5C" "0x20 \<le> byte c"
      using hd_utf8_encode[OF assms(1) _ None] by auto
    have "decode_rune (c # cs @ s) = (r, length (c # cs))"
      using utf8_first_utf8_encode[OF assms(1), of s] c(1) by (simp add: decode_rune_def)
    then show ?thesis using c False None by (simp add: writeStringRune_def)
  qed
qed

lemma writeStringRune_nonempty: "writeStringRune r \<noteq> []"
  by (auto simp: writeStringRune_def shortEscapes_def split: option.splits if_splits)

lemma json_string_runes:
  assumes "list_all scalar rs" and "length (concat (map writeStringRune rs) @ CHR 0x22 # rest) \<le> n"
  shows "json_string n (concat (map writeStringRune rs) @ CHR 0x22 # rest) = Some (concat (map utf8_encode rs), rest)"
  using assms
proof (induction rs arbitrary: n)
  case Nil
  then show ?case by (cases n) auto
next
  case (Cons r rs)
  let ?s = "concat (map writeStringRune rs) @ CHR 0x22 # rest"
  obtain m where n: "n = Suc m" using Cons.prems(2) by (cases n) auto
  have "length ?s \<le> m" using Cons.prems(2) writeStringRune_nonempty[of r] by (cases "writeStringRune r") (auto simp: n)
  then have ih: "json_string m ?s = Some (concat (map utf8_encode rs), rest)" using Cons by simp
  have "json_string (Suc m) (writeStringRune r @ ?s) = map_option (\<lambda>(t, q). (utf8_encode r @ t, q)) (json_string m ?s)"
    using Cons.prems by (intro json_string_step) (simp_all add: n)
  then show ?case by (simp add: ih n)
qed

lemma read_encoded_string:
  assumes "encodeString s = Inr t"
  obtains u where "t = CHR 0x22 # u" and "\<And>rest. read_string (u @ rest) = Some (s, rest)"
proof -
  have v: "valid_utf8 s" and t: "t = [CHR 0x22] @ concat (map writeStringRune (runes s)) @ [CHR 0x22]"
    using assms by (simp_all add: encodeString_Inr)
  note r = valid_utf8_runes[OF v]
  show ?thesis
    using that[of "concat (map writeStringRune (runes s)) @ [CHR 0x22]"] json_string_runes[of "runes s"] r
    by (simp add: t read_string_def)
qed

section \<open>Numbers\<close>

definition stops :: "string \<Rightarrow> bool" where
  "stops rest \<longleftrightarrow> rest = [] \<or> hd rest \<in> {CHR '','', CHR '']'', CHR ''}''}"

lemma stops_digit [simp]:
  assumes "stops rest"
  shows "takeWhile is_digit rest = []" and "dropWhile is_digit rest = rest"
  using assms by (cases rest; auto simp: stops_def)+

lemma scan_exponent_text:
  assumes "stops rest"
  shows "scan_exponent (exponent_text e @ rest) = Some (exponent_text e, rest)"
proof (cases e)
  case None
  then show ?thesis using assms by (cases rest) (auto simp: exponent_text_def scan_exponent_def stops_def)
next
  case (Some n)
  have d: "list_all is_digit (dec_digits \<bar>n\<bar>)" "dec_digits \<bar>n\<bar> \<noteq> []" using dec_digits_digits[of "\<bar>n\<bar>"] by auto
  then show ?thesis using Some assms by (cases "0 \<le> n") (auto simp: exponent_text_def scan_exponent_def)
qed

lemma exponent_text_not_digit: "stops rest \<Longrightarrow> takeWhile is_digit (exponent_text e @ rest) = [] \<and> dropWhile is_digit (exponent_text e @ rest) = exponent_text e @ rest"
  by (cases e) (simp_all add: exponent_text_def)

lemma scan_fraction_text:
  assumes "list_all is_digit f" and "stops rest"
  shows "scan_fraction ((if f = [] then [] else CHR ''.'' # f) @ exponent_text e @ rest)
    = Some ((if f = [] then [] else CHR ''.'' # f), exponent_text e @ rest)"
proof (cases "f = []")
  case True
  have "exponent_text e @ rest = [] \<or> hd (exponent_text e @ rest) \<noteq> CHR ''.''"
    using assms(2) by (cases e; cases rest) (auto simp: exponent_text_def stops_def)
  then show ?thesis using True by (auto simp: scan_fraction_def)
next
  case False
  then show ?thesis using assms exponent_text_not_digit[OF assms(2), of e] by (simp add: scan_fraction_def)
qed

lemma scan_num_shape:
  assumes "num_shape t" and "stops rest"
  shows "scan_number (t @ rest) = Some (t, rest)" and "scan_number (CHR ''-'' # t @ rest) = Some (CHR ''-'' # t, rest)"
    and "\<exists>c cs. t = c # cs \<and> is_digit c"
proof -
  obtain w f e where t: "t = num_text w f e" and w: "w \<noteq> []" "list_all is_digit w" "w = ''0'' \<or> hd w \<noteq> CHR ''0''"
    and f: "list_all is_digit f" using assms(1) by (auto simp: num_shape_def)
  obtain c cs where c: "w = c # cs" "is_digit c" using w by (cases w) auto
  let ?tail = "(if f = [] then [] else CHR ''.'' # f) @ exponent_text e @ rest"
  have tail: "takeWhile is_digit ?tail = []" "dropWhile is_digit ?tail = ?tail"
    using exponent_text_not_digit[OF assms(2), of e] by (simp_all split: if_split)
  have whole: "scan_whole (w @ ?tail) = Some (w, ?tail)"
  proof (cases "w = ''0''")
    case True
    then show ?thesis by (simp add: scan_whole_def)
  next
    case False
    then have "c \<noteq> CHR ''0''" using w(3) c by auto
    moreover have "takeWhile is_digit (w @ ?tail) = w" "dropWhile is_digit (w @ ?tail) = ?tail"
      using w(2) tail by (simp_all only: takeWhile_digits append_Nil2)
    ultimately show ?thesis using c by (simp add: scan_whole_def)
  qed
  have rest: "t @ rest = w @ ?tail" by (simp add: t num_text_def)
  have parts: "w @ (if f = [] then [] else CHR ''.'' # f) @ exponent_text e = t" by (simp add: t num_text_def)
  have minus: "c \<noteq> CHR ''-''" using c(2) by auto
  show "scan_number (t @ rest) = Some (t, rest)"
    unfolding scan_number_def rest using whole scan_fraction_text[OF f assms(2), of e] scan_exponent_text[OF assms(2), of e] parts c minus by simp
  show "scan_number (CHR ''-'' # t @ rest) = Some (CHR ''-'' # t, rest)"
    unfolding scan_number_def rest using whole scan_fraction_text[OF f assms(2), of e] scan_exponent_text[OF assms(2), of e] parts by simp
  show "\<exists>c cs. t = c # cs \<and> is_digit c" using c by (simp add: t num_text_def)
qed


section \<open>Values\<close>

text \<open>\<open>reads m D t v\<close>, for either setting \<open>m\<close> of \<open>UseNumber\<close>: wherever the text \<open>t\<close> of a value nested \<open>D\<close> deep stands, the reader takes exactly \<open>t\<close> and
  yields \<open>v\<close>.\<close>

definition starts_value :: "string \<Rightarrow> bool" where
  "starts_value t \<longleftrightarrow> (\<exists>c cs. t = c # cs \<and> \<not> is_space c \<and> c \<noteq> CHR '']'' \<and> c \<noteq> CHR ''}'')"

definition reads :: "bool \<Rightarrow> nat \<Rightarrow> string \<Rightarrow> any_value \<Rightarrow> bool" where
  "reads m D t v \<longleftrightarrow> starts_value t \<and> (\<forall>n d rest. D \<le> d \<longrightarrow> length t < n \<longrightarrow> stops rest \<longrightarrow>
     json_value m n d (t @ rest) = Some (v, rest))"

lemma reads_mono: "reads m D t v \<Longrightarrow> D \<le> E \<Longrightarrow> reads m E t v"
  unfolding reads_def by (meson order_trans)

lemma skip_space_start: "starts_value t \<Longrightarrow> skip_space (t @ s) = t @ s"
  by (auto simp: starts_value_def skip_space_def)

lemma skip_space_punct [simp]:
  "skip_space (CHR '','' # s) = CHR '','' # s" "skip_space (CHR '']'' # s) = CHR '']'' # s"
  "skip_space (CHR ''}'' # s) = CHR ''}'' # s" "skip_space (CHR '':'' # s) = CHR '':'' # s"
  "skip_space (CHR ''{'' # s) = CHR ''{'' # s" "skip_space (CHR ''['' # s) = CHR ''['' # s"
  "skip_space (CHR 0x22 # s) = CHR 0x22 # s"
  by (simp_all add: skip_space_def is_space_def)

lemma stops_punct [simp]: "stops (CHR '','' # s)" "stops (CHR '']'' # s)" "stops (CHR ''}'' # s)" "stops []"
  by (simp_all add: stops_def)

lemma reads_literals: "reads m 0 ''null'' AnyNil" "reads m 0 ''true'' (AnyBool True)" "reads m 0 ''false'' (AnyBool False)"
  unfolding reads_def starts_value_def
  by (auto simp: is_space_def skip_space_def has_prefix_def gr0_conv_Suc elim!: less_natE)

lemma reads_string:
  assumes "encodeString s = Inr t"
  shows "reads m 0 t (AnyString s)"
proof -
  obtain u where u: "t = CHR 0x22 # u" "\<And>rest. read_string (u @ rest) = Some (s, rest)"
    using read_encoded_string[OF assms] by metis
  have "json_value m n d (t @ rest) = Some (AnyString s, rest)" if "length t < n" for n d rest
    using that u by (cases n) auto
  then show ?thesis using u(1) by (auto simp: reads_def starts_value_def is_space_def)
qed

lemma digit_dispatch:
  assumes "is_digit c \<or> c = CHR ''-''"
  shows "\<not> is_space c \<and> c \<noteq> CHR ''{'' \<and> c \<noteq> CHR ''['' \<and> c \<noteq> CHR 0x22 \<and> c \<noteq> CHR ''t'' \<and> c \<noteq> CHR ''f'' \<and> c \<noteq> CHR ''n'' \<and> c \<noteq> CHR '']'' \<and> c \<noteq> CHR ''}''"
  using assms by (auto simp: is_space_def is_digit_def)

lemma reads_number:
  assumes "ParseFloat t = Inr f" and "num_shape t \<or> (\<exists>u. t = CHR ''-'' # u \<and> num_shape u)"
  shows "reads False 0 t (AnyFloat64 f)" and "reads True 0 t (AnyNumber t)"
proof -
  have scan: "scan_number (t @ rest) = Some (t, rest)" if "stops rest" for rest
    using assms(2) scan_num_shape(1,2)[OF _ that] by auto
  obtain c cs where c: "t = c # cs" "is_digit c \<or> c = CHR ''-''"
    using assms(2) scan_num_shape(3)[of t "[]"] by auto
  note disp = digit_dispatch[OF c(2)]
  have "json_value m n d (t @ rest) = Some (if m then AnyNumber t else AnyFloat64 f, rest)"
    if n: "length t < n" and r: "stops rest" for m n d rest
  proof -
    obtain n' where m: "n = Suc n'" using n by (cases n) auto
    have sk: "skip_space (t @ rest) = c # cs @ rest" using c disp by (simp add: skip_space_def)
    have "scan_number (c # cs @ rest) = Some (t, rest)" using scan[OF r] c(1) by simp
    then show ?thesis using disp assms(1) by (simp add: m sk has_prefix_def number_value_def)
  qed
  then show "reads False 0 t (AnyFloat64 f)" "reads True 0 t (AnyNumber t)"
    using c disp by (auto simp: reads_def starts_value_def)
qed

section \<open>Arrays and objects\<close>

lemma join_comma_Cons: "ts \<noteq> [] \<Longrightarrow> join_comma (t # ts) = t @ '','' @ join_comma ts"
  by (cases ts) auto

lemma json_elements_join:
  assumes "list_all2 (reads m D) ts vs" and "ts \<noteq> []" and "D \<le> d" and "length (join_comma ts) + 1 < n"
  shows "json_elements m n d (join_comma ts @ CHR '']'' # rest) = Some (vs, rest)"
  using assms
proof (induction ts vs arbitrary: n rule: list_all2_induct)
  case (Cons t ts v vs)
  obtain n' where m: "n = Suc n'" using Cons.prems(3) by (cases n) auto
  show ?case
  proof (cases "ts = []")
    case True
    have "json_value m n' d (t @ CHR '']'' # rest) = Some (v, CHR '']'' # rest)"
      using Cons.hyps(1) Cons.prems True by (simp add: reads_def m)
    then show ?thesis using True Cons.hyps by (simp add: m)
  next
    case False
    have len: "length t < n'" "length (join_comma ts) + 1 < n'" using Cons.prems(3) False by (simp_all add: m join_comma_Cons)
    have "json_value m n' d (t @ CHR '','' # join_comma ts @ CHR '']'' # rest) = Some (v, CHR '','' # join_comma ts @ CHR '']'' # rest)"
      using Cons.hyps(1) Cons.prems(2) len by (simp add: reads_def)
    then show ?thesis using Cons.IH[OF False Cons.prems(2) len(2)] False by (simp add: m join_comma_Cons)
  qed
qed simp

lemma starts_join: "ts \<noteq> [] \<Longrightarrow> list_all starts_value ts \<Longrightarrow> starts_value (join_comma ts)"
  by (cases ts rule: join_comma.cases) (auto simp: starts_value_def)

lemma reads_array:
  assumes "list_all2 (reads m D) ts vs"
  shows "reads m (Suc D) (''['' @ join_comma ts @ '']'') (AnySlice vs)"
proof -
  have "json_value m n d (''['' @ join_comma ts @ '']'' @ rest) = Some (AnySlice vs, rest)"
    if n: "length (''['' @ join_comma ts @ '']'') < n" and d: "Suc D \<le> d" for n d rest
  proof -
    obtain n' where m: "n = Suc n'" using n by (cases n) auto
    show ?thesis
    proof (cases "ts = []")
      case True
      then show ?thesis using assms d by (simp add: m)
    next
      case False
      have "starts_value (join_comma ts)"
        using False assms by (intro starts_join) (auto simp: list_all2_conv_all_nth list_all_length reads_def)
      then obtain c cs where c: "join_comma ts = c # cs" "c \<noteq> CHR '']''" "\<not> is_space c" by (auto simp: starts_value_def)
      have "json_elements m n' (d - 1) (join_comma ts @ CHR '']'' # rest) = Some (vs, rest)"
        using n d by (intro json_elements_join[OF assms False]) (simp_all add: m)
      then show ?thesis using c d by (simp add: m skip_space_def is_space_def)
    qed
  qed
  then show ?thesis by (auto simp: reads_def starts_value_def is_space_def)
qed

definition member_text :: "string \<Rightarrow> string \<Rightarrow> string \<Rightarrow> bool" where
  "member_text k t mt \<longleftrightarrow> (\<exists>ks. encodeString k = Inr ks \<and> mt = ks @ '':'' @ t)"

lemma json_members_join:
  assumes "list_all2 (\<lambda>mt (k, v). \<exists>t. member_text k t mt \<and> reads m D t v) mts kvs" and "mts \<noteq> []" and "D \<le> d"
    and "length (join_comma mts) + 1 < n"
  shows "json_members m n d (join_comma mts @ CHR ''}'' # rest) = Some (kvs, rest)"
  using assms
proof (induction mts kvs arbitrary: n rule: list_all2_induct)
  case (Cons mt mts kv kvs)
  obtain n' where m: "n = Suc n'" using Cons.prems(3) by (cases n) auto
  obtain k v t ks where kv: "kv = (k, v)" and ks: "encodeString k = Inr ks" and mt: "mt = ks @ '':'' @ t" and r: "reads m D t v"
    using Cons.hyps(1) by (cases kv) (auto simp: member_text_def)
  obtain u where u: "ks = CHR 0x22 # u" "\<And>rest. read_string (u @ rest) = Some (k, rest)"
    using read_encoded_string[OF ks] by metis
  show ?case
  proof (cases "mts = []")
    case True
    have "json_value m n' d (t @ CHR ''}'' # rest) = Some (v, CHR ''}'' # rest)"
      using r Cons.prems True by (simp add: reads_def m mt)
    then show ?thesis using True Cons.hyps u by (simp add: m mt kv)
  next
    case False
    have len: "length t < n'" "length (join_comma mts) + 1 < n'" using Cons.prems(3) False by (simp_all add: m join_comma_Cons mt)
    have "json_value m n' d (t @ CHR '','' # join_comma mts @ CHR ''}'' # rest) = Some (v, CHR '','' # join_comma mts @ CHR ''}'' # rest)"
      using r Cons.prems(2) len by (simp add: reads_def)
    then show ?thesis using Cons.IH[OF False Cons.prems(2) len(2)] False u by (simp add: m join_comma_Cons mt kv)
  qed
qed simp

lemma reads_object:
  assumes "list_all2 (\<lambda>mt (k, v). \<exists>t. member_text k t mt \<and> reads m D t v) mts kvs"
  shows "reads m (Suc D) (''{'' @ join_comma mts @ ''}'') (AnyMap kvs)"
proof -
  have "json_value m n d (''{'' @ join_comma mts @ ''}'' @ rest) = Some (AnyMap kvs, rest)"
    if n: "length (''{'' @ join_comma mts @ ''}'') < n" and d: "Suc D \<le> d" for n d rest
  proof -
    obtain n' where m: "n = Suc n'" using n by (cases n) auto
    show ?thesis
    proof (cases "mts = []")
      case True
      then show ?thesis using assms d by (simp add: m)
    next
      case False
      have "starts_value mt" if "mt \<in> set mts" for mt
        using assms that by (fastforce simp: list_all2_conv_all_nth in_set_conv_nth member_text_def encodeString_Inr starts_value_def is_space_def)
      then have "starts_value (join_comma mts)" using False by (intro starts_join) (auto simp: list_all_iff)
      then obtain c cs where c: "join_comma mts = c # cs" "c \<noteq> CHR ''}''" "\<not> is_space c" by (auto simp: starts_value_def)
      have "json_members m n' (d - 1) (join_comma mts @ CHR ''}'' # rest) = Some (kvs, rest)"
        using n d by (intro json_members_join[OF assms False]) (simp_all add: m)
      then show ?thesis using c d by (simp add: m skip_space_def is_space_def)
    qed
  qed
  then show ?thesis by (auto simp: reads_def starts_value_def is_space_def)
qed

lemma read_json_reads:
  assumes "reads m D t v" and "D \<le> max_nesting_depth"
  shows "read_json m t = Some v"
proof -
  have "json_value m (Suc (length t)) max_nesting_depth (t @ []) = Some (v, [])"
    using assms unfolding reads_def by (metis lessI stops_punct(4))
  then show ?thesis by (simp add: read_json_def skip_space_def del: json_value.simps)
qed

end
