(* ===== verification/Canonical_Properties.thy ===== *)
theory Canonical_Properties
  imports Canonical_Reading
begin

text \<open>
  What canonical JSON promises: one text per document whatever the order of its maps and the Go types of
  its numbers, and one document per text, so that a digest over the text identifies the document and
  every stored canonical document passes its own verification.
\<close>

section \<open>The canonical form of a value\<close>

text \<open>What a document says once the Go types are forgotten: numbers are doubles, maps are sorted by key.\<close>

primrec canon :: "any_value \<Rightarrow> any_value" where
  "canon AnyNil = AnyNil"
| "canon (AnyBool b) = AnyBool b"
| "canon (AnyString s) = AnyString s"
| "canon (AnyFloat64 f) = AnyFloat64 f"
| "canon (AnyFloat32 f) = AnyFloat64 f"
| "canon (AnyInt n) = AnyFloat64 (float_of_int n)"
| "canon (AnyInt64 n) = AnyFloat64 (float_of_int n)"
| "canon (AnyUint64 n) = AnyFloat64 (float_of_int n)"
| "canon (AnyNumber raw) = (case ParseFloat raw of Inr f \<Rightarrow> AnyFloat64 f | Inl _ \<Rightarrow> AnyNil)"
| "canon (AnyTime t) = (case time_json t of Inr s \<Rightarrow> AnyString s | Inl _ \<Rightarrow> AnyNil)"
| "canon (AnyStrings xs) = (if xs = [] then AnyNil else AnySlice (map (AnyString \<circ> to_valid) xs))"
| "canon (AnyStringMap kvs) = AnyMap (sort_func compare_member (map (map_prod to_valid (AnyString \<circ> to_valid)) kvs))"
| "canon (AnySlice xs) = AnySlice (map canon xs)"
| "canon (AnyMap kvs) = AnyMap (sort_func compare_member (map (map_prod id canon) kvs))"

primrec depth :: "any_value \<Rightarrow> nat" where
  "depth AnyNil = 0"
| "depth (AnyBool b) = 0"
| "depth (AnyString s) = 0"
| "depth (AnyFloat64 f) = 0"
| "depth (AnyFloat32 f) = 0"
| "depth (AnyInt n) = 0"
| "depth (AnyInt64 n) = 0"
| "depth (AnyUint64 n) = 0"
| "depth (AnyNumber raw) = 0"
| "depth (AnyTime t) = 0"
| "depth (AnyStrings xs) = 1"
| "depth (AnyStringMap kvs) = 1"
| "depth (AnySlice xs) = Suc (foldr max (map depth xs) 0)"
| "depth (AnyMap kvs) = Suc (foldr max (map snd (map (map_prod id depth) kvs)) 0)"

text \<open>A value a Go program can hold: floats are binary64, an unsigned integer is not negative, the keys of
  a map are distinct.\<close>

primrec go_value :: "any_value \<Rightarrow> bool" where
  "go_value AnyNil \<longleftrightarrow> True"
| "go_value (AnyBool b) \<longleftrightarrow> True"
| "go_value (AnyString s) \<longleftrightarrow> True"
| "go_value (AnyFloat64 f) \<longleftrightarrow> binary64 f"
| "go_value (AnyFloat32 f) \<longleftrightarrow> binary64 f"
| "go_value (AnyInt n) \<longleftrightarrow> True"
| "go_value (AnyInt64 n) \<longleftrightarrow> True"
| "go_value (AnyUint64 n) \<longleftrightarrow> 0 \<le> n"
| "go_value (AnyNumber raw) \<longleftrightarrow> True"
| "go_value (AnyTime t) \<longleftrightarrow> True"
| "go_value (AnyStrings xs) \<longleftrightarrow> True"
| "go_value (AnyStringMap kvs) \<longleftrightarrow> True"
| "go_value (AnySlice xs) \<longleftrightarrow> list_all id (map go_value xs)"
| "go_value (AnyMap kvs) \<longleftrightarrow> distinct (map fst kvs) \<and> list_all id (map snd (map (map_prod id go_value) kvs))"

section \<open>Sorting members\<close>

interpretation member: comparison compare_member "\<lambda>kv. utf16Units (fst kv)"
  unfolding compare_member_def[abs_def] by (rule comparison_on[OF utf16.comparison_axioms])

lemma sort_members_map: "sort_func compare_member (map (map_prod id f) kvs) = map (map_prod id f) (sort_func compare_member kvs)"
proof -
  have ins: "insort_func compare_member (map_prod id f x) (map (map_prod id f) ys) = map (map_prod id f) (insort_func compare_member x ys)" for x ys
    by (induction ys) (auto simp: compare_member_def)
  show ?thesis by (induction kvs) (simp_all only: sort_func_simps list.map ins)
qed

definition sortable :: "(string \<times> 'a) list \<Rightarrow> bool" where
  "sortable kvs \<longleftrightarrow> distinct (map fst kvs) \<and> (\<forall>k \<in> set (map fst kvs). valid_utf8 k)"

lemma sortable_inj: "sortable kvs \<Longrightarrow> inj_on (\<lambda>kv. utf16Units (fst kv)) (set kvs)"
proof (rule inj_onI)
  fix x y
  assume s: "sortable kvs" and x: "x \<in> set kvs" and y: "y \<in> set kvs" and u: "utf16Units (fst x) = utf16Units (fst y)"
  have "fst x = fst y" using s x y u unfolding sortable_def by (auto intro: utf16Units_inj)
  then show "x = y" using s x y unfolding sortable_def by (metis distinct_map inj_onD)
qed

lemma sortable_sort: "sortable kvs \<Longrightarrow> sortable (sort_func compare_member kvs)"
proof -
  assume s: "sortable kvs"
  have "mset (map fst (sort_func compare_member kvs)) = mset (map fst kvs)" by (simp only: mset_map mset_sort_func)
  then show ?thesis using s unfolding sortable_def by (metis mset_eq_imp_distinct_iff mset_eq_setD)
qed

lemma sort_members_idem: "sortable kvs \<Longrightarrow> sort_func compare_member (sort_func compare_member kvs) = sort_func compare_member kvs"
  by (intro member.sort_func_sorted sortable_inj sortable_sort member.sorted_sort_func)

lemma sort_members_perm: "sortable kvs \<Longrightarrow> mset kvs = mset kvs' \<Longrightarrow> sort_func compare_member kvs = sort_func compare_member kvs'"
  by (intro member.sort_func_perm sortable_inj)

lemma sortedKeys_Inr: "distinct (map fst kvs) \<Longrightarrow> sortedKeys kvs = Inr ms \<longleftrightarrow> sortable kvs \<and> ms = sort_func compare_member kvs"
  using valid_not_surrogate
  by (auto simp: sortedKeys_def sortable_def list_ex_iff split: if_splits) (metis fst_conv)+

section \<open>Reading an encoding back\<close>

lemma collect_results_Inr: "collect_results rs = Inr xs \<longleftrightarrow> list_all2 (\<lambda>r x. r = Inr x) rs xs"
  by (induction rs arbitrary: xs) (auto simp: bind_res_Inr_iff list_all2_Cons1)

lemma encodeArray_Inr: "encodeArray rs = Inr t \<longleftrightarrow> (\<exists>ts. list_all2 (\<lambda>r x. r = Inr x) rs ts \<and> t = ''['' @ join_comma ts @ '']'')"
  by (auto simp: encodeArray_def bind_res_Inr_iff collect_results_Inr)

lemma encodeMember_Inr: "encodeMember (k, r) = Inr mt \<longleftrightarrow> (\<exists>t. r = Inr t \<and> member_text k t mt)"
  by (auto simp: encodeMember_def bind_res_Inr_iff member_text_def)

lemma encodeObject_Inr:
  assumes "distinct (map fst kvs)"
  shows "encodeObject kvs = Inr t \<longleftrightarrow> sortable kvs \<and>
    (\<exists>mts. list_all2 (\<lambda>kr mt. \<exists>u. snd kr = Inr u \<and> member_text (fst kr) u mt) (sort_func compare_member kvs) mts \<and> t = ''{'' @ join_comma mts @ ''}'')"
proof -
  have m: "encodeMember kr = Inr mt \<longleftrightarrow> (\<exists>u. snd kr = Inr u \<and> member_text (fst kr) u mt)" for kr mt
    by (cases kr) (simp add: encodeMember_Inr)
  show ?thesis
    using sortedKeys_Inr[OF assms] by (auto simp: encodeObject_def bind_res_Inr_iff collect_results_Inr list_all2_map1 m)
qed

lemma depth_le: "x \<in> set xs \<Longrightarrow> depth x \<le> foldr max (map depth xs) 0"
  by (induction xs) auto

lemma map_keys [simp]: "map fst (map (map_prod id f) kvs) = map fst kvs"
  by simp

text \<open>A value reads back as its canonical form, which has the same text, and the reader's map of it is
  itself.\<close>

definition settled :: "any_value \<Rightarrow> bool" where
  "settled v \<longleftrightarrow> (\<forall>t. go_value v \<longrightarrow> encode v = Inr t \<longrightarrow>
     reads False (depth v) t (canon v) \<and> encode (canon v) = Inr t \<and> last_wins (canon v) = canon v)"

lemma settled_string: "settled (AnyString s)"
  by (simp add: settled_def reads_string)

lemma settled_float: "binary64 f \<Longrightarrow> encodeFloat f = Inr t \<Longrightarrow> reads False 0 t (AnyFloat64 f)"
  using encodeFloat_text[of f t] reads_number[of t f] by blast

lemma settled_integer: "encodeInteger n = Inr t \<Longrightarrow> reads False 0 t (AnyFloat64 (float_of_int n)) \<and> encodeFloat (float_of_int n) = Inr t"
proof -
  assume e: "encodeInteger n = Inr t"
  then have n: "\<bar>n\<bar> \<le> maxSafeInteger" and t: "t = show_int n" by (auto simp: encodeInteger_def split: if_splits)
  have enc: "encodeFloat (float_of_int n) = Inr t" using encodeFloat_safe[OF n] t by simp
  have "binary64 (float_of_int n)" unfolding float_of_int_def float_round_def by (rule float_signed_binary64) simp
  then show ?thesis using settled_float enc by blast
qed

lemma settled_number: "encodeNumber raw = Inr t \<Longrightarrow> \<exists>f. ParseFloat raw = Inr f \<and> reads False 0 t (AnyFloat64 f) \<and> encodeFloat f = Inr t"
  using ParseFloat_binary64 settled_float
  by (fastforce simp: encodeNumber_def bind_res_Inr_iff split: if_splits sum.splits)


lemma settled_slice:
  assumes "\<And>x. x \<in> set xs \<Longrightarrow> settled x"
  shows "settled (AnySlice xs)"
  unfolding settled_def
proof (intro allI impI)
  fix t assume go: "go_value (AnySlice xs)" and enc: "encode (AnySlice xs) = Inr t"
  let ?D = "foldr max (map depth xs) 0"
  obtain ts where ts: "list_all2 (\<lambda>r x. r = Inr x) (map encode xs) ts" and t: "t = ''['' @ join_comma ts @ '']''"
    using enc by (auto simp: encodeArray_Inr)
  have len: "length xs = length ts" using list_all2_lengthD[OF ts] by simp
  have each: "reads False ?D (ts ! i) (canon (xs ! i)) \<and> encode (canon (xs ! i)) = Inr (ts ! i) \<and> last_wins (canon (xs ! i)) = canon (xs ! i)"
    if "i < length xs" for i
  proof -
    have "encode (xs ! i) = Inr (ts ! i)" using list_all2_nthD[OF ts, of i] that by simp
    moreover have "go_value (xs ! i)" using go that by (auto simp: list_all_length)
    ultimately have "reads False (depth (xs ! i)) (ts ! i) (canon (xs ! i)) \<and> encode (canon (xs ! i)) = Inr (ts ! i) \<and> last_wins (canon (xs ! i)) = canon (xs ! i)"
      using assms[of "xs ! i"] that by (auto simp: settled_def)
    then show ?thesis using reads_mono[OF _ depth_le[of "xs ! i" xs]] that by auto
  qed
  have "list_all2 (reads False ?D) ts (map canon xs)" using each len by (simp add: list_all2_conv_all_nth)
  moreover have "list_all2 (\<lambda>r x. r = Inr x) (map encode (map canon xs)) ts" using each len by (simp add: list_all2_conv_all_nth)
  moreover have "map last_wins (map canon xs) = map canon xs" using each by (auto simp: in_set_conv_nth)
  ultimately show "reads False (depth (AnySlice xs)) t (canon (AnySlice xs)) \<and> encode (canon (AnySlice xs)) = Inr t \<and>
      last_wins (canon (AnySlice xs)) = canon (AnySlice xs)"
    using reads_array[of False ?D ts "map canon xs"] by (auto simp: t encodeArray_Inr)
qed

lemma update_fresh_foldl:
  "distinct (map fst m @ map fst kvs) \<Longrightarrow> foldl (\<lambda>m (k, v). AList.update k v m) m kvs = m @ kvs"
proof (induction kvs arbitrary: m)
  case (Cons kv kvs)
  obtain k v where kv: "kv = (k, v)" by force
  have "k \<notin> fst ` set m" using Cons.prems kv by auto
  then have "AList.update k v m = m @ [(k, v)]" by (induction m) auto
  then show ?case using Cons kv by simp
qed simp

text \<open>An object, given by the values its members read back as; \<open>Q\<close> is what else is known of each of them.\<close>

lemma object_members:
  assumes kvs: "distinct (map fst kvs)" and enc: "encodeObject kvs = Inr t"
    and ws: "map fst ws = map fst kvs"
    and each: "\<And>i u. i < length kvs \<Longrightarrow> snd (kvs ! i) = Inr u \<Longrightarrow> reads m D u (snd (ws ! i)) \<and> encode (snd (ws ! i)) = Inr u \<and> Q (snd (ws ! i))"
  shows "reads m (Suc D) t (AnyMap (sort_func compare_member ws)) \<and> encode (AnyMap (sort_func compare_member ws)) = Inr t \<and>
    distinct (map fst (sort_func compare_member ws)) \<and> (\<forall>kv \<in> set (sort_func compare_member ws). Q (snd kv))"
proof -
  define ss where "ss = sort_func compare_member ws"
  have len: "length ws = length kvs" using arg_cong[OF ws, of length] by simp
  obtain mts where sk: "sortable kvs" and mts: "list_all2 (\<lambda>kr mt. \<exists>u. snd kr = Inr u \<and> member_text (fst kr) u mt) (sort_func compare_member kvs) mts"
    and t: "t = ''{'' @ join_comma mts @ ''}''" using enc encodeObject_Inr[OF kvs] by auto
  have all_ok: "\<exists>u. snd kr = Inr u" if "kr \<in> set kvs" for kr
  proof -
    have "kr \<in> set (sort_func compare_member kvs)" using that by simp
    then obtain i where "i < length (sort_func compare_member kvs)" "kr = sort_func compare_member kvs ! i"
      by (metis in_set_conv_nth)
    then show ?thesis using list_all2_nthD[OF mts] by auto
  qed
  have enc_ws: "map (map_prod id encode) ws = kvs"
  proof (rule nth_equalityI)
    fix i assume "i < length (map (map_prod id encode) ws)"
    then have i: "i < length kvs" using len by simp
    obtain u where u: "snd (kvs ! i) = Inr u" using all_ok[of "kvs ! i"] i by auto
    have "fst (ws ! i) = fst (kvs ! i)" using arg_cong[OF ws, of "\<lambda>l. l ! i"] i len by simp
    then show "map (map_prod id encode) ws ! i = kvs ! i" using each[OF i u] u i len by (simp add: prod_eq_iff)
  qed (simp add: len)
  have sw: "sortable ws" using sk ws by (simp add: sortable_def)
  have sort_kvs: "sort_func compare_member kvs = map (map_prod id encode) ss"
    unfolding ss_def sort_members_map[symmetric] enc_ws by simp
  have dss: "distinct (map fst ss)" using sortable_sort[OF sw] by (simp add: sortable_def ss_def)
  have in_ws: "\<exists>i < length kvs. kv = ws ! i" if "kv \<in> set ss" for kv
    using that len by (metis in_set_conv_nth set_sort_func ss_def)
  have good: "reads m D u (snd kv) \<and> Q (snd kv)" if kv: "kv \<in> set ss" and enc_kv: "encode (snd kv) = Inr u" for kv u
  proof -
    obtain i where i: "i < length kvs" "kv = ws ! i" using in_ws[OF kv] by auto
    have "kvs ! i = map_prod id encode (ws ! i)" using i(1) len by (subst enc_ws[symmetric]) simp
    then have "snd (kvs ! i) = Inr u" using enc_kv i by simp
    then show ?thesis using each[OF i(1)] i(2) by auto
  qed
  have mem: "list_all2 (\<lambda>kv mt. \<exists>u. encode (snd kv) = Inr u \<and> member_text (fst kv) u mt) ss mts"
    using mts unfolding sort_kvs by (simp add: list_all2_map1 map_prod_def case_prod_beta)
  have "list_all2 (\<lambda>mt (k, v). \<exists>u. member_text k u mt \<and> reads m D u v) mts ss"
  proof (rule list_all2_all_nthI)
    show l: "length mts = length ss" using list_all2_lengthD[OF mem] by simp
    fix i assume i: "i < length mts"
    then obtain u where u: "encode (snd (ss ! i)) = Inr u" "member_text (fst (ss ! i)) u (mts ! i)"
      using list_all2_nthD[OF mem, of i] l by auto
    have "reads m D u (snd (ss ! i))" using good[OF nth_mem u(1)] i l by simp
    then show "case ss ! i of (k, v) \<Rightarrow> \<exists>u. member_text k u (mts ! i) \<and> reads m D u v" using u(2) by (auto simp: case_prod_beta)
  qed
  then have "reads m (Suc D) t (AnyMap ss)" unfolding t by (rule reads_object)
  moreover have "encode (AnyMap ss) = Inr t"
  proof -
    have "sort_func compare_member (map (map_prod id encode) ss) = map (map_prod id encode) ss"
      unfolding sort_members_map using sort_members_idem[OF sw] by (simp add: ss_def)
    moreover have "sortable (map (map_prod id encode) ss)" using sortable_sort[OF sw] by (simp add: sortable_def ss_def)
    ultimately show ?thesis
      using encodeObject_Inr[of "map (map_prod id encode) ss" t] dss mts t by (simp only: encode.simps map_keys sort_kvs) blast
  qed
  moreover have "Q (snd kv)" if kv: "kv \<in> set ss" for kv
  proof -
    obtain u where "encode (snd kv) = Inr u"
      using list_all2_nthD[OF mem] kv by (metis in_set_conv_nth)
    then show ?thesis using good[OF kv] by simp
  qed
  ultimately show ?thesis using dss by (simp add: ss_def)
qed

lemma settled_members:
  assumes "distinct (map fst kvs)" and "encodeObject kvs = Inr t" and "map fst ws = map fst kvs"
    and "\<And>i u. i < length kvs \<Longrightarrow> snd (kvs ! i) = Inr u \<Longrightarrow> reads False D u (snd (ws ! i)) \<and> encode (snd (ws ! i)) = Inr u \<and> last_wins (snd (ws ! i)) = snd (ws ! i)"
  shows "reads False (Suc D) t (AnyMap (sort_func compare_member ws)) \<and> encode (AnyMap (sort_func compare_member ws)) = Inr t \<and>
    last_wins (AnyMap (sort_func compare_member ws)) = AnyMap (sort_func compare_member ws)"
proof -
  let ?ss = "sort_func compare_member ws"
  note obj = object_members[of kvs t ws False D "\<lambda>v. last_wins v = v", OF assms]
  have "map (map_prod id last_wins) ?ss = ?ss"
    using obj by (intro map_idI) (simp add: prod_eq_iff)
  then have "last_wins (AnyMap ?ss) = AnyMap ?ss"
    using update_fresh_foldl[of "[]" ?ss] obj by (simp only: last_wins.simps) simp
  with obj show ?thesis by blast
qed

lemma settled_map:
  assumes "\<And>kv. kv \<in> set kvs \<Longrightarrow> settled (snd kv)"
  shows "settled (AnyMap kvs)"
  unfolding settled_def
proof (intro allI impI)
  fix t assume go: "go_value (AnyMap kvs)" and enc: "encode (AnyMap kvs) = Inr t"
  let ?D = "foldr max (map snd (map (map_prod id depth) kvs)) 0"
  have le: "depth (snd (kvs ! i)) \<le> ?D" if "i < length kvs" for i
    using depth_le[of "snd (kvs ! i)" "map snd kvs"] that by (simp add: comp_def)
  have "distinct (map fst (map (map_prod id encode) kvs))" "encodeObject (map (map_prod id encode) kvs) = Inr t"
    using go enc by auto
  moreover have "map fst (map (map_prod id canon) kvs) = map fst (map (map_prod id encode) kvs)" by simp
  ultimately show "reads False (depth (AnyMap kvs)) t (canon (AnyMap kvs)) \<and> encode (canon (AnyMap kvs)) = Inr t \<and>
      last_wins (canon (AnyMap kvs)) = canon (AnyMap kvs)"
    unfolding depth.simps canon.simps
  proof (rule settled_members)
    fix i u assume i: "i < length (map (map_prod id encode) kvs)" and u: "snd (map (map_prod id encode) kvs ! i) = Inr u"
    have "settled (snd (kvs ! i))" using assms i by simp
    moreover have "go_value (snd (kvs ! i))" using go i by (auto simp: list_all_length)
    ultimately have "reads False (depth (snd (kvs ! i))) u (canon (snd (kvs ! i))) \<and> encode (canon (snd (kvs ! i))) = Inr u \<and>
        last_wins (canon (snd (kvs ! i))) = canon (snd (kvs ! i))"
      using i u by (auto simp: settled_def)
    then show "reads False ?D u (snd (map (map_prod id canon) kvs ! i)) \<and> encode (snd (map (map_prod id canon) kvs ! i)) = Inr u \<and>
        last_wins (snd (map (map_prod id canon) kvs ! i)) = snd (map (map_prod id canon) kvs ! i)"
      using reads_mono[OF _ le] i by auto
  qed
qed

lemma settled_strings: "settled (AnyStrings xs)"
proof (cases "xs = []")
  case True
  then show ?thesis by (simp add: settled_def encodeStrings_def reads_mono[OF reads_literals(1)])
next
  case False
  let ?ys = "map (AnyString \<circ> to_valid) xs"
  have d: "foldr max (map depth ?ys) 0 = 0" by (induction xs) auto
  have c: "canon (AnySlice ?ys) = AnySlice ?ys" by simp
  have "settled (AnySlice ?ys)" by (rule settled_slice) (auto simp: settled_string)
  moreover have "go_value (AnySlice ?ys)" by (simp add: list_all_iff)
  moreover have "encode (AnySlice ?ys) = encode (AnyStrings xs)" using False by (simp add: encodeStrings_def comp_def)
  moreover have "depth (AnySlice ?ys) = depth (AnyStrings xs)" using d by simp
  moreover have "canon (AnyStrings xs) = AnySlice ?ys" using False by simp
  ultimately show ?thesis unfolding settled_def using c by (metis (no_types))
qed

lemma settled_string_map: "settled (AnyStringMap kvs)"
  unfolding settled_def
proof (intro allI impI)
  fix t assume enc: "encode (AnyStringMap kvs) = Inr t"
  let ?ks = "map (map_prod to_valid (encodeString \<circ> to_valid)) kvs"
  let ?ws = "map (map_prod to_valid (AnyString \<circ> to_valid)) kvs"
  have "distinct (map fst ?ks)" "encodeObject ?ks = Inr t"
    using enc by (auto simp: encodeStringMap_def Let_def split: if_splits)
  moreover have "map fst ?ws = map fst ?ks" by simp
  ultimately show "reads False (depth (AnyStringMap kvs)) t (canon (AnyStringMap kvs)) \<and> encode (canon (AnyStringMap kvs)) = Inr t \<and>
      last_wins (canon (AnyStringMap kvs)) = canon (AnyStringMap kvs)"
    unfolding depth.simps canon.simps One_nat_def
    by (rule settled_members) (auto simp: reads_string)
qed

lemma settled_time: "settled (AnyTime t)"
  by (auto simp: settled_def bind_res_Inr_iff reads_string)

lemma all_settled: "settled v"
proof (induction v)
  case (AnySlice xs)
  then show ?case by (rule settled_slice)
next
  case (AnyMap kvs)
  have "settled (snd kv)" if "kv \<in> set kvs" for kv using AnyMap[OF that] by (cases kv) (auto simp: snds.simps)
  then show ?case by (rule settled_map)
next
  case (AnyUint64 n)
  show ?case using settled_integer[of n]
    by (auto simp: settled_def encodeUnsigned_def encodeInteger_def maxSafeInteger_def split: if_splits)
next
  case (AnyNumber raw)
  show ?case using settled_number[of raw] by (auto simp: settled_def)
next
  case (AnyStrings xs)
  show ?case by (rule settled_strings)
next
  case (AnyStringMap kvs)
  show ?case by (rule settled_string_map)
next
  case (AnyTime t)
  show ?case by (rule settled_time)
qed (auto simp: settled_def reads_literals reads_string settled_float settled_integer)

section \<open>Properties\<close>

lemma Marshal_reads:
  assumes "go_value v" and "depth v \<le> max_nesting_depth" and "Marshal v = Inr t"
  shows "json_unmarshal t = Some (canon v)" and "Marshal (canon v) = Inr t"
proof -
  have s: "reads False (depth v) t (canon v)" "encode (canon v) = Inr t" "last_wins (canon v) = canon v"
    using all_settled[of v] assms(1,3) by (auto simp: settled_def Marshal_def)
  show "Marshal (canon v) = Inr t" using s by (simp add: Marshal_def)
  show "json_unmarshal t = Some (canon v)" using read_json_reads[OF s(1) assms(2)] s(3) by (simp add: json_unmarshal_def)
qed

text \<open>
  Every canonical document passes its own verification: whatever a Go value holds (maps in any
  order, integers and floats of any type, raw number literals, strings with any escapes), if it encodes and
  nests at most 10000 deep, the stored text with the digest of its bytes is accepted by the check that
  readers run, which decodes the text, encodes it again and compares.
\<close>

theorem stored_document_verifies:
  assumes "go_value v" and "depth v \<le> max_nesting_depth" and "Marshal v = Inr t"
  shows "VerifyStored t (Sum t) = Inr ()"
  using Marshal_reads[OF assms] by (simp add: VerifyStored_def HasSumLength_def Sum_def checkCanonical_def)

definition sample_document :: any_value where
  "sample_document = AnyMap
     [(''b'', AnySlice [AnyInt 3, AnyNil, AnyBool True]),
      (''a'', AnyString [CHR 0x22, CHR 0x01, CHR 0xC3, CHR 0xA9]),
      (''c'', AnyMap [])]"

definition sample_text :: string where
  "sample_text = ''{'' @ [CHR 0x22] @ ''a'' @ [CHR 0x22] @ '':'' @ [CHR 0x22, CHR 0x5C, CHR 0x22, CHR 0x5C] @ ''u0001'' @ [CHR 0xC3, CHR 0xA9, CHR 0x22] @
     '','' @ [CHR 0x22] @ ''b'' @ [CHR 0x22] @ '':[3,null,true],'' @ [CHR 0x22] @ ''c'' @ [CHR 0x22] @ '':{}}''"

lemma sample_document_Marshal: "Marshal sample_document = Inr sample_text"
  by code_simp

lemma sample_document_go: "go_value sample_document" "depth sample_document \<le> max_nesting_depth"
  by (simp_all add: sample_document_def max_nesting_depth_def)

theorem stored_document_verifies_witness:
  "Marshal sample_document = Inr sample_text \<and> VerifyStored sample_text (Sum sample_text) = Inr ()"
  using stored_document_verifies[OF sample_document_go sample_document_Marshal] sample_document_Marshal by simp


lemma domain_split:
  assumes "a \<in> set domains" and "b \<in> set domains" and "a @ s = b @ t"
  shows "a = b \<and> s = t"
proof -
  have nl: "\<exists>p. d = p @ [CHR 0x0A] \<and> CHR 0x0A \<notin> set p" if "d \<in> set domains" for d
  proof -
    have "list_all (\<lambda>d. d = butlast d @ [CHR 0x0A] \<and> CHR 0x0A \<notin> set (butlast d)) domains" by code_simp
    then show ?thesis using that by (auto simp: list_all_iff)
  qed
  obtain p q where p: "a = p @ [CHR 0x0A]" "CHR 0x0A \<notin> set p" and q: "b = q @ [CHR 0x0A]" "CHR 0x0A \<notin> set q"
    using nl[OF assms(1)] nl[OF assms(2)] by blast
  have "Some (p, s) = cut_byte CHR 0x0A (p @ CHR 0x0A # s)" using p(2) by simp
  also have "\<dots> = cut_byte CHR 0x0A (q @ CHR 0x0A # t)" using assms(3) p q by simp
  also have "\<dots> = Some (q, t)" using q(2) by simp
  finally show ?thesis using p q by simp
qed

text \<open>
  Claim C29. A digest preimage identifies what was digested: the bytes hashed for a value under one of the
  runtime's domains are the bytes hashed for another value under another domain only if the two domains
  are the same and the two values are the same document (the same canonical form: equal strings, equal
  doubles, the same elements and the same members). So two different documents, or one document in two
  namespaces, share a digest only through a SHA-256 collision.
\<close>

theorem digest_preimage_identifies:
  assumes "go_value v" and "depth v \<le> max_nesting_depth" and "Seal a v = Inr (s, sum1)"
    and "go_value w" and "depth w \<le> max_nesting_depth" and "Seal b w = Inr (t, sum2)"
    and "a \<in> set domains" and "b \<in> set domains"
  shows "sum1 = sha256 (a @ s) \<and> sum2 = sha256 (b @ t) \<and> (a @ s = b @ t \<longleftrightarrow> a = b \<and> canon v = canon w)"
proof -
  have s: "Marshal v = Inr s" "sum1 = sha256 (a @ s)" and t: "Marshal w = Inr t" "sum2 = sha256 (b @ t)"
    using assms(3,6) by (auto simp: Seal_def bind_res_Inr_iff split: if_splits)
  note v = Marshal_reads[OF assms(1,2) s(1)] and w = Marshal_reads[OF assms(4,5) t(1)]
  have "s = t \<longleftrightarrow> canon v = canon w" using v w by auto
  then show ?thesis using s(2) t(2) domain_split[OF assms(7,8), of s t] by auto
qed

definition other_document :: any_value where
  "other_document = AnyMap [(''c'', AnyMap []), (''a'', AnyString [CHR 0x22, CHR 0x01, CHR 0xC3, CHR 0xA9]),
     (''b'', AnySlice [AnyInt64 3, AnyNil, AnyBool True])]"

theorem digest_preimage_identifies_witness:
  "\<exists>sum1 sum2. Seal (hd domains) sample_document = Inr (sample_text, sum1) \<and> Seal (hd domains) other_document = Inr (sample_text, sum2)
     \<and> canon sample_document = canon other_document"
proof -
  have o: "go_value other_document" "depth other_document \<le> max_nesting_depth"
    by (simp_all add: other_document_def max_nesting_depth_def)
  have m: "Marshal other_document = Inr sample_text" by code_simp
  have d: "hd domains \<noteq> []" "hd domains \<in> set domains" by code_simp+
  have s1: "Seal (hd domains) sample_document = Inr (sample_text, sha256 (hd domains @ sample_text))"
    and s2: "Seal (hd domains) other_document = Inr (sample_text, sha256 (hd domains @ sample_text))"
    using sample_document_Marshal m d by (simp_all add: Seal_def)
  show ?thesis using digest_preimage_identifies[OF sample_document_go s1 o s2 d(2) d(2)] s1 s2 by auto
qed

text \<open>
  The encoding of a map does not depend on the order in which Go iterates over it, nor on the Go
  type that holds a safe integer: a permutation of the members of a map that encodes gives the same text,
  and an integer encodes as the double of the same value does.
\<close>

theorem encode_ignores_order_and_type:
  assumes "distinct (map fst kvs)" and "mset kvs = mset kvs'" and "encode (AnyMap kvs) = Inr t"
  shows "encode (AnyMap kvs') = Inr t \<and> (encode (AnyInt n) = Inr u \<longrightarrow> encode (AnyFloat64 (float_of_int n)) = Inr u)"
proof -
  let ?ks = "map (map_prod id encode) kvs" and ?ls = "map (map_prod id encode) kvs'"
  have m: "mset ?ks = mset ?ls" using assms(2) by simp
  have dk: "distinct (map fst ?ks)" using assms(1) by simp
  have "mset (map fst ?ks) = mset (map fst ?ls)" using assms(2) by simp
  then have dl: "distinct (map fst ?ls)" "set (map fst ?ls) = set (map fst ?ks)" using dk by (metis mset_eq_imp_distinct_iff, metis mset_eq_setD)
  have e: "encodeObject ?ks = Inr t" using assms(3) by simp
  then have sk: "sortable ?ks" using encodeObject_Inr[OF dk] by simp
  then have "sortable ?ls" using dl by (simp add: sortable_def)
  then have "encodeObject ?ls = Inr t"
    using e encodeObject_Inr[OF dk] encodeObject_Inr[OF dl(1)] sort_members_perm[OF sk m] by simp
  then show ?thesis using settled_integer[of n u] by simp
qed

theorem encode_ignores_order_and_type_witness:
  "encode (AnyMap [(''b'', AnyInt 1), (''a'', AnyNil)]) = encode (AnyMap [(''a'', AnyNil), (''b'', AnyInt 1)])
     \<and> encode (AnyFloat64 (float_of_int (- 12))) = Inr ''-12''"
proof -
  have t: "encode (AnyMap [(''b'', AnyInt 1), (''a'', AnyNil)]) = Inr (''{'' @ [CHR 0x22] @ ''a'' @ [CHR 0x22] @ '':null,'' @ [CHR 0x22] @ ''b'' @ [CHR 0x22] @ '':1}'')"
    by code_simp
  have u: "encode (AnyInt (- 12)) = Inr ''-12''" by code_simp
  show ?thesis
    using encode_ignores_order_and_type[OF _ _ t, of "[(''a'', AnyNil), (''b'', AnyInt 1)]" "- 12" "''-12''"] t u by simp
qed

end
