(* ===== verification/Situation_Properties.thy ===== *)
theory Situation_Properties
  imports Situations Canonical_Properties
begin

text \<open>
  Properties of the situation engine: the program cache is transparent, every change of phase is a move
  the specification allows (a refinement of the abstract lifecycle \<open>life_step\<close>), the reachable engines
  keep the invariant of their situations, versions are numbered without gaps, and what a version carries
  as persisted state is what the engine reports and what its digest covers.
\<close>

section \<open>The program cache\<close>

definition eval_uncached :: "situation_engine \<Rightarrow> string \<Rightarrow> evaluation_inputs \<Rightarrow> bool result" where
  "eval_uncached e expr inp =
     (if expr = '''' then Inr False
      else bind_res (compileProgram e expr) (\<lambda>prg.
        bind_res (wrap_err ''eval cel''
          (prg [(''features'', AnyMap (ei_features inp)), (''situation'', AnyMap (ei_situation inp))])) CELBool))"

definition coherent :: "situation_engine \<Rightarrow> programs \<Rightarrow> bool" where
  "coherent e ps \<longleftrightarrow> (\<forall>expr prg. map_of ps expr = Some prg \<longrightarrow> compileProgram e expr = Inr prg)"

lemma coherent_Nil [simp]: "coherent e []"
  by (simp add: coherent_def)

lemma coherent_update: "coherent e ps \<Longrightarrow> compileProgram e expr = Inr prg \<Longrightarrow> coherent e (AList.update expr prg ps)"
  by (auto simp: coherent_def update_conv')

lemma evalBool_effect:
  assumes "coherent e ps"
  obtains ps' where "evalBool e expr inp (sit, ps) = (eval_uncached e expr inp, sit, ps')" and "coherent e ps'"
proof (cases "map_of ps expr")
  case None
  show thesis
  proof (cases "compileProgram e expr")
    case (Inl err)
    with None assms show thesis
      by (intro that[of ps])
         (auto simp: evalBool_def eval_uncached_def cel_program_for_def op_bind_def op_return_def split: sum.splits)
  next
    case (Inr prg)
    with None assms show thesis
      by (intro that[of "if expr = '''' then ps else AList.update expr prg ps"])
         (auto simp: evalBool_def eval_uncached_def cel_program_for_def op_bind_def op_return_def op_lift_def
               intro: coherent_update)
  qed
next
  case (Some prg)
  with assms have "compileProgram e expr = Inr prg"
    by (simp add: coherent_def)
  with Some assms show thesis
    by (intro that[of ps])
       (auto simp: evalBool_def eval_uncached_def cel_program_for_def op_bind_def op_return_def op_lift_def)
qed

section \<open>The abstract lifecycle\<close>

text \<open>When the condition of a transition has held since, as the situation records it.\<close>

definition held_since :: "situation \<Rightarrow> string \<Rightarrow> time \<Rightarrow> time" where
  "held_since sit key eventTime = (case map_of (st_ConditionStart sit) key of
     Some t \<Rightarrow> if t = 0 then eventTime else t
   | None \<Rightarrow> eventTime)"

inductive life_step :: "situation_engine \<Rightarrow> evaluation_inputs \<Rightarrow> situation \<Rightarrow> situation \<Rightarrow> bool"
  for e inp where
    forget: "\<lbrakk> tr \<in> set (ss_Transitions (cs_Situation (se_spec e))); tr_From tr = st_Phase sit;
               eval_uncached e (tr_When tr) inp = Inr False \<rbrakk>
             \<Longrightarrow> life_step e inp sit (sit\<lparr>st_ConditionStart := AList.delete (transition_key tr) (st_ConditionStart sit)\<rparr>)"
  | hold: "\<lbrakk> tr \<in> set (ss_Transitions (cs_Situation (se_spec e))); tr_From tr = st_Phase sit;
             eval_uncached e (tr_When tr) inp = Inr True;
             held_since sit (transition_key tr) (ei_eventTime inp) = ei_eventTime inp \<rbrakk>
           \<Longrightarrow> life_step e inp sit
                 (sit\<lparr>st_ConditionStart := AList.update (transition_key tr) (ei_eventTime inp) (st_ConditionStart sit)\<rparr>)"
  | close: "\<lbrakk> \<not> closesThroughTransitions e; occurrenceOpen e sit;
              eval_uncached e (oc_CloseWhen (ss_Occurrence (cs_Situation (se_spec e)))) inp = Inr True \<rbrakk>
            \<Longrightarrow> life_step e inp sit (moved_to e PhaseResolved inp sit)"
  | advance: "\<lbrakk> tr \<in> set (ss_Transitions (cs_Situation (se_spec e))); tr_From tr = st_Phase sit;
                tr_To tr \<noteq> st_Phase sit; eval_uncached e (tr_When tr) inp = Inr True;
                optionalMinDuration (tr_MinDuration tr) = Inr d;
                d \<le> time_sub (ei_eventTime inp) (held_since sit (transition_key tr) (ei_eventTime inp)) \<rbrakk>
              \<Longrightarrow> life_step e inp sit (moved_to e (tr_To tr) inp sit)"
  | reopen: "\<lbrakk> st_Phase sit = PhaseResolved;
               optionalMinDuration (oc_ReopenCooldown (ss_Occurrence (cs_Situation (se_spec e)))) = Inr d;
               d \<le> time_sub (ei_eventTime inp) (st_ResolvedAt sit);
               eval_uncached e (oc_OpenWhen (ss_Occurrence (cs_Situation (se_spec e)))) inp = Inr True \<rbrakk>
             \<Longrightarrow> life_step e inp sit (startNextOccurrence e (ei_eventTime inp) sit)"

definition life_run :: "situation_engine \<Rightarrow> evaluation_inputs \<Rightarrow> situation \<times> programs \<Rightarrow> situation \<times> programs \<Rightarrow> bool" where
  "life_run e inp st st' \<longleftrightarrow>
     (coherent e (snd st) \<longrightarrow> coherent e (snd st') \<and> (life_step e inp)\<^sup>*\<^sup>* (fst st) (fst st'))"

interpretation life: effects "life_run e inp" for e inp
  by unfold_locales (auto simp: life_run_def intro: rtranclp_trans)


lemma life_run_refl: "life_run e inp st st"
  by (rule life.effect_refl)

lemma life_runI: "(coherent e ps \<Longrightarrow> coherent e ps' \<and> (life_step e inp)\<^sup>*\<^sup>* sit sit') \<Longrightarrow> life_run e inp (sit, ps) (sit', ps')"
  by (simp add: life_run_def)

lemma evalBool_cases:
  assumes "coherent e ps" and "evalBool e expr inp (sit, ps) = (r, st')"
  shows "r = eval_uncached e expr inp \<and> fst st' = sit \<and> coherent e (snd st')"
  using assms(1)
proof (rule evalBool_effect[of e ps expr inp sit])
  fix ps'
  assume "evalBool e expr inp (sit, ps) = (eval_uncached e expr inp, sit, ps')" "coherent e ps'"
  with assms(2) show ?thesis by auto
qed

lemma evalBool_keeps: "op_keeps (life_run e inp) (evalBool e expr inp)"
proof (rule op_keepsI)
  fix st :: "situation \<times> programs"
  show "life_run e inp st (snd (evalBool e expr inp st))"
    using evalBool_cases[of e "snd st" expr inp "fst st" "fst (evalBool e expr inp st)" "snd (evalBool e expr inp st)"]
    by (auto simp: life_run_def)
qed

lemmas eval_simps = with_sit_def on_sit_def op_bind_def op_return_def op_lift_def op_modify_def

lemma transition_to_effect:
  "transition_to e to inp (sit, ps) =
     (if st_Phase sit = to then (Inr False, sit, ps) else (Inr True, moved_to e to inp sit, ps))"
  by (simp add: transition_to_def eval_simps)

lemma closeOccurrence_keeps: "op_keeps (life_run e inp) (closeOccurrence e inp)"
proof (rule op_keepsI)
  fix st :: "situation \<times> programs"
  obtain sit ps where st: "st = (sit, ps)" by fastforce
  show "life_run e inp st (snd (closeOccurrence e inp st))"
  proof (cases "coherent e ps \<and> \<not> closesThroughTransitions e \<and> occurrenceOpen e sit")
    case True
    obtain ps' where ev: "evalBool e (oc_CloseWhen (ss_Occurrence (cs_Situation (se_spec e)))) inp (sit, ps)
        = (eval_uncached e (oc_CloseWhen (ss_Occurrence (cs_Situation (se_spec e)))) inp, sit, ps')" "coherent e ps'"
      using True by (metis evalBool_effect)
    have "life_step e inp sit (moved_to e PhaseResolved inp sit)"
      if "eval_uncached e (oc_CloseWhen (ss_Occurrence (cs_Situation (se_spec e)))) inp = Inr True"
      using True that by (auto intro: life_step.close)
    with True ev st show ?thesis
      by (auto simp: closeOccurrence_def life_run_def with_sit_def op_bind_def op_return_def transition_to_effect
          split: sum.splits)
  qed (auto simp: closeOccurrence_def life_run_def st with_sit_def op_return_def)
qed

definition start_recorded :: "situation \<Rightarrow> string \<Rightarrow> bool" where
  "start_recorded sit key \<longleftrightarrow> (case map_of (st_ConditionStart sit) key of Some t \<Rightarrow> t \<noteq> 0 | None \<Rightarrow> False)"

lemma held_since_new: "\<not> start_recorded sit key \<Longrightarrow> held_since sit key t = t"
  by (simp add: start_recorded_def held_since_def split: option.splits)

lemma conditionStart_effect:
  "conditionStart key t (sit, ps) =
     (Inr (held_since sit key t),
      if start_recorded sit key then sit else sit\<lparr>st_ConditionStart := AList.update key t (st_ConditionStart sit)\<rparr>, ps)"
  by (cases "map_of (st_ConditionStart sit) key")
     (simp_all add: conditionStart_def held_since_def start_recorded_def eval_simps)

lemma moved_to_condition [simp]: "moved_to e to inp (sit\<lparr>st_ConditionStart := c\<rparr>) = moved_to e to inp sit"
  by (simp add: moved_to_def Let_def)

lemma applyTransition_life:
  assumes tr: "tr \<in> set (ss_Transitions (cs_Situation (se_spec e)))" "tr_From tr = st_Phase sit"
  shows "life_run e inp (sit, ps) (snd (applyTransition e tr inp (sit, ps)))"
proof (cases "coherent e ps")
  case True
  then obtain ps' where ev: "evalBool e (tr_When tr) inp (sit, ps) = (eval_uncached e (tr_When tr) inp, sit, ps')" "coherent e ps'"
    by (metis evalBool_effect)
  have forget: "life_step e inp sit (sit\<lparr>st_ConditionStart := AList.delete (transition_key tr) (st_ConditionStart sit)\<rparr>)"
    if "eval_uncached e (tr_When tr) inp = Inr False"
    using tr that by (rule life_step.forget)
  have hold: "life_step e inp sit
      (sit\<lparr>st_ConditionStart := AList.update (transition_key tr) (ei_eventTime inp) (st_ConditionStart sit)\<rparr>)"
    if "eval_uncached e (tr_When tr) inp = Inr True"
       "held_since sit (transition_key tr) (ei_eventTime inp) = ei_eventTime inp"
    using tr that by (rule life_step.hold)
  have advance: "life_step e inp sit (moved_to e (tr_To tr) inp sit)"
    if "eval_uncached e (tr_When tr) inp = Inr True" "optionalMinDuration (tr_MinDuration tr) = Inr d" "st_Phase sit \<noteq> tr_To tr"
       "d \<le> time_sub (ei_eventTime inp) (held_since sit (transition_key tr) (ei_eventTime inp))" for d
    using tr that by (auto intro: life_step.advance)
  show ?thesis
  proof (cases "eval_uncached e (tr_When tr) inp")
    case (Inr held)
    show ?thesis
    proof (cases held)
      case True
      then show ?thesis
        using ev Inr hold advance held_since_new[of sit "transition_key tr" "ei_eventTime inp"]
        by (cases "optionalMinDuration (tr_MinDuration tr)")
           (auto simp: applyTransition_def life_run_def op_bind_def op_return_def op_lift_def transition_to_effect
              conditionStart_effect)
    qed (use ev Inr forget in \<open>auto simp: applyTransition_def life_run_def eval_simps\<close>)
  qed (use ev in \<open>auto simp: applyTransition_def life_run_def op_bind_def\<close>)
qed (simp add: life_run_def)


lemma apply_transitions_life:
  "set trs \<subseteq> set (ss_Transitions (cs_Situation (se_spec e))) \<Longrightarrow>
     op_keeps (life_run e inp) (apply_transitions e inp trs changed)"
proof (induction trs arbitrary: changed)
  case (Cons tr trs)
  show ?case
  proof (rule op_keepsI)
    fix st :: "situation \<times> programs"
    obtain sit ps where st: "st = (sit, ps)" by fastforce
    have rest: "life_run e inp st2 (snd (apply_transitions e inp trs changed' st2))" for st2 changed'
      using op_keepsD[OF Cons.IH prod.collapse[symmetric]] Cons.prems by simp
    obtain r st1 where step: "applyTransition e tr inp st = (r, st1)" by (rule prod.exhaust)
    have "life_run e inp st st1" if "tr_From tr = st_Phase sit"
      using applyTransition_life[of tr e sit inp ps] Cons.prems that step st by simp
    then show "life_run e inp st (snd (apply_transitions e inp (tr # trs) changed st))"
      using rest[of st] rest[of st1] step life.effect_trans[of e inp st st1] st
      by (auto simp: with_sit_def op_bind_def split: sum.splits)
  qed
qed (simp add: life.keeps_return)

lemma reopenOccurrence_life:
  assumes "st_Phase sit = PhaseResolved"
  shows "life_run e inp (sit, ps) (snd (reopenOccurrence e inp (sit, ps)))"
proof (cases "coherent e ps")
  case True
  let ?open = "oc_OpenWhen (ss_Occurrence (cs_Situation (se_spec e)))"
  obtain ps' where ev: "evalBool e ?open inp (sit, ps) = (eval_uncached e ?open inp, sit, ps')" "coherent e ps'"
    using True by (metis evalBool_effect)
  show ?thesis
  proof (cases "optionalMinDuration (oc_ReopenCooldown (ss_Occurrence (cs_Situation (se_spec e))))")
    case (Inr d)
    have "life_step e inp sit (startNextOccurrence e (ei_eventTime inp) sit)"
      if "\<not> time_sub (ei_eventTime inp) (st_ResolvedAt sit) < d" "eval_uncached e ?open inp = Inr True"
      using assms Inr that by (auto intro: life_step.reopen)
    with ev Inr True show ?thesis
      by (cases "eval_uncached e ?open inp") (auto simp: reopenOccurrence_def life_run_def eval_simps)
  qed (auto simp: reopenOccurrence_def life_run_def eval_simps)
qed (simp add: life_run_def)

lemma openOccurrence_keeps: "op_keeps (life_run e inp) (openOccurrence e inp)"
proof (rule op_keepsI)
  fix st :: "situation \<times> programs"
  obtain sit ps where st: "st = (sit, ps)" by fastforce
  have "life_run e inp st (snd (evalBool e expr inp st))" for expr
    by (rule op_keepsD[OF evalBool_keeps prod.collapse[symmetric]])
  then show "life_run e inp st (snd (openOccurrence e inp st))"
    using reopenOccurrence_life[of sit e inp ps] life.effect_refl[of e inp st]
    by (simp add: openOccurrence_def with_sit_def op_return_def st)
qed

lemma advanceLifecycle_keeps: "op_keeps (life_run e inp) (advanceLifecycle e inp)"
  unfolding advanceLifecycle_def applyTransitions_def
  by (intro life.keeps_bind life.keeps_return closeOccurrence_keeps openOccurrence_keeps apply_transitions_life subset_refl)

text \<open>The situation a publication leaves behind: the next number, and the phase it was published in before.\<close>

definition published :: "string \<Rightarrow> time \<Rightarrow> situation \<Rightarrow> situation" where
  "published phase watermark sit =
     sit\<lparr>st_PreviousPhase := (if st_Phase sit \<noteq> phase then phase else st_PreviousPhase sit),
         st_Version := st_Version sit + 1, st_UpdatedAt := watermark\<rparr>"

lemma publish_effect:
  "publish schema e phase watermark (sit, ps) =
     (materialize schema e (published phase watermark sit) watermark, published phase watermark sit, ps)"
  by (simp add: publish_def published_def eval_simps Let_def)

definition inputs_for :: "situation_engine \<Rightarrow> time \<Rightarrow> situation \<Rightarrow> evaluation_inputs" where
  "inputs_for e watermark sit =
     \<lparr>ei_features = buildFeaturesMap e sit, ei_situation = buildSituationMap sit,
      ei_eventTime = st_LatestEventTime sit, ei_watermark = watermark\<rparr>"

text \<open>What an evaluation does, by the outcome of the lifecycle.\<close>

lemma evaluate_cases:
  assumes "evaluate schema e watermark completenessChanged (sit, ps) = (r, st')"
  obtains (failed) err where "advanceLifecycle e (inputs_for e watermark sit) (sit, ps) = (Inl err, st')" "r = Inl err"
  | (quiet) changed where "advanceLifecycle e (inputs_for e watermark sit) (sit, ps) = (Inr changed, st')"
      "\<not> changed" "r = Inr None"
  | (published) changed s1 ps1 where
      "advanceLifecycle e (inputs_for e watermark sit) (sit, ps) = (Inr changed, s1, ps1)"
      "changed \<or> completenessChanged \<and> st_Version s1 \<noteq> 0"
      "st' = (published (st_Phase sit) watermark s1, ps1)"
      "r = (case materialize schema e (published (st_Phase sit) watermark s1) watermark of
              Inl err \<Rightarrow> Inl err | Inr v \<Rightarrow> Inr (Some v))"
proof -
  obtain r1 s1 ps1 where adv: "advanceLifecycle e (inputs_for e watermark sit) (sit, ps) = (r1, s1, ps1)"
    by (metis surj_pair)
  note ev = assms[unfolded evaluate_def with_sit_def Let_def fst_conv op_bind_def inputs_for_def[symmetric] adv prod.case]
  show thesis
  proof (cases r1)
    case (Inl err)
    with ev adv show thesis by (intro failed) auto
  next
    case (Inr changed)
    show thesis
    proof (cases "\<not> changed \<and> (\<not> completenessChanged \<or> st_Version s1 = 0)")
      case True
      with ev adv Inr show thesis by (intro quiet) (auto simp: op_return_def)
    next
      case False
      with ev adv Inr show thesis
        by (intro published[of changed s1 ps1]) (auto simp: publish_effect op_return_def split: sum.splits)
    qed
  qed
qed


section \<open>Applying a feature\<close>

lemma coherent_engine:
  "coherent (e\<lparr>se_active := act\<rparr>) = coherent e"
  "coherent (e\<lparr>se_programs := ps\<rparr>) = coherent e"
  by (simp_all add: coherent_def compileProgram_def fun_eq_iff)

definition evidenced :: "situation_engine \<Rightarrow> feature \<Rightarrow> situation" where
  "evidenced e f = snd (applyFeatureEvidence e f (situationForFeature e f))"

lemma ApplyFeature_unfold:
  assumes "ApplyFeature schema f watermark e = (r, e')"
  obtains completenessChanged version sit' ps' where
    "completenessChanged = fst (applyFeatureEvidence e f (situationForFeature e f))"
    "evaluate schema e watermark completenessChanged (evidenced e f, se_programs e) = (version, sit', ps')"
    "e' = e\<lparr>se_programs := ps', se_active := AList.update (feature_key f) sit' (se_active e)\<rparr>"
    "r = (case version of Inl err \<Rightarrow> Inl (Wrapf ''evaluate situation'' err) | Inr None \<Rightarrow> Inr [] | Inr (Some v) \<Rightarrow> Inr [v])"
proof -
  obtain cc sit where ev: "applyFeatureEvidence e f (situationForFeature e f) = (cc, sit)"
    by (rule prod.exhaust)
  obtain version sit' ps' where run: "evaluate schema e watermark cc (sit, se_programs e) = (version, sit', ps')"
    by (metis surj_pair)
  show thesis
    using assms ev run
    by (intro that[of cc version sit' ps'])
       (auto simp: ApplyFeature_def evidenced_def Let_def split: sum.splits option.splits)
qed

lemma evaluate_life:
  assumes "coherent e ps" and "evaluate schema e watermark cc (sit, ps) = (r, sit', ps')"
  obtains s1 where "(life_step e (inputs_for e watermark sit))\<^sup>*\<^sup>* sit s1" and "coherent e ps'"
    and "sit' = s1 \<or> sit' = published (st_Phase sit) watermark s1"
  using assms(2)
proof (cases rule: evaluate_cases)
  note life = op_keepsD[OF advanceLifecycle_keeps, unfolded life_run_def]
  {
    case failed
    then show thesis using life[OF failed(1)] assms(1) that by auto
  next
    case quiet
    then show thesis using life[OF quiet(1)] assms(1) that by auto
  next
    case (published changed s1 ps1)
    then show thesis using life[OF published(1)] assms(1) that[of s1] by auto
  }
qed

lemma ApplyFeature_coherent:
  assumes "coherent e (se_programs e)" and "ApplyFeature schema f watermark e = (r, e')"
  shows "coherent e' (se_programs e')"
  using assms(2)
proof (cases rule: ApplyFeature_unfold)
  case (1 cc version sit' ps')
  then show ?thesis
    using evaluate_life[OF assms(1) 1(2)] by (auto simp: coherent_engine)
qed

text \<open>
  Claim C30. Refinement of the lifecycle: whatever a feature does to its situation, success or error, is
  to record the feature's evidence, then a sequence of moves of the abstract lifecycle, then at most one
  publication. So a phase is left only by a declared transition out of it whose condition holds and has
  been holding for its minimum duration, or by the closing condition when no transition leads to the
  resolved phase and the occurrence is open; a resolved situation starts a new occurrence only when the
  cooldown since its resolution is over and the opening condition holds. Conditions are read on the
  inputs at the start of the evaluation, whether or not their programs were cached. No other situation
  of the engine changes.
\<close>

theorem ApplyFeature_refines_lifecycle:
  assumes "coherent e (se_programs e)" and "ApplyFeature schema f watermark e = (r, e')"
  shows "\<exists>sit1. (life_step e (inputs_for e watermark (evidenced e f)))\<^sup>*\<^sup>* (evidenced e f) sit1
           \<and> map_of (se_active e') (feature_key f) \<in>
               {Some sit1, Some (published (st_Phase (evidenced e f)) watermark sit1)}
           \<and> (\<forall>key. key \<noteq> feature_key f \<longrightarrow> map_of (se_active e') key = map_of (se_active e) key)
           \<and> coherent e' (se_programs e')"
  using assms(2)
proof (cases rule: ApplyFeature_unfold)
  case (1 cc version sit' ps')
  have "coherent e' (se_programs e')"
    using assms by (rule ApplyFeature_coherent)
  moreover obtain s1 where "(life_step e (inputs_for e watermark (evidenced e f)))\<^sup>*\<^sup>* (evidenced e f) s1"
    and "sit' = s1 \<or> sit' = published (st_Phase (evidenced e f)) watermark s1"
    using evaluate_life[OF assms(1) 1(2)] .
  ultimately show ?thesis
    using 1(3) by (intro exI[of _ s1]) (auto simp: update_conv')
qed


section \<open>The invariant of the situations\<close>

definition sit_ok :: "situation_engine \<Rightarrow> situation \<Rightarrow> bool" where
  "sit_ok e sit \<longleftrightarrow>
     st_SituationID sit = PrefixSituation @ situation_hash e (key_of_situation sit)
     \<and> st_Severity sit = severityForPhase e (st_Phase sit)
     \<and> distinct (st_Evidence sit) \<and> int (length (st_Evidence sit)) \<le> MaxEvidence
     \<and> (st_Inputs sit \<noteq> [] \<longrightarrow> st_Completeness sit = Weakest (map snd (st_Inputs sit)))
     \<and> 0 \<le> st_Version sit
     \<and> distinct (map fst (st_Facts sit)) \<and> distinct (map fst (st_Inputs sit)) \<and> distinct (map fst (st_ConditionStart sit))"

text \<open>What the identity of a situation is made of; no operation touches it.\<close>

definition sit_identity :: "situation \<Rightarrow> string \<times> situation_key" where
  "sit_identity sit = (st_SituationID sit, key_of_situation sit)"

lemma severity_initial: "initialSeverity e = severityForPhase e (ss_InitialPhase (cs_Situation (se_spec e)))"
  by (simp add: initialSeverity_def severityForPhase_def)

lemma sit_ok_new: "sit_ok e (newSituation e key t)" "key_of_situation (newSituation e key t) = key"
  by (auto simp: sit_ok_def newSituation_def key_of_situation_def severity_initial MaxEvidence_def split: prod.splits)

lemma life_step_identity: "life_step e inp sit sit' \<Longrightarrow> sit_identity sit' = sit_identity sit \<and> st_Version sit' = st_Version sit"
  by (induction rule: life_step.induct)
     (simp_all add: sit_identity_def key_of_situation_def moved_to_def startNextOccurrence_def Let_def)

lemma life_step_ok: "life_step e inp sit sit' \<Longrightarrow> sit_ok e sit \<Longrightarrow> sit_ok e sit'"
  by (induction rule: life_step.induct)
     (simp_all add: sit_ok_def key_of_situation_def moved_to_def startNextOccurrence_def Let_def severity_initial
        distinct_delete)

lemma life_steps_ok:
  assumes "(life_step e inp)\<^sup>*\<^sup>* sit sit'"
  shows "sit_identity sit' = sit_identity sit" "st_Version sit' = st_Version sit" "sit_ok e sit \<Longrightarrow> sit_ok e sit'"
  using assms by (induction rule: rtranclp_induct) (auto dest: life_step_identity life_step_ok)

lemma published_ok: "sit_ok e sit \<Longrightarrow> sit_ok e (published phase watermark sit)"
  "sit_identity (published phase watermark sit) = sit_identity sit"
  by (simp_all add: sit_ok_def sit_identity_def key_of_situation_def published_def)

lemma newEvidenceBatch_spec:
  "distinct order \<Longrightarrow> distinct (newEvidenceBatch order ids) \<and> set (newEvidenceBatch order ids) = set order \<union> set ids"
  by (induction order ids rule: newEvidenceBatch.induct) auto

lemma keepNewest_spec: "keepNewest evidence limit = drop (nat (int (length evidence) - limit)) evidence"
  by (simp add: keepNewest_def)

lemma addEvidence_ok:
  assumes "sit_ok e sit" and "0 \<le> limit" and "limit \<le> MaxEvidence"
  shows "sit_ok e (addEvidence eventIDs limit sit)" "sit_identity (addEvidence eventIDs limit sit) = sit_identity sit"
proof -
  have "distinct (newEvidenceBatch [] eventIDs)"
    using newEvidenceBatch_spec[of "[]"] by simp
  moreover have "distinct (st_Evidence sit)"
    using assms(1) by (simp add: sit_ok_def)
  ultimately have "distinct (st_Evidence (addEvidence eventIDs limit sit))"
    "int (length (st_Evidence (addEvidence eventIDs limit sit))) \<le> limit"
    using assms(2) by (auto simp: addEvidence_def keepNewest_spec Let_def intro!: distinct_drop dest!: in_set_dropD)
  with assms show "sit_ok e (addEvidence eventIDs limit sit)"
    by (simp add: sit_ok_def key_of_situation_def addEvidence_def Let_def)
qed (simp add: sit_identity_def key_of_situation_def addEvidence_def Let_def)

lemma keepLatestFact_ok:
  "sit_ok e sit \<Longrightarrow> sit_ok e (keepLatestFact field f sit)" "sit_identity (keepLatestFact field f sit) = sit_identity sit"
  by (simp_all add: sit_ok_def sit_identity_def key_of_situation_def keepLatestFact_def Let_def)

lemma evidenceLimit_bounds: "0 < evidenceLimit n" "evidenceLimit n \<le> MaxEvidence"
  by (simp_all add: evidenceLimit_def MaxEvidence_def)

lemma applyReducer_ok:
  "sit_ok e sit \<Longrightarrow> sit_ok e (applyReducer f r sit)" "sit_identity (applyReducer f r sit) = sit_identity sit"
  using evidenceLimit_bounds[of "rd_Limit r"]
  by (simp_all add: applyReducer_def keepLatestFact_ok addEvidence_ok(1))
     (simp add: addEvidence_def sit_identity_def key_of_situation_def Let_def)

lemma applyReducers_ok:
  "sit_ok e sit \<Longrightarrow> sit_ok e (applyReducers e' f sit)" "sit_identity (applyReducers e' f sit) = sit_identity sit"
proof -
  have "(sit_ok e sit \<longrightarrow> sit_ok e (fold (applyReducer f) rs sit)) \<and> sit_identity (fold (applyReducer f) rs sit) = sit_identity sit" for rs
    by (induction rs arbitrary: sit) (simp_all add: applyReducer_ok)
  then show "sit_ok e sit \<Longrightarrow> sit_ok e (applyReducers e' f sit)" "sit_identity (applyReducers e' f sit) = sit_identity sit"
    by (simp_all add: applyReducers_def)
qed

lemma recordInputCompleteness_ok:
  "sit_ok e sit \<Longrightarrow> sit_ok e (snd (recordInputCompleteness f sit))"
  "sit_identity (snd (recordInputCompleteness f sit)) = sit_identity sit"
  by (simp_all add: sit_ok_def sit_identity_def key_of_situation_def recordInputCompleteness_def Let_def)

lemma recordTimerProvenance_ok:
  "sit_ok e sit \<Longrightarrow> sit_ok e (recordTimerProvenance m sit)"
  "sit_identity (recordTimerProvenance m sit) = sit_identity sit"
  by (simp_all add: sit_ok_def sit_identity_def key_of_situation_def recordTimerProvenance_def)

lemma applyFeatureEvidence_ok:
  "sit_ok e sit \<Longrightarrow> sit_ok e (snd (applyFeatureEvidence e' f sit))"
  "sit_identity (snd (applyFeatureEvidence e' f sit)) = sit_identity sit"
proof -
  define s3 where "s3 = recordTimerProvenance (f_Metadata f) (applyReducers e' f (snd (recordInputCompleteness f sit)))"
  have s3: "sit_ok e sit \<Longrightarrow> sit_ok e s3" "sit_identity s3 = sit_identity sit"
    by (simp_all add: s3_def recordTimerProvenance_ok applyReducers_ok recordInputCompleteness_ok)
  define s5 where "s5 = snd (applyFeatureEvidence e' f sit)"
  have "s5 = s3\<lparr>st_LatestEventTime := st_LatestEventTime s5, st_Traceparent := st_Traceparent s5, st_Tracestate := st_Tracestate s5\<rparr>"
    unfolding s5_def s3_def applyFeatureEvidence_def by (simp add: Let_def split_beta)
  then obtain t p q where "s5 = s3\<lparr>st_LatestEventTime := t, st_Traceparent := p, st_Tracestate := q\<rparr>"
    by blast
  then show "sit_ok e sit \<Longrightarrow> sit_ok e (snd (applyFeatureEvidence e' f sit))"
    "sit_identity (snd (applyFeatureEvidence e' f sit)) = sit_identity sit"
    using s3 unfolding s5_def[symmetric] by (simp_all add: sit_ok_def sit_identity_def key_of_situation_def)
qed


definition engine_ok :: "situation_engine \<Rightarrow> bool" where
  "engine_ok e \<longleftrightarrow> coherent e (se_programs e)
     \<and> (\<forall>key sit. map_of (se_active e) key = Some sit \<longrightarrow> key_of_situation sit = key \<and> sit_ok e sit)"

lemma engine_okD: "engine_ok e \<Longrightarrow> map_of (se_active e) key = Some sit \<Longrightarrow> key_of_situation sit = key \<and> sit_ok e sit"
  unfolding engine_ok_def by blast

inductive engine_reachable :: "situation_engine \<Rightarrow> bool" where
  reach_new: "NewEngine deploymentID tenantID partitionID compiled idGen env = Inr e \<Longrightarrow> engine_reachable e"
| reach_feature: "engine_reachable e \<Longrightarrow> ApplyFeature schema f watermark e = (r, e') \<Longrightarrow> engine_reachable e'"
| reach_restore: "engine_reachable e \<Longrightarrow> sit_ok e sit \<Longrightarrow> Restore sit e = (r, e') \<Longrightarrow> engine_reachable e'"
| reach_reset: "engine_reachable e \<Longrightarrow> engine_reachable (Reset e)"

lemma sit_ok_engine:
  "sit_ok (e\<lparr>se_active := act\<rparr>) sit = sit_ok e sit"
  "sit_ok (e\<lparr>se_programs := ps\<rparr>) sit = sit_ok e sit"
  by (simp_all add: sit_ok_def situation_hash_def severityForPhase_def split: prod.splits)

lemma situationForFeature_ok:
  "engine_ok e \<Longrightarrow> sit_ok e (situationForFeature e f) \<and> key_of_situation (situationForFeature e f) = feature_key f"
  by (simp add: situationForFeature_def sit_ok_new engine_okD split: option.splits)

lemma evidenced_ok:
  assumes "engine_ok e"
  shows "sit_ok e (evidenced e f)" "sit_identity (evidenced e f) = sit_identity (situationForFeature e f)"
    "key_of_situation (evidenced e f) = feature_key f"
  using situationForFeature_ok[OF assms, of f] applyFeatureEvidence_ok(2)[of e f "situationForFeature e f"]
  by (simp_all add: evidenced_def sit_identity_def applyFeatureEvidence_ok(1))

lemma engine_ok_feature:
  assumes ok: "engine_ok e" and run: "ApplyFeature schema f watermark e = (r, e')"
  shows "engine_ok e'"
  using run
proof (cases rule: ApplyFeature_unfold)
  case (1 cc version sit' ps')
  have coh: "coherent e (se_programs e)"
    using ok by (simp add: engine_ok_def)
  obtain s1 where s1: "(life_step e (inputs_for e watermark (evidenced e f)))\<^sup>*\<^sup>* (evidenced e f) s1" "coherent e ps'"
    "sit' = s1 \<or> sit' = published (st_Phase (evidenced e f)) watermark s1"
    using evaluate_life[OF coh 1(2)] .
  have "sit_ok e sit'" "key_of_situation sit' = feature_key f"
    using s1(3) life_steps_ok[OF s1(1)] evidenced_ok[OF ok, of f] published_ok
    by (auto simp: sit_identity_def)
  with ok s1(2) show ?thesis
    unfolding 1(3) engine_ok_def by (simp add: sit_ok_engine coherent_engine update_conv')
qed

lemma reachable_engine_ok: "engine_reachable e \<Longrightarrow> engine_ok e"
proof (induction rule: engine_reachable.induct)
  case (reach_new deploymentID tenantID partitionID compiled idGen env e)
  then show ?case
    by (auto simp: NewEngine_def engine_ok_def bind_res_Inr_iff)
next
  case (reach_restore e sit r e')
  then show ?case
    by (auto simp: Restore_def engine_ok_def update_conv' sit_ok_engine coherent_engine split: if_splits)
next
  case (reach_reset e)
  then show ?case
    by (simp add: Reset_def engine_ok_def coherent_engine)
qed (rule engine_ok_feature)

text \<open>
  Claim C31. Invariant of the situation engine: in every state it reaches by features (applied with success
  or failing half way), resets and restores of situations that satisfy the invariant, a situation is
  stored under its own partition and entity, carries the identifier derived from them, has the severity
  the specification gives its phase, holds its evidence without duplicates and within the maximum, has
  the weakest completeness of its inputs and a version that is not negative; and every cached program is
  the one compiling its expression gives.
\<close>

theorem situation_invariant:
  assumes "engine_reachable e" and "map_of (se_active e) key = Some sit"
  shows "key_of_situation sit = key
    \<and> st_SituationID sit = PrefixSituation @ situation_hash e key
    \<and> st_Severity sit = severityForPhase e (st_Phase sit)
    \<and> distinct (st_Evidence sit) \<and> length (st_Evidence sit) \<le> 4096
    \<and> (st_Inputs sit \<noteq> [] \<longrightarrow> st_Completeness sit = Weakest (map snd (st_Inputs sit)))
    \<and> 0 \<le> st_Version sit
    \<and> (\<forall>expr prg. map_of (se_programs e) expr = Some prg \<longrightarrow> compileProgram e expr = Inr prg)"
  using engine_okD[OF reachable_engine_ok[OF assms(1)] assms(2)] reachable_engine_ok[OF assms(1)]
  by (auto simp: engine_ok_def sit_ok_def MaxEvidence_def coherent_def)

section \<open>Version numbers\<close>

definition version_at :: "situation_engine \<Rightarrow> situation_key \<Rightarrow> int" where
  "version_at e key = (case map_of (se_active e) key of Some sit \<Rightarrow> st_Version sit | None \<Rightarrow> 0)"

lemma applyReducer_version [simp]: "st_Version (applyReducer f r sit) = st_Version sit"
  by (simp add: applyReducer_def keepLatestFact_def addEvidence_def Let_def)

lemma evidenced_version: "st_Version (evidenced e f) = version_at e (feature_key f)"
proof -
  have "st_Version (fold (applyReducer f) rs sit) = st_Version sit" for rs sit
    by (induction rs arbitrary: sit) simp_all
  then show ?thesis
    by (simp add: evidenced_def applyFeatureEvidence_def applyReducers_def recordTimerProvenance_def
        recordInputCompleteness_def Let_def split_beta version_at_def situationForFeature_def newSituation_def
        split: option.splits prod.splits)
qed

lemma materialize_version:
  "materialize schema e sit watermark = Inr v \<Longrightarrow>
     \<exists>sj sd tj td. v = (publicationVersion sit watermark)
        \<lparr>sv_SnapshotJSON := sj, sv_SnapshotSHA256 := sd, sv_StateJSON := tj, sv_StateSHA256 := td\<rparr>
      \<and> snapshot schema e sit (publishedFacts sit) (sortedEvidenceIDs sit) watermark = Inr (sj, sd)
      \<and> persistedState sit = Inr (tj, td)"
  by (auto simp: materialize_def bind_res_Inr_iff Let_def publicationVersion_def)

lemma ApplyFeature_numbers:
  assumes "coherent e (se_programs e)" and "ApplyFeature schema f watermark e = (Inr vs, e')"
  shows "vs = [] \<and> version_at e' (feature_key f) = version_at e (feature_key f)
    \<or> (\<exists>v. vs = [v] \<and> sv_Version v = version_at e (feature_key f) + 1
         \<and> sv_PreviousVersion v = version_at e (feature_key f)
         \<and> version_at e' (feature_key f) = version_at e (feature_key f) + 1)"
  using assms(2)
proof (cases rule: ApplyFeature_unfold)
  case (1 cc version sit' ps')
  note life = op_keepsD[OF advanceLifecycle_keeps, unfolded life_run_def]
  have at: "version_at e' (feature_key f) = st_Version sit'"
    using 1(3) by (simp add: version_at_def update_conv')
  from 1(2) show ?thesis
  proof (cases rule: evaluate_cases)
    case failed
    with 1(4) show ?thesis by simp
  next
    case quiet
    then show ?thesis
      using life[OF quiet(1)] assms(1) 1(4) at life_steps_ok(2) evidenced_version[of e f] by auto
  next
    case (published changed s1 ps1)
    then have "st_Version s1 = version_at e (feature_key f)"
      using life[OF published(1)] assms(1) life_steps_ok(2) evidenced_version[of e f] by auto
    with published 1(4) at show ?thesis
      by (auto simp: published_def publicationVersion_def dest!: materialize_version split: sum.splits)
  qed
qed


fun apply_features ::
  "(document \<Rightarrow> unit result) \<Rightarrow> (feature \<times> time) list \<Rightarrow> situation_engine
     \<Rightarrow> ((situation_key \<times> situation_version) list \<times> situation_engine) result" where
  "apply_features schema [] e = Inr ([], e)"
| "apply_features schema ((f, watermark) # fs) e = (case ApplyFeature schema f watermark e of
     (Inl err, _) \<Rightarrow> Inl err
   | (Inr vs, e1) \<Rightarrow> bind_res (apply_features schema fs e1) (\<lambda>(out, e2). Inr (map (Pair (feature_key f)) vs @ out, e2)))"

definition versions_of :: "situation_key \<Rightarrow> (situation_key \<times> situation_version) list \<Rightarrow> situation_version list" where
  "versions_of key out = map snd (filter (\<lambda>kv. fst kv = key) out)"

lemma versions_of_append: "versions_of key (xs @ ys) = versions_of key xs @ versions_of key ys"
  by (simp add: versions_of_def)

lemma versions_of_pairs: "versions_of key (map (Pair k) vs) = (if k = key then vs else [])"
  by (induction vs) (auto simp: versions_of_def)

lemma ApplyFeature_other:
  assumes "ApplyFeature schema f watermark e = (r, e')" and "key \<noteq> feature_key f"
  shows "version_at e' key = version_at e key"
  using assms(1)
proof (cases rule: ApplyFeature_unfold)
  case (1 cc version sit' ps')
  show ?thesis
    using assms(2) by (simp add: 1(3) version_at_def update_conv')
qed

lemma upto_next: "n \<le> m \<Longrightarrow> [n + 1..m] = (if n < m then (n + 1) # [n + 1 + 1..m] else [])" for n m :: int
  by (simp add: upto_rec1)

text \<open>
  Version numbers: when a sequence of features is applied without an error, the versions
  published for an entity are numbered one after the other from the number its situation had, each
  naming the one before as its predecessor, and the engine ends at the last number published. No number
  is skipped or used twice, however the features of other entities are interleaved.
\<close>

theorem versions_consecutive:
  assumes "coherent e (se_programs e)" and "apply_features schema fs e = Inr (out, e')"
  shows "map sv_Version (versions_of key out) = [version_at e key + 1..version_at e' key]
    \<and> (\<forall>v \<in> set (versions_of key out). sv_PreviousVersion v = sv_Version v - 1)
    \<and> version_at e key \<le> version_at e' key"
  using assms
proof (induction fs arbitrary: e out)
  case Nil
  then show ?case by (simp add: versions_of_def)
next
  case (Cons fw fs)
  obtain f watermark where fw: "fw = (f, watermark)" by fastforce
  obtain vs e1 out1 where step: "ApplyFeature schema f watermark e = (Inr vs, e1)"
    and rest: "apply_features schema fs e1 = Inr (out1, e')" and out: "out = map (Pair (feature_key f)) vs @ out1"
    using Cons.prems(2) fw by (auto simp: bind_res_Inr_iff split: prod.splits sum.splits)
  note coh = Cons.prems(1)
  note IH = Cons.IH[OF ApplyFeature_coherent[OF coh step] rest]
  show ?case
  proof (cases "feature_key f = key")
    case True
    with ApplyFeature_numbers[OF coh step] IH out upto_next[of "version_at e key" "version_at e' key"] show ?thesis
      by (auto simp: versions_of_append versions_of_pairs)
  next
    case False
    with ApplyFeature_other[OF step, of key] IH out show ?thesis
      by (auto simp: versions_of_append versions_of_pairs)
  qed
qed

section \<open>Persisted state\<close>

lemma state_fact_go: "go_value (state_fact v) = go_value v" "depth (state_fact v) = depth v"
  by (cases v; simp)+

lemma list_all_map_snd: "list_all id (map snd (map (map_prod id P) kvs)) \<longleftrightarrow> (\<forall>kv \<in> set kvs. P (snd kv))"
  by (auto simp: list_all_iff)

lemma state_document_go:
  assumes "go_value (AnyMap (st_Facts sit))" and "depth (AnyMap (st_Facts sit)) < max_nesting_depth"
    and "distinct (map fst (st_Inputs sit))"
  defines "doc \<equiv> AnyMap (stateDocument sit (stateFacts sit) (st_Evidence sit) (stateConditionStart sit))"
  shows "go_value doc" "depth doc \<le> max_nesting_depth"
proof -
  have facts: "go_value (AnyMap (stateFacts sit))" "depth (AnyMap (stateFacts sit)) = depth (AnyMap (st_Facts sit))"
    using assms(1) by (simp_all add: stateFacts_def state_fact_go list_all_map_snd list_all_iff comp_def split_beta)
  have inputs: "go_value (AnyMap (stateInputs (st_Inputs sit)))" "depth (AnyMap (stateInputs (st_Inputs sit))) \<le> 1"
  proof -
    have "foldr max (map (\<lambda>x. 0::nat) xs) 0 = 0" for xs :: "(string \<times> string) list"
      by (induction xs) auto
    then show "go_value (AnyMap (stateInputs (st_Inputs sit)))" "depth (AnyMap (stateInputs (st_Inputs sit))) \<le> 1"
      using assms(3) by (simp_all add: stateInputs_def list_all_iff comp_def split_beta)
  qed
  have limit: "2 \<le> max_nesting_depth" by (simp add: max_nesting_depth_def)
  show "go_value doc"
    using facts(1) inputs(1) by (simp add: doc_def stateDocument_def addLifecycleState_def Let_def del: go_value.simps(14)) simp
  show "depth doc \<le> max_nesting_depth"
    using facts(2) inputs(2) assms(2) limit
    by (simp add: doc_def stateDocument_def addLifecycleState_def Let_def)
qed


lemma persistedState_digest:
  assumes "persistedState sit = Inr (blob, digest)"
  shows "stateJSON sit = Inr blob" "stateDigest blob = Inr digest"
  using assms by (auto simp: persistedState_def stateDigest_def bind_res_Inr_iff split: option.splits)

lemma stateDigest_covers:
  assumes "go_value (AnyMap doc)" and "depth (AnyMap doc) \<le> max_nesting_depth" and "Marshal (AnyMap doc) = Inr blob"
    and "stateDigest blob = Inr digest"
  shows "digest = EncodeDigest (sha256 (DomainSituationState @ blob))"
proof -
  obtain d where d: "canon (AnyMap doc) = AnyMap d"
    by simp
  have "unmarshal_map blob = Some d" "Marshal (AnyMap d) = Inr blob"
    using Marshal_reads[OF assms(1-3)] d by (simp_all add: unmarshal_map_def)
  with assms(4) show ?thesis
    by (auto simp: stateDigest_def Digest_def DigestSum_def Seal_def bind_res_Inr_iff split: if_splits)
qed

lemma snapshot_covers:
  assumes "snapshot schema e sit facts evidence watermark = Inr (json, digest)"
  shows "Marshal (AnyMap (snapshotDocument e sit facts evidence watermark)) = Inr json
     \<and> digest = EncodeDigest (sha256 (DomainSnapshot @ json))"
  using assms by (auto simp: snapshot_def Seal_def bind_res_Inr_iff Let_def split: if_splits)

lemma ApplyFeature_publishes:
  assumes "ApplyFeature schema f watermark e = (Inr [v], e')"
  obtains sit where "map_of (se_active e') (feature_key f) = Some sit" and "materialize schema e sit watermark = Inr v"
  using assms
proof (cases rule: ApplyFeature_unfold)
  case (1 cc version sit' ps')
  then have "version = Inr (Some v)"
    by (auto split: sum.splits option.splits)
  moreover have "map_of (se_active e') (feature_key f) = Some sit'"
    using 1(3) by (simp add: update_conv')
  ultimately show thesis
    using that by (rule_tac evaluate_cases[OF 1(2)]) (auto split: sum.splits)
qed

text \<open>
  Claim C32. A published version carries the state it was made from: after a feature publishes a version,
  the engine's current state of that entity is, byte for byte and digest for digest, the state the version
  carries; the snapshot digest is the digest of the snapshot bytes in the snapshot domain; and when the
  facts are a Go map that does not nest beyond the limit of the JSON reader, the state digest, which the
  code computes by decoding the bytes and encoding them again, is the digest of exactly those bytes in
  the situation state domain, and the bytes pass the check of stored documents.
\<close>

theorem published_state_is_current:
  assumes "ApplyFeature schema f watermark e = (Inr [v], e')"
  shows "\<exists>sit. CurrentState e' (f_PartitionID f) (f_EntityType f) (f_EntityID f) = Inr (Some (sit, sv_StateJSON v, sv_StateSHA256 v))
    \<and> sv_Version v = st_Version sit
    \<and> sv_SnapshotSHA256 v = EncodeDigest (sha256 (DomainSnapshot @ sv_SnapshotJSON v))
    \<and> (go_value (AnyMap (st_Facts sit)) \<and> distinct (map fst (st_Inputs sit)) \<and> depth (AnyMap (st_Facts sit)) < max_nesting_depth \<longrightarrow>
         sv_StateSHA256 v = EncodeDigest (sha256 (DomainSituationState @ sv_StateJSON v))
         \<and> VerifyStored (sv_StateJSON v) (Sum (sv_StateJSON v)) = Inr ())"
  using assms
proof (rule ApplyFeature_publishes)
  fix sit
  assume at: "map_of (se_active e') (feature_key f) = Some sit" and mat: "materialize schema e sit watermark = Inr v"
  obtain sj sd tj td where v: "v = (publicationVersion sit watermark)
        \<lparr>sv_SnapshotJSON := sj, sv_SnapshotSHA256 := sd, sv_StateJSON := tj, sv_StateSHA256 := td\<rparr>"
    and snap: "snapshot schema e sit (publishedFacts sit) (sortedEvidenceIDs sit) watermark = Inr (sj, sd)"
    and state: "persistedState sit = Inr (tj, td)"
    using materialize_version[OF mat] by blast
  have marshal: "Marshal (AnyMap (stateDocument sit (stateFacts sit) (st_Evidence sit) (stateConditionStart sit))) = Inr tj"
    using persistedState_digest(1)[OF state] by (simp add: stateJSON_def)
  show ?thesis
  proof (intro exI[of _ sit] conjI impI)
    show "CurrentState e' (f_PartitionID f) (f_EntityType f) (f_EntityID f) = Inr (Some (sit, sv_StateJSON v, sv_StateSHA256 v))"
      using at persistedState_digest[OF state] v by (simp add: CurrentState_def feature_key_def)
    show "sv_Version v = st_Version sit"
      using v by (simp add: publicationVersion_def)
    show "sv_SnapshotSHA256 v = EncodeDigest (sha256 (DomainSnapshot @ sv_SnapshotJSON v))"
      using snapshot_covers[OF snap] v by simp
    assume "go_value (AnyMap (st_Facts sit)) \<and> distinct (map fst (st_Inputs sit)) \<and> depth (AnyMap (st_Facts sit)) < max_nesting_depth"
    then have doc: "go_value (AnyMap (stateDocument sit (stateFacts sit) (st_Evidence sit) (stateConditionStart sit)))"
      "depth (AnyMap (stateDocument sit (stateFacts sit) (st_Evidence sit) (stateConditionStart sit))) \<le> max_nesting_depth"
      using state_document_go by blast+
    show "sv_StateSHA256 v = EncodeDigest (sha256 (DomainSituationState @ sv_StateJSON v))"
      using stateDigest_covers[OF doc marshal persistedState_digest(2)[OF state]] v by simp
    show "VerifyStored (sv_StateJSON v) (Sum (sv_StateJSON v)) = Inr ()"
      using Marshal_reads[OF doc marshal] v by (simp add: VerifyStored_def HasSumLength_def Sum_def checkCanonical_def)
  qed
qed

section \<open>What the expressions see\<close>

lemma addReducedFeature_nil:
  "map_of (addReducedFeature facts evidence r features) k = Some AnyNil \<Longrightarrow> map_of features k = Some AnyNil"
  by (auto simp: addReducedFeature_def update_conv' split: if_splits option.splits)

lemma addOperatorDefault_spec:
  "map_of (addOperatorDefault op features) k =
     (case map_of features k of
        Some v \<Rightarrow> Some v
      | None \<Rightarrow> if k = op_Output op then Some (if op_Kind op = ''missing_heartbeat'' then AnyBool False else AnyFloat64 (Finite 0))
                else None)"
  by (auto simp: addOperatorDefault_def update_conv' split: option.splits)

lemma addOperatorDefaults_spec:
  "map_of (addOperatorDefaults features ops) k =
     (case map_of features k of
        Some v \<Rightarrow> Some v
      | None \<Rightarrow> map_option (\<lambda>op. if op_Kind op = ''missing_heartbeat'' then AnyBool False else AnyFloat64 (Finite 0))
                  (find (\<lambda>op. op_Output op = k) ops))"
  unfolding addOperatorDefaults_def
  by (induction ops arbitrary: features) (auto simp: addOperatorDefault_spec split: option.splits)

text \<open>
  The variables of the expressions are typed before anything is evaluated: the feature map binds
  the output of every operator to a value that is not nil, so no condition fails on a missing feature; an
  output that no reducer has filled yet is false for a heartbeat operator and zero for any other, and a
  binding that a reducer made is never replaced by such a default.
\<close>

theorem CELFeatures_typed:
  assumes "op \<in> set (cs_Operators compiled)"
  shows "\<exists>v. map_of (CELFeatures compiled facts evidence) (op_Output op) = Some v \<and> v \<noteq> AnyNil
    \<and> v = (case map_of (fold (addReducedFeature facts evidence) (ss_Reducers (cs_Situation compiled)) []) (op_Output op) of
             Some w \<Rightarrow> w
           | None \<Rightarrow> (case find (\<lambda>o'. op_Output o' = op_Output op) (cs_Operators compiled) of
               Some o' \<Rightarrow> if op_Kind o' = ''missing_heartbeat'' then AnyBool False else AnyFloat64 (Finite 0)
             | None \<Rightarrow> AnyNil))"
proof -
  have "map_of (fold (addReducedFeature facts evidence) rs features) k = Some AnyNil \<Longrightarrow> map_of features k = Some AnyNil"
    for rs features k
    by (induction rs arbitrary: features) (auto dest: addReducedFeature_nil)
  from this[of "ss_Reducers (cs_Situation compiled)" "[]" "op_Output op"]
  have "map_of (fold (addReducedFeature facts evidence) (ss_Reducers (cs_Situation compiled)) []) (op_Output op) \<noteq> Some AnyNil"
    by auto
  moreover have "find (\<lambda>o'. op_Output o' = op_Output op) (cs_Operators compiled) \<noteq> None"
    using assms by (auto simp: find_None_iff)
  ultimately show ?thesis
    by (auto simp: CELFeatures_def addOperatorDefaults_spec split: option.splits)
qed

section \<open>A worked instance\<close>

definition demo_cel :: cel_env where
  "demo_cel = \<lparr>ce_Compile = (\<lambda>expr. Inr expr), ce_Program = (\<lambda>ast. Inr (\<lambda>doc. Inr (Inr (AnyBool (ast = ''hot'')))))\<rparr>"

definition plant_spec :: "string \<Rightarrow> situation_spec" where
  "plant_spec digest =
     \<lparr>cs_Inputs = [],
      cs_Time = \<lparr>WatermarkStrategy = '''', MaxOutOfOrderness = '''', IdleTimeout = '''', AllowedLateness = '''', LatePolicy = '''', ClockSkewTolerance = ''''\<rparr>,
      cs_Windows = [], cs_Operators = [], cs_EventSchema = [],
      cs_Situation = \<lparr>ss_Type = ''overheating'',
        ss_Occurrence = \<lparr>oc_OpenWhen = '''', oc_CloseWhen = '''', oc_ReopenCooldown = ''''\<rparr>, ss_InitialPhase = ''watch'',
        ss_Phases = [\<lparr>ph_Name = ''watch'', ph_Severity = 1\<rparr>, \<lparr>ph_Name = ''alarm'', ph_Severity = 3\<rparr>],
        ss_Transitions = [\<lparr>tr_From = ''watch'', tr_To = ''alarm'', tr_When = ''hot'', tr_MinDuration = ''''\<rparr>],
        ss_Reducers = [\<lparr>rd_Field = ''temperature'', rd_Strategy = ''latest_event_time'', rd_Input = ''temp'', rd_Limit = 0\<rparr>,
                       \<lparr>rd_Field = ''readings'', rd_Strategy = ''set_union'', rd_Input = ''temp'', rd_Limit = 2\<rparr>]\<rparr>,
      cs_Digest = digest\<rparr>"

definition demo_situation :: "string \<Rightarrow> int \<Rightarrow> situation" where
  "demo_situation phase version =
     \<lparr>st_SituationID = ''sit_1'', st_TenantID = ''t'', st_DeploymentID = ''d'', st_Type = ''overheating'',
      st_EntityType = ''pump'', st_EntityID = ''p1'', st_PartitionID = 0, st_OccurrenceID = ''occ_1'', st_Version = version,
      st_Phase = phase, st_PreviousPhase = '''', st_Severity = 1, st_Confidence = Finite 1,
      st_Completeness = CompletenessOnTime, st_FirstEventTime = 5, st_LatestEventTime = 5, st_Facts = [],
      st_Evidence = [''e1'', ''e2''], st_Inputs = [(''temp'', CompletenessOnTime)], st_ConditionStart = [], st_OpenedAt = 5,
      st_ResolvedAt = 0, st_UpdatedAt = 5, st_Traceparent = '''', st_Tracestate = ''''\<rparr>"

definition demo_engine :: "string \<Rightarrow> situation \<Rightarrow> situation_engine" where
  "demo_engine digest sit =
     \<lparr>se_deploymentID = ''d'', se_tenantID = ''t'', se_partitionID = 0, se_spec = plant_spec digest, se_idGen = (\<lambda>n. ''id''),
      se_celEnv = demo_cel, se_programs = [], se_active = [((0, ''pump'', ''p1''), sit)]\<rparr>"

definition demo_feature :: "string \<Rightarrow> feature" where
  "demo_feature completeness =
     \<lparr>f_FeatureID = ''f1'', f_OperatorID = ''op'', f_OutputName = ''temp'', f_TenantID = ''t'', f_EntityType = ''pump'',
      f_EntityID = ''p1'', f_StateKey = ''p1'', f_BootID = '''', f_PartitionID = 0, f_WindowStart = 0, f_WindowEnd = 7,
      f_Value = AnyBool True, f_Unit = ''C'', f_EventTime = 7, f_Watermark = 7, f_InputEventIDs = [''e3''],
      f_Completeness = completeness, f_Traceparent = '''', f_Tracestate = '''', f_TraceContinuation = False, f_Metadata = []\<rparr>"

lemma materialize_succeeds:
  assumes "checkSpecDigest e = Inr ()" and "schema (snapshotDocument e sit (publishedFacts sit) (sortedEvidenceIDs sit) watermark) = Inr ()"
    and "\<not> isl (Marshal (AnyMap (snapshotDocument e sit (publishedFacts sit) (sortedEvidenceIDs sit) watermark)))"
    and "\<not> isl (stateJSON sit)"
    and "go_value (AnyMap (st_Facts sit))" and "depth (AnyMap (st_Facts sit)) < max_nesting_depth" and "distinct (map fst (st_Inputs sit))"
  shows "\<exists>v. materialize schema e sit watermark = Inr v"
proof -
  define doc where "doc = stateDocument sit (stateFacts sit) (st_Evidence sit) (stateConditionStart sit)"
  obtain json where json: "Marshal (AnyMap (snapshotDocument e sit (publishedFacts sit) (sortedEvidenceIDs sit) watermark)) = Inr json"
    using assms(3)
    by (cases "Marshal (AnyMap (snapshotDocument e sit (publishedFacts sit) (sortedEvidenceIDs sit) watermark))") auto
  obtain blob where blob: "Marshal (AnyMap doc) = Inr blob"
    using assms(4) by (cases "Marshal (AnyMap doc)") (auto simp: stateJSON_def doc_def)
  have "go_value (AnyMap doc)" "depth (AnyMap doc) \<le> max_nesting_depth"
    using state_document_go[OF assms(5-7)] by (simp_all add: doc_def)
  note reads = Marshal_reads[OF this blob]
  obtain d where "canon (AnyMap doc) = AnyMap d" by simp
  with reads have "persistedState sit = Inr (blob, EncodeDigest (sha256 (DomainSituationState @ blob)))"
    using blob by (simp add: persistedState_def stateJSON_def doc_def unmarshal_map_def Digest_def DigestSum_def Seal_def DomainSituationState_def)
  with assms(1,2) json show ?thesis
    by (simp add: materialize_def snapshot_def validateContract_def Seal_def DomainSnapshot_def publicationVersion_def Let_def)
qed

definition demo_digest :: string where
  "demo_digest = EncodeDigest (replicate 32 CHR 0x00)"

lemma demo_quiet:
  assumes "st_Phase sit = ''alarm''" and "st_Version sit \<noteq> 0" and "se_spec e = plant_spec digest"
  shows "advanceLifecycle e inp (sit, ps) = (Inr False, sit, ps)"
proof -
  have spec: "ss_Occurrence (cs_Situation (se_spec e)) = \<lparr>oc_OpenWhen = '''', oc_CloseWhen = '''', oc_ReopenCooldown = ''''\<rparr>"
    "ss_Transitions (cs_Situation (se_spec e)) = [\<lparr>tr_From = ''watch'', tr_To = ''alarm'', tr_When = ''hot'', tr_MinDuration = ''''\<rparr>]"
    using assms(3) by (simp_all add: plant_spec_def)
  have "closeOccurrence e inp (sit, ps) = (Inr False, sit, ps)" "applyTransitions e inp (sit, ps) = (Inr False, sit, ps)"
    "openOccurrence e inp (sit, ps) = (Inr False, sit, ps)"
    using assms(1,2)
    by (simp_all add: closeOccurrence_def applyTransitions_def openOccurrence_def evalBool_def with_sit_def op_return_def
        op_bind_def spec PhaseResolved_def)
  then show ?thesis
    by (simp add: advanceLifecycle_def op_bind_def op_return_def)
qed

lemma demo_publishes:
  assumes "se_spec e = plant_spec digest" and "evidenced e f = sit" and "fst (applyFeatureEvidence e f (situationForFeature e f))"
    and "st_Phase sit = ''alarm''" and "st_Version sit \<noteq> 0"
    and "materialize schema e (published ''alarm'' watermark sit) watermark = Inr v"
  shows "ApplyFeature schema f watermark e =
    (Inr [v], e\<lparr>se_active := AList.update (feature_key f) (published ''alarm'' watermark sit) (se_active e)\<rparr>)"
proof -
  obtain r sit' ps' where ev: "evaluate schema e watermark True (sit, se_programs e) = (r, sit', ps')"
    by (metis surj_pair)
  have "r = Inr (Some v) \<and> sit' = published ''alarm'' watermark sit \<and> ps' = se_programs e"
    using ev
  proof (cases rule: evaluate_cases)
    case (published changed s1 ps1)
    with assms demo_quiet[of sit e digest "inputs_for e watermark sit" "se_programs e"] show ?thesis by auto
  qed (use assms demo_quiet[of sit e digest "inputs_for e watermark sit" "se_programs e"] ev in
        \<open>auto simp: evaluate_def with_sit_def op_bind_def inputs_for_def publish_effect Let_def op_return_def\<close>)
  with ev assms(2,3) show ?thesis
    by (cases "applyFeatureEvidence e f (situationForFeature e f)") (auto simp: ApplyFeature_def evidenced_def Let_def)
qed

definition demo_evidenced :: "int \<Rightarrow> time \<Rightarrow> situation" where
  "demo_evidenced version updatedAt = (demo_situation ''alarm'' version)\<lparr>st_Completeness := CompletenessCorrected,
     st_LatestEventTime := 7, st_Facts := [(''temperature'', AnyBool True), (''temperature_event_time'', AnyTime 7)],
     st_Evidence := [''e2'', ''e3''], st_Inputs := [(''temp'', CompletenessCorrected)], st_UpdatedAt := updatedAt\<rparr>"

lemma demo_evidenced1:
  "evidenced (demo_engine demo_digest (demo_situation ''alarm'' 4)) (demo_feature CompletenessCorrected) = demo_evidenced 4 5"
  by code_simp

lemma demo_evidenced2:
  "evidenced (demo_engine demo_digest (demo_evidenced 5 10)) (demo_feature CompletenessCorrected) = demo_evidenced 5 10"
  by code_simp

lemma demo_materializes:
  assumes "version \<in> {5, 6}"
  shows "\<exists>v. materialize (\<lambda>_. Inr ()) (demo_engine demo_digest sit) (demo_evidenced version 10) 10 = Inr v"
proof (rule materialize_succeeds)
  have "DecodeDigest demo_digest = Inr (replicate 32 CHR 0x00)" "demo_digest \<noteq> []"
    by code_simp+
  then show "checkSpecDigest (demo_engine demo_digest sit) = Inr ()"
    by (simp add: checkSpecDigest_def demo_engine_def plant_spec_def)
  have "\<not> isl (Marshal (AnyMap (snapshotDocument (demo_engine demo_digest (demo_situation ''alarm'' 0)) (demo_evidenced v 10)
      (publishedFacts (demo_evidenced v 10)) (sortedEvidenceIDs (demo_evidenced v 10)) 10)))" if "v \<in> {5, 6}" for v
    using that by (elim insertE emptyE; hypsubst) code_simp+
  from this[OF assms] show "\<not> isl (Marshal (AnyMap (snapshotDocument (demo_engine demo_digest sit) (demo_evidenced version 10)
      (publishedFacts (demo_evidenced version 10)) (sortedEvidenceIDs (demo_evidenced version 10)) 10)))"
    by (simp add: snapshotDocument_def demo_engine_def)
  show "\<not> isl (stateJSON (demo_evidenced version 10))"
    using assms by (elim insertE emptyE; hypsubst) code_simp+
qed (simp_all add: demo_evidenced_def demo_situation_def binary64_def max_nesting_depth_def)

lemma demo_first: "\<exists>v. ApplyFeature (\<lambda>_. Inr ()) (demo_feature CompletenessCorrected) 10 (demo_engine demo_digest (demo_situation ''alarm'' 4))
    = (Inr [v], demo_engine demo_digest (demo_evidenced 5 10))"
proof -
  have pub: "published ''alarm'' 10 (demo_evidenced 4 5) = demo_evidenced 5 10"
    by (simp add: published_def demo_evidenced_def demo_situation_def)
  obtain v where v: "materialize (\<lambda>_. Inr ()) (demo_engine demo_digest (demo_situation ''alarm'' 4)) (demo_evidenced 5 10) 10 = Inr v"
    using demo_materializes[of 5] by auto
  have "fst (applyFeatureEvidence (demo_engine demo_digest (demo_situation ''alarm'' 4)) (demo_feature CompletenessCorrected)
      (situationForFeature (demo_engine demo_digest (demo_situation ''alarm'' 4)) (demo_feature CompletenessCorrected)))"
    by code_simp
  from demo_publishes[OF _ demo_evidenced1 this, of demo_digest "\<lambda>_. Inr ()" 10 v] v pub show ?thesis
    by (simp add: demo_engine_def demo_evidenced_def demo_situation_def demo_feature_def feature_key_def)
qed

lemma demo_second: "\<exists>v. ApplyFeature (\<lambda>_. Inr ()) (demo_feature CompletenessCorrected) 10 (demo_engine demo_digest (demo_evidenced 5 10))
    = (Inr [v], demo_engine demo_digest (demo_evidenced 6 10))"
proof -
  have pub: "published ''alarm'' 10 (demo_evidenced 5 10) = demo_evidenced 6 10"
    by (simp add: published_def demo_evidenced_def demo_situation_def)
  obtain v where v: "materialize (\<lambda>_. Inr ()) (demo_engine demo_digest (demo_evidenced 5 10)) (demo_evidenced 6 10) 10 = Inr v"
    using demo_materializes[of 6] by auto
  have "fst (applyFeatureEvidence (demo_engine demo_digest (demo_evidenced 5 10)) (demo_feature CompletenessCorrected)
      (situationForFeature (demo_engine demo_digest (demo_evidenced 5 10)) (demo_feature CompletenessCorrected)))"
    by code_simp
  from demo_publishes[OF _ demo_evidenced2 this, of demo_digest "\<lambda>_. Inr ()" 10 v] v pub show ?thesis
    by (simp add: demo_engine_def demo_evidenced_def demo_situation_def demo_feature_def feature_key_def)
qed

lemma demo_coherent: "coherent (demo_engine digest sit) (se_programs (demo_engine digest sit))"
  by (simp add: demo_engine_def)

theorem versions_consecutive_witness:
  "\<exists>out e'. apply_features (\<lambda>_. Inr ()) (replicate 2 (demo_feature CompletenessCorrected, 10)) (demo_engine demo_digest (demo_situation ''alarm'' 4)) = Inr (out, e')
     \<and> map sv_Version (versions_of (0, ''pump'', ''p1'') out) = [5, 6]"
proof -
  obtain v w where "ApplyFeature (\<lambda>_. Inr ()) (demo_feature CompletenessCorrected) 10 (demo_engine demo_digest (demo_situation ''alarm'' 4))
      = (Inr [v], demo_engine demo_digest (demo_evidenced 5 10))"
    "ApplyFeature (\<lambda>_. Inr ()) (demo_feature CompletenessCorrected) 10 (demo_engine demo_digest (demo_evidenced 5 10))
      = (Inr [w], demo_engine demo_digest (demo_evidenced 6 10))"
    using demo_first demo_second by blast
  then have run: "apply_features (\<lambda>_. Inr ()) (replicate 2 (demo_feature CompletenessCorrected, 10)) (demo_engine demo_digest (demo_situation ''alarm'' 4))
      = Inr (map (Pair (feature_key (demo_feature CompletenessCorrected))) [v, w], demo_engine demo_digest (demo_evidenced 6 10))"
    by (simp add: numeral_2_eq_2)
  have upto: "[5..6] = [5, 6 :: int]"
    by (simp add: upto_rec1)
  show ?thesis
    using versions_consecutive[OF demo_coherent run, of "(0, ''pump'', ''p1'')"] run upto
    by (simp add: version_at_def demo_engine_def demo_situation_def demo_evidenced_def)
qed

theorem published_state_is_current_witness:
  "\<exists>v e' sit. ApplyFeature (\<lambda>_. Inr ()) (demo_feature CompletenessCorrected) 10 (demo_engine demo_digest (demo_situation ''alarm'' 4)) = (Inr [v], e')
     \<and> CurrentState e' 0 ''pump'' ''p1'' = Inr (Some (sit, sv_StateJSON v, sv_StateSHA256 v)) \<and> sv_Version v = st_Version sit"
proof -
  obtain v where v: "ApplyFeature (\<lambda>_. Inr ()) (demo_feature CompletenessCorrected) 10 (demo_engine demo_digest (demo_situation ''alarm'' 4))
      = (Inr [v], demo_engine demo_digest (demo_evidenced 5 10))"
    using demo_first by blast
  show ?thesis
    using published_state_is_current[OF v] v by (auto simp: demo_feature_def)
qed

theorem ApplyFeature_refines_lifecycle_witness:
  "\<exists>sit1 sit. (life_step (demo_engine '''' (demo_situation ''watch'' 0))
        (inputs_for (demo_engine '''' (demo_situation ''watch'' 0)) 10 (evidenced (demo_engine '''' (demo_situation ''watch'' 0)) (demo_feature CompletenessOnTime))))\<^sup>*\<^sup>*
        (evidenced (demo_engine '''' (demo_situation ''watch'' 0)) (demo_feature CompletenessOnTime)) sit1
     \<and> map_of (se_active (snd (ApplyFeature (\<lambda>_. Inr ()) (demo_feature CompletenessOnTime) 10 (demo_engine '''' (demo_situation ''watch'' 0))))) (0, ''pump'', ''p1'') = Some sit
     \<and> st_Phase sit1 = ''alarm'' \<and> st_Phase sit = ''alarm''"
proof -
  let ?e = "demo_engine '''' (demo_situation ''watch'' 0)" and ?f = "demo_feature CompletenessOnTime"
  have "map_option st_Phase (map_of (se_active (snd (ApplyFeature (\<lambda>_. Inr ()) ?f 10 ?e))) (0, ''pump'', ''p1'')) = Some ''alarm''"
    by code_simp
  then obtain sit where sit: "map_of (se_active (snd (ApplyFeature (\<lambda>_. Inr ()) ?f 10 ?e))) (0, ''pump'', ''p1'') = Some sit"
    "st_Phase sit = ''alarm''"
    by blast
  have key: "feature_key ?f = (0, ''pump'', ''p1'')"
    by (simp add: feature_key_def demo_feature_def)
  obtain sit1 where run: "(life_step ?e (inputs_for ?e 10 (evidenced ?e ?f)))\<^sup>*\<^sup>* (evidenced ?e ?f) sit1"
    and "Some sit \<in> {Some sit1, Some (published (st_Phase (evidenced ?e ?f)) 10 sit1)}"
    using ApplyFeature_refines_lifecycle[of ?e "\<lambda>_. Inr ()" ?f 10, OF demo_coherent prod.collapse[symmetric]]
    unfolding key sit(1) by blast
  then have "st_Phase sit1 = ''alarm''"
    using sit(2) by (auto simp: published_def)
  with run sit show ?thesis
    by blast
qed

theorem situation_invariant_witness:
  "\<exists>e sit. engine_reachable e \<and> map_of (se_active e) (0, ''pump'', ''p1'') = Some sit
     \<and> st_Severity sit = severityForPhase e (st_Phase sit) \<and> st_SituationID sit = PrefixSituation @ situation_hash e (0, ''pump'', ''p1'')"
proof -
  obtain e0 where new: "NewEngine ''d'' ''t'' 0 (plant_spec '''') (\<lambda>n. ''id'') (Inr demo_cel) = Inr e0"
    by (simp add: NewEngine_def)
  obtain r e where step: "ApplyFeature (\<lambda>_. Inr ()) (demo_feature CompletenessOnTime) 10 e0 = (r, e)"
    by (rule prod.exhaust)
  have reach: "engine_reachable e"
    using engine_reachable.reach_feature[OF engine_reachable.reach_new[OF new] step] .
  have "feature_key (demo_feature CompletenessOnTime) = (0, ''pump'', ''p1'')"
    by (simp add: feature_key_def demo_feature_def)
  then obtain sit where at: "map_of (se_active e) (0, ''pump'', ''p1'') = Some sit"
    by (rule_tac ApplyFeature_unfold[OF step]) (auto simp: update_conv')
  show ?thesis
    using situation_invariant[OF reach at] reach at by blast
qed

definition demo_operator :: spec_operator where
  "demo_operator = \<lparr>op_Name = ''beat'', op_Kind = ''missing_heartbeat'', op_Inputs = [], op_Field = '''', op_Window = '''',
     op_Aggregate = '''', op_Duration = ''10s'', op_Output = ''missing'', op_Unit = ''''\<rparr>"

theorem CELFeatures_typed_witness:
  "map_of (CELFeatures ((plant_spec '''')\<lparr>cs_Operators := [demo_operator]\<rparr>) [] []) ''missing'' = Some (AnyBool False)"
  using CELFeatures_typed[of demo_operator "(plant_spec '''')\<lparr>cs_Operators := [demo_operator]\<rparr>" "[]" "[]"]
  by (auto simp: demo_operator_def plant_spec_def addReducedFeature_def)

end
