(* ===== verification/Contract_Documents.thy ===== *)
theory Contract_Documents
  imports Canonical_JSON Operators
begin

text \<open>
  Stored contract documents (\<^verbatim>\<open>internal/contractsv1/internal/domain\<close>: \<^verbatim>\<open>stored_document.go\<close>, \<^verbatim>\<open>digests.go\<close>,
  \<^verbatim>\<open>fields.go\<close>): decoding a stored document through the canonical encoder, its schema and its digest.
  A compiled JSON schema is a parameter (\<open>schema\<close>), since the schema compiler is a library.

  \<open>DocumentInt\<close> converts a \<open>float64\<close> to \<open>int\<close>; Go truncates, and outside the range of \<open>int\<close> the amd64
  conversion gives the least integer.
\<close>

datatype document_error = ErrDocumentJSON | ErrDocumentSchema | ErrDocumentDigest

definition float_to_int :: "float64 \<Rightarrow> int" where
  "float_to_int f = (case f of
     Finite x \<Rightarrow> (let n = (if 0 \<le> x then \<lfloor>x\<rfloor> else \<lceil>x\<rceil>) in if min_int64 \<le> n \<and> n \<le> max_int64 then n else min_int64)
   | NegZero \<Rightarrow> 0
   | _ \<Rightarrow> min_int64)"

definition DocumentInt :: "document \<Rightarrow> string \<Rightarrow> int" where
  "DocumentInt d key = (case map_of d key of Some (AnyFloat64 f) \<Rightarrow> float_to_int f | _ \<Rightarrow> 0)"

definition DomainIntent :: string where "DomainIntent = ''situation-runtime/intent/v1'' @ [CHR 0x0A]"
definition DomainCommand :: string where "DomainCommand = ''situation-runtime/command/v1'' @ [CHR 0x0A]"
definition DomainDecision :: string where "DomainDecision = ''situation-runtime/decision/v1'' @ [CHR 0x0A]"
definition DomainOutcome :: string where "DomainOutcome = ''situation-runtime/outcome/v1'' @ [CHR 0x0A]"

definition DecodeDocumentJSON :: "string \<Rightarrow> document_error + document" where
  "DecodeDocumentJSON raw = (case encodeRaw raw of
     Inl _ \<Rightarrow> Inl ErrDocumentJSON
   | Inr canonical \<Rightarrow> (case json_unmarshal canonical of
       Some (AnyMap d) \<Rightarrow> Inr d
     | _ \<Rightarrow> Inl ErrDocumentJSON))"

definition DecodeDocument :: "(document \<Rightarrow> unit result) \<Rightarrow> string \<Rightarrow> document_error + document" where
  "DecodeDocument schema raw =
     bind_res (DecodeDocumentJSON raw) (\<lambda>d. case schema d of Inl _ \<Rightarrow> Inl ErrDocumentSchema | Inr _ \<Rightarrow> Inr d)"

definition withoutIntentDigest :: "document \<Rightarrow> document" where
  "withoutIntentDigest d = filter (\<lambda>kv. fst kv \<noteq> ''intent_digest'') d"

definition VerifyIntentDigest :: "document \<Rightarrow> bool" where
  "VerifyIntentDigest d = (case as_string (map_of d ''intent_digest'') of
     None \<Rightarrow> False
   | Some provided \<Rightarrow> Verify DomainIntent (AnyMap (withoutIntentDigest d)) provided)"

definition VerifyDocumentDigest :: "string \<Rightarrow> document \<Rightarrow> string \<Rightarrow> bool" where
  "VerifyDocumentDigest domain d digest \<longleftrightarrow> HasSumLength digest \<and>
     (if domain = DomainIntent
      then VerifyIntentDigest d \<and> VerifySum domain (AnyMap (withoutIntentDigest d)) digest
      else VerifySum domain (AnyMap d) digest)"

definition VerifyStoredDocument ::
  "(document \<Rightarrow> unit result) \<Rightarrow> string \<Rightarrow> string \<Rightarrow> string \<Rightarrow> document_error + document" where
  "VerifyStoredDocument schema domain raw digest =
     bind_res (DecodeDocument schema raw) (\<lambda>d. if \<not> VerifyDocumentDigest domain d digest then Inl ErrDocumentDigest else Inr d)"

lemma VerifyStoredDocument_iff:
  "VerifyStoredDocument schema domain raw digest = Inr d \<longleftrightarrow>
     DecodeDocumentJSON raw = Inr d \<and> schema d = Inr () \<and> VerifyDocumentDigest domain d digest"
proof (cases "DecodeDocumentJSON raw")
  case (Inr d')
  then show ?thesis
    by (cases "schema d'") (auto simp: VerifyStoredDocument_def DecodeDocument_def)
qed (simp add: VerifyStoredDocument_def DecodeDocument_def)

end
