(* ===== verification/Approval_Ledger.thy ===== *)
theory Approval_Ledger
  imports Episode_Queue Contracts
begin

text \<open>
  The approval ledger (\<^verbatim>\<open>internal/approvalledger\<close>) with the intent and decision rows that bind an approval
  to a situation version. A table is the list of its rows; the operations run in the caller's
  transaction. The statements that decide, expire, withdraw or bind an approval all carry
  \<open>status = 'pending'\<close> in their \<open>WHERE\<close>, which is what makes a decision final.
\<close>

section \<open>Rows\<close>

record intent_db_row =
  nt_id :: string
  nt_decision :: string
  nt_tenant :: string
  nt_situation :: string
  nt_version :: int
  nt_type :: string
  nt_risk :: string
  nt_json :: string
  nt_sha :: string
  nt_expires :: stored_time
  nt_policy :: string
  nt_requires_approval :: bool
  nt_rate_limit :: int
  nt_created :: string
  nt_updated :: string

record decision_db_row =
  dc_id :: string
  dc_episode :: string
  dc_situation :: string
  dc_version :: int
  dc_validation :: string
  dc_json :: string
  dc_sha :: string
  dc_traceparent :: "string option"
  dc_tracestate :: "string option"

record approval_row =
  ap_id :: string
  ap_intent :: string
  ap_status :: string
  ap_requested :: string
  ap_expires :: stored_time
  ap_decided :: "string option"
  ap_approver :: "string option"
  ap_relay :: "string option"
  ap_reason :: "string option"
  ap_json :: string
  ap_nonce :: string
  ap_assertion :: "string option"
  ap_withdrawn :: "string option"
  ap_withdrawal_reason :: "string option"

datatype approval_error =
    ApprovalConstraint string
  | ErrPublisherRequired
  | NoPendingBinding
  | PublishFailed go_error

definition ApprovalPending :: string where "ApprovalPending = ''pending''"
definition ApprovalExpired :: string where "ApprovalExpired = ''expired''"
definition ApprovalDenied :: string where "ApprovalDenied = ''denied''"
definition ApprovalApproved :: string where "ApprovalApproved = ''approved''"

definition ReasonApprovalExpired :: string where "ReasonApprovalExpired = ''approval_expired''"
definition ReasonWithdrawn :: string where "ReasonWithdrawn = ''approval_withdrawn''"
definition WithdrawalConflict :: string where "WithdrawalConflict = ''situation_version_conflict''"

section \<open>Statements\<close>

text \<open>The primary key and the partial unique index on pending approvals.\<close>

definition InsertPending ::
  "string \<Rightarrow> string \<Rightarrow> string \<Rightarrow> stored_time \<Rightarrow> string \<Rightarrow> string \<Rightarrow> approval_row list \<Rightarrow> approval_error + approval_row list" where
  "InsertPending approvalID intentID requestedAt expiresAt document nonce rows =
     (if list_ex (\<lambda>r. ap_id r = approvalID) rows then Inl (ApprovalConstraint ''approval_id'')
      else if list_ex (\<lambda>r. ap_intent r = intentID \<and> ap_status r = ApprovalPending) rows
      then Inl (ApprovalConstraint ''one_pending_approval_per_intent'')
      else Inr (rows @ [\<lparr>ap_id = approvalID, ap_intent = intentID, ap_status = ApprovalPending, ap_requested = requestedAt,
        ap_expires = expiresAt, ap_decided = None, ap_approver = None, ap_relay = None, ap_reason = None, ap_json = document,
        ap_nonce = nonce, ap_assertion = None, ap_withdrawn = None, ap_withdrawal_reason = None\<rparr>]))"

definition is_pending :: "string \<Rightarrow> approval_row \<Rightarrow> bool" where
  "is_pending approvalID r \<longleftrightarrow> ap_id r = approvalID \<and> ap_status r = ApprovalPending"

definition ExpirePendingOfIntent :: "string \<Rightarrow> approval_row list \<Rightarrow> approval_row list" where
  "ExpirePendingOfIntent intentID rows =
     sql_update (\<lambda>r. ap_intent r = intentID \<and> ap_status r = ApprovalPending) (\<lambda>r. r\<lparr>ap_status := ApprovalExpired\<rparr>) rows"

definition ExpirePending :: "string \<Rightarrow> string \<Rightarrow> string \<Rightarrow> approval_row list \<Rightarrow> approval_row list" where
  "ExpirePending approvalID now reason rows =
     sql_update (is_pending approvalID)
       (\<lambda>r. r\<lparr>ap_status := ApprovalExpired, ap_decided := Some now, ap_reason := Some reason\<rparr>) rows"

definition DecidePending ::
  "string \<Rightarrow> string \<Rightarrow> string \<Rightarrow> string \<Rightarrow> string \<Rightarrow> string \<Rightarrow> approval_row list \<Rightarrow> approval_error + approval_row list" where
  "DecidePending approvalID status approver relay reason now rows =
     (if status \<notin> {ApprovalPending, ApprovalApproved, ApprovalDenied, ApprovalExpired} \<and> list_ex (is_pending approvalID) rows
      then Inl (ApprovalConstraint ''status'')
      else Inr (sql_update (is_pending approvalID)
        (\<lambda>r. r\<lparr>ap_status := status, ap_decided := Some now, ap_approver := Some approver, ap_relay := Some relay,
               ap_reason := Some reason\<rparr>) rows))"

definition BindAssertionDigest :: "string \<Rightarrow> string \<Rightarrow> approval_row list \<Rightarrow> approval_row list" where
  "BindAssertionDigest approvalID digest rows =
     sql_update (is_pending approvalID) (\<lambda>r. r\<lparr>ap_assertion := Some digest, ap_nonce := ap_nonce r\<rparr>) rows"

definition WithdrawPending :: "string \<Rightarrow> string \<Rightarrow> string \<Rightarrow> string \<Rightarrow> approval_row list \<Rightarrow> approval_row list" where
  "WithdrawPending approvalID now withdrawalReason reason rows =
     sql_update (is_pending approvalID)
       (\<lambda>r. r\<lparr>ap_status := ApprovalDenied, ap_decided := Some now, ap_withdrawn := Some now,
              ap_withdrawal_reason := Some withdrawalReason, ap_reason := Some reason\<rparr>) rows"

record approval_found =
  af_ID :: string
  af_ExpiresAt :: stored_time

definition found_of :: "approval_row \<Rightarrow> approval_found" where
  "found_of r = \<lparr>af_ID = ap_id r, af_ExpiresAt = ap_expires r\<rparr>"

definition PendingOfIntent :: "string \<Rightarrow> approval_row list \<Rightarrow> approval_found option" where
  "PendingOfIntent intentID rows =
     map_option found_of (find (\<lambda>r. ap_intent r = intentID \<and> ap_status r = ApprovalPending) rows)"

text \<open>\<open>ORDER BY decided_at DESC, approval_id DESC LIMIT 1\<close>; a NULL sorts below every text.\<close>

definition later_decided :: "approval_row \<Rightarrow> approval_row \<Rightarrow> bool" where
  "later_decided a b \<longleftrightarrow> (case (ap_decided a, ap_decided b) of
     (None, None) \<Rightarrow> ap_id b < ap_id a
   | (None, Some _) \<Rightarrow> False
   | (Some _, None) \<Rightarrow> True
   | (Some s, Some t) \<Rightarrow> t < s \<or> s = t \<and> ap_id b < ap_id a)"

definition latest_decided :: "approval_row list \<Rightarrow> approval_row option" where
  "latest_decided rows = (case rows of
     [] \<Rightarrow> None
   | r # rs \<Rightarrow> Some (foldl (\<lambda>best x. if later_decided x best then x else best) r rs))"

definition LatestApprovedOfIntent :: "string \<Rightarrow> approval_row list \<Rightarrow> approval_found option" where
  "LatestApprovedOfIntent intentID rows =
     map_option found_of (latest_decided (filter (\<lambda>r. ap_intent r = intentID \<and> ap_status r = ApprovalApproved) rows))"

record assertion_binding =
  ab_ExpiresAt :: stored_time
  ab_Nonce :: string

definition PendingBinding :: "string \<Rightarrow> approval_row list \<Rightarrow> approval_error + assertion_binding" where
  "PendingBinding approvalID rows = (case find (is_pending approvalID) rows of
     None \<Rightarrow> Inl NoPendingBinding
   | Some r \<Rightarrow> Inr \<lparr>ab_ExpiresAt = ap_expires r, ab_Nonce = ap_nonce r\<rparr>)"

section \<open>Lifecycle\<close>

definition RequestApproval ::
  "string \<Rightarrow> string \<Rightarrow> string \<Rightarrow> stored_time \<Rightarrow> string \<Rightarrow> string \<Rightarrow> approval_row list \<Rightarrow> approval_error + approval_row list" where
  "RequestApproval approvalID intentID requestedAt expiresAt document nonce rows =
     InsertPending approvalID intentID requestedAt expiresAt document nonce rows"

definition ExpireIntent :: "string \<Rightarrow> approval_row list \<Rightarrow> approval_row list" where
  "ExpireIntent intentID rows = ExpirePendingOfIntent intentID rows"

definition ExpireApproval :: "string \<Rightarrow> string \<Rightarrow> approval_row list \<Rightarrow> approval_row list" where
  "ExpireApproval approvalID now rows = ExpirePending approvalID now ReasonApprovalExpired rows"

definition ResolveApproval ::
  "string \<Rightarrow> string \<Rightarrow> string \<Rightarrow> string \<Rightarrow> string \<Rightarrow> string \<Rightarrow> approval_row list \<Rightarrow> approval_error + approval_row list" where
  "ResolveApproval approvalID status approver relay reason now rows =
     DecidePending approvalID status approver relay reason now rows"

definition BindAssertion :: "string \<Rightarrow> string \<Rightarrow> approval_row list \<Rightarrow> approval_row list" where
  "BindAssertion approvalID digest rows = BindAssertionDigest approvalID digest rows"

definition WithdrawApproval :: "string \<Rightarrow> string \<Rightarrow> approval_row list \<Rightarrow> approval_row list" where
  "WithdrawApproval approvalID now rows = WithdrawPending approvalID now WithdrawalConflict ReasonWithdrawn rows"

record withdrawal =
  wd_ApprovalID :: string
  wd_IntentID :: string
  wd_SituationID :: string
  wd_SituationVersion :: int
  wd_Traceparent :: string
  wd_Tracestate :: string

definition or_empty :: "string option \<Rightarrow> string" where
  "or_empty t = (case t of Some s \<Rightarrow> s | None \<Rightarrow> '''')"

definition withdrawal_of :: "approval_row \<Rightarrow> intent_db_row \<Rightarrow> decision_db_row \<Rightarrow> withdrawal" where
  "withdrawal_of a i d =
     \<lparr>wd_ApprovalID = ap_id a, wd_IntentID = nt_id i, wd_SituationID = nt_situation i, wd_SituationVersion = nt_version i,
      wd_Traceparent = or_empty (dc_traceparent d), wd_Tracestate = or_empty (dc_tracestate d)\<rparr>"

definition SupersededApprovals ::
  "intent_db_row list \<Rightarrow> decision_db_row list \<Rightarrow> string \<Rightarrow> int \<Rightarrow> approval_row list \<Rightarrow> withdrawal list" where
  "SupersededApprovals intents decisions situationID replacementVersion rows =
     [withdrawal_of a i d. a \<leftarrow> sort_func (\<lambda>a b. compare3 (ap_id a) (ap_id b)) rows, i \<leftarrow> intents, nt_id i = ap_intent a,
        d \<leftarrow> decisions, dc_id d = nt_decision i,
        nt_situation i = situationID \<and> nt_version i < replacementVersion \<and> ap_status a = ApprovalPending]"

text \<open>The publisher is the caller's; it may refuse, which fails the whole transaction.\<close>

fun withdraw_all ::
  "(withdrawal \<Rightarrow> unit result) \<Rightarrow> string \<Rightarrow> withdrawal list \<Rightarrow> approval_row list \<Rightarrow> approval_error + approval_row list" where
  "withdraw_all publish now [] rows = Inr rows"
| "withdraw_all publish now (w # ws) rows =
     (let rows' = WithdrawApproval (wd_ApprovalID w) now rows
      in case publish w of Inl err \<Rightarrow> Inl (PublishFailed err) | Inr _ \<Rightarrow> withdraw_all publish now ws rows')"

definition WithdrawSuperseded ::
  "intent_db_row list \<Rightarrow> decision_db_row list \<Rightarrow> string \<Rightarrow> int \<Rightarrow> string \<Rightarrow> (withdrawal \<Rightarrow> unit result) option
     \<Rightarrow> approval_row list \<Rightarrow> approval_error + approval_row list" where
  "WithdrawSuperseded intents decisions situationID replacementVersion now publish rows = (case publish of
     None \<Rightarrow> Inl ErrPublisherRequired
   | Some p \<Rightarrow> withdraw_all p now (SupersededApprovals intents decisions situationID replacementVersion rows) rows)"

section \<open>Decisions are final\<close>

definition approval_inv :: "approval_row list \<Rightarrow> bool" where
  "approval_inv rows \<longleftrightarrow> distinct (map ap_id rows) \<and> unique_index (\<lambda>r. ap_status r = ApprovalPending) ap_intent rows"

text \<open>The operations of the ledger, in any order and with any arguments.\<close>

inductive approval_step :: "approval_row list \<Rightarrow> approval_row list \<Rightarrow> bool" where
  request: "RequestApproval approvalID intentID requestedAt expiresAt document nonce rows = Inr rows' \<Longrightarrow> approval_step rows rows'"
| expire_intent: "approval_step rows (ExpireIntent intentID rows)"
| expire: "approval_step rows (ExpireApproval approvalID now rows)"
| resolve: "ResolveApproval approvalID status approver relay reason now rows = Inr rows' \<Longrightarrow> approval_step rows rows'"
| bind: "approval_step rows (BindAssertion approvalID digest rows)"
| withdraw: "approval_step rows (WithdrawApproval approvalID now rows)"

lemmas approval_ops = RequestApproval_def InsertPending_def ExpireIntent_def ExpirePendingOfIntent_def ExpireApproval_def
  ExpirePending_def ResolveApproval_def DecidePending_def BindAssertion_def BindAssertionDigest_def WithdrawApproval_def
  WithdrawPending_def is_pending_def

text \<open>Every update rewrites pending rows only and keeps their identity, intent and nonce.\<close>

definition pending_update :: "approval_row list \<Rightarrow> approval_row list \<Rightarrow> bool" where
  "pending_update rows rows' \<longleftrightarrow> (\<exists>P f. rows' = sql_update P f rows \<and> (\<forall>r. P r \<longrightarrow> ap_status r = ApprovalPending)
     \<and> (\<forall>r. ap_id (f r) = ap_id r \<and> ap_intent (f r) = ap_intent r \<and> ap_nonce (f r) = ap_nonce r))"

lemma pending_updateI:
  "(\<And>r. P r \<Longrightarrow> ap_status r = ApprovalPending) \<Longrightarrow>
   (\<And>r. ap_id (f r) = ap_id r \<and> ap_intent (f r) = ap_intent r \<and> ap_nonce (f r) = ap_nonce r) \<Longrightarrow>
   pending_update rows (sql_update P f rows)"
  unfolding pending_update_def by blast

lemma approval_step_cases:
  assumes "approval_step rows rows'"
  obtains (inserted) r where "rows' = rows @ [r]" "ap_status r = ApprovalPending" "\<forall>x \<in> set rows. ap_id x \<noteq> ap_id r"
      "\<forall>x \<in> set rows. ap_intent x = ap_intent r \<longrightarrow> ap_status x \<noteq> ApprovalPending"
    | (updated) "pending_update rows rows'"
  using assms
proof (cases rule: approval_step.cases)
  case (request approvalID intentID requestedAt expiresAt document nonce)
  then show thesis
    by (intro inserted) (auto simp: approval_ops list_ex_iff split: if_splits)
next
  case (resolve approvalID status approver relay reason now)
  then have "rows' = sql_update (is_pending approvalID)
        (\<lambda>r. r\<lparr>ap_status := status, ap_decided := Some now, ap_approver := Some approver, ap_relay := Some relay,
               ap_reason := Some reason\<rparr>) rows"
    by (auto simp: ResolveApproval_def DecidePending_def split: if_splits)
  then show thesis
    by (intro updated) (auto simp: is_pending_def intro!: pending_updateI)
qed (auto simp: approval_ops intro!: updated pending_updateI)

lemma pending_update_keeps:
  assumes "pending_update rows rows'" and "r \<in> set rows" and "ap_status r \<noteq> ApprovalPending"
  shows "r \<in> set rows'"
proof -
  obtain P f where "rows' = map (\<lambda>r. if P r then f r else r) rows" and "\<not> P r"
    using assms by (auto simp: pending_update_def sql_update_def)
  with assms(2) show ?thesis
    by (auto simp: image_iff intro!: bexI[of _ r])
qed

lemma pending_update_inv:
  assumes "pending_update rows rows'" and "approval_inv rows"
  shows "approval_inv rows'"
proof -
  obtain P f where rows': "rows' = sql_update P f rows" and P: "\<And>r. P r \<Longrightarrow> ap_status r = ApprovalPending"
    and f: "\<And>r. ap_id (f r) = ap_id r" "\<And>r. ap_intent (f r) = ap_intent r"
    using assms(1) unfolding pending_update_def by blast
  have "distinct (map ap_intent (filter (\<lambda>r. ap_status r = ApprovalPending) (sql_update P f rows)))"
    if "distinct (map ap_intent (filter (\<lambda>r. ap_status r = ApprovalPending) rows))"
    using that
  proof (induction rows)
    case (Cons r rows)
    have sub: "ap_intent ` {x \<in> set (sql_update P f rows). ap_status x = ApprovalPending}
        \<subseteq> ap_intent ` {x \<in> set rows. ap_status x = ApprovalPending}"
      using P f by (auto simp: sql_update_def image_iff)
    show ?case
    proof (cases "ap_status (if P r then f r else r) = ApprovalPending")
      case True
      then have "ap_status r = ApprovalPending"
        using P by (auto split: if_splits)
      with Cons sub True f show ?thesis
        by (auto simp: image_iff)
    qed (use Cons in \<open>auto split: if_splits\<close>)
  qed simp
  moreover have "map ap_id rows' = map ap_id rows"
    using f by (auto simp: rows' sql_update_def)
  ultimately show ?thesis
    using assms(2) by (simp add: approval_inv_def unique_index_def rows')
qed

lemma approval_step_inv: "approval_step rows rows' \<Longrightarrow> approval_inv rows \<Longrightarrow> approval_inv rows'"
  by (erule approval_step_cases) (auto simp: approval_inv_def unique_index_def pending_update_inv[unfolded approval_inv_def unique_index_def])

lemma approval_step_keeps:
  "approval_step rows rows' \<Longrightarrow> r \<in> set rows \<Longrightarrow> ap_status r \<noteq> ApprovalPending \<Longrightarrow> r \<in> set rows'"
  by (erule approval_step_cases) (auto intro: pending_update_keeps)

text \<open>
  Claim C18. An approval decision is final: whatever sequence of requests, decisions, expiries, assertion
  bindings and withdrawals follows, an approval that has left the pending state stays in the ledger as
  it is, with its verdict, approver, reason and nonce, and is the only approval under its identifier; and
  an intent never has two pending approvals at a time.
\<close>

theorem approval_decision_final:
  assumes "approval_step\<^sup>*\<^sup>* [] rows" and "approval_step\<^sup>*\<^sup>* rows rows'" and "r \<in> set rows" and "ap_status r \<noteq> ApprovalPending"
  shows "r \<in> set rows'
    \<and> (\<forall>x \<in> set rows'. ap_id x = ap_id r \<longrightarrow> x = r)
    \<and> (\<forall>x \<in> set rows'. \<forall>y \<in> set rows'. ap_status x = ApprovalPending \<and> ap_status y = ApprovalPending \<and> ap_intent x = ap_intent y \<longrightarrow> x = y)"
proof -
  have "approval_inv rows"
    using assms(1) by (induction rule: rtranclp_induct) (auto simp: approval_inv_def unique_index_def dest: approval_step_inv)
  with assms(2) have inv: "approval_inv rows'"
    by (induction rule: rtranclp_induct) (auto dest: approval_step_inv)
  have kept: "r \<in> set rows'"
    using assms(2,3,4) by (induction rule: rtranclp_induct) (auto dest: approval_step_keeps)
  have "x = y" if "x \<in> set rows'" "y \<in> set rows'" "ap_status x = ApprovalPending" "ap_status y = ApprovalPending" "ap_intent x = ap_intent y" for x y
    using inv that distinct_key_eq[of ap_intent "filter (\<lambda>r. ap_status r = ApprovalPending) rows'" x y]
    by (simp add: approval_inv_def unique_index_def)
  with inv kept show ?thesis
    by (auto simp: approval_inv_def dest: distinct_key_eq)
qed

definition demo_approval :: "string \<Rightarrow> approval_row" where
  "demo_approval status = \<lparr>ap_id = ''a1'', ap_intent = ''i1'', ap_status = status, ap_requested = ''t0'', ap_expires = ReadableTime 9,
     ap_decided = Some ''t1'', ap_approver = Some ''ada'', ap_relay = Some ''relay'', ap_reason = Some ''ok'', ap_json = ''{}'',
     ap_nonce = ''n1'', ap_assertion = None, ap_withdrawn = None, ap_withdrawal_reason = None\<rparr>"

theorem approval_decision_final_witness:
  "approval_step\<^sup>*\<^sup>* [] [demo_approval ApprovalApproved]
     \<and> demo_approval ApprovalApproved \<in> set (WithdrawApproval ''a1'' ''t2'' [demo_approval ApprovalApproved])"
proof -
  have "approval_step [] [(demo_approval ApprovalPending)\<lparr>ap_decided := None, ap_approver := None, ap_relay := None, ap_reason := None\<rparr>]"
    by (rule approval_step.request[where approvalID = "''a1''" and intentID = "''i1''" and requestedAt = "''t0''" and expiresAt = "ReadableTime 9" and document = "''{}''" and nonce = "''n1''"])
       (simp add: approval_ops demo_approval_def)
  moreover have "approval_step [(demo_approval ApprovalPending)\<lparr>ap_decided := None, ap_approver := None, ap_relay := None, ap_reason := None\<rparr>] [demo_approval ApprovalApproved]"
    by (rule approval_step.resolve[where approvalID = "''a1''" and status = ApprovalApproved and approver = "''ada''" and relay = "''relay''" and reason = "''ok''" and now = "''t1''"])
       (simp add: approval_ops demo_approval_def)
  ultimately have run: "approval_step\<^sup>*\<^sup>* [] [demo_approval ApprovalApproved]"
    by (meson converse_rtranclp_into_rtranclp rtranclp.rtrancl_refl)
  have "demo_approval ApprovalApproved \<in> set (WithdrawApproval ''a1'' ''t2'' [demo_approval ApprovalApproved])"
    using approval_decision_final[OF run r_into_rtranclp[of approval_step, OF approval_step.withdraw], of "demo_approval ApprovalApproved" "''a1''" "''t2''"]
    by (simp add: demo_approval_def ApprovalApproved_def ApprovalPending_def)
  with run show ?thesis ..
qed

end
