(* ===== verification/Interlock.thy ===== *)
theory Interlock
  imports Kernel
begin

text \<open>
  The action interlock (\<^verbatim>\<open>internal/interlock\<close>): one durable row that blocks every effect while it is
  tripped. Operations run inside a transaction, so an error leaves the row as it was; the version is an
  \<open>int64\<close> whose increment wraps. A missing row fails closed.
\<close>

definition StatusReady :: string where "StatusReady = ''ready''"
definition StatusTripped :: string where "StatusTripped = ''tripped''"

record interlock_state =
  il_Status :: string
  il_Reason :: string
  il_UpdatedAt :: string
  il_Version :: int

datatype interlock_error =
    InvalidInterlockStatus string
  | InterlockFieldsRequired
  | ErrTripped string
  | NoInterlockRow
  | InterlockNotUpdated
  | FenceRequired
  | FenceRefused go_error

definition int64_succ :: "int \<Rightarrow> int" where
  "int64_succ n = (if n = max_int64 then min_int64 else n + 1)"

definition ValidateChange :: "string \<Rightarrow> string \<Rightarrow> int \<Rightarrow> string \<Rightarrow> interlock_error + unit" where
  "ValidateChange status reason version now =
     (if status \<noteq> StatusReady \<and> status \<noteq> StatusTripped then Inl (InvalidInterlockStatus status)
      else if reason = '''' \<or> version < 1 \<or> now = '''' then Inl InterlockFieldsRequired
      else Inr ())"

definition NextState :: "interlock_state \<Rightarrow> string \<Rightarrow> string \<Rightarrow> string \<Rightarrow> interlock_error + interlock_state" where
  "NextState current status reason now =
     (let next = \<lparr>il_Status = status, il_Reason = reason, il_UpdatedAt = now, il_Version = int64_succ (il_Version current)\<rparr>
      in bind_res (ValidateChange (il_Status next) (il_Reason next) (il_Version next) (il_UpdatedAt next)) (\<lambda>_. Inr next))"

definition RequireReady :: "string \<Rightarrow> string \<Rightarrow> interlock_error + unit" where
  "RequireReady status reason = (if status \<noteq> StatusReady then Inl (ErrTripped reason) else Inr ())"

type_synonym interlock_table = "interlock_state option"

definition ReadInterlock :: "interlock_table \<Rightarrow> interlock_error + interlock_state" where
  "ReadInterlock t = (case t of None \<Rightarrow> Inl NoInterlockRow | Some s \<Rightarrow> Inr s)"

definition AssertReady :: "interlock_table \<Rightarrow> interlock_error + unit" where
  "AssertReady t = bind_res (ReadInterlock t) (\<lambda>s. RequireReady (il_Status s) (il_Reason s))"

definition SetInterlock :: "string \<Rightarrow> string \<Rightarrow> int \<Rightarrow> string \<Rightarrow> interlock_table \<Rightarrow> interlock_error + interlock_table" where
  "SetInterlock status reason version now t =
     bind_res (ValidateChange status reason version now) (\<lambda>_. case t of
       None \<Rightarrow> Inl InterlockNotUpdated
     | Some s \<Rightarrow> if il_Version s < version
         then Inr (Some \<lparr>il_Status = status, il_Reason = reason, il_UpdatedAt = now, il_Version = version\<rparr>)
         else Inl InterlockNotUpdated)"

definition ChangeInterlock :: "string \<Rightarrow> string \<Rightarrow> string \<Rightarrow> interlock_table \<Rightarrow> interlock_error + (interlock_state \<times> interlock_table)" where
  "ChangeInterlock status reason now t =
     bind_res (ReadInterlock t) (\<lambda>current.
     bind_res (NextState current status reason now) (\<lambda>next.
     bind_res (SetInterlock (il_Status next) (il_Reason next) (il_Version next) (il_UpdatedAt next) t) (\<lambda>t'.
       Inr (next, t'))))"

definition TripIn :: "string \<Rightarrow> time \<Rightarrow> interlock_table \<Rightarrow> interlock_error + (interlock_state \<times> interlock_table)" where
  "TripIn reason now t = ChangeInterlock StatusTripped reason (FormatTime now) t"

definition ClearIn :: "string \<Rightarrow> time \<Rightarrow> interlock_table \<Rightarrow> interlock_error + (interlock_state \<times> interlock_table)" where
  "ClearIn reason now t = ChangeInterlock StatusReady reason (FormatTime now) t"

text \<open>\<open>Clear\<close> runs the fence first, in the same transaction; without a fence it refuses.\<close>

definition ClearInterlock ::
  "unit result option \<Rightarrow> string \<Rightarrow> time \<Rightarrow> interlock_table \<Rightarrow> interlock_error + (interlock_state \<times> interlock_table)" where
  "ClearInterlock fence reason now t = (case fence of
     None \<Rightarrow> Inl FenceRequired
   | Some (Inl err) \<Rightarrow> Inl (FenceRefused err)
   | Some (Inr _) \<Rightarrow> ClearIn reason now t)"

lemma AssertReady_iff: "AssertReady t = Inr () \<longleftrightarrow> (\<exists>s. t = Some s \<and> il_Status s = StatusReady)"
  by (auto simp: AssertReady_def ReadInterlock_def RequireReady_def split: option.splits)

lemma ChangeInterlock_spec:
  assumes "ChangeInterlock status reason now t = Inr (next, t')"
  shows "t' = Some next \<and> il_Status next = status \<and> reason \<noteq> '''' \<and> (\<exists>s. t = Some s \<and> il_Version next = il_Version s + 1)"
  using assms
  by (auto simp: ChangeInterlock_def NextState_def SetInterlock_def ReadInterlock_def ValidateChange_def Let_def
      int64_succ_def min_int64_def bind_res_Inr_iff split: option.splits if_splits)

end
