(* ===== verification/Actions.thy ===== *)
theory Actions
  imports Contract_Documents Approval_Ledger Interlock Episode_Ledger
begin

text \<open>
  The action plane (\<^verbatim>\<open>internal/actions\<close> with the command boundary of \<^verbatim>\<open>internal/actionport\<close> and the command
  writes of \<^verbatim>\<open>internal/policy/internal/store/command_writes.go\<close>): leasing approved commands from the
  outbox, revalidating their authorization, calling an effector, recording outcomes and reconciling
  unknown ones.

  \<^item> The database is one record of tables. A function of a transaction returns an error, and then the
    transaction is rolled back, or its value with the database after it.
  \<^item> Every reading of the clock and every new identifier is an argument, in the order of the calls.
  \<^item> The effector and the device verifier are outside the process: what a call returns is an argument.
    The compiled schemas, the runtime owner check, the device binding check of the authority and the
    acceptance of a notification by the notification outbox are fields of the service.
  \<^item> Stored times are compared as texts in SQL and as times in Go; for texts that \<open>FormatTime\<close> wrote the
    two agree (kernel theory), so a readable time is compared as a time.
\<close>

section \<open>Statuses\<close>

definition CommandPending :: string where "CommandPending = ''pending''"
definition CommandDispatching :: string where "CommandDispatching = ''dispatching''"
definition CommandSucceeded :: string where "CommandSucceeded = ''succeeded''"
definition CommandFailed :: string where "CommandFailed = ''failed''"
definition CommandReconciling :: string where "CommandReconciling = ''reconciling''"
definition CommandOutcomeUnknown :: string where "CommandOutcomeUnknown = ''outcome_unknown''"
definition CommandManualReview :: string where "CommandManualReview = ''manual_review''"

definition VerificationObserved :: string where "VerificationObserved = ''observed''"
definition VerificationAwaiting :: string where "VerificationAwaiting = ''awaiting''"
definition VerificationReconciled :: string where "VerificationReconciled = ''reconciled''"
definition VerificationRefuted :: string where "VerificationRefuted = ''refuted''"
definition VerificationInconclusive :: string where "VerificationInconclusive = ''inconclusive''"

definition UnresolvedCommandStatuses :: "string list" where
  "UnresolvedCommandStatuses = [CommandOutcomeUnknown, CommandReconciling, CommandManualReview]"

definition IsUnresolvedCommandStatus :: "string \<Rightarrow> bool" where
  "IsUnresolvedCommandStatus status \<longleftrightarrow> status \<in> set UnresolvedCommandStatuses"

definition OutboxPending :: string where "OutboxPending = ''pending''"
definition OutboxLeased :: string where "OutboxLeased = ''leased''"
definition OutboxDelivered :: string where "OutboxDelivered = ''delivered''"
definition OutboxFailed :: string where "OutboxFailed = ''failed''"

definition OutcomeSucceeded :: string where "OutcomeSucceeded = ''succeeded''"
definition OutcomeFailed :: string where "OutcomeFailed = ''failed''"
definition OutcomeUnknown :: string where "OutcomeUnknown = ''unknown''"
definition OutcomeReconcileRequired :: string where "OutcomeReconcileRequired = ''reconcile_required''"
definition OutcomeReconciled :: string where "OutcomeReconciled = ''reconciled''"

definition ReconciliationObserved :: string where "ReconciliationObserved = ''observed''"
definition ReconciliationRequired :: string where "ReconciliationRequired = ''required''"
definition ReconciliationNotRequired :: string where "ReconciliationNotRequired = ''not_required''"
definition ReconciliationReconciled :: string where "ReconciliationReconciled = ''reconciled''"

definition ErrorOutcomeUnknown :: string where "ErrorOutcomeUnknown = ''outcome_unknown''"
definition ErrorDispatchFailed :: string where "ErrorDispatchFailed = ''dispatch_failed''"

section \<open>The command boundary\<close>

record action_command =
  ac_CommandID :: string
  ac_IntentID :: string
  ac_TenantID :: string
  ac_EffectorRoute :: string
  ac_NormalizedTarget :: string
  ac_IdempotencyKey :: string
  ac_PolicyDigest :: string
  ac_NotBeforeMonoUS :: int
  ac_Payload :: document

record effect =
  ef_ProviderResult :: "document option"
  ef_ObservedEffect :: "document option"
  ef_VerificationPending :: bool

definition no_effect :: effect where
  "no_effect = \<lparr>ef_ProviderResult = None, ef_ObservedEffect = None, ef_VerificationPending = False\<rparr>"

text \<open>The errors of an effector, by what the dispatcher asks of them.\<close>

datatype dispatch_error = UnknownOutcomeError string | DeadlineExceeded | DispatchRefused string

definition IsUnknownOutcome :: "dispatch_error option \<Rightarrow> bool" where
  "IsUnknownOutcome err = (case err of Some (UnknownOutcomeError _) \<Rightarrow> True | _ \<Rightarrow> False)"

section \<open>The database\<close>

record command_db_row =
  cm_id :: string
  cm_intent :: string
  cm_tenant :: string
  cm_route :: string
  cm_target :: string
  cm_idempotency :: string
  cm_json :: string
  cm_sha :: string
  cm_status :: string
  cm_created :: time
  cm_updated :: time

record outbox_db_row =
  ob_id :: int
  ob_kind :: string
  ob_aggregate :: string
  ob_version :: int
  ob_status :: string
  ob_attempts :: int
  ob_available :: stored_time
  ob_owner :: "string option"
  ob_until :: "stored_time option"
  ob_error :: "string option"
  ob_delivered :: "time option"

record outcome_db_row =
  ot_id :: string
  ot_command :: string
  ot_ordinal :: int
  ot_status :: string
  ot_provider :: "string option"
  ot_observed :: "string option"
  ot_reconciliation :: string
  ot_sha :: string
  ot_trace :: trace_context
  ot_occurred :: time

record verification_db_row =
  vf_id :: string
  vf_intent :: string
  vf_command :: string
  vf_outcome :: string
  vf_status :: string
  vf_reconciled :: "time option"
  vf_updated :: time

record situation_db_row =
  sm_id :: string
  sm_tenant :: string
  sm_last_material :: int
  sm_current :: int
  sm_type :: string
  sm_entity :: string

text \<open>The columns of a published situation version that policy reads.\<close>

record version_db_row =
  vr_situation :: string
  vr_version :: int
  vr_completeness :: string
  vr_horizon :: stored_time
  vr_snapshot_sha :: string

record evaluation_db_row =
  pe_id :: string
  pe_intent :: string
  pe_decision :: string
  pe_policy_version :: string
  pe_result :: string
  pe_digest :: string
  pe_intent_sha :: string
  pe_decision_sha :: string
  pe_command :: "string option"
  pe_approval :: "string option"
  pe_reason :: string
  pe_situation_version :: int
  pe_evaluated :: time

text \<open>The principals of a tenant, their roles, and what a role may approve.\<close>

record principal_db_row =
  pn_id :: string
  pn_tenant :: string
  pn_status :: string
  pn_key :: "string option"
  pn_created :: string

record authority_db_row =
  au_tenant :: string
  au_entity :: string
  au_risk :: string
  au_role :: string

record dispatch_notice =
  dn_Command :: action_command
  dn_Trace :: trace_context
  dn_Status :: string
  dn_OutcomeID :: string
  dn_At :: time

record outcome_notice =
  on_Command :: action_command
  on_Trace :: trace_context
  on_OutcomeID :: string
  on_Status :: string
  on_Reconciliation :: string
  on_Digest :: string
  on_At :: time

record reconciled_provenance =
  rp_Version :: int
  rp_Digest :: string
  rp_Trace :: trace_context

record reconciliation_notice =
  rn_TenantID :: string
  rn_IntentID :: string
  rn_CommandID :: string
  rn_OutcomeID :: string
  rn_FinalStatus :: string
  rn_Provenance :: reconciled_provenance
  rn_At :: time

text \<open>The approval notices that policy appends to the same notification outbox.\<close>

record approval_notification =
  an_TenantID :: string
  an_ApprovalID :: string
  an_IntentID :: string
  an_DecisionID :: string
  an_SituationID :: string
  an_SituationVersion :: int
  an_IntentDigest :: string
  an_SnapshotDigest :: string
  an_RiskClass :: string
  an_ExpiresAt :: string
  an_Audience :: string
  an_Summary :: string
  an_Delta :: document
  an_Hypothesis :: string
  an_Evidence :: "string list"
  an_Action :: document
  an_DeclineConsequence :: string
  an_SourceAuthority :: string

record approval_resolved =
  av_TenantID :: string
  av_ApprovalID :: string
  av_IntentID :: string
  av_DecisionID :: string
  av_SituationID :: string
  av_SituationVersion :: int
  av_Status :: string
  av_Reason :: string
  av_At :: time
  av_Trace :: trace_context

record approval_withdrawn =
  aw_TenantID :: string
  aw_ApprovalID :: string
  aw_IntentID :: string
  aw_SituationID :: string
  aw_SituationVersion :: int
  aw_Reason :: string
  aw_At :: time
  aw_Trace :: trace_context

datatype action_event =
    CommandDispatchedEvent dispatch_notice
  | OutcomeRecordedEvent outcome_notice
  | OutcomeReconciledEvent reconciliation_notice
  | ApprovalRequestedEvent approval_notification time trace_context
  | ApprovalResolvedEvent approval_resolved
  | ApprovalWithdrawnEvent approval_withdrawn

text \<open>
  The tables of the action plane and of policy. \<open>db_items\<close> has the trigger of a scheduler item, \<open>db_triggers\<close> the
  delta of a trigger evaluation (empty for NULL), \<open>db_counts\<close> the dispatches of a tenant, an intent type and
  an hour, \<open>db_roles\<close> the name of a role and \<open>db_memberships\<close> the pairs of a principal and a role.
\<close>

record actions_db =
  db_commands :: "command_db_row list"
  db_outbox :: "outbox_db_row list"
  db_outcomes :: "outcome_db_row list"
  db_verifications :: "verification_db_row list"
  db_intents :: "intent_db_row list"
  db_decisions :: "decision_db_row list"
  db_episodes :: "episode_row list"
  db_situations :: "situation_db_row list"
  db_evaluations :: "evaluation_db_row list"
  db_approvals :: "approval_row list"
  db_interlock :: interlock_table
  db_events :: "action_event list"
  db_versions :: "version_db_row list"
  db_items :: "(string \<times> string) list"
  db_triggers :: "(string \<times> string) list"
  db_counts :: "((string \<times> string \<times> string) \<times> int) list"
  db_principals :: "principal_db_row list"
  db_roles :: "(string \<times> string) list"
  db_memberships :: "(string \<times> string) list"
  db_authorities :: "authority_db_row list"

record action_service =
  as_owner :: string
  as_leaseFor :: duration
  as_assertOwner :: "actions_db \<Rightarrow> unit result"
  as_commandSchema :: "document \<Rightarrow> unit result"
  as_intentSchema :: "document \<Rightarrow> unit result"
  as_decisionSchema :: "document \<Rightarrow> unit result"
  as_outcomeSchema :: "document \<Rightarrow> unit result"
  as_binding :: "string \<Rightarrow> string \<Rightarrow> document \<Rightarrow> actions_db \<Rightarrow> unit result"
  as_notify :: "action_event \<Rightarrow> actions_db \<Rightarrow> unit result"

type_synonym 'a transaction = "actions_db \<Rightarrow> ('a \<times> actions_db) result"

definition AssertActionOwner :: "action_service \<Rightarrow> actions_db \<Rightarrow> unit result" where
  "AssertActionOwner s db = wrap_err ''action runtime ownership lost'' (as_assertOwner s db)"

definition AssertInterlock :: "actions_db \<Rightarrow> unit result" where
  "AssertInterlock db = (case AssertReady (db_interlock db) of
     Inl _ \<Rightarrow> Inl (Errorf ''interlock rejected command'')
   | Inr _ \<Rightarrow> Inr ())"

text \<open>The transaction of the final gate that the effector runs before it accepts a command
  (\<^verbatim>\<open>control/internal/app/dispatch.go\<close>, for a configured store).\<close>

definition AuthorizeDispatch :: "actions_db \<Rightarrow> unit result" where
  "AuthorizeDispatch db = AssertInterlock db"

section \<open>Commands enter the outbox\<close>

definition InsertCommand :: "command_db_row \<Rightarrow> bool transaction" where
  "InsertCommand c db =
     (if list_ex (\<lambda>r. cm_intent r = cm_intent c) (db_commands db) then Inr (False, db)
      else if list_ex (\<lambda>r. cm_id r = cm_id c \<or> cm_idempotency r = cm_idempotency c) (db_commands db)
              \<or> length (cm_idempotency c) \<noteq> 32 \<or> length (cm_sha c) \<noteq> 32
      then Inl (Errorf ''insert command'')
      else Inr (True, db\<lparr>db_commands := db_commands db @ [c\<lparr>cm_status := CommandPending\<rparr>]\<rparr>))"

definition RemovePreparedCommand :: "string \<Rightarrow> string \<Rightarrow> unit transaction" where
  "RemovePreparedCommand intentID commandID db =
     (let matches = (\<lambda>r. cm_intent r = intentID \<and> cm_id r = commandID \<and> cm_status r = CommandPending)
      in if length (filter matches (db_commands db)) \<noteq> 1 then Inl (Errorf ''remove rate-limited command'')
         else Inr ((), db\<lparr>db_commands := filter (\<lambda>r. \<not> matches r) (db_commands db)\<rparr>))"

text \<open>\<open>AUTOINCREMENT\<close> hands out a larger identifier than any row ever had; rows of the outbox are never
  deleted, so that is one more than the largest present.\<close>

definition next_outbox_id :: "outbox_db_row list \<Rightarrow> int" where
  "next_outbox_id rows = fold max (map ob_id rows) 0 + 1"

definition InsertCommandOutbox :: "string \<Rightarrow> time \<Rightarrow> actions_db \<Rightarrow> actions_db" where
  "InsertCommandOutbox commandID now db =
     (if list_ex (\<lambda>r. ob_kind r = ''command'' \<and> ob_aggregate r = commandID \<and> ob_version r = 1) (db_outbox db) then db
      else db\<lparr>db_outbox := db_outbox db @ [\<lparr>ob_id = next_outbox_id (db_outbox db), ob_kind = ''command'', ob_aggregate = commandID,
             ob_version = 1, ob_status = OutboxPending, ob_attempts = 0, ob_available = ReadableTime now, ob_owner = None,
             ob_until = None, ob_error = None, ob_delivered = None\<rparr>]\<rparr>)"

section \<open>Documents\<close>

record command_document =
  cd_CommandID :: string
  cd_IntentID :: string
  cd_TenantID :: string
  cd_EffectorRoute :: string
  cd_NormalizedTarget :: string
  cd_IdempotencyKey :: string
  cd_PolicyDigest :: string
  cd_NotBeforeMonoUS :: int
  cd_Payload :: document

definition payloadOf :: "document \<Rightarrow> document" where
  "payloadOf d = (case map_of d ''payload'' of Some (AnyMap p) \<Rightarrow> p | _ \<Rightarrow> [])"

definition ParseCommandDocument :: "document \<Rightarrow> command_document" where
  "ParseCommandDocument d =
     \<lparr>cd_CommandID = DocumentString d ''command_id'', cd_IntentID = DocumentString d ''intent_id'',
      cd_TenantID = DocumentString d ''tenant_id'', cd_EffectorRoute = DocumentString d ''effector_route'',
      cd_NormalizedTarget = DocumentString d ''normalized_target'', cd_IdempotencyKey = DocumentString d ''idempotency_key'',
      cd_PolicyDigest = DocumentString d ''policy_digest'', cd_NotBeforeMonoUS = DocumentInt d ''not_before_mono_us'',
      cd_Payload = payloadOf d\<rparr>"

record command_row =
  cr_ID :: string
  cr_TenantID :: string
  cr_IntentID :: string
  cr_Route :: string
  cr_Target :: string
  cr_JSON :: string
  cr_SHA :: string
  cr_Idempotency :: string

definition command_row_of :: "command_db_row \<Rightarrow> command_row" where
  "command_row_of c = \<lparr>cr_ID = cm_id c, cr_TenantID = cm_tenant c, cr_IntentID = cm_intent c, cr_Route = cm_route c,
     cr_Target = cm_target c, cr_JSON = cm_json c, cr_SHA = cm_sha c, cr_Idempotency = cm_idempotency c\<rparr>"

definition command_MatchesLedger :: "command_document \<Rightarrow> command_row \<Rightarrow> bool" where
  "command_MatchesLedger c row = (case DecodeDigest (cd_IdempotencyKey c) of
     Inl _ \<Rightarrow> False
   | Inr idempotency \<Rightarrow> cr_ID row = cd_CommandID c \<and> cr_IntentID row = cd_IntentID c \<and> cr_TenantID row = cd_TenantID c
       \<and> cr_Route row = cd_EffectorRoute c \<and> cr_Target row = cd_NormalizedTarget c \<and> cr_Idempotency row = idempotency)"

definition document_command :: "command_document \<Rightarrow> action_command \<Rightarrow> action_command" where
  "document_command c base =
     base\<lparr>ac_IntentID := cd_IntentID c, ac_TenantID := cd_TenantID c, ac_EffectorRoute := cd_EffectorRoute c,
          ac_NormalizedTarget := cd_NormalizedTarget c, ac_IdempotencyKey := cd_IdempotencyKey c,
          ac_PolicyDigest := cd_PolicyDigest c, ac_NotBeforeMonoUS := cd_NotBeforeMonoUS c, ac_Payload := cd_Payload c\<rparr>"

definition intent_MatchesLedger :: "document \<Rightarrow> intent_db_row \<Rightarrow> bool" where
  "intent_MatchesLedger d row \<longleftrightarrow>
     DocumentString d ''intent_id'' = nt_id row \<and> DocumentString d ''decision_id'' = nt_decision row
     \<and> DocumentString d ''tenant_id'' = nt_tenant row \<and> DocumentString d ''situation_id'' = nt_situation row
     \<and> DocumentInt d ''situation_version'' = nt_version row \<and> DocumentString d ''type'' = nt_type row
     \<and> DocumentString d ''risk_class'' = nt_risk row"


section \<open>Candidates\<close>

record lease =
  le_Owner :: string
  le_Until :: time
  le_HasOwner :: bool
  le_HasUntil :: bool
  le_Unreadable :: bool

definition lease_Expired :: "lease \<Rightarrow> time \<Rightarrow> bool" where
  "lease_Expired l now \<longleftrightarrow> \<not> le_HasOwner l \<or> \<not> le_HasUntil l \<or> \<not> now < le_Until l"

definition abandonReason :: "lease \<Rightarrow> string" where
  "abandonReason l = (if le_Unreadable l then ''lease expiry unreadable before dispatch'' else ''lease expired before dispatch'')"

definition leaseOf :: "string option \<Rightarrow> stored_time option \<Rightarrow> lease" where
  "leaseOf owner until =
     (let l = \<lparr>le_Owner = or_empty owner, le_Until = 0, le_HasOwner = (owner \<noteq> None), le_HasUntil = False, le_Unreadable = False\<rparr>
      in case until of
           None \<Rightarrow> l
         | Some txt \<Rightarrow> (case ParseTime txt of
             None \<Rightarrow> l\<lparr>le_Unreadable := True\<rparr>
           | Some t \<Rightarrow> l\<lparr>le_Until := t, le_HasUntil := True\<rparr>))"

record candidate =
  ca_OutboxID :: int
  ca_OutboxStatus :: string
  ca_Lease :: lease
  ca_Command :: command_row
  ca_CommandStatus :: string
  ca_Trace :: trace_context

record leased_command =
  lc_OutboxID :: int
  lc_Command :: action_command
  lc_LeaseOwner :: string
  lc_Trace :: trace_context

datatype admission_step = AbandonExpiredLease | FailInvalidCommand | CloseOutboxOnly | AcquireLease

record admission_decision =
  ad_Step :: admission_step
  ad_FailureCode :: string
  ad_AbandonReason :: string
  ad_OutboxClosure :: string
  ad_Leased :: leased_command

definition FailureCommandJSONInvalid :: string where "FailureCommandJSONInvalid = ''command_json_invalid''"
definition FailureCommandSchemaInvalid :: string where "FailureCommandSchemaInvalid = ''command_schema_invalid''"
definition FailureCommandDigestMismatch :: string where "FailureCommandDigestMismatch = ''command_digest_mismatch''"

definition commandDecodeFailure :: "document_error \<Rightarrow> string" where
  "commandDecodeFailure err = (if err = ErrDocumentSchema then FailureCommandSchemaInvalid else FailureCommandJSONInvalid)"

definition candidate_document :: "action_service \<Rightarrow> candidate \<Rightarrow> string + command_document" where
  "candidate_document s c = (case DecodeDocument (as_commandSchema s) (cr_JSON (ca_Command c)) of
     Inl err \<Rightarrow> Inl (commandDecodeFailure err)
   | Inr raw \<Rightarrow>
       (let document = ParseCommandDocument raw
        in if command_MatchesLedger document (ca_Command c) \<and> VerifyDocumentDigest DomainCommand raw (cr_SHA (ca_Command c))
           then Inr document else Inl FailureCommandDigestMismatch))"

definition outboxClosure :: "string \<Rightarrow> string" where
  "outboxClosure commandStatus = (if commandStatus = CommandOutcomeUnknown then OutboxFailed else OutboxDelivered)"

definition bare_command :: "string \<Rightarrow> action_command" where
  "bare_command commandID = \<lparr>ac_CommandID = commandID, ac_IntentID = '''', ac_TenantID = '''', ac_EffectorRoute = '''',
     ac_NormalizedTarget = '''', ac_IdempotencyKey = '''', ac_PolicyDigest = '''', ac_NotBeforeMonoUS = 0, ac_Payload = []\<rparr>"

definition withLedgerIdentity :: "candidate \<Rightarrow> leased_command \<Rightarrow> leased_command" where
  "withLedgerIdentity c l =
     l\<lparr>lc_Command := (lc_Command l)\<lparr>ac_TenantID := cr_TenantID (ca_Command c), ac_IntentID := cr_IntentID (ca_Command c)\<rparr>\<rparr>"

definition decide :: "admission_step \<Rightarrow> leased_command \<Rightarrow> admission_decision" where
  "decide step l = \<lparr>ad_Step = step, ad_FailureCode = '''', ad_AbandonReason = '''', ad_OutboxClosure = '''', ad_Leased = l\<rparr>"

definition admitCommandDocument :: "action_service \<Rightarrow> candidate \<Rightarrow> leased_command \<Rightarrow> admission_decision" where
  "admitCommandDocument s c l = (case candidate_document s c of
     Inl failureCode \<Rightarrow> (decide FailInvalidCommand l)\<lparr>ad_FailureCode := failureCode\<rparr>
   | Inr document \<Rightarrow>
       (let l' = l\<lparr>lc_Command := document_command document (lc_Command l)\<rparr>
        in if ca_CommandStatus c = CommandSucceeded \<or> ca_CommandStatus c = CommandOutcomeUnknown
           then (decide CloseOutboxOnly l')\<lparr>ad_OutboxClosure := outboxClosure (ca_CommandStatus c)\<rparr>
           else decide AcquireLease l'))"

definition admit_candidate :: "action_service \<Rightarrow> candidate \<Rightarrow> time \<Rightarrow> admission_decision" where
  "admit_candidate s c now =
     (let l = \<lparr>lc_OutboxID = ca_OutboxID c, lc_Command = bare_command (cr_ID (ca_Command c)), lc_LeaseOwner = '''', lc_Trace = ca_Trace c\<rparr>
      in if ca_OutboxStatus c = OutboxLeased
         then let l' = l\<lparr>lc_LeaseOwner := le_Owner (ca_Lease c)\<rparr>
              in if lease_Expired (ca_Lease c) now
                 then (decide AbandonExpiredLease (withLedgerIdentity c l'))\<lparr>ad_AbandonReason := abandonReason (ca_Lease c)\<rparr>
                 else admitCommandDocument s c l'
         else admitCommandDocument s c l)"

text \<open>\<open>lease_until <= now OR NOT stored_time_ok(lease_until)\<close>; \<open>stored_time_ok\<close> of NULL is false.\<close>

definition lease_lapsed :: "stored_time option \<Rightarrow> time \<Rightarrow> bool" where
  "lease_lapsed until now = (case until of
     None \<Rightarrow> True
   | Some txt \<Rightarrow> (case ParseTime txt of None \<Rightarrow> True | Some t \<Rightarrow> t \<le> now))"

definition available_by :: "stored_time \<Rightarrow> time \<Rightarrow> bool" where
  "available_by txt now = (case txt of ReadableTime t \<Rightarrow> t \<le> now | UnreadableTime raw \<Rightarrow> raw \<le> FormatTime now)"

definition claimable :: "outbox_db_row \<Rightarrow> time \<Rightarrow> bool" where
  "claimable r now \<longleftrightarrow> ob_status r = OutboxPending \<or> ob_status r = OutboxLeased \<and> lease_lapsed (ob_until r) now"

definition decision_trace :: "decision_db_row \<Rightarrow> trace_context" where
  "decision_trace d = \<lparr>tc_Traceparent = or_empty (dc_traceparent d), tc_Tracestate = or_empty (dc_tracestate d)\<rparr>"

definition candidate_of :: "actions_db \<Rightarrow> outbox_db_row \<Rightarrow> candidate option" where
  "candidate_of db r =
     Option.bind (find (\<lambda>c. cm_id c = ob_aggregate r) (db_commands db)) (\<lambda>c.
     Option.bind (find (\<lambda>i. nt_id i = cm_intent c) (db_intents db)) (\<lambda>i.
     Option.bind (find (\<lambda>d. dc_id d = nt_decision i) (db_decisions db)) (\<lambda>d.
       Some \<lparr>ca_OutboxID = ob_id r, ca_OutboxStatus = ob_status r, ca_Lease = leaseOf (ob_owner r) (ob_until r),
             ca_Command = command_row_of c, ca_CommandStatus = cm_status c, ca_Trace = decision_trace d\<rparr>)))"

definition compare_outbox :: "outbox_db_row \<Rightarrow> outbox_db_row \<Rightarrow> int" where
  "compare_outbox a b = compare3 (ob_id a) (ob_id b)"

definition NextCandidate :: "time \<Rightarrow> actions_db \<Rightarrow> candidate option" where
  "NextCandidate now db =
     (case List.map_filter (\<lambda>r. if ob_kind r = ''command'' \<and> available_by (ob_available r) now \<and> claimable r now
                                then candidate_of db r else None)
             (sort_func compare_outbox (db_outbox db)) of
        [] \<Rightarrow> None
      | c # _ \<Rightarrow> Some c)"

definition try_AcquireLease :: "int \<Rightarrow> string \<Rightarrow> time \<Rightarrow> time \<Rightarrow> actions_db \<Rightarrow> bool \<times> actions_db" where
  "try_AcquireLease outboxID owner until now db =
     (let P = (\<lambda>r. ob_id r = outboxID \<and> claimable r now)
      in (rows_affected P (db_outbox db) = 1,
          db\<lparr>db_outbox := sql_update P (\<lambda>r. r\<lparr>ob_status := OutboxLeased, ob_owner := Some owner,
               ob_until := Some (ReadableTime until), ob_attempts := ob_attempts r + 1\<rparr>) (db_outbox db)\<rparr>))"

definition MarkCommandDispatching :: "string \<Rightarrow> time \<Rightarrow> actions_db \<Rightarrow> actions_db" where
  "MarkCommandDispatching commandID now db =
     db\<lparr>db_commands := sql_update (\<lambda>c. cm_id c = commandID \<and> cm_status c \<in> {CommandPending, CommandFailed, CommandDispatching})
        (\<lambda>c. c\<lparr>cm_status := CommandDispatching, cm_updated := now\<rparr>) (db_commands db)\<rparr>"

definition fail_command :: "int \<Rightarrow> string \<Rightarrow> string \<Rightarrow> time \<Rightarrow> actions_db \<Rightarrow> actions_db" where
  "fail_command outboxID commandID code now db =
     db\<lparr>db_commands := sql_update (\<lambda>c. cm_id c = commandID) (\<lambda>c. c\<lparr>cm_status := CommandFailed, cm_updated := now\<rparr>) (db_commands db),
        db_outbox := sql_update (\<lambda>r. ob_id r = outboxID)
          (\<lambda>r. r\<lparr>ob_status := OutboxFailed, ob_error := Some code, ob_owner := None, ob_until := None\<rparr>) (db_outbox db)\<rparr>"

definition delivered_at :: "string \<Rightarrow> time \<Rightarrow> outbox_db_row \<Rightarrow> time option" where
  "delivered_at status moment r = (if status = OutboxDelivered then Some moment else ob_delivered r)"

definition close_outbox :: "int \<Rightarrow> string \<Rightarrow> time \<Rightarrow> actions_db \<Rightarrow> actions_db" where
  "close_outbox outboxID status now db =
     db\<lparr>db_outbox := sql_update (\<lambda>r. ob_id r = outboxID)
        (\<lambda>r. r\<lparr>ob_status := status, ob_owner := None, ob_until := None, ob_delivered := delivered_at status now r\<rparr>) (db_outbox db)\<rparr>"

section \<open>Recording a dispatch\<close>

record outbox_lease =
  ol_Status :: string
  ol_Owner :: string
  ol_Until :: time

definition LoadOutboxLease :: "int \<Rightarrow> actions_db \<Rightarrow> outbox_lease option" where
  "LoadOutboxLease outboxID db =
     map_option (\<lambda>r. \<lparr>ol_Status = ob_status r, ol_Owner = or_empty (ob_owner r),
       ol_Until = (case ob_until r of Some txt \<Rightarrow> (case ParseTime txt of Some t \<Rightarrow> t | None \<Rightarrow> 0) | None \<Rightarrow> 0)\<rparr>)
       (find (\<lambda>r. ob_id r = outboxID) (db_outbox db))"

definition LeaseStanding :: "outbox_lease \<Rightarrow> string \<Rightarrow> time \<Rightarrow> bool \<times> bool" where
  "LeaseStanding l owner now =
     (if ol_Status l \<noteq> OutboxLeased \<or> ol_Owner l \<noteq> owner then (False, False) else (True, now < ol_Until l))"

record dispatch_result =
  dr_Status :: string
  dr_Reconciliation :: string
  dr_CommandStatus :: string
  dr_ErrorCode :: string
  dr_OutboxStatus :: string
  dr_VerificationStatus :: string
  dr_Settled :: bool

definition completeClassification :: "dispatch_result \<Rightarrow> effect \<Rightarrow> dispatch_error option \<Rightarrow> dispatch_result" where
  "completeClassification r0 ef err =
     (let r1 = (if err \<noteq> None then r0\<lparr>dr_OutboxStatus := OutboxFailed\<rparr> else r0);
          r2 = (if dr_Status r1 = OutcomeFailed then r1\<lparr>dr_VerificationStatus := VerificationRefuted\<rparr>
                else if err \<noteq> None \<or> ef_VerificationPending ef then r1\<lparr>dr_VerificationStatus := VerificationAwaiting\<rparr> else r1)
      in r2\<lparr>dr_Settled := (\<not> ef_VerificationPending ef \<and> (dr_Status r2 = OutcomeSucceeded \<or> dr_Status r2 = OutcomeFailed))\<rparr>)"

definition ClassifyDispatch :: "effect \<Rightarrow> dispatch_error option \<Rightarrow> dispatch_result" where
  "ClassifyDispatch ef err =
     (let r0 = \<lparr>dr_Status = OutcomeSucceeded, dr_Reconciliation = ReconciliationObserved, dr_CommandStatus = CommandSucceeded,
                dr_ErrorCode = '''', dr_OutboxStatus = OutboxDelivered, dr_VerificationStatus = VerificationObserved, dr_Settled = False\<rparr>;
          r1 = (if err \<noteq> None \<and> IsUnknownOutcome err
                then r0\<lparr>dr_Status := OutcomeUnknown, dr_Reconciliation := ReconciliationRequired,
                        dr_CommandStatus := CommandReconciling, dr_ErrorCode := ErrorOutcomeUnknown\<rparr>
                else if err \<noteq> None
                then r0\<lparr>dr_Status := OutcomeFailed, dr_Reconciliation := ReconciliationNotRequired,
                        dr_CommandStatus := CommandFailed, dr_ErrorCode := ErrorDispatchFailed\<rparr>
                else if ef_VerificationPending ef
                then r0\<lparr>dr_Status := OutcomeReconcileRequired, dr_Reconciliation := ReconciliationRequired,
                        dr_CommandStatus := CommandManualReview\<rparr>
                else r0)
      in completeClassification r1 ef err)"

definition ExpiredLeaseResult :: "effect \<times> dispatch_error option" where
  "ExpiredLeaseResult = (no_effect, Some (UnknownOutcomeError ''lease expired before provider result''))"

definition OutcomeDocument :: "string \<Rightarrow> string \<Rightarrow> string \<Rightarrow> document option \<Rightarrow> string \<Rightarrow> time \<Rightarrow> document" where
  "OutcomeDocument commandID outcomeID status result errorCode moment =
     [(''outcome_id'', AnyString outcomeID), (''command_id'', AnyString commandID), (''status'', AnyString status),
      (''observed_at'', AnyString (FormatTime moment))]
     @ (case result of Some r \<Rightarrow> [(''result'', AnyMap r)] | None \<Rightarrow> [])
     @ (if errorCode \<noteq> '''' then [(''error_code'', AnyString errorCode)] else [])"

definition OutcomeDigest :: "action_service \<Rightarrow> document \<Rightarrow> string result" where
  "OutcomeDigest s d =
     bind_res (wrap_err ''validate outcome'' (as_outcomeSchema s d)) (\<lambda>_.
       wrap_err ''digest outcome'' (DigestSum DomainOutcome (AnyMap d)))"

definition NotifiedStatus :: "string \<Rightarrow> string" where
  "NotifiedStatus status = (if status = OutcomeReconcileRequired then OutcomeUnknown else status)"

record outcome_record =
  or_ID :: string
  or_CommandID :: string
  or_Status :: string
  or_Reconciliation :: string
  or_ProviderResult :: "document option"
  or_ObservedEffect :: "document option"
  or_SHA :: string
  or_Trace :: trace_context
  or_At :: time

definition optionalJSON :: "document option \<Rightarrow> string option result" where
  "optionalJSON v = (case v of None \<Rightarrow> Inr None | Some d \<Rightarrow> bind_res (wrap_err ''encode optional JSON'' (Marshal (AnyMap d))) (\<lambda>t. Inr (Some t)))"

definition last_ordinal :: "string \<Rightarrow> outcome_db_row list \<Rightarrow> int" where
  "last_ordinal commandID rows = fold max (map ot_ordinal (filter (\<lambda>r. ot_command r = commandID) rows)) 0"

definition InsertOutcome :: "outcome_record \<Rightarrow> actions_db \<Rightarrow> actions_db result" where
  "InsertOutcome rec db =
     bind_res (wrap_err ''encode provider result'' (optionalJSON (or_ProviderResult rec))) (\<lambda>providerJSON.
     bind_res (wrap_err ''encode observed effect'' (optionalJSON (or_ObservedEffect rec))) (\<lambda>observedJSON.
       if list_ex (\<lambda>r. ot_id r = or_ID rec) (db_outcomes db) \<or> \<not> list_ex (\<lambda>c. cm_id c = or_CommandID rec) (db_commands db)
       then Inl (Errorf ''record action outcome'')
       else Inr (db\<lparr>db_outcomes := db_outcomes db @ [\<lparr>ot_id = or_ID rec, ot_command = or_CommandID rec,
              ot_ordinal = last_ordinal (or_CommandID rec) (db_outcomes db) + 1, ot_status = or_Status rec, ot_provider = providerJSON,
              ot_observed = observedJSON, ot_reconciliation = or_Reconciliation rec, ot_sha = or_SHA rec, ot_trace = or_Trace rec,
              ot_occurred = or_At rec\<rparr>]\<rparr>)))"

definition store_verification :: "string \<Rightarrow> string \<Rightarrow> string \<Rightarrow> time \<Rightarrow> string \<Rightarrow> actions_db \<Rightarrow> actions_db result" where
  "store_verification verificationID outcomeID status moment commandID db =
     (case find (\<lambda>c. cm_id c = commandID) (db_commands db) of
        None \<Rightarrow> Inr db
      | Some c \<Rightarrow>
          if list_ex (\<lambda>v. vf_intent v = cm_intent c) (db_verifications db)
          then Inr (db\<lparr>db_verifications := sql_update (\<lambda>v. vf_intent v = cm_intent c)
                 (\<lambda>v. v\<lparr>vf_outcome := outcomeID, vf_status := status, vf_updated := moment\<rparr>) (db_verifications db)\<rparr>)
          else if list_ex (\<lambda>v. vf_id v = verificationID) (db_verifications db) then Inl (Errorf ''record command verification'')
          else Inr (db\<lparr>db_verifications := db_verifications db @ [\<lparr>vf_id = verificationID, vf_intent = cm_intent c,
                 vf_command = commandID, vf_outcome = outcomeID, vf_status = status, vf_reconciled = None, vf_updated = moment\<rparr>]\<rparr>))"

definition null_if_empty :: "string \<Rightarrow> string option" where
  "null_if_empty s = (if s = '''' then None else Some s)"

definition CloseDispatch :: "leased_command \<Rightarrow> dispatch_result \<Rightarrow> string \<Rightarrow> string \<Rightarrow> time \<Rightarrow> actions_db \<Rightarrow> actions_db result" where
  "CloseDispatch l r outcomeID verificationID moment db =
     (let db1 = db\<lparr>db_commands := sql_update (\<lambda>c. cm_id c = ac_CommandID (lc_Command l) \<and> cm_status c = CommandDispatching)
                     (\<lambda>c. c\<lparr>cm_status := dr_CommandStatus r, cm_updated := moment\<rparr>) (db_commands db)\<rparr>;
          db2 = db1\<lparr>db_outbox := sql_update (\<lambda>o'. ob_id o' = lc_OutboxID l \<and> ob_owner o' = Some (lc_LeaseOwner l))
                     (\<lambda>o'. o'\<lparr>ob_status := dr_OutboxStatus r, ob_owner := None, ob_until := None,
                             ob_error := null_if_empty (dr_ErrorCode r), ob_delivered := delivered_at (dr_OutboxStatus r) moment o'\<rparr>)
                     (db_outbox db1)\<rparr>
      in store_verification verificationID outcomeID (dr_VerificationStatus r) moment (ac_CommandID (lc_Command l)) db2)"

definition append_event :: "action_service \<Rightarrow> action_event \<Rightarrow> actions_db \<Rightarrow> actions_db result" where
  "append_event s ev db = bind_res (as_notify s ev db) (\<lambda>_. Inr (db\<lparr>db_events := db_events db @ [ev]\<rparr>))"


section \<open>Reconciliation notices\<close>

definition LoadReconciledProvenance :: "string \<Rightarrow> string \<Rightarrow> string \<Rightarrow> actions_db \<Rightarrow> reconciled_provenance result" where
  "LoadReconciledProvenance outcomeID commandID intentID db =
     (case Option.bind (find (\<lambda>o'. ot_id o' = outcomeID \<and> ot_command o' = commandID) (db_outcomes db)) (\<lambda>o'.
           Option.bind (find (\<lambda>c. cm_id c = ot_command o') (db_commands db)) (\<lambda>c.
           Option.bind (find (\<lambda>i. nt_id i = cm_intent c \<and> nt_id i = intentID) (db_intents db)) (\<lambda>i.
           map_option (\<lambda>d. \<lparr>rp_Version = ot_ordinal o', rp_Digest = ot_sha o', rp_Trace = decision_trace d\<rparr>)
             (find (\<lambda>d. dc_id d = nt_decision i) (db_decisions db))))) of
        None \<Rightarrow> Inl (Errorf ''load reconciled outcome provenance'')
      | Some p \<Rightarrow> Inr p)"

definition provenance_Validate :: "reconciled_provenance \<Rightarrow> unit result" where
  "provenance_Validate p =
     (if rp_Version p < 1 \<or> \<not> HasSumLength (rp_Digest p) then Inl (Errorf ''reconciled outcome provenance is incomplete'') else Inr ())"

definition appendReconciliationNotice ::
  "action_service \<Rightarrow> string \<Rightarrow> string \<Rightarrow> string \<Rightarrow> string \<Rightarrow> string \<Rightarrow> time \<Rightarrow> actions_db \<Rightarrow> actions_db result" where
  "appendReconciliationNotice s tenantID intentID commandID outcomeID finalStatus moment db =
     bind_res (LoadReconciledProvenance outcomeID commandID intentID db) (\<lambda>p.
     bind_res (provenance_Validate p) (\<lambda>_.
       append_event s (OutcomeReconciledEvent \<lparr>rn_TenantID = tenantID, rn_IntentID = intentID, rn_CommandID = commandID,
         rn_OutcomeID = outcomeID, rn_FinalStatus = finalStatus, rn_Provenance = p, rn_At = moment\<rparr>) db))"

section \<open>Finalising a dispatch\<close>

definition dispatchOutcome ::
  "action_service \<Rightarrow> string \<Rightarrow> leased_command \<Rightarrow> effect \<Rightarrow> dispatch_result \<Rightarrow> time \<Rightarrow> outcome_record result" where
  "dispatchOutcome s outcomeID l ef r now =
     bind_res (wrap_err ''action outcome'' (OutcomeDigest s
       (OutcomeDocument (ac_CommandID (lc_Command l)) outcomeID (dr_Status r) (ef_ProviderResult ef) (dr_ErrorCode r) now))) (\<lambda>digest.
       Inr \<lparr>or_ID = outcomeID, or_CommandID = ac_CommandID (lc_Command l), or_Status = dr_Status r,
            or_Reconciliation = dr_Reconciliation r, or_ProviderResult = ef_ProviderResult ef, or_ObservedEffect = ef_ObservedEffect ef,
            or_SHA = digest, or_Trace = lc_Trace l, or_At = now\<rparr>)"

definition appendDispatchNotices ::
  "action_service \<Rightarrow> leased_command \<Rightarrow> dispatch_result \<Rightarrow> outcome_record \<Rightarrow> time \<Rightarrow> actions_db \<Rightarrow> actions_db result" where
  "appendDispatchNotices s l r rec moment db =
     bind_res (append_event s (CommandDispatchedEvent \<lparr>dn_Command = lc_Command l, dn_Trace = lc_Trace l,
        dn_Status = dr_CommandStatus r, dn_OutcomeID = or_ID rec, dn_At = moment\<rparr>) db) (\<lambda>db1.
     bind_res (append_event s (OutcomeRecordedEvent \<lparr>on_Command = lc_Command l, on_Trace = lc_Trace l, on_OutcomeID = or_ID rec,
        on_Status = NotifiedStatus (or_Status rec), on_Reconciliation = or_Reconciliation rec, on_Digest = or_SHA rec, on_At = moment\<rparr>) db1) (\<lambda>db2.
       if \<not> dr_Settled r then Inr db2
       else appendReconciliationNotice s (ac_TenantID (lc_Command l)) (ac_IntentID (lc_Command l)) (ac_CommandID (lc_Command l))
              (or_ID rec) (dr_Status r) moment db2))"

definition recordFinalDispatch ::
  "action_service \<Rightarrow> string \<times> string \<Rightarrow> leased_command \<Rightarrow> effect \<Rightarrow> dispatch_error option \<Rightarrow> time \<Rightarrow> actions_db \<Rightarrow> actions_db result" where
  "recordFinalDispatch s ids l ef err now db =
     (let r = ClassifyDispatch ef err
      in bind_res (dispatchOutcome s (fst ids) l ef r now) (\<lambda>rec.
         bind_res (InsertOutcome rec db) (\<lambda>db1.
         bind_res (CloseDispatch l r (or_ID rec) (snd ids) now db1) (\<lambda>db2.
           appendDispatchNotices s l r rec now db2))))"

definition resultAtStanding :: "bool \<Rightarrow> effect \<Rightarrow> dispatch_error option \<Rightarrow> effect \<times> dispatch_error option" where
  "resultAtStanding live ef err = (if live then (ef, err) else ExpiredLeaseResult)"

definition finalizeIn ::
  "action_service \<Rightarrow> string \<times> string \<Rightarrow> time \<Rightarrow> leased_command \<Rightarrow> effect \<Rightarrow> dispatch_error option \<Rightarrow> actions_db \<Rightarrow> actions_db result" where
  "finalizeIn s ids now l ef err db =
     bind_res (AssertActionOwner s db) (\<lambda>_. case LoadOutboxLease (lc_OutboxID l) db of
       None \<Rightarrow> Inr db
     | Some ol \<Rightarrow> (case LeaseStanding ol (lc_LeaseOwner l) now of (held, live) \<Rightarrow>
         if \<not> held then Inr db
         else case resultAtStanding live ef err of (ef', err') \<Rightarrow> recordFinalDispatch s ids l ef' err' now db))"

section \<open>Leasing\<close>

definition acquireLease ::
  "action_service \<Rightarrow> string \<Rightarrow> leased_command \<Rightarrow> time \<Rightarrow> (leased_command \<times> bool) transaction" where
  "acquireLease s leaseID l now db =
     (let l' = l\<lparr>lc_LeaseOwner := as_owner s @ ''/'' @ leaseID\<rparr>
      in case try_AcquireLease (lc_OutboxID l') (lc_LeaseOwner l') (now + as_leaseFor s) now db of
           (acquired, db1) \<Rightarrow>
             if \<not> acquired then Inr ((l', False), db1)
             else Inr ((l', True), MarkCommandDispatching (ac_CommandID (lc_Command l')) now db1))"

text \<open>\<open>ids\<close> are the identifiers handed out: of the outcome and the verification when a lapsed lease is
  abandoned, of the lease otherwise. \<open>finalizeIn\<close> reads the clock again.\<close>

definition admit_decision ::
  "action_service \<Rightarrow> string \<times> string \<Rightarrow> admission_decision \<Rightarrow> time \<Rightarrow> time \<Rightarrow> (leased_command \<times> bool) transaction" where
  "admit_decision s ids a now now2 db =
     (let l = ad_Leased a
      in case ad_Step a of
           AbandonExpiredLease \<Rightarrow>
             bind_res (finalizeIn s ids now2 l no_effect (Some (UnknownOutcomeError (ad_AbandonReason a))) db) (\<lambda>db'. Inr ((l, False), db'))
         | FailInvalidCommand \<Rightarrow>
             Inr ((l, False), fail_command (lc_OutboxID l) (ac_CommandID (lc_Command l)) (ad_FailureCode a) now db)
         | CloseOutboxOnly \<Rightarrow> Inr ((l, False), close_outbox (lc_OutboxID l) (ad_OutboxClosure a) now db)
         | AcquireLease \<Rightarrow> acquireLease s (fst ids) l now db)"

definition leaseIn :: "action_service \<Rightarrow> string \<times> string \<Rightarrow> time \<Rightarrow> time \<Rightarrow> (leased_command \<times> bool) option transaction" where
  "leaseIn s ids now now2 db =
     bind_res (AssertActionOwner s db) (\<lambda>_. case NextCandidate now db of
       None \<Rightarrow> Inr (None, db)
     | Some c \<Rightarrow> bind_res (admit_decision s ids (admit_candidate s c now) now now2 db) (\<lambda>(r, db'). Inr (Some r, db')))"

section \<open>Authorization\<close>

record authorization_records =
  ar_Command :: command_row
  ar_Intent :: intent_db_row
  ar_IntentExpiresAt :: time
  ar_Approval :: "(string \<times> time) option"
  ar_Decision :: decision_db_row
  ar_EpisodeTenant :: string
  ar_EpisodeSituation :: string
  ar_EpisodeVersion :: int
  ar_ProducedDecision :: bool
  ar_Situation :: situation_db_row

definition loadApprovedApproval :: "string \<Rightarrow> actions_db \<Rightarrow> (string \<times> time) option result" where
  "loadApprovedApproval intentID db = (case LatestApprovedOfIntent intentID (db_approvals db) of
     None \<Rightarrow> Inr None
   | Some a \<Rightarrow> (case ParseTime (af_ExpiresAt a) of
       None \<Rightarrow> Inl (Errorf ''parse approval expiry'')
     | Some t \<Rightarrow> Inr (Some (af_ID a, t))))"

definition scanAuthorizationRecords :: "string \<Rightarrow> actions_db \<Rightarrow> authorization_records result" where
  "scanAuthorizationRecords commandID db =
     (case Option.bind (find (\<lambda>c. cm_id c = commandID \<and> cm_status c = CommandDispatching) (db_commands db)) (\<lambda>c.
           Option.bind (find (\<lambda>i. nt_id i = cm_intent c) (db_intents db)) (\<lambda>i.
           Option.bind (find (\<lambda>d. dc_id d = nt_decision i) (db_decisions db)) (\<lambda>d.
           Option.bind (find (\<lambda>e. e_id e = dc_episode d) (db_episodes db)) (\<lambda>e.
           map_option (\<lambda>m. (c, i, d, e, m)) (find (\<lambda>m. sm_id m = nt_situation i) (db_situations db)))))) of
        None \<Rightarrow> Inl (Errorf ''load authorization records'')
      | Some (c, i, d, e, m) \<Rightarrow> (case ParseTime (nt_expires i) of
          None \<Rightarrow> Inl (Errorf ''parse intent expiry'')
        | Some t \<Rightarrow> Inr \<lparr>ar_Command = command_row_of c, ar_Intent = i, ar_IntentExpiresAt = t, ar_Approval = None, ar_Decision = d,
             ar_EpisodeTenant = a_TenantID (e_admission e), ar_EpisodeSituation = e_situation e,
             ar_EpisodeVersion = a_SituationVersion (e_admission e),
             ar_ProducedDecision = ProducedDecision (e_lifecycle e), ar_Situation = m\<rparr>))"

definition LoadAuthorizationRecords :: "string \<Rightarrow> actions_db \<Rightarrow> authorization_records result" where
  "LoadAuthorizationRecords commandID db =
     bind_res (scanAuthorizationRecords commandID db) (\<lambda>r.
     bind_res (loadApprovedApproval (nt_id (ar_Intent r)) db) (\<lambda>a. Inr (r\<lparr>ar_Approval := a\<rparr>)))"

definition VerifiedCommand :: "action_service \<Rightarrow> authorization_records \<Rightarrow> command_document result" where
  "VerifiedCommand s r =
     (case VerifyStoredDocument (as_commandSchema s) DomainCommand (cr_JSON (ar_Command r)) (cr_SHA (ar_Command r)) of
        Inl _ \<Rightarrow> Inl (Errorf ''command ledger identity mismatch'')
      | Inr raw \<Rightarrow> (let document = ParseCommandDocument raw
          in if \<not> command_MatchesLedger document (ar_Command r) then Inl (Errorf ''command ledger identity mismatch'') else Inr document))"

definition RequireApprovedIntent :: "authorization_records \<Rightarrow> unit result" where
  "RequireApprovedIntent r =
     (if cr_TenantID (ar_Command r) = nt_tenant (ar_Intent r) \<and> cr_IntentID (ar_Command r) = nt_id (ar_Intent r)
         \<and> cr_Route (ar_Command r) = nt_type (ar_Intent r) \<and> nt_policy (ar_Intent r) = ''approved''
         \<and> dc_validation (ar_Decision r) = ''accepted''
      then Inr () else Inl (Errorf ''command is no longer approved for its intent''))"

definition checkApprovalRecord :: "authorization_records \<Rightarrow> time \<Rightarrow> unit result" where
  "checkApprovalRecord r now = (case ar_Approval r of
     None \<Rightarrow> Inl (Errorf ''approved intent has no approved approval record'')
   | Some (_, expires) \<Rightarrow> if \<not> now < expires then Inl (Errorf ''approval is expired'') else Inr ())"

definition CheckApproval :: "authorization_records \<Rightarrow> time \<Rightarrow> unit result" where
  "CheckApproval r now = (case RouteFor (nt_risk (ar_Intent r)) (nt_requires_approval (ar_Intent r)) of
     RouteAutomatic \<Rightarrow> Inr ()
   | RouteApproval \<Rightarrow> checkApprovalRecord r now
   | RouteDenied \<Rightarrow> Inl (Errorf ''risk policy denies the intent''))"

definition RequireCurrent :: "authorization_records \<Rightarrow> unit result" where
  "RequireCurrent r =
     (let i = ar_Intent r
      in if ar_EpisodeTenant r = nt_tenant i \<and> sm_tenant (ar_Situation r) = nt_tenant i
            \<and> dc_situation (ar_Decision r) = nt_situation i \<and> dc_version (ar_Decision r) = nt_version i
            \<and> ar_EpisodeSituation r = nt_situation i \<and> ar_EpisodeVersion r = nt_version i
            \<and> ar_ProducedDecision r \<and> sm_last_material (ar_Situation r) \<le> nt_version i
         then Inr () else Inl (Errorf ''command authorization is stale''))"

definition CheckIntent :: "action_service \<Rightarrow> authorization_records \<Rightarrow> time \<Rightarrow> unit result" where
  "CheckIntent s r now =
     (if \<not> now < ar_IntentExpiresAt r then Inl (Errorf ''intent authorization is expired'')
      else case VerifyStoredDocument (as_intentSchema s) DomainIntent (nt_json (ar_Intent r)) (nt_sha (ar_Intent r)) of
        Inl _ \<Rightarrow> Inl (Errorf ''intent authorization is invalid'')
      | Inr document \<Rightarrow> if \<not> intent_MatchesLedger document (ar_Intent r)
          then Inl (Errorf ''intent authorization identity mismatch'') else Inr ())"

definition CheckDecision :: "action_service \<Rightarrow> authorization_records \<Rightarrow> unit result" where
  "CheckDecision s r =
     (case VerifyStoredDocument (as_decisionSchema s) DomainDecision (dc_json (ar_Decision r)) (dc_sha (ar_Decision r)) of
        Inl _ \<Rightarrow> Inl (Errorf ''decision authorization is invalid'')
      | Inr d \<Rightarrow> if DocumentString d ''decision_id'' \<noteq> nt_decision (ar_Intent r) \<or> DocumentString d ''episode_id'' \<noteq> dc_episode (ar_Decision r)
              \<or> DocumentString d ''situation_id'' \<noteq> nt_situation (ar_Intent r) \<or> DocumentInt d ''situation_version'' \<noteq> nt_version (ar_Intent r)
          then Inl (Errorf ''decision authorization identity mismatch'') else Inr ())"

text \<open>\<open>ORDER BY evaluated_at DESC LIMIT 1\<close>; the first of the latest rows stands for an open tie.\<close>

definition ApprovedPolicyDigest :: "string \<Rightarrow> actions_db \<Rightarrow> string result" where
  "ApprovedPolicyDigest intentID db =
     (case filter (\<lambda>p. pe_intent p = intentID \<and> pe_result p = ''approved'') (db_evaluations db) of
        [] \<Rightarrow> Inl (Errorf ''load approved policy digest'')
      | p # ps \<Rightarrow> Inr (pe_digest (foldl (\<lambda>best x. if pe_evaluated best < pe_evaluated x then x else best) p ps)))"

definition checkPolicyDigest :: "command_document \<Rightarrow> string \<Rightarrow> actions_db \<Rightarrow> unit result" where
  "checkPolicyDigest d intentID db =
     (if cd_PolicyDigest d = '''' then Inr ()
      else bind_res (ApprovedPolicyDigest intentID db) (\<lambda>evaluated.
        if cd_PolicyDigest d \<noteq> evaluated then Inl (Errorf ''command policy digest is stale'') else Inr ()))"

definition live_lease_row :: "int \<Rightarrow> string \<Rightarrow> time \<Rightarrow> outbox_db_row \<Rightarrow> bool" where
  "live_lease_row outboxID owner now r \<longleftrightarrow> ob_id r = outboxID \<and> ob_status r = OutboxLeased \<and> ob_owner r = Some owner
     \<and> \<not> lease_lapsed (ob_until r) now"

definition LeaseIsLive :: "int \<Rightarrow> string \<Rightarrow> time \<Rightarrow> actions_db \<Rightarrow> bool" where
  "LeaseIsLive outboxID owner now db \<longleftrightarrow> list_ex (live_lease_row outboxID owner now) (db_outbox db)"

definition requireLiveLease :: "leased_command \<Rightarrow> time \<Rightarrow> actions_db \<Rightarrow> unit result" where
  "requireLiveLease l now db =
     (if \<not> LeaseIsLive (lc_OutboxID l) (lc_LeaseOwner l) now db then Inl (Errorf ''dispatch lease is no longer active'') else Inr ())"

definition refreshLease :: "action_service \<Rightarrow> leased_command \<Rightarrow> time \<Rightarrow> actions_db \<Rightarrow> actions_db result" where
  "refreshLease s l now db =
     (let P = live_lease_row (lc_OutboxID l) (lc_LeaseOwner l) now
      in if rows_affected P (db_outbox db) \<noteq> 1 then Inl (Errorf ''refresh dispatch lease lost ownership'')
         else Inr (db\<lparr>db_outbox := sql_update P (\<lambda>r. r\<lparr>ob_until := Some (ReadableTime (now + as_leaseFor s))\<rparr>) (db_outbox db)\<rparr>))"

text \<open>\<open>clk n\<close> is the reading of the clock at the n-th call of the transaction.\<close>

definition authorizeCurrentDocuments ::
  "action_service \<Rightarrow> (nat \<Rightarrow> time) \<Rightarrow> leased_command \<Rightarrow> authorization_records \<Rightarrow> command_document \<Rightarrow> actions_db \<Rightarrow> actions_db result" where
  "authorizeCurrentDocuments s clk l r d db =
     bind_res (RequireCurrent r) (\<lambda>_.
     bind_res (CheckIntent s r (clk 2)) (\<lambda>_.
     bind_res (checkPolicyDigest d (nt_id (ar_Intent r)) db) (\<lambda>_.
     bind_res (CheckDecision s r) (\<lambda>_.
       refreshLease s l (clk 3) db))))"

definition authorizeCurrentCommand ::
  "action_service \<Rightarrow> (nat \<Rightarrow> time) \<Rightarrow> leased_command \<Rightarrow> authorization_records \<Rightarrow> command_document \<Rightarrow> actions_db \<Rightarrow> actions_db result" where
  "authorizeCurrentCommand s clk l r d db =
     bind_res (RequireApprovedIntent r) (\<lambda>_.
     bind_res (AssertInterlock db) (\<lambda>_.
     bind_res (CheckApproval r (clk 1)) (\<lambda>_.
       authorizeCurrentDocuments s clk l r d db)))"

definition revalidateIn :: "action_service \<Rightarrow> (nat \<Rightarrow> time) \<Rightarrow> leased_command \<Rightarrow> actions_db \<Rightarrow> actions_db result" where
  "revalidateIn s clk l db =
     bind_res (AssertActionOwner s db) (\<lambda>_.
     bind_res (requireLiveLease l (clk 0) db) (\<lambda>_.
     bind_res (LoadAuthorizationRecords (ac_CommandID (lc_Command l)) db) (\<lambda>r.
     bind_res (VerifiedCommand s r) (\<lambda>d.
       authorizeCurrentCommand s clk l r d db))))"

section \<open>Device verification\<close>

record device_check =
  dk_Effect :: effect
  dk_DispatchErr :: "dispatch_error option"
  dk_FinalStatus :: string
  dk_Evidence :: "document option"
  dk_VerifyErr :: bool

definition ReconcilesUnknown :: "device_check \<Rightarrow> bool" where
  "ReconcilesUnknown c \<longleftrightarrow> IsUnknownOutcome (dk_DispatchErr c) \<and> dk_FinalStatus c \<noteq> '''' \<and> \<not> dk_VerifyErr c"

definition SkipsDeviceVerification :: "dispatch_error option \<Rightarrow> bool" where
  "SkipsDeviceVerification err \<longleftrightarrow> err \<noteq> None \<and> \<not> IsUnknownOutcome err"

definition ClassifyDeviceVerification :: "device_check \<Rightarrow> device_check" where
  "ClassifyDeviceVerification c =
     (if dk_VerifyErr c
      then c\<lparr>dk_Effect := (dk_Effect c)\<lparr>ef_VerificationPending := False\<rparr>, dk_DispatchErr := Some (UnknownOutcomeError ''verify device state'')\<rparr>
      else if dk_FinalStatus c \<noteq> ''''
      then let c1 = c\<lparr>dk_Effect := (dk_Effect c)\<lparr>ef_VerificationPending := False\<rparr>\<rparr>
           in if dk_FinalStatus c = CommandFailed
              then c1\<lparr>dk_DispatchErr := Some (DispatchRefused ''device state verification failed'')\<rparr> else c1
      else c)"

text \<open>\<open>verifier\<close> is what the effector's verifier answers (final status, evidence, whether it failed), or
  \<open>None\<close> for an effector that cannot verify.\<close>

definition verifyDevice ::
  "(string \<times> document option \<times> bool) option \<Rightarrow> effect \<Rightarrow> dispatch_error option \<Rightarrow> device_check" where
  "verifyDevice verifier ef err =
     (let c = \<lparr>dk_Effect = ef, dk_DispatchErr = err, dk_FinalStatus = '''', dk_Evidence = None, dk_VerifyErr = False\<rparr>
      in case verifier of
           None \<Rightarrow> c
         | Some (finalStatus, evidence, failed) \<Rightarrow>
             if SkipsDeviceVerification err then c
             else let c1 = c\<lparr>dk_FinalStatus := finalStatus, dk_Evidence := evidence, dk_VerifyErr := failed\<rparr>;
                      c2 = (if finalStatus \<noteq> '''' then c1\<lparr>dk_Effect := (dk_Effect c1)\<lparr>ef_ObservedEffect := evidence\<rparr>\<rparr> else c1)
                  in if err \<noteq> None then c2 else ClassifyDeviceVerification c2)"

definition deadline_unknown :: "dispatch_error option \<Rightarrow> dispatch_error option" where
  "deadline_unknown err = (if err = Some DeadlineExceeded then Some (UnknownOutcomeError ''context deadline exceeded'') else err)"

section \<open>Reconciliation\<close>

definition requireDeviceFeedbackFields :: "document \<Rightarrow> unit result" where
  "requireDeviceFeedbackFields d =
     (if list_all (\<lambda>key. map_of d key \<noteq> None) [''device_id'', ''boot_id'', ''state'', ''feedback_digest'']
      then Inr () else Inl (Errorf ''device reconciliation evidence requires''))"

fun first_digest :: "document \<Rightarrow> string list \<Rightarrow> unit result" where
  "first_digest d [] = Inl (Errorf ''reconciliation evidence must include a sha256 evidence, state, or feedback digest'')"
| "first_digest d (key # keys) = (case as_string (map_of d key) of
     None \<Rightarrow> first_digest d keys
   | Some digest \<Rightarrow> if digest = '''' then first_digest d keys
       else bind_res (wrap_err ''invalid reconciliation digest'' (DecodeDigest digest)) (\<lambda>_. Inr ()))"

definition requireEvidenceDigest :: "document \<Rightarrow> unit result" where
  "requireEvidenceDigest d = first_digest d [''evidence_digest'', ''state_digest'', ''feedback_digest'']"

definition evidenceHeader :: "document \<Rightarrow> (string \<times> string) result" where
  "evidenceHeader raw =
     (let source = DocumentString raw ''source''; evidenceType = DocumentString raw ''evidence_type''
      in if source = '''' then Inl (Errorf ''reconciliation evidence source is required'')
         else if evidenceType \<noteq> ''provider_observation'' \<and> evidenceType \<noteq> ''device_state_feedback''
         then Inl (Errorf ''reconciliation evidence_type is required'')
         else Inr (source, evidenceType))"

definition validateTyped :: "string \<Rightarrow> document \<Rightarrow> unit result" where
  "validateTyped evidenceType raw =
     (if evidenceType = ''device_state_feedback''
      then bind_res (requireDeviceFeedbackFields raw) (\<lambda>_. requireEvidenceDigest raw)
      else requireEvidenceDigest raw)"

definition ParseReconciliation :: "string \<Rightarrow> document \<Rightarrow> document result" where
  "ParseReconciliation finalStatus raw =
     (if finalStatus \<noteq> CommandSucceeded \<and> finalStatus \<noteq> CommandFailed \<and> finalStatus \<noteq> CommandManualReview
      then Inl (Errorf ''invalid reconciliation status'')
      else if raw = [] then Inl (Errorf ''reconciliation evidence is required'')
      else bind_res (evidenceHeader raw) (\<lambda>(source, evidenceType).
           bind_res (validateTyped evidenceType raw) (\<lambda>_. Inr raw)))"

definition ReconciledVerificationStatus :: "string \<Rightarrow> string" where
  "ReconciledVerificationStatus finalStatus =
     (if finalStatus = CommandSucceeded then VerificationReconciled
      else if finalStatus = CommandFailed then VerificationRefuted else VerificationInconclusive)"

definition ReconciliationOutcomeDocument :: "string \<Rightarrow> string \<Rightarrow> string \<Rightarrow> document \<Rightarrow> time \<Rightarrow> document" where
  "ReconciliationOutcomeDocument commandID outcomeID finalStatus evidence moment =
     OutcomeDocument commandID outcomeID OutcomeReconciled
       (Some [(''final_status'', AnyString finalStatus), (''evidence'', AnyMap evidence)]) '''' moment"

record reconcilable_command =
  rc_ID :: string
  rc_TenantID :: string
  rc_IntentID :: string
  rc_Target :: string
  rc_Status :: string
  rc_Trace :: trace_context

definition LoadReconcilableCommand :: "string \<Rightarrow> actions_db \<Rightarrow> reconcilable_command result" where
  "LoadReconcilableCommand commandID db =
     (case Option.bind (find (\<lambda>c. cm_id c = commandID) (db_commands db)) (\<lambda>c.
           Option.bind (find (\<lambda>i. nt_id i = cm_intent c) (db_intents db)) (\<lambda>i.
           map_option (\<lambda>d. \<lparr>rc_ID = commandID, rc_TenantID = cm_tenant c, rc_IntentID = cm_intent c, rc_Target = cm_target c,
               rc_Status = cm_status c, rc_Trace = decision_trace d\<rparr>)
             (find (\<lambda>d. dc_id d = nt_decision i) (db_decisions db)))) of
        None \<Rightarrow> Inl (Errorf ''load command for reconciliation'')
      | Some c \<Rightarrow> Inr c)"

definition RequireAwaitingReconciliation :: "reconcilable_command \<Rightarrow> unit result" where
  "RequireAwaitingReconciliation c =
     (if IsUnresolvedCommandStatus (rc_Status c) then Inr () else Inl (Errorf ''command is not awaiting reconciliation''))"

definition CloseReconciliation :: "reconcilable_command \<Rightarrow> string \<Rightarrow> string \<Rightarrow> time \<Rightarrow> actions_db \<Rightarrow> actions_db" where
  "CloseReconciliation c finalStatus outcomeID moment db =
     db\<lparr>db_commands := sql_update (\<lambda>r. cm_id r = rc_ID c \<and> IsUnresolvedCommandStatus (cm_status r))
          (\<lambda>r. r\<lparr>cm_status := finalStatus, cm_updated := moment\<rparr>) (db_commands db),
        db_verifications := sql_update (\<lambda>v. vf_command v = rc_ID c)
          (\<lambda>v. v\<lparr>vf_outcome := outcomeID, vf_status := ReconciledVerificationStatus finalStatus,
                 vf_reconciled := Some moment, vf_updated := moment\<rparr>) (db_verifications db)\<rparr>"

definition recordReconciliation ::
  "action_service \<Rightarrow> string \<Rightarrow> time \<Rightarrow> reconcilable_command \<Rightarrow> string \<Rightarrow> document \<Rightarrow> actions_db \<Rightarrow> actions_db result" where
  "recordReconciliation s outcomeID now c finalStatus evidence db =
     bind_res (wrap_err ''reconciliation outcome''
       (OutcomeDigest s (ReconciliationOutcomeDocument (rc_ID c) outcomeID finalStatus evidence now))) (\<lambda>digest.
     bind_res (InsertOutcome \<lparr>or_ID = outcomeID, or_CommandID = rc_ID c, or_Status = OutcomeReconciled,
         or_Reconciliation = ReconciliationReconciled, or_ProviderResult = Some evidence, or_ObservedEffect = None, or_SHA = digest,
         or_Trace = rc_Trace c, or_At = now\<rparr> db) (\<lambda>db1.
       appendReconciliationNotice s (rc_TenantID c) (rc_IntentID c) (rc_ID c) outcomeID finalStatus now
         (CloseReconciliation c finalStatus outcomeID now db1)))"

definition reconcileIn ::
  "action_service \<Rightarrow> string \<Rightarrow> time \<Rightarrow> string \<Rightarrow> string \<Rightarrow> document \<Rightarrow> actions_db \<Rightarrow> actions_db result" where
  "reconcileIn s outcomeID now commandID finalStatus evidence db =
     bind_res (AssertActionOwner s db) (\<lambda>_.
     bind_res (LoadReconcilableCommand commandID db) (\<lambda>c.
     bind_res (RequireAwaitingReconciliation c) (\<lambda>_.
     bind_res (wrap_err ''verify device command evidence'' (as_binding s (rc_ID c) (rc_Target c) evidence db)) (\<lambda>_.
       recordReconciliation s outcomeID now c finalStatus evidence db))))"

definition reconcileUnknown ::
  "action_service \<Rightarrow> string \<Rightarrow> time \<Rightarrow> string \<Rightarrow> string \<Rightarrow> document \<Rightarrow> actions_db \<Rightarrow> actions_db result" where
  "reconcileUnknown s outcomeID now commandID finalStatus raw db =
     bind_res (ParseReconciliation finalStatus raw) (\<lambda>evidence.
       wrap_err ''reconcile unknown command'' (reconcileIn s outcomeID now commandID finalStatus evidence db))"

definition AwaitingReconciliation :: "string \<Rightarrow> actions_db \<Rightarrow> command_db_row list" where
  "AwaitingReconciliation tenantID db =
     sort_func (\<lambda>a b. cmp_or (compare3 (cm_updated a) (cm_updated b)) (compare3 (cm_id a) (cm_id b)))
       (filter (\<lambda>c. cm_tenant c = tenantID \<and> IsUnresolvedCommandStatus (cm_status c)) (db_commands db))"

definition CountUnresolvedOutcomes :: "string list \<Rightarrow> actions_db \<Rightarrow> int" where
  "CountUnresolvedOutcomes commandIDs db =
     (if commandIDs = [] then 0
      else int (length (filter (\<lambda>c. cm_id c \<in> set commandIDs \<and> IsUnresolvedCommandStatus (cm_status c)) (db_commands db))))"

definition CallTimeout :: "duration \<Rightarrow> duration" where
  "CallTimeout lease = (let timeout = lease - (if 0 \<le> lease then lease div 10 else - ((- lease) div 10)) in if 0 < timeout then timeout else lease)"

end
