(* ===== verification/Policy.thy ===== *)
theory Policy
  imports Actions
begin

text \<open>
  Policy (\<^verbatim>\<open>internal/policy\<close>): the gate between an accepted decision and an effect. Evaluating an intent
  checks the runtime owner and the policy epoch, the stored documents with their digests, freshness and
  expiry, the risk route, the action interlock and the hourly limit, and then queues one command or opens
  one approval; resolving an approval checks two distinct principals and an Ed25519 signature over the
  canonical assertion before the intent is evaluated again.

  \<^item> The database and the transactions are those of the action plane; an error rolls everything back.
  \<^item> The identifiers a transaction may hand out are an argument (\<open>policy_ids\<close>): a command or an approval,
    and the evaluation record, each at most once.
  \<^item> The ownership and epoch checks of the runtime, the compiled schemas, the acceptance of a notice by
    the notification outbox and Ed25519 verification are fields of the service.
  \<^item> The YAML reader of the principal document is a library; the model starts from the decoded document.
\<close>

section \<open>Records\<close>

record intent_record =
  ir_IntentID :: string
  ir_DecisionID :: string
  ir_EpisodeID :: string
  ir_EpisodeTenant :: string
  ir_EpisodeSituation :: string
  ir_EpisodeVersion :: int
  ir_SituationTenant :: string
  ir_DecisionSituation :: string
  ir_DecisionVersion :: int
  ir_TenantID :: string
  ir_SituationID :: string
  ir_SituationVersion :: int
  ir_IntentType :: string
  ir_RiskClass :: string
  ir_IntentJSON :: string
  ir_IntentSHA :: string
  ir_RateLimitPerHour :: int
  ir_RequiresApproval :: bool
  ir_ExpiresAt :: time
  ir_ExpiryUnreadable :: bool
  ir_EventHorizon :: time
  ir_PolicyStatus :: string
  ir_ValidationStatus :: string
  ir_DecisionJSON :: string
  ir_DecisionSHA :: string
  ir_Trace :: trace_context
  ir_EpisodeProducedDecision :: bool
  ir_CurrentSituation :: int
  ir_LastMaterialVersion :: int
  ir_CurrentCompleteness :: string
  ir_ExecutorVersion :: string
  ir_SituationType :: string
  ir_PolicyEpoch :: string

record policy_result =
  re_IntentID :: string
  re_DecisionID :: string
  re_Result :: string
  re_Reason :: string
  re_CommandID :: string
  re_ApprovalID :: string

record outcome =
  oc_Status :: string
  oc_Reason :: string
  oc_AuditDetail :: string

definition outcome_of :: "string \<Rightarrow> string \<Rightarrow> outcome" where
  "outcome_of status reason = \<lparr>oc_Status = status, oc_Reason = reason, oc_AuditDetail = ''''\<rparr>"

definition AuditReason :: "outcome \<Rightarrow> string" where
  "AuditReason o' = (if oc_AuditDetail o' \<noteq> '''' then oc_AuditDetail o' else oc_Reason o')"

record decision_document =
  dd_Document :: document
  dd_ID :: string
  dd_EpisodeID :: string
  dd_SituationID :: string
  dd_SituationVersion :: int
  dd_Summary :: string
  dd_Hypothesis :: string

record intent_document =
  ni_Document :: document
  ni_ID :: string
  ni_DecisionID :: string
  ni_TenantID :: string
  ni_SituationID :: string
  ni_Type :: string
  ni_RiskClass :: string
  ni_Compensates :: string
  ni_SituationVersion :: int
  ni_Parameters :: "document option"
  ni_Evidence :: "string list"

record approval_record =
  ay_IntentID :: string
  ay_Status :: string
  ay_ExpiresAt :: time
  ay_JSON :: string

record approval_resolution =
  rq_TenantID :: string
  rq_ID :: string
  rq_Approved :: bool
  rq_Approver :: string
  rq_Relay :: string
  rq_Signature :: string
  rq_Reason :: string
  rq_Now :: time

record command_record =
  cc_ID :: string
  cc_JSON :: string
  cc_SHA :: string
  cc_Key :: string
  cc_Target :: string

definition no_command :: command_record where
  "no_command = \<lparr>cc_ID = '''', cc_JSON = '''', cc_SHA = '''', cc_Key = '''', cc_Target = ''''\<rparr>"

datatype epoch_refusal = PolicyEpochUnbound | PolicyEpochRefused go_error

record policy_service =
  ps_policyVersion :: string
  ps_policyDigest :: string
  ps_ownerEpoch :: string
  ps_runtimeOwner :: "string \<Rightarrow> actions_db \<Rightarrow> unit result"
  ps_decisionEpoch :: "string \<Rightarrow> actions_db \<Rightarrow> epoch_refusal + unit"
  ps_decisionSchema :: "document \<Rightarrow> unit result"
  ps_intentSchema :: "document \<Rightarrow> unit result"
  ps_notify :: "action_event \<Rightarrow> actions_db \<Rightarrow> unit result"
  ps_verify :: "string \<Rightarrow> string \<Rightarrow> string \<Rightarrow> bool"

record policy_ids =
  id_Command :: string
  id_Approval :: string
  id_Policy :: string

record evaluation =
  ev_row :: intent_record
  ev_decision :: decision_document
  ev_intent :: intent_document
  ev_result :: policy_result
  ev_now :: time
  ev_expiresAt :: time

section \<open>Rules\<close>

definition MatchesDecisionIdentity :: "intent_record \<Rightarrow> decision_document \<Rightarrow> bool" where
  "MatchesDecisionIdentity row d \<longleftrightarrow>
     dd_ID d = ir_DecisionID row \<and> dd_EpisodeID d = ir_EpisodeID row \<and> dd_SituationID d = ir_SituationID row
     \<and> dd_SituationVersion d = ir_SituationVersion row
     \<and> ir_EpisodeTenant row = ir_TenantID row \<and> ir_SituationTenant row = ir_TenantID row
     \<and> ir_DecisionSituation row = ir_SituationID row \<and> ir_DecisionVersion row = ir_SituationVersion row
     \<and> ir_EpisodeSituation row = ir_SituationID row \<and> ir_EpisodeVersion row = ir_SituationVersion row"

definition MatchesIntentIdentity :: "intent_record \<Rightarrow> intent_document \<Rightarrow> bool" where
  "MatchesIntentIdentity row d \<longleftrightarrow>
     ni_ID d = ir_IntentID row \<and> ni_DecisionID d = ir_DecisionID row \<and> ni_TenantID d = ir_TenantID row
     \<and> ni_SituationID d = ir_SituationID row \<and> ni_SituationVersion d = ir_SituationVersion row
     \<and> ni_Type d = ir_IntentType row \<and> ni_RiskClass d = ir_RiskClass row"

definition SourceHealthIncomplete :: "intent_record \<Rightarrow> bool" where
  "SourceHealthIncomplete row \<longleftrightarrow>
     Consequential (ir_RiskClass row) \<and> (ir_CurrentCompleteness row = ''provisional'' \<or> ir_CurrentCompleteness row = ''uncertain'')"

definition ApprovalDecision :: "bool \<Rightarrow> string \<times> string" where
  "ApprovalDecision approved = (if approved then (''approved'', ''pending'') else (''denied'', ''denied''))"

definition denialReason :: "string \<Rightarrow> route \<Rightarrow> string" where
  "denialReason risk route =
     (if \<not> risk_Valid risk then ''unknown_risk_class''
      else if route = RouteDenied then ''risk_policy_denied'' else '''')"

definition RiskRoute :: "intent_record \<Rightarrow> route \<times> string" where
  "RiskRoute row =
     (let routed = RouteFor (ir_RiskClass row) (ir_RequiresApproval row)
      in (routed, denialReason (ir_RiskClass row) routed))"

definition MateriallySuperseded :: "intent_record \<Rightarrow> bool" where
  "MateriallySuperseded row \<longleftrightarrow> ir_LastMaterialVersion row > ir_SituationVersion row"

definition expiryFailure :: "intent_record \<Rightarrow> time \<Rightarrow> string \<times> string" where
  "expiryFailure row now =
     (if ir_ExpiryUnreadable row then (''denied'', ''intent_expiry_unreadable'')
      else if \<not> now < ir_ExpiresAt row then (''expired'', ''intent_expired'')
      else ('''', ''''))"

definition FreshnessFailure :: "intent_record \<Rightarrow> time \<Rightarrow> string \<times> string \<times> time" where
  "FreshnessFailure row now =
     (if \<not> ir_EpisodeProducedDecision row then (''denied'', ''episode_not_concluded'', 0)
      else if MateriallySuperseded row then (''stale'', ''situation_version_stale'', 0)
      else if SourceHealthIncomplete row then (''denied'', ''source_health_incomplete'', 0)
      else (case expiryFailure row now of (status, reason) \<Rightarrow>
        if reason \<noteq> '''' then (status, reason, 0) else ('''', '''', ir_ExpiresAt row)))"

definition CompensationFailure :: "string \<Rightarrow> string option \<Rightarrow> string" where
  "CompensationFailure tenant commandTenant = (case commandTenant of
     None \<Rightarrow> ''compensation_target_missing''
   | Some t \<Rightarrow> if tenant \<noteq> t then ''compensation_tenant_mismatch'' else '''')"

datatype disposition = DispositionResolved | DispositionStale | DispositionExpired | DispositionAuthorize

definition ApprovalDisposition :: "intent_record \<Rightarrow> approval_record \<Rightarrow> approval_resolution \<Rightarrow> disposition" where
  "ApprovalDisposition row a r =
     (if ay_Status a \<noteq> ''pending'' then DispositionResolved
      else if rq_Approved r \<and> MateriallySuperseded row then DispositionStale
      else if \<not> rq_Now r < ay_ExpiresAt a then DispositionExpired
      else DispositionAuthorize)"

definition DistinctPrincipals :: "string \<Rightarrow> string \<Rightarrow> unit result" where
  "DistinctPrincipals approver relay =
     (if approver = '''' \<or> relay = '''' \<or> approver = relay
      then Inl (Errorf ''relay and approver must be distinct registered principals'') else Inr ())"

definition ApprovalNonce :: "string \<Rightarrow> string \<Rightarrow> string" where
  "ApprovalNonce approvalID intentID = hex_encode (Sum (approvalID @ ''|'' @ intentID))"

definition PublicKeySize :: nat where "PublicKeySize = 32"

definition VerifyAssertion :: "policy_service \<Rightarrow> string \<Rightarrow> string \<Rightarrow> string \<Rightarrow> string result" where
  "VerifyAssertion s publicKey assertion signature =
     (if length publicKey \<noteq> PublicKeySize \<or> \<not> ps_verify s publicKey assertion signature
      then Inl (Errorf ''approval assertion signature is invalid'') else Inr (Sum assertion))"

definition CompleteDigest :: "string \<Rightarrow> string \<Rightarrow> unit result" where
  "CompleteDigest digest kind = (if \<not> HasSumLength digest then Inl (Errorf (kind @ '' digest is incomplete'')) else Inr ())"

definition ActiveRelay :: "nat \<Rightarrow> unit result" where
  "ActiveRelay active = (if active \<noteq> 1 then Inl (Errorf ''relay principal is not active'') else Inr ())"

text \<open>The key that the caller read, \<open>None\<close> when the read failed; a NULL key reads as an empty one.\<close>

definition ValidApproverKey :: "string option \<Rightarrow> string result" where
  "ValidApproverKey key = (case key of
     Some k \<Rightarrow> if length k \<noteq> PublicKeySize then Inl (Errorf ''approver principal has no valid verification key'') else Inr k
   | None \<Rightarrow> Inl (Errorf ''approver principal has no valid verification key''))"

definition AuthorizedApprover :: "nat \<Rightarrow> unit result" where
  "AuthorizedApprover active = (if active = 0 then Inl (Errorf ''approver principal lacks authority'') else Inr ())"


section \<open>Documents\<close>

definition intentEvidence :: "document \<Rightarrow> string list" where
  "intentEvidence d = (case map_of d ''evidence_ids'' of
     Some (AnySlice values) \<Rightarrow> List.map_filter (\<lambda>v. case v of AnyString i \<Rightarrow> if i \<noteq> '''' then Some i else None | _ \<Rightarrow> None) values
   | _ \<Rightarrow> [])"

definition projectDecision :: "document \<Rightarrow> decision_document" where
  "projectDecision d =
     \<lparr>dd_Document = d, dd_ID = DocumentString d ''decision_id'', dd_EpisodeID = DocumentString d ''episode_id'',
      dd_SituationID = DocumentString d ''situation_id'', dd_SituationVersion = DocumentInt d ''situation_version'',
      dd_Summary = DocumentString d ''summary'', dd_Hypothesis = DocumentString d ''primary_hypothesis''\<rparr>"

definition ProjectIntent :: "document \<Rightarrow> intent_document" where
  "ProjectIntent d =
     \<lparr>ni_Document = d, ni_ID = DocumentString d ''intent_id'', ni_DecisionID = DocumentString d ''decision_id'',
      ni_TenantID = DocumentString d ''tenant_id'', ni_SituationID = DocumentString d ''situation_id'',
      ni_Type = DocumentString d ''type'', ni_RiskClass = DocumentString d ''risk_class'',
      ni_Compensates = DocumentString d ''compensates'', ni_SituationVersion = DocumentInt d ''situation_version'',
      ni_Parameters = (case map_of d ''parameters'' of Some (AnyMap p) \<Rightarrow> Some p | _ \<Rightarrow> None), ni_Evidence = intentEvidence d\<rparr>"

text \<open>A failure is the stable reason of the denial.\<close>

definition governance_DecodeDocument :: "(document \<Rightarrow> unit result) \<Rightarrow> string \<Rightarrow> string + document" where
  "governance_DecodeDocument schema raw = (case DecodeDocument schema raw of Inl _ \<Rightarrow> Inl ''schema_invalid'' | Inr d \<Rightarrow> Inr d)"

definition ParseDecision :: "policy_service \<Rightarrow> intent_record \<Rightarrow> string + decision_document" where
  "ParseDecision s row =
     (if ir_ValidationStatus row \<noteq> ''accepted'' then Inl ''decision_not_accepted''
      else bind_res (governance_DecodeDocument (ps_decisionSchema s) (ir_DecisionJSON row)) (\<lambda>d.
        if \<not> MatchesDecisionIdentity row (projectDecision d) then Inl ''identity_mismatch''
        else if \<not> VerifyDocumentDigest DomainDecision d (ir_DecisionSHA row) then Inl ''decision_digest_mismatch''
        else Inr (projectDecision d)))"

definition ParseIntent :: "policy_service \<Rightarrow> intent_record \<Rightarrow> string + intent_document" where
  "ParseIntent s row =
     bind_res (governance_DecodeDocument (ps_intentSchema s) (ir_IntentJSON row)) (\<lambda>d.
       if \<not> VerifyDocumentDigest DomainIntent d (ir_IntentSHA row) then Inl ''intent_digest_mismatch''
       else Inr (ProjectIntent d))"

definition ParseGovernanceDocuments :: "policy_service \<Rightarrow> intent_record \<Rightarrow> string + (decision_document \<times> intent_document)" where
  "ParseGovernanceDocuments s row =
     bind_res (ParseDecision s row) (\<lambda>d. bind_res (ParseIntent s row) (\<lambda>i. Inr (d, i)))"

section \<open>Commands\<close>

text \<open>\<open>unicode.IsControl\<close> accepts the C0 and C1 controls and DEL.\<close>

definition ContainsControl :: "string \<Rightarrow> bool" where
  "ContainsControl value \<longleftrightarrow> list_ex (\<lambda>r. r < 0x20 \<or> 0x7F \<le> r \<and> r \<le> 0x9F) (runes value)"

fun target_of :: "string \<Rightarrow> document \<Rightarrow> string list \<Rightarrow> string" where
  "target_of intentID parameters [] = intentID"
| "target_of intentID parameters (key # keys) = (case as_string (map_of parameters key) of
     None \<Rightarrow> target_of intentID parameters keys
   | Some candidate \<Rightarrow>
       (let candidate = trim_space candidate
        in if candidate = '''' \<or> 256 < length candidate \<or> ContainsControl candidate then intentID else candidate))"

definition NormalizedTarget :: "string \<Rightarrow> document \<Rightarrow> string" where
  "NormalizedTarget intentID parameters = target_of intentID parameters [''target'', ''entity_id'']"

definition parameters_of :: "intent_document \<Rightarrow> document" where
  "parameters_of i = (case ni_Parameters i of Some p \<Rightarrow> p | None \<Rightarrow> [])"

definition sealCommand :: "document \<Rightarrow> string \<Rightarrow> string \<Rightarrow> string \<Rightarrow> command_record result" where
  "sealCommand d commandID target idempotency =
     bind_res (wrap_err ''seal command'' (Seal DomainCommand (AnyMap d))) (\<lambda>(json, digest).
       Inr \<lparr>cc_ID = commandID, cc_JSON = json, cc_SHA = digest, cc_Key = idempotency, cc_Target = target\<rparr>)"

definition NewCommand :: "string \<Rightarrow> string \<Rightarrow> intent_record \<Rightarrow> intent_document \<Rightarrow> time \<Rightarrow> command_record result" where
  "NewCommand commandID policyDigest row intent now =
     (let target = NormalizedTarget (ir_IntentID row) (parameters_of intent);
          idempotency = Sum (ir_TenantID row @ ''|'' @ ir_IntentID row @ ''|'' @ ir_IntentType row @ ''|'' @ target)
      in sealCommand
           [(''command_id'', AnyString commandID), (''intent_id'', AnyString (ir_IntentID row)), (''tenant_id'', AnyString (ir_TenantID row)),
            (''effector_route'', AnyString (ir_IntentType row)), (''normalized_target'', AnyString target),
            (''idempotency_key'', AnyString (EncodeDigest idempotency)), (''status'', AnyString ''prepared''),
            (''not_before_mono_us'', AnyInt 0), (''policy_digest'', AnyString policyDigest), (''payload'', AnyMap (parameters_of intent)),
            (''created_at'', AnyString (FormatTime now))]
           commandID target idempotency)"

section \<open>Assertions\<close>

record approval_assertion =
  aa_Approved :: bool
  aa_ApprovalID :: string
  aa_IntentID :: string
  aa_DecisionID :: string
  aa_TenantID :: string
  aa_SituationID :: string
  aa_SituationVersion :: int
  aa_RiskClass :: string
  aa_IntentDigest :: string
  aa_DecisionDigest :: string
  aa_ExpiresAt :: time
  aa_Nonce :: string
  aa_ApproverID :: string
  aa_RelayID :: string

definition DomainApproval :: string where "DomainApproval = ''situation-runtime/approval-assertion/v1'' @ [CHR 0x0A]"

definition assertion_document :: "approval_assertion \<Rightarrow> any_value" where
  "assertion_document a = AnyMap
     [(''approval_id'', AnyString (aa_ApprovalID a)), (''intent_id'', AnyString (aa_IntentID a)), (''decision_id'', AnyString (aa_DecisionID a)),
      (''tenant_id'', AnyString (aa_TenantID a)), (''situation_id'', AnyString (aa_SituationID a)),
      (''situation_version'', AnyInt (aa_SituationVersion a)), (''risk_class'', AnyString (aa_RiskClass a)),
      (''intent_digest'', AnyString (aa_IntentDigest a)), (''decision_digest'', AnyString (aa_DecisionDigest a)),
      (''expires_at'', AnyString (FormatTime (aa_ExpiresAt a))), (''nonce'', AnyString (aa_Nonce a)),
      (''approver_id'', AnyString (aa_ApproverID a)), (''relay_id'', AnyString (aa_RelayID a)), (''approved'', AnyBool (aa_Approved a))]"

definition canonicalApprovalAssertion :: "approval_assertion \<Rightarrow> string result" where
  "canonicalApprovalAssertion a = wrap_err ''canonicalize approval assertion'' (Marshal (assertion_document a))"

definition ApprovalAssertionSigningBytes :: "approval_assertion \<Rightarrow> string result" where
  "ApprovalAssertionSigningBytes a = bind_res (canonicalApprovalAssertion a) (\<lambda>canonical. Inr (DomainApproval @ canonical))"

definition assertionFor :: "intent_record \<Rightarrow> approval_resolution \<Rightarrow> time \<Rightarrow> string \<Rightarrow> approval_assertion" where
  "assertionFor row r expiry nonce =
     \<lparr>aa_Approved = rq_Approved r, aa_ApprovalID = rq_ID r, aa_IntentID = ir_IntentID row, aa_DecisionID = ir_DecisionID row,
      aa_TenantID = ir_TenantID row, aa_SituationID = ir_SituationID row, aa_SituationVersion = ir_SituationVersion row,
      aa_RiskClass = ir_RiskClass row, aa_IntentDigest = EncodeDigest (ir_IntentSHA row), aa_DecisionDigest = EncodeDigest (ir_DecisionSHA row),
      aa_ExpiresAt = expiry, aa_Nonce = nonce, aa_ApproverID = rq_Approver r, aa_RelayID = rq_Relay r\<rparr>"

section \<open>The policy definition\<close>

definition route_text :: "route \<Rightarrow> string" where
  "route_text r = (case r of RouteAutomatic \<Rightarrow> ''automatic'' | RouteApproval \<Rightarrow> ''approval'' | RouteDenied \<Rightarrow> ''denied'')"

definition RiskPolicyDocument :: document where
  "RiskPolicyDocument = map (\<lambda>(c, r). (c, AnyString (route_text r))) riskPolicy"

definition IncompleteSourceHealthDocument :: document where
  "IncompleteSourceHealthDocument = map (\<lambda>c. (c, AnyString (route_text RouteDenied))) (filter Consequential RiskClasses)"

definition CanonicalDocumentForVersion :: "string \<Rightarrow> document" where
  "CanonicalDocumentForVersion policyVersion =
     [(''policy_version'', AnyString policyVersion), (''risk_policy'', AnyMap RiskPolicyDocument),
      (''incomplete_source_health'', AnyMap IncompleteSourceHealthDocument), (''target_resolution'', AnyString ''closed_catalog_binding'')]"

definition DomainPolicy :: string where "DomainPolicy = ''situation-runtime/policy/v1'' @ [CHR 0x0A]"

definition DigestForVersion :: "string \<Rightarrow> string result" where
  "DigestForVersion policyVersion =
     (if policyVersion = '''' then Inl (Errorf ''policy version is required'')
      else wrap_err ''digest policy document'' (Digest DomainPolicy (AnyMap (CanonicalDocumentForVersion policyVersion))))"


section \<open>Statements\<close>

definition first_version :: "string \<Rightarrow> int \<Rightarrow> actions_db \<Rightarrow> version_db_row option" where
  "first_version situationID version db = find (\<lambda>v. vr_situation v = situationID \<and> vr_version v = version) (db_versions db)"

text \<open>The joined row, before its times are read.\<close>

definition scanPolicyIntent :: "string \<Rightarrow> actions_db \<Rightarrow> (intent_db_row \<times> decision_db_row \<times> episode_row \<times> situation_db_row) option" where
  "scanPolicyIntent intentID db =
     Option.bind (find (\<lambda>i. nt_id i = intentID) (db_intents db)) (\<lambda>i.
     Option.bind (find (\<lambda>d. dc_id d = nt_decision i) (db_decisions db)) (\<lambda>d.
     Option.bind (find (\<lambda>e. e_id e = dc_episode d) (db_episodes db)) (\<lambda>e.
     map_option (\<lambda>m. (i, d, e, m)) (find (\<lambda>m. sm_id m = nt_situation i) (db_situations db)))))"

definition intent_record_of ::
  "intent_db_row \<Rightarrow> decision_db_row \<Rightarrow> episode_row \<Rightarrow> situation_db_row \<Rightarrow> string \<Rightarrow> time \<Rightarrow> intent_record" where
  "intent_record_of i d e m completeness horizon =
     \<lparr>ir_IntentID = nt_id i, ir_DecisionID = nt_decision i, ir_EpisodeID = e_id e, ir_EpisodeTenant = a_TenantID (e_admission e),
      ir_EpisodeSituation = e_situation e, ir_EpisodeVersion = a_SituationVersion (e_admission e), ir_SituationTenant = sm_tenant m,
      ir_DecisionSituation = dc_situation d, ir_DecisionVersion = dc_version d, ir_TenantID = nt_tenant i, ir_SituationID = nt_situation i,
      ir_SituationVersion = nt_version i, ir_IntentType = nt_type i, ir_RiskClass = nt_risk i, ir_IntentJSON = nt_json i,
      ir_IntentSHA = nt_sha i, ir_RateLimitPerHour = nt_rate_limit i, ir_RequiresApproval = nt_requires_approval i,
      ir_ExpiresAt = (case ParseTime (nt_expires i) of Some t \<Rightarrow> t | None \<Rightarrow> 0), ir_ExpiryUnreadable = (ParseTime (nt_expires i) = None),
      ir_EventHorizon = horizon, ir_PolicyStatus = nt_policy i, ir_ValidationStatus = dc_validation d, ir_DecisionJSON = dc_json d,
      ir_DecisionSHA = dc_sha d, ir_Trace = decision_trace d, ir_EpisodeProducedDecision = ProducedDecision (e_lifecycle e),
      ir_CurrentSituation = sm_current m, ir_LastMaterialVersion = sm_last_material m, ir_CurrentCompleteness = completeness,
      ir_ExecutorVersion = a_ExecutorVersion (e_admission e), ir_SituationType = sm_type m, ir_PolicyEpoch = a_PolicyEpoch (e_admission e)\<rparr>"

definition LoadIntent :: "string \<Rightarrow> actions_db \<Rightarrow> intent_record result" where
  "LoadIntent intentID db = (case scanPolicyIntent intentID db of
     None \<Rightarrow> Inl (Errorf ''intent not found'')
   | Some (i, d, e, m) \<Rightarrow>
       (case Option.bind (first_version (nt_situation i) (nt_version i) db) (\<lambda>v. ParseTime (vr_horizon v)) of
          None \<Rightarrow> Inl (Errorf ''read the event horizon of intent'')
        | Some horizon \<Rightarrow> Inr (intent_record_of i d e m
            (case first_version (sm_id m) (sm_current m) db of Some v \<Rightarrow> vr_completeness v | None \<Rightarrow> '''') horizon)))"

text \<open>The hour of a time, in the layout \<^verbatim>\<open>2006-01-02T15:00\<close>.\<close>

definition hour_bucket :: "time \<Rightarrow> string" where
  "hour_bucket t =
     (let (y, m, d) = civil (t div day_ns); s = t mod day_ns div second
      in append_int 4 y @ ''-'' @ digits_w 2 m @ ''-'' @ digits_w 2 d @ ''T'' @ digits_w 2 (s div 3600) @ '':00'')"

definition dispatch_key :: "intent_record \<Rightarrow> string \<times> string \<times> string" where
  "dispatch_key row = (ir_TenantID row, ir_IntentType row, hour_bucket (ir_EventHorizon row))"

text \<open>\<open>True\<close> means that the limit is used up: the conditional upsert returned no row.\<close>

definition DispatchWithinLimit :: "intent_record \<Rightarrow> actions_db \<Rightarrow> bool \<times> actions_db" where
  "DispatchWithinLimit row db = (case map_of (db_counts db) (dispatch_key row) of
     None \<Rightarrow> (False, db\<lparr>db_counts := AList.update (dispatch_key row) 1 (db_counts db)\<rparr>)
   | Some n \<Rightarrow> if n < ir_RateLimitPerHour row
       then (False, db\<lparr>db_counts := AList.update (dispatch_key row) (n + 1) (db_counts db)\<rparr>)
       else (True, db))"

definition SetIntentStatus :: "string \<Rightarrow> string \<Rightarrow> time \<Rightarrow> actions_db \<Rightarrow> actions_db" where
  "SetIntentStatus intentID status now db =
     db\<lparr>db_intents := sql_update (\<lambda>i. nt_id i = intentID) (\<lambda>i. i\<lparr>nt_policy := status, nt_updated := FormatTime now\<rparr>) (db_intents db)\<rparr>"

definition evaluation_results :: "string list" where
  "evaluation_results = [''approved'', ''approval_required'', ''simulated'', ''denied'', ''stale'', ''expired'']"

text \<open>The primary key, the foreign keys and the checks of the table.\<close>

definition RecordEvaluation :: "evaluation_db_row \<Rightarrow> actions_db \<Rightarrow> actions_db result" where
  "RecordEvaluation p db =
     (if list_ex (\<lambda>r. pe_id r = pe_id p) (db_evaluations db)
         \<or> \<not> list_ex (\<lambda>i. nt_id i = pe_intent p) (db_intents db) \<or> \<not> list_ex (\<lambda>d. dc_id d = pe_decision p) (db_decisions db)
         \<or> length (pe_intent_sha p) \<noteq> 32 \<or> length (pe_decision_sha p) \<noteq> 32
         \<or> (case pe_command p of Some c \<Rightarrow> \<not> list_ex (\<lambda>r. cm_id r = c) (db_commands db) | None \<Rightarrow> False)
         \<or> (case pe_approval p of Some a \<Rightarrow> \<not> list_ex (\<lambda>r. ap_id r = a) (db_approvals db) | None \<Rightarrow> False)
         \<or> pe_result p \<notin> set evaluation_results
      then Inl (Errorf ''record policy evaluation'')
      else Inr (db\<lparr>db_evaluations := db_evaluations db @ [p]\<rparr>))"

definition ExistingCommandID :: "string \<Rightarrow> actions_db \<Rightarrow> string" where
  "ExistingCommandID intentID db = (case find (\<lambda>c. cm_intent c = intentID) (db_commands db) of Some c \<Rightarrow> cm_id c | None \<Rightarrow> '''')"

definition policy_command_row :: "intent_record \<Rightarrow> command_record \<Rightarrow> time \<Rightarrow> command_db_row" where
  "policy_command_row row c now =
     \<lparr>cm_id = cc_ID c, cm_intent = ir_IntentID row, cm_tenant = ir_TenantID row, cm_route = ir_IntentType row, cm_target = cc_Target c,
      cm_idempotency = cc_Key c, cm_json = cc_JSON c, cm_sha = cc_SHA c, cm_status = CommandPending, cm_created = now, cm_updated = now\<rparr>"

text \<open>The command with an empty identifier when it was inserted, otherwise the identifier of the winner.\<close>

definition StoreCommandOnce :: "intent_record \<Rightarrow> command_record \<Rightarrow> time \<Rightarrow> (command_record \<times> string) transaction" where
  "StoreCommandOnce row c now db =
     bind_res (InsertCommand (policy_command_row row c now) db) (\<lambda>(inserted, db1).
       if inserted then Inr ((c, ''''), db1)
       else let existing = ExistingCommandID (ir_IntentID row) db1
            in if existing = '''' then Inl (Errorf ''command insert conflicted but no command exists for intent'')
               else Inr ((no_command, existing), db1))"

definition CompensationTenant :: "string \<Rightarrow> actions_db \<Rightarrow> string option" where
  "CompensationTenant commandID db = map_option cm_tenant (find (\<lambda>c. cm_id c = commandID) (db_commands db))"

definition PendingApproval :: "string \<Rightarrow> actions_db \<Rightarrow> string" where
  "PendingApproval intentID db = (case PendingOfIntent intentID (db_approvals db) of Some a \<Rightarrow> af_ID a | None \<Rightarrow> '''')"

definition ApprovedApproval :: "string \<Rightarrow> actions_db \<Rightarrow> string" where
  "ApprovedApproval intentID db = (case LatestApprovedOfIntent intentID (db_approvals db) of Some a \<Rightarrow> af_ID a | None \<Rightarrow> '''')"

definition PendingApprovalExpiry :: "string \<Rightarrow> actions_db \<Rightarrow> string \<times> time option" where
  "PendingApprovalExpiry intentID db = (case PendingOfIntent intentID (db_approvals db) of
     None \<Rightarrow> ('''', Some 0)
   | Some a \<Rightarrow> (af_ID a, ParseTime (af_ExpiresAt a)))"

definition AssertionBinding :: "string \<Rightarrow> actions_db \<Rightarrow> (time \<times> string) result" where
  "AssertionBinding approvalID db = (case PendingBinding approvalID (db_approvals db) of
     Inl _ \<Rightarrow> Inl (Errorf ''load assertion binding of approval'')
   | Inr b \<Rightarrow> (case ParseTime (ab_ExpiresAt b) of
       None \<Rightarrow> Inl (Errorf ''parse assertion binding of approval'')
     | Some t \<Rightarrow> Inr (t, ab_Nonce b)))"

definition LoadApproval :: "string \<Rightarrow> string \<Rightarrow> actions_db \<Rightarrow> approval_record result" where
  "LoadApproval approvalID tenant db =
     (case Option.bind (find (\<lambda>a. ap_id a = approvalID) (db_approvals db)) (\<lambda>a.
           if list_ex (\<lambda>i. nt_id i = ap_intent a \<and> nt_tenant i = tenant) (db_intents db) then Some a else None) of
        None \<Rightarrow> Inl (Errorf ''approval not found'')
      | Some a \<Rightarrow> (case ParseTime (ap_expires a) of
          None \<Rightarrow> Inl (Errorf ''load approval expiry'')
        | Some t \<Rightarrow> Inr \<lparr>ay_IntentID = ap_intent a, ay_Status = ap_status a, ay_ExpiresAt = t, ay_JSON = ap_json a\<rparr>))"

definition ledger_result :: "string \<Rightarrow> (approval_error + approval_row list) \<Rightarrow> actions_db \<Rightarrow> actions_db result" where
  "ledger_result operation r db = (case r of
     Inl _ \<Rightarrow> Inl (Errorf operation)
   | Inr rows \<Rightarrow> Inr (db\<lparr>db_approvals := rows\<rparr>))"

definition NextPendingIntent :: "string \<Rightarrow> actions_db \<Rightarrow> string option" where
  "NextPendingIntent tenantID db =
     (case sort_func (\<lambda>a b. cmp_or (compare3 (nt_created a) (nt_created b)) (compare3 (nt_id a) (nt_id b)))
             (filter (\<lambda>i. nt_tenant i = tenantID \<and> nt_policy i = ''pending'') (db_intents db)) of
        [] \<Rightarrow> None
      | i # _ \<Rightarrow> Some (nt_id i))"

section \<open>Audit and notices\<close>

definition policy_assertOwner :: "policy_service \<Rightarrow> actions_db \<Rightarrow> unit result" where
  "policy_assertOwner s db = wrap_err ''policy runtime ownership lost'' (ps_runtimeOwner s (ps_ownerEpoch s) db)"

definition audit_row :: "policy_service \<Rightarrow> string \<Rightarrow> evaluation \<Rightarrow> policy_result \<Rightarrow> string \<Rightarrow> evaluation_db_row" where
  "audit_row s evaluationID e r reason =
     \<lparr>pe_id = evaluationID, pe_intent = ir_IntentID (ev_row e), pe_decision = ir_DecisionID (ev_row e),
      pe_policy_version = ps_policyVersion s, pe_result = re_Result r, pe_digest = ps_policyDigest s,
      pe_intent_sha = ir_IntentSHA (ev_row e), pe_decision_sha = ir_DecisionSHA (ev_row e),
      pe_command = null_if_empty (re_CommandID r), pe_approval = null_if_empty (re_ApprovalID r), pe_reason = reason,
      pe_situation_version = ir_CurrentSituation (ev_row e), pe_evaluated = ev_now e\<rparr>"

definition audit :: "policy_service \<Rightarrow> policy_ids \<Rightarrow> evaluation \<Rightarrow> outcome \<Rightarrow> policy_result transaction" where
  "audit s ids e o' db =
     (let r = (ev_result e)\<lparr>re_Result := oc_Status o', re_Reason := oc_Reason o'\<rparr>
      in bind_res (RecordEvaluation (audit_row s (id_Policy ids) e r (AuditReason o')) db) (\<lambda>db'. Inr (r, db')))"

definition finish :: "policy_service \<Rightarrow> policy_ids \<Rightarrow> evaluation \<Rightarrow> outcome \<Rightarrow> policy_result transaction" where
  "finish s ids e o' db = audit s ids e o' (SetIntentStatus (ir_IntentID (ev_row e)) (oc_Status o') (ev_now e) db)"

definition appendLifecycle :: "policy_service \<Rightarrow> action_event \<Rightarrow> actions_db \<Rightarrow> actions_db result" where
  "appendLifecycle s ev db = bind_res (ps_notify s ev db) (\<lambda>_. Inr (db\<lparr>db_events := db_events db @ [ev]\<rparr>))"

definition AppendApprovalWithdrawn :: "policy_service \<Rightarrow> intent_record \<Rightarrow> string \<Rightarrow> string \<Rightarrow> time \<Rightarrow> actions_db \<Rightarrow> actions_db result" where
  "AppendApprovalWithdrawn s row approvalID reason now =
     appendLifecycle s (ApprovalWithdrawnEvent \<lparr>aw_TenantID = ir_TenantID row, aw_ApprovalID = approvalID, aw_IntentID = ir_IntentID row,
       aw_SituationID = ir_SituationID row, aw_SituationVersion = ir_SituationVersion row, aw_Reason = reason, aw_At = now, aw_Trace = ir_Trace row\<rparr>)"

definition AppendApprovalResolved ::
  "policy_service \<Rightarrow> intent_record \<Rightarrow> string \<Rightarrow> string \<Rightarrow> string \<Rightarrow> time \<Rightarrow> actions_db \<Rightarrow> actions_db result" where
  "AppendApprovalResolved s row approvalID status reason now =
     appendLifecycle s (ApprovalResolvedEvent \<lparr>av_TenantID = ir_TenantID row, av_ApprovalID = approvalID, av_IntentID = ir_IntentID row,
       av_DecisionID = ir_DecisionID row, av_SituationID = ir_SituationID row, av_SituationVersion = ir_SituationVersion row,
       av_Status = status, av_Reason = reason, av_At = now, av_Trace = ir_Trace row\<rparr>)"

definition SourceForTenant :: "string \<Rightarrow> string" where
  "SourceForTenant tenantID = ''//agentic-stream/tenant/'' @ tenantID"


section \<open>Approval requests\<close>

record approval_context =
  ax_Snapshot :: string
  ax_Delta :: document
  ax_Decision :: decision_document
  ax_Source :: string

record approval_request =
  aq_ID :: string
  aq_Nonce :: string
  aq_Data :: approval_notification
  aq_JSON :: string

definition ApprovalSnapshotDigest :: "intent_record \<Rightarrow> actions_db \<Rightarrow> string result" where
  "ApprovalSnapshotDigest row db = (case first_version (ir_SituationID row) (ir_SituationVersion row) db of
     None \<Rightarrow> Inl (Errorf ''load approval snapshot digest'')
   | Some v \<Rightarrow> Inr (vr_snapshot_sha v))"

text \<open>An episode has one scheduler item and an item one trigger, so there is at most one delta.\<close>

definition ApprovalDelta :: "string \<Rightarrow> actions_db \<Rightarrow> document result" where
  "ApprovalDelta episodeID db =
     (case Option.bind (find (\<lambda>e. e_id e = episodeID) (db_episodes db)) (\<lambda>e.
           Option.bind (map_of (db_items db) (e_item e)) (map_of (db_triggers db))) of
        None \<Rightarrow> Inr []
      | Some raw \<Rightarrow>
          if raw = '''' then Inr []
          else (case json_unmarshal raw of
            Some (AnyMap d) \<Rightarrow> Inr d
          | Some AnyNil \<Rightarrow> Inl (Errorf ''approval delta must be an object'')
          | _ \<Rightarrow> Inl (Errorf ''decode approval delta'')))"

definition approvalDecisionText :: "string \<Rightarrow> string \<Rightarrow> string" where
  "approvalDecisionText value fallback = (if trim_space value = '''' then fallback else value)"

text \<open>\<open>BuildApprovalNotification\<close> gives an intent without parameters an empty object, in the shared map of the
  document too.\<close>

definition filled_document :: "intent_document \<Rightarrow> document" where
  "filled_document i = (case ni_Parameters i of
     Some _ \<Rightarrow> ni_Document i
   | None \<Rightarrow> AList.update ''parameters'' (AnyMap []) (ni_Document i))"

definition BuildApprovalNotification ::
  "intent_record \<Rightarrow> string \<Rightarrow> time \<Rightarrow> intent_document \<Rightarrow> approval_context \<Rightarrow> approval_notification" where
  "BuildApprovalNotification row approvalID expiresAt intent c =
     \<lparr>an_TenantID = ir_TenantID row, an_ApprovalID = approvalID, an_IntentID = ir_IntentID row, an_DecisionID = ir_DecisionID row,
      an_SituationID = ir_SituationID row, an_SituationVersion = ir_SituationVersion row,
      an_IntentDigest = EncodeDigest (ir_IntentSHA row), an_SnapshotDigest = EncodeDigest (ax_Snapshot c), an_RiskClass = ir_RiskClass row,
      an_ExpiresAt = FormatTime expiresAt, an_Audience = ''stream-approval-relay'',
      an_Summary = approvalDecisionText (dd_Summary (ax_Decision c)) (''Decision '' @ ir_DecisionID row @ '' requires approval''),
      an_Delta = ax_Delta c,
      an_Hypothesis = approvalDecisionText (dd_Hypothesis (ax_Decision c))
        (''Decision '' @ ir_DecisionID row @ '' did not record a primary hypothesis''),
      an_Evidence = ni_Evidence intent, an_Action = parameters_of intent,
      an_DeclineConsequence = ''The intent will not be dispatched.'', an_SourceAuthority = ax_Source c\<rparr>"

definition loadApprovalContext :: "evaluation \<Rightarrow> actions_db \<Rightarrow> approval_context result" where
  "loadApprovalContext e db =
     bind_res (ApprovalSnapshotDigest (ev_row e) db) (\<lambda>snapshot.
     bind_res (CompleteDigest snapshot ''approval snapshot'') (\<lambda>_.
     bind_res (ApprovalDelta (ir_EpisodeID (ev_row e)) db) (\<lambda>delta.
       Inr \<lparr>ax_Snapshot = snapshot, ax_Delta = delta, ax_Decision = ev_decision e, ax_Source = SourceForTenant (ir_TenantID (ev_row e))\<rparr>)))"

definition approvalNotificationData :: "evaluation \<Rightarrow> string \<Rightarrow> actions_db \<Rightarrow> approval_notification result" where
  "approvalNotificationData e approvalID db =
     bind_res (CompleteDigest (ir_IntentSHA (ev_row e)) ''intent'') (\<lambda>_.
     bind_res (loadApprovalContext e db) (\<lambda>c.
       Inr (BuildApprovalNotification (ev_row e) approvalID (ev_expiresAt e) (ev_intent e) c)))"

text \<open>
  A struct is encoded by \<open>json.Marshal\<close>, which replaces invalid bytes, and its text is read back strictly
  before it is encoded canonically.
\<close>

definition notification_value :: "approval_notification \<Rightarrow> any_value result" where
  "notification_value n =
     (let text = (\<lambda>s. AnyString (to_valid s))
      in bind_res (Marshal (AnyMap
           [(''tenant_id'', text (an_TenantID n)), (''approval_id'', text (an_ApprovalID n)), (''intent_id'', text (an_IntentID n)),
            (''decision_id'', text (an_DecisionID n)), (''situation_id'', text (an_SituationID n)),
            (''situation_version'', AnyInt (an_SituationVersion n)), (''intent_digest'', text (an_IntentDigest n)),
            (''snapshot_digest'', text (an_SnapshotDigest n)), (''risk_class'', text (an_RiskClass n)),
            (''expires_at'', text (an_ExpiresAt n)), (''audience'', text (an_Audience n)), (''summary'', text (an_Summary n)),
            (''delta'', AnyMap (an_Delta n)), (''hypothesis'', text (an_Hypothesis n)),
            (''evidence'', AnySlice (map text (an_Evidence n))), (''action'', AnyMap (an_Action n)),
            (''decline_consequence'', text (an_DeclineConsequence n)), (''source_authority'', text (an_SourceAuthority n))])) decodeJSON)"

definition ApprovalRequestJSON :: "intent_record \<Rightarrow> document \<Rightarrow> string \<Rightarrow> string \<Rightarrow> approval_notification \<Rightarrow> string result" where
  "ApprovalRequestJSON row intent approvalID nonce data =
     wrap_err ''canonicalize approval'' (bind_res (notification_value data) (\<lambda>notification. Marshal (AnyMap
       [(''approval_id'', AnyString approvalID), (''intent_id'', AnyString (ir_IntentID row)), (''decision_id'', AnyString (ir_DecisionID row)),
        (''tenant_id'', AnyString (ir_TenantID row)), (''situation_id'', AnyString (ir_SituationID row)),
        (''situation_version'', AnyInt (ir_SituationVersion row)), (''risk_class'', AnyString (ir_RiskClass row)),
        (''intent'', AnyMap intent), (''notification'', notification), (''nonce'', AnyString nonce)])))"

definition prepareApprovalRequest :: "policy_ids \<Rightarrow> evaluation \<Rightarrow> actions_db \<Rightarrow> approval_request result" where
  "prepareApprovalRequest ids e db =
     (let approvalID = id_Approval ids; nonce = ApprovalNonce approvalID (ir_IntentID (ev_row e))
      in bind_res (wrap_err ''build approval notification'' (approvalNotificationData e approvalID db)) (\<lambda>data.
         bind_res (ApprovalRequestJSON (ev_row e) (filled_document (ev_intent e)) approvalID nonce data) (\<lambda>json.
           Inr \<lparr>aq_ID = approvalID, aq_Nonce = nonce, aq_Data = data, aq_JSON = json\<rparr>)))"

definition CheckBinding :: "approval_notification \<Rightarrow> string \<Rightarrow> string \<Rightarrow> unit result" where
  "CheckBinding n tenantID source =
     (if an_TenantID n \<noteq> tenantID \<or> an_SourceAuthority n \<noteq> source
      then Inl (Errorf ''approval notification is not bound to tenant and its source authority'') else Inr ())"

definition AppendApprovalRequested ::
  "policy_service \<Rightarrow> intent_record \<Rightarrow> approval_request \<Rightarrow> time \<Rightarrow> actions_db \<Rightarrow> actions_db result" where
  "AppendApprovalRequested s row request now db =
     bind_res (CheckBinding (aq_Data request) (ir_TenantID row) (SourceForTenant (ir_TenantID row))) (\<lambda>_.
       appendLifecycle s (ApprovalRequestedEvent (aq_Data request) now (ir_Trace row)) db)"

definition publishApprovalRequest :: "policy_service \<Rightarrow> policy_ids \<Rightarrow> evaluation \<Rightarrow> approval_request \<Rightarrow> policy_result transaction" where
  "publishApprovalRequest s ids e request db =
     (let db1 = SetIntentStatus (ir_IntentID (ev_row e)) ''approval_required'' (ev_now e) db;
          e' = e\<lparr>ev_result := (ev_result e)\<lparr>re_ApprovalID := aq_ID request\<rparr>\<rparr>
      in bind_res (AppendApprovalRequested s (ev_row e) request (ev_now e) db1) (\<lambda>db2.
           audit s ids e' (outcome_of ''approval_required'' ''risk_requires_approval'') db2))"

definition openApproval :: "policy_service \<Rightarrow> policy_ids \<Rightarrow> evaluation \<Rightarrow> policy_result transaction" where
  "openApproval s ids e db =
     bind_res (prepareApprovalRequest ids e db) (\<lambda>request.
     bind_res (ledger_result ''insert approval'' (RequestApproval (aq_ID request) (ir_IntentID (ev_row e)) (FormatTime (ev_now e))
         (ReadableTime (ev_expiresAt e)) (aq_JSON request) (aq_Nonce request) (db_approvals db)) db) (\<lambda>db1.
       publishApprovalRequest s ids e request db1))"

definition requireApproval :: "policy_service \<Rightarrow> policy_ids \<Rightarrow> evaluation \<Rightarrow> policy_result transaction" where
  "requireApproval s ids e db =
     (let approvalID = PendingApproval (ir_IntentID (ev_row e)) db
      in if approvalID \<noteq> ''''
         then audit s ids (e\<lparr>ev_result := (ev_result e)\<lparr>re_ApprovalID := approvalID\<rparr>\<rparr>)
                (outcome_of ''approval_required'' ''risk_requires_approval'') db
         else openApproval s ids e db)"

section \<open>Queueing the command\<close>

definition commandForIntent :: "policy_service \<Rightarrow> policy_ids \<Rightarrow> evaluation \<Rightarrow> (command_record \<times> string) transaction" where
  "commandForIntent s ids e db =
     (let existing = ExistingCommandID (ir_IntentID (ev_row e)) db
      in if existing \<noteq> '''' then Inr ((no_command, existing), db)
         else bind_res (NewCommand (id_Command ids) (ps_policyDigest s) (ev_row e) (ev_intent e) (ev_now e)) (\<lambda>c.
                StoreCommandOnce (ev_row e) c (ev_now e) db))"

definition rateLimited :: "evaluation \<Rightarrow> string \<Rightarrow> bool transaction" where
  "rateLimited e commandID db =
     (if ir_RateLimitPerHour (ev_row e) \<le> 0 then Inr (False, db)
      else case DispatchWithinLimit (ev_row e) db of (overLimit, db1) \<Rightarrow>
        if \<not> overLimit then Inr (False, db1)
        else bind_res (RemovePreparedCommand (ir_IntentID (ev_row e)) commandID db1) (\<lambda>(_, db2). Inr (True, db2)))"

definition queueApprovedCommand :: "policy_service \<Rightarrow> policy_ids \<Rightarrow> evaluation \<Rightarrow> command_record \<Rightarrow> policy_result transaction" where
  "queueApprovedCommand s ids e c db =
     (let db1 = InsertCommandOutbox (cc_ID c) (ev_now e) db;
          db2 = SetIntentStatus (ir_IntentID (ev_row e)) ''approved'' (ev_now e) db1;
          reason = (if re_Reason (ev_result e) = '''' then ''automatic_r0_r1'' else re_Reason (ev_result e))
      in audit s ids (e\<lparr>ev_result := (ev_result e)\<lparr>re_CommandID := cc_ID c\<rparr>\<rparr>) (outcome_of ''approved'' reason) db2)"

definition approvePreparedCommand ::
  "policy_service \<Rightarrow> policy_ids \<Rightarrow> evaluation \<Rightarrow> command_record \<Rightarrow> string \<Rightarrow> policy_result transaction" where
  "approvePreparedCommand s ids e c existingID db =
     (if existingID \<noteq> ''''
      then audit s ids (e\<lparr>ev_result := (ev_result e)\<lparr>re_CommandID := existingID\<rparr>\<rparr>) (outcome_of ''approved'' ''already_commanded'') db
      else bind_res (rateLimited e (cc_ID c) db) (\<lambda>(limited, db1).
        if limited then finish s ids e (outcome_of ''denied'' ''rate_limited'') db1
        else queueApprovedCommand s ids e c db1))"

definition interlockDenialAuditReason :: "string \<Rightarrow> string" where
  "interlockDenialAuditReason reason =
     (if trim_space reason = '''' then ''interlock_not_ready'' else ''interlock_not_ready: '' @ trim_space reason)"

definition approveAutomatic :: "policy_service \<Rightarrow> policy_ids \<Rightarrow> evaluation \<Rightarrow> policy_result transaction" where
  "approveAutomatic s ids e db = (case AssertReady (db_interlock db) of
     Inl (ErrTripped reason) \<Rightarrow>
       finish s ids e \<lparr>oc_Status = ''denied'', oc_Reason = ''interlock_not_ready'', oc_AuditDetail = interlockDenialAuditReason reason\<rparr> db
   | Inl _ \<Rightarrow> Inl (Errorf ''assert action interlock'')
   | Inr _ \<Rightarrow> bind_res (commandForIntent s ids e db) (\<lambda>((c, existingID), db1). approvePreparedCommand s ids e c existingID db1))"


section \<open>Evaluating an intent\<close>

definition no_decision :: decision_document where "no_decision = projectDecision []"
definition no_intent :: intent_document where "no_intent = ProjectIntent []"

definition newEvaluation :: "intent_record \<Rightarrow> time \<Rightarrow> evaluation" where
  "newEvaluation row now =
     \<lparr>ev_row = row, ev_decision = no_decision, ev_intent = no_intent,
      ev_result = \<lparr>re_IntentID = ir_IntentID row, re_DecisionID = ir_DecisionID row, re_Result = '''', re_Reason = '''', re_CommandID = '''',
        re_ApprovalID = ''''\<rparr>, ev_now = now, ev_expiresAt = 0\<rparr>"

definition approveOrRequireApproval :: "policy_service \<Rightarrow> policy_ids \<Rightarrow> evaluation \<Rightarrow> policy_result transaction" where
  "approveOrRequireApproval s ids e db =
     (let approved = ApprovedApproval (ir_IntentID (ev_row e)) db
      in if approved \<noteq> ''''
         then approveAutomatic s ids (e\<lparr>ev_result := (ev_result e)\<lparr>re_ApprovalID := approved, re_Reason := ''approved_by_human''\<rparr>\<rparr>) db
         else requireApproval s ids e db)"

definition routeIntent :: "policy_service \<Rightarrow> policy_ids \<Rightarrow> evaluation \<Rightarrow> policy_result transaction" where
  "routeIntent s ids e db = (case RiskRoute (ev_row e) of (route, reason) \<Rightarrow>
     (case route of
        RouteAutomatic \<Rightarrow> approveAutomatic s ids e db
      | RouteApproval \<Rightarrow> approveOrRequireApproval s ids e db
      | RouteDenied \<Rightarrow> finish s ids e (outcome_of ''denied'' reason) db))"

definition markStale :: "policy_service \<Rightarrow> policy_ids \<Rightarrow> evaluation \<Rightarrow> policy_result transaction" where
  "markStale s ids e db =
     audit s ids e (outcome_of ''stale'' ''situation_version_stale'') (SetIntentStatus (ir_IntentID (ev_row e)) ''stale'' (ev_now e) db)"

definition evaluateFreshPending :: "policy_service \<Rightarrow> policy_ids \<Rightarrow> evaluation \<Rightarrow> policy_result transaction" where
  "evaluateFreshPending s ids e db = (case FreshnessFailure (ev_row e) (ev_now e) of (status, reason, expires) \<Rightarrow>
     if status = ''stale'' then markStale s ids e db
     else if reason \<noteq> '''' then finish s ids e (outcome_of status reason) db
     else routeIntent s ids (e\<lparr>ev_expiresAt := expires\<rparr>) db)"

definition compensation_reason :: "evaluation \<Rightarrow> actions_db \<Rightarrow> string" where
  "compensation_reason e db =
     (if ni_Compensates (ev_intent e) = '''' then ''''
      else CompensationFailure (ir_TenantID (ev_row e)) (CompensationTenant (ni_Compensates (ev_intent e)) db))"

definition validatePendingIdentity :: "evaluation \<Rightarrow> actions_db \<Rightarrow> string" where
  "validatePendingIdentity e db =
     (if compensation_reason e db \<noteq> '''' then compensation_reason e db
      else if \<not> MatchesIntentIdentity (ev_row e) (ev_intent e) then ''identity_mismatch'' else '''')"

definition evaluatePending :: "policy_service \<Rightarrow> policy_ids \<Rightarrow> evaluation \<Rightarrow> policy_result transaction" where
  "evaluatePending s ids e db = (case ParseGovernanceDocuments s (ev_row e) of
     Inl reason \<Rightarrow> finish s ids e (outcome_of ''denied'' reason) db
   | Inr (decision, intent) \<Rightarrow>
       (let e' = e\<lparr>ev_decision := decision, ev_intent := intent\<rparr>; reason = validatePendingIdentity e' db
        in if reason \<noteq> '''' then finish s ids e' (outcome_of ''denied'' reason) db
           else evaluateFreshPending s ids e' db))"

definition recordExpiredApproval :: "policy_service \<Rightarrow> policy_ids \<Rightarrow> evaluation \<Rightarrow> string \<Rightarrow> string \<Rightarrow> policy_result transaction" where
  "recordExpiredApproval s ids e approvalID reason db =
     bind_res (AppendApprovalResolved s (ev_row e) approvalID ''expired'' reason (ev_now e)
        (db\<lparr>db_approvals := ExpireIntent (ir_IntentID (ev_row e)) (db_approvals db)\<rparr>)) (\<lambda>db1.
       finish s ids e (outcome_of ''expired'' reason) db1)"

text \<open>\<open>None\<close> when there is nothing to expire.\<close>

definition expireExistingApproval :: "policy_service \<Rightarrow> policy_ids \<Rightarrow> evaluation \<Rightarrow> actions_db \<Rightarrow> (policy_result \<times> actions_db) option result" where
  "expireExistingApproval s ids e db = (case PendingApprovalExpiry (ir_IntentID (ev_row e)) db of
     (approvalID, None) \<Rightarrow> bind_res (recordExpiredApproval s ids e approvalID ''approval_expiry_unreadable'' db) (\<lambda>r. Inr (Some r))
   | (approvalID, Some expiry) \<Rightarrow>
       if approvalID = '''' then Inr None
       else if ev_now e < expiry then Inr None
       else bind_res (recordExpiredApproval s ids e approvalID ''approval_expired'' db) (\<lambda>r. Inr (Some r)))"

definition BindExistingResult :: "intent_record \<Rightarrow> policy_result \<Rightarrow> actions_db \<Rightarrow> policy_result" where
  "BindExistingResult row r db =
     (let r1 = (if ir_PolicyStatus row = ''approved'' then r\<lparr>re_CommandID := ExistingCommandID (ir_IntentID row) db\<rparr> else r)
      in if ir_PolicyStatus row = ''approval_required'' then r1\<lparr>re_ApprovalID := PendingApproval (ir_IntentID row) db\<rparr> else r1)"

definition reportExisting :: "policy_service \<Rightarrow> policy_ids \<Rightarrow> evaluation \<Rightarrow> policy_result transaction" where
  "reportExisting s ids e db =
     audit s ids (e\<lparr>ev_result := BindExistingResult (ev_row e) (ev_result e) db\<rparr>)
       (outcome_of (ir_PolicyStatus (ev_row e)) ''already_evaluated'') db"

definition evaluateExisting :: "policy_service \<Rightarrow> policy_ids \<Rightarrow> evaluation \<Rightarrow> policy_result transaction" where
  "evaluateExisting s ids e db =
     (if ir_PolicyStatus (ev_row e) = ''approval_required''
      then bind_res (expireExistingApproval s ids e db) (\<lambda>expired. case expired of Some r \<Rightarrow> Inr r | None \<Rightarrow> reportExisting s ids e db)
      else reportExisting s ids e db)"

definition denyEpochIntent :: "policy_service \<Rightarrow> policy_ids \<Rightarrow> evaluation \<Rightarrow> epoch_refusal \<Rightarrow> policy_result transaction" where
  "denyEpochIntent s ids e err db =
     finish s ids e (outcome_of ''denied'' (if err = PolicyEpochUnbound then ''epoch_unbound'' else ''epoch_killed'')) db"

definition evaluateLoaded :: "policy_service \<Rightarrow> policy_ids \<Rightarrow> evaluation \<Rightarrow> policy_result transaction" where
  "evaluateLoaded s ids e db = (case ps_decisionEpoch s (ir_PolicyEpoch (ev_row e)) db of
     Inl err \<Rightarrow> denyEpochIntent s ids e err db
   | Inr _ \<Rightarrow> if ir_PolicyStatus (ev_row e) \<noteq> ''pending'' then evaluateExisting s ids e db else evaluatePending s ids e db)"

definition EvaluateIntent :: "policy_service \<Rightarrow> policy_ids \<Rightarrow> string \<Rightarrow> time \<Rightarrow> policy_result transaction" where
  "EvaluateIntent s ids intentID now db =
     bind_res (policy_assertOwner s db) (\<lambda>_.
     bind_res (LoadIntent intentID db) (\<lambda>row.
       evaluateLoaded s ids (newEvaluation row now) db))"

section \<open>Principals\<close>

definition ApprovalEntity :: "string \<Rightarrow> actions_db \<Rightarrow> string result" where
  "ApprovalEntity situationID db = (case find (\<lambda>m. sm_id m = situationID) (db_situations db) of
     None \<Rightarrow> Inl (Errorf ''load approval entity'')
   | Some m \<Rightarrow> Inr (sm_entity m))"

definition active_principal :: "string \<Rightarrow> string \<Rightarrow> principal_db_row \<Rightarrow> bool" where
  "active_principal tenant who p \<longleftrightarrow> pn_id p = who \<and> pn_tenant p = tenant \<and> pn_status p = ''active''"

definition RelayActivity :: "string \<Rightarrow> string \<Rightarrow> actions_db \<Rightarrow> nat" where
  "RelayActivity tenant relay db = length (filter (active_principal tenant relay) (db_principals db))"

definition ApproverKey :: "string \<Rightarrow> string \<Rightarrow> actions_db \<Rightarrow> string option" where
  "ApproverKey tenant approver db = map_option (\<lambda>p. or_empty (pn_key p)) (find (active_principal tenant approver) (db_principals db))"

definition active_authorities :: "string \<Rightarrow> string \<Rightarrow> actions_db \<Rightarrow> authority_db_row list" where
  "active_authorities tenant approver db =
     [a. p \<leftarrow> db_principals db, active_principal tenant approver p, m \<leftarrow> db_memberships db, fst m = pn_id p,
         a \<leftarrow> db_authorities db, au_role a = snd m \<and> au_tenant a = tenant]"

definition ApprovalAuthority :: "intent_record \<Rightarrow> string \<Rightarrow> string \<Rightarrow> actions_db \<Rightarrow> nat" where
  "ApprovalAuthority row entity approver db =
     length (filter (\<lambda>a. au_entity a = entity \<and> au_risk a = ir_RiskClass row) (active_authorities (ir_TenantID row) approver db))"

definition RiskAuthority :: "string \<Rightarrow> string \<Rightarrow> string \<Rightarrow> actions_db \<Rightarrow> nat" where
  "RiskAuthority tenant approver risk db = length (filter (\<lambda>a. au_risk a = risk) (active_authorities tenant approver db))"

definition activeRelayAndKey :: "string \<Rightarrow> string \<Rightarrow> string \<Rightarrow> actions_db \<Rightarrow> string result" where
  "activeRelayAndKey tenantID relay approver db =
     bind_res (ActiveRelay (RelayActivity tenantID relay db)) (\<lambda>_. ValidApproverKey (ApproverKey tenantID approver db))"

definition loadApprovalPrincipals :: "intent_record \<Rightarrow> approval_resolution \<Rightarrow> actions_db \<Rightarrow> (string \<times> string) result" where
  "loadApprovalPrincipals row r db =
     bind_res (ApprovalEntity (ir_SituationID row) db) (\<lambda>entity.
     bind_res (activeRelayAndKey (ir_TenantID row) (rq_Relay r) (rq_Approver r) db) (\<lambda>key. Inr (entity, key)))"

definition approvalSigningBytes :: "intent_record \<Rightarrow> approval_resolution \<Rightarrow> actions_db \<Rightarrow> string result" where
  "approvalSigningBytes row r db =
     bind_res (AssertionBinding (rq_ID r) db) (\<lambda>(expires, nonce). ApprovalAssertionSigningBytes (assertionFor row r expires nonce))"

definition verifyApprovalAssertion ::
  "policy_service \<Rightarrow> intent_record \<Rightarrow> approval_resolution \<Rightarrow> string \<Rightarrow> actions_db \<Rightarrow> actions_db result" where
  "verifyApprovalAssertion s row r key db =
     bind_res (approvalSigningBytes row r db) (\<lambda>assertion.
     bind_res (VerifyAssertion s key assertion (rq_Signature r)) (\<lambda>digest.
       Inr (db\<lparr>db_approvals := BindAssertion (rq_ID r) digest (db_approvals db)\<rparr>)))"

definition authorizeApproval :: "policy_service \<Rightarrow> intent_record \<Rightarrow> approval_resolution \<Rightarrow> actions_db \<Rightarrow> actions_db result" where
  "authorizeApproval s row r db =
     bind_res (DistinctPrincipals (rq_Approver r) (rq_Relay r)) (\<lambda>_.
     bind_res (loadApprovalPrincipals row r db) (\<lambda>(entity, key).
     bind_res (verifyApprovalAssertion s row r key db) (\<lambda>db1.
     bind_res (AuthorizedApprover (ApprovalAuthority row entity (rq_Approver r) db1)) (\<lambda>_. Inr db1))))"

section \<open>Resolving an approval\<close>

definition recordApprovalResolution ::
  "policy_service \<Rightarrow> intent_record \<Rightarrow> approval_resolution \<Rightarrow> actions_db \<Rightarrow> actions_db result" where
  "recordApprovalResolution s row r db = (case ApprovalDecision (rq_Approved r) of (status, policyStatus) \<Rightarrow>
     bind_res (ledger_result (''resolve approval '' @ rq_ID r)
       (ResolveApproval (rq_ID r) status (rq_Approver r) (rq_Relay r) (rq_Reason r) (FormatTime (rq_Now r)) (db_approvals db)) db) (\<lambda>db1.
       AppendApprovalResolved s row (rq_ID r) status (rq_Reason r) (rq_Now r)
         (SetIntentStatus (ir_IntentID row) policyStatus (rq_Now r) db1)))"

definition resolveAuthorizedApproval ::
  "policy_service \<Rightarrow> policy_ids \<Rightarrow> evaluation \<Rightarrow> approval_resolution \<Rightarrow> policy_result transaction" where
  "resolveAuthorizedApproval s ids e r db =
     bind_res (wrap_err ''approval not authorized'' (authorizeApproval s (ev_row e) r db)) (\<lambda>db1.
     bind_res (recordApprovalResolution s (ev_row e) r db1) (\<lambda>db2.
       if \<not> rq_Approved r then audit s ids e (outcome_of ''denied'' ''approval_denied'') db2
       else EvaluateIntent s ids (ir_IntentID (ev_row e)) (rq_Now r) db2))"

definition withdrawStaleApproval :: "policy_service \<Rightarrow> policy_ids \<Rightarrow> evaluation \<Rightarrow> approval_resolution \<Rightarrow> policy_result transaction" where
  "withdrawStaleApproval s ids e r db =
     (let db1 = db\<lparr>db_approvals := WithdrawApproval (rq_ID r) (FormatTime (rq_Now r)) (db_approvals db)\<rparr>
      in bind_res (AppendApprovalWithdrawn s (ev_row e) (rq_ID r) ''situation_version_conflict'' (rq_Now r) db1) (\<lambda>db2.
         bind_res (AppendApprovalResolved s (ev_row e) (rq_ID r) ''denied'' ''situation_version_conflict'' (rq_Now r) db2) (\<lambda>db3.
           finish s ids e (outcome_of ''denied'' ''situation_version_conflict'') db3)))"

definition expireRequestedApproval :: "policy_service \<Rightarrow> policy_ids \<Rightarrow> evaluation \<Rightarrow> approval_resolution \<Rightarrow> policy_result transaction" where
  "expireRequestedApproval s ids e r db =
     (let db1 = db\<lparr>db_approvals := ExpireApproval (rq_ID r) (FormatTime (rq_Now r)) (db_approvals db)\<rparr>
      in bind_res (AppendApprovalResolved s (ev_row e) (rq_ID r) ''expired'' ''approval_expired'' (rq_Now r) db1) (\<lambda>db2.
           finish s ids e (outcome_of ''expired'' ''approval_expired'') db2))"

definition resolvePendingApproval ::
  "policy_service \<Rightarrow> policy_ids \<Rightarrow> evaluation \<Rightarrow> approval_record \<Rightarrow> approval_resolution \<Rightarrow> policy_result transaction" where
  "resolvePendingApproval s ids e a r db = (case ApprovalDisposition (ev_row e) a r of
     DispositionResolved \<Rightarrow> audit s ids e (outcome_of (ay_Status a) ''approval_already_resolved'') db
   | DispositionStale \<Rightarrow> withdrawStaleApproval s ids e r db
   | DispositionExpired \<Rightarrow> expireRequestedApproval s ids e r db
   | DispositionAuthorize \<Rightarrow> resolveAuthorizedApproval s ids e r db)"

definition policy_ResolveApproval :: "policy_service \<Rightarrow> policy_ids \<Rightarrow> approval_resolution \<Rightarrow> policy_result transaction" where
  "policy_ResolveApproval s ids r db =
     bind_res (policy_assertOwner s db) (\<lambda>_.
     bind_res (LoadApproval (rq_ID r) (rq_TenantID r) db) (\<lambda>a.
     bind_res (LoadIntent (ay_IntentID a) db) (\<lambda>row.
       let e = newEvaluation row (rq_Now r)
       in resolvePendingApproval s ids (e\<lparr>ev_result := (ev_result e)\<lparr>re_ApprovalID := rq_ID r\<rparr>\<rparr>) a r db)))"


section \<open>Presenting and signing\<close>

record approval_presentation =
  ar_ID :: string
  ar_Status :: string
  ar_Request :: string
  ar_SigningBytes :: string

definition checkSigningPrincipals :: "intent_record \<Rightarrow> approval_resolution \<Rightarrow> actions_db \<Rightarrow> unit result" where
  "checkSigningPrincipals row r db =
     bind_res (DistinctPrincipals (rq_Approver r) (rq_Relay r)) (\<lambda>_.
     bind_res (loadApprovalPrincipals row r db) (\<lambda>(entity, _).
       AuthorizedApprover (ApprovalAuthority row entity (rq_Approver r) db)))"

definition presentApproval :: "intent_record \<Rightarrow> approval_record \<Rightarrow> approval_resolution \<Rightarrow> actions_db \<Rightarrow> approval_presentation result" where
  "presentApproval row a r db =
     bind_res (wrap_err ''approval not authorized'' (checkSigningPrincipals row r db)) (\<lambda>_.
     bind_res (approvalSigningBytes row r db) (\<lambda>signing.
       Inr \<lparr>ar_ID = rq_ID r, ar_Status = ay_Status a, ar_Request = ay_JSON a, ar_SigningBytes = signing\<rparr>))"

definition ApprovalForSigning ::
  "policy_service \<Rightarrow> string \<Rightarrow> string \<Rightarrow> string \<Rightarrow> string \<Rightarrow> bool \<Rightarrow> actions_db \<Rightarrow> approval_presentation result" where
  "ApprovalForSigning s approvalID tenantID approver relay approved db =
     bind_res (policy_assertOwner s db) (\<lambda>_.
     bind_res (LoadApproval approvalID tenantID db) (\<lambda>a.
       if ay_Status a \<noteq> ''pending'' then Inl (Errorf ''approval already resolved'')
       else bind_res (LoadIntent (ay_IntentID a) db) (\<lambda>row.
         presentApproval row a \<lparr>rq_TenantID = tenantID, rq_ID = approvalID, rq_Approved = approved, rq_Approver = approver, rq_Relay = relay,
           rq_Signature = '''', rq_Reason = '''', rq_Now = 0\<rparr> db)))"

record signed_approval =
  sa_TenantID :: string
  sa_Approver :: string
  sa_Relay :: string
  sa_RiskClass :: string
  sa_Message :: string
  sa_Signature :: string

definition signerKey :: "signed_approval \<Rightarrow> actions_db \<Rightarrow> string result" where
  "signerKey a db =
     bind_res (DistinctPrincipals (sa_Approver a) (sa_Relay a)) (\<lambda>_.
     bind_res (activeRelayAndKey (sa_TenantID a) (sa_Relay a) (sa_Approver a) db) (\<lambda>key.
     bind_res (AuthorizedApprover (RiskAuthority (sa_TenantID a) (sa_Approver a) (sa_RiskClass a) db)) (\<lambda>_. Inr key)))"

definition CheckApprovalSigner :: "signed_approval \<Rightarrow> actions_db \<Rightarrow> unit result" where
  "CheckApprovalSigner a db = bind_res (wrap_err ''approval not authorized'' (signerKey a db)) (\<lambda>_. Inr ())"

definition VerifySignedApproval :: "policy_service \<Rightarrow> signed_approval \<Rightarrow> actions_db \<Rightarrow> string result" where
  "VerifySignedApproval s a db =
     bind_res (wrap_err ''approval not authorized'' (signerKey a db)) (\<lambda>key.
     bind_res (wrap_err ''approval not authorized'' (VerifyAssertion s key (sa_Message a) (sa_Signature a))) (\<lambda>digest.
       Inr (EncodeDigest digest)))"

end
