(* ===== verification/Policy_Principals.thy ===== *)
theory Policy_Principals
  imports Policy
begin

text \<open>
  The approval governance of a tenant (\<^verbatim>\<open>internal/policy\<close>: \<^verbatim>\<open>domain/principals.go\<close>, \<^verbatim>\<open>store/principal_writes.go\<close>,
  \<^verbatim>\<open>app/principals.go\<close>): a principal document is validated and replaces the principals, roles, memberships and
  authorities of its tenant in one transaction. The tables carry their primary and foreign keys, the unique
  role name and the checked risk class, so a violated constraint is an error of the statement.
\<close>

section \<open>Base64 keys\<close>

text \<open>\<open>base64.StdEncoding\<close>: line breaks are skipped, padding stands at the end, trailing bits are ignored.\<close>

definition b64_value :: "char \<Rightarrow> int option" where
  "b64_value c = (let n = byte c in
     if 65 \<le> n \<and> n \<le> 90 then Some (n - 65)
     else if 97 \<le> n \<and> n \<le> 122 then Some (n - 71)
     else if 48 \<le> n \<and> n \<le> 57 then Some (n + 4)
     else if n = 43 then Some 62
     else if n = 47 then Some 63
     else None)"

definition b64_bytes :: "int \<Rightarrow> int \<Rightarrow> int \<Rightarrow> int \<Rightarrow> string" where
  "b64_bytes a b c d = (let v = ((a * 64 + b) * 64 + c) * 64 + d
     in [char_of (v div 65536), char_of (v div 256 mod 256), char_of (v mod 256)])"

fun b64_quanta :: "string \<Rightarrow> string option" where
  "b64_quanta [] = Some []"
| "b64_quanta (a # b # c # d # rest) = (case (b64_value a, b64_value b) of
     (Some va, Some vb) \<Rightarrow>
       (if c = CHR ''='' then (if d = CHR ''='' \<and> rest = [] then Some (take 1 (b64_bytes va vb 0 0)) else None)
        else (case b64_value c of
          None \<Rightarrow> None
        | Some vc \<Rightarrow>
            if d = CHR ''='' then (if rest = [] then Some (take 2 (b64_bytes va vb vc 0)) else None)
            else (case b64_value d of
              None \<Rightarrow> None
            | Some vd \<Rightarrow> map_option ((@) (b64_bytes va vb vc vd)) (b64_quanta rest))))
   | _ \<Rightarrow> None)"
| "b64_quanta _ = None"

definition base64_decode :: "string \<Rightarrow> string option" where
  "base64_decode t = b64_quanta (filter (\<lambda>c. c \<noteq> CHR 0x0A \<and> c \<noteq> CHR 0x0D) t)"

section \<open>The principal document\<close>

record principal_entry =
  pr_ID :: string
  pr_PublicKey :: string
  pr_Status :: string

record authority_entry =
  at_Entity :: string
  at_Risks :: "string list"

record role_entry =
  ro_ID :: string
  ro_Name :: string
  ro_Members :: "string list"
  ro_Authorities :: "authority_entry list"

record principal_document =
  pc_Tenant :: string
  pc_Principals :: "principal_entry list"
  pc_Roles :: "role_entry list"

record principal_summary =
  py_Tenant :: string
  py_Active :: nat
  py_Disabled :: nat
  py_Roles :: nat
  py_Memberships :: nat
  py_Authorities :: nat

definition KeyBytes :: "principal_entry \<Rightarrow> string option result" where
  "KeyBytes p =
     (if pr_PublicKey p = '''' then Inr None
      else case base64_decode (pr_PublicKey p) of
        Some key \<Rightarrow> if length key \<noteq> PublicKeySize then Inl (Errorf ''public key is not a base64 Ed25519 key'') else Inr (Some key)
      | None \<Rightarrow> Inl (Errorf ''public key is not a base64 Ed25519 key''))"

definition principal_validate :: "principal_entry \<Rightarrow> unit result" where
  "principal_validate p =
     (if pr_Status p \<noteq> '''' \<and> pr_Status p \<noteq> ''active'' \<and> pr_Status p \<noteq> ''disabled''
      then Inl (Errorf ''principal status is not active or disabled'')
      else if pr_PublicKey p = '''' then Inr ()
      else bind_res (KeyBytes p) (\<lambda>_. Inr ()))"

definition EffectiveStatus :: "principal_entry \<Rightarrow> string" where
  "EffectiveStatus p = (if pr_Status p = '''' then ''active'' else pr_Status p)"

fun validatePrincipals :: "(string \<times> bool) list \<Rightarrow> principal_entry list \<Rightarrow> (string \<times> bool) list result" where
  "validatePrincipals keyed [] = Inr keyed"
| "validatePrincipals keyed (p # ps) =
     (if map_of keyed (pr_ID p) \<noteq> None \<or> pr_ID p = '''' then Inl (Errorf ''principal id is empty or repeated'')
      else bind_res (principal_validate p) (\<lambda>_. validatePrincipals ((pr_ID p, pr_PublicKey p \<noteq> '''') # keyed) ps))"

definition authority_validate :: "authority_entry \<Rightarrow> unit result" where
  "authority_validate a =
     (if at_Entity a = '''' \<or> at_Risks a = [] then Inl (Errorf ''authority needs an entity and at least one risk'')
      else if \<not> list_all Approvable (at_Risks a) then Inl (Errorf ''authority risk is not approvable (R0, R1 or R2)'')
      else Inr ())"

definition role_validate :: "(string \<times> bool) list \<Rightarrow> role_entry \<Rightarrow> unit result" where
  "role_validate keyed r =
     (if \<not> list_all (\<lambda>m. map_of keyed m = Some True) (ro_Members r)
      then Inl (Errorf ''role member is not a declared principal with a public key'')
      else first_error (map authority_validate (ro_Authorities r)))"

fun validateRoles :: "(string \<times> bool) list \<Rightarrow> string list \<Rightarrow> role_entry list \<Rightarrow> unit result" where
  "validateRoles keyed seen [] = Inr ()"
| "validateRoles keyed seen (r # rs) =
     (if ro_ID r = '''' \<or> ro_Name r = '''' \<or> ro_ID r \<in> set seen \<or> ''name:'' @ ro_Name r \<in> set seen
      then Inl (Errorf ''role needs a unique id and name'')
      else bind_res (role_validate keyed r) (\<lambda>_. validateRoles keyed (ro_ID r # (''name:'' @ ro_Name r) # seen) rs))"

definition document_Validate :: "principal_document \<Rightarrow> unit result" where
  "document_Validate d =
     (if pc_Tenant d = '''' then Inl (Errorf ''principal document needs a tenant'')
      else bind_res (validatePrincipals [] (pc_Principals d)) (\<lambda>keyed. validateRoles keyed [] (pc_Roles d)))"

section \<open>Writes\<close>

definition disableTenantPrincipals :: "string \<Rightarrow> actions_db \<Rightarrow> actions_db" where
  "disableTenantPrincipals tenant db =
     db\<lparr>db_principals := sql_update (\<lambda>p. pn_tenant p = tenant) (\<lambda>p. p\<lparr>pn_status := ''disabled''\<rparr>) (db_principals db)\<rparr>"

text \<open>\<open>ON CONFLICT DO UPDATE ... WHERE\<close> of a principal of another tenant affects no row, which is refused.\<close>

definition upsertPrincipal :: "string \<Rightarrow> principal_entry \<Rightarrow> string option \<Rightarrow> string \<Rightarrow> actions_db \<Rightarrow> actions_db result" where
  "upsertPrincipal tenant p key now db = (case find (\<lambda>r. pn_id r = pr_ID p) (db_principals db) of
     None \<Rightarrow> Inr (db\<lparr>db_principals := db_principals db @ [\<lparr>pn_id = pr_ID p, pn_tenant = tenant, pn_status = EffectiveStatus p,
               pn_key = key, pn_created = now\<rparr>]\<rparr>)
   | Some r \<Rightarrow>
       if pn_tenant r \<noteq> tenant then Inl (Errorf ''principal belongs to another tenant'')
       else Inr (db\<lparr>db_principals := sql_update (\<lambda>x. pn_id x = pr_ID p) (\<lambda>x. x\<lparr>pn_status := EffectiveStatus p, pn_key := key\<rparr>)
              (db_principals db)\<rparr>))"

fun upsertPrincipals :: "string \<Rightarrow> principal_entry list \<Rightarrow> string \<Rightarrow> actions_db \<Rightarrow> actions_db result" where
  "upsertPrincipals tenant [] now db = Inr db"
| "upsertPrincipals tenant (p # ps) now db =
     bind_res (wrap_err ''principal key'' (KeyBytes p)) (\<lambda>key.
     bind_res (upsertPrincipal tenant p key now db) (upsertPrincipals tenant ps now))"

definition clearTenantGrants :: "string \<Rightarrow> actions_db \<Rightarrow> actions_db" where
  "clearTenantGrants tenant db =
     db\<lparr>db_memberships := filter (\<lambda>m. \<not> list_ex (\<lambda>p. pn_id p = fst m \<and> pn_tenant p = tenant) (db_principals db)) (db_memberships db),
        db_authorities := filter (\<lambda>a. au_tenant a \<noteq> tenant) (db_authorities db)\<rparr>"

definition upsert_role :: "role_entry \<Rightarrow> actions_db \<Rightarrow> actions_db result" where
  "upsert_role r db =
     (if list_ex (\<lambda>x. fst x \<noteq> ro_ID r \<and> snd x = ro_Name r) (db_roles db) then Inl (Errorf ''write role'')
      else Inr (db\<lparr>db_roles := AList.update (ro_ID r) (ro_Name r) (db_roles db)\<rparr>))"

fun grant_members :: "string \<Rightarrow> string list \<Rightarrow> actions_db \<Rightarrow> actions_db result" where
  "grant_members role [] db = Inr db"
| "grant_members role (m # ms) db =
     (if (m, role) \<in> set (db_memberships db) \<or> \<not> list_ex (\<lambda>p. pn_id p = m) (db_principals db)
      then Inl (Errorf ''grant role'')
      else grant_members role ms (db\<lparr>db_memberships := db_memberships db @ [(m, role)]\<rparr>))"

fun grant_risks :: "string \<Rightarrow> string \<Rightarrow> string \<Rightarrow> string list \<Rightarrow> actions_db \<Rightarrow> actions_db result" where
  "grant_risks tenant role entity [] db = Inr db"
| "grant_risks tenant role entity (risk # risks) db =
     (let a = \<lparr>au_tenant = tenant, au_entity = entity, au_risk = risk, au_role = role\<rparr>
      in if a \<in> set (db_authorities db) \<or> risk \<notin> {''R0'', ''R1'', ''R2'', ''R3'', ''R4''} then Inl (Errorf ''grant authority'')
         else grant_risks tenant role entity risks (db\<lparr>db_authorities := db_authorities db @ [a]\<rparr>))"

fun writeAuthorities :: "string \<Rightarrow> string \<Rightarrow> authority_entry list \<Rightarrow> actions_db \<Rightarrow> actions_db result" where
  "writeAuthorities tenant role [] db = Inr db"
| "writeAuthorities tenant role (a # authorities) db =
     bind_res (grant_risks tenant role (at_Entity a) (at_Risks a) db) (writeAuthorities tenant role authorities)"

definition writeRole :: "string \<Rightarrow> role_entry \<Rightarrow> actions_db \<Rightarrow> actions_db result" where
  "writeRole tenant r db =
     bind_res (upsert_role r db) (\<lambda>db1.
     bind_res (grant_members (ro_ID r) (ro_Members r) db1) (\<lambda>db2.
       writeAuthorities tenant (ro_ID r) (ro_Authorities r) db2))"

fun write_roles :: "string \<Rightarrow> role_entry list \<Rightarrow> actions_db \<Rightarrow> actions_db result" where
  "write_roles tenant [] db = Inr db"
| "write_roles tenant (r # rs) db = bind_res (writeRole tenant r db) (write_roles tenant rs)"

definition replaceRoles :: "principal_document \<Rightarrow> actions_db \<Rightarrow> actions_db result" where
  "replaceRoles d db = write_roles (pc_Tenant d) (pc_Roles d) (clearTenantGrants (pc_Tenant d) db)"

definition tenant_memberships :: "string \<Rightarrow> actions_db \<Rightarrow> (string \<times> string) list" where
  "tenant_memberships tenant db = [m. m \<leftarrow> db_memberships db, p \<leftarrow> db_principals db, pn_id p = fst m \<and> pn_tenant p = tenant]"

definition GovernanceSummary :: "string \<Rightarrow> actions_db \<Rightarrow> principal_summary" where
  "GovernanceSummary tenant db =
     \<lparr>py_Tenant = tenant,
      py_Active = length (filter (\<lambda>p. pn_tenant p = tenant \<and> pn_status p = ''active'') (db_principals db)),
      py_Disabled = length (filter (\<lambda>p. pn_tenant p = tenant \<and> pn_status p = ''disabled'') (db_principals db)),
      py_Roles = length (remdups (map snd (tenant_memberships tenant db))),
      py_Memberships = length (tenant_memberships tenant db),
      py_Authorities = length (filter (\<lambda>a. au_tenant a = tenant) (db_authorities db))\<rparr>"

definition ReplaceGovernance :: "principal_document \<Rightarrow> time \<Rightarrow> principal_summary transaction" where
  "ReplaceGovernance d now db =
     bind_res (upsertPrincipals (pc_Tenant d) (pc_Principals d) (FormatTime now) (disableTenantPrincipals (pc_Tenant d) db)) (\<lambda>db1.
     bind_res (replaceRoles d db1) (\<lambda>db2. Inr (GovernanceSummary (pc_Tenant d) db2, db2)))"

text \<open>The ownership fence is the check and the epoch of the runtime owner; an absent check refuses.\<close>

definition ApplyPrincipals ::
  "(string \<Rightarrow> actions_db \<Rightarrow> unit result) option \<Rightarrow> string \<Rightarrow> principal_document \<Rightarrow> time \<Rightarrow> principal_summary transaction" where
  "ApplyPrincipals fence epoch d now db = (case fence of
     None \<Rightarrow> Inl (Errorf ''principal changes need the runtime owner fence'')
   | Some check \<Rightarrow>
       if epoch = '''' then Inl (Errorf ''principal changes need the runtime owner fence'')
       else bind_res (wrap_err ''principal changes need runtime ownership'' (check epoch db)) (\<lambda>_.
            bind_res (wrap_err ''validate principal document'' (document_Validate d)) (\<lambda>_. ReplaceGovernance d now db)))"

end
