(* ===== verification/Canonical_Strict.thy ===== *)
theory Canonical_Strict
  imports Canonical_Properties Contract_Documents
begin

text \<open>
  The strict decoder on canonical texts. The scanner of raw strings always ends within its fuel and
  accepts every text the encoder writes; on a document whose numbers are safe integers the strict
  decoder gives the same text again, so a stored contract document reads back as the document that was
  sealed.
\<close>

section \<open>The scanner ends\<close>

lemma scanLowSurrogate_shrinks: "scanLowSurrogate s = Inr r \<Longrightarrow> length r < length s"
  by (auto simp: scanLowSurrogate_def split: if_splits option.splits)

lemma scanUnicodeEscape_shrinks: "scanUnicodeEscape s = Inr r \<Longrightarrow> length r < length s"
  by (auto simp: scanUnicodeEscape_def split: if_splits option.splits dest!: scanLowSurrogate_shrinks)

lemma scanEscape_shrinks: "scanEscape s = Inr r \<Longrightarrow> length r < length s"
  by (auto simp: scanEscape_def split: list.splits if_splits dest!: scanUnicodeEscape_shrinks)

lemma scanMultibyte_shrinks:
  assumes "s \<noteq> []" "scanMultibyte s = Inr r"
  shows "length r < length s"
proof -
  obtain x k where d: "decode_rune s = (x, k)" by (rule prod.exhaust)
  then have "0 < k" using utf8_first_size assms(1) by (auto simp: decode_rune_def split: option.splits if_splits)
  with d assms show ?thesis by (auto simp: scanMultibyte_def split: if_splits)
qed

lemma scanStringUnit_shrinks: "scanStringUnit s = Inr r \<Longrightarrow> length r < length s"
  using scanMultibyte_shrinks[of s r]
  by (auto simp: scanStringUnit_def split: list.splits if_splits dest!: scanEscape_shrinks)

lemma scan_string_fuel: "length s \<le> n \<Longrightarrow> length s \<le> m \<Longrightarrow> scan_string n s = scan_string m s"
proof (induction n s arbitrary: m rule: scan_string.induct)
  case (3 n c rest)
  then obtain k where m: "m = Suc k" by (cases m) auto
  show ?case
  proof (cases "c = CHR 0x22")
    case False
    show ?thesis
    proof (cases "scanStringUnit (c # rest)")
      case (Inr r)
      then have "length r \<le> length rest" using scanStringUnit_shrinks[OF Inr] by simp
      then show ?thesis using "3.IH"[OF False, of r k] "3.prems" False Inr m by simp
    qed (use False m in simp)
  qed (simp add: m)
qed simp_all

lemma scan_string_shrinks: "scan_string n s = Inr r \<Longrightarrow> length r < length s"
proof (induction n s rule: scan_string.induct)
  case (3 n c rest)
  then show ?case
    using scanStringUnit_shrinks[of "c # rest"] by (fastforce simp: bind_res_Inr_iff split: if_splits)
qed simp_all

lemma scan_string_no_fuel_error: "length s \<le> n \<Longrightarrow> scan_string n s \<noteq> Inl (Errorf ''fuel'')"
proof (induction n s rule: scan_string.induct)
  case (3 n c rest)
  show ?case
  proof (cases "scanStringUnit (c # rest)")
    case (Inl e)
    then have "e \<noteq> Errorf ''fuel''"
      by (auto simp: scanStringUnit_def scanEscape_def scanUnicodeEscape_def scanLowSurrogate_def scanMultibyte_def Let_def
          split: if_splits list.splits option.splits prod.splits)
    then show ?thesis using Inl by simp
  next
    case (Inr r)
    then have "length r \<le> n" using scanStringUnit_shrinks[OF Inr] "3.prems" by simp
    then show ?thesis using "3.IH"[of r] Inr by auto
  qed
qed simp_all

lemma validate_strings_fuel: "length s \<le> n \<Longrightarrow> length s \<le> m \<Longrightarrow> validate_strings n s = validate_strings m s"
proof (induction n s arbitrary: m rule: validate_strings.induct)
  case (3 n c rest)
  then obtain k where m: "m = Suc k" by (cases m) auto
  show ?case
  proof (cases "c = CHR 0x22")
    case True
    show ?thesis
    proof (cases "scanString rest")
      case (Inr r)
      then have "length r \<le> length rest" using scan_string_shrinks[of "length rest" rest r] by (simp add: scanString_def)
      then show ?thesis using "3.IH"(2)[of r k] "3.prems" True Inr m by simp
    qed (simp add: True m)
  next
    case False
    then show ?thesis using "3.IH"(1)[of k] "3.prems" m by simp
  qed
qed simp_all

lemma validate_strings_no_fuel_error: "length s \<le> n \<Longrightarrow> validate_strings n s \<noteq> Inl (Errorf ''fuel'')"
proof (induction n s rule: validate_strings.induct)
  case (3 n c rest)
  show ?case
  proof (cases "scanString rest")
    case (Inl e)
    then show ?thesis using 3 scan_string_no_fuel_error[of rest "length rest"] by (auto simp: scanString_def)
  next
    case (Inr r)
    then have "length r \<le> n" using scan_string_shrinks[of "length rest" rest r] "3.prems" by (simp add: scanString_def)
    then show ?thesis using 3 Inr by auto
  qed
qed simp_all

text \<open>Claim C28. The scanner of raw JSON strings always ends: with as much fuel as the text has bytes, more
  fuel changes nothing and the result is never the exhaustion of the fuel, for any text at all.\<close>

theorem validateStrings_terminates:
  shows "validate_strings (length data + k) data = validateStrings data \<and> validateStrings data \<noteq> Inl (Errorf ''fuel'')"
  using validate_strings_fuel[of data "length data + k" "length data"] validate_strings_no_fuel_error[of data "length data"]
  by (simp add: validateStrings_def)

section \<open>The scanner accepts what the encoder writes\<close>

definition passes :: "string \<Rightarrow> bool" where
  "passes t \<longleftrightarrow> (\<forall>rest. validateStrings (t @ rest) = validateStrings rest)"

lemma passes_append: "passes s \<Longrightarrow> passes t \<Longrightarrow> passes (s @ t)"
  by (simp add: passes_def)

lemma passes_plain: "CHR 0x22 \<notin> set t \<Longrightarrow> passes t"
  unfolding passes_def by (induction t) (auto simp: validateStrings_def)

lemma scanStringUnit_rune:
  assumes "scalar r"
  shows "scanStringUnit (writeStringRune r @ s) = Inr s \<and> (\<exists>c cs. writeStringRune r = c # cs \<and> c \<noteq> CHR 0x22)"
proof (cases "map_of shortEscapes r")
  case (Some e)
  then have "\<exists>c. e = [CHR 0x5C, c] \<and> c \<noteq> CHR ''u'' \<and> c \<in> set ([CHR 0x22, CHR 0x5C] @ ''/bfnrt'')"
    by (auto simp: shortEscapes_def split: if_splits)
  then show ?thesis
    using Some by (auto simp: writeStringRune_def scanStringUnit_def scanEscape_def)
next
  case None
  show ?thesis
  proof (cases "r < 0x20")
    case True
    have z: "hexDigit CHR ''0'' = Some 0" by (simp add: hexDigit_def byte_def)
    have d: "0 \<le> r div 16" "r div 16 < 16" "0 \<le> r mod 16" "r mod 16 < 16" using assms True by (auto simp: scalar_def)
    have "parseHex4 [CHR ''0'', CHR ''0'', hex_digit (r div 16), hex_digit (r mod 16)] = Some (((0 * 16 + 0) * 16 + r div 16) * 16 + r mod 16)"
      by (simp only: parseHex4.simps z hexDigit_hex_digit[OF d(1,2)] hexDigit_hex_digit[OF d(3,4)] prod.case option.case)
    then show ?thesis
      using None True by (simp add: writeStringRune_def scanStringUnit_def scanEscape_def scanUnicodeEscape_def)
  next
    case False
    then obtain c cs where c: "utf8_encode r = c # cs" "c \<noteq> CHR 0x22" "c \<noteq> CHR 0x5C" "0x20 \<le> byte c"
      using hd_utf8_encode[OF assms _ None] by auto
    have w: "writeStringRune r = c # cs" using None False c(1) by (simp add: writeStringRune_def)
    have dec: "decode_rune (c # cs @ s) = (r, length (c # cs))"
      using utf8_first_utf8_encode[OF assms, of s] c(1) by (simp add: decode_rune_def)
    have "valid_utf8 (c # cs)"
      using runes_utf8_encode[of "[r]"] assms c(1) by simp
    moreover have "byte c < 0x80 \<longleftrightarrow> cs = []"
      using c(1) assms by (auto simp: utf8_encode_def scalar_def split: if_splits)
    ultimately have "scanStringUnit (c # cs @ s) = Inr s"
      using c dec by (cases cs) (auto simp: scanStringUnit_def scanMultibyte_def Let_def)
    then show ?thesis using w c(2) by simp
  qed
qed

lemma scan_string_runes:
  assumes "list_all scalar rs" "length (concat (map writeStringRune rs) @ CHR 0x22 # rest) \<le> n"
  shows "scan_string n (concat (map writeStringRune rs) @ CHR 0x22 # rest) = Inr rest"
  using assms
proof (induction rs arbitrary: n)
  case Nil
  then show ?case by (cases n) auto
next
  case (Cons r rs)
  let ?s = "concat (map writeStringRune rs) @ CHR 0x22 # rest"
  obtain c cs where c: "writeStringRune r = c # cs" "c \<noteq> CHR 0x22" "scanStringUnit (c # cs @ ?s) = Inr ?s"
    using scanStringUnit_rune[of r ?s] Cons.prems(1) by auto
  obtain m where n: "n = Suc m" using Cons.prems(2) by (cases n) auto
  show ?case using Cons c n by simp
qed

lemma passes_string:
  assumes "encodeString s = Inr t"
  shows "passes t"
  unfolding passes_def
proof
  fix rest
  have t: "t = [CHR 0x22] @ concat (map writeStringRune (runes s)) @ [CHR 0x22]" and r: "list_all scalar (runes s)"
    using assms valid_utf8_runes[of s] by (simp_all add: encodeString_Inr)
  let ?u = "concat (map writeStringRune (runes s)) @ CHR 0x22 # rest"
  have "scanString ?u = Inr rest" unfolding scanString_def by (rule scan_string_runes[OF r]) simp
  moreover have "validate_strings (length ?u) rest = validateStrings rest"
    unfolding validateStrings_def by (rule validate_strings_fuel) simp_all
  ultimately show "validateStrings (t @ rest) = validateStrings rest"
    by (simp add: t validateStrings_def)
qed

lemma passes_join: "\<forall>t \<in> set ts. passes t \<Longrightarrow> passes (join_comma ts)"
proof (induction ts rule: join_comma.induct)
  case (3 t u ts)
  then show ?case using passes_append[of t "'','' @ join_comma (u # ts)"] passes_append[OF passes_plain[of "'',''"]] by simp
qed (auto intro: passes_plain)

lemma passes_bracket: "passes t \<Longrightarrow> CHR 0x22 \<notin> set a \<Longrightarrow> CHR 0x22 \<notin> set b \<Longrightarrow> passes (a @ t @ b)"
  using passes_append[OF passes_plain passes_append[OF _ passes_plain]] by blast

lemma passes_array:
  assumes "encodeArray rs = Inr t" "\<And>u. Inr u \<in> set rs \<Longrightarrow> passes u"
  shows "passes t"
proof -
  obtain ts where ts: "list_all2 (\<lambda>r x. r = Inr x) rs ts" and t: "t = ''['' @ join_comma ts @ '']''"
    using assms(1) by (auto simp: encodeArray_Inr)
  have "\<forall>u \<in> set ts. passes u"
    using ts assms(2) by (auto simp: list_all2_conv_all_nth in_set_conv_nth) (metis nth_mem)
  then show ?thesis unfolding t by (intro passes_bracket passes_join) simp_all
qed

lemma passes_object:
  assumes "distinct (map fst kvs)" "encodeObject kvs = Inr t" "\<And>k u. (k, Inr u) \<in> set kvs \<Longrightarrow> passes u"
  shows "passes t"
proof -
  obtain mts where mts: "list_all2 (\<lambda>kr mt. \<exists>u. snd kr = Inr u \<and> member_text (fst kr) u mt) (sort_func compare_member kvs) mts"
    and t: "t = ''{'' @ join_comma mts @ ''}''" using assms(2) encodeObject_Inr[OF assms(1)] by auto
  have "passes mt" if mt: "mt \<in> set mts" for mt
  proof -
    obtain i where i: "i < length mts" "mt = mts ! i" using mt by (metis in_set_conv_nth)
    let ?kr = "sort_func compare_member kvs ! i"
    obtain u ks where u: "snd ?kr = Inr u" "encodeString (fst ?kr) = Inr ks" "mt = ks @ '':'' @ u"
      using list_all2_nthD2[OF mts i(1)] i(2) by (auto simp: member_text_def)
    have "?kr \<in> set kvs" using i(1) list_all2_lengthD[OF mts] by (metis nth_mem set_sort_func)
    then have "passes u" using assms(3)[of "fst ?kr" u] u(1) by (metis prod.collapse)
    then show ?thesis unfolding u(3) using passes_append[OF passes_string[OF u(2)] passes_append[OF passes_plain[of "'':''"]]] by simp
  qed
  then show ?thesis unfolding t by (intro passes_bracket passes_join) simp_all
qed

lemma digits_no_quote: "list_all is_digit ds \<Longrightarrow> CHR 0x22 \<notin> set ds"
  by (auto simp: list_all_iff is_digit_def)

lemma num_shape_no_quote:
  assumes "num_shape u"
  shows "CHR 0x22 \<notin> set u"
proof -
  obtain w f e where u: "u = num_text w f e" and w: "list_all is_digit w" "list_all is_digit f"
    using assms by (auto simp: num_shape_def)
  have "CHR 0x22 \<notin> set (exponent_text e)"
    using dec_digits_digits digits_no_quote by (cases e) (auto simp: exponent_text_def)
  then show ?thesis using w[THEN digits_no_quote] by (auto simp: u num_text_def)
qed

lemma passes_number: "binary64 f \<Longrightarrow> encodeFloat f = Inr t \<Longrightarrow> passes t"
  using encodeFloat_text[of f t] num_shape_no_quote by (intro passes_plain) auto

lemma binary64_of_int: "binary64 (float_of_int n)"
  unfolding float_of_int_def float_round_def by (rule float_signed_binary64) simp

lemma passes_integer: "encodeInteger n = Inr t \<Longrightarrow> passes t"
  using settled_integer[of n t] passes_number[OF binary64_of_int] by blast

text \<open>Every text that the canonical encoder writes passes the scanner.\<close>

lemma passes_encode: "go_value v \<Longrightarrow> encode v = Inr t \<Longrightarrow> passes t"
proof (induction v arbitrary: t)
  case (AnySlice xs)
  then show ?case by (auto simp: list_all_iff intro!: passes_array[of "map encode xs" t])
next
  case (AnyMap kvs)
  have "passes u" if kv: "(k, Inr u) \<in> set (map (map_prod id encode) kvs)" for k u
  proof -
    obtain v where v: "(k, v) \<in> set kvs" "encode v = Inr u" using kv by auto
    moreover have "go_value v" using AnyMap.prems(1) v(1) by (auto simp: list_all_iff)
    ultimately show ?thesis using AnyMap.IH[of "(k, v)" v] by (auto simp: snds.simps)
  qed
  with AnyMap.prems show ?case by (intro passes_object[of "map (map_prod id encode) kvs" t]) auto
next
  case (AnyUint64 n)
  then show ?case using passes_integer[of n t] by (auto simp: encodeUnsigned_def encodeInteger_def maxSafeInteger_def split: if_splits)
next
  case (AnyNumber raw)
  then show ?case using ParseFloat_binary64 passes_number by (fastforce simp: encodeNumber_def bind_res_Inr_iff split: if_splits sum.splits)
next
  case (AnyStrings xs)
  then show ?case by (auto simp: encodeStrings_def intro: passes_plain passes_string[OF sym] intro!: passes_array[of "map (encodeString \<circ> to_valid) xs" t] split: if_splits)
next
  case (AnyStringMap kvs)
  let ?ks = "map (map_prod to_valid (encodeString \<circ> to_valid)) kvs"
  have "passes u" if "(k, Inr u) \<in> set ?ks" for k u
    using that by (auto intro: passes_string[OF sym])
  with AnyStringMap show ?case
    by (intro passes_object[of ?ks t]) (auto simp: encodeStringMap_def Let_def split: if_splits)
next
  case (AnyTime x)
  then show ?case by (auto simp: bind_res_Inr_iff intro: passes_string)
qed (auto intro: passes_plain passes_string passes_number passes_integer)

lemma canonical_text_valid: "go_value v \<Longrightarrow> encode v = Inr t \<Longrightarrow> validateStrings t = Inr ()"
  using passes_encode[of v t] unfolding passes_def by (metis append_Nil2 validateStrings_def validate_strings.simps(1))

section \<open>The strict decoder is the identity on canonical texts\<close>

definition safe_float :: "float64 \<Rightarrow> bool" where
  "safe_float f \<longleftrightarrow> (\<exists>n. \<bar>n\<bar> \<le> maxSafeInteger \<and> f = float_of_int n)"

text \<open>All numbers of the value are integers that a double holds exactly.\<close>

primrec safe_numbers :: "any_value \<Rightarrow> bool" where
  "safe_numbers AnyNil \<longleftrightarrow> True"
| "safe_numbers (AnyBool b) \<longleftrightarrow> True"
| "safe_numbers (AnyString s) \<longleftrightarrow> True"
| "safe_numbers (AnyFloat64 f) \<longleftrightarrow> safe_float f"
| "safe_numbers (AnyFloat32 f) \<longleftrightarrow> safe_float f"
| "safe_numbers (AnyInt n) \<longleftrightarrow> True"
| "safe_numbers (AnyInt64 n) \<longleftrightarrow> True"
| "safe_numbers (AnyUint64 n) \<longleftrightarrow> True"
| "safe_numbers (AnyNumber raw) \<longleftrightarrow> (\<forall>f. ParseFloat raw = Inr f \<longrightarrow> safe_float f)"
| "safe_numbers (AnyTime t) \<longleftrightarrow> True"
| "safe_numbers (AnyStrings xs) \<longleftrightarrow> True"
| "safe_numbers (AnyStringMap kvs) \<longleftrightarrow> True"
| "safe_numbers (AnySlice xs) \<longleftrightarrow> list_all id (map safe_numbers xs)"
| "safe_numbers (AnyMap kvs) \<longleftrightarrow> list_all id (map snd (map (map_prod id safe_numbers) kvs))"

lemma show_int_sign: "has_prefix (show_int n) ''-'' \<longleftrightarrow> n < 0" "\<not> has_prefix (show_int n) ''+''" "show_int n \<noteq> []"
proof -
  obtain c cs where "dec_digits \<bar>n\<bar> = c # cs" "is_digit c"
    using dec_digits_digits[of "\<bar>n\<bar>"] by (cases "dec_digits \<bar>n\<bar>") auto
  moreover have "c \<noteq> CHR ''-''" "c \<noteq> CHR ''+''" using \<open>is_digit c\<close> by (auto simp: is_digit_def)
  ultimately show "has_prefix (show_int n) ''-'' \<longleftrightarrow> n < 0" "\<not> has_prefix (show_int n) ''+''" "show_int n \<noteq> []"
    by (auto simp: show_int_def has_prefix_def abs_if split: if_splits)
qed

lemma decimalInteger_show: "decimalInteger (show_int n) = Some n"
proof -
  let ?d = "dec_digits \<bar>n\<bar>"
  have d: "list_all is_digit ?d" "decimal_value ?d 0 = \<bar>n\<bar>" using dec_digits_digits[of "\<bar>n\<bar>"] by simp_all
  then have e: "\<forall>c \<in> set ?d. c \<noteq> CHR ''e'' \<and> c \<noteq> CHR ''E'' \<and> c \<noteq> CHR ''.''" by (auto simp: list_all_iff is_digit_def)
  have sign: "splitSign (show_int n) = (if n < 0 then ''-'' else [], ?d)"
    using show_int_sign(1)[of n] by (auto simp: splitSign_def show_int_def)
  have "dropWhile (\<lambda>c. c \<noteq> CHR ''e'' \<and> c \<noteq> CHR ''E'') ?d = []" using e by simp
  then have "splitExponent ?d = Some (?d, 0)" unfolding splitExponent_def Let_def de_Morgan_disj by (simp only: list.case)
  moreover have "cut_byte CHR ''.'' ?d = None" using e by (intro cut_byte_None) auto
  ultimately show ?thesis
    using sign show_int_sign(2)[of n] d by (simp add: decimalInteger_def scaleDigits_def)
qed

lemma safe_float_text:
  assumes "safe_float f" "encodeFloat f = Inr t"
  shows "reads True 0 t (AnyNumber t)" "encodeNumber t = Inr t"
proof -
  obtain n where n: "\<bar>n\<bar> \<le> maxSafeInteger" "f = float_of_int n" using assms(1) by (auto simp: safe_float_def)
  have t: "t = show_int n" using assms(2) encodeFloat_safe[OF n(1)] n(2) by simp
  have p: "ParseFloat t = Inr f" "num_shape t \<or> (\<exists>u. t = CHR ''-'' # u \<and> num_shape u)"
    using encodeFloat_text[OF _ assms(2)] binary64_of_int n(2) by auto
  show "reads True 0 t (AnyNumber t)" using reads_number(2)[OF p] .
  have f: "f = Finite (of_int n)" using float_of_int_safe[OF n(1)] n(2) by simp
  then have "checkExactInteger t f = Inr ()"
    using n(1) by (simp add: checkExactInteger_def t decimalInteger_show integerRoundTrips_def)
  moreover have "\<not> (is_zero f \<and> has_prefix t ''-'')" using f by (auto simp: is_zero_def t show_int_sign)
  ultimately show "encodeNumber t = Inr t" using p(1) assms(2) show_int_sign(3)[of n] by (simp add: encodeNumber_def t)
qed

definition strict :: "nat \<Rightarrow> string \<Rightarrow> any_value \<Rightarrow> bool" where
  "strict D t w \<longleftrightarrow> reads True D t w \<and> encode w = Inr t \<and> validateTokens w = Inr ()"

lemma strict_number: "safe_float f \<Longrightarrow> encodeFloat f = Inr t \<Longrightarrow> strict 0 t (AnyNumber t)"
  using safe_float_text by (simp add: strict_def)

lemma strict_integer: "encodeInteger n = Inr t \<Longrightarrow> strict 0 t (AnyNumber t)"
proof (rule strict_number[of "float_of_int n"])
  assume e: "encodeInteger n = Inr t"
  then have "\<bar>n\<bar> \<le> maxSafeInteger" by (auto simp: encodeInteger_def split: if_splits)
  then show "safe_float (float_of_int n)" by (auto simp: safe_float_def)
  show "encodeFloat (float_of_int n) = Inr t" using settled_integer[OF e] by blast
qed

lemma readUniqueKeys_distinct: "distinct ks \<Longrightarrow> set ks \<inter> set keys = {} \<Longrightarrow> readUniqueKeys keys ks = Inr ()"
  by (induction ks arbitrary: keys) auto

lemma first_error_Inr: "first_error rs = Inr () \<longleftrightarrow> (\<forall>r \<in> set rs. r = Inr ())"
  by (induction rs) (auto simp: bind_res_Inr_iff)

lemma strict_array:
  assumes "encodeArray rs = Inr t" "\<And>r u. r \<in> set rs \<Longrightarrow> r = Inr u \<Longrightarrow> \<exists>w. strict D u w"
  shows "\<exists>w. strict (Suc D) t w"
proof -
  obtain ts where ts: "list_all2 (\<lambda>r x. r = Inr x) rs ts" and t: "t = ''['' @ join_comma ts @ '']''"
    using assms(1) by (auto simp: encodeArray_Inr)
  have "\<exists>w. strict D (ts ! i) w" if "i < length ts" for i
  proof -
    have "i < length rs" "rs ! i = Inr (ts ! i)" using ts that by (simp_all add: list_all2_conv_all_nth)
    then have "rs ! i = Inr (ts ! i)" "rs ! i \<in> set rs" using nth_mem[of i rs] by simp_all
    then show ?thesis using assms(2) by blast
  qed
  then obtain w where w: "\<And>i. i < length ts \<Longrightarrow> strict D (ts ! i) (w i)" by metis
  let ?ws = "map w [0..<length ts]"
  have "list_all2 (reads True D) ts ?ws" "list_all2 (\<lambda>r x. r = Inr x) (map encode ?ws) ts" "\<forall>x \<in> set ?ws. validateTokens x = Inr ()"
    using w by (auto simp: strict_def list_all2_conv_all_nth)
  then have "strict (Suc D) t (AnySlice ?ws)"
    using reads_array[of True D ts ?ws] by (auto simp: strict_def t encodeArray_Inr first_error_Inr)
  then show ?thesis ..
qed

lemma strict_object:
  assumes "distinct (map fst kvs)" "encodeObject kvs = Inr t" "\<And>k u. (k, Inr u) \<in> set kvs \<Longrightarrow> \<exists>w. strict D u w"
  shows "\<exists>w. strict (Suc D) t w"
proof -
  have "\<exists>w. \<forall>u. snd (kvs ! i) = Inr u \<longrightarrow> strict D u w" if i: "i < length kvs" for i
  proof (cases "snd (kvs ! i)")
    case (Inr u)
    then have "(fst (kvs ! i), Inr u) \<in> set kvs" using i by (metis nth_mem prod.collapse)
    from assms(3)[OF this] Inr show ?thesis by auto
  qed simp
  then obtain w where w: "\<And>i u. i < length kvs \<Longrightarrow> snd (kvs ! i) = Inr u \<Longrightarrow> strict D u (w i)" by metis
  let ?ws = "map (\<lambda>i. (fst (kvs ! i), w i)) [0..<length kvs]"
  have keys: "map fst ?ws = map fst kvs" by (simp add: map_equality_iff)
  let ?ss = "sort_func compare_member ?ws"
  have obj: "reads True (Suc D) t (AnyMap ?ss) \<and> encode (AnyMap ?ss) = Inr t \<and> distinct (map fst ?ss) \<and> (\<forall>kv \<in> set ?ss. validateTokens (snd kv) = Inr ())"
    by (rule object_members[OF assms(1,2) keys]) (use w in \<open>auto simp: strict_def\<close>)
  have "validateTokens (AnyMap ?ss) = Inr ()"
    using obj readUniqueKeys_distinct[of "map fst ?ss" "[]"] by (auto simp: first_error_Inr bind_res_Inr_iff)
  with obj have "strict (Suc D) t (AnyMap ?ss)" unfolding strict_def by blast
  then show ?thesis ..
qed

lemma strict_mono: "strict D t w \<Longrightarrow> D \<le> E \<Longrightarrow> strict E t w"
  by (auto simp: strict_def intro: reads_mono)

lemma strict_literals: "strict 0 ''null'' AnyNil" "strict 0 ''true'' (AnyBool True)" "strict 0 ''false'' (AnyBool False)"
  by (simp_all add: strict_def reads_literals)

lemma strict_string: "encodeString s = Inr t \<Longrightarrow> strict 0 t (AnyString s)"
  by (simp add: strict_def reads_string)

lemma all_strict: "go_value v \<Longrightarrow> safe_numbers v \<Longrightarrow> encode v = Inr t \<Longrightarrow> \<exists>w. strict (depth v) t w"
proof (induction v arbitrary: t)
  case (AnySlice xs)
  have "\<exists>w. strict (foldr max (map depth xs) 0) u w" if r: "r \<in> set (map encode xs)" "r = Inr u" for r u
  proof -
    obtain x where x: "x \<in> set xs" "encode x = Inr u" using r by auto
    then obtain w where "strict (depth x) u w" using AnySlice.IH[OF x(1)] AnySlice.prems by (auto simp: list_all_iff)
    then show ?thesis using strict_mono depth_le[OF x(1)] by blast
  qed
  with AnySlice.prems(3) show ?case unfolding encode.simps depth.simps by (rule strict_array)
next
  case (AnyMap kvs)
  have "\<exists>w. strict (foldr max (map snd (map (map_prod id depth) kvs)) 0) u w" if kv: "(k, Inr u) \<in> set (map (map_prod id encode) kvs)" for k u
  proof -
    obtain v where v: "(k, v) \<in> set kvs" "encode v = Inr u" using kv by auto
    have "go_value v" "safe_numbers v" using AnyMap.prems(1,2) v(1) by (auto simp: list_all_iff)
    then obtain w where "strict (depth v) u w" using AnyMap.IH[of "(k, v)" v] v by (auto simp: snds.simps)
    moreover have "depth v \<le> foldr max (map depth (map snd kvs)) 0" using v(1) by (intro depth_le) force
    moreover have "map snd (map (map_prod id depth) kvs) = map depth (map snd kvs)" by simp
    ultimately show ?thesis using strict_mono by metis
  qed
  with AnyMap.prems show ?case unfolding encode.simps depth.simps by (intro strict_object) auto
next
  case (AnyUint64 n)
  then show ?case using strict_integer[of n t] by (auto simp: encodeUnsigned_def encodeInteger_def maxSafeInteger_def split: if_splits)
next
  case (AnyNumber raw)
  then show ?case using strict_number by (fastforce simp: encodeNumber_def bind_res_Inr_iff split: if_splits sum.splits)
next
  case (AnyStrings xs)
  show ?case
  proof (cases "xs = []")
    case True
    then show ?thesis using AnyStrings strict_mono[OF strict_literals(1)] by (auto simp: encodeStrings_def)
  next
    case False
    with AnyStrings have "encodeArray (map (encodeString \<circ> to_valid) xs) = Inr t" by (simp add: encodeStrings_def)
    then show ?thesis unfolding depth.simps One_nat_def by (rule strict_array) (auto intro: strict_string[OF sym])
  qed
next
  case (AnyStringMap kvs)
  let ?ks = "map (map_prod to_valid (encodeString \<circ> to_valid)) kvs"
  have "\<exists>w. strict 0 u w" if ku: "(k, Inr u) \<in> set ?ks" for k u
  proof -
    obtain y where "Inr u = encodeString (to_valid y)" using ku by auto
    from strict_string[OF this[symmetric]] show ?thesis ..
  qed
  with AnyStringMap show ?case
    unfolding depth.simps One_nat_def by (intro strict_object[of ?ks t]) (auto simp: encodeStringMap_def Let_def split: if_splits)
next
  case (AnyTime x)
  then show ?case by (auto simp: bind_res_Inr_iff intro: strict_string)
qed (auto intro: strict_literals strict_string strict_number strict_integer split: if_splits)

lemma encodeRaw_canonical:
  assumes "go_value v" "safe_numbers v" "depth v \<le> max_nesting_depth" "Marshal v = Inr t"
  shows "encodeRaw t = Inr t"
proof -
  obtain w where w: "strict (depth v) t w" using all_strict assms by (auto simp: Marshal_def)
  then have "read_json True t = Some w" "validateTokens w = Inr ()" "encode w = Inr t"
    using read_json_reads[of True "depth v" t w] assms(3) by (simp_all add: strict_def)
  then show ?thesis
    using canonical_text_valid[of v t] assms(1,4) by (simp add: encodeRaw_def decodeJSON_def Marshal_def)
qed

text \<open>The intent digest covers the document without its digest field, and so does its canonical form.\<close>

lemma sort_members_filter:
  assumes "sortable kvs"
  shows "sort_func compare_member (filter P kvs) = filter P (sort_func compare_member kvs)"
proof -
  let ?s = "filter P (sort_func compare_member kvs)"
  have "sortable (filter P kvs)" using assms by (auto simp: sortable_def distinct_map_filter)
  then have "sort_func compare_member (filter P kvs) = sort_func compare_member ?s"
    by (rule sort_members_perm) (simp only: mset_filter mset_sort_func)
  moreover have "sort_func compare_member ?s = ?s"
  proof (rule member.sort_func_sorted)
    show "inj_on (\<lambda>kv. utf16Units (fst kv)) (set ?s)"
      using sortable_inj[OF sortable_sort[OF assms]] by (rule inj_on_subset) auto
    show "sorted_wrt (\<lambda>a b. compare_member a b \<le> 0) ?s"
      by (intro sorted_wrt_filter member.sorted_sort_func)
  qed
  ultimately show ?thesis by simp
qed

lemma canon_withoutIntentDigest:
  assumes "sortable d" and "canon (AnyMap d) = AnyMap d'"
  shows "canon (AnyMap (withoutIntentDigest d)) = AnyMap (withoutIntentDigest d')"
proof -
  have "sortable (map (map_prod id canon) d)" using assms(1) by (simp add: sortable_def)
  from sort_members_filter[OF this, of "\<lambda>kv. fst kv \<noteq> ''intent_digest''"] assms(2) show ?thesis
    by (auto simp: withoutIntentDigest_def filter_map comp_def)
qed

lemma map_of_canon:
  assumes "sortable d" and "canon (AnyMap d) = AnyMap d'"
  shows "map_of d' k = map_option canon (map_of d k)"
proof -
  let ?c = "map (map_prod id canon) d"
  have s: "sortable ?c" using assms(1) by (simp add: sortable_def)
  have "map_of (sort_func compare_member ?c) = map_of ?c"
    using sortable_sort[OF s] s map_of_inject_set[of "sort_func compare_member ?c" ?c] unfolding sortable_def set_sort_func by blast
  moreover have "map_of ?c k = map_option canon (map_of d k)" by (induction d) auto
  ultimately show ?thesis using assms(2) by auto
qed

lemma part_of_document:
  assumes "go_value (AnyMap d)" "depth (AnyMap d) \<le> max_nesting_depth"
  shows "go_value (AnyMap (filter P d))" "depth (AnyMap (filter P d)) \<le> max_nesting_depth"
proof -
  show "go_value (AnyMap (filter P d))"
    using assms(1) by (auto simp: list_all_iff distinct_map_filter)
  have "foldr max (map depth (map snd (filter P d))) 0 \<le> foldr max (map depth (map snd d)) 0"
    by (induction d) auto
  then show "depth (AnyMap (filter P d)) \<le> max_nesting_depth"
    using assms(2) by (simp add: comp_def)
qed

lemma Marshal_sortable:
  assumes "go_value (AnyMap d)" and "Marshal (AnyMap d) = Inr t"
  shows "sortable d"
proof -
  have "sortable (map (map_prod id encode) d)"
    using assms encodeObject_Inr[of "map (map_prod id encode) d" t] by (simp add: Marshal_def)
  then show ?thesis by (simp add: sortable_def)
qed

lemma marshalled_text_decodes:
  assumes "go_value (AnyMap d)" "safe_numbers (AnyMap d)" "depth (AnyMap d) \<le> max_nesting_depth" "Marshal (AnyMap d) = Inr t"
    "canon (AnyMap d) = AnyMap d'"
  shows "DecodeDocumentJSON t = Inr d'"
  using encodeRaw_canonical[OF assms(1-4)] Marshal_reads(1)[OF assms(1,3,4)] assms(5) by (simp add: DecodeDocumentJSON_def)

lemma VerifyDocumentDigest_canonical:
  assumes "go_value (AnyMap d)" "depth (AnyMap d) \<le> max_nesting_depth" "canon (AnyMap d) = AnyMap d'"
  shows "domain \<noteq> DomainIntent \<Longrightarrow> Seal domain (AnyMap d) = Inr (t, digest) \<Longrightarrow> VerifyDocumentDigest domain d' checksum \<longleftrightarrow> checksum = digest"
    and "sortable d \<Longrightarrow> DigestSum DomainIntent (AnyMap (withoutIntentDigest d)) = Inr digest \<Longrightarrow>
      map_of d ''intent_digest'' = Some (AnyString (EncodeDigest digest)) \<Longrightarrow> VerifyDocumentDigest DomainIntent d' checksum \<longleftrightarrow> checksum = digest"
proof -
  assume "domain \<noteq> DomainIntent" and seal: "Seal domain (AnyMap d) = Inr (t, digest)"
  then have "DigestSum domain (AnyMap d') = Inr digest" and "length digest = 32"
    using Marshal_reads(2)[OF assms(1,2)] assms(3) by (auto simp: DigestSum_def Seal_def bind_res_Inr_iff split: if_splits)
  with \<open>domain \<noteq> DomainIntent\<close> show "VerifyDocumentDigest domain d' checksum \<longleftrightarrow> checksum = digest"
    by (auto simp: VerifyDocumentDigest_def HasSumLength_def VerifySum_def)
next
  assume s: "sortable d" and dig: "DigestSum DomainIntent (AnyMap (withoutIntentDigest d)) = Inr digest"
    and field: "map_of d ''intent_digest'' = Some (AnyString (EncodeDigest digest))"
  note part = part_of_document[OF assms(1,2), of "\<lambda>kv. fst kv \<noteq> ''intent_digest''", folded withoutIntentDigest_def]
  have "DigestSum DomainIntent (AnyMap (withoutIntentDigest d')) = Inr digest" and "length digest = 32"
    using dig Marshal_reads(2)[OF part] canon_withoutIntentDigest[OF s assms(3)]
    by (auto simp: DigestSum_def Seal_def bind_res_Inr_iff split: if_splits)
  with map_of_canon[OF s assms(3), of "''intent_digest''"] field
  show "VerifyDocumentDigest DomainIntent d' checksum \<longleftrightarrow> checksum = digest"
    by (auto simp: VerifyDocumentDigest_def VerifyIntentDigest_def HasSumLength_def VerifySum_def Verify_def Digest_def)
qed

text \<open>Claim C26. A contract document reads back from what was stored. For a document of Go values whose
  numbers are safe integers and which nests at most the decoder's 10000 levels, the canonical text goes
  through the strict decoder unchanged and decodes to the document's canonical form; and the stored
  document verifies under a digest exactly when that digest is the right one. Under every domain but the
  intent domain the right digest is the one the seal of the document wrote; under the intent domain it
  is the digest of the document without its \<open>intent_digest\<close> field, when that field carries this digest.\<close>

theorem stored_document_roundtrip:
  assumes "go_value (AnyMap d)" "safe_numbers (AnyMap d)" "depth (AnyMap d) \<le> max_nesting_depth"
  shows "\<exists>d'. canon (AnyMap d) = AnyMap d'
    \<and> (\<forall>domain t digest. domain \<noteq> DomainIntent \<longrightarrow> Seal domain (AnyMap d) = Inr (t, digest) \<longrightarrow>
         encodeRaw t = Inr t \<and> (\<forall>checksum. VerifyStoredDocument (\<lambda>_. Inr ()) domain t checksum = Inr d' \<longleftrightarrow> checksum = digest))
    \<and> (\<forall>t digest. Marshal (AnyMap d) = Inr t \<longrightarrow> DigestSum DomainIntent (AnyMap (withoutIntentDigest d)) = Inr digest \<longrightarrow>
         map_of d ''intent_digest'' = Some (AnyString (EncodeDigest digest)) \<longrightarrow>
         encodeRaw t = Inr t \<and> (\<forall>checksum. VerifyStoredDocument (\<lambda>_. Inr ()) DomainIntent t checksum = Inr d' \<longleftrightarrow> checksum = digest))"
proof -
  obtain d' where c: "canon (AnyMap d) = AnyMap d'" by simp
  note verifies = VerifyDocumentDigest_canonical[OF assms(1,3) c]
  have decoded: "encodeRaw t = Inr t \<and> DecodeDocumentJSON t = Inr d' \<and> sortable d" if "Marshal (AnyMap d) = Inr t" for t
    using encodeRaw_canonical[OF assms that] marshalled_text_decodes[OF assms that c] Marshal_sortable[OF assms(1) that] by blast
  moreover have "Marshal (AnyMap d) = Inr t" if "Seal domain (AnyMap d) = Inr (t, digest)" for domain t digest
    using that by (auto simp: Seal_def bind_res_Inr_iff split: if_splits)
  ultimately have "\<forall>domain t digest. domain \<noteq> DomainIntent \<longrightarrow> Seal domain (AnyMap d) = Inr (t, digest) \<longrightarrow>
      encodeRaw t = Inr t \<and> (\<forall>checksum. VerifyStoredDocument (\<lambda>_. Inr ()) domain t checksum = Inr d' \<longleftrightarrow> checksum = digest)"
    using verifies(1) unfolding VerifyStoredDocument_iff by blast
  moreover have "\<forall>t digest. Marshal (AnyMap d) = Inr t \<longrightarrow> DigestSum DomainIntent (AnyMap (withoutIntentDigest d)) = Inr digest \<longrightarrow>
      map_of d ''intent_digest'' = Some (AnyString (EncodeDigest digest)) \<longrightarrow>
      encodeRaw t = Inr t \<and> (\<forall>checksum. VerifyStoredDocument (\<lambda>_. Inr ()) DomainIntent t checksum = Inr d' \<longleftrightarrow> checksum = digest)"
    using verifies(2) decoded unfolding VerifyStoredDocument_iff by blast
  ultimately show ?thesis using c by blast
qed

text \<open>Outside the safe integers the two directions disagree: the encoder writes an integral double above
  the range, the strict decoder refuses its own text.\<close>

lemma unsafe_float_is_sealed_and_refused:
  "Marshal (AnyFloat64 (Finite 10000000000000000)) = Inr ''10000000000000000''
     \<and> encodeRaw ''10000000000000000'' = Inl (Errorf ''canonicaljson: unsafe JSON integer'')"
proof -
  let ?t = "''10000000000000000''" and ?f = "Finite 10000000000000000"
  have m: "Marshal (AnyFloat64 ?f) = Inr ?t" by code_simp
  have f: "float_of_int 10000000000000000 = ?f" by code_simp
  have "ParseFloat ?t = Inr ?f"
    using encodeFloat_text[OF binary64_of_int, of 10000000000000000 ?t] m f by (simp add: Marshal_def)
  moreover have "decimalInteger ?t = Some 10000000000000000" by code_simp
  ultimately have "encodeNumber ?t = Inl (Errorf ''canonicaljson: unsafe JSON integer'')"
    by (simp add: encodeNumber_def checkExactInteger_def is_zero_def maxSafeInteger_def has_prefix_def)
  moreover have "decodeJSON ?t = Inr (AnyNumber ?t)" by code_simp
  ultimately show ?thesis using m by (simp add: encodeRaw_def)
qed

definition command_like :: document where
  "command_like = [(''intent_id'', AnyString ''i1''), (''command_id'', AnyString ''c1''), (''not_before_mono_us'', AnyInt 7)]"

definition command_like_text :: string where
  "command_like_text = ''{'' @ [CHR 0x22] @ ''command_id'' @ [CHR 0x22] @ '':'' @ [CHR 0x22] @ ''c1'' @ [CHR 0x22] @ '','' @ [CHR 0x22] @ ''intent_id'' @ [CHR 0x22] @ '':'' @ [CHR 0x22] @ ''i1'' @ [CHR 0x22] @ '','' @ [CHR 0x22] @ ''not_before_mono_us'' @ [CHR 0x22] @ '':7}''"

lemma command_like_Marshal: "Marshal (AnyMap command_like) = Inr command_like_text"
  by code_simp

lemma ascii_valid: "list_all (\<lambda>c. byte c < 0x80) s \<Longrightarrow> valid_utf8 s"
proof (induction s)
  case (Cons c s)
  then show ?case by (subst valid_utf8.simps) simp
qed (subst valid_utf8.simps, simp)

lemma hex_ascii: "list_all (\<lambda>c. byte c < 0x80) (hex_encode bs)"
proof (induction bs)
  case (Cons c bs)
  have "byte (hex_digit d) < 0x80" if "0 \<le> d" "d < 16" for d :: int
    using that by (auto simp: hex_digit_def)
  moreover have "0 \<le> (of_char c :: int)" "(of_char c :: int) < 256" using of_char_range[of c] by simp_all
  ultimately show ?case using Cons by simp
qed simp

lemma digest_text_encodes: "\<exists>q. encodeString (EncodeDigest (sha256 m)) = Inr q"
proof -
  have "list_all (\<lambda>c. byte c < 0x80) (EncodeDigest (sha256 m))"
    using hex_ascii by (simp add: EncodeDigest_def digestPrefix_def byte_def)
  from ascii_valid[OF this] show ?thesis by (auto simp: encodeString_Inr)
qed

text \<open>An intent that carries the digest of its other fields.\<close>

definition intent_like_sum :: string where
  "intent_like_sum = sha256 (DomainIntent @ command_like_text)"

definition intent_like :: document where
  "intent_like = (''intent_digest'', AnyString (EncodeDigest intent_like_sum)) # command_like"

lemma intent_like_members: "\<not> isl (encodeObject ((''intent_digest'', Inr q) # map (map_prod id encode) command_like))"
  by code_simp

lemma intent_like_Marshal: "\<exists>t. Marshal (AnyMap intent_like) = Inr t"
proof -
  obtain q where "encodeString (EncodeDigest intent_like_sum) = Inr q"
    using digest_text_encodes unfolding intent_like_sum_def by blast
  then have "\<not> isl (Marshal (AnyMap intent_like))"
    using intent_like_members[of q] by (simp add: Marshal_def intent_like_def)
  then show ?thesis by (cases "Marshal (AnyMap intent_like)") auto
qed

theorem stored_document_roundtrip_witness:
  "(\<exists>d'. encodeRaw command_like_text = Inr command_like_text
      \<and> VerifyStoredDocument (\<lambda>_. Inr ()) DomainCommand command_like_text (sha256 (DomainCommand @ command_like_text)) = Inr d')
   \<and> (\<exists>t d'. Marshal (AnyMap intent_like) = Inr t \<and> encodeRaw t = Inr t
      \<and> VerifyStoredDocument (\<lambda>_. Inr ()) DomainIntent t (sha256 (DomainIntent @ command_like_text)) = Inr d')"
proof
  have "Seal DomainCommand (AnyMap command_like) = Inr (command_like_text, sha256 (DomainCommand @ command_like_text))"
    using command_like_Marshal by (simp add: Seal_def DomainCommand_def)
  moreover have "go_value (AnyMap command_like)" "safe_numbers (AnyMap command_like)" "depth (AnyMap command_like) \<le> max_nesting_depth"
    "DomainCommand \<noteq> DomainIntent"
    by (simp_all add: command_like_def max_nesting_depth_def DomainCommand_def DomainIntent_def)
  ultimately show "\<exists>d'. encodeRaw command_like_text = Inr command_like_text
      \<and> VerifyStoredDocument (\<lambda>_. Inr ()) DomainCommand command_like_text (sha256 (DomainCommand @ command_like_text)) = Inr d'"
    using stored_document_roundtrip[of command_like] by blast
next
  have "withoutIntentDigest intent_like = command_like"
    by (simp add: withoutIntentDigest_def intent_like_def command_like_def)
  then have "DigestSum DomainIntent (AnyMap (withoutIntentDigest intent_like)) = Inr intent_like_sum"
    using command_like_Marshal by (simp add: DigestSum_def Seal_def DomainIntent_def intent_like_sum_def)
  moreover have "map_of intent_like ''intent_digest'' = Some (AnyString (EncodeDigest intent_like_sum))"
    by (simp add: intent_like_def)
  moreover have "go_value (AnyMap intent_like)" "safe_numbers (AnyMap intent_like)" "depth (AnyMap intent_like) \<le> max_nesting_depth"
    by (simp_all add: intent_like_def command_like_def max_nesting_depth_def)
  ultimately show "\<exists>t d'. Marshal (AnyMap intent_like) = Inr t \<and> encodeRaw t = Inr t
      \<and> VerifyStoredDocument (\<lambda>_. Inr ()) DomainIntent t (sha256 (DomainIntent @ command_like_text)) = Inr d'"
    using stored_document_roundtrip[of intent_like] intent_like_Marshal unfolding intent_like_sum_def[symmetric] by blast
qed

end
