(* ===== verification/Action_Examples.thy ===== *)
theory Action_Examples
  imports Actions Canonical_Strict
begin

text \<open>
  A complete set of rows that authorizes one command: a command, its intent with an approval, the
  decision, the episode and the situation, with documents that decode and digests that verify. The
  digests stay symbolic, so nothing here evaluates the hash function.
\<close>

section \<open>Documents\<close>

definition demo_command_document :: document where
  "demo_command_document = [(''command_id'', AnyString ''c1''), (''effector_route'', AnyString ''valve.close''),
     (''idempotency_key'', AnyString (''sha256:'' @ replicate 64 CHR ''0'')), (''intent_id'', AnyString ''i1''),
     (''normalized_target'', AnyString ''pump/1''), (''tenant_id'', AnyString ''acme'')]"

definition demo_intent_fields :: "document" where
  "demo_intent_fields = [(''intent_id'', AnyString ''i1''), (''risk_class'', AnyString ''R2''), (''situation_id'', AnyString ''s1''),
     (''situation_version'', AnyInt 1), (''tenant_id'', AnyString ''acme''), (''type'', AnyString ''valve.close'')]"

definition demo_intent_document :: "string \<Rightarrow> document" where
  "demo_intent_document h = (''decision_id'', AnyString ''d1'') # (''intent_digest'', AnyString h) # demo_intent_fields"

definition demo_decision_document :: document where
  "demo_decision_document = [(''decision_id'', AnyString ''d1''), (''episode_id'', AnyString ''e1''), (''situation_id'', AnyString ''s1''),
     (''situation_version'', AnyInt 1)]"

definition sealed_text :: "document \<Rightarrow> string" where
  "sealed_text d = (case Marshal (AnyMap d) of Inr t \<Rightarrow> t | Inl _ \<Rightarrow> [])"

definition demo_intent_sum :: string where
  "demo_intent_sum = sha256 (DomainIntent @ sealed_text ((''decision_id'', AnyString ''d1'') # demo_intent_fields))"

definition demo_intent :: document where
  "demo_intent = demo_intent_document (EncodeDigest demo_intent_sum)"

lemma sealed_text_decodes:
  assumes "go_value (AnyMap d)" "safe_numbers (AnyMap d)" "depth (AnyMap d) \<le> max_nesting_depth" "\<not> isl (Marshal (AnyMap d))"
    "canon (AnyMap d) = AnyMap d'"
  shows "DecodeDocumentJSON (sealed_text d) = Inr d'" "Marshal (AnyMap d') = Inr (sealed_text d)"
proof -
  have m: "Marshal (AnyMap d) = Inr (sealed_text d)"
    using assms(4) by (cases "Marshal (AnyMap d)") (simp_all add: sealed_text_def)
  show "DecodeDocumentJSON (sealed_text d) = Inr d'" "Marshal (AnyMap d') = Inr (sealed_text d)"
    using encodeRaw_canonical[OF assms(1-3) m] Marshal_reads[OF assms(1,3) m] assms(5) by (simp_all add: DecodeDocumentJSON_def)
qed

lemma sealed_text_verifies:
  assumes "Marshal (AnyMap d) = Inr t" "domain \<noteq> []" "domain \<noteq> DomainIntent"
  shows "VerifyDocumentDigest domain d (sha256 (domain @ t))"
  using assms by (simp add: VerifyDocumentDigest_def HasSumLength_def VerifySum_def DigestSum_def Seal_def)

lemma demo_command_stored:
  "VerifyStoredDocument (\<lambda>_. Inr ()) DomainCommand (sealed_text demo_command_document) (sha256 (DomainCommand @ sealed_text demo_command_document)) = Inr demo_command_document"
proof -
  have m: "\<not> isl (Marshal (AnyMap demo_command_document))" by code_simp
  have c: "canon (AnyMap demo_command_document) = AnyMap demo_command_document" by code_simp
  have v: "go_value (AnyMap demo_command_document)" "safe_numbers (AnyMap demo_command_document)" "depth (AnyMap demo_command_document) \<le> max_nesting_depth"
    by (simp_all add: demo_command_document_def max_nesting_depth_def)
  from sealed_text_decodes[OF v m c] sealed_text_verifies[of demo_command_document _ DomainCommand] show ?thesis
    by (simp add: VerifyStoredDocument_iff DomainCommand_def DomainIntent_def)
qed

definition demo_decision_read :: document where
  "demo_decision_read = [(''decision_id'', AnyString ''d1''), (''episode_id'', AnyString ''e1''), (''situation_id'', AnyString ''s1''),
     (''situation_version'', AnyFloat64 (float_of_int 1))]"

lemma demo_decision_stored:
  "VerifyStoredDocument (\<lambda>_. Inr ()) DomainDecision (sealed_text demo_decision_document) (sha256 (DomainDecision @ sealed_text demo_decision_document)) = Inr demo_decision_read"
proof -
  have m: "\<not> isl (Marshal (AnyMap demo_decision_document))" by code_simp
  have c: "canon (AnyMap demo_decision_document) = AnyMap demo_decision_read" by code_simp
  have v: "go_value (AnyMap demo_decision_document)" "safe_numbers (AnyMap demo_decision_document)" "depth (AnyMap demo_decision_document) \<le> max_nesting_depth"
    by (simp_all add: demo_decision_document_def max_nesting_depth_def)
  from sealed_text_decodes[OF v m c] sealed_text_verifies[of demo_decision_read _ DomainDecision] show ?thesis
    by (simp add: VerifyStoredDocument_iff DomainDecision_def DomainIntent_def)
qed

section \<open>The intent and its digest\<close>

definition demo_intent_read :: "string \<Rightarrow> document" where
  "demo_intent_read h = [(''decision_id'', AnyString ''d1''), (''intent_digest'', AnyString h), (''intent_id'', AnyString ''i1''),
     (''risk_class'', AnyString ''R2''), (''situation_id'', AnyString ''s1''), (''situation_version'', AnyFloat64 (float_of_int 1)),
     (''tenant_id'', AnyString ''acme''), (''type'', AnyString ''valve.close'')]"

lemma demo_intent_members:
  "\<not> isl (encodeObject ((''decision_id'', encode (AnyString ''d1'')) # (''intent_digest'', Inr q) # map (map_prod id encode) demo_intent_fields))"
  by code_simp

lemma demo_intent_canon: "canon (AnyMap (demo_intent_document h)) = AnyMap (demo_intent_read h)"
  by code_simp

lemma demo_intent_Marshal: "\<not> isl (Marshal (AnyMap demo_intent))"
proof -
  obtain q where "encodeString (EncodeDigest demo_intent_sum) = Inr q"
    using digest_text_encodes unfolding demo_intent_sum_def by blast
  then show ?thesis
    using demo_intent_members[of q] by (simp add: Marshal_def demo_intent_def demo_intent_document_def)
qed

lemma demo_intent_stored: "VerifyStoredDocument (\<lambda>_. Inr ()) DomainIntent (sealed_text demo_intent) demo_intent_sum = Inr (demo_intent_read (EncodeDigest demo_intent_sum))"
proof -
  let ?h = "EncodeDigest demo_intent_sum"
  let ?d = "(''decision_id'', AnyString ''d1'') # demo_intent_fields"
  have c: "canon (AnyMap demo_intent) = AnyMap (demo_intent_read ?h)" unfolding demo_intent_def by (rule demo_intent_canon)
  have v: "go_value (AnyMap demo_intent)" "safe_numbers (AnyMap demo_intent)" "depth (AnyMap demo_intent) \<le> max_nesting_depth"
    by (simp_all add: demo_intent_def demo_intent_document_def demo_intent_fields_def max_nesting_depth_def)
  have m0: "\<not> isl (Marshal (AnyMap ?d))" by code_simp
  have c0: "canon (AnyMap ?d) = AnyMap (withoutIntentDigest (demo_intent_read ?h))" 
    by (simp add: withoutIntentDigest_def demo_intent_read_def) code_simp
  have v0: "go_value (AnyMap ?d)" "safe_numbers (AnyMap ?d)" "depth (AnyMap ?d) \<le> max_nesting_depth"
    by (simp_all add: demo_intent_fields_def max_nesting_depth_def)
  have without: "Marshal (AnyMap (withoutIntentDigest (demo_intent_read ?h))) = Inr (sealed_text ?d)"
    using sealed_text_decodes(2)[OF v0 m0 c0] .
  then have seal: "Seal DomainIntent (AnyMap (withoutIntentDigest (demo_intent_read ?h))) = Inr (sealed_text ?d, demo_intent_sum)"
    by (simp add: Seal_def demo_intent_sum_def DomainIntent_def)
  have "map_of (demo_intent_read ?h) ''intent_digest'' = Some (AnyString ?h)" "length demo_intent_sum = 32"
    by (simp_all add: demo_intent_read_def) (simp add: demo_intent_sum_def)
  moreover have "Verify DomainIntent (AnyMap (withoutIntentDigest (demo_intent_read ?h))) ?h"
    "VerifySum DomainIntent (AnyMap (withoutIntentDigest (demo_intent_read ?h))) demo_intent_sum"
    using seal by (simp_all add: Verify_def Digest_def DigestSum_def VerifySum_def)
  ultimately have "VerifyDocumentDigest DomainIntent (demo_intent_read ?h) demo_intent_sum"
    by (simp add: VerifyDocumentDigest_def VerifyIntentDigest_def HasSumLength_def)
  then show ?thesis
    using sealed_text_decodes(1)[OF v demo_intent_Marshal c] by (simp add: VerifyStoredDocument_iff)
qed

section \<open>Rows\<close>

definition demo_service :: action_service where
  "demo_service = \<lparr>as_owner = ''node'', as_leaseFor = 60, as_assertOwner = (\<lambda>_. Inr ()), as_commandSchema = (\<lambda>_. Inr ()),
     as_intentSchema = (\<lambda>_. Inr ()), as_decisionSchema = (\<lambda>_. Inr ()), as_outcomeSchema = (\<lambda>_. Inr ()),
     as_binding = (\<lambda>_ _ _ _. Inr ()), as_notify = (\<lambda>_ _. Inr ())\<rparr>"

definition demo_command_row :: "string \<Rightarrow> time \<Rightarrow> command_db_row" where
  "demo_command_row status updated = \<lparr>cm_id = ''c1'', cm_intent = ''i1'', cm_tenant = ''acme'', cm_route = ''valve.close'', cm_target = ''pump/1'',
     cm_idempotency = replicate 32 CHR 0x00, cm_json = sealed_text demo_command_document,
     cm_sha = sha256 (DomainCommand @ sealed_text demo_command_document), cm_status = status, cm_created = 1, cm_updated = updated\<rparr>"

definition demo_intent_row :: intent_db_row where
  "demo_intent_row = \<lparr>nt_id = ''i1'', nt_decision = ''d1'', nt_tenant = ''acme'', nt_situation = ''s1'', nt_version = 1,
     nt_type = ''valve.close'', nt_risk = ''R2'', nt_json = sealed_text demo_intent, nt_sha = demo_intent_sum,
     nt_expires = ReadableTime 1000, nt_policy = ''approved'', nt_requires_approval = True,
     nt_rate_limit = 0, nt_created = ''t0'', nt_updated = ''t0''\<rparr>"

definition demo_decision_row :: decision_db_row where
  "demo_decision_row = \<lparr>dc_id = ''d1'', dc_episode = ''e1'', dc_situation = ''s1'', dc_version = 1, dc_validation = ''accepted'',
     dc_json = sealed_text demo_decision_document, dc_sha = sha256 (DomainDecision @ sealed_text demo_decision_document),
     dc_traceparent = None, dc_tracestate = None\<rparr>"

definition demo_episode_row :: episode_row where
  "demo_episode_row = \<lparr>e_admission = \<lparr>a_EpisodeID = ''e1'', a_SchedulerItemID = ''q1'', a_Kind = KindStandard, a_TenantID = ''acme'',
       a_SituationID = ''s1'', a_SituationVersion = 1, a_ExecutorName = '''', a_ExecutorVersion = '''', a_ModelPolicy = '''', a_PromptVersion = '''',
       a_SnapshotSHA256 = [], a_PromptSHA256 = None, a_ObjectiveSHA256 = None, a_AdmissionKey = [], a_RequestJSON = [], a_DispatchPolicy = '''',
       a_PolicyEpoch = ''''\<rparr>, e_lifecycle = LifecycleConcluded, e_attempt = None, e_fence = 1, e_accepted = 0, e_started = None, e_ended = None,
     e_terminal = None, e_rebinds = 0\<rparr>"

definition demo_approved_row :: approval_row where
  "demo_approved_row = (demo_approval ApprovalApproved)\<lparr>ap_expires := ReadableTime 1000\<rparr>"

text \<open>The database before the command is enqueued.\<close>

definition demo_start :: actions_db where
  "demo_start = \<lparr>db_commands = [], db_outbox = [], db_outcomes = [], db_verifications = [], db_intents = [demo_intent_row],
     db_decisions = [demo_decision_row], db_episodes = [demo_episode_row],
     db_situations = [\<lparr>sm_id = ''s1'', sm_tenant = ''acme'', sm_last_material = 1, sm_current = 1, sm_type = ''leak'', sm_entity = ''pump/1''\<rparr>], db_evaluations = [],
     db_approvals = [demo_approved_row],
     db_interlock = Some \<lparr>il_Status = StatusReady, il_Reason = ''startup'', il_UpdatedAt = ''t0'', il_Version = 1\<rparr>, db_events = [],
     db_versions = [], db_items = [], db_triggers = [], db_counts = [], db_principals = [], db_roles = [], db_memberships = [],
     db_authorities = []\<rparr>"

definition demo_outbox_row :: "string \<Rightarrow> int \<Rightarrow> string option \<Rightarrow> stored_time option \<Rightarrow> outbox_db_row" where
  "demo_outbox_row status attempts owner until = \<lparr>ob_id = 1, ob_kind = ''command'', ob_aggregate = ''c1'', ob_version = 1, ob_status = status,
     ob_attempts = attempts, ob_available = ReadableTime 1, ob_owner = owner, ob_until = until, ob_error = None, ob_delivered = None\<rparr>"

definition demo_queued :: actions_db where
  "demo_queued = demo_start\<lparr>db_commands := [demo_command_row CommandPending 1], db_outbox := [demo_outbox_row OutboxPending 0 None None]\<rparr>"

definition demo_leased_db :: "time \<Rightarrow> actions_db" where
  "demo_leased_db until = demo_start\<lparr>db_commands := [demo_command_row CommandDispatching 2],
     db_outbox := [demo_outbox_row OutboxLeased 1 (Some ''node/l1'') (Some (ReadableTime until))]\<rparr>"

definition demo_leased :: leased_command where
  "demo_leased = \<lparr>lc_OutboxID = 1, lc_Command = document_command (ParseCommandDocument demo_command_document) (bare_command ''c1''),
     lc_LeaseOwner = ''node/l1'', lc_Trace = \<lparr>tc_Traceparent = '''', tc_Tracestate = ''''\<rparr>\<rparr>"

lemma demo_enqueue: "InsertCommand (demo_command_row status 1) demo_start = Inr (True, demo_start\<lparr>db_commands := [demo_command_row CommandPending 1]\<rparr>)"
  "InsertCommandOutbox ''c1'' 1 (demo_start\<lparr>db_commands := [demo_command_row CommandPending 1]\<rparr>) = demo_queued"
  by (simp_all add: InsertCommand_def InsertCommandOutbox_def demo_start_def demo_command_row_def demo_queued_def demo_outbox_row_def next_outbox_id_def)

lemma demo_matches: "command_MatchesLedger (ParseCommandDocument demo_command_document) (command_row_of (demo_command_row status updated))"
proof -
  have "DecodeDigest (''sha256:'' @ replicate 64 CHR ''0'') = Inr (replicate 32 CHR 0x00)" by code_simp
  then show ?thesis
    by (simp add: command_MatchesLedger_def ParseCommandDocument_def demo_command_document_def DocumentString_def command_row_of_def demo_command_row_def)
qed

section \<open>One authorized dispatch\<close>

lemma demo_command_decodes: "DecodeDocument (\<lambda>_. Inr ()) (sealed_text demo_command_document) = Inr demo_command_document"
  "VerifyDocumentDigest DomainCommand demo_command_document (sha256 (DomainCommand @ sealed_text demo_command_document))"
  using demo_command_stored by (simp_all add: VerifyStoredDocument_iff DecodeDocument_def)

definition demo_candidate :: candidate where
  "demo_candidate = \<lparr>ca_OutboxID = 1, ca_OutboxStatus = OutboxPending, ca_Lease = leaseOf None None,
     ca_Command = command_row_of (demo_command_row CommandPending 1), ca_CommandStatus = CommandPending,
     ca_Trace = \<lparr>tc_Traceparent = '''', tc_Tracestate = ''''\<rparr>\<rparr>"

lemma demo_NextCandidate: "NextCandidate 2 demo_queued = Some demo_candidate"
  by (simp add: NextCandidate_def demo_queued_def demo_start_def demo_outbox_row_def demo_command_row_def demo_intent_row_def demo_decision_row_def
      map_filter_def available_by_def claimable_def candidate_of_def decision_trace_def or_empty_def demo_candidate_def command_row_of_def)

lemma demo_admit: "admit_candidate demo_service demo_candidate 2 = decide AcquireLease (demo_leased\<lparr>lc_LeaseOwner := ''''\<rparr>)"
proof -
  have "candidate_document demo_service demo_candidate = Inr (ParseCommandDocument demo_command_document)"
    using demo_command_decodes demo_matches[of CommandPending 1]
    by (simp add: candidate_document_def demo_service_def demo_candidate_def Let_def command_row_of_def demo_command_row_def)
  then show ?thesis
    by (simp add: admit_candidate_def admitCommandDocument_def demo_leased_def Let_def)
       (simp add: demo_candidate_def OutboxPending_def OutboxLeased_def CommandPending_def CommandSucceeded_def CommandOutcomeUnknown_def
        decide_def command_row_of_def demo_command_row_def)
qed

lemma demo_lease: "leaseIn demo_service (''l1'', '''') 2 now2 demo_queued = Inr (Some (demo_leased, True), demo_leased_db 62)"
  by (simp add: leaseIn_def AssertActionOwner_def demo_NextCandidate demo_admit decide_def admit_decision_def acquireLease_def)
     (simp add: demo_service_def demo_leased_def try_AcquireLease_def MarkCommandDispatching_def demo_queued_def demo_leased_db_def demo_start_def
      demo_outbox_row_def demo_command_row_def claimable_def rows_affected_def document_command_def bare_command_def CommandPending_def)

definition demo_records :: authorization_records where
  "demo_records = \<lparr>ar_Command = command_row_of (demo_command_row CommandDispatching 2), ar_Intent = demo_intent_row, ar_IntentExpiresAt = 1000,
     ar_Approval = Some (''a1'', 1000), ar_Decision = demo_decision_row, ar_EpisodeTenant = ''acme'', ar_EpisodeSituation = ''s1'',
     ar_EpisodeVersion = 1, ar_ProducedDecision = True, ar_Situation = \<lparr>sm_id = ''s1'', sm_tenant = ''acme'', sm_last_material = 1, sm_current = 1, sm_type = ''leak'', sm_entity = ''pump/1''\<rparr>\<rparr>"

lemma demo_load: "LoadAuthorizationRecords ''c1'' (demo_leased_db until) = Inr demo_records"
  by (simp add: LoadAuthorizationRecords_def scanAuthorizationRecords_def loadApprovedApproval_def LatestApprovedOfIntent_def latest_decided_def
      demo_leased_db_def demo_start_def demo_command_row_def demo_intent_row_def demo_decision_row_def demo_episode_row_def
      demo_approved_row_def demo_approval_def found_of_def demo_records_def ProducedDecision_def)

lemma demo_checks:
  "VerifiedCommand demo_service demo_records = Inr (ParseCommandDocument demo_command_document)"
  "RequireApprovedIntent demo_records = Inr ()" "CheckApproval demo_records 3 = Inr ()" "RequireCurrent demo_records = Inr ()"
  "CheckIntent demo_service demo_records 3 = Inr ()" "CheckDecision demo_service demo_records = Inr ()"
proof -
  show "VerifiedCommand demo_service demo_records = Inr (ParseCommandDocument demo_command_document)"
    using demo_command_stored demo_matches[of CommandDispatching 2]
    by (simp add: VerifiedCommand_def demo_service_def demo_records_def Let_def) (simp add: command_row_of_def demo_command_row_def)
  show "RequireApprovedIntent demo_records = Inr ()" "CheckApproval demo_records 3 = Inr ()" "RequireCurrent demo_records = Inr ()"
    by (simp_all add: RequireApprovedIntent_def CheckApproval_def checkApprovalRecord_def RequireCurrent_def demo_records_def command_row_of_def
        demo_command_row_def demo_intent_row_def demo_decision_row_def RouteFor_def baseRoute_def riskPolicy_def)
  have one: "float_to_int (float_of_int 1) = 1" by code_simp
  have "intent_MatchesLedger (demo_intent_read h) demo_intent_row" for h
    by (simp add: intent_MatchesLedger_def demo_intent_read_def demo_intent_row_def DocumentString_def DocumentInt_def one)
  then show "CheckIntent demo_service demo_records 3 = Inr ()"
    using demo_intent_stored by (simp add: CheckIntent_def demo_service_def demo_records_def) (simp add: demo_intent_row_def)
  show "CheckDecision demo_service demo_records = Inr ()"
    using demo_decision_stored
    by (simp add: CheckDecision_def demo_service_def demo_records_def demo_decision_row_def demo_intent_row_def)
       (simp add: demo_decision_read_def DocumentString_def DocumentInt_def one)
qed

lemma demo_authorize: "revalidateIn demo_service (\<lambda>_. 3) demo_leased (demo_leased_db 62) = Inr (demo_leased_db 63)"
proof -
  have a: "AssertActionOwner demo_service db = Inr ()" "AssertInterlock (demo_leased_db 62) = Inr ()" for db
    by (simp_all add: AssertActionOwner_def demo_service_def AssertInterlock_def AssertReady_def ReadInterlock_def RequireReady_def demo_leased_db_def demo_start_def wrap_err_def)
  have l: "requireLiveLease demo_leased 3 (demo_leased_db 62) = Inr ()" "refreshLease demo_service demo_leased 3 (demo_leased_db 62) = Inr (demo_leased_db 63)"
    by (simp_all add: requireLiveLease_def LeaseIsLive_def refreshLease_def live_lease_row_def rows_affected_def demo_leased_def demo_leased_db_def
        demo_outbox_row_def demo_service_def lease_lapsed_def Let_def)
  have i: "ac_CommandID (lc_Command demo_leased) = ''c1''" by (simp add: demo_leased_def document_command_def bare_command_def)
  have p: "checkPolicyDigest (ParseCommandDocument demo_command_document) k db = Inr ()" for k db
    by (simp add: checkPolicyDigest_def ParseCommandDocument_def demo_command_document_def DocumentString_def)
  show ?thesis
    by (simp add: revalidateIn_def authorizeCurrentCommand_def authorizeCurrentDocuments_def a l i p demo_load demo_checks)
qed

end
