(* ===== verification/Policy_Examples.thy ===== *)
theory Policy_Examples
  imports Policy Action_Examples
begin

text \<open>
  One approval and the command it releases: an intent of class R2 waits for an approval, an authorized
  principal approves it through a relay, and the evaluation that follows queues the command. The rows of
  the intent, the decision, the episode and the situation are those of \<open>Action_Examples\<close>, and the
  digests stay symbolic here too.
\<close>

section \<open>The rows\<close>

definition demo_policy :: policy_service where
  "demo_policy = \<lparr>ps_policyVersion = ''v1'', ps_policyDigest = ''sha256:p'', ps_ownerEpoch = ''node'', ps_runtimeOwner = (\<lambda>_ _. Inr ()),
     ps_decisionEpoch = (\<lambda>_ _. Inr ()), ps_decisionSchema = (\<lambda>_. Inr ()), ps_intentSchema = (\<lambda>_. Inr ()), ps_notify = (\<lambda>_ _. Inr ()),
     ps_verify = (\<lambda>key m signature. key = replicate 32 CHR ''k'' \<and> signature = ''signed'')\<rparr>"

definition demo_ids :: policy_ids where
  "demo_ids = \<lparr>id_Command = ''c1'', id_Approval = ''a2'', id_Policy = ''p1''\<rparr>"

definition demo_resolution :: approval_resolution where
  "demo_resolution = \<lparr>rq_TenantID = ''acme'', rq_ID = ''a1'', rq_Approved = True, rq_Approver = ''ada'', rq_Relay = ''relay'',
     rq_Signature = ''signed'', rq_Reason = ''ok'', rq_Now = 3\<rparr>"

definition demo_pending_row :: approval_row where
  "demo_pending_row = (demo_approval ApprovalPending)\<lparr>ap_expires := ReadableTime 1000, ap_decided := None, ap_approver := None, ap_relay := None,
     ap_reason := None\<rparr>"

definition demo_version_row :: version_db_row where
  "demo_version_row = \<lparr>vr_situation = ''s1'', vr_version = 1, vr_completeness = ''on_time'', vr_horizon = ReadableTime 0, vr_snapshot_sha = ''''\<rparr>"

definition demo_governed :: actions_db where
  "demo_governed = demo_start\<lparr>db_intents := [demo_intent_row\<lparr>nt_policy := ''approval_required'', nt_rate_limit := 1\<rparr>],
     db_approvals := [demo_pending_row], db_versions := [demo_version_row],
     db_principals := [\<lparr>pn_id = ''ada'', pn_tenant = ''acme'', pn_status = ''active'', pn_key = Some (replicate 32 CHR ''k''), pn_created = ''t0''\<rparr>,
       \<lparr>pn_id = ''relay'', pn_tenant = ''acme'', pn_status = ''active'', pn_key = None, pn_created = ''t0''\<rparr>],
     db_memberships := [(''ada'', ''operators'')],
     db_authorities := [\<lparr>au_tenant = ''acme'', au_entity = ''pump/1'', au_risk = ''R2'', au_role = ''operators''\<rparr>]\<rparr>"

lemma demo_policy_fields:
  "ps_runtimeOwner demo_policy epoch db = Inr ()" "ps_decisionEpoch demo_policy epoch db = Inr ()" "ps_notify demo_policy ev db = Inr ()"
  by (simp_all add: demo_policy_def)

section \<open>The intent\<close>

definition demo_record :: "string \<Rightarrow> intent_record" where
  "demo_record status = intent_record_of (demo_intent_row\<lparr>nt_policy := status, nt_rate_limit := 1\<rparr>) demo_decision_row demo_episode_row
     \<lparr>sm_id = ''s1'', sm_tenant = ''acme'', sm_last_material = 1, sm_current = 1, sm_type = ''leak'', sm_entity = ''pump/1''\<rparr> ''on_time'' 0"

definition demo_approving :: "string \<Rightarrow> string \<Rightarrow> approval_row list \<Rightarrow> actions_db" where
  "demo_approving status updated rows = demo_governed\<lparr>db_intents := [demo_intent_row\<lparr>nt_policy := status, nt_rate_limit := 1, nt_updated := updated\<rparr>],
     db_approvals := rows\<rparr>"

lemmas demo_rows = demo_start_def demo_governed_def demo_approving_def demo_intent_row_def demo_decision_row_def demo_episode_row_def
  demo_version_row_def demo_pending_row_def demo_approval_def

lemma demo_LoadIntent: "LoadIntent ''i1'' (demo_approving status updated rows\<lparr>db_events := evs\<rparr>) = Inr (demo_record status)"
  by (simp add: LoadIntent_def scanPolicyIntent_def first_version_def demo_rows demo_record_def intent_record_of_def)

lemma demo_record_fields [simp]:
  "ir_IntentID (demo_record st) = ''i1''" "ir_DecisionID (demo_record st) = ''d1''" "ir_TenantID (demo_record st) = ''acme''"
  "ir_SituationID (demo_record st) = ''s1''" "ir_SituationVersion (demo_record st) = 1" "ir_IntentType (demo_record st) = ''valve.close''"
  "ir_RiskClass (demo_record st) = ''R2''" "ir_PolicyStatus (demo_record st) = st" "ir_RateLimitPerHour (demo_record st) = 1"
  "ir_EventHorizon (demo_record st) = 0" "ir_ExpiresAt (demo_record st) = 1000" "ir_CurrentSituation (demo_record st) = 1"
  "ir_IntentSHA (demo_record st) = demo_intent_sum" "ir_DecisionSHA (demo_record st) = sha256 (DomainDecision @ sealed_text demo_decision_document)"
  by (simp_all add: demo_record_def intent_record_of_def demo_intent_row_def demo_decision_row_def)

lemma demo_sums [simp]: "length demo_intent_sum = 32"
  by (simp add: demo_intent_sum_def)

lemma demo_rank: "Rank ''R2'' \<noteq> 0"
  by code_simp

lemma demo_fresh: "FreshnessFailure (demo_record st) 3 = ('''', '''', 1000)" "RiskRoute (demo_record st) = (RouteApproval, '''')"
  "\<not> MateriallySuperseded (demo_record st)"
  using demo_rank by (simp_all add: FreshnessFailure_def MateriallySuperseded_def SourceHealthIncomplete_def expiryFailure_def)
     (simp_all add: demo_record_def intent_record_of_def demo_rows ProducedDecision_def RiskRoute_def denialReason_def RouteFor_def
      baseRoute_def riskPolicy_def risk_Valid_def)

lemma demo_documents:
  "ParseGovernanceDocuments demo_policy (demo_record st) = Inr (projectDecision demo_decision_read, ProjectIntent (demo_intent_read (EncodeDigest demo_intent_sum)))"
proof -
  have one: "float_to_int (float_of_int 1) = 1" by code_simp
  have d: "DecodeDocument (\<lambda>_. Inr ()) (sealed_text demo_decision_document) = Inr demo_decision_read"
    "VerifyDocumentDigest DomainDecision demo_decision_read (sha256 (DomainDecision @ sealed_text demo_decision_document))"
    using demo_decision_stored by (simp_all add: VerifyStoredDocument_iff DecodeDocument_def)
  have i: "DecodeDocument (\<lambda>_. Inr ()) (sealed_text demo_intent) = Inr (demo_intent_read (EncodeDigest demo_intent_sum))"
    "VerifyDocumentDigest DomainIntent (demo_intent_read (EncodeDigest demo_intent_sum)) demo_intent_sum"
    using demo_intent_stored by (simp_all add: VerifyStoredDocument_iff DecodeDocument_def)
  have m: "MatchesDecisionIdentity (demo_record st) (projectDecision demo_decision_read)"
    by (simp add: MatchesDecisionIdentity_def projectDecision_def demo_decision_read_def DocumentString_def DocumentInt_def one)
       (simp add: demo_record_def intent_record_of_def demo_rows)
  have s: "ir_ValidationStatus (demo_record st) = ''accepted''" "ir_DecisionJSON (demo_record st) = sealed_text demo_decision_document"
    "ir_IntentJSON (demo_record st) = sealed_text demo_intent" "ps_decisionSchema demo_policy = (\<lambda>_. Inr ())" "ps_intentSchema demo_policy = (\<lambda>_. Inr ())"
    by (simp_all add: demo_record_def intent_record_of_def demo_rows demo_policy_def)
  show ?thesis
    by (simp add: ParseGovernanceDocuments_def ParseDecision_def ParseIntent_def governance_DecodeDocument_def s d i m)
qed

lemma demo_identity: "validatePendingIdentity (e\<lparr>ev_row := demo_record st, ev_intent := ProjectIntent (demo_intent_read h)\<rparr>) db = ''''"
proof -
  have one: "float_to_int (float_of_int 1) = 1" by code_simp
  show ?thesis
    by (simp add: validatePendingIdentity_def compensation_reason_def MatchesIntentIdentity_def ProjectIntent_def demo_intent_read_def
        DocumentString_def DocumentInt_def one)
qed

section \<open>The command\<close>

definition demo_released_fields :: document where
  "demo_released_fields = [(''status'', AnyString ''prepared''), (''not_before_mono_us'', AnyInt 0), (''policy_digest'', AnyString ''sha256:p''),
     (''payload'', AnyMap []), (''created_at'', AnyString (FormatTime 3))]"

definition demo_released_document :: "string \<Rightarrow> document" where
  "demo_released_document h = [(''command_id'', AnyString ''c1''), (''intent_id'', AnyString ''i1''), (''tenant_id'', AnyString ''acme''),
     (''effector_route'', AnyString ''valve.close''), (''normalized_target'', AnyString ''i1''), (''idempotency_key'', AnyString h)]
     @ demo_released_fields"

definition demo_key :: string where
  "demo_key = sha256 ''acme|i1|valve.close|i1''"

definition demo_released :: document where
  "demo_released = demo_released_document (EncodeDigest demo_key)"

definition demo_released_read :: "string \<Rightarrow> document" where
  "demo_released_read h = [(''command_id'', AnyString ''c1''), (''created_at'', AnyString (FormatTime 3)), (''effector_route'', AnyString ''valve.close''),
     (''idempotency_key'', AnyString h), (''intent_id'', AnyString ''i1''), (''normalized_target'', AnyString ''i1''),
     (''not_before_mono_us'', AnyFloat64 (float_of_int 0)), (''payload'', AnyMap []), (''policy_digest'', AnyString ''sha256:p''),
     (''status'', AnyString ''prepared''), (''tenant_id'', AnyString ''acme'')]"

lemma demo_released_members:
  "\<not> isl (encodeObject ([(''command_id'', encode (AnyString ''c1'')), (''intent_id'', encode (AnyString ''i1'')), (''tenant_id'', encode (AnyString ''acme'')),
     (''effector_route'', encode (AnyString ''valve.close'')), (''normalized_target'', encode (AnyString ''i1'')), (''idempotency_key'', Inr q)]
     @ map (map_prod id encode) demo_released_fields))"
  by code_simp

lemma demo_released_canon: "canon (AnyMap (demo_released_document h)) = AnyMap (demo_released_read h)"
  by code_simp

lemma demo_released_Marshal: "\<not> isl (Marshal (AnyMap demo_released))"
proof -
  obtain q where "encodeString (EncodeDigest demo_key) = Inr q"
    using digest_text_encodes unfolding demo_key_def by blast
  then show ?thesis
    using demo_released_members[of q] by (simp add: Marshal_def demo_released_def demo_released_document_def)
qed

lemma demo_released_decodes:
  "DecodeDocument (\<lambda>_. Inr ()) (sealed_text demo_released) = Inr (demo_released_read (EncodeDigest demo_key))"
  "VerifyDocumentDigest DomainCommand (demo_released_read (EncodeDigest demo_key)) (sha256 (DomainCommand @ sealed_text demo_released))"
proof -
  have c: "canon (AnyMap demo_released) = AnyMap (demo_released_read (EncodeDigest demo_key))"
    unfolding demo_released_def by (rule demo_released_canon)
  have v: "go_value (AnyMap demo_released)" "safe_numbers (AnyMap demo_released)" "depth (AnyMap demo_released) \<le> max_nesting_depth"
    by (simp_all add: demo_released_def demo_released_document_def demo_released_fields_def max_nesting_depth_def)
  note t = sealed_text_decodes[OF v demo_released_Marshal c]
  show "DecodeDocument (\<lambda>_. Inr ()) (sealed_text demo_released) = Inr (demo_released_read (EncodeDigest demo_key))"
    using t(1) by (simp add: DecodeDocument_def)
  show "VerifyDocumentDigest DomainCommand (demo_released_read (EncodeDigest demo_key)) (sha256 (DomainCommand @ sealed_text demo_released))"
    using sealed_text_verifies[OF t(2), of DomainCommand] by (simp add: DomainCommand_def DomainIntent_def)
qed

definition demo_prepared :: command_record where
  "demo_prepared = \<lparr>cc_ID = ''c1'', cc_JSON = sealed_text demo_released, cc_SHA = sha256 (DomainCommand @ sealed_text demo_released),
     cc_Key = demo_key, cc_Target = ''i1''\<rparr>"

lemma demo_NewCommand:
  "NewCommand ''c1'' ''sha256:p'' (demo_record st) (ProjectIntent (demo_intent_read h)) 3 = Inr demo_prepared"
proof -
  have p: "parameters_of (ProjectIntent (demo_intent_read h)) = []"
    by (simp add: parameters_of_def ProjectIntent_def demo_intent_read_def)
  have seal: "Seal DomainCommand (AnyMap demo_released) = Inr (sealed_text demo_released, sha256 (DomainCommand @ sealed_text demo_released))"
    using demo_released_Marshal by (cases "Marshal (AnyMap demo_released)") (simp_all add: Seal_def sealed_text_def DomainCommand_def)
  have "NewCommand ''c1'' ''sha256:p'' (demo_record st) (ProjectIntent (demo_intent_read h)) 3 = sealCommand demo_released ''c1'' ''i1'' demo_key"
    by (simp add: NewCommand_def p NormalizedTarget_def demo_released_def demo_released_document_def demo_released_fields_def demo_key_def Sum_def Let_def)
  then show ?thesis
    using seal by (simp add: sealCommand_def demo_prepared_def wrap_err_def)
qed

section \<open>The evaluation\<close>

text \<open>The approved row, and the database after the evaluation.\<close>

definition demo_granted_row :: "string \<Rightarrow> approval_row" where
  "demo_granted_row digest = demo_pending_row\<lparr>ap_assertion := Some digest, ap_status := ApprovalApproved, ap_decided := Some (FormatTime 3),
     ap_approver := Some ''ada'', ap_relay := Some ''relay'', ap_reason := Some ''ok''\<rparr>"

definition demo_evaluation_row :: evaluation_db_row where
  "demo_evaluation_row = \<lparr>pe_id = ''p1'', pe_intent = ''i1'', pe_decision = ''d1'', pe_policy_version = ''v1'', pe_result = ''approved'',
     pe_digest = ''sha256:p'', pe_intent_sha = demo_intent_sum, pe_decision_sha = sha256 (DomainDecision @ sealed_text demo_decision_document),
     pe_command = Some ''c1'', pe_approval = Some ''a1'', pe_reason = ''approved_by_human'', pe_situation_version = 1, pe_evaluated = 3\<rparr>"

definition demo_released_row :: "string \<Rightarrow> time \<Rightarrow> command_db_row" where
  "demo_released_row status updated = (policy_command_row (demo_record ''pending'') demo_prepared 3)\<lparr>cm_status := status, cm_updated := updated\<rparr>"

definition demo_released_outbox :: "string \<Rightarrow> int \<Rightarrow> string option \<Rightarrow> stored_time option \<Rightarrow> outbox_db_row" where
  "demo_released_outbox status attempts owner until = (demo_outbox_row status attempts owner until)\<lparr>ob_available := ReadableTime 3\<rparr>"

definition demo_hour :: "string \<times> string \<times> string" where
  "demo_hour = (''acme'', ''valve.close'', hour_bucket 0)"

definition demo_commanded :: "string \<Rightarrow> action_event list \<Rightarrow> actions_db" where
  "demo_commanded digest evs = (demo_approving ''approved'' (FormatTime 3) [demo_granted_row digest])\<lparr>db_events := evs,
     db_commands := [demo_released_row CommandPending 3], db_outbox := [demo_released_outbox OutboxPending 0 None None],
     db_counts := [(demo_hour, 1)], db_evaluations := [demo_evaluation_row]\<rparr>"

definition demo_outcome :: policy_result where
  "demo_outcome = \<lparr>re_IntentID = ''i1'', re_DecisionID = ''d1'', re_Result = ''approved'', re_Reason = ''approved_by_human'', re_CommandID = ''c1'',
     re_ApprovalID = ''a1''\<rparr>"

lemma demo_tables [simp]:
  "db_commands (demo_approving st u rows) = []" "db_outbox (demo_approving st u rows) = []" "db_counts (demo_approving st u rows) = []"
  "db_evaluations (demo_approving st u rows) = []" "db_approvals (demo_approving st u rows) = rows" "db_events (demo_approving st u rows) = []"
  "db_intents (demo_approving st u rows) = [demo_intent_row\<lparr>nt_policy := st, nt_rate_limit := 1, nt_updated := u\<rparr>]"
  "db_decisions (demo_approving st u rows) = [demo_decision_row]"
  "AssertReady (db_interlock (demo_approving st u rows)) = Inr ()"
  by (simp_all add: demo_approving_def demo_governed_def demo_start_def AssertReady_def ReadInterlock_def RequireReady_def)

lemma demo_queue:
  assumes "ev_row e = demo_record st" "ev_now e = 3" "re_Reason (ev_result e) = ''approved_by_human''" "re_ApprovalID (ev_result e) = ''a1''"
    "re_IntentID (ev_result e) = ''i1''" "re_DecisionID (ev_result e) = ''d1''" "ev_intent e = ProjectIntent (demo_intent_read h)"
  shows "approveAutomatic demo_policy demo_ids e (demo_approving ''pending'' (FormatTime 3) [demo_granted_row digest]\<lparr>db_events := evs\<rparr>)
    = Inr (demo_outcome, demo_commanded digest evs)"
proof -
  let ?db = "demo_approving ''pending'' (FormatTime 3) [demo_granted_row digest]\<lparr>db_events := evs\<rparr>"
  have key: "dispatch_key (demo_record st) = demo_hour" by (simp add: dispatch_key_def demo_hour_def)
  have row: "policy_command_row (demo_record st) demo_prepared 3\<lparr>cm_status := CommandPending\<rparr> = demo_released_row CommandPending 3"
    "length (cm_idempotency (policy_command_row (demo_record st) demo_prepared 3)) = 32" "length (cm_sha (policy_command_row (demo_record st) demo_prepared 3)) = 32"
    by (simp_all add: policy_command_row_def demo_released_row_def demo_prepared_def demo_key_def)
  have c: "commandForIntent demo_policy demo_ids e ?db = Inr ((demo_prepared, ''''), ?db\<lparr>db_commands := [demo_released_row CommandPending 3]\<rparr>)"
    using assms demo_NewCommand
    by (simp add: commandForIntent_def ExistingCommandID_def demo_ids_def demo_policy_def StoreCommandOnce_def InsertCommand_def row)
  have limit: "rateLimited e ''c1'' (?db\<lparr>db_commands := [demo_released_row CommandPending 3]\<rparr>)
      = Inr (False, ?db\<lparr>db_commands := [demo_released_row CommandPending 3], db_counts := [(demo_hour, 1)]\<rparr>)"
    using assms by (simp add: rateLimited_def DispatchWithinLimit_def key)
  let ?queued = "?db\<lparr>db_commands := [demo_released_row CommandPending 3], db_counts := [(demo_hour, 1)]\<rparr>"
  have stored: "SetIntentStatus ''i1'' ''approved'' 3 (InsertCommandOutbox ''c1'' 3 ?queued) = demo_commanded digest evs\<lparr>db_evaluations := []\<rparr>"
    by (simp add: SetIntentStatus_def InsertCommandOutbox_def sql_update_def next_outbox_id_def demo_commanded_def demo_approving_def
        demo_released_outbox_def demo_outbox_row_def demo_governed_def demo_start_def demo_intent_row_def)
  have recorded: "RecordEvaluation demo_evaluation_row (demo_commanded digest evs\<lparr>db_evaluations := []\<rparr>) = Inr (demo_commanded digest evs)"
    by (simp add: RecordEvaluation_def demo_evaluation_row_def evaluation_results_def demo_commanded_def demo_intent_row_def demo_decision_row_def
        demo_released_row_def policy_command_row_def demo_prepared_def demo_granted_row_def demo_pending_row_def demo_approval_def)
  have result: "(ev_result e)\<lparr>re_CommandID := ''c1'', re_Result := ''approved'', re_Reason := ''approved_by_human''\<rparr> = demo_outcome"
    using assms(3-6) by (cases "ev_result e") (simp add: demo_outcome_def)
  have row': "audit_row demo_policy ''p1'' (e\<lparr>ev_result := x\<rparr>) demo_outcome ''approved_by_human'' = demo_evaluation_row" for x
    using assms(1,2) by (simp add: audit_row_def demo_policy_def demo_outcome_def demo_evaluation_row_def null_if_empty_def)
  have q: "queueApprovedCommand demo_policy demo_ids e demo_prepared ?queued = Inr (demo_outcome, demo_commanded digest evs)"
    using assms(1-3) stored recorded
    by (simp add: queueApprovedCommand_def audit_def outcome_of_def AuditReason_def result row' demo_prepared_def demo_ids_def)
  show ?thesis
    using assms limit q by (simp add: approveAutomatic_def c approvePreparedCommand_def demo_prepared_def)
qed

lemma demo_evaluate:
  "EvaluateIntent demo_policy demo_ids ''i1'' 3 (demo_approving ''pending'' (FormatTime 3) [demo_granted_row digest]\<lparr>db_events := evs\<rparr>)
    = Inr (demo_outcome, demo_commanded digest evs)"
proof -
  let ?db = "demo_approving ''pending'' (FormatTime 3) [demo_granted_row digest]\<lparr>db_events := evs\<rparr>"
  let ?r = "demo_record ''pending''"
  let ?e = "newEvaluation ?r 3\<lparr>ev_decision := projectDecision demo_decision_read, ev_intent := ProjectIntent (demo_intent_read (EncodeDigest demo_intent_sum))\<rparr>"
  have ev: "ev_row (newEvaluation ?r 3) = ?r" "ev_now (newEvaluation ?r 3) = 3" "re_IntentID (ev_result (newEvaluation ?r 3)) = ''i1''"
    "re_DecisionID (ev_result (newEvaluation ?r 3)) = ''d1''"
    by (simp_all add: newEvaluation_def)
  have found: "ApprovedApproval ''i1'' ?db = ''a1''"
    by (simp add: ApprovedApproval_def LatestApprovedOfIntent_def latest_decided_def found_of_def demo_granted_row_def demo_pending_row_def demo_approval_def)
  have identity: "validatePendingIdentity ?e ?db = ''''"
    using demo_identity[where e = ?e and st = "''pending''" and h = "EncodeDigest demo_intent_sum" and db = ?db] by (simp add: newEvaluation_def)
  have "approveAutomatic demo_policy demo_ids (?e\<lparr>ev_expiresAt := 1000, ev_result := (ev_result ?e)\<lparr>re_ApprovalID := ''a1'', re_Reason := ''approved_by_human''\<rparr>\<rparr>) ?db
      = Inr (demo_outcome, demo_commanded digest evs)"
    by (rule demo_queue[where st = "''pending''"]) (simp_all add: newEvaluation_def)
  then have pending: "evaluatePending demo_policy demo_ids (newEvaluation ?r 3) ?db = Inr (demo_outcome, demo_commanded digest evs)"
    by (simp add: evaluatePending_def ev demo_documents identity[simplified] evaluateFreshPending_def demo_fresh routeIntent_def approveOrRequireApproval_def
        found[simplified] Let_def)
  show ?thesis
    by (simp add: EvaluateIntent_def policy_assertOwner_def demo_LoadIntent evaluateLoaded_def ev pending demo_policy_fields)
qed

section \<open>The approval\<close>

definition demo_assertion :: approval_assertion where
  "demo_assertion = assertionFor (demo_record ''approval_required'') demo_resolution 1000 ''n1''"

definition demo_bytes :: string where
  "demo_bytes = (case ApprovalAssertionSigningBytes demo_assertion of Inr b \<Rightarrow> b | Inl _ \<Rightarrow> [])"

lemma demo_assertion_members:
  "\<not> isl (encodeObject ([(''approval_id'', encode (AnyString ''a1'')), (''intent_id'', encode (AnyString ''i1'')), (''decision_id'', encode (AnyString ''d1'')),
      (''tenant_id'', encode (AnyString ''acme'')), (''situation_id'', encode (AnyString ''s1'')),
      (''situation_version'', encode (AnyInt 1)), (''risk_class'', encode (AnyString ''R2'')),
      (''intent_digest'', Inr q1), (''decision_digest'', Inr q2),
      (''expires_at'', encode (AnyString (FormatTime 1000))), (''nonce'', encode (AnyString ''n1'')),
      (''approver_id'', encode (AnyString ''ada'')), (''relay_id'', encode (AnyString ''relay'')), (''approved'', encode (AnyBool True))]))"
  by code_simp

lemma demo_signing: "ApprovalAssertionSigningBytes demo_assertion = Inr demo_bytes"
proof -
  obtain q1 q2 where "encodeString (EncodeDigest demo_intent_sum) = Inr q1"
    "encodeString (EncodeDigest (sha256 (DomainDecision @ sealed_text demo_decision_document))) = Inr q2"
    using digest_text_encodes unfolding demo_intent_sum_def by blast
  then have "\<not> isl (Marshal (assertion_document demo_assertion))"
    using demo_assertion_members[of q1 q2]
    by (simp add: Marshal_def assertion_document_def demo_assertion_def assertionFor_def demo_resolution_def)
  then have "\<not> isl (ApprovalAssertionSigningBytes demo_assertion)"
    by (cases "Marshal (assertion_document demo_assertion)") (simp_all add: ApprovalAssertionSigningBytes_def canonicalApprovalAssertion_def wrap_err_def)
  then show ?thesis by (cases "ApprovalAssertionSigningBytes demo_assertion") (simp_all add: demo_bytes_def)
qed

definition demo_resolved_event :: action_event where
  "demo_resolved_event = ApprovalResolvedEvent \<lparr>av_TenantID = ''acme'', av_ApprovalID = ''a1'', av_IntentID = ''i1'', av_DecisionID = ''d1'',
     av_SituationID = ''s1'', av_SituationVersion = 1, av_Status = ''approved'', av_Reason = ''ok'', av_At = 3,
     av_Trace = ir_Trace (demo_record ''approval_required'')\<rparr>"

lemma demo_authorizeApproval:
  "authorizeApproval demo_policy (demo_record ''approval_required'') demo_resolution (demo_approving ''approval_required'' ''t0'' [demo_pending_row])
    = Inr (demo_approving ''approval_required'' ''t0'' [demo_pending_row\<lparr>ap_assertion := Some (sha256 demo_bytes)\<rparr>])"
proof -
  let ?db = "demo_approving ''approval_required'' ''t0'' [demo_pending_row]"
  let ?db1 = "demo_approving ''approval_required'' ''t0'' [demo_pending_row\<lparr>ap_assertion := Some (sha256 demo_bytes)\<rparr>]"
  have principals: "loadApprovalPrincipals (demo_record ''approval_required'') demo_resolution ?db = Inr (''pump/1'', replicate 32 CHR ''k'')"
    by (simp add: loadApprovalPrincipals_def ApprovalEntity_def activeRelayAndKey_def ActiveRelay_def RelayActivity_def ApproverKey_def ValidApproverKey_def
        active_principal_def demo_resolution_def or_empty_def PublicKeySize_def)
       (simp add: demo_approving_def demo_governed_def demo_start_def active_principal_def PublicKeySize_def or_empty_def)
  have binding: "AssertionBinding ''a1'' ?db = Inr (1000, ''n1'')"
    by (simp add: AssertionBinding_def PendingBinding_def is_pending_def demo_pending_row_def demo_approval_def)
  have bytes: "approvalSigningBytes (demo_record ''approval_required'') demo_resolution ?db = Inr demo_bytes"
    using binding demo_signing by (simp add: approvalSigningBytes_def demo_assertion_def demo_resolution_def)
  have verified: "VerifyAssertion demo_policy (replicate 32 CHR ''k'') demo_bytes ''signed'' = Inr (sha256 demo_bytes)"
    by (simp add: VerifyAssertion_def PublicKeySize_def demo_policy_def Sum_def)
  have bound: "?db\<lparr>db_approvals := BindAssertion ''a1'' (sha256 demo_bytes) [demo_pending_row]\<rparr> = ?db1"
    by (simp add: BindAssertion_def BindAssertionDigest_def sql_update_def is_pending_def demo_approving_def demo_pending_row_def demo_approval_def)
  have authority: "ApprovalAuthority (demo_record ''approval_required'') ''pump/1'' ''ada'' ?db1 = 1"
    by (simp add: ApprovalAuthority_def active_authorities_def demo_approving_def demo_governed_def demo_start_def active_principal_def)
  have r: "rq_Approver demo_resolution = ''ada''" "rq_Relay demo_resolution = ''relay''" "rq_ID demo_resolution = ''a1''" "rq_Signature demo_resolution = ''signed''"
    by (simp_all add: demo_resolution_def)
  show ?thesis
    by (simp add: authorizeApproval_def DistinctPrincipals_def r principals verifyApprovalAssertion_def bytes verified bound authority AuthorizedApprover_def)
qed

lemma demo_governed_approving: "demo_governed = demo_approving ''approval_required'' ''t0'' [demo_pending_row]"
  by (simp add: demo_approving_def demo_governed_def demo_intent_row_def)

lemma demo_governed_LoadIntent: "LoadIntent ''i1'' demo_governed = Inr (demo_record ''approval_required'')"
proof -
  have "demo_approving ''approval_required'' ''t0'' [demo_pending_row]\<lparr>db_events := []\<rparr> = demo_governed"
    by (simp add: demo_approving_def demo_governed_def demo_start_def demo_intent_row_def)
  then show ?thesis using demo_LoadIntent by metis
qed

lemma demo_resolve:
  "policy_ResolveApproval demo_policy demo_ids demo_resolution demo_governed = Inr (demo_outcome, demo_commanded (sha256 demo_bytes) [demo_resolved_event])"
proof -
  let ?db = "demo_approving ''approval_required'' ''t0'' [demo_pending_row]"
  let ?db1 = "demo_approving ''approval_required'' ''t0'' [demo_pending_row\<lparr>ap_assertion := Some (sha256 demo_bytes)\<rparr>]"
  let ?row = "demo_record ''approval_required''"
  have r: "rq_ID demo_resolution = ''a1''" "rq_TenantID demo_resolution = ''acme''" "rq_Now demo_resolution = 3" "rq_Approved demo_resolution"
    "rq_Approver demo_resolution = ''ada''" "rq_Relay demo_resolution = ''relay''" "rq_Reason demo_resolution = ''ok''"
    by (simp_all add: demo_resolution_def)
  let ?a = "\<lparr>ay_IntentID = ''i1'', ay_Status = ApprovalPending, ay_ExpiresAt = 1000, ay_JSON = ''{}''\<rparr>"
  have a: "LoadApproval ''a1'' ''acme'' ?db = Inr ?a"
    by (simp add: LoadApproval_def demo_pending_row_def demo_approval_def demo_intent_row_def)
  have i: "LoadIntent ''i1'' ?db = Inr ?row" using demo_governed_LoadIntent by (simp add: demo_governed_approving)
  have d: "ApprovalDisposition ?row ?a demo_resolution = DispositionAuthorize"
    by (simp add: ApprovalDisposition_def demo_fresh r ApprovalPending_def)
  have decided: "ledger_result op (ResolveApproval ''a1'' ''approved'' ''ada'' ''relay'' ''ok'' (FormatTime 3) (db_approvals ?db1)) ?db1
      = Inr (demo_approving ''approval_required'' ''t0'' [demo_granted_row (sha256 demo_bytes)])" for op
    by (simp add: ledger_result_def ResolveApproval_def DecidePending_def sql_update_def is_pending_def ApprovalApproved_def ApprovalPending_def
        demo_granted_row_def demo_pending_row_def demo_approval_def demo_approving_def)
  have status: "SetIntentStatus ''i1'' ''pending'' 3 (demo_approving ''approval_required'' ''t0'' rows) = demo_approving ''pending'' (FormatTime 3) rows" for rows
    by (simp add: SetIntentStatus_def sql_update_def demo_approving_def demo_intent_row_def)
  have recorded: "recordApprovalResolution demo_policy ?row demo_resolution ?db1
      = Inr (demo_approving ''pending'' (FormatTime 3) [demo_granted_row (sha256 demo_bytes)]\<lparr>db_events := [demo_resolved_event]\<rparr>)"
    using decided by (simp add: recordApprovalResolution_def ApprovalDecision_def r status AppendApprovalResolved_def appendLifecycle_def demo_policy_fields
        demo_resolved_event_def)
  show ?thesis
    using demo_evaluate demo_authorizeApproval recorded
    by (simp add: policy_ResolveApproval_def policy_assertOwner_def demo_policy_fields demo_governed_approving r a i resolvePendingApproval_def
        d newEvaluation_def resolveAuthorizedApproval_def)
qed

section \<open>The dispatch\<close>

definition demo_dispatched :: "string \<Rightarrow> time \<Rightarrow> outbox_db_row \<Rightarrow> actions_db" where
  "demo_dispatched status updated row = (demo_commanded (sha256 demo_bytes) [demo_resolved_event])\<lparr>db_commands := [demo_released_row status updated],
     db_outbox := [row]\<rparr>"

definition demo_working :: "time \<Rightarrow> actions_db" where
  "demo_working until = demo_dispatched CommandDispatching 4 (demo_released_outbox OutboxLeased 1 (Some ''node/l1'') (Some (ReadableTime until)))"

definition demo_order :: leased_command where
  "demo_order = \<lparr>lc_OutboxID = 1, lc_Command = document_command (ParseCommandDocument (demo_released_read (EncodeDigest demo_key))) (bare_command ''c1''),
     lc_LeaseOwner = ''node/l1'', lc_Trace = \<lparr>tc_Traceparent = '''', tc_Tracestate = ''''\<rparr>\<rparr>"

definition demo_claim :: candidate where
  "demo_claim = \<lparr>ca_OutboxID = 1, ca_OutboxStatus = OutboxPending, ca_Lease = leaseOf None None,
     ca_Command = command_row_of (demo_released_row CommandPending 3), ca_CommandStatus = CommandPending,
     ca_Trace = \<lparr>tc_Traceparent = '''', tc_Tracestate = ''''\<rparr>\<rparr>"

lemmas demo_released_rows = demo_released_row_def policy_command_row_def demo_prepared_def demo_released_outbox_def demo_outbox_row_def

lemma demo_dispatched_tables [simp]:
  "db_commands (demo_dispatched status updated row) = [demo_released_row status updated]" "db_outbox (demo_dispatched status updated row) = [row]"
  "db_intents (demo_dispatched status updated row) = [demo_intent_row\<lparr>nt_policy := ''approved'', nt_rate_limit := 1, nt_updated := FormatTime 3\<rparr>]"
  "db_decisions (demo_dispatched status updated row) = [demo_decision_row]" "db_episodes (demo_dispatched status updated row) = [demo_episode_row]"
  "db_situations (demo_dispatched status updated row)
     = [\<lparr>sm_id = ''s1'', sm_tenant = ''acme'', sm_last_material = 1, sm_current = 1, sm_type = ''leak'', sm_entity = ''pump/1''\<rparr>]"
  "db_approvals (demo_dispatched status updated row) = [demo_granted_row (sha256 demo_bytes)]"
  "db_evaluations (demo_dispatched status updated row) = [demo_evaluation_row]"
  "AssertReady (db_interlock (demo_dispatched status updated row)) = Inr ()"
  by (simp_all add: demo_dispatched_def demo_commanded_def demo_approving_def demo_governed_def demo_start_def AssertReady_def ReadInterlock_def RequireReady_def)

lemma demo_released_matches:
  "command_MatchesLedger (ParseCommandDocument (demo_released_read (EncodeDigest demo_key))) (command_row_of (demo_released_row status updated))"
  using DecodeDigest_sha256 unfolding demo_key_def
  by (simp add: command_MatchesLedger_def ParseCommandDocument_def demo_released_read_def DocumentString_def command_row_of_def demo_released_rows demo_key_def)

lemma demo_claimed: "NextCandidate 4 (demo_dispatched CommandPending 3 (demo_released_outbox OutboxPending 0 None None)) = Some demo_claim"
  by (simp add: NextCandidate_def demo_released_rows demo_intent_row_def demo_decision_row_def map_filter_def available_by_def claimable_def
      candidate_of_def decision_trace_def or_empty_def demo_claim_def command_row_of_def)

lemma demo_claim_admitted: "admit_candidate demo_service demo_claim 4 = decide AcquireLease (demo_order\<lparr>lc_LeaseOwner := ''''\<rparr>)"
proof -
  have "candidate_document demo_service demo_claim = Inr (ParseCommandDocument (demo_released_read (EncodeDigest demo_key)))"
    using demo_released_decodes demo_released_matches[of CommandPending 3]
    by (simp add: candidate_document_def demo_service_def demo_claim_def Let_def) (simp add: command_row_of_def demo_released_rows)
  then show ?thesis
    by (simp add: admit_candidate_def admitCommandDocument_def demo_order_def Let_def)
       (simp add: demo_claim_def OutboxPending_def OutboxLeased_def CommandPending_def CommandSucceeded_def CommandOutcomeUnknown_def
        decide_def command_row_of_def demo_released_rows)
qed

lemma demo_taken:
  "leaseIn demo_service (''l1'', '''') 4 now2 (demo_dispatched CommandPending 3 (demo_released_outbox OutboxPending 0 None None))
     = Inr (Some (demo_order, True), demo_working 64)"
  by (simp add: leaseIn_def AssertActionOwner_def demo_claimed demo_claim_admitted decide_def admit_decision_def acquireLease_def)
     (simp add: demo_service_def demo_order_def try_AcquireLease_def MarkCommandDispatching_def demo_working_def demo_dispatched_def
      demo_released_rows claimable_def rows_affected_def document_command_def bare_command_def CommandPending_def)

definition demo_orders :: authorization_records where
  "demo_orders = demo_records\<lparr>ar_Command := command_row_of (demo_released_row CommandDispatching 4),
     ar_Intent := demo_intent_row\<lparr>nt_policy := ''approved'', nt_rate_limit := 1, nt_updated := FormatTime 3\<rparr>\<rparr>"

lemma demo_orders_loaded: "LoadAuthorizationRecords ''c1'' (demo_working until) = Inr demo_orders"
  by (simp add: LoadAuthorizationRecords_def scanAuthorizationRecords_def loadApprovedApproval_def LatestApprovedOfIntent_def latest_decided_def
      demo_working_def demo_released_rows demo_intent_row_def demo_decision_row_def demo_episode_row_def
      demo_granted_row_def demo_pending_row_def demo_approval_def found_of_def demo_orders_def demo_records_def ProducedDecision_def)

lemma demo_orders_checked:
  "VerifiedCommand demo_service demo_orders = Inr (ParseCommandDocument (demo_released_read (EncodeDigest demo_key)))"
  "RequireApprovedIntent demo_orders = Inr ()" "CheckApproval demo_orders 5 = Inr ()" "RequireCurrent demo_orders = Inr ()"
  "CheckIntent demo_service demo_orders 5 = Inr ()" "CheckDecision demo_service demo_orders = Inr ()"
proof -
  have stored: "VerifyStoredDocument (\<lambda>_. Inr ()) DomainCommand (sealed_text demo_released) (sha256 (DomainCommand @ sealed_text demo_released))
      = Inr (demo_released_read (EncodeDigest demo_key))"
    using demo_released_decodes by (simp add: VerifyStoredDocument_iff DecodeDocument_def bind_res_Inr_iff)
  show "VerifiedCommand demo_service demo_orders = Inr (ParseCommandDocument (demo_released_read (EncodeDigest demo_key)))"
    using stored demo_released_matches[of CommandDispatching 4]
    by (simp add: VerifiedCommand_def demo_service_def demo_orders_def Let_def) (simp add: command_row_of_def demo_released_rows)
  show "RequireApprovedIntent demo_orders = Inr ()" "CheckApproval demo_orders 5 = Inr ()" "RequireCurrent demo_orders = Inr ()"
    by (simp_all add: RequireApprovedIntent_def CheckApproval_def checkApprovalRecord_def RequireCurrent_def demo_orders_def demo_records_def command_row_of_def
        demo_released_rows demo_intent_row_def demo_decision_row_def RouteFor_def baseRoute_def riskPolicy_def)
  have one: "float_to_int (float_of_int 1) = 1" by code_simp
  have "intent_MatchesLedger (demo_intent_read h) (demo_intent_row\<lparr>nt_policy := p, nt_rate_limit := n, nt_updated := u\<rparr>)" for h p n u
    by (simp add: intent_MatchesLedger_def demo_intent_read_def demo_intent_row_def DocumentString_def DocumentInt_def one)
  then show "CheckIntent demo_service demo_orders 5 = Inr ()"
    using demo_intent_stored by (simp add: CheckIntent_def demo_service_def demo_orders_def demo_records_def) (simp add: demo_intent_row_def)
  show "CheckDecision demo_service demo_orders = Inr ()"
    using demo_decision_stored
    by (simp add: CheckDecision_def demo_service_def demo_orders_def demo_records_def demo_decision_row_def demo_intent_row_def)
       (simp add: demo_decision_read_def DocumentString_def DocumentInt_def one)
qed

lemma demo_confirmed: "revalidateIn demo_service (\<lambda>_. 5) demo_order (demo_working 64) = Inr (demo_working 65)"
proof -
  have a: "AssertActionOwner demo_service db = Inr ()" "AssertInterlock (demo_working 64) = Inr ()" for db
    by (simp_all add: AssertActionOwner_def demo_service_def AssertInterlock_def demo_working_def wrap_err_def)
  have l: "requireLiveLease demo_order 5 (demo_working 64) = Inr ()" "refreshLease demo_service demo_order 5 (demo_working 64) = Inr (demo_working 65)"
    by (simp_all add: requireLiveLease_def LeaseIsLive_def refreshLease_def live_lease_row_def rows_affected_def demo_order_def demo_working_def demo_dispatched_def
        demo_released_rows demo_service_def lease_lapsed_def Let_def)
  have i: "ac_CommandID (lc_Command demo_order) = ''c1''" by (simp add: demo_order_def document_command_def bare_command_def)
  have n: "nt_id (ar_Intent demo_orders) = ''i1''" by (simp add: demo_orders_def demo_intent_row_def)
  have p: "checkPolicyDigest (ParseCommandDocument (demo_released_read h)) ''i1'' (demo_working 64) = Inr ()" for h
    by (simp add: checkPolicyDigest_def ParseCommandDocument_def demo_released_read_def DocumentString_def ApprovedPolicyDigest_def demo_working_def
        demo_evaluation_row_def)
  show ?thesis
    by (simp add: revalidateIn_def authorizeCurrentCommand_def authorizeCurrentDocuments_def a l i n p demo_orders_loaded demo_orders_checked)
qed

end
