(* ===== verification/Action_Properties.thy ===== *)
theory Action_Properties
  imports Action_Examples
begin

text \<open>
  Properties of the action plane over every interleaving of any number of dispatchers, crashes,
  reconciliations, new commands and changes of the other tables: an effector is called at most once per
  command, every call is authorized in full, and the outcome ledger is append-only with consecutive
  ordinals.
\<close>

section \<open>What a transaction leaves of the outbox\<close>

definition row_closed :: "outbox_db_row \<Rightarrow> bool" where
  "row_closed r \<longleftrightarrow> ob_status r = OutboxDelivered \<or> ob_status r = OutboxFailed"

definition row_owned :: "outbox_db_row \<Rightarrow> bool" where
  "row_owned r \<longleftrightarrow> (ob_status r = OutboxLeased \<longrightarrow> ob_owner r \<noteq> None)"

definition row_keeps :: "outbox_db_row \<Rightarrow> outbox_db_row \<Rightarrow> bool" where
  "row_keeps r r' \<longleftrightarrow> ob_id r' = ob_id r \<and> ob_kind r' = ob_kind r \<and> ob_aggregate r' = ob_aggregate r \<and> ob_version r' = ob_version r
     \<and> (ob_status r' = OutboxPending \<longrightarrow> ob_status r = OutboxPending) \<and> (row_closed r \<longrightarrow> row_closed r')
     \<and> (row_owned r \<longrightarrow> row_owned r')"

definition outbox_keeps :: "actions_db \<Rightarrow> actions_db \<Rightarrow> bool" where
  "outbox_keeps db db' \<longleftrightarrow> list_all2 row_keeps (db_outbox db) (db_outbox db')"

lemma row_keeps_refl [simp]: "row_keeps r r"
  by (simp add: row_keeps_def)

lemma row_keeps_trans: "row_keeps a b \<Longrightarrow> row_keeps b c \<Longrightarrow> row_keeps a c"
  by (simp add: row_keeps_def)

lemma outbox_keeps_same: "db_outbox db' = db_outbox db \<Longrightarrow> outbox_keeps db db'"
  by (simp add: outbox_keeps_def list_all2_refl)

lemma outbox_keeps_trans: "outbox_keeps a b \<Longrightarrow> outbox_keeps b c \<Longrightarrow> outbox_keeps a c"
  unfolding outbox_keeps_def using list_all2_trans[of row_keeps row_keeps row_keeps] row_keeps_trans by blast

lemma rows_keep_update: "(\<And>r. P r \<Longrightarrow> row_keeps r (f r)) \<Longrightarrow> list_all2 row_keeps rows (sql_update P f rows)"
  by (induction rows) (auto simp: sql_update_def)

lemma outbox_keeps_update:
  "db_outbox db' = sql_update P f (db_outbox db) \<Longrightarrow> (\<And>r. P r \<Longrightarrow> row_keeps r (f r)) \<Longrightarrow> outbox_keeps db db'"
  by (simp add: outbox_keeps_def rows_keep_update)

lemmas outbox_statuses = OutboxPending_def OutboxLeased_def OutboxDelivered_def OutboxFailed_def

lemma ClassifyDispatch_outbox: "dr_OutboxStatus (ClassifyDispatch ef err) = (if err = None then OutboxDelivered else OutboxFailed)"
  by (simp add: ClassifyDispatch_def completeClassification_def Let_def)

definition same_ledger :: "actions_db \<Rightarrow> actions_db \<Rightarrow> bool" where
  "same_ledger db db' \<longleftrightarrow> db_outbox db' = db_outbox db \<and> db_outcomes db' = db_outcomes db \<and> db_commands db' = db_commands db"

lemma same_ledger_refl [simp]: "same_ledger db db"
  by (simp add: same_ledger_def)

lemma same_ledger_trans: "same_ledger a b \<Longrightarrow> same_ledger b c \<Longrightarrow> same_ledger a c"
  by (simp add: same_ledger_def)

lemma append_event_same: "append_event s ev db = Inr db' \<Longrightarrow> same_ledger db db'"
  by (auto simp: append_event_def bind_res_Inr_iff same_ledger_def)

lemma appendReconciliationNotice_same: "appendReconciliationNotice s t i c o' f m db = Inr db' \<Longrightarrow> same_ledger db db'"
  unfolding appendReconciliationNotice_def bind_res_Inr_iff by (blast intro: append_event_same)

lemma appendDispatchNotices_same: "appendDispatchNotices s l r rec m db = Inr db' \<Longrightarrow> same_ledger db db'"
  unfolding appendDispatchNotices_def bind_res_Inr_iff
  by (elim exE conjE, drule append_event_same, drule append_event_same)
     (auto split: if_splits dest: appendReconciliationNotice_same intro: same_ledger_trans)

lemma store_verification_same: "store_verification v o' st m c db = Inr db' \<Longrightarrow> same_ledger db db'"
  by (auto simp: store_verification_def same_ledger_def split: option.splits if_splits)

lemma CloseDispatch_tables:
  assumes "CloseDispatch l r o' v m db = Inr db'"
  shows "db_outbox db' = sql_update (\<lambda>x. ob_id x = lc_OutboxID l \<and> ob_owner x = Some (lc_LeaseOwner l))
      (\<lambda>x. x\<lparr>ob_status := dr_OutboxStatus r, ob_owner := None, ob_until := None,
             ob_error := null_if_empty (dr_ErrorCode r), ob_delivered := delivered_at (dr_OutboxStatus r) m x\<rparr>) (db_outbox db)"
    "db_outcomes db' = db_outcomes db"
    "db_commands db' = sql_update (\<lambda>c. cm_id c = ac_CommandID (lc_Command l) \<and> cm_status c = CommandDispatching)
      (\<lambda>c. c\<lparr>cm_status := dr_CommandStatus r, cm_updated := m\<rparr>) (db_commands db)"
  using store_verification_same[OF assms[unfolded CloseDispatch_def Let_def]] by (simp_all add: same_ledger_def)

lemma InsertOutcome_tables:
  assumes "InsertOutcome rec db = Inr db'"
  shows "db_outbox db' = db_outbox db" "db_commands db' = db_commands db"
    "\<exists>row. db_outcomes db' = db_outcomes db @ [row] \<and> ot_id row = or_ID rec \<and> ot_command row = or_CommandID rec
        \<and> ot_status row = or_Status rec \<and> ot_sha row = or_SHA rec
        \<and> ot_ordinal row = last_ordinal (or_CommandID rec) (db_outcomes db) + 1
        \<and> (\<forall>x \<in> set (db_outcomes db). ot_id x \<noteq> or_ID rec)"
  using assms by (auto simp: InsertOutcome_def bind_res_Inr_iff list_ex_iff split: if_splits)

text \<open>A finalisation is one recorded outcome, or nothing.\<close>

lemma recordFinalDispatch_steps:
  assumes "recordFinalDispatch s ids l ef err now db = Inr db'"
  obtains rec db1 db2 where "dispatchOutcome s (fst ids) l ef (ClassifyDispatch ef err) now = Inr rec"
    "InsertOutcome rec db = Inr db1" "CloseDispatch l (ClassifyDispatch ef err) (or_ID rec) (snd ids) now db1 = Inr db2"
    "appendDispatchNotices s l (ClassifyDispatch ef err) rec now db2 = Inr db'"
  using assms by (auto simp: recordFinalDispatch_def Let_def bind_res_Inr_iff)

lemma recordFinalDispatch_outbox:
  assumes "recordFinalDispatch s ids l ef err now db = Inr db'"
  shows "outbox_keeps db db'"
  using assms
proof (rule recordFinalDispatch_steps)
  fix rec db1 db2
  assume steps: "InsertOutcome rec db = Inr db1" "CloseDispatch l (ClassifyDispatch ef err) (or_ID rec) (snd ids) now db1 = Inr db2"
    "appendDispatchNotices s l (ClassifyDispatch ef err) rec now db2 = Inr db'"
  have "db_outbox db' = db_outbox db2" "db_outbox db1 = db_outbox db"
    using appendDispatchNotices_same[OF steps(3)] InsertOutcome_tables(1)[OF steps(1)] by (simp_all add: same_ledger_def)
  note closed = trans[OF this(1) CloseDispatch_tables(1)[OF steps(2), unfolded this(2)]]
  show ?thesis
    by (rule outbox_keeps_update[OF closed]) (simp add: row_keeps_def row_closed_def row_owned_def ClassifyDispatch_outbox outbox_statuses)
qed

lemma finalizeIn_cases:
  assumes "finalizeIn s ids now l ef err db = Inr db'"
  obtains (unheld) "db' = db"
  | (recorded) ol live ef' err' where "LoadOutboxLease (lc_OutboxID l) db = Some ol" "LeaseStanding ol (lc_LeaseOwner l) now = (True, live)"
      "resultAtStanding live ef err = (ef', err')" "recordFinalDispatch s ids l ef' err' now db = Inr db'"
  using assms by (auto simp: finalizeIn_def bind_res_Inr_iff split: option.splits prod.splits if_splits)

lemma finalizeIn_outbox: "finalizeIn s ids now l ef err db = Inr db' \<Longrightarrow> outbox_keeps db db'"
  by (erule finalizeIn_cases) (auto intro: outbox_keeps_same recordFinalDispatch_outbox)

lemma fail_command_outbox: "outbox_keeps db (fail_command i c code now db)"
  unfolding outbox_keeps_def fail_command_def by (simp, rule rows_keep_update) (simp add: row_keeps_def row_closed_def row_owned_def outbox_statuses)

lemma close_outbox_outbox: "status = OutboxDelivered \<or> status = OutboxFailed \<Longrightarrow> outbox_keeps db (close_outbox i status now db)"
  unfolding outbox_keeps_def close_outbox_def by (simp, rule rows_keep_update) (auto simp: row_keeps_def row_closed_def row_owned_def outbox_statuses)

lemma try_AcquireLease_outbox: "try_AcquireLease i owner until now db = (acquired, db') \<Longrightarrow> outbox_keeps db db'"
  unfolding outbox_keeps_def try_AcquireLease_def Let_def
  by (clarsimp, rule rows_keep_update) (auto simp: row_keeps_def row_closed_def row_owned_def claimable_def outbox_statuses)

lemma MarkCommandDispatching_outbox: "db_outbox (MarkCommandDispatching c now db) = db_outbox db"
  by (simp add: MarkCommandDispatching_def)

lemma acquireLease_outbox: "acquireLease s leaseID l now db = Inr (r, db') \<Longrightarrow> outbox_keeps db db'"
  unfolding acquireLease_def Let_def
  by (auto split: prod.splits if_splits dest!: try_AcquireLease_outbox intro: outbox_keeps_trans
      outbox_keeps_same[OF MarkCommandDispatching_outbox])

lemma admit_candidate_closure: "ad_Step (admit_candidate s c now) = CloseOutboxOnly 
    \<Longrightarrow> ad_OutboxClosure (admit_candidate s c now) = OutboxDelivered \<or> ad_OutboxClosure (admit_candidate s c now) = OutboxFailed"
  by (auto simp: admit_candidate_def admitCommandDocument_def decide_def outboxClosure_def outbox_statuses Let_def split: if_splits sum.splits)

lemma leaseIn_outbox:
  assumes "leaseIn s ids now now2 db = Inr (r, db')"
  shows "outbox_keeps db db'"
proof (cases "NextCandidate now db")
  case (Some c)
  then obtain r' where ad: "admit_decision s ids (admit_candidate s c now) now now2 db = Inr (r', db')"
    using assms by (auto simp: leaseIn_def bind_res_Inr_iff)
  show ?thesis
  proof (cases "ad_Step (admit_candidate s c now)")
    case CloseOutboxOnly
    with ad admit_candidate_closure[of s c now] show ?thesis
      by (auto simp: admit_decision_def Let_def intro: close_outbox_outbox)
  qed (use ad in \<open>auto simp: admit_decision_def Let_def bind_res_Inr_iff intro: finalizeIn_outbox fail_command_outbox acquireLease_outbox\<close>)
qed (use assms in \<open>auto simp: leaseIn_def bind_res_Inr_iff intro: outbox_keeps_same\<close>)

lemma revalidateIn_refreshes:
  assumes "revalidateIn s clk l db = Inr db'"
  shows "refreshLease s l (clk 3) db = Inr db'"
  using assms by (auto simp: revalidateIn_def authorizeCurrentCommand_def authorizeCurrentDocuments_def bind_res_Inr_iff)

lemma refreshLease_outbox: "refreshLease s l now db = Inr db' \<Longrightarrow> outbox_keeps db db'"
  unfolding refreshLease_def Let_def outbox_keeps_def
  by (auto simp: row_keeps_def row_closed_def row_owned_def split: if_splits intro!: rows_keep_update)

lemmas revalidateIn_outbox = refreshLease_outbox[OF revalidateIn_refreshes]

lemma reconcileUnknown_tables:
  assumes "reconcileUnknown s o' now c f raw db = Inr db'"
  shows "db_outbox db' = db_outbox db"
  using assms
  by (auto simp: reconcileUnknown_def reconcileIn_def recordReconciliation_def CloseReconciliation_def bind_res_Inr_iff
      same_ledger_def dest!: appendReconciliationNotice_same InsertOutcome_tables(1))

section \<open>Dispatchers, crashes and the rest of the runtime\<close>

text \<open>
  A task is a call of \<open>DispatchOnce\<close> between its transactions: it holds a lease, is authorized, or has a
  result that is not yet recorded. Steps of different tasks interleave in any order, with services of
  any owner, and a crash loses a task at any point. \<open>dw_calls\<close> is the log of the calls of the effector.
  A transaction that fails is rolled back and changes nothing.
\<close>

datatype task_phase = Leased | Authorized | Returned effect "dispatch_error option"

record dispatch_world =
  dw_db :: actions_db
  dw_tasks :: "(leased_command \<times> task_phase) list"
  dw_calls :: "leased_command list"

definition same_dispatch_tables :: "actions_db \<Rightarrow> actions_db \<Rightarrow> bool" where
  "same_dispatch_tables db db' \<longleftrightarrow> db_outbox db' = db_outbox db \<and> db_commands db' = db_commands db \<and> db_outcomes db' = db_outcomes db"

inductive dispatch_step :: "dispatch_world \<Rightarrow> dispatch_world \<Rightarrow> bool" where
  lease: "leaseIn s ids now now2 (dw_db w) = Inr (Some (l, True), db')
    \<Longrightarrow> dispatch_step w (w\<lparr>dw_db := db', dw_tasks := (l, Leased) # dw_tasks w\<rparr>)"
| no_lease: "leaseIn s ids now now2 (dw_db w) = Inr (r, db') \<Longrightarrow> (\<forall>l. r \<noteq> Some (l, True))
    \<Longrightarrow> dispatch_step w (w\<lparr>dw_db := db'\<rparr>)"
| authorize: "dw_tasks w = xs @ (l, Leased) # ys \<Longrightarrow> revalidateIn s clk l (dw_db w) = Inr db'
    \<Longrightarrow> dispatch_step w (w\<lparr>dw_db := db', dw_tasks := xs @ (l, Authorized) # ys\<rparr>)"
| refuse: "dw_tasks w = xs @ (l, Leased) # ys \<Longrightarrow> revalidateIn s clk l (dw_db w) = Inl e
    \<Longrightarrow> dispatch_step w (w\<lparr>dw_tasks := xs @ (l, Returned no_effect (Some (DispatchRefused ''authorization revalidation failed''))) # ys\<rparr>)"
| call: "dw_tasks w = xs @ (l, Authorized) # ys
    \<Longrightarrow> dispatch_step w (w\<lparr>dw_tasks := xs @ (l, Returned ef err) # ys, dw_calls := l # dw_calls w\<rparr>)"
| finish: "dw_tasks w = xs @ (l, Returned ef err) # ys \<Longrightarrow> check = verifyDevice verifier ef (deadline_unknown err)
    \<Longrightarrow> finalizeIn s ids now l (dk_Effect check) (dk_DispatchErr check) (dw_db w) = Inr db'
    \<Longrightarrow> dispatch_step w (w\<lparr>dw_db := db', dw_tasks := xs @ ys\<rparr>)"
| crash: "dw_tasks w = xs @ t # ys \<Longrightarrow> dispatch_step w (w\<lparr>dw_tasks := xs @ ys\<rparr>)"
| reconcile: "reconcileUnknown s outcomeID now commandID finalStatus raw (dw_db w) = Inr db' \<Longrightarrow> dispatch_step w (w\<lparr>dw_db := db'\<rparr>)"
| enqueue: "InsertCommand c (dw_db w) = Inr (True, db1) \<Longrightarrow> dispatch_step w (w\<lparr>dw_db := InsertCommandOutbox (cm_id c) now db1\<rparr>)"
| elsewhere: "same_dispatch_tables (dw_db w) db' \<Longrightarrow> dispatch_step w (w\<lparr>dw_db := db'\<rparr>)"

inductive dispatch_reachable :: "dispatch_world \<Rightarrow> bool" where
  empty: "db_commands (dw_db w) = [] \<Longrightarrow> db_outbox (dw_db w) = [] \<Longrightarrow> db_outcomes (dw_db w) = [] \<Longrightarrow> dw_tasks w = [] \<Longrightarrow> dw_calls w = [] \<Longrightarrow> dispatch_reachable w"
| step: "dispatch_reachable w \<Longrightarrow> dispatch_step w w' \<Longrightarrow> dispatch_reachable w'"

section \<open>At most one call of the effector per command\<close>

definition may_call :: "dispatch_world \<Rightarrow> leased_command list" where
  "may_call w = map fst (filter (\<lambda>(l, p). p = Leased \<or> p = Authorized) (dw_tasks w)) @ dw_calls w"

definition holds_row :: "actions_db \<Rightarrow> leased_command \<Rightarrow> bool" where
  "holds_row db l \<longleftrightarrow> (\<exists>r \<in> set (db_outbox db). ob_id r = lc_OutboxID l \<and> ob_aggregate r = ac_CommandID (lc_Command l)
     \<and> ob_status r \<noteq> OutboxPending)"

definition outbox_keyed :: "actions_db \<Rightarrow> bool" where
  "outbox_keyed db \<longleftrightarrow> distinct (map ob_id (db_outbox db)) \<and> distinct (map ob_aggregate (db_outbox db))
     \<and> (\<forall>r \<in> set (db_outbox db). ob_kind r = ''command'' \<and> ob_version r = 1)"

definition dispatch_inv :: "dispatch_world \<Rightarrow> bool" where
  "dispatch_inv w \<longleftrightarrow> outbox_keyed (dw_db w) \<and> distinct (map lc_OutboxID (may_call w)) \<and> (\<forall>l \<in> set (may_call w). holds_row (dw_db w) l)"

lemma holds_rowE:
  assumes "holds_row db l"
  obtains r where "r \<in> set (db_outbox db)" "ob_id r = lc_OutboxID l" "ob_aggregate r = ac_CommandID (lc_Command l)"
    "ob_status r \<noteq> OutboxPending"
  using assms unfolding holds_row_def by blast

lemma outbox_keeps_maps:
  assumes "outbox_keeps db db'"
  shows "map ob_id (db_outbox db') = map ob_id (db_outbox db)" "map ob_aggregate (db_outbox db') = map ob_aggregate (db_outbox db)"
    "map ob_kind (db_outbox db') = map ob_kind (db_outbox db)" "map ob_version (db_outbox db') = map ob_version (db_outbox db)"
  using assms[unfolded outbox_keeps_def] by (induction rule: list_all2_induct; simp add: row_keeps_def)+

lemma outbox_keyed_maps:
  "outbox_keyed db \<longleftrightarrow> distinct (map ob_id (db_outbox db)) \<and> distinct (map ob_aggregate (db_outbox db))
     \<and> set (map ob_kind (db_outbox db)) \<subseteq> {''command''} \<and> set (map ob_version (db_outbox db)) \<subseteq> {1}"
  by (auto simp: outbox_keyed_def)

lemma outbox_keeps_keyed: "outbox_keeps db db' \<Longrightarrow> outbox_keyed db \<Longrightarrow> outbox_keyed db'"
  unfolding outbox_keyed_maps by (simp only: outbox_keeps_maps)

lemma outbox_keeps_holds:
  assumes "outbox_keeps db db'" "holds_row db l"
  shows "holds_row db' l"
proof -
  obtain i where i: "i < length (db_outbox db)" "ob_id (db_outbox db ! i) = lc_OutboxID l"
    "ob_aggregate (db_outbox db ! i) = ac_CommandID (lc_Command l)" "ob_status (db_outbox db ! i) \<noteq> OutboxPending"
    using assms(2) by (auto simp: holds_row_def in_set_conv_nth)
  have "row_keeps (db_outbox db ! i) (db_outbox db' ! i)" "i < length (db_outbox db')"
    using assms(1) i(1) by (auto simp: outbox_keeps_def list_all2_conv_all_nth)
  with i show ?thesis
    by (auto simp: holds_row_def row_keeps_def intro!: bexI[of _ "db_outbox db' ! i"])
qed

lemma distinct_map_submset:
  assumes "mset xs \<subseteq># mset ys" "distinct (map f ys)"
  shows "distinct (map f xs)"
proof -
  obtain zs where "mset ys = mset (xs @ zs)"
    using assms(1) by (metis ex_mset mset_append subset_mset.add_diff_inverse)
  then have "mset (map f ys) = mset (map f (xs @ zs))"
    by (simp only: mset_map)
  from mset_eq_imp_distinct_iff[OF this] assms(2) show ?thesis by simp
qed

lemma dispatch_inv_keeps:
  assumes "dispatch_inv w" "outbox_keeps (dw_db w) (dw_db w')" "mset (may_call w') \<subseteq># mset (may_call w)"
  shows "dispatch_inv w'"
proof -
  have "set (may_call w') \<subseteq> set (may_call w)"
    using assms(3) by (metis set_mset_mono set_mset_mset)
  moreover have "distinct (map lc_OutboxID (may_call w'))"
    using assms(1) distinct_map_submset[OF assms(3)] unfolding dispatch_inv_def by blast
  ultimately show ?thesis
    using assms outbox_keeps_keyed outbox_keeps_holds unfolding dispatch_inv_def by blast
qed

text \<open>A lease is only ever taken on a row that nobody held: a leased row that comes back has lapsed, and a
  lapsed lease is abandoned as an unknown outcome.\<close>

lemma NextCandidate_row:
  assumes "NextCandidate now db = Some c"
  obtains r where "r \<in> set (db_outbox db)" "claimable r now" "candidate_of db r = Some c"
proof -
  let ?f = "\<lambda>r. if ob_kind r = ''command'' \<and> available_by (ob_available r) now \<and> claimable r now then candidate_of db r else None"
  have "c \<in> set (List.map_filter ?f (sort_func compare_outbox (db_outbox db)))"
    using assms unfolding NextCandidate_def by (auto split: list.splits)
  then show ?thesis
    by (auto simp: List.map_filter_def split: if_splits intro: that)
qed

lemma lapsed_Expired: "lease_lapsed until now \<Longrightarrow> lease_Expired (leaseOf owner until) now"
  by (auto simp: lease_lapsed_def lease_Expired_def leaseOf_def Let_def split: option.splits)

lemma candidate_of_fields:
  assumes "candidate_of db r = Some c"
  shows "ca_OutboxID c = ob_id r" "ca_OutboxStatus c = ob_status r" "ca_Lease c = leaseOf (ob_owner r) (ob_until r)"
    "cr_ID (ca_Command c) = ob_aggregate r"
  using assms by (auto simp: candidate_of_def bind_eq_Some_conv command_row_of_def dest: find_SomeD)

lemma admit_candidate_acquire:
  assumes "ad_Step (admit_candidate s c now) = AcquireLease" "candidate_of db r = Some c" "claimable r now"
  shows "ob_status r = OutboxPending" "lc_OutboxID (ad_Leased (admit_candidate s c now)) = ob_id r"
    "ac_CommandID (lc_Command (ad_Leased (admit_candidate s c now))) = ob_aggregate r"
  using assms lapsed_Expired[of "ob_until r" now "ob_owner r"] candidate_of_fields[OF assms(2)]
  by (auto simp: admit_candidate_def admitCommandDocument_def decide_def claimable_def document_command_def bare_command_def
      Let_def split: if_splits sum.splits)

lemma leaseIn_acquired:
  assumes "leaseIn s ids now now2 db = Inr (Some (l, True), db')"
  obtains r where "r \<in> set (db_outbox db)" "ob_status r = OutboxPending" "ob_id r = lc_OutboxID l"
    "ob_aggregate r = ac_CommandID (lc_Command l)"
    "db_outbox db' = sql_update (\<lambda>x. ob_id x = lc_OutboxID l \<and> claimable x now) (\<lambda>x. x\<lparr>ob_status := OutboxLeased,
        ob_owner := Some (lc_LeaseOwner l), ob_until := Some (ReadableTime (now + as_leaseFor s)), ob_attempts := ob_attempts x + 1\<rparr>) (db_outbox db)"
proof -
  obtain c where c: "NextCandidate now db = Some c"
    and ad: "admit_decision s ids (admit_candidate s c now) now now2 db = Inr ((l, True), db')"
    using assms by (auto simp: leaseIn_def bind_res_Inr_iff split: option.splits)
  obtain r where r: "r \<in> set (db_outbox db)" "claimable r now" "candidate_of db r = Some c"
    using c by (rule NextCandidate_row)
  have step: "ad_Step (admit_candidate s c now) = AcquireLease"
    using ad by (auto simp: admit_decision_def Let_def bind_res_Inr_iff split: admission_step.splits)
  note row = admit_candidate_acquire[OF step r(3,2)]
  show ?thesis
    using ad row r(1) step
    by (intro that[of r]) (auto simp: admit_decision_def acquireLease_def try_AcquireLease_def MarkCommandDispatching_def Let_def split: if_splits)
qed

lemma leaseIn_holds:
  assumes "leaseIn s ids now now2 db = Inr (Some (l, True), db')"
  shows "holds_row db' l"
  using assms
proof (rule leaseIn_acquired)
  fix r
  assume r: "r \<in> set (db_outbox db)" "ob_status r = OutboxPending" "ob_id r = lc_OutboxID l" "ob_aggregate r = ac_CommandID (lc_Command l)"
    and out: "db_outbox db' = sql_update (\<lambda>x. ob_id x = lc_OutboxID l \<and> claimable x now) (\<lambda>x. x\<lparr>ob_status := OutboxLeased,
        ob_owner := Some (lc_LeaseOwner l), ob_until := Some (ReadableTime (now + as_leaseFor s)), ob_attempts := ob_attempts x + 1\<rparr>) (db_outbox db)"
  have "claimable r now" using r(2) by (simp add: claimable_def)
  then show ?thesis
    using r unfolding holds_row_def out set_sql_update by (intro rev_bexI[OF imageI[OF r(1)]]) (simp add: outbox_statuses)
qed

lemma leaseIn_unheld:
  assumes "leaseIn s ids now now2 db = Inr (Some (l, True), db')" "distinct (map ob_id (db_outbox db))" "holds_row db l'"
  shows "lc_OutboxID l' \<noteq> lc_OutboxID l"
  using assms(1)
proof (rule leaseIn_acquired)
  fix r
  assume r: "r \<in> set (db_outbox db)" "ob_status r = OutboxPending" "ob_id r = lc_OutboxID l"
  obtain r' where r': "r' \<in> set (db_outbox db)" "ob_id r' = lc_OutboxID l'" "ob_status r' \<noteq> OutboxPending"
    using assms(3) by (rule holds_rowE)
  show ?thesis
    using distinct_key_eq[OF assms(2) r(1) r'(1)] r r' by metis
qed

lemma fold_max_upper: "(b::int) \<le> fold max xs b \<and> (x \<in> set xs \<longrightarrow> x \<le> fold max xs b)"
proof (induction xs arbitrary: b)
  case (Cons y ys)
  show ?case using Cons[of "max y b"] by auto
qed simp

lemma next_outbox_id_fresh: "r \<in> set rows \<Longrightarrow> ob_id r < next_outbox_id rows"
  using fold_max_upper[of 0 "map ob_id rows" "ob_id r"] by (simp add: next_outbox_id_def)

lemma enqueue_keyed:
  assumes "outbox_keyed db" "InsertCommand c db = Inr (True, db1)"
  shows "outbox_keyed (InsertCommandOutbox (cm_id c) now db1)"
proof -
  have "db_outbox db1 = db_outbox db"
    using assms(2) by (auto simp: InsertCommand_def split: if_splits)
  then show ?thesis
    using assms(1) next_outbox_id_fresh[of _ "db_outbox db"]
    by (fastforce simp: outbox_keyed_def InsertCommandOutbox_def list_ex_iff)
qed

lemma enqueue_holds: "holds_row db l \<Longrightarrow> InsertCommand c db = Inr (True, db1) \<Longrightarrow> holds_row (InsertCommandOutbox k now db1) l"
  by (auto simp: holds_row_def InsertCommand_def InsertCommandOutbox_def split: if_splits)

lemma dispatch_step_inv: "dispatch_step w w' \<Longrightarrow> dispatch_inv w \<Longrightarrow> dispatch_inv w'"
proof (induction rule: dispatch_step.induct)
  case (lease s ids now now2 w l db')
  have keeps: "outbox_keeps (dw_db w) db'"
    using lease(1) by (rule leaseIn_outbox)
  have "lc_OutboxID l' \<noteq> lc_OutboxID l" if "l' \<in> set (may_call w)" for l'
    using leaseIn_unheld[OF lease(1), of l'] lease(2) that by (simp add: dispatch_inv_def outbox_keyed_def)
  then have "lc_OutboxID l \<notin> set (map lc_OutboxID (may_call w))"
    by (metis imageE list.set_map)
  then have "distinct (map lc_OutboxID (l # may_call w))"
    using lease(2) by (simp add: dispatch_inv_def)
  moreover have "may_call (w\<lparr>dw_db := db', dw_tasks := (l, Leased) # dw_tasks w\<rparr>) = l # may_call w"
    by (simp add: may_call_def)
  ultimately show ?case
    using lease(2) leaseIn_holds[OF lease(1)] outbox_keeps_keyed[OF keeps] outbox_keeps_holds[OF keeps]
    by (simp add: dispatch_inv_def)
next
  case (enqueue c w db1 now)
  moreover have "may_call (w\<lparr>dw_db := InsertCommandOutbox (cm_id c) now db1\<rparr>) = may_call w"
    by (simp add: may_call_def)
  ultimately show ?case
    using enqueue_keyed[OF _ enqueue(1)] enqueue_holds[OF _ enqueue(1)] by (simp add: dispatch_inv_def)
qed (auto elim!: dispatch_inv_keeps intro: leaseIn_outbox revalidateIn_outbox finalizeIn_outbox outbox_keeps_same
      outbox_keeps_same[OF reconcileUnknown_tables] simp: may_call_def same_dispatch_tables_def)

lemma dispatch_reachable_inv: "dispatch_reachable w \<Longrightarrow> dispatch_inv w"
proof (induction rule: dispatch_reachable.induct)
  case (empty w)
  then show ?case by (simp add: dispatch_inv_def outbox_keyed_def may_call_def)
qed (rule dispatch_step_inv)

lemma keyed_command_ids:
  assumes "outbox_keyed db" "distinct (map lc_OutboxID ls)" "\<forall>l \<in> set ls. holds_row db l"
  shows "distinct (map (\<lambda>l. ac_CommandID (lc_Command l)) ls)"
proof -
  have "l = l'" if mem: "l \<in> set ls" "l' \<in> set ls" "ac_CommandID (lc_Command l) = ac_CommandID (lc_Command l')" for l l'
  proof -
    obtain r where r: "r \<in> set (db_outbox db)" "ob_id r = lc_OutboxID l" "ob_aggregate r = ac_CommandID (lc_Command l)"
      using assms(3) mem(1) by (meson holds_rowE)
    obtain r' where r': "r' \<in> set (db_outbox db)" "ob_id r' = lc_OutboxID l'" "ob_aggregate r' = ac_CommandID (lc_Command l')"
      using assms(3) mem(2) by (meson holds_rowE)
    have "r = r'"
      using assms(1) r r' mem(3) distinct_key_eq[of ob_aggregate "db_outbox db" r r'] by (simp add: outbox_keyed_def)
    then show ?thesis
      using distinct_key_eq[OF assms(2) mem(1,2)] r(2) r'(2) by simp
  qed
  moreover have "distinct ls" using assms(2) by (simp add: distinct_map)
  ultimately show ?thesis
    by (auto simp: distinct_map inj_on_def)
qed

text \<open>Claim C15. Whatever the interleaving of dispatchers, authorizations, crashes, reconciliations and new
  commands, from an empty ledger on, the effector is called at most once for a command: no two calls
  in the log carry the same command identifier, and none carries that of a row that is still pending.\<close>

theorem effector_called_once:
  assumes "dispatch_reachable w"
  shows "distinct (map (\<lambda>l. ac_CommandID (lc_Command l)) (dw_calls w))
    \<and> (\<forall>r \<in> set (db_outbox (dw_db w)). ob_status r = OutboxPending \<longrightarrow> (\<forall>l \<in> set (dw_calls w). ac_CommandID (lc_Command l) \<noteq> ob_aggregate r))"
proof -
  have inv: "outbox_keyed (dw_db w)" "distinct (map lc_OutboxID (dw_calls w))" "\<forall>l \<in> set (dw_calls w). holds_row (dw_db w) l"
    using dispatch_reachable_inv[OF assms] by (simp_all add: dispatch_inv_def may_call_def)
  have "ac_CommandID (lc_Command l) \<noteq> ob_aggregate r"
    if r: "r \<in> set (db_outbox (dw_db w))" "ob_status r = OutboxPending" and l: "l \<in> set (dw_calls w)" for r l
    using inv(1) r distinct_key_eq[of ob_aggregate "db_outbox (dw_db w)" r] unfolding outbox_keyed_def
    by (rule_tac holds_rowE[OF bspec[OF inv(3) l]]) metis
  with keyed_command_ids[OF inv] show ?thesis by blast
qed

section \<open>What an authorization rests on\<close>

lemma bind_SomeE: "Option.bind x f = Some y \<Longrightarrow> (\<And>a. x = Some a \<Longrightarrow> f a = Some y \<Longrightarrow> P) \<Longrightarrow> P"
  by (cases x) auto

lemma ParseTime_Some: "ParseTime stored = Some t \<longleftrightarrow> stored = ReadableTime t"
  by (cases stored) auto

lemma scanAuthorizationRecords_rows:
  assumes "scanAuthorizationRecords commandID db = Inr r"
  obtains c e where "c \<in> set (db_commands db)" "cm_id c = commandID" "cm_status c = CommandDispatching" "ar_Command r = command_row_of c"
    "ar_Intent r \<in> set (db_intents db)" "nt_id (ar_Intent r) = cm_intent c" "ar_Decision r \<in> set (db_decisions db)"
    "dc_id (ar_Decision r) = nt_decision (ar_Intent r)" "ar_Situation r \<in> set (db_situations db)" "sm_id (ar_Situation r) = nt_situation (ar_Intent r)"
    "nt_expires (ar_Intent r) = ReadableTime (ar_IntentExpiresAt r)"
    "e \<in> set (db_episodes db)" "e_id e = dc_episode (ar_Decision r)" "ar_ProducedDecision r = ProducedDecision (e_lifecycle e)"
    "ar_EpisodeVersion r = a_SituationVersion (e_admission e)" "ar_EpisodeSituation r = e_situation e"
  using assms unfolding scanAuthorizationRecords_def
  by (auto split: option.splits elim!: bind_SomeE dest!: find_SomeD simp: ParseTime_Some intro: that)

lemma foldl_choice_mem: "(\<And>a x. f a x = a \<or> f a x = x) \<Longrightarrow> foldl f b xs \<in> insert b (set xs)"
proof (induction xs arbitrary: b)
  case (Cons x xs)
  from Cons(1)[OF Cons(2), of "f b x"] Cons(2)[of b x] show ?case by auto
qed simp

lemma latest_decided_mem: "latest_decided rows = Some r \<Longrightarrow> r \<in> set rows"
proof (cases rows)
  case (Cons b xs)
  assume "latest_decided rows = Some r"
  with Cons foldl_choice_mem[of "\<lambda>best x. if later_decided x best then x else best" b xs] show ?thesis
    by (auto simp: latest_decided_def)
qed (simp add: latest_decided_def)

lemma loadApprovedApproval_row:
  assumes "loadApprovedApproval intentID db = Inr (Some (approvalID, expires))"
  shows "\<exists>a \<in> set (db_approvals db). ap_id a = approvalID \<and> ap_intent a = intentID \<and> ap_status a = ApprovalApproved \<and> ap_expires a = ReadableTime expires"
  using assms
  by (auto simp: loadApprovedApproval_def LatestApprovedOfIntent_def found_of_def ParseTime_Some split: option.splits dest!: latest_decided_mem)

text \<open>The records on which an authorization decides, and the checks of each of them.\<close>

lemma revalidateIn_checks:
  assumes "revalidateIn s clk l db = Inr db'"
  obtains r d where "as_assertOwner s db = Inr ()" "LeaseIsLive (lc_OutboxID l) (lc_LeaseOwner l) (clk 0) db"
    "LoadAuthorizationRecords (ac_CommandID (lc_Command l)) db = Inr r" "VerifiedCommand s r = Inr d" "RequireApprovedIntent r = Inr ()"
    "AssertReady (db_interlock db) = Inr ()" "CheckApproval r (clk 1) = Inr ()" "RequireCurrent r = Inr ()" "CheckIntent s r (clk 2) = Inr ()"
    "CheckDecision s r = Inr ()"
proof -
  obtain r d where
    "AssertActionOwner s db = Inr ()" "requireLiveLease l (clk 0) db = Inr ()" "LoadAuthorizationRecords (ac_CommandID (lc_Command l)) db = Inr r"
    "VerifiedCommand s r = Inr d" "RequireApprovedIntent r = Inr ()" "AssertInterlock db = Inr ()"
    "CheckApproval r (clk 1) = Inr ()" "RequireCurrent r = Inr ()" "CheckIntent s r (clk 2) = Inr ()" "CheckDecision s r = Inr ()"
    using assms by (auto simp: revalidateIn_def authorizeCurrentCommand_def authorizeCurrentDocuments_def bind_res_Inr_iff)
  then show ?thesis
    by (intro that[of r d]) (auto simp: AssertActionOwner_def wrap_err_def requireLiveLease_def AssertInterlock_def split: sum.splits if_splits)
qed

lemma CheckApproval_cases:
  assumes "LoadAuthorizationRecords commandID db = Inr r" "CheckApproval r now = Inr ()"
  shows "RouteFor (nt_risk (ar_Intent r)) (nt_requires_approval (ar_Intent r)) = RouteAutomatic
    \<or> RouteFor (nt_risk (ar_Intent r)) (nt_requires_approval (ar_Intent r)) = RouteApproval
      \<and> (\<exists>a \<in> set (db_approvals db). ap_intent a = nt_id (ar_Intent r) \<and> ap_status a = ApprovalApproved
            \<and> (\<exists>t. ap_expires a = ReadableTime t \<and> now < t))"
proof (cases "RouteFor (nt_risk (ar_Intent r)) (nt_requires_approval (ar_Intent r))")
  case RouteApproval
  then obtain approvalID t where a: "ar_Approval r = Some (approvalID, t)" "now < t"
    using assms(2) by (auto simp: CheckApproval_def checkApprovalRecord_def split: option.splits if_splits)
  have "loadApprovedApproval (nt_id (ar_Intent r)) db = Inr (Some (approvalID, t))"
    using assms(1) a(1) by (auto simp: LoadAuthorizationRecords_def bind_res_Inr_iff)
  from loadApprovedApproval_row[OF this] a(2) RouteApproval show ?thesis by blast
qed (use assms(2) in \<open>simp_all add: CheckApproval_def\<close>)

text \<open>The rows that justify a dispatch: command, intent, decision and situation.\<close>

definition authorized_by :: "actions_db \<Rightarrow> (nat \<Rightarrow> time) \<Rightarrow> command_db_row \<Rightarrow> intent_db_row \<Rightarrow> decision_db_row \<Rightarrow> situation_db_row \<Rightarrow> bool" where
  "authorized_by db clk c i d m \<longleftrightarrow>
     c \<in> set (db_commands db) \<and> i \<in> set (db_intents db) \<and> d \<in> set (db_decisions db) \<and> m \<in> set (db_situations db)
     \<and> cm_status c = CommandDispatching
     \<and> (\<exists>raw. DecodeDocumentJSON (cm_json c) = Inr raw \<and> VerifyDocumentDigest DomainCommand raw (cm_sha c)
           \<and> command_MatchesLedger (ParseCommandDocument raw) (command_row_of c))
     \<and> nt_id i = cm_intent c \<and> nt_tenant i = cm_tenant c \<and> nt_type i = cm_route c \<and> nt_policy i = ''approved''
     \<and> (\<exists>t. nt_expires i = ReadableTime t \<and> clk 2 < t)
     \<and> dc_id d = nt_decision i \<and> dc_validation d = ''accepted''
     \<and> (RouteFor (nt_risk i) (nt_requires_approval i) = RouteAutomatic
         \<or> RouteFor (nt_risk i) (nt_requires_approval i) = RouteApproval
           \<and> (\<exists>a \<in> set (db_approvals db). ap_intent a = nt_id i \<and> ap_status a = ApprovalApproved
                 \<and> (\<exists>t. ap_expires a = ReadableTime t \<and> clk 1 < t)))
     \<and> sm_id m = nt_situation i \<and> sm_last_material m \<le> nt_version i"

lemma revalidateIn_authorized_by:
  assumes load: "LoadAuthorizationRecords (ac_CommandID (lc_Command l)) db = Inr r" and approval: "CheckApproval r (clk 1) = Inr ()"
    and checks: "VerifiedCommand s r = Inr d" "RequireApprovedIntent r = Inr ()" "RequireCurrent r = Inr ()" "CheckIntent s r (clk 2) = Inr ()"
  shows "\<exists>c. cm_id c = ac_CommandID (lc_Command l) \<and> authorized_by db clk c (ar_Intent r) (ar_Decision r) (ar_Situation r)"
proof -
  obtain r0 a where r0: "scanAuthorizationRecords (ac_CommandID (lc_Command l)) db = Inr r0" "r = r0\<lparr>ar_Approval := a\<rparr>"
    using load by (auto simp: LoadAuthorizationRecords_def bind_res_Inr_iff)
  have raw: "\<exists>raw. DecodeDocumentJSON (cr_JSON (ar_Command r)) = Inr raw \<and> VerifyDocumentDigest DomainCommand raw (cr_SHA (ar_Command r))
      \<and> command_MatchesLedger (ParseCommandDocument raw) (ar_Command r)"
    using checks(1) by (auto simp: VerifiedCommand_def VerifyStoredDocument_iff Let_def split: sum.splits if_splits)
  have time: "clk 2 < ar_IntentExpiresAt r"
    using checks(4) by (auto simp: CheckIntent_def split: if_splits)
  have current: "sm_last_material (ar_Situation r) \<le> nt_version (ar_Intent r)"
    using checks(3) by (auto simp: RequireCurrent_def Let_def split: if_splits)
  have approved: "cr_TenantID (ar_Command r) = nt_tenant (ar_Intent r)" "cr_Route (ar_Command r) = nt_type (ar_Intent r)"
    "nt_policy (ar_Intent r) = ''approved''" "dc_validation (ar_Decision r) = ''accepted''"
    using checks(2) by (auto simp: RequireApprovedIntent_def split: if_splits)
  show ?thesis
    using r0(1)
  proof (rule scanAuthorizationRecords_rows)
    fix c assume "c \<in> set (db_commands db)" "cm_id c = ac_CommandID (lc_Command l)" "cm_status c = CommandDispatching"
      "ar_Command r0 = command_row_of c" "ar_Intent r0 \<in> set (db_intents db)" "nt_id (ar_Intent r0) = cm_intent c"
      "ar_Decision r0 \<in> set (db_decisions db)" "dc_id (ar_Decision r0) = nt_decision (ar_Intent r0)"
      "ar_Situation r0 \<in> set (db_situations db)" "sm_id (ar_Situation r0) = nt_situation (ar_Intent r0)"
      "nt_expires (ar_Intent r0) = ReadableTime (ar_IntentExpiresAt r0)"
    then show ?thesis
      using r0(2) raw time current approved CheckApproval_cases[OF load approval]
      by (intro exI[of _ c]) (simp add: authorized_by_def command_row_of_def)
  qed
qed

text \<open>Claim C16. A command is authorized for dispatch only when, in the same transaction, all of this holds:
  the runtime owner still owns the runtime, the dispatcher's lease is live, the interlock row is present
  and ready, the command is dispatching and its stored document has the ledger's digest and identity,
  its intent is approved, has not expired and matches tenant and route, its decision was accepted, the
  risk route is automatic or there is an approved approval that has not expired, and the situation has
  had no material version after the one the intent was decided on.\<close>

theorem authorization_is_current:
  assumes "revalidateIn s clk l db = Inr db'"
  shows "as_assertOwner s db = Inr ()
    \<and> (\<exists>row \<in> set (db_outbox db). live_lease_row (lc_OutboxID l) (lc_LeaseOwner l) (clk 0) row)
    \<and> (\<exists>il. db_interlock db = Some il \<and> il_Status il = StatusReady)
    \<and> (\<exists>c i d m. cm_id c = ac_CommandID (lc_Command l) \<and> authorized_by db clk c i d m)"
  using assms
  by (rule revalidateIn_checks)
     (use revalidateIn_authorized_by in \<open>fastforce simp: AssertReady_iff LeaseIsLive_def list_ex_iff\<close>)

section \<open>The outcome ledger\<close>

text \<open>The outcomes of a command: the first is that of its dispatch, all later ones are reconciliations, and
  the ordinals count from one.\<close>

definition command_outcomes :: "string \<Rightarrow> outcome_db_row list \<Rightarrow> outcome_db_row list" where
  "command_outcomes k rows = filter (\<lambda>x. ot_command x = k) rows"

definition ledger_shape :: "outcome_db_row list \<Rightarrow> bool" where
  "ledger_shape xs \<longleftrightarrow> map ot_ordinal xs = map int [1..<Suc (length xs)]
     \<and> (case xs of [] \<Rightarrow> True | x # rest \<Rightarrow> ot_status x \<noteq> OutcomeReconciled \<and> (\<forall>y \<in> set rest. ot_status y = OutcomeReconciled))"

definition unresolved_ids :: "actions_db \<Rightarrow> string set" where
  "unresolved_ids db = cm_id ` {c \<in> set (db_commands db). IsUnresolvedCommandStatus (cm_status c)}"

definition recorded_ids :: "actions_db \<Rightarrow> string set" where
  "recorded_ids db = ot_command ` set (db_outcomes db)"

lemma fold_max_upto: "fold max (map int [1..<Suc n]) 0 = int n"
  by (induction n) simp_all

lemma ledger_shape_last: "ledger_shape (command_outcomes k rows) \<Longrightarrow> last_ordinal k rows = int (length (command_outcomes k rows))"
  unfolding last_ordinal_def ledger_shape_def command_outcomes_def by (simp only: fold_max_upto)

lemma ledger_shape_append:
  assumes "ledger_shape xs" "ot_ordinal x = int (length xs) + 1" "ot_status x = OutcomeReconciled \<longleftrightarrow> xs \<noteq> []"
  shows "ledger_shape (xs @ [x])"
  using assms by (cases xs) (auto simp: ledger_shape_def)

lemma ledgers_append:
  assumes "\<forall>k. ledger_shape (command_outcomes k rows)" "ot_ordinal x = last_ordinal (ot_command x) rows + 1"
    "ot_status x = OutcomeReconciled \<longleftrightarrow> command_outcomes (ot_command x) rows \<noteq> []"
  shows "\<forall>k. ledger_shape (command_outcomes k (rows @ [x]))"
proof
  fix k
  show "ledger_shape (command_outcomes k (rows @ [x]))"
    using assms(1)[rule_format, of k] assms(2,3) ledger_shape_append[of "command_outcomes k rows" x]
      ledger_shape_last[OF assms(1)[rule_format]]
    by (cases "ot_command x = k") (simp_all add: command_outcomes_def)
qed

lemma command_outcomes_empty: "command_outcomes k (db_outcomes db) = [] \<longleftrightarrow> k \<notin> recorded_ids db"
  by (auto simp: command_outcomes_def recorded_ids_def filter_empty_conv)

lemma unresolved_ids_update:
  assumes "db_commands db' = sql_update P f (db_commands db)" "\<And>c. P c \<Longrightarrow> cm_id (f c) = cm_id c"
    and "\<And>c. P c \<Longrightarrow> IsUnresolvedCommandStatus (cm_status (f c)) \<Longrightarrow> cm_id c \<in> A"
  shows "unresolved_ids db' \<subseteq> unresolved_ids db \<union> A"
  using assms unfolding unresolved_ids_def by (fastforce simp: set_sql_update)

lemma ClassifyDispatch_Status: "dr_Status (ClassifyDispatch ef err) \<noteq> OutcomeReconciled"
  by (simp add: ClassifyDispatch_def completeClassification_def Let_def OutcomeReconciled_def OutcomeSucceeded_def
      OutcomeFailed_def OutcomeUnknown_def OutcomeReconcileRequired_def)

lemma dispatchOutcome_record:
  "dispatchOutcome s i l ef r now = Inr rec \<Longrightarrow> or_CommandID rec = ac_CommandID (lc_Command l) \<and> or_Status rec = dr_Status r"
  by (auto simp: dispatchOutcome_def bind_res_Inr_iff)

text \<open>What a transaction does to the outcome ledger: nothing, one outcome of a dispatch that closes a leased
  row, or one reconciliation of an unresolved command.\<close>

definition names_row :: "actions_db \<Rightarrow> leased_command \<Rightarrow> bool" where
  "names_row db l \<longleftrightarrow> (\<exists>r \<in> set (db_outbox db). ob_id r = lc_OutboxID l \<and> ob_aggregate r = ac_CommandID (lc_Command l))"

definition appends_outcome :: "actions_db \<Rightarrow> actions_db \<Rightarrow> outcome_db_row \<Rightarrow> bool" where
  "appends_outcome db db' x \<longleftrightarrow> db_outcomes db' = db_outcomes db @ [x] \<and> ot_ordinal x = last_ordinal (ot_command x) (db_outcomes db) + 1"

inductive ledger_change :: "actions_db \<Rightarrow> actions_db \<Rightarrow> bool" where
  unchanged: "db_outcomes db' = db_outcomes db \<Longrightarrow> unresolved_ids db' \<subseteq> unresolved_ids db \<Longrightarrow> ledger_change db db'"
| dispatched: "appends_outcome db db' x \<Longrightarrow> ot_status x \<noteq> OutcomeReconciled \<Longrightarrow> unresolved_ids db' \<subseteq> unresolved_ids db \<union> {ot_command x}
    \<Longrightarrow> r \<in> set (db_outbox db) \<Longrightarrow> ob_aggregate r = ot_command x \<Longrightarrow> \<not> row_closed r
    \<Longrightarrow> r' \<in> set (db_outbox db') \<Longrightarrow> ob_aggregate r' = ot_command x \<Longrightarrow> row_closed r' \<Longrightarrow> ledger_change db db'"
| reconciled: "appends_outcome db db' x \<Longrightarrow> ot_status x = OutcomeReconciled \<Longrightarrow> unresolved_ids db' \<subseteq> unresolved_ids db
    \<Longrightarrow> ot_command x \<in> unresolved_ids db \<Longrightarrow> ledger_change db db'"

lemma same_ledger_unresolved: "same_ledger db db' \<Longrightarrow> unresolved_ids db' = unresolved_ids db"
  by (simp add: same_ledger_def unresolved_ids_def)

lemma sql_update_mem: "r \<in> set rows \<Longrightarrow> P r \<Longrightarrow> f r \<in> set (sql_update P f rows)"
  by (induction rows) auto

lemma recordFinalDispatch_ledger:
  assumes rec: "recordFinalDispatch s ids l ef err now db = Inr db'"
    and r: "r \<in> set (db_outbox db)" "ob_id r = lc_OutboxID l" "ob_status r = OutboxLeased" "ob_owner r = Some (lc_LeaseOwner l)"
    and cmd: "ob_aggregate r = ac_CommandID (lc_Command l)"
  shows "ledger_change db db'"
  using rec
proof (rule recordFinalDispatch_steps)
  fix rec db1 db2
  let ?r = "ClassifyDispatch ef err"
  let ?close = "\<lambda>x. x\<lparr>ob_status := dr_OutboxStatus ?r, ob_owner := None, ob_until := None,
             ob_error := null_if_empty (dr_ErrorCode ?r), ob_delivered := delivered_at (dr_OutboxStatus ?r) now x\<rparr>"
  assume steps: "dispatchOutcome s (fst ids) l ef ?r now = Inr rec" "InsertOutcome rec db = Inr db1"
    "CloseDispatch l ?r (or_ID rec) (snd ids) now db1 = Inr db2" "appendDispatchNotices s l ?r rec now db2 = Inr db'"
  note rec_fields = dispatchOutcome_record[OF steps(1)] and ins = InsertOutcome_tables[OF steps(2)]
    and closed = CloseDispatch_tables[OF steps(3)] and same = appendDispatchNotices_same[OF steps(4)]
  obtain x where x: "db_outcomes db1 = db_outcomes db @ [x]" "ot_command x = or_CommandID rec" "ot_status x = or_Status rec"
    "ot_ordinal x = last_ordinal (or_CommandID rec) (db_outcomes db) + 1"
    using ins(3) by blast
  show ?thesis
  proof (rule ledger_change.dispatched[where x = x and r = r and r' = "?close r"])
    show "appends_outcome db db' x" "ot_status x \<noteq> OutcomeReconciled" "ob_aggregate r = ot_command x"
      using x closed(2) same rec_fields ClassifyDispatch_Status cmd by (simp_all add: appends_outcome_def same_ledger_def)
    show "unresolved_ids db' \<subseteq> unresolved_ids db \<union> {ot_command x}"
      unfolding same_ledger_unresolved[OF same]
      by (rule unresolved_ids_update[OF closed(3)[unfolded ins(2)]]) (simp_all add: x(2) rec_fields)
    show "?close r \<in> set (db_outbox db')"
      using same unfolding same_ledger_def closed(1) ins(1) by (elim conjE ssubst, intro sql_update_mem) (simp_all add: r)
  qed (use r x rec_fields cmd in \<open>simp_all add: row_closed_def outbox_statuses ClassifyDispatch_outbox\<close>)
qed

lemma finalizeIn_ledger:
  assumes "finalizeIn s ids now l ef err db = Inr db'" "names_row db l" "outbox_keyed db" "\<forall>r \<in> set (db_outbox db). row_owned r"
  shows "ledger_change db db'"
  using assms(1)
proof (cases rule: finalizeIn_cases)
  case unheld
  then show ?thesis by (simp add: ledger_change.unchanged)
next
  case (recorded ol live ef' err')
  obtain r where r: "r \<in> set (db_outbox db)" "ob_id r = lc_OutboxID l" "ob_aggregate r = ac_CommandID (lc_Command l)"
    using assms(2) unfolding names_row_def by blast
  have "find (\<lambda>x. ob_id x = lc_OutboxID l) (db_outbox db) = Some r"
    using find_by_key[of ob_id "db_outbox db" r] assms(3) r by (simp add: outbox_keyed_def)
  with recorded(1,2) have "ob_status r = OutboxLeased" "or_empty (ob_owner r) = lc_LeaseOwner l"
    by (auto simp: LoadOutboxLease_def LeaseStanding_def split: if_splits)
  then show ?thesis
    using recordFinalDispatch_ledger[OF recorded(4) r(1,2) _ _ r(3)] assms(4) r(1) by (auto simp: row_owned_def or_empty_def)
qed

lemma candidate_names_row:
  assumes "NextCandidate now db = Some c"
  shows "names_row db (ad_Leased (admit_candidate s c now))"
proof -
  obtain r where "r \<in> set (db_outbox db)" "candidate_of db r = Some c"
    using assms by (rule NextCandidate_row)
  moreover have "lc_OutboxID (ad_Leased (admit_candidate s c now)) = ca_OutboxID c"
    "ac_CommandID (lc_Command (ad_Leased (admit_candidate s c now))) = cr_ID (ca_Command c)"
    by (auto simp: admit_candidate_def admitCommandDocument_def decide_def withLedgerIdentity_def document_command_def
        bare_command_def Let_def split: sum.splits)
  ultimately show ?thesis
    using candidate_of_fields[of db r c] unfolding names_row_def by metis
qed

lemmas command_statuses = CommandPending_def CommandDispatching_def CommandSucceeded_def CommandFailed_def CommandReconciling_def
  CommandOutcomeUnknown_def CommandManualReview_def

lemma resolved_statuses [simp]:
  "\<not> IsUnresolvedCommandStatus CommandFailed" "\<not> IsUnresolvedCommandStatus CommandDispatching" "\<not> IsUnresolvedCommandStatus CommandPending"
  by (simp_all add: IsUnresolvedCommandStatus_def UnresolvedCommandStatuses_def command_statuses)

lemma unresolved_ids_shrink:
  assumes "db_commands db' = sql_update P f (db_commands db)" "\<And>c. cm_id (f c) = cm_id c" "\<And>c. \<not> IsUnresolvedCommandStatus (cm_status (f c))"
  shows "unresolved_ids db' \<subseteq> unresolved_ids db"
  using unresolved_ids_update[OF assms(1), of "{}"] assms(2,3) by simp

lemma fail_command_ledger: "ledger_change db (fail_command i k code now db)"
proof (rule ledger_change.unchanged)
  show "unresolved_ids (fail_command i k code now db) \<subseteq> unresolved_ids db"
    by (rule unresolved_ids_shrink[where P = "\<lambda>c. cm_id c = k" and f = "\<lambda>c. c\<lparr>cm_status := CommandFailed, cm_updated := now\<rparr>"])
       (simp_all add: fail_command_def)
qed (simp add: fail_command_def)

lemma MarkCommandDispatching_unresolved: "unresolved_ids (MarkCommandDispatching k now db) \<subseteq> unresolved_ids db"
  by (rule unresolved_ids_shrink[where P = "\<lambda>c. cm_id c = k \<and> cm_status c \<in> {CommandPending, CommandFailed, CommandDispatching}"
        and f = "\<lambda>c. c\<lparr>cm_status := CommandDispatching, cm_updated := now\<rparr>"])
     (simp_all add: MarkCommandDispatching_def)

lemma acquireLease_ledger: "acquireLease s i l now db = Inr (r, db') \<Longrightarrow> ledger_change db db'"
proof (rule ledger_change.unchanged)
  assume a: "acquireLease s i l now db = Inr (r, db')"
  obtain b db1 where t: "try_AcquireLease (lc_OutboxID l) (as_owner s @ ''/'' @ i) (now + as_leaseFor s) now db = (b, db1)"
    by (rule prod.exhaust)
  have "unresolved_ids db1 = unresolved_ids db" "db_outcomes db1 = db_outcomes db"
    using t by (auto simp: try_AcquireLease_def Let_def unresolved_ids_def)
  then show "db_outcomes db' = db_outcomes db" "unresolved_ids db' \<subseteq> unresolved_ids db"
    using a t MarkCommandDispatching_unresolved[of "ac_CommandID (lc_Command l)" now db1]
    by (auto simp: acquireLease_def Let_def MarkCommandDispatching_def split: if_splits)
qed

lemma leaseIn_ledger:
  assumes "leaseIn s ids now now2 db = Inr (r, db')" "outbox_keyed db" "\<forall>x \<in> set (db_outbox db). row_owned x"
  shows "ledger_change db db'"
proof (cases "NextCandidate now db")
  case (Some c)
  let ?l = "ad_Leased (admit_candidate s c now)"
  obtain r' where ad: "admit_decision s ids (admit_candidate s c now) now now2 db = Inr (r', db')"
    using assms(1) Some by (auto simp: leaseIn_def bind_res_Inr_iff)
  show ?thesis
  proof (cases "ad_Step (admit_candidate s c now)")
    case AbandonExpiredLease
    with ad show ?thesis
      by (auto simp: admit_decision_def Let_def bind_res_Inr_iff intro: finalizeIn_ledger[OF _ candidate_names_row[OF Some] assms(2,3)])
  next
    case FailInvalidCommand
    with ad show ?thesis
      by (auto simp: admit_decision_def Let_def intro: fail_command_ledger)
  next
    case CloseOutboxOnly
    with ad show ?thesis
      by (auto simp: admit_decision_def Let_def close_outbox_def unresolved_ids_def intro!: ledger_change.unchanged)
  next
    case AcquireLease
    with ad show ?thesis by (auto simp: admit_decision_def Let_def intro: acquireLease_ledger)
  qed
qed (use assms(1) in \<open>auto simp: leaseIn_def bind_res_Inr_iff intro: ledger_change.unchanged\<close>)

lemma revalidateIn_ledger: "revalidateIn s clk l db = Inr db' \<Longrightarrow> ledger_change db db'"
  by (drule revalidateIn_refreshes) (auto simp: refreshLease_def Let_def unresolved_ids_def split: if_splits intro!: ledger_change.unchanged)

lemma reconcileUnknown_ledger:
  assumes "reconcileUnknown s i now k f raw db = Inr db'"
  shows "ledger_change db db'"
proof -
  obtain c evidence where c: "LoadReconcilableCommand k db = Inr c" "RequireAwaitingReconciliation c = Inr ()"
    "recordReconciliation s i now c f evidence db = Inr db'"
    using assms by (auto simp: reconcileUnknown_def reconcileIn_def bind_res_Inr_iff)
  obtain digest db1 where steps: "InsertOutcome \<lparr>or_ID = i, or_CommandID = rc_ID c, or_Status = OutcomeReconciled,
         or_Reconciliation = ReconciliationReconciled, or_ProviderResult = Some evidence, or_ObservedEffect = None, or_SHA = digest,
         or_Trace = rc_Trace c, or_At = now\<rparr> db = Inr db1" "same_ledger (CloseReconciliation c f i now db1) db'"
    using c(3) by (auto simp: recordReconciliation_def bind_res_Inr_iff dest: appendReconciliationNotice_same)
  have unresolved: "rc_ID c \<in> unresolved_ids db"
    using c(1,2) by (force simp: LoadReconcilableCommand_def RequireAwaitingReconciliation_def unresolved_ids_def
        elim!: bind_SomeE split: option.splits if_splits dest!: find_SomeD)
  have "unresolved_ids db' \<subseteq> unresolved_ids db \<union> {rc_ID c}"
    unfolding same_ledger_unresolved[OF steps(2)]
    by (rule unresolved_ids_update[where P = "\<lambda>r. cm_id r = rc_ID c \<and> IsUnresolvedCommandStatus (cm_status r)"
          and f = "\<lambda>r. r\<lparr>cm_status := f, cm_updated := now\<rparr>"])
       (simp_all add: CloseReconciliation_def InsertOutcome_tables(2)[OF steps(1)])
  then show ?thesis
    using InsertOutcome_tables(3)[OF steps(1)] steps(2) unresolved
    by (auto simp: appends_outcome_def same_ledger_def CloseReconciliation_def intro!: ledger_change.reconciled)
qed

definition outcome_inv :: "actions_db \<Rightarrow> bool" where
  "outcome_inv db \<longleftrightarrow> outbox_keyed db \<and> (\<forall>r \<in> set (db_outbox db). row_owned r)
     \<and> (\<forall>k. ledger_shape (command_outcomes k (db_outcomes db)))
     \<and> (\<forall>k \<in> recorded_ids db. \<exists>r \<in> set (db_outbox db). ob_aggregate r = k \<and> row_closed r)
     \<and> unresolved_ids db \<subseteq> recorded_ids db"

lemma outbox_keeps_row:
  assumes "outbox_keeps db db'" "r \<in> set (db_outbox db)"
  obtains r' where "r' \<in> set (db_outbox db')" "row_keeps r r'"
  using assms unfolding outbox_keeps_def by (metis in_set_conv_nth list_all2_conv_all_nth)

lemma outbox_keeps_row_back:
  assumes "outbox_keeps db db'" "r' \<in> set (db_outbox db')"
  obtains r where "r \<in> set (db_outbox db)" "row_keeps r r'"
  using assms unfolding outbox_keeps_def by (metis in_set_conv_nth list_all2_conv_all_nth)

lemma outbox_keeps_names:
  assumes "outbox_keeps db db'" "names_row db l"
  shows "names_row db' l"
proof -
  obtain r where r: "r \<in> set (db_outbox db)" "ob_id r = lc_OutboxID l" "ob_aggregate r = ac_CommandID (lc_Command l)"
    using assms(2) unfolding names_row_def by blast
  show ?thesis
    unfolding names_row_def
    by (rule outbox_keeps_row[OF assms(1) r(1)], rule bexI) (use r(2,3) in \<open>simp_all add: row_keeps_def\<close>)
qed

lemma outcome_inv_change:
  assumes inv: "outcome_inv db" and keeps: "outbox_keeps db db'" and change: "ledger_change db db'"
  shows "outcome_inv db'"
proof -
  have closed: "\<exists>r' \<in> set (db_outbox db'). ob_aggregate r' = k \<and> row_closed r'"
    if k: "k \<in> recorded_ids db" for k
  proof -
    obtain r where r: "r \<in> set (db_outbox db)" "ob_aggregate r = k" "row_closed r"
      using inv k unfolding outcome_inv_def by blast
    obtain r' where "r' \<in> set (db_outbox db')" "row_keeps r r'"
      using keeps r(1) by (rule outbox_keeps_row)
    with r(2,3) show ?thesis by (intro bexI[of _ r']) (simp_all add: row_keeps_def)
  qed
  have base: "outbox_keyed db'" "\<forall>r \<in> set (db_outbox db'). row_owned r"
    using inv outbox_keeps_keyed[OF keeps] by (simp add: outcome_inv_def)
      (rule ballI, erule outbox_keeps_row_back[OF keeps], use inv in \<open>simp add: outcome_inv_def row_keeps_def\<close>)
  have grown: "recorded_ids db' = insert (ot_command x) (recorded_ids db)" if "appends_outcome db db' x" for x
    using that by (simp add: recorded_ids_def appends_outcome_def)
  show ?thesis
    using change
  proof cases
    case unchanged
    then have "recorded_ids db' = recorded_ids db" by (simp add: recorded_ids_def)
    with unchanged inv base closed show ?thesis by (simp add: outcome_inv_def) blast
  next
    case (dispatched x r r')
    have "ot_command x \<notin> recorded_ids db"
    proof
      assume "ot_command x \<in> recorded_ids db"
      then obtain q where q: "q \<in> set (db_outbox db)" "ob_aggregate q = ot_command x" "row_closed q"
        using inv unfolding outcome_inv_def by blast
      with dispatched(4,5,6) inv distinct_key_eq[of ob_aggregate "db_outbox db" q r] show False
        by (simp add: outcome_inv_def outbox_keyed_def)
    qed
    then have "\<forall>k. ledger_shape (command_outcomes k (db_outcomes db'))"
      using ledgers_append[of "db_outcomes db" x] dispatched(1,2) inv by (simp add: appends_outcome_def outcome_inv_def command_outcomes_empty)
    moreover have "\<forall>k \<in> recorded_ids db'. \<exists>r \<in> set (db_outbox db'). ob_aggregate r = k \<and> row_closed r"
      using closed dispatched(7-9) unfolding grown[OF dispatched(1)] by blast
    moreover have "unresolved_ids db' \<subseteq> recorded_ids db'"
      using dispatched(3) inv unfolding grown[OF dispatched(1)] outcome_inv_def by blast
    ultimately show ?thesis
      using base by (simp add: outcome_inv_def)
  next
    case (reconciled x)
    then have "ot_command x \<in> recorded_ids db" using inv by (auto simp: outcome_inv_def)
    moreover from this have "\<forall>k. ledger_shape (command_outcomes k (db_outcomes db'))"
      using ledgers_append[of "db_outcomes db" x] reconciled(1,2) inv by (simp add: appends_outcome_def outcome_inv_def command_outcomes_empty)
    moreover have "unresolved_ids db' \<subseteq> recorded_ids db'"
      using reconciled(3) inv unfolding grown[OF reconciled(1)] outcome_inv_def by blast
    ultimately show ?thesis
      using base closed grown[OF reconciled(1)] by (simp add: outcome_inv_def insert_absorb)
  qed
qed

lemma enqueue_outcomes:
  assumes "outcome_inv db" "InsertCommand c db = Inr (True, db1)"
  shows "outcome_inv (InsertCommandOutbox (cm_id c) now db1)"
proof -
  let ?db = "InsertCommandOutbox (cm_id c) now db1"
  have db1: "db1 = db\<lparr>db_commands := db_commands db @ [c\<lparr>cm_status := CommandPending\<rparr>]\<rparr>"
    using assms(2) by (auto simp: InsertCommand_def split: if_splits)
  have "db_outcomes ?db = db_outcomes db" "recorded_ids ?db = recorded_ids db" "unresolved_ids ?db = unresolved_ids db"
    "set (db_outbox db) \<subseteq> set (db_outbox ?db)" "\<forall>r \<in> set (db_outbox ?db) - set (db_outbox db). row_owned r"
    by (auto simp: db1 InsertCommandOutbox_def recorded_ids_def unresolved_ids_def row_owned_def outbox_statuses image_iff)
  with assms(1) enqueue_keyed[OF _ assms(2), of now] show ?thesis
    unfolding outcome_inv_def by (elim conjE, intro conjI) (simp_all, blast+)
qed

definition world_inv :: "dispatch_world \<Rightarrow> bool" where
  "world_inv w \<longleftrightarrow> outcome_inv (dw_db w) \<and> (\<forall>l \<in> fst ` set (dw_tasks w). names_row (dw_db w) l)"

lemma world_inv_change:
  assumes "world_inv w" "outbox_keeps (dw_db w) (dw_db w')" "ledger_change (dw_db w) (dw_db w')"
    and "\<And>l. l \<in> fst ` set (dw_tasks w') \<Longrightarrow> l \<in> fst ` set (dw_tasks w) \<or> names_row (dw_db w') l"
  shows "world_inv w'"
  using outcome_inv_change[OF _ assms(2,3)] outbox_keeps_names[OF assms(2)] assms(1,4) unfolding world_inv_def by blast

lemma world_inv_rows: "world_inv w \<Longrightarrow> outbox_keyed (dw_db w)" "world_inv w \<Longrightarrow> \<forall>r \<in> set (db_outbox (dw_db w)). row_owned r"
  by (simp_all add: world_inv_def outcome_inv_def)

lemma leaseIn_names: "leaseIn s ids now now2 db = Inr (Some (l, True), db') \<Longrightarrow> names_row db' l"
  by (drule leaseIn_holds) (auto simp: holds_row_def names_row_def)

lemma world_inv_same: "world_inv w \<Longrightarrow> dw_db w' = dw_db w \<Longrightarrow> fst ` set (dw_tasks w') \<subseteq> fst ` set (dw_tasks w) \<Longrightarrow> world_inv w'"
  unfolding world_inv_def by (simp only:) blast

lemma dispatch_step_world_inv:
  assumes "dispatch_step w w'" "world_inv w"
  shows "world_inv w'"
  using assms
proof (induction rule: dispatch_step.induct)
  case (lease s ids now now2 w l db')
  then show ?case
    using leaseIn_outbox[OF lease(1)] leaseIn_ledger[OF lease(1) world_inv_rows[OF lease(2)]] leaseIn_names[OF lease(1)]
    by (elim world_inv_change[of w]) auto
next
  case (no_lease s ids now now2 w r db')
  then show ?case
    using leaseIn_outbox[OF no_lease(1)] leaseIn_ledger[OF no_lease(1) world_inv_rows[OF no_lease(3)]]
    by (elim world_inv_change[of w]) auto
next
  case (authorize w xs l ys s clk db')
  then show ?case
    by (elim world_inv_change[of w]) (auto intro: revalidateIn_outbox revalidateIn_ledger)
next
  case (finish w xs l ef err ys check verifier s ids now db')
  have "names_row (dw_db w) l"
    using finish(1,4) by (simp add: world_inv_def)
  with finish show ?case
    using finalizeIn_outbox[OF finish(3)] finalizeIn_ledger[OF finish(3) _ world_inv_rows[OF finish(4)]]
    by (elim world_inv_change[of w]) auto
next
  case (reconcile s i now k f raw w db')
  then show ?case
    by (elim world_inv_change[of w]) (auto intro: outbox_keeps_same[OF reconcileUnknown_tables] reconcileUnknown_ledger)
next
  case (enqueue c w db1 now)
  have "names_row (InsertCommandOutbox (cm_id c) now db1) l" if "names_row (dw_db w) l" for l
    using that enqueue(1) by (auto simp: names_row_def InsertCommand_def InsertCommandOutbox_def split: if_splits)
  with enqueue show ?case
    using enqueue_outcomes[OF _ enqueue(1)] by (auto simp: world_inv_def)
next
  case (elsewhere w db')
  then show ?case
    by (elim world_inv_change[of w]) (auto simp: same_dispatch_tables_def unresolved_ids_def intro!: outbox_keeps_same ledger_change.unchanged)
qed (erule world_inv_same; auto)+

lemma dispatch_step_appends:
  assumes "dispatch_step w w'" "world_inv w"
  shows "\<exists>new. db_outcomes (dw_db w') = db_outcomes (dw_db w) @ new"
proof -
  have grows: "\<exists>new. db_outcomes db' = db_outcomes db @ new" if "ledger_change db db'" for db db'
    using that by cases (simp_all add: appends_outcome_def)
  show ?thesis
    using assms
  proof (induction rule: dispatch_step.induct)
    case (finish w xs l ef err ys check verifier s ids now db')
    have "names_row (dw_db w) l" using finish(1,4) by (simp add: world_inv_def)
    from grows[OF finalizeIn_ledger[OF finish(3) this world_inv_rows[OF finish(4)]]] show ?case by simp
  next
    case (enqueue c w db1 now)
    then show ?case by (auto simp: InsertCommand_def InsertCommandOutbox_def split: if_splits)
  qed (auto intro!: grows dest: leaseIn_ledger[OF _ world_inv_rows] revalidateIn_ledger reconcileUnknown_ledger simp: same_dispatch_tables_def)
qed

lemma dispatch_reachable_world_inv: "dispatch_reachable w \<Longrightarrow> world_inv w"
proof (induction rule: dispatch_reachable.induct)
  case (empty w)
  then show ?case
    by (simp add: world_inv_def outcome_inv_def outbox_keyed_def command_outcomes_def ledger_shape_def recorded_ids_def unresolved_ids_def)
qed (rule dispatch_step_world_inv)

text \<open>Claim C17. In every reachable world each step only appends to the outcome ledger, the outcomes of a
  command are numbered 1, 2, 3 and so on, the first is the outcome of its one recorded dispatch and
  every later one is a reconciliation, and every command that waits for reconciliation has a recorded
  outcome.\<close>

theorem outcome_ledger_shape:
  assumes "dispatch_reachable w" "dispatch_step w w'"
  shows "(\<exists>new. db_outcomes (dw_db w') = db_outcomes (dw_db w) @ new)
    \<and> ledger_shape (command_outcomes k (db_outcomes (dw_db w')))
    \<and> unresolved_ids (dw_db w') \<subseteq> recorded_ids (dw_db w')"
proof -
  have inv: "world_inv w" using assms(1) by (rule dispatch_reachable_world_inv)
  from dispatch_step_world_inv[OF assms(2) inv] dispatch_step_appends[OF assms(2) inv] show ?thesis
    by (simp add: world_inv_def outcome_inv_def)
qed

section \<open>A run\<close>

text \<open>One command is enqueued, leased, authorized and called; then its success is recorded.\<close>

definition demo_called :: dispatch_world where
  "demo_called = \<lparr>dw_db = demo_leased_db 63, dw_tasks = [(demo_leased, Returned no_effect None)], dw_calls = [demo_leased]\<rparr>"

lemma demo_called_reachable: "dispatch_reachable demo_called"
proof -
  let ?w = "\<lambda>db ts cs. \<lparr>dw_db = db, dw_tasks = ts, dw_calls = cs\<rparr>"
  have "dispatch_reachable (?w demo_start [] [])"
    by (rule dispatch_reachable.empty) (simp_all add: demo_start_def)
  moreover have "dispatch_step (?w demo_start [] []) (?w demo_queued [] [])"
    using dispatch_step.enqueue[of "demo_command_row CommandPending 1" "?w demo_start [] []", OF _ , of _ 1] demo_enqueue
    by (simp add: demo_command_row_def)
  moreover have "dispatch_step (?w demo_queued [] []) (?w (demo_leased_db 62) [(demo_leased, Leased)] [])"
    using dispatch_step.lease[of demo_service "(''l1'', '''')" 2 2 "?w demo_queued [] []"] demo_lease by simp
  moreover have "dispatch_step (?w (demo_leased_db 62) [(demo_leased, Leased)] []) (?w (demo_leased_db 63) [(demo_leased, Authorized)] [])"
    using dispatch_step.authorize[of "?w (demo_leased_db 62) [(demo_leased, Leased)] []" "[]" demo_leased "[]" demo_service "\<lambda>_. 3"] demo_authorize by simp
  moreover have "dispatch_step (?w (demo_leased_db 63) [(demo_leased, Authorized)] []) demo_called"
    using dispatch_step.call[of "?w (demo_leased_db 63) [(demo_leased, Authorized)] []" "[]" demo_leased "[]" no_effect None] by (simp add: demo_called_def)
  ultimately show ?thesis by (blast intro: dispatch_reachable.step)
qed

theorem effector_called_once_witness:
  "dispatch_reachable demo_called \<and> map (\<lambda>l. ac_CommandID (lc_Command l)) (dw_calls demo_called) = [''c1'']
     \<and> distinct (map (\<lambda>l. ac_CommandID (lc_Command l)) (dw_calls demo_called))"
  using demo_called_reachable effector_called_once[OF demo_called_reachable]
  by (simp add: demo_called_def demo_leased_def document_command_def bare_command_def)

theorem authorization_is_current_witness:
  "revalidateIn demo_service (\<lambda>_. 3) demo_leased (demo_leased_db 62) = Inr (demo_leased_db 63)
     \<and> (\<exists>c i d m. cm_id c = ''c1'' \<and> authorized_by (demo_leased_db 62) (\<lambda>_. 3) c i d m)"
  using demo_authorize authorization_is_current[OF demo_authorize] by (simp add: demo_leased_def document_command_def bare_command_def)

lemma demo_outcome_digest: "\<exists>digest. OutcomeDigest demo_service (OutcomeDocument ''c1'' ''o1'' OutcomeSucceeded None '''' 4) = Inr digest \<and> length digest = 32"
proof -
  have "\<not> isl (Marshal (AnyMap (OutcomeDocument ''c1'' ''o1'' OutcomeSucceeded None '''' 4)))" by code_simp
  then obtain t where "Marshal (AnyMap (OutcomeDocument ''c1'' ''o1'' OutcomeSucceeded None '''' 4)) = Inr t"
    by (cases "Marshal (AnyMap (OutcomeDocument ''c1'' ''o1'' OutcomeSucceeded None '''' 4))") simp_all
  then show ?thesis
    by (simp add: OutcomeDigest_def demo_service_def DigestSum_def Seal_def DomainOutcome_def wrap_err_def)
qed

lemma demo_finalize: "\<exists>db' row. finalizeIn demo_service (''o1'', ''v1'') 4 demo_leased no_effect None (demo_leased_db 63) = Inr db'
  \<and> db_outcomes db' = [row] \<and> ot_ordinal row = 1 \<and> ot_command row = ''c1''"
proof -
  obtain digest where digest: "OutcomeDigest demo_service (OutcomeDocument ''c1'' ''o1'' OutcomeSucceeded None '''' 4) = Inr digest" "length digest = 32"
    using demo_outcome_digest by blast
  have c: "ac_CommandID (lc_Command demo_leased) = ''c1''" "ac_IntentID (lc_Command demo_leased) = ''i1''"
    "lc_OutboxID demo_leased = 1" "lc_LeaseOwner demo_leased = ''node/l1''"
    by (simp_all add: demo_leased_def document_command_def bare_command_def ParseCommandDocument_def demo_command_document_def DocumentString_def)
  have r: "ClassifyDispatch no_effect None = \<lparr>dr_Status = OutcomeSucceeded, dr_Reconciliation = ReconciliationObserved, dr_CommandStatus = CommandSucceeded,
                dr_ErrorCode = '''', dr_OutboxStatus = OutboxDelivered, dr_VerificationStatus = VerificationObserved, dr_Settled = True\<rparr>"
    by (simp add: ClassifyDispatch_def completeClassification_def no_effect_def OutcomeSucceeded_def OutcomeFailed_def)
  have n: "ef_ProviderResult no_effect = None" "ef_ObservedEffect no_effect = None" by (simp_all add: no_effect_def)
  have e: "append_event demo_service ev db = Inr (db\<lparr>db_events := db_events db @ [ev]\<rparr>)" for ev db
    by (simp add: append_event_def demo_service_def)
  have o': "AssertActionOwner demo_service db = Inr ()" for db by (simp add: AssertActionOwner_def demo_service_def wrap_err_def)
  show ?thesis
    by (simp add: finalizeIn_def o' LoadOutboxLease_def LeaseStanding_def resultAtStanding_def recordFinalDispatch_def dispatchOutcome_def
        InsertOutcome_def CloseDispatch_def store_verification_def appendDispatchNotices_def appendReconciliationNotice_def
        LoadReconciledProvenance_def provenance_Validate_def HasSumLength_def optionalJSON_def last_ordinal_def wrap_err_def Let_def
        demo_leased_db_def demo_start_def demo_outbox_row_def demo_command_row_def demo_intent_row_def demo_decision_row_def or_empty_def
        c r n e digest)
qed

theorem outcome_ledger_shape_witness:
  "\<exists>w'. dispatch_reachable demo_called \<and> dispatch_step demo_called w' \<and> length (command_outcomes ''c1'' (db_outcomes (dw_db w'))) = 1
     \<and> ledger_shape (command_outcomes ''c1'' (db_outcomes (dw_db w')))"
proof -
  obtain db' row where f: "finalizeIn demo_service (''o1'', ''v1'') 4 demo_leased no_effect None (demo_leased_db 63) = Inr db'"
    "db_outcomes db' = [row]" "ot_command row = ''c1''"
    using demo_finalize by blast
  have step: "dispatch_step demo_called (demo_called\<lparr>dw_db := db', dw_tasks := []\<rparr>)"
    using dispatch_step.finish[of demo_called "[]" demo_leased no_effect None "[]" _ None demo_service "(''o1'', ''v1'')" 4 db'] f(1)
    by (simp add: demo_called_def verifyDevice_def deadline_unknown_def Let_def)
  show ?thesis
    using step demo_called_reachable outcome_ledger_shape[OF demo_called_reachable step, of "''c1''"] f(2,3)
    by (intro exI[of _ "demo_called\<lparr>dw_db := db', dw_tasks := []\<rparr>"]) (simp add: command_outcomes_def)
qed

end
