(* ===== verification/Policy_Properties.thy ===== *)
theory Policy_Properties
  imports Policy_Principals Policy_Examples Action_Properties
begin

text \<open>
  What policy promises: a command is queued only for an intent that passed every gate, an effect happens
  only for an approved evaluation and at most once per intent, the hourly limit holds, and an approval
  is decided only by an authorized principal who signed exactly this assertion.
\<close>

section \<open>Transactions that queue nothing\<close>

text \<open>Policy changes the status of an intent and nothing else of what an intent record is loaded from.\<close>

definition intent_terms :: "intent_db_row \<Rightarrow> intent_db_row" where
  "intent_terms i = i\<lparr>nt_policy := '''', nt_updated := ''''\<rparr>"

definition same_sources :: "actions_db \<Rightarrow> actions_db \<Rightarrow> bool" where
  "same_sources db db' \<longleftrightarrow> map intent_terms (db_intents db') = map intent_terms (db_intents db) \<and> db_decisions db' = db_decisions db
     \<and> db_episodes db' = db_episodes db \<and> db_situations db' = db_situations db \<and> db_versions db' = db_versions db"

definition policy_quiet :: "actions_db \<Rightarrow> actions_db \<Rightarrow> bool" where
  "policy_quiet db db' \<longleftrightarrow> same_dispatch_tables db db' \<and> db_counts db' = db_counts db \<and> same_sources db db'
     \<and> (\<exists>ps. db_evaluations db' = db_evaluations db @ ps)"

lemmas quiet_defs = policy_quiet_def same_dispatch_tables_def same_sources_def

lemma policy_quiet_refl [simp]: "policy_quiet db db"
  by (simp add: quiet_defs)

lemma policy_quiet_trans: "policy_quiet a b \<Longrightarrow> policy_quiet b c \<Longrightarrow> policy_quiet a c"
  by (auto simp: quiet_defs)

lemma policy_quiet_fields:
  "policy_quiet db (db\<lparr>db_approvals := xs\<rparr>)" "policy_quiet db (db\<lparr>db_events := evs\<rparr>)"
  by (simp_all add: quiet_defs)

lemma intent_terms_status: "map intent_terms (sql_update P (\<lambda>i. i\<lparr>nt_policy := st, nt_updated := t\<rparr>) is) = map intent_terms is"
  by (auto simp: sql_update_def intent_terms_def)

lemma SetIntentStatus_quiet: "policy_quiet db (SetIntentStatus i st now db)"
  by (simp add: SetIntentStatus_def quiet_defs intent_terms_status)

lemma audit_Inr:
  assumes "audit s ids e o' db = Inr (r, db')"
  shows "r = (ev_result e)\<lparr>re_Result := oc_Status o', re_Reason := oc_Reason o'\<rparr>
    \<and> db' = db\<lparr>db_evaluations := db_evaluations db @ [audit_row s (id_Policy ids) e r (AuditReason o')]\<rparr>"
  using assms by (auto simp: audit_def Let_def bind_res_Inr_iff RecordEvaluation_def split: if_splits)

lemma audit_quiet: "audit s ids e o' db = Inr (r, db') \<Longrightarrow> policy_quiet db db'"
  by (drule audit_Inr) (simp add: quiet_defs)

lemma finish_quiet: "finish s ids e o' db = Inr (r, db') \<Longrightarrow> policy_quiet db db'"
  unfolding finish_def using SetIntentStatus_quiet audit_quiet policy_quiet_trans by blast

lemma appendLifecycle_quiet: "appendLifecycle s ev db = Inr db' \<Longrightarrow> policy_quiet db db'"
  by (auto simp: appendLifecycle_def bind_res_Inr_iff policy_quiet_fields)

lemma ledger_result_quiet: "ledger_result op r db = Inr db' \<Longrightarrow> policy_quiet db db'"
  by (auto simp: ledger_result_def policy_quiet_fields split: sum.splits)

lemma notices_quiet:
  "AppendApprovalWithdrawn s row i reason now db = Inr db' \<Longrightarrow> policy_quiet db db'"
  "AppendApprovalResolved s row i st reason now db = Inr db' \<Longrightarrow> policy_quiet db db'"
  "AppendApprovalRequested s row q now db = Inr db' \<Longrightarrow> policy_quiet db db'"
  by (auto simp: AppendApprovalWithdrawn_def AppendApprovalResolved_def AppendApprovalRequested_def bind_res_Inr_iff
      dest: appendLifecycle_quiet)

lemma openApproval_quiet:
  assumes "openApproval s ids e db = Inr (r, db')"
  shows "policy_quiet db db'"
proof -
  obtain q db1 db2 where l: "ledger_result ''insert approval'' (RequestApproval (aq_ID q) (ir_IntentID (ev_row e)) (FormatTime (ev_now e))
       (ReadableTime (ev_expiresAt e)) (aq_JSON q) (aq_Nonce q) (db_approvals db)) db = Inr db1"
    and n: "AppendApprovalRequested s (ev_row e) q (ev_now e) (SetIntentStatus (ir_IntentID (ev_row e)) ''approval_required'' (ev_now e) db1) = Inr db2"
    and a: "audit s ids (e\<lparr>ev_result := (ev_result e)\<lparr>re_ApprovalID := aq_ID q\<rparr>\<rparr>) (outcome_of ''approval_required'' ''risk_requires_approval'') db2 = Inr (r, db')"
    using assms by (auto simp: openApproval_def publishApprovalRequest_def Let_def bind_res_Inr_iff)
  show ?thesis
    using ledger_result_quiet[OF l] SetIntentStatus_quiet notices_quiet(3)[OF n] audit_quiet[OF a] by (meson policy_quiet_trans)
qed

lemma requireApproval_quiet: "requireApproval s ids e db = Inr (r, db') \<Longrightarrow> policy_quiet db db'"
  by (auto simp: requireApproval_def Let_def split: if_splits dest: audit_quiet openApproval_quiet)

lemma recordExpiredApproval_quiet: "recordExpiredApproval s ids e i reason db = Inr (r, db') \<Longrightarrow> policy_quiet db db'"
  unfolding recordExpiredApproval_def bind_res_Inr_iff
  by (blast intro: policy_quiet_trans[OF policy_quiet_fields(1)] policy_quiet_trans[OF notices_quiet(2)] finish_quiet)

lemma evaluateExisting_quiet: "evaluateExisting s ids e db = Inr (r, db') \<Longrightarrow> policy_quiet db db'"
  by (auto simp: evaluateExisting_def expireExistingApproval_def reportExisting_def bind_res_Inr_iff
      split: if_splits prod.splits option.splits dest: audit_quiet recordExpiredApproval_quiet)


section \<open>The transaction that queues a command\<close>

text \<open>
  \<open>queued\<close> is what a transaction that queues a command does to the tables: the command is inserted, counted
  against its hour, published in the outbox, and recorded with an approved evaluation.
\<close>

definition queued :: "policy_service \<Rightarrow> policy_ids \<Rightarrow> intent_record \<Rightarrow> command_record \<Rightarrow> time \<Rightarrow> actions_db \<Rightarrow> actions_db \<Rightarrow> bool" where
  "queued s ids row c now db db' \<longleftrightarrow> (\<exists>db1 p.
     InsertCommand (policy_command_row row c now) db = Inr (True, db1)
     \<and> same_dispatch_tables (InsertCommandOutbox (cc_ID c) now db1) db'
     \<and> db_counts db' = (if ir_RateLimitPerHour row \<le> 0 then db_counts db else db_counts (snd (DispatchWithinLimit row db)))
     \<and> (0 < ir_RateLimitPerHour row \<longrightarrow> \<not> fst (DispatchWithinLimit row db))
     \<and> db_intents db' = db_intents (SetIntentStatus (ir_IntentID row) ''approved'' now db)
     \<and> db_approvals db' = db_approvals db \<and> same_sources db db'
     \<and> db_evaluations db' = db_evaluations db @ [p] \<and> pe_intent p = ir_IntentID row \<and> pe_result p = ''approved''
     \<and> pe_command p = null_if_empty (cc_ID c) \<and> pe_digest p = ps_policyDigest s \<and> pe_evaluated p = now)"

lemma InsertCommand_Inr:
  assumes "InsertCommand c db = Inr (inserted, db1)"
  shows "if inserted then db1 = db\<lparr>db_commands := db_commands db @ [c\<lparr>cm_status := CommandPending\<rparr>]\<rparr>
      \<and> (\<forall>r \<in> set (db_commands db). cm_intent r \<noteq> cm_intent c \<and> cm_id r \<noteq> cm_id c \<and> cm_idempotency r \<noteq> cm_idempotency c)
    else db1 = db \<and> (\<exists>r \<in> set (db_commands db). cm_intent r = cm_intent c)"
  using assms by (auto simp: InsertCommand_def list_ex_iff split: if_splits)

lemma DispatchWithinLimit_counts:
  "fst (DispatchWithinLimit row (db\<lparr>db_commands := cs\<rparr>)) = fst (DispatchWithinLimit row db)"
  "db_counts (snd (DispatchWithinLimit row (db\<lparr>db_commands := cs\<rparr>))) = db_counts (snd (DispatchWithinLimit row db))"
  "snd (DispatchWithinLimit row db) = db\<lparr>db_counts := db_counts (snd (DispatchWithinLimit row db))\<rparr>"
  by (cases "map_of (db_counts db) (dispatch_key row)"; simp add: DispatchWithinLimit_def)+

lemma DispatchWithinLimit_over: "DispatchWithinLimit row db = (True, db') \<Longrightarrow> db' = db"
  by (auto simp: DispatchWithinLimit_def split: option.splits if_splits)

lemma rateLimited_cases:
  assumes "rateLimited e k db = Inr (limited, db')"
  shows "if limited then fst (DispatchWithinLimit (ev_row e) db) \<and> RemovePreparedCommand (ir_IntentID (ev_row e)) k db = Inr ((), db')
    else db' = db\<lparr>db_counts := (if ir_RateLimitPerHour (ev_row e) \<le> 0 then db_counts db else db_counts (snd (DispatchWithinLimit (ev_row e) db)))\<rparr>
      \<and> (0 < ir_RateLimitPerHour (ev_row e) \<longrightarrow> \<not> fst (DispatchWithinLimit (ev_row e) db))"
proof (cases "ir_RateLimitPerHour (ev_row e) \<le> 0")
  case False
  obtain over db1 where d: "DispatchWithinLimit (ev_row e) db = (over, db1)"
    by (cases "DispatchWithinLimit (ev_row e) db")
  show ?thesis
    using assms False d DispatchWithinLimit_counts(3)[of "ev_row e" db] DispatchWithinLimit_over[of "ev_row e" db db1]
    by (cases over) (auto simp: rateLimited_def bind_res_Inr_iff)
qed (use assms in \<open>auto simp: rateLimited_def\<close>)

text \<open>A command over the limit is withdrawn again, leaving the commands as they were.\<close>

lemma withdrawn_command:
  assumes "InsertCommand c db = Inr (True, db1)" "RemovePreparedCommand (cm_intent c) (cm_id c) db1 = Inr ((), db2)"
  shows "db2 = db"
proof -
  have c: "db1 = db\<lparr>db_commands := db_commands db @ [c\<lparr>cm_status := CommandPending\<rparr>]\<rparr>"
    "\<forall>r \<in> set (db_commands db). cm_intent r \<noteq> cm_intent c"
    using InsertCommand_Inr[OF assms(1)] by auto
  let ?P = "\<lambda>r. cm_intent r = cm_intent c \<and> cm_id r = cm_id c \<and> cm_status r = CommandPending"
  have "filter (\<lambda>r. \<not> ?P r) (db_commands db) = db_commands db"
    using c(2) by (auto simp: filter_id_conv)
  then show ?thesis
    using assms(2) c(1) by (auto simp: RemovePreparedCommand_def Let_def split: if_splits)
qed

lemma commandForIntent_cases:
  assumes "commandForIntent s ids e db = Inr ((c, existing), db1)"
  obtains (present) "db1 = db" "existing \<noteq> ''''"
    | (inserted) "existing = ''''" "NewCommand (id_Command ids) (ps_policyDigest s) (ev_row e) (ev_intent e) (ev_now e) = Inr c"
        "InsertCommand (policy_command_row (ev_row e) c (ev_now e)) db = Inr (True, db1)"
proof (cases "ExistingCommandID (ir_IntentID (ev_row e)) db = ''''")
  case False
  then show ?thesis using assms present by (auto simp: commandForIntent_def Let_def)
next
  case True
  then obtain c0 inserted db0 where c0: "NewCommand (id_Command ids) (ps_policyDigest s) (ev_row e) (ev_intent e) (ev_now e) = Inr c0"
    "InsertCommand (policy_command_row (ev_row e) c0 (ev_now e)) db = Inr (inserted, db0)"
    "(if inserted then Inr ((c0, ''''), db0)
       else let x = ExistingCommandID (ir_IntentID (ev_row e)) db0
            in if x = '''' then Inl (Errorf ''command insert conflicted but no command exists for intent'') else Inr ((no_command, x), db0)) = Inr ((c, existing), db1)"
    using assms by (auto simp: commandForIntent_def StoreCommandOnce_def Let_def bind_res_Inr_iff split: prod.splits)
  then show ?thesis
    using True InsertCommand_Inr[OF c0(2)] inserted by (cases inserted) (auto simp: Let_def)
qed

lemma queueApprovedCommand_Inr:
  assumes "queueApprovedCommand s ids e c db = Inr (r, db')"
  shows "\<exists>p. db' = (SetIntentStatus (ir_IntentID (ev_row e)) ''approved'' (ev_now e) (InsertCommandOutbox (cc_ID c) (ev_now e) db))
      \<lparr>db_evaluations := db_evaluations db @ [p]\<rparr> \<and> pe_intent p = ir_IntentID (ev_row e) \<and> pe_result p = ''approved''
    \<and> pe_command p = null_if_empty (cc_ID c) \<and> pe_digest p = ps_policyDigest s \<and> pe_evaluated p = ev_now e"
  using assms unfolding queueApprovedCommand_def Let_def
  by (auto dest!: audit_Inr simp: audit_row_def outcome_of_def SetIntentStatus_def InsertCommandOutbox_def)

lemma approveAutomatic_cases:
  assumes "approveAutomatic s ids e db = Inr (r, db')"
  obtains (quiet) "policy_quiet db db'"
    | (queued) c where "AssertReady (db_interlock db) = Inr ()"
        "NewCommand (id_Command ids) (ps_policyDigest s) (ev_row e) (ev_intent e) (ev_now e) = Inr c"
        "queued s ids (ev_row e) c (ev_now e) db db'"
proof (cases "AssertReady (db_interlock db)")
  case (Inl err)
  then show ?thesis
    using assms by (intro quiet) (auto simp: approveAutomatic_def split: interlock_error.splits dest: finish_quiet)
next
  case (Inr u)
  obtain c existing db1 where c: "commandForIntent s ids e db = Inr ((c, existing), db1)"
    "approvePreparedCommand s ids e c existing db1 = Inr (r, db')"
    using assms Inr by (auto simp: approveAutomatic_def bind_res_Inr_iff)
  from c(1) show ?thesis
  proof (cases rule: commandForIntent_cases)
    case present
    then show ?thesis
      using c(2) by (intro quiet) (auto simp: approvePreparedCommand_def dest: audit_quiet)
  next
    case inserted
    let ?row = "ev_row e"
    obtain limited db2 where l: "rateLimited e (cc_ID c) db1 = Inr (limited, db2)"
      "if limited then finish s ids e (outcome_of ''denied'' ''rate_limited'') db2 = Inr (r, db')
       else queueApprovedCommand s ids e c db2 = Inr (r, db')"
      using c(2) inserted(1) by (auto simp: approvePreparedCommand_def bind_res_Inr_iff split: if_splits)
    obtain cs where db1: "db1 = db\<lparr>db_commands := cs\<rparr>"
      using InsertCommand_Inr[OF inserted(3)] by auto
    show ?thesis
    proof (cases limited)
      case True
      then have "RemovePreparedCommand (ir_IntentID ?row) (cc_ID c) db1 = Inr ((), db2)"
        using rateLimited_cases[OF l(1)] by simp
      then have "db2 = db"
        using withdrawn_command[OF inserted(3)] by (simp add: policy_command_row_def)
      then show ?thesis using l(2) True by (intro quiet) (auto dest: finish_quiet)
    next
      case False
      have db2: "db2 = db\<lparr>db_commands := cs, db_counts := (if ir_RateLimitPerHour ?row \<le> 0 then db_counts db else db_counts (snd (DispatchWithinLimit ?row db)))\<rparr>"
        "0 < ir_RateLimitPerHour ?row \<longrightarrow> \<not> fst (DispatchWithinLimit ?row db)"
        using rateLimited_cases[OF l(1)] False by (simp_all add: db1 DispatchWithinLimit_counts(1,2))
      obtain p where p: "db' = (SetIntentStatus (ir_IntentID ?row) ''approved'' (ev_now e) (InsertCommandOutbox (cc_ID c) (ev_now e) db2))
          \<lparr>db_evaluations := db_evaluations db2 @ [p]\<rparr>" "pe_intent p = ir_IntentID ?row" "pe_result p = ''approved''"
        "pe_command p = null_if_empty (cc_ID c)" "pe_digest p = ps_policyDigest s" "pe_evaluated p = ev_now e"
        using queueApprovedCommand_Inr[of s ids e c db2 r db'] l(2) False by auto
      have "queued s ids ?row c (ev_now e) db db'"
        unfolding queued_def using inserted(3) db2(2) p(2-6)
        by (intro exI[of _ db1] exI[of _ p]) (simp add: p(1) db2(1) db1 same_dispatch_tables_def same_sources_def intent_terms_status SetIntentStatus_def InsertCommandOutbox_def)
      then show ?thesis using Inr inserted(2) by (intro queued) auto
    qed
  qed
qed


section \<open>The gates\<close>

text \<open>Everything that must hold of an intent, and of the database, before a command is queued for it.\<close>

definition governed :: "policy_service \<Rightarrow> string \<Rightarrow> time \<Rightarrow> actions_db \<Rightarrow> intent_record \<Rightarrow> decision_document \<Rightarrow> intent_document \<Rightarrow> bool" where
  "governed s intentID now db row d n \<longleftrightarrow>
     ps_runtimeOwner s (ps_ownerEpoch s) db = Inr ()
     \<and> LoadIntent intentID db = Inr row \<and> ps_decisionEpoch s (ir_PolicyEpoch row) db = Inr () \<and> ir_PolicyStatus row = ''pending''
     \<and> ParseGovernanceDocuments s row = Inr (d, n) \<and> MatchesIntentIdentity row n
     \<and> ir_EpisodeProducedDecision row \<and> \<not> MateriallySuperseded row \<and> \<not> SourceHealthIncomplete row
     \<and> \<not> ir_ExpiryUnreadable row \<and> now < ir_ExpiresAt row
     \<and> AssertReady (db_interlock db) = Inr ()
     \<and> (RouteFor (ir_RiskClass row) (ir_RequiresApproval row) = RouteAutomatic
        \<or> RouteFor (ir_RiskClass row) (ir_RequiresApproval row) = RouteApproval
          \<and> (\<exists>a \<in> set (db_approvals db). ap_intent a = ir_IntentID row \<and> ap_status a = ApprovalApproved))"

lemma ApprovedApproval_row:
  assumes "ApprovedApproval intentID db \<noteq> ''''"
  shows "\<exists>a \<in> set (db_approvals db). ap_id a = ApprovedApproval intentID db \<and> ap_intent a = intentID \<and> ap_status a = ApprovalApproved"
  using assms by (auto simp: ApprovedApproval_def LatestApprovedOfIntent_def found_of_def split: option.splits dest!: latest_decided_mem)

lemma FreshnessFailure_fresh:
  assumes "FreshnessFailure row now = (status, '''', expires)"
  shows "ir_EpisodeProducedDecision row \<and> \<not> MateriallySuperseded row \<and> \<not> SourceHealthIncomplete row \<and> \<not> ir_ExpiryUnreadable row
    \<and> now < ir_ExpiresAt row \<and> expires = ir_ExpiresAt row"
  using assms by (auto simp: FreshnessFailure_def expiryFailure_def split: if_splits)

lemma routeIntent_cases:
  assumes "routeIntent s ids e db = Inr (r, db')"
  obtains (quiet) "policy_quiet db db'"
    | (queued) c where "AssertReady (db_interlock db) = Inr ()"
        "NewCommand (id_Command ids) (ps_policyDigest s) (ev_row e) (ev_intent e) (ev_now e) = Inr c" "queued s ids (ev_row e) c (ev_now e) db db'"
        "RouteFor (ir_RiskClass (ev_row e)) (ir_RequiresApproval (ev_row e)) = RouteAutomatic
          \<or> RouteFor (ir_RiskClass (ev_row e)) (ir_RequiresApproval (ev_row e)) = RouteApproval
            \<and> (\<exists>a \<in> set (db_approvals db). ap_intent a = ir_IntentID (ev_row e) \<and> ap_status a = ApprovalApproved)"
proof (cases "RouteFor (ir_RiskClass (ev_row e)) (ir_RequiresApproval (ev_row e))")
  case RouteAutomatic
  then have "approveAutomatic s ids e db = Inr (r, db')"
    using assms by (simp add: routeIntent_def RiskRoute_def Let_def)
  then show ?thesis by (cases rule: approveAutomatic_cases) (use RouteAutomatic quiet queued in auto)
next
  case RouteApproval
  then have a: "approveOrRequireApproval s ids e db = Inr (r, db')"
    using assms by (simp add: routeIntent_def RiskRoute_def Let_def)
  show ?thesis
  proof (cases "ApprovedApproval (ir_IntentID (ev_row e)) db = ''''")
    case True
    then show ?thesis using a by (intro quiet) (auto simp: approveOrRequireApproval_def dest: requireApproval_quiet)
  next
    case False
    from a False have "approveAutomatic s ids (e\<lparr>ev_result := (ev_result e)\<lparr>re_ApprovalID := ApprovedApproval (ir_IntentID (ev_row e)) db,
        re_Reason := ''approved_by_human''\<rparr>\<rparr>) db = Inr (r, db')"
      by (simp add: approveOrRequireApproval_def Let_def)
    then show ?thesis
      by (cases rule: approveAutomatic_cases) (use RouteApproval ApprovedApproval_row[OF False] quiet queued in auto)
  qed
next
  case RouteDenied
  then show ?thesis using assms by (intro quiet) (auto simp: routeIntent_def RiskRoute_def Let_def dest: finish_quiet)
qed

lemma evaluatePending_cases:
  assumes "evaluatePending s ids e db = Inr (r, db')"
  obtains (quiet) "policy_quiet db db'"
    | (routed) d n where "ParseGovernanceDocuments s (ev_row e) = Inr (d, n)" "MatchesIntentIdentity (ev_row e) n"
        "ir_EpisodeProducedDecision (ev_row e)" "\<not> MateriallySuperseded (ev_row e)" "\<not> SourceHealthIncomplete (ev_row e)"
        "\<not> ir_ExpiryUnreadable (ev_row e)" "ev_now e < ir_ExpiresAt (ev_row e)"
        "routeIntent s ids (e\<lparr>ev_decision := d, ev_intent := n, ev_expiresAt := ir_ExpiresAt (ev_row e)\<rparr>) db = Inr (r, db')"
proof (cases "ParseGovernanceDocuments s (ev_row e)")
  case (Inl reason)
  then show ?thesis using assms by (intro quiet) (auto simp: evaluatePending_def dest: finish_quiet)
next
  case (Inr dn)
  obtain d n where dn: "dn = (d, n)" by (cases dn)
  let ?e = "e\<lparr>ev_decision := d, ev_intent := n\<rparr>"
  obtain status reason expires where f: "FreshnessFailure (ev_row e) (ev_now e) = (status, reason, expires)"
    by (cases "FreshnessFailure (ev_row e) (ev_now e)")
  show ?thesis
  proof (cases "validatePendingIdentity ?e db = '''' \<and> status \<noteq> ''stale'' \<and> reason = ''''")
    case True
    then show ?thesis
      using assms Inr dn f FreshnessFailure_fresh[of "ev_row e" "ev_now e" status expires]
      by (intro routed[of d n]) (auto simp: evaluatePending_def Let_def evaluateFreshPending_def validatePendingIdentity_def split: if_splits)
  next
    case False
    then show ?thesis
      using assms Inr dn f by (intro quiet)
        (auto simp: evaluatePending_def Let_def evaluateFreshPending_def markStale_def split: if_splits
          dest: finish_quiet audit_quiet intro: policy_quiet_trans[OF SetIntentStatus_quiet])
  qed
qed

lemma EvaluateIntent_cases:
  assumes "EvaluateIntent s ids intentID now db = Inr (r, db')"
  obtains (quiet) "policy_quiet db db'"
    | (queued) row d n c where "governed s intentID now db row d n"
        "NewCommand (id_Command ids) (ps_policyDigest s) row n now = Inr c" "queued s ids row c now db db'"
proof -
  obtain row where o: "ps_runtimeOwner s (ps_ownerEpoch s) db = Inr ()" "LoadIntent intentID db = Inr row"
    and l: "evaluateLoaded s ids (newEvaluation row now) db = Inr (r, db')"
    using assms by (auto simp: EvaluateIntent_def policy_assertOwner_def bind_res_Inr_iff)
  have e: "ev_row (newEvaluation row now) = row" "ev_now (newEvaluation row now) = now"
    by (simp_all add: newEvaluation_def)
  show ?thesis
  proof (cases "ps_decisionEpoch s (ir_PolicyEpoch row) db")
    case (Inl err)
    then show ?thesis using l e by (intro quiet) (auto simp: evaluateLoaded_def denyEpochIntent_def dest: finish_quiet)
  next
    case (Inr u)
    show ?thesis
    proof (cases "ir_PolicyStatus row = ''pending''")
      case False
      then show ?thesis using l e Inr by (intro quiet) (auto simp: evaluateLoaded_def dest: evaluateExisting_quiet)
    next
      case True
      then have "evaluatePending s ids (newEvaluation row now) db = Inr (r, db')"
        using l e Inr by (simp add: evaluateLoaded_def)
      then show ?thesis
      proof (cases rule: evaluatePending_cases)
        case (routed d n)
        from routed(8) show ?thesis
        proof (cases rule: routeIntent_cases)
          case (queued c)
          with routed o True Inr e that(2)[of row d n c] show ?thesis by (auto simp: governed_def)
        qed (rule quiet)
      qed (rule quiet)
    qed
  qed
qed


section \<open>The hour a command counts against\<close>

definition limit_of :: "string \<Rightarrow> actions_db \<Rightarrow> ((string \<times> string \<times> string) \<times> int) option" where
  "limit_of intentID db = (case LoadIntent intentID db of Inl _ \<Rightarrow> None | Inr row \<Rightarrow> Some (dispatch_key row, ir_RateLimitPerHour row))"

lemma find_terms:
  assumes "map intent_terms is' = map intent_terms is"
  shows "rel_option (\<lambda>a b. intent_terms a = intent_terms b) (find (\<lambda>i. nt_id i = k) is') (find (\<lambda>i. nt_id i = k) is)"
proof -
  have "list_all2 (\<lambda>a b. intent_terms a = intent_terms b) is' is"
    using assms by (simp add: list_eq_iff_nth_eq list_all2_conv_all_nth)
  then show ?thesis
  proof (induction rule: list_all2_induct)
    case (Cons a as b bs)
    then have "nt_id a = nt_id b"
      by (cases a; cases b) (simp add: intent_terms_def)
    with Cons show ?case by simp
  qed simp
qed

lemma limit_of_same:
  assumes "same_sources db db'"
  shows "limit_of k db' = limit_of k db"
proof (cases "find (\<lambda>i. nt_id i = k) (db_intents db)")
  case None
  with find_terms[of "db_intents db'" "db_intents db" k] assms have "find (\<lambda>i. nt_id i = k) (db_intents db') = None"
    by (simp add: same_sources_def)
  with None show ?thesis by (simp add: limit_of_def LoadIntent_def scanPolicyIntent_def)
next
  case (Some i)
  with find_terms[of "db_intents db'" "db_intents db" k] assms obtain i' where i': "find (\<lambda>i. nt_id i = k) (db_intents db') = Some i'"
    "intent_terms i' = intent_terms i"
    by (auto simp: same_sources_def option_rel_Some2)
  have f: "nt_decision i' = nt_decision i" "nt_situation i' = nt_situation i" "nt_version i' = nt_version i" "nt_tenant i' = nt_tenant i"
    "nt_type i' = nt_type i" "nt_rate_limit i' = nt_rate_limit i"
    using i'(2) by (cases i; cases i'; simp add: intent_terms_def)+
  show ?thesis
    using Some i'(1) f assms
    by (simp add: limit_of_def LoadIntent_def scanPolicyIntent_def same_sources_def first_version_def intent_record_of_def dispatch_key_def
        split: option.splits)
       (auto split: bind_splits option.splits)
qed


section \<open>Policy transactions\<close>

datatype policy_request =
    EvaluateRequest policy_ids string time
  | ResolveRequest policy_ids approval_resolution

definition policy_txn :: "policy_service \<Rightarrow> policy_request \<Rightarrow> policy_result transaction" where
  "policy_txn s q db = (case q of
     EvaluateRequest ids intentID now \<Rightarrow> EvaluateIntent s ids intentID now db
   | ResolveRequest ids r \<Rightarrow> policy_ResolveApproval s ids r db)"

definition request_ids :: "policy_request \<Rightarrow> policy_ids" where
  "request_ids q = (case q of EvaluateRequest ids _ _ \<Rightarrow> ids | ResolveRequest ids _ \<Rightarrow> ids)"

lemma authorizeApproval_Inr:
  assumes "authorizeApproval s row r db = Inr db1"
  obtains entity key expires nonce bytes where "rq_Approver r \<noteq> ''''" "rq_Relay r \<noteq> ''''" "rq_Approver r \<noteq> rq_Relay r"
    "ApprovalEntity (ir_SituationID row) db = Inr entity" "RelayActivity (ir_TenantID row) (rq_Relay r) db = 1"
    "ApproverKey (ir_TenantID row) (rq_Approver r) db = Some key" "length key = PublicKeySize"
    "AssertionBinding (rq_ID r) db = Inr (expires, nonce)"
    "ApprovalAssertionSigningBytes (assertionFor row r expires nonce) = Inr bytes" "ps_verify s key bytes (rq_Signature r)"
    "ApprovalAuthority row entity (rq_Approver r) db \<noteq> 0"
    "db1 = db\<lparr>db_approvals := BindAssertion (rq_ID r) (Sum bytes) (db_approvals db)\<rparr>"
proof -
  obtain entity key db2 where a: "DistinctPrincipals (rq_Approver r) (rq_Relay r) = Inr ()" "ApprovalEntity (ir_SituationID row) db = Inr entity"
    "activeRelayAndKey (ir_TenantID row) (rq_Relay r) (rq_Approver r) db = Inr key" "verifyApprovalAssertion s row r key db = Inr db2"
    "AuthorizedApprover (ApprovalAuthority row entity (rq_Approver r) db2) = Inr ()" "db1 = db2"
    using assms by (auto simp: authorizeApproval_def loadApprovalPrincipals_def bind_res_Inr_iff)
  obtain expires nonce bytes where v: "AssertionBinding (rq_ID r) db = Inr (expires, nonce)"
    "ApprovalAssertionSigningBytes (assertionFor row r expires nonce) = Inr bytes" "ps_verify s key bytes (rq_Signature r)"
    "db2 = db\<lparr>db_approvals := BindAssertion (rq_ID r) (Sum bytes) (db_approvals db)\<rparr>"
    using a(4) by (auto simp: verifyApprovalAssertion_def approvalSigningBytes_def VerifyAssertion_def bind_res_Inr_iff split: if_splits)
  have "ApprovalAuthority row entity (rq_Approver r) db2 = ApprovalAuthority row entity (rq_Approver r) db"
    by (simp add: v(4) ApprovalAuthority_def active_authorities_def cong: if_cong)
  with a v that[of entity key expires nonce bytes] show ?thesis
    by (auto simp: DistinctPrincipals_def activeRelayAndKey_def ActiveRelay_def ValidApproverKey_def AuthorizedApprover_def bind_res_Inr_iff
        split: if_splits option.splits)
qed

lemma authorizeApproval_quiet: "authorizeApproval s row r db = Inr db1 \<Longrightarrow> policy_quiet db db1"
  by (erule authorizeApproval_Inr) (simp add: policy_quiet_fields)

lemma recordApprovalResolution_Inr:
  assumes "recordApprovalResolution s row r db = Inr db'"
  obtains rows db1 where "ResolveApproval (rq_ID r) (fst (ApprovalDecision (rq_Approved r))) (rq_Approver r) (rq_Relay r) (rq_Reason r)
      (FormatTime (rq_Now r)) (db_approvals db) = Inr rows"
    "db1 = SetIntentStatus (ir_IntentID row) (snd (ApprovalDecision (rq_Approved r))) (rq_Now r) (db\<lparr>db_approvals := rows\<rparr>)"
    "AppendApprovalResolved s row (rq_ID r) (fst (ApprovalDecision (rq_Approved r))) (rq_Reason r) (rq_Now r) db1 = Inr db'"
  using assms unfolding recordApprovalResolution_def
  by (auto simp: bind_res_Inr_iff ledger_result_def split: prod.splits sum.splits)

lemma recordApprovalResolution_quiet: "recordApprovalResolution s row r db = Inr db' \<Longrightarrow> policy_quiet db db'"
proof (erule recordApprovalResolution_Inr)
  fix rows db1
  assume "db1 = SetIntentStatus (ir_IntentID row) (snd (ApprovalDecision (rq_Approved r))) (rq_Now r) (db\<lparr>db_approvals := rows\<rparr>)"
    and n: "AppendApprovalResolved s row (rq_ID r) (fst (ApprovalDecision (rq_Approved r))) (rq_Reason r) (rq_Now r) db1 = Inr db'"
  then have "policy_quiet db db1" by (simp add: policy_quiet_trans[OF policy_quiet_fields(1) SetIntentStatus_quiet])
  with notices_quiet(2)[OF n] show ?thesis by (rule policy_quiet_trans[rotated])
qed

lemma withdrawStaleApproval_quiet:
  assumes "withdrawStaleApproval s ids e r db = Inr (x, db')"
  shows "policy_quiet db db'"
proof -
  obtain db2 db3 where n: "AppendApprovalWithdrawn s (ev_row e) (rq_ID r) ''situation_version_conflict'' (rq_Now r)
      (db\<lparr>db_approvals := WithdrawApproval (rq_ID r) (FormatTime (rq_Now r)) (db_approvals db)\<rparr>) = Inr db2"
    "AppendApprovalResolved s (ev_row e) (rq_ID r) ''denied'' ''situation_version_conflict'' (rq_Now r) db2 = Inr db3"
    "finish s ids e (outcome_of ''denied'' ''situation_version_conflict'') db3 = Inr (x, db')"
    using assms by (auto simp: withdrawStaleApproval_def Let_def bind_res_Inr_iff)
  show ?thesis
    by (rule policy_quiet_trans[OF policy_quiet_trans[OF policy_quiet_trans[OF policy_quiet_fields(1) notices_quiet(1)[OF n(1)]]
          notices_quiet(2)[OF n(2)]] finish_quiet[OF n(3)]])
qed

lemma expireRequestedApproval_quiet:
  assumes "expireRequestedApproval s ids e r db = Inr (x, db')"
  shows "policy_quiet db db'"
proof -
  obtain db2 where n: "AppendApprovalResolved s (ev_row e) (rq_ID r) ''expired'' ''approval_expired'' (rq_Now r)
      (db\<lparr>db_approvals := ExpireApproval (rq_ID r) (FormatTime (rq_Now r)) (db_approvals db)\<rparr>) = Inr db2"
    "finish s ids e (outcome_of ''expired'' ''approval_expired'') db2 = Inr (x, db')"
    using assms by (auto simp: expireRequestedApproval_def Let_def bind_res_Inr_iff)
  show ?thesis
    by (rule policy_quiet_trans[OF policy_quiet_trans[OF policy_quiet_fields(1) notices_quiet(2)[OF n(1)]] finish_quiet[OF n(2)]])
qed

text \<open>A resolution that is authorized and approves ends in an evaluation; every other one queues nothing.\<close>

lemma resolve_cases:
  assumes "policy_ResolveApproval s ids r db = Inr (x, db')"
  obtains (quiet) "policy_quiet db db'"
    | (evaluated) row a db1 db2 where "LoadApproval (rq_ID r) (rq_TenantID r) db = Inr a" "LoadIntent (ay_IntentID a) db = Inr row"
        "authorizeApproval s row r db = Inr db1" "recordApprovalResolution s row r db1 = Inr db2" "rq_Approved r"
        "EvaluateIntent s ids (ir_IntentID row) (rq_Now r) db2 = Inr (x, db')" "policy_quiet db db2"
proof -
  obtain a row where l: "LoadApproval (rq_ID r) (rq_TenantID r) db = Inr a" "LoadIntent (ay_IntentID a) db = Inr row"
    and p: "resolvePendingApproval s ids ((newEvaluation row (rq_Now r))\<lparr>ev_result := (ev_result (newEvaluation row (rq_Now r)))\<lparr>re_ApprovalID := rq_ID r\<rparr>\<rparr>) a r db = Inr (x, db')"
    using assms by (auto simp: policy_ResolveApproval_def Let_def bind_res_Inr_iff)
  let ?e = "(newEvaluation row (rq_Now r))\<lparr>ev_result := (ev_result (newEvaluation row (rq_Now r)))\<lparr>re_ApprovalID := rq_ID r\<rparr>\<rparr>"
  have row: "ev_row ?e = row" by (simp add: newEvaluation_def)
  show ?thesis
  proof (cases "ApprovalDisposition row a r")
    case DispositionAuthorize
    then have "resolveAuthorizedApproval s ids ?e r db = Inr (x, db')"
      using p row by (simp add: resolvePendingApproval_def)
    then obtain db1 db2 where d: "authorizeApproval s row r db = Inr db1" "recordApprovalResolution s row r db1 = Inr db2"
      "(if \<not> rq_Approved r then audit s ids ?e (outcome_of ''denied'' ''approval_denied'') db2
        else EvaluateIntent s ids (ir_IntentID row) (rq_Now r) db2) = Inr (x, db')"
      unfolding resolveAuthorizedApproval_def row by (auto simp: bind_res_Inr_iff)
    note q = policy_quiet_trans[OF authorizeApproval_quiet[OF d(1)] recordApprovalResolution_quiet[OF d(2)]]
    show ?thesis
    proof (cases "rq_Approved r")
      case True
      with d evaluated[OF l d(1,2) True _ q] show ?thesis by simp
    next
      case False
      with d(3) q show ?thesis by (intro quiet) (auto dest: audit_quiet intro: policy_quiet_trans)
    qed
  qed (use p row in \<open>auto simp: resolvePendingApproval_def intro: quiet dest: audit_quiet withdrawStaleApproval_quiet expireRequestedApproval_quiet\<close>)
qed


lemma policy_txn_cases:
  assumes "policy_txn s q db = Inr (r, db')"
  obtains (quiet) "policy_quiet db db'"
    | (queued) db0 intentID now row d n c where "policy_quiet db db0" "governed s intentID now db0 row d n"
        "NewCommand (id_Command (request_ids q)) (ps_policyDigest s) row n now = Inr c" "queued s (request_ids q) row c now db0 db'"
proof (cases q)
  case (EvaluateRequest ids intentID now)
  then have "EvaluateIntent s ids intentID now db = Inr (r, db')" using assms by (simp add: policy_txn_def)
  then show ?thesis
    by (cases rule: EvaluateIntent_cases) (use EvaluateRequest quiet queued[OF policy_quiet_refl] in \<open>auto simp: request_ids_def\<close>)
next
  case (ResolveRequest ids a)
  then have "policy_ResolveApproval s ids a db = Inr (r, db')" using assms by (simp add: policy_txn_def)
  then show ?thesis
  proof (cases rule: resolve_cases)
    case (evaluated row b db1 db2)
    from evaluated(6) show ?thesis
    proof (cases rule: EvaluateIntent_cases)
      case quiet
      with evaluated(7) that(1) show ?thesis by (blast intro: policy_quiet_trans)
    next
      case (queued row' d n c)
      with evaluated(7) that(2) ResolveRequest show ?thesis by (simp add: request_ids_def)
    qed
  qed (rule quiet)
qed

section \<open>A command passed every gate\<close>

lemma LoadIntent_id: "LoadIntent intentID db = Inr row \<Longrightarrow> ir_IntentID row = intentID"
  by (auto simp: LoadIntent_def scanPolicyIntent_def intent_record_of_def split: option.splits elim!: bind_SomeE dest!: find_SomeD)

lemma NewCommand_Inr:
  assumes "NewCommand commandID policyDigest row n now = Inr c"
  shows "cc_ID c = commandID \<and> length (cc_Key c) = 32 \<and> (\<exists>doc. Seal DomainCommand (AnyMap doc) = Inr (cc_JSON c, cc_SHA c)
    \<and> map_of doc ''command_id'' = Some (AnyString commandID) \<and> map_of doc ''intent_id'' = Some (AnyString (ir_IntentID row))
    \<and> map_of doc ''effector_route'' = Some (AnyString (ir_IntentType row)) \<and> map_of doc ''payload'' = Some (AnyMap (parameters_of n))
    \<and> map_of doc ''policy_digest'' = Some (AnyString policyDigest))"
  using assms unfolding NewCommand_def Let_def sealCommand_def bind_res_Inr_iff
  by (auto simp: Sum_def intro!: exI)

lemma queued_tables:
  assumes "queued s ids row c now db db'"
  shows "db_commands db' = db_commands db @ [policy_command_row row c now]"
    and "\<forall>x \<in> set (db_commands db). cm_intent x \<noteq> ir_IntentID row \<and> cm_id x \<noteq> cc_ID c"
    and "\<exists>x \<in> set (db_outbox db'). ob_kind x = ''command'' \<and> ob_aggregate x = cc_ID c"
    and "\<forall>i \<in> set (db_intents db'). nt_id i = ir_IntentID row \<longrightarrow> nt_policy i = ''approved''"
    and "\<exists>p. db_evaluations db' = db_evaluations db @ [p] \<and> pe_intent p = ir_IntentID row \<and> pe_result p = ''approved''
      \<and> pe_command p = null_if_empty (cc_ID c) \<and> pe_digest p = ps_policyDigest s \<and> pe_evaluated p = now"
proof -
  obtain db1 p where q: "InsertCommand (policy_command_row row c now) db = Inr (True, db1)"
    "same_dispatch_tables (InsertCommandOutbox (cc_ID c) now db1) db'"
    "db_intents db' = db_intents (SetIntentStatus (ir_IntentID row) ''approved'' now db)"
    "db_evaluations db' = db_evaluations db @ [p]" "pe_intent p = ir_IntentID row" "pe_result p = ''approved''"
    "pe_command p = null_if_empty (cc_ID c)" "pe_digest p = ps_policyDigest s" "pe_evaluated p = now"
    using assms unfolding queued_def by blast
  have db1: "db1 = db\<lparr>db_commands := db_commands db @ [policy_command_row row c now]\<rparr>"
    using InsertCommand_Inr[OF q(1)] by (simp add: policy_command_row_def)
  show "db_commands db' = db_commands db @ [policy_command_row row c now]"
    using q(2) by (simp add: db1 same_dispatch_tables_def InsertCommandOutbox_def)
  show "\<forall>x \<in> set (db_commands db). cm_intent x \<noteq> ir_IntentID row \<and> cm_id x \<noteq> cc_ID c"
    using InsertCommand_Inr[OF q(1)] by (simp add: policy_command_row_def)
  show "\<exists>x \<in> set (db_outbox db'). ob_kind x = ''command'' \<and> ob_aggregate x = cc_ID c"
    using q(2) by (auto simp: same_dispatch_tables_def InsertCommandOutbox_def list_ex_iff split: if_splits)
  show "\<forall>i \<in> set (db_intents db'). nt_id i = ir_IntentID row \<longrightarrow> nt_policy i = ''approved''"
    by (auto simp: q(3) SetIntentStatus_def sql_update_def)
  show "\<exists>p. db_evaluations db' = db_evaluations db @ [p] \<and> pe_intent p = ir_IntentID row \<and> pe_result p = ''approved''
      \<and> pe_command p = null_if_empty (cc_ID c) \<and> pe_digest p = ps_policyDigest s \<and> pe_evaluated p = now"
    using q(4-9) by blast
qed

text \<open>
  Claim C10. A command exists only for an intent that passed every gate: if an evaluation leaves a command that
  was not there before, then the runtime owner and the policy epoch hold, the intent was pending, its
  decision and intent documents decode, match their schemas, their rows and their digests, the episode
  concluded, the situation is not materially superseded nor (for a consequential class) incomplete, the
  intent is readable and unexpired, the interlock is ready, and the risk class is automatic or a human
  approved this very intent. The command is the only one of its intent, carries the parameters of the
  verified document under the command digest, stands in the outbox, and the intent and its evaluation
  are recorded as approved.
\<close>

theorem command_needs_every_gate:
  assumes "EvaluateIntent s ids intentID now db = Inr (r, db')" and "c \<in> set (db_commands db')" and "c \<notin> set (db_commands db)"
  shows "\<exists>row d n doc. governed s intentID now db row d n
    \<and> db_commands db' = db_commands db @ [c] \<and> cm_intent c = intentID \<and> (\<forall>x \<in> set (db_commands db). cm_intent x \<noteq> intentID)
    \<and> Seal DomainCommand (AnyMap doc) = Inr (cm_json c, cm_sha c) \<and> map_of doc ''payload'' = Some (AnyMap (parameters_of n))
    \<and> map_of doc ''effector_route'' = Some (AnyString (ni_Type n)) \<and> map_of doc ''policy_digest'' = Some (AnyString (ps_policyDigest s))
    \<and> (\<exists>x \<in> set (db_outbox db'). ob_kind x = ''command'' \<and> ob_aggregate x = cm_id c)
    \<and> (\<forall>i \<in> set (db_intents db'). nt_id i = intentID \<longrightarrow> nt_policy i = ''approved'')
    \<and> (\<exists>p. db_evaluations db' = db_evaluations db @ [p] \<and> pe_intent p = intentID \<and> pe_result p = ''approved'')"
  using assms(1)
proof (cases rule: EvaluateIntent_cases)
  case quiet
  with assms(2,3) show ?thesis by (simp add: quiet_defs)
next
  case (queued row d n k)
  have "ir_IntentID row = intentID" "ni_Type n = ir_IntentType row"
    using queued(1) LoadIntent_id by (auto simp: governed_def MatchesIntentIdentity_def)
  moreover have "c = policy_command_row row k now"
    using queued_tables(1)[OF queued(3)] assms(2,3) by auto
  moreover obtain doc where "Seal DomainCommand (AnyMap doc) = Inr (cc_JSON k, cc_SHA k)" "map_of doc ''payload'' = Some (AnyMap (parameters_of n))"
    "map_of doc ''effector_route'' = Some (AnyString (ir_IntentType row))" "map_of doc ''policy_digest'' = Some (AnyString (ps_policyDigest s))"
    using NewCommand_Inr[OF queued(2)] by blast
  ultimately show ?thesis
    using queued_tables[OF queued(3)] queued(1) by (intro exI[of _ row] exI[of _ d] exI[of _ n] exI[of _ doc]) (auto simp: policy_command_row_def)
qed

theorem command_needs_every_gate_witness:
  "EvaluateIntent demo_policy demo_ids ''i1'' 3 (demo_approving ''pending'' (FormatTime 3) [demo_granted_row ''h'']\<lparr>db_events := []\<rparr>)
       = Inr (demo_outcome, demo_commanded ''h'' [])
     \<and> (\<exists>row d n. governed demo_policy ''i1'' 3 (demo_approving ''pending'' (FormatTime 3) [demo_granted_row ''h'']\<lparr>db_events := []\<rparr>) row d n)
     \<and> (\<exists>x \<in> set (db_outbox (demo_commanded ''h'' [])). ob_kind x = ''command'' \<and> ob_aggregate x = ''c1'')"
proof -
  have c: "demo_released_row CommandPending 3 \<in> set (db_commands (demo_commanded ''h'' []))"
    "demo_released_row CommandPending 3 \<notin> set (db_commands (demo_approving ''pending'' (FormatTime 3) [demo_granted_row ''h'']\<lparr>db_events := []\<rparr>))"
    by (simp_all add: demo_commanded_def)
  have "cm_id (demo_released_row CommandPending 3) = ''c1''" by (simp add: demo_released_rows)
  with command_needs_every_gate[OF demo_evaluate c] demo_evaluate show ?thesis by (auto intro: bexI)
qed


section \<open>The hourly limit\<close>

definition count_of :: "string \<times> string \<times> string \<Rightarrow> actions_db \<Rightarrow> int" where
  "count_of k db = (case map_of (db_counts db) k of Some n \<Rightarrow> n | None \<Rightarrow> 0)"

lemma DispatchWithinLimit_count:
  assumes "\<not> fst (DispatchWithinLimit row db)" and "0 < ir_RateLimitPerHour row" and "db_counts db' = db_counts (snd (DispatchWithinLimit row db))"
  shows "count_of (dispatch_key row) db' = count_of (dispatch_key row) db + 1 \<and> count_of (dispatch_key row) db' \<le> ir_RateLimitPerHour row"
    and "k \<noteq> dispatch_key row \<Longrightarrow> count_of k db' = count_of k db"
  using assms
  by (auto simp: DispatchWithinLimit_def count_of_def AList.update_conv' split: option.splits if_splits)

lemma policy_txn_counts:
  assumes "policy_txn s q db = Inr (r, db')"
  obtains (quiet) "db_commands db' = db_commands db" "db_counts db' = db_counts db"
    | (counted) c k l where "db_commands db' = db_commands db @ [c]" "limit_of (cm_intent c) db = Some (k, l)"
        "l \<le> 0 \<Longrightarrow> db_counts db' = db_counts db" "0 < l \<Longrightarrow> count_of k db' = count_of k db + 1 \<and> count_of k db' \<le> l"
        "\<And>k'. k' \<noteq> k \<Longrightarrow> count_of k' db' = count_of k' db"
  using assms
proof (cases rule: policy_txn_cases)
  case quiet
  then show ?thesis using that(1) by (simp add: quiet_defs)
next
  case (queued db0 intentID now row d n c)
  have id: "ir_IntentID row = intentID" "LoadIntent intentID db0 = Inr row"
    using queued(2) LoadIntent_id by (auto simp: governed_def)
  have lim: "limit_of intentID db = Some (dispatch_key row, ir_RateLimitPerHour row)"
    using limit_of_same[of db db0 intentID] queued(1) id(2) by (simp add: quiet_defs limit_of_def)
  have same: "db_commands db0 = db_commands db" "db_counts db0 = db_counts db" "count_of k db0 = count_of k db" for k
    using queued(1) by (simp_all add: quiet_defs count_of_def)
  have counts: "db_counts db' = (if ir_RateLimitPerHour row \<le> 0 then db_counts db0 else db_counts (snd (DispatchWithinLimit row db0)))"
    "0 < ir_RateLimitPerHour row \<longrightarrow> \<not> fst (DispatchWithinLimit row db0)"
    using queued(4) unfolding queued_def by blast+
  show ?thesis
  proof (rule that(2)[of "policy_command_row row c now" "dispatch_key row" "ir_RateLimitPerHour row"])
    show "db_commands db' = db_commands db @ [policy_command_row row c now]"
      using queued_tables(1)[OF queued(4)] same by simp
    show "limit_of (cm_intent (policy_command_row row c now)) db = Some (dispatch_key row, ir_RateLimitPerHour row)"
      using lim id by (simp add: policy_command_row_def)
    show "db_counts db' = db_counts db" if "ir_RateLimitPerHour row \<le> 0"
      using counts(1) that same by simp
    show "count_of (dispatch_key row) db' = count_of (dispatch_key row) db + 1 \<and> count_of (dispatch_key row) db' \<le> ir_RateLimitPerHour row"
      if "0 < ir_RateLimitPerHour row"
      using DispatchWithinLimit_count(1)[of row db0 db'] counts that same by simp
    show "count_of k' db' = count_of k' db" if "k' \<noteq> dispatch_key row" for k'
    proof (cases "0 < ir_RateLimitPerHour row")
      case True
      then show ?thesis using DispatchWithinLimit_count(2)[of row db0 db' k'] counts that same by simp
    next
      case False
      then show ?thesis using counts(1) same by (simp add: count_of_def)
    qed
  qed
qed

text \<open>The policy transactions of a run, with the hour and the limit each queued command counts against.
  A failed transaction is rolled back.\<close>

definition new_dispatches :: "actions_db \<Rightarrow> actions_db \<Rightarrow> ((string \<times> string \<times> string) \<times> int) list" where
  "new_dispatches db db' = List.map_filter (\<lambda>c. limit_of (cm_intent c) db) (drop (length (db_commands db)) (db_commands db'))"

fun policy_run :: "policy_service \<Rightarrow> policy_request list \<Rightarrow> actions_db \<Rightarrow> ((string \<times> string \<times> string) \<times> int) list \<times> actions_db" where
  "policy_run s [] db = ([], db)"
| "policy_run s (q # qs) db = (case policy_txn s q db of
     Inl _ \<Rightarrow> policy_run s qs db
   | Inr (_, db') \<Rightarrow> (case policy_run s qs db' of (tally, db'') \<Rightarrow> (new_dispatches db db' @ tally, db'')))"

lemma policy_run_counts:
  assumes "policy_run s qs db = (tally, db')" and "\<forall>l. (k, l) \<in> set tally \<longrightarrow> 0 < l \<and> l \<le> L"
  shows "count_of k db' = count_of k db + int (length (filter (\<lambda>x. fst x = k) tally))
    \<and> (filter (\<lambda>x. fst x = k) tally \<noteq> [] \<longrightarrow> count_of k db' \<le> L)"
  using assms
proof (induction qs arbitrary: db tally)
  case (Cons q qs)
  show ?case
  proof (cases "policy_txn s q db")
    case (Inl err)
    then have "policy_run s qs db = (tally, db')" using Cons.prems(1) by simp
    from Cons.IH[OF this Cons.prems(2)] show ?thesis .
  next
    case (Inr rdb)
    obtain r db1 where r: "rdb = (r, db1)" by (cases rdb)
    obtain rest where rest: "policy_run s qs db1 = (rest, db')" "tally = new_dispatches db db1 @ rest"
      using Cons.prems(1) Inr r by (auto split: prod.splits)
    have ih: "count_of k db' = count_of k db1 + int (length (filter (\<lambda>x. fst x = k) rest))"
      "filter (\<lambda>x. fst x = k) rest \<noteq> [] \<longrightarrow> count_of k db' \<le> L"
      using Cons.IH[OF rest(1)] Cons.prems(2) rest(2) by auto
    from Inr r have "policy_txn s q db = Inr (r, db1)" by simp
    then show ?thesis
    proof (cases rule: policy_txn_counts)
      case quiet
      with ih rest(2) show ?thesis by (simp add: new_dispatches_def map_filter_simps count_of_def)
    next
      case (counted c k0 l)
      have tally: "tally = (k0, l) # rest"
        using counted(1,2) rest(2) by (simp add: new_dispatches_def map_filter_simps)
      show ?thesis
      proof (cases "k0 = k")
        case True
        then have "0 < l" "l \<le> L" using Cons.prems(2) tally by auto
        with True counted(4) ih tally show ?thesis by auto
      next
        case False
        with counted(5)[of k] ih tally show ?thesis by auto
      qed
    qed
  qed
qed simp

text \<open>
  Claim C12. The hourly limit holds over any sequence of evaluations and approvals: of one tenant, intent type
  and hour, starting from no dispatch, no more commands are queued than the limit allows, whatever the
  order of the requests and whichever of them fail; and the stored counter is the number of commands queued.
\<close>

theorem hourly_limit_holds:
  assumes "policy_run s qs db = (tally, db')" and "count_of k db = 0" and "\<forall>l. (k, l) \<in> set tally \<longrightarrow> 0 < l \<and> l \<le> L" and "0 \<le> L"
  shows "int (length (filter (\<lambda>x. fst x = k) tally)) \<le> L \<and> count_of k db' = int (length (filter (\<lambda>x. fst x = k) tally))"
  using policy_run_counts[OF assms(1,3)] assms(2,4) by (cases "filter (\<lambda>x. fst x = k) tally = []") auto

theorem hourly_limit_holds_witness:
  "policy_run demo_policy [ResolveRequest demo_ids demo_resolution] demo_governed
       = ([(demo_hour, 1)], demo_commanded (sha256 demo_bytes) [demo_resolved_event])
     \<and> count_of demo_hour (demo_commanded (sha256 demo_bytes) [demo_resolved_event]) = 1"
proof -
  have "limit_of ''i1'' demo_governed = Some (demo_hour, 1)"
    by (simp add: limit_of_def demo_governed_LoadIntent dispatch_key_def demo_hour_def)
  then have run: "policy_run demo_policy [ResolveRequest demo_ids demo_resolution] demo_governed
      = ([(demo_hour, 1)], demo_commanded (sha256 demo_bytes) [demo_resolved_event])"
    by (simp add: policy_txn_def demo_resolve new_dispatches_def map_filter_simps demo_commanded_def demo_released_rows)
       (simp add: demo_governed_def demo_start_def map_filter_simps)
  moreover have "count_of demo_hour demo_governed = 0" by (simp add: count_of_def demo_governed_def demo_start_def)
  ultimately show ?thesis using hourly_limit_holds[OF run, of demo_hour 1] by simp
qed

end
