(* ===== verification/Policy_Runtime.thy ===== *)
theory Policy_Runtime
  imports Policy_Properties
begin

text \<open>
  Policy and the action plane together: the runtime whose commands come from policy alone. Its steps refine
  the steps of the dispatch world of the action plane, so what was proved there holds here, and every call
  of an effector goes back to an approved evaluation of one intent.
\<close>

section \<open>Governance changes nothing else\<close>

definition other_tables :: "actions_db \<Rightarrow> actions_db" where
  "other_tables db = db\<lparr>db_principals := [], db_roles := [], db_memberships := [], db_authorities := []\<rparr>"

lemma upsertPrincipals_other: "upsertPrincipals tenant ps now db = Inr db' \<Longrightarrow> other_tables db' = other_tables db"
proof (induction ps arbitrary: db)
  case (Cons p ps)
  then obtain key db1 where u: "upsertPrincipal tenant p key now db = Inr db1" "upsertPrincipals tenant ps now db1 = Inr db'"
    by (auto simp: bind_res_Inr_iff)
  have "other_tables db1 = other_tables db"
    using u(1) by (auto simp: upsertPrincipal_def other_tables_def split: option.splits if_splits)
  with Cons.IH[OF u(2)] show ?case by simp
qed simp

lemma grant_members_other: "grant_members role ms db = Inr db' \<Longrightarrow> other_tables db' = other_tables db"
  by (induction role ms db rule: grant_members.induct) (auto simp: other_tables_def split: if_splits)

lemma grant_risks_other: "grant_risks tenant role entity risks db = Inr db' \<Longrightarrow> other_tables db' = other_tables db"
  by (induction tenant role entity risks db rule: grant_risks.induct) (auto simp: other_tables_def Let_def split: if_splits)

lemma writeAuthorities_other: "writeAuthorities tenant role as db = Inr db' \<Longrightarrow> other_tables db' = other_tables db"
  by (induction tenant role as db rule: writeAuthorities.induct) (auto simp: bind_res_Inr_iff dest!: grant_risks_other)

lemma writeRole_other: "writeRole tenant r db = Inr db' \<Longrightarrow> other_tables db' = other_tables db"
  by (auto simp: writeRole_def bind_res_Inr_iff upsert_role_def split: if_splits dest!: grant_members_other writeAuthorities_other)
     (simp add: other_tables_def)

lemma write_roles_other: "write_roles tenant rs db = Inr db' \<Longrightarrow> other_tables db' = other_tables db"
  by (induction tenant rs db rule: write_roles.induct) (auto simp: bind_res_Inr_iff dest!: writeRole_other)

lemma ReplaceGovernance_other: "ReplaceGovernance d now db = Inr (x, db') \<Longrightarrow> other_tables db' = other_tables db"
  by (auto simp: ReplaceGovernance_def replaceRoles_def bind_res_Inr_iff dest!: upsertPrincipals_other write_roles_other)
     (simp add: other_tables_def clearTenantGrants_def disableTenantPrincipals_def)

lemma ApplyPrincipals_quiet:
  assumes "ApplyPrincipals fence epoch d now db = Inr (x, db')"
  shows "policy_quiet db db'"
proof -
  have o: "other_tables db' = other_tables db"
    using assms by (auto simp: ApplyPrincipals_def bind_res_Inr_iff split: option.splits if_splits dest: ReplaceGovernance_other)
  note sel = arg_cong[OF o, of db_commands] arg_cong[OF o, of db_outbox] arg_cong[OF o, of db_outcomes] arg_cong[OF o, of db_counts]
    arg_cong[OF o, of db_intents] arg_cong[OF o, of db_decisions] arg_cong[OF o, of db_episodes] arg_cong[OF o, of db_situations]
    arg_cong[OF o, of db_versions] arg_cong[OF o, of db_evaluations]
  show ?thesis using sel by (simp add: quiet_defs other_tables_def)
qed

section \<open>The runtime\<close>

text \<open>
  The steps: a policy transaction, a change of governance, and a step of the dispatch world that adds no
  command (every one of them except the bare insertion, which policy replaces). The rest of the runtime
  never removes an evaluation. The identifier generator never hands out an empty identifier.
\<close>

inductive system_step :: "dispatch_world \<Rightarrow> dispatch_world \<Rightarrow> bool" where
  policy: "policy_txn s q (dw_db w) = Inr (r, db') \<Longrightarrow> id_Command (request_ids q) \<noteq> '''' \<Longrightarrow> system_step w (w\<lparr>dw_db := db'\<rparr>)"
| govern: "ApplyPrincipals fence epoch d now (dw_db w) = Inr (x, db') \<Longrightarrow> system_step w (w\<lparr>dw_db := db'\<rparr>)"
| dispatch: "dispatch_step w w' \<Longrightarrow> length (db_commands (dw_db w')) = length (db_commands (dw_db w))
    \<Longrightarrow> set (db_evaluations (dw_db w)) \<subseteq> set (db_evaluations (dw_db w')) \<Longrightarrow> system_step w w'"

inductive system_reachable :: "dispatch_world \<Rightarrow> bool" where
  empty: "db_commands (dw_db w) = [] \<Longrightarrow> db_outbox (dw_db w) = [] \<Longrightarrow> db_outcomes (dw_db w) = [] \<Longrightarrow> dw_tasks w = [] \<Longrightarrow> dw_calls w = []
    \<Longrightarrow> system_reachable w"
| step: "system_reachable w \<Longrightarrow> system_step w w' \<Longrightarrow> system_reachable w'"

lemma quiet_dispatch_step: "policy_quiet (dw_db w) db' \<Longrightarrow> dispatch_step w (w\<lparr>dw_db := db'\<rparr>)"
  by (rule dispatch_step.elsewhere) (simp add: policy_quiet_def)

text \<open>A policy transaction is a step of the dispatch world that changes other tables, or an insertion between two.\<close>

lemma policy_txn_refines:
  assumes "policy_txn s q (dw_db w) = Inr (r, db')"
  shows "dispatch_step\<^sup>*\<^sup>* w (w\<lparr>dw_db := db'\<rparr>)"
  using assms
proof (cases rule: policy_txn_cases)
  case quiet
  then show ?thesis by (blast intro: quiet_dispatch_step)
next
  case (queued db0 intentID now row d n c)
  obtain db1 where i: "InsertCommand (policy_command_row row c now) db0 = Inr (True, db1)"
    "same_dispatch_tables (InsertCommandOutbox (cc_ID c) now db1) db'"
    using queued(4) unfolding queued_def by blast
  have "dispatch_step w (w\<lparr>dw_db := db0\<rparr>)"
    using quiet_dispatch_step[OF queued(1)] .
  moreover have "dispatch_step (w\<lparr>dw_db := db0\<rparr>) (w\<lparr>dw_db := InsertCommandOutbox (cc_ID c) now db1\<rparr>)"
    using dispatch_step.enqueue[of "policy_command_row row c now" "w\<lparr>dw_db := db0\<rparr>" db1 now] i(1) by (simp add: policy_command_row_def)
  moreover have "dispatch_step (w\<lparr>dw_db := InsertCommandOutbox (cc_ID c) now db1\<rparr>) (w\<lparr>dw_db := db'\<rparr>)"
    using dispatch_step.elsewhere[of "w\<lparr>dw_db := InsertCommandOutbox (cc_ID c) now db1\<rparr>" db'] i(2) by simp
  ultimately show ?thesis by (meson rtranclp.rtrancl_into_rtrancl rtranclp.rtrancl_refl)
qed

lemma system_step_refines: "system_step w w' \<Longrightarrow> dispatch_step\<^sup>*\<^sup>* w w'"
proof (induction rule: system_step.induct)
  case (govern fence epoch d now w x db')
  then show ?case by (blast intro: quiet_dispatch_step ApplyPrincipals_quiet)
qed (auto intro: policy_txn_refines)

lemma dispatch_steps_reachable: "dispatch_step\<^sup>*\<^sup>* w w' \<Longrightarrow> dispatch_reachable w \<Longrightarrow> dispatch_reachable w'"
  by (induction rule: rtranclp_induct) (auto intro: dispatch_reachable.step)

lemma runtime_dispatch_reachable: "system_reachable w \<Longrightarrow> dispatch_reachable w"
proof (induction rule: system_reachable.induct)
  case (empty w)
  then show ?case by (rule dispatch_reachable.empty)
next
  case (step w w')
  then show ?case using dispatch_steps_reachable system_step_refines by blast
qed


section \<open>Commands keep their identity\<close>

definition command_names :: "actions_db \<Rightarrow> (string \<times> string) list" where
  "command_names db = map (\<lambda>c. (cm_id c, cm_intent c)) (db_commands db)"

lemma command_names_update:
  assumes "db_commands db' = sql_update P (\<lambda>c. c\<lparr>cm_status := st, cm_updated := t\<rparr>) (db_commands db)"
  shows "command_names db' = command_names db"
  by (auto simp: command_names_def assms sql_update_def)

lemma command_names_same: "db_commands db' = db_commands db \<Longrightarrow> command_names db' = command_names db"
  by (simp add: command_names_def)

lemma finalizeIn_names: "finalizeIn s ids now l ef err db = Inr db' \<Longrightarrow> command_names db' = command_names db"
proof (erule finalizeIn_cases)
  fix ol live ef' err'
  assume "recordFinalDispatch s ids l ef' err' now db = Inr db'"
  then show ?thesis
  proof (rule recordFinalDispatch_steps)
    fix rec db1 db2
    assume steps: "InsertOutcome rec db = Inr db1" "CloseDispatch l (ClassifyDispatch ef' err') (or_ID rec) (snd ids) now db1 = Inr db2"
      "appendDispatchNotices s l (ClassifyDispatch ef' err') rec now db2 = Inr db'"
    have "command_names db2 = command_names db1" using CloseDispatch_tables(3)[OF steps(2)] by (rule command_names_update)
    then show ?thesis
      using appendDispatchNotices_same[OF steps(3)] InsertOutcome_tables(2)[OF steps(1)] by (simp add: same_ledger_def command_names_def)
  qed
qed simp

lemma acquireLease_names: "acquireLease s i l now db = Inr (r, db') \<Longrightarrow> command_names db' = command_names db"
  by (auto simp: acquireLease_def try_AcquireLease_def MarkCommandDispatching_def Let_def command_names_def sql_update_def split: if_splits)

lemma leaseIn_command_names:
  assumes "leaseIn s ids now now2 db = Inr (r, db')"
  shows "command_names db' = command_names db"
proof (cases "NextCandidate now db")
  case (Some c)
  then obtain r' where ad: "admit_decision s ids (admit_candidate s c now) now now2 db = Inr (r', db')"
    using assms by (auto simp: leaseIn_def bind_res_Inr_iff)
  then show ?thesis
    by (auto simp: admit_decision_def Let_def bind_res_Inr_iff split: admission_step.splits dest: finalizeIn_names acquireLease_names)
       (auto simp: fail_command_def close_outbox_def command_names_def sql_update_def)
qed (use assms in \<open>auto simp: leaseIn_def bind_res_Inr_iff\<close>)

lemma revalidateIn_names: "revalidateIn s clk l db = Inr db' \<Longrightarrow> command_names db' = command_names db"
  by (auto dest!: revalidateIn_refreshes simp: refreshLease_def Let_def command_names_def split: if_splits)

lemma reconcileUnknown_names:
  assumes "reconcileUnknown s o' now c f raw db = Inr db'"
  shows "command_names db' = command_names db"
proof -
  obtain k evidence digest db1 where r:
    "InsertOutcome \<lparr>or_ID = o', or_CommandID = rc_ID k, or_Status = OutcomeReconciled, or_Reconciliation = ReconciliationReconciled,
       or_ProviderResult = Some evidence, or_ObservedEffect = None, or_SHA = digest, or_Trace = rc_Trace k, or_At = now\<rparr> db = Inr db1"
    "appendReconciliationNotice s (rc_TenantID k) (rc_IntentID k) (rc_ID k) o' f now (CloseReconciliation k f o' now db1) = Inr db'"
    using assms by (auto simp: reconcileUnknown_def reconcileIn_def recordReconciliation_def bind_res_Inr_iff)
  have "command_names (CloseReconciliation k f o' now db1) = command_names db1"
    by (rule command_names_update[where P = "\<lambda>r. cm_id r = rc_ID k \<and> IsUnresolvedCommandStatus (cm_status r)" and st = f and t = now]) (simp add: CloseReconciliation_def)
  then show ?thesis
    using appendReconciliationNotice_same[OF r(2)] InsertOutcome_tables(2)[OF r(1)] by (simp add: same_ledger_def command_names_def)
qed

text \<open>A step of the dispatch world that adds no command keeps the names of commands and of outbox rows.\<close>

lemma dispatch_step_names:
  assumes "dispatch_step w w'" and "length (db_commands (dw_db w')) = length (db_commands (dw_db w))"
  shows "command_names (dw_db w') = command_names (dw_db w) \<and> map ob_aggregate (db_outbox (dw_db w')) = map ob_aggregate (db_outbox (dw_db w))"
  using assms
proof (induction rule: dispatch_step.induct)
  case (enqueue c w db1 now)
  then show ?case using InsertCommand_Inr[OF enqueue(1)] by (simp add: InsertCommandOutbox_def split: if_splits)
qed (auto simp: same_dispatch_tables_def
    dest: leaseIn_command_names revalidateIn_names finalizeIn_names reconcileUnknown_names reconcileUnknown_tables
      outbox_keeps_maps(2)[OF leaseIn_outbox] outbox_keeps_maps(2)[OF revalidateIn_outbox] outbox_keeps_maps(2)[OF finalizeIn_outbox]
    intro: command_names_same)


section \<open>Every effect goes back to an approved evaluation\<close>

text \<open>The evaluation that approved a command: the row that names the command and its intent.\<close>

definition approved_command :: "actions_db \<Rightarrow> string \<Rightarrow> string \<Rightarrow> bool" where
  "approved_command db commandID intentID \<longleftrightarrow> (commandID, intentID) \<in> set (command_names db)
     \<and> (\<exists>p \<in> set (db_evaluations db). pe_result p = ''approved'' \<and> pe_command p = Some commandID \<and> pe_intent p = intentID)"

definition approved_inv :: "actions_db \<Rightarrow> bool" where
  "approved_inv db \<longleftrightarrow> distinct (map fst (command_names db)) \<and> distinct (map snd (command_names db))
     \<and> (\<forall>x \<in> set (db_outbox db). \<exists>i. approved_command db (ob_aggregate x) i)"

lemma approved_inv_keeps:
  assumes "approved_inv db" "command_names db' = command_names db" "map ob_aggregate (db_outbox db') = map ob_aggregate (db_outbox db)"
    "set (db_evaluations db) \<subseteq> set (db_evaluations db')"
  shows "approved_inv db'"
proof -
  have kept: "approved_command db k i \<Longrightarrow> approved_command db' k i" for k i
    using assms(2,4) by (auto simp: approved_command_def)
  have "\<exists>i. approved_command db' (ob_aggregate x) i" if "x \<in> set (db_outbox db')" for x
  proof -
    have "ob_aggregate x \<in> set (map ob_aggregate (db_outbox db'))" using that by simp
    then obtain y where "y \<in> set (db_outbox db)" "ob_aggregate y = ob_aggregate x" unfolding assms(3) by auto
    with assms(1) kept show ?thesis unfolding approved_inv_def by metis
  qed
  with assms(1,2) show ?thesis by (simp add: approved_inv_def)
qed

lemma approved_inv_quiet: "approved_inv db \<Longrightarrow> policy_quiet db db' \<Longrightarrow> approved_inv db'"
  by (erule approved_inv_keeps) (auto simp: quiet_defs command_names_def)

lemma approved_inv_queued:
  assumes "approved_inv db" "queued s ids row c now db db'" "cc_ID c \<noteq> ''''"
  shows "approved_inv db'"
proof -
  note t = queued_tables[OF assms(2)]
  obtain p where p: "db_evaluations db' = db_evaluations db @ [p]" "pe_intent p = ir_IntentID row" "pe_result p = ''approved''"
    "pe_command p = null_if_empty (cc_ID c)"
    using t(5) by blast
  have names: "command_names db' = command_names db @ [(cc_ID c, ir_IntentID row)]"
    by (simp add: command_names_def t(1) policy_command_row_def)
  have new: "approved_command db' (cc_ID c) (ir_IntentID row)"
    using p assms(3) by (auto simp: approved_command_def names null_if_empty_def)
  have old: "approved_command db k i \<Longrightarrow> approved_command db' k i" for k i
    by (auto simp: approved_command_def names p(1))
  have "\<forall>x \<in> set (db_outbox db'). x \<in> set (db_outbox db) \<or> ob_aggregate x = cc_ID c"
  proof -
    obtain db1 where "InsertCommand (policy_command_row row c now) db = Inr (True, db1)" "same_dispatch_tables (InsertCommandOutbox (cc_ID c) now db1) db'"
      using assms(2) unfolding queued_def by blast
    then show ?thesis
      using InsertCommand_Inr[of "policy_command_row row c now" db True db1]
      by (auto simp: same_dispatch_tables_def InsertCommandOutbox_def split: if_splits)
  qed
  with assms(1) new old have "\<exists>i. approved_command db' (ob_aggregate x) i" if "x \<in> set (db_outbox db')" for x
    using that unfolding approved_inv_def by metis
  moreover have "cc_ID c \<notin> set (map fst (command_names db))" "ir_IntentID row \<notin> set (map snd (command_names db))"
    using t(2) by (auto simp: command_names_def)
  ultimately show ?thesis using assms(1) by (simp add: approved_inv_def names)
qed

lemma system_step_approved: "system_step w w' \<Longrightarrow> approved_inv (dw_db w) \<Longrightarrow> approved_inv (dw_db w')"
proof (induction rule: system_step.induct)
  case (policy s q w r db')
  from policy(1) show ?case
  proof (cases rule: policy_txn_cases)
    case quiet
    with policy(3) show ?thesis by (simp add: approved_inv_quiet)
  next
    case (queued db0 intentID now row d n c)
    from queued(4) policy(2) approved_inv_quiet[OF policy(3) queued(1)] NewCommand_Inr[OF queued(3)] show ?thesis
      by (auto intro: approved_inv_queued)
  qed
next
  case (govern fence epoch d now w x db')
  then show ?case by (auto intro: approved_inv_quiet ApplyPrincipals_quiet)
next
  case (dispatch w w')
  from dispatch_step_names[OF dispatch(1,2)] dispatch(3,4) show ?case by (blast intro: approved_inv_keeps)
qed

lemma system_reachable_approved: "system_reachable w \<Longrightarrow> approved_inv (dw_db w)"
proof (induction rule: system_reachable.induct)
  case (empty w)
  then show ?case by (simp add: approved_inv_def command_names_def)
qed (rule system_step_approved)

text \<open>The intent of a call, read from the command that the call carries out.\<close>

definition effect_intent :: "dispatch_world \<Rightarrow> leased_command \<Rightarrow> string option" where
  "effect_intent w l = map_of (command_names (dw_db w)) (ac_CommandID (lc_Command l))"

text \<open>
  Claim C6. No effect without an approved evaluation, and at most one effect per intent: however policy
  evaluations, approvals, governance changes, dispatchers, crashes and reconciliations interleave, from an
  empty ledger on, every call of an effector carries a command of the ledger whose intent policy evaluated
  as approved, under this very command, and no two calls belong to the same intent.
\<close>

theorem effects_are_approved:
  assumes "system_reachable w"
  shows "(\<forall>l \<in> set (dw_calls w). \<exists>i. effect_intent w l = Some i \<and> approved_command (dw_db w) (ac_CommandID (lc_Command l)) i)
    \<and> distinct (map (effect_intent w) (dw_calls w))"
proof -
  have inv: "approved_inv (dw_db w)" using assms by (rule system_reachable_approved)
  have d: "dispatch_inv w" using assms by (intro dispatch_reachable_inv runtime_dispatch_reachable)
  have calls: "outbox_keyed (dw_db w)" "distinct (map lc_OutboxID (dw_calls w))" "\<forall>l \<in> set (dw_calls w). holds_row (dw_db w) l"
    using d by (simp_all add: dispatch_inv_def may_call_def)
  have names: "distinct (map fst (command_names (dw_db w)))" "distinct (map snd (command_names (dw_db w)))"
    using inv by (simp_all add: approved_inv_def)
  have approved: "\<exists>i. effect_intent w l = Some i \<and> approved_command (dw_db w) (ac_CommandID (lc_Command l)) i" if call: "l \<in> set (dw_calls w)" for l
  proof -
    obtain x where "x \<in> set (db_outbox (dw_db w))" "ob_aggregate x = ac_CommandID (lc_Command l)"
      using calls(3) call by (meson holds_rowE)
    then obtain i where "approved_command (dw_db w) (ac_CommandID (lc_Command l)) i"
      using inv by (auto simp: approved_inv_def)
    with names(1) show ?thesis by (auto simp: effect_intent_def approved_command_def)
  qed
  have "effect_intent w l \<noteq> effect_intent w l'" if l: "l \<in> set (dw_calls w)" "l' \<in> set (dw_calls w)" "ac_CommandID (lc_Command l) \<noteq> ac_CommandID (lc_Command l')" for l l'
  proof
    assume same: "effect_intent w l = effect_intent w l'"
    obtain i where i: "effect_intent w l = Some i" using approved[OF l(1)] by blast
    have "(ac_CommandID (lc_Command l), i) \<in> set (command_names (dw_db w))" "(ac_CommandID (lc_Command l'), i) \<in> set (command_names (dw_db w))"
      using i i[unfolded same] unfolding effect_intent_def by (blast dest: map_of_SomeD)+
    then show False using distinct_key_eq[OF names(2)] l(3) by fastforce
  qed
  moreover have "distinct (map (\<lambda>l. ac_CommandID (lc_Command l)) (dw_calls w))" using keyed_command_ids[OF calls] .
  ultimately have "distinct (map (effect_intent w) (dw_calls w))"
    by (auto simp: distinct_map inj_on_def)
  with approved show ?thesis by blast
qed

definition demo_effected :: dispatch_world where
  "demo_effected = \<lparr>dw_db = demo_working 65, dw_tasks = [(demo_order, Returned no_effect None)], dw_calls = [demo_order]\<rparr>"

lemma demo_effected_reachable: "system_reachable demo_effected"
proof -
  let ?w = "\<lambda>db ts cs. \<lparr>dw_db = db, dw_tasks = ts, dw_calls = cs\<rparr>"
  let ?queued = "demo_dispatched CommandPending 3 (demo_released_outbox OutboxPending 0 None None)"
  have queued: "demo_commanded (sha256 demo_bytes) [demo_resolved_event] = ?queued"
    by (simp add: demo_dispatched_def demo_commanded_def)
  have working: "length (db_commands (demo_working u)) = 1" "db_evaluations (demo_working u) = [demo_evaluation_row]" for u
    by (simp_all add: demo_working_def)
  have "system_reachable (?w demo_governed [] [])"
    by (rule system_reachable.empty) (simp_all add: demo_governed_def demo_start_def)
  moreover have "system_step (?w demo_governed [] []) (?w ?queued [] [])"
    using system_step.policy[of demo_policy "ResolveRequest demo_ids demo_resolution" "?w demo_governed [] []"] demo_resolve
    by (simp add: policy_txn_def request_ids_def demo_ids_def queued)
  moreover have "system_step (?w ?queued [] []) (?w (demo_working 64) [(demo_order, Leased)] [])"
    using dispatch_step.lease[of demo_service "(''l1'', '''')" 4 4 "?w ?queued [] []"] demo_taken working by (intro system_step.dispatch) simp_all
  moreover have "system_step (?w (demo_working 64) [(demo_order, Leased)] []) (?w (demo_working 65) [(demo_order, Authorized)] [])"
    using dispatch_step.authorize[of "?w (demo_working 64) [(demo_order, Leased)] []" "[]" demo_order "[]" demo_service "\<lambda>_. 5"] demo_confirmed working
    by (intro system_step.dispatch) simp_all
  moreover have "system_step (?w (demo_working 65) [(demo_order, Authorized)] []) demo_effected"
    using dispatch_step.call[of "?w (demo_working 65) [(demo_order, Authorized)] []" "[]" demo_order "[]" no_effect None]
    by (intro system_step.dispatch) (simp_all add: demo_effected_def)
  ultimately show ?thesis by (blast intro: system_reachable.step)
qed

theorem effects_are_approved_witness:
  "system_reachable demo_effected \<and> dw_calls demo_effected = [demo_order]
     \<and> (\<exists>i. effect_intent demo_effected demo_order = Some i \<and> approved_command (dw_db demo_effected) ''c1'' i)"
  using demo_effected_reachable effects_are_approved[OF demo_effected_reachable]
  by (simp add: demo_effected_def demo_order_def document_command_def bare_command_def)

end
