(* ===== verification/Policy_Approvals.thy ===== *)
theory Policy_Approvals
  imports Policy_Properties
begin

text \<open>
  Human approvals: what an evaluation may write, that an approval is granted only by an authorized principal
  whose key verifies the signature over this very assertion, that the signed bytes identify the assertion,
  and that replacing the governance of a tenant is exact and leaves other tenants alone.
\<close>

section \<open>What an evaluation writes\<close>

text \<open>
  The statements an evaluation is made of. A relation between databases that each of them respects holds of
  the whole evaluation.
\<close>

locale evaluation_frame =
  fixes keeps :: "actions_db \<Rightarrow> actions_db \<Rightarrow> bool"
  assumes refl: "keeps db db"
    and trans: "keeps a b \<Longrightarrow> keeps b c \<Longrightarrow> keeps a c"
    and evaluation: "keeps db (db\<lparr>db_evaluations := ps\<rparr>)"
    and status: "keeps db (SetIntentStatus i st now db)"
    and events: "keeps db (db\<lparr>db_events := evs\<rparr>)"
    and request: "RequestApproval k i req expires doc nonce (db_approvals db) = Inr rows \<Longrightarrow> keeps db (db\<lparr>db_approvals := rows\<rparr>)"
    and expire: "keeps db (db\<lparr>db_approvals := ExpireIntent i (db_approvals db)\<rparr>)"
    and command: "keeps db (db\<lparr>db_commands := cs\<rparr>)"
    and outbox: "keeps db (InsertCommandOutbox k now db)"
    and counts: "keeps db (db\<lparr>db_counts := ns\<rparr>)"
begin

lemma audit_frame: "audit s ids e o' db = Inr (r, db') \<Longrightarrow> keeps db db'"
  by (drule audit_Inr) (simp add: evaluation)

lemma finish_frame: "finish s ids e o' db = Inr (r, db') \<Longrightarrow> keeps db db'"
  unfolding finish_def by (rule trans[OF status audit_frame])

lemma appendLifecycle_frame: "appendLifecycle s ev db = Inr db' \<Longrightarrow> keeps db db'"
  by (auto simp: appendLifecycle_def bind_res_Inr_iff events)

lemma openApproval_frame:
  assumes "openApproval s ids e db = Inr (r, db')"
  shows "keeps db db'"
proof -
  obtain q db1 db2 where l: "ledger_result ''insert approval'' (RequestApproval (aq_ID q) (ir_IntentID (ev_row e)) (FormatTime (ev_now e))
       (ReadableTime (ev_expiresAt e)) (aq_JSON q) (aq_Nonce q) (db_approvals db)) db = Inr db1"
    and n: "AppendApprovalRequested s (ev_row e) q (ev_now e) (SetIntentStatus (ir_IntentID (ev_row e)) ''approval_required'' (ev_now e) db1) = Inr db2"
    and a: "audit s ids (e\<lparr>ev_result := (ev_result e)\<lparr>re_ApprovalID := aq_ID q\<rparr>\<rparr>) (outcome_of ''approval_required'' ''risk_requires_approval'') db2 = Inr (r, db')"
    using assms by (auto simp: openApproval_def publishApprovalRequest_def Let_def bind_res_Inr_iff)
  have "keeps db db1" using l by (auto simp: ledger_result_def split: sum.splits intro: request)
  moreover have "keeps (SetIntentStatus (ir_IntentID (ev_row e)) ''approval_required'' (ev_now e) db1) db2"
    using n by (auto simp: AppendApprovalRequested_def bind_res_Inr_iff intro: appendLifecycle_frame)
  ultimately show ?thesis using status audit_frame[OF a] by (blast intro: trans)
qed

lemma approveAutomatic_frame:
  assumes "approveAutomatic s ids e db = Inr (r, db')"
  shows "keeps db db'"
proof (cases "AssertReady (db_interlock db)")
  case (Inl err)
  then show ?thesis using assms by (auto simp: approveAutomatic_def split: interlock_error.splits dest: finish_frame)
next
  case (Inr u)
  obtain c existing db1 where c: "commandForIntent s ids e db = Inr ((c, existing), db1)"
    "approvePreparedCommand s ids e c existing db1 = Inr (r, db')"
    using assms Inr by (auto simp: approveAutomatic_def bind_res_Inr_iff)
  have "keeps db db1"
    using c(1)
  proof (cases rule: commandForIntent_cases)
    case inserted
    then show ?thesis using InsertCommand_Inr[OF inserted(3)] by (simp add: command)
  qed (simp add: refl)
  moreover have "keeps db1 db'"
  proof (cases "existing = ''''")
    case False
    then show ?thesis using c(2) by (auto simp: approvePreparedCommand_def dest: audit_frame)
  next
    case True
    then obtain limited db2 where l: "rateLimited e (cc_ID c) db1 = Inr (limited, db2)"
      "if limited then finish s ids e (outcome_of ''denied'' ''rate_limited'') db2 = Inr (r, db') else queueApprovedCommand s ids e c db2 = Inr (r, db')"
      using c(2) by (auto simp: approvePreparedCommand_def bind_res_Inr_iff split: if_splits)
    have "keeps db1 db2"
      using rateLimited_cases[OF l(1)] by (auto simp: RemovePreparedCommand_def Let_def split: if_splits intro: refl command counts)
    moreover have "keeps db2 db'"
    proof (cases limited)
      case False
      with l(2) show ?thesis
        unfolding queueApprovedCommand_def Let_def by (auto intro: trans[OF outbox trans[OF status audit_frame]])
    qed (use l(2) in \<open>auto dest: finish_frame\<close>)
    ultimately show ?thesis by (rule trans)
  qed
  ultimately show ?thesis by (rule trans)
qed

lemma routeIntent_frame: "routeIntent s ids e db = Inr (r, db') \<Longrightarrow> keeps db db'"
  by (auto simp: routeIntent_def approveOrRequireApproval_def requireApproval_def Let_def split: prod.splits route.splits if_splits
      dest: approveAutomatic_frame finish_frame audit_frame openApproval_frame)

lemma evaluatePending_frame: "evaluatePending s ids e db = Inr (r, db') \<Longrightarrow> keeps db db'"
  by (auto simp: evaluatePending_def evaluateFreshPending_def markStale_def Let_def split: sum.splits prod.splits if_splits
      dest: routeIntent_frame finish_frame audit_frame intro: trans[OF status])

lemma recordExpiredApproval_frame: "recordExpiredApproval s ids e k reason db = Inr (r, db') \<Longrightarrow> keeps db db'"
  unfolding recordExpiredApproval_def AppendApprovalResolved_def bind_res_Inr_iff
  by (blast intro: trans[OF expire] trans[OF appendLifecycle_frame] finish_frame)

lemma evaluateExisting_frame: "evaluateExisting s ids e db = Inr (r, db') \<Longrightarrow> keeps db db'"
  by (auto simp: evaluateExisting_def expireExistingApproval_def reportExisting_def bind_res_Inr_iff
      split: if_splits prod.splits option.splits dest: audit_frame recordExpiredApproval_frame)

lemma evaluateLoaded_frame: "evaluateLoaded s ids e db = Inr (r, db') \<Longrightarrow> keeps db db'"
  by (cases "ps_decisionEpoch s (ir_PolicyEpoch (ev_row e)) db")
     (auto simp: evaluateLoaded_def denyEpochIntent_def split: if_splits dest: evaluateExisting_frame evaluatePending_frame finish_frame)

lemma EvaluateIntent_frame: "EvaluateIntent s ids i now db = Inr (r, db') \<Longrightarrow> keeps db db'"
  unfolding EvaluateIntent_def bind_res_Inr_iff by (blast intro: evaluateLoaded_frame)

end

text \<open>An evaluation grants no approval: what is approved after it was approved before, as it stands.\<close>

definition grants_nothing :: "actions_db \<Rightarrow> actions_db \<Rightarrow> bool" where
  "grants_nothing db db' \<longleftrightarrow> (\<forall>a \<in> set (db_approvals db'). ap_status a = ApprovalApproved \<longrightarrow> a \<in> set (db_approvals db))"

interpretation granting: evaluation_frame grants_nothing
  by unfold_locales
     (auto simp: grants_nothing_def SetIntentStatus_def InsertCommandOutbox_def approval_ops sql_update_def ApprovalApproved_def ApprovalExpired_def
       ApprovalPending_def split: if_splits)

text \<open>An evaluation writes none of the tables that other components own.\<close>

definition foreign_tables :: "actions_db \<Rightarrow> actions_db \<Rightarrow> bool" where
  "foreign_tables db db' \<longleftrightarrow> db_decisions db' = db_decisions db \<and> db_episodes db' = db_episodes db \<and> db_situations db' = db_situations db
     \<and> db_versions db' = db_versions db \<and> db_outcomes db' = db_outcomes db \<and> db_verifications db' = db_verifications db
     \<and> db_principals db' = db_principals db \<and> db_memberships db' = db_memberships db \<and> db_authorities db' = db_authorities db
     \<and> db_interlock db' = db_interlock db"

interpretation foreign: evaluation_frame foreign_tables
  by unfold_locales (auto simp: foreign_tables_def SetIntentStatus_def InsertCommandOutbox_def)


section \<open>Who may approve\<close>

lemma update_grants:
  assumes "\<And>a. P a \<Longrightarrow> ap_status (f a) \<noteq> ApprovalApproved"
  shows "grants_nothing db (db\<lparr>db_approvals := sql_update P f (db_approvals db)\<rparr>)"
  using assms by (auto simp: grants_nothing_def sql_update_def split: if_splits)

lemma ledger_grants:
  "grants_nothing db (db\<lparr>db_approvals := WithdrawApproval k now (db_approvals db)\<rparr>)"
  "grants_nothing db (db\<lparr>db_approvals := ExpireApproval k now (db_approvals db)\<rparr>)"
  "grants_nothing db (db\<lparr>db_approvals := BindAssertion k digest (db_approvals db)\<rparr>)"
  unfolding approval_ops by (rule update_grants, simp add: ApprovalApproved_def ApprovalDenied_def ApprovalExpired_def ApprovalPending_def)+

lemma notices_grants:
  "AppendApprovalWithdrawn s row i reason now db = Inr db' \<Longrightarrow> grants_nothing db db'"
  "AppendApprovalResolved s row i st reason now db = Inr db' \<Longrightarrow> grants_nothing db db'"
  unfolding AppendApprovalWithdrawn_def AppendApprovalResolved_def by (blast intro: granting.appendLifecycle_frame)+

lemma withdrawStaleApproval_grants: "withdrawStaleApproval s ids e r db = Inr (x, db') \<Longrightarrow> grants_nothing db db'"
  unfolding withdrawStaleApproval_def Let_def bind_res_Inr_iff
  by (blast intro: granting.trans[OF ledger_grants(1)] granting.trans[OF notices_grants(1)] granting.trans[OF notices_grants(2)] granting.finish_frame)

lemma expireRequestedApproval_grants: "expireRequestedApproval s ids e r db = Inr (x, db') \<Longrightarrow> grants_nothing db db'"
  unfolding expireRequestedApproval_def Let_def bind_res_Inr_iff
  by (blast intro: granting.trans[OF ledger_grants(2)] granting.trans[OF notices_grants(2)] granting.finish_frame)

text \<open>The rows a decision writes: the pending row of the approval, bound to the assertion and decided.\<close>

definition decided_row :: "approval_resolution \<Rightarrow> string \<Rightarrow> string \<Rightarrow> approval_row \<Rightarrow> approval_row" where
  "decided_row r status digest p = p\<lparr>ap_assertion := Some digest, ap_status := status, ap_decided := Some (FormatTime (rq_Now r)),
     ap_approver := Some (rq_Approver r), ap_relay := Some (rq_Relay r), ap_reason := Some (rq_Reason r)\<rparr>"

lemma decision_rows:
  assumes "recordApprovalResolution s row r (db\<lparr>db_approvals := BindAssertion (rq_ID r) digest (db_approvals db)\<rparr>) = Inr db2"
    and "a \<in> set (db_approvals db2)" and "a \<notin> set (db_approvals db)" and "\<not> is_pending (rq_ID r) a"
  obtains p where "p \<in> set (db_approvals db)" "is_pending (rq_ID r) p" "a = decided_row r (fst (ApprovalDecision (rq_Approved r))) digest p"
proof -
  let ?bound = "BindAssertion (rq_ID r) digest (db_approvals db)"
  obtain rows where rows: "ResolveApproval (rq_ID r) (fst (ApprovalDecision (rq_Approved r))) (rq_Approver r) (rq_Relay r) (rq_Reason r)
      (FormatTime (rq_Now r)) ?bound = Inr rows" "db_approvals db2 = rows"
    using assms(1) by (rule recordApprovalResolution_Inr) (auto simp: AppendApprovalResolved_def appendLifecycle_def bind_res_Inr_iff SetIntentStatus_def)
  have "a \<in> set rows" using assms(2) rows(2) by simp
  then obtain q where q: "q \<in> set ?bound" "a = q \<and> \<not> is_pending (rq_ID r) q \<or> is_pending (rq_ID r) q
      \<and> a = q\<lparr>ap_status := fst (ApprovalDecision (rq_Approved r)), ap_decided := Some (FormatTime (rq_Now r)),
        ap_approver := Some (rq_Approver r), ap_relay := Some (rq_Relay r), ap_reason := Some (rq_Reason r)\<rparr>"
    using rows(1) by (auto simp: ResolveApproval_def DecidePending_def sql_update_def split: if_splits)
  then obtain p where p: "p \<in> set (db_approvals db)" "q = p \<and> \<not> is_pending (rq_ID r) p \<or> is_pending (rq_ID r) p \<and> q = p\<lparr>ap_assertion := Some digest\<rparr>"
    by (auto simp: BindAssertion_def BindAssertionDigest_def sql_update_def split: if_splits)
  show ?thesis
    using that[of p] p q assms(3,4) by (auto simp: decided_row_def is_pending_def)
qed

lemma resolve_grants:
  assumes "policy_ResolveApproval s ids r db = Inr (x, db')"
  obtains (none) "grants_nothing db db'"
    | (granted) row b db1 db2 where "LoadApproval (rq_ID r) (rq_TenantID r) db = Inr b" "LoadIntent (ay_IntentID b) db = Inr row"
        "ApprovalDisposition row b r = DispositionAuthorize" "authorizeApproval s row r db = Inr db1"
        "recordApprovalResolution s row r db1 = Inr db2" "grants_nothing db2 db'"
proof -
  obtain b row where l: "LoadApproval (rq_ID r) (rq_TenantID r) db = Inr b" "LoadIntent (ay_IntentID b) db = Inr row"
    and p: "resolvePendingApproval s ids ((newEvaluation row (rq_Now r))\<lparr>ev_result := (ev_result (newEvaluation row (rq_Now r)))\<lparr>re_ApprovalID := rq_ID r\<rparr>\<rparr>) b r db = Inr (x, db')"
    using assms by (auto simp: policy_ResolveApproval_def Let_def bind_res_Inr_iff)
  let ?e = "(newEvaluation row (rq_Now r))\<lparr>ev_result := (ev_result (newEvaluation row (rq_Now r)))\<lparr>re_ApprovalID := rq_ID r\<rparr>\<rparr>"
  have row: "ev_row ?e = row" by (simp add: newEvaluation_def)
  show ?thesis
  proof (cases "ApprovalDisposition row b r")
    case DispositionAuthorize
    then have "resolveAuthorizedApproval s ids ?e r db = Inr (x, db')"
      using p row by (simp add: resolvePendingApproval_def)
    then obtain db1 db2 where d: "authorizeApproval s row r db = Inr db1" "recordApprovalResolution s row r db1 = Inr db2"
      "(if \<not> rq_Approved r then audit s ids ?e (outcome_of ''denied'' ''approval_denied'') db2
        else EvaluateIntent s ids (ir_IntentID row) (rq_Now r) db2) = Inr (x, db')"
      unfolding resolveAuthorizedApproval_def row by (auto simp: bind_res_Inr_iff)
    then have "grants_nothing db2 db'"
      by (auto split: if_splits dest: granting.audit_frame granting.EvaluateIntent_frame)
    with granted[OF l DispositionAuthorize d(1,2)] show ?thesis .
  qed (use p row in \<open>auto simp: resolvePendingApproval_def intro: none
      dest: granting.audit_frame withdrawStaleApproval_grants expireRequestedApproval_grants\<close>)
qed


lemma ApprovalAuthority_rows:
  assumes "ApprovalAuthority row entity approver db \<noteq> 0"
  shows "\<exists>p \<in> set (db_principals db). \<exists>g \<in> set (db_authorities db). active_principal (ir_TenantID row) approver p
    \<and> (approver, au_role g) \<in> set (db_memberships db) \<and> au_tenant g = ir_TenantID row \<and> au_entity g = entity \<and> au_risk g = ir_RiskClass row"
proof -
  have "filter (\<lambda>a. au_entity a = entity \<and> au_risk a = ir_RiskClass row) (active_authorities (ir_TenantID row) approver db) \<noteq> []"
    using assms by (simp add: ApprovalAuthority_def)
  then obtain g where g: "g \<in> set (active_authorities (ir_TenantID row) approver db)" "au_entity g = entity" "au_risk g = ir_RiskClass row"
    by (auto simp: filter_empty_conv)
  then obtain p m where "p \<in> set (db_principals db)" "active_principal (ir_TenantID row) approver p" "m \<in> set (db_memberships db)"
    "fst m = pn_id p" "g \<in> set (db_authorities db)" "au_role g = snd m" "au_tenant g = ir_TenantID row"
    by (auto simp: active_authorities_def split: if_splits)
  with g show ?thesis by (cases m) (auto simp: active_principal_def intro!: bexI)
qed

text \<open>
  The credentials of an approval: the submission names two distinct principals of the tenant, the relay is
  active, the approver is active, holds a role with authority for the entity and the risk class of the
  intent, and its 32-byte key verifies the signature over the canonical assertion of this approval.
\<close>

definition credentials :: "policy_service \<Rightarrow> intent_record \<Rightarrow> approval_resolution \<Rightarrow> string \<Rightarrow> actions_db \<Rightarrow> bool" where
  "credentials s row r bytes db \<longleftrightarrow> rq_Approver r \<noteq> rq_Relay r \<and> rq_Approver r \<noteq> '''' \<and> rq_Relay r \<noteq> ''''
     \<and> (\<exists>p \<in> set (db_principals db). active_principal (ir_TenantID row) (rq_Relay r) p)
     \<and> (\<exists>p \<in> set (db_principals db). active_principal (ir_TenantID row) (rq_Approver r) p \<and> length (or_empty (pn_key p)) = PublicKeySize
          \<and> ps_verify s (or_empty (pn_key p)) bytes (rq_Signature r))
     \<and> (\<exists>m \<in> set (db_situations db). \<exists>g \<in> set (db_authorities db). sm_id m = ir_SituationID row \<and> au_entity g = sm_entity m
          \<and> au_risk g = ir_RiskClass row \<and> au_tenant g = ir_TenantID row \<and> (rq_Approver r, au_role g) \<in> set (db_memberships db))"

lemma authorizeApproval_credentials:
  assumes "authorizeApproval s row r db = Inr db1"
  obtains expires nonce bytes where "AssertionBinding (rq_ID r) db = Inr (expires, nonce)"
    "ApprovalAssertionSigningBytes (assertionFor row r expires nonce) = Inr bytes" "credentials s row r bytes db"
    "db1 = db\<lparr>db_approvals := BindAssertion (rq_ID r) (Sum bytes) (db_approvals db)\<rparr>"
  using assms
proof (rule authorizeApproval_Inr)
  fix entity key expires nonce bytes
  assume a: "rq_Approver r \<noteq> ''''" "rq_Relay r \<noteq> ''''" "rq_Approver r \<noteq> rq_Relay r" "ApprovalEntity (ir_SituationID row) db = Inr entity"
    "RelayActivity (ir_TenantID row) (rq_Relay r) db = 1" "ApproverKey (ir_TenantID row) (rq_Approver r) db = Some key" "length key = PublicKeySize"
    "AssertionBinding (rq_ID r) db = Inr (expires, nonce)" "ApprovalAssertionSigningBytes (assertionFor row r expires nonce) = Inr bytes"
    "ps_verify s key bytes (rq_Signature r)" "ApprovalAuthority row entity (rq_Approver r) db \<noteq> 0"
    "db1 = db\<lparr>db_approvals := BindAssertion (rq_ID r) (Sum bytes) (db_approvals db)\<rparr>"
  have "filter (active_principal (ir_TenantID row) (rq_Relay r)) (db_principals db) \<noteq> []"
    using a(5) by (auto simp: RelayActivity_def)
  then have relay: "\<exists>p \<in> set (db_principals db). active_principal (ir_TenantID row) (rq_Relay r) p"
    by (auto simp: filter_empty_conv)
  obtain p where p: "p \<in> set (db_principals db)" "active_principal (ir_TenantID row) (rq_Approver r) p" "key = or_empty (pn_key p)"
    using a(6) by (auto simp: ApproverKey_def dest!: find_SomeD)
  obtain m where m: "m \<in> set (db_situations db)" "sm_id m = ir_SituationID row" "sm_entity m = entity"
    using a(4) by (auto simp: ApprovalEntity_def split: option.splits dest!: find_SomeD)
  have "credentials s row r bytes db"
    using a(1-3,7,10) relay p m ApprovalAuthority_rows[OF a(11)] unfolding credentials_def by blast
  with that[of expires nonce bytes] a(8,9,12) show thesis by simp
qed

text \<open>
  Claim C11. An approval is granted only by an authorized signature: if resolving an approval leaves an approved
  row that was not there before, then it is the pending row named by the submission, decided before its
  expiry and while the situation was not materially superseded, the submission approves, and its
  credentials hold over the signing bytes of the assertion made from the stored intent, the stored expiry
  and the stored nonce; the row records the approver, the relay and the digest of exactly those bytes.
\<close>

theorem approval_needs_authorized_signature:
  assumes "policy_ResolveApproval s ids r db = Inr (x, db')" and "approval_inv (db_approvals db)"
    and "a \<in> set (db_approvals db')" and "ap_status a = ApprovalApproved" and "a \<notin> set (db_approvals db)"
  shows "\<exists>row p expires bytes. p \<in> set (db_approvals db) \<and> is_pending (rq_ID r) p \<and> ap_expires p = ReadableTime expires \<and> rq_Now r < expires
    \<and> LoadIntent (ap_intent p) db = Inr row \<and> \<not> MateriallySuperseded row \<and> rq_Approved r
    \<and> ApprovalAssertionSigningBytes (assertionFor row r expires (ap_nonce p)) = Inr bytes \<and> credentials s row r bytes db
    \<and> a = decided_row r ApprovalApproved (sha256 bytes) p"
  using assms(1)
proof (cases rule: resolve_grants)
  case none
  with assms(3-5) show ?thesis by (auto simp: grants_nothing_def)
next
  case (granted row b db1 db2)
  have mem: "a \<in> set (db_approvals db2)" using granted(6) assms(3,4) by (auto simp: grants_nothing_def)
  obtain expires nonce bytes where c: "AssertionBinding (rq_ID r) db = Inr (expires, nonce)"
    "ApprovalAssertionSigningBytes (assertionFor row r expires nonce) = Inr bytes" "credentials s row r bytes db"
    "db1 = db\<lparr>db_approvals := BindAssertion (rq_ID r) (Sum bytes) (db_approvals db)\<rparr>"
    using granted(4) by (rule authorizeApproval_credentials)
  obtain p where p: "p \<in> set (db_approvals db)" "is_pending (rq_ID r) p" "a = decided_row r (fst (ApprovalDecision (rq_Approved r))) (Sum bytes) p"
    using granted(5)[unfolded c(4)] mem assms(5) by (rule decision_rows) (use assms(4) in \<open>simp add: is_pending_def ApprovalApproved_def ApprovalPending_def\<close>)
  have unique: "p' = p" if "p' \<in> set (db_approvals db)" "ap_id p' = rq_ID r" for p'
    using assms(2) distinct_key_eq[of ap_id "db_approvals db" p' p] p(1,2) that by (simp add: approval_inv_def is_pending_def)
  have binding: "ap_expires p = ReadableTime expires" "ap_nonce p = nonce"
    using c(1) unique by (auto simp: AssertionBinding_def PendingBinding_def is_pending_def ParseTime_Some split: option.splits dest!: find_SomeD)
  have loaded: "ay_IntentID b = ap_intent p" "ay_ExpiresAt b = expires"
    using granted(1) unique binding(1)
    by (auto simp: LoadApproval_def ParseTime_Some split: option.splits if_splits elim!: bind_SomeE dest!: find_SomeD)
  have approved: "rq_Approved r"
    using assms(4) p(3) by (auto simp: decided_row_def ApprovalDecision_def ApprovalApproved_def split: if_splits)
  with granted(3) loaded(2) have "rq_Now r < expires" "\<not> MateriallySuperseded row"
    by (auto simp: ApprovalDisposition_def split: if_splits)
  moreover have "a = decided_row r ApprovalApproved (sha256 bytes) p"
    using p(3) approved by (simp add: ApprovalDecision_def ApprovalApproved_def Sum_def)
  ultimately show ?thesis
    using p(1,2) binding loaded(1) granted(2) approved c(2,3)
    by (intro exI[of _ row] exI[of _ p] exI[of _ expires] exI[of _ bytes]) simp
qed

theorem approval_needs_authorized_signature_witness:
  "policy_ResolveApproval demo_policy demo_ids demo_resolution demo_governed = Inr (demo_outcome, demo_commanded (sha256 demo_bytes) [demo_resolved_event])
     \<and> (\<exists>row bytes. LoadIntent ''i1'' demo_governed = Inr row \<and> credentials demo_policy row demo_resolution bytes demo_governed)"
proof -
  have inv: "approval_inv (db_approvals demo_governed)"
    by (simp add: demo_governed_def approval_inv_def unique_index_def)
  have a: "demo_granted_row (sha256 demo_bytes) \<in> set (db_approvals (demo_commanded (sha256 demo_bytes) [demo_resolved_event]))"
    "ap_status (demo_granted_row (sha256 demo_bytes)) = ApprovalApproved" "demo_granted_row (sha256 demo_bytes) \<notin> set (db_approvals demo_governed)"
    by (simp_all add: demo_commanded_def demo_granted_row_def demo_governed_def demo_pending_row_def demo_approval_def ApprovalApproved_def ApprovalPending_def)
  obtain row p bytes where "p \<in> set (db_approvals demo_governed)" "LoadIntent (ap_intent p) demo_governed = Inr row"
    "credentials demo_policy row demo_resolution bytes demo_governed"
    using approval_needs_authorized_signature[OF demo_resolve inv a] by blast
  then show ?thesis using demo_resolve by (auto simp: demo_governed_def demo_pending_row_def demo_approval_def)
qed


section \<open>The signed bytes\<close>

lemma canon_map_members:
  assumes "canon (AnyMap kvs) = canon (AnyMap kvs')"
  shows "set (map (map_prod id canon) kvs) = set (map (map_prod id canon) kvs')"
proof -
  have "sort_func compare_member (map (map_prod id canon) kvs) = sort_func compare_member (map (map_prod id canon) kvs')"
    using assms by simp
  then show ?thesis by (metis set_sort_func)
qed

lemma encode_map_members:
  assumes "distinct (map fst kvs)" "encode (AnyMap kvs) = Inr t" "(k, v) \<in> set kvs"
  shows "\<exists>u. encode v = Inr u"
proof -
  have d: "distinct (map fst (map (map_prod id encode) kvs))" using assms(1) by simp
  obtain mts where m: "list_all2 (\<lambda>kr mt. \<exists>u. snd kr = Inr u \<and> member_text (fst kr) u mt) (sort_func compare_member (map (map_prod id encode) kvs)) mts"
    using assms(2) encodeObject_Inr[OF d, of t] by auto
  have "(k, encode v) \<in> set (sort_func compare_member (map (map_prod id encode) kvs))"
    using assms(3) by force
  then obtain i where "i < length (sort_func compare_member (map (map_prod id encode) kvs))"
    "sort_func compare_member (map (map_prod id encode) kvs) ! i = (k, encode v)"
    unfolding in_set_conv_nth by blast
  with list_all2_nthD[OF m] show ?thesis by fastforce
qed

lemma encode_int_safe: "encode (AnyInt n) = Inr u \<Longrightarrow> \<bar>n\<bar> \<le> maxSafeInteger"
  by (auto simp: encodeInteger_def split: if_splits)

text \<open>
  Claim C14. A signature over an approval assertion cannot be used for another: the signing bytes determine every
  field of the assertion. Two assertions (with expiries between the years 0 and 9999) that have the same
  signing bytes agree on the approval, intent, decision, tenant, situation and version, the risk class,
  both digests, the expiry, the nonce, the approver, the relay and the verdict.
\<close>

theorem signing_bytes_identify_assertion:
  assumes "ApprovalAssertionSigningBytes a = Inr bytes" and "ApprovalAssertionSigningBytes b = Inr bytes"
    and "0 \<le> year_of_day (aa_ExpiresAt a div day_ns)" "year_of_day (aa_ExpiresAt a div day_ns) \<le> 9999"
    and "0 \<le> year_of_day (aa_ExpiresAt b div day_ns)" "year_of_day (aa_ExpiresAt b div day_ns) \<le> 9999"
  shows "a = b"
proof -
  obtain ta where ta: "Marshal (assertion_document a) = Inr ta" "bytes = DomainApproval @ ta"
    using assms(1) by (auto simp: ApprovalAssertionSigningBytes_def canonicalApprovalAssertion_def bind_res_Inr_iff)
  have tb: "Marshal (assertion_document b) = Inr ta"
    using assms(2) ta(2) by (auto simp: ApprovalAssertionSigningBytes_def canonicalApprovalAssertion_def bind_res_Inr_iff)
  have good: "go_value (assertion_document x)" "depth (assertion_document x) \<le> max_nesting_depth" for x
    by (simp_all add: assertion_document_def max_nesting_depth_def)
  have same: "canon (assertion_document a) = canon (assertion_document b)"
    using Marshal_reads(1)[OF good ta(1)] Marshal_reads(1)[OF good tb] by simp
  have safe: "\<bar>aa_SituationVersion x\<bar> \<le> maxSafeInteger" if m: "Marshal (assertion_document x) = Inr ta" for x
  proof -
    have "\<exists>u. encode (AnyInt (aa_SituationVersion x)) = Inr u"
      by (rule encode_map_members[OF _ m[unfolded Marshal_def assertion_document_def]]) simp_all
    then show ?thesis using encode_int_safe by blast
  qed
  note members = canon_map_members[OF same[unfolded assertion_document_def]]
  have float: "float_of_int (aa_SituationVersion a) = float_of_int (aa_SituationVersion b)"
    and stamp: "FormatTime (aa_ExpiresAt a) = FormatTime (aa_ExpiresAt b)"
    and rest: "aa_ApprovalID a = aa_ApprovalID b" "aa_IntentID a = aa_IntentID b" "aa_DecisionID a = aa_DecisionID b" "aa_TenantID a = aa_TenantID b"
      "aa_SituationID a = aa_SituationID b" "aa_RiskClass a = aa_RiskClass b" "aa_IntentDigest a = aa_IntentDigest b"
      "aa_DecisionDigest a = aa_DecisionDigest b" "aa_Nonce a = aa_Nonce b" "aa_ApproverID a = aa_ApproverID b" "aa_RelayID a = aa_RelayID b"
      "aa_Approved a = aa_Approved b"
    using equalityD1[OF members] by simp_all
  have "aa_SituationVersion a = aa_SituationVersion b"
    using float float_of_int_safe[OF safe[OF ta(1)]] float_of_int_safe[OF safe[OF tb]] by simp
  moreover have "aa_ExpiresAt a = aa_ExpiresAt b"
    using FormatTime_inj[OF stamp assms(3-6)] .
  ultimately show ?thesis using rest by (cases a; cases b) simp
qed

theorem signing_bytes_identify_assertion_witness:
  "ApprovalAssertionSigningBytes demo_assertion = Inr demo_bytes
     \<and> (ApprovalAssertionSigningBytes (demo_assertion\<lparr>aa_Approved := False\<rparr>) \<noteq> Inr demo_bytes)"
proof -
  have "0 \<le> year_of_day (1000 div day_ns)" "year_of_day (1000 div day_ns) \<le> 9999" by code_simp+
  then have year: "0 \<le> year_of_day (aa_ExpiresAt demo_assertion div day_ns)" "year_of_day (aa_ExpiresAt demo_assertion div day_ns) \<le> 9999"
    by (simp_all add: demo_assertion_def assertionFor_def)
  have "demo_assertion \<noteq> demo_assertion\<lparr>aa_Approved := False\<rparr>"
    by (simp add: demo_assertion_def assertionFor_def demo_resolution_def)
  with signing_bytes_identify_assertion[OF demo_signing, of "demo_assertion\<lparr>aa_Approved := False\<rparr>"] year demo_signing show ?thesis by auto
qed

end
