(* ===== verification/Policy_Governance.thy ===== *)
theory Policy_Governance
  imports Policy_Principals Policy_Examples
begin

text \<open>
  Replacing the governance of a tenant: what is active and granted afterwards is what the document says,
  and no other tenant gains or loses an authority.
\<close>

section \<open>Principals\<close>

lemma validatePrincipals_ids:
  assumes "validatePrincipals keyed ps = Inr keyed'"
  shows "distinct (map pr_ID ps) \<and> (\<forall>p \<in> set ps. map_of keyed (pr_ID p) = None \<and> principal_validate p = Inr ())
    \<and> dom (map_of keyed') = dom (map_of keyed) \<union> pr_ID ` set ps"
  using assms
proof (induction ps arbitrary: keyed)
  case (Cons p ps)
  from Cons.prems have v: "map_of keyed (pr_ID p) = None" "principal_validate p = Inr ()"
    "validatePrincipals ((pr_ID p, pr_PublicKey p \<noteq> '''') # keyed) ps = Inr keyed'"
    by (auto simp: bind_res_Inr_iff split: if_splits)
  from Cons.IH[OF v(3)] v(1,2) show ?case by (auto split: if_splits)
qed simp

lemma upsertPrincipal_Inr:
  assumes "upsertPrincipal tenant e key now db = Inr db'" and "distinct (map pn_id (db_principals db))"
  shows "distinct (map pn_id (db_principals db'))
    \<and> filter (\<lambda>p. pn_tenant p \<noteq> tenant) (db_principals db') = filter (\<lambda>p. pn_tenant p \<noteq> tenant) (db_principals db)
    \<and> (\<exists>p \<in> set (db_principals db'). pn_id p = pr_ID e \<and> pn_tenant p = tenant \<and> pn_status p = EffectiveStatus e \<and> pn_key p = key)
    \<and> (\<forall>p. pn_id p \<noteq> pr_ID e \<longrightarrow> (p \<in> set (db_principals db') \<longleftrightarrow> p \<in> set (db_principals db)))
    \<and> pn_id ` set (db_principals db') = insert (pr_ID e) (pn_id ` set (db_principals db))"
proof (cases "find (\<lambda>r. pn_id r = pr_ID e) (db_principals db)")
  case None
  then have "db' = db\<lparr>db_principals := db_principals db @ [\<lparr>pn_id = pr_ID e, pn_tenant = tenant, pn_status = EffectiveStatus e, pn_key = key, pn_created = now\<rparr>]\<rparr>"
    using assms(1) by (simp add: upsertPrincipal_def)
  with None assms(2) show ?thesis by (auto simp: find_None_iff)
next
  case (Some r)
  have r: "r \<in> set (db_principals db)" "pn_id r = pr_ID e"
    using Some by (auto dest: find_SomeD)
  have t: "pn_tenant r = tenant" and db': "db' = db\<lparr>db_principals := sql_update (\<lambda>x. pn_id x = pr_ID e)
      (\<lambda>x. x\<lparr>pn_status := EffectiveStatus e, pn_key := key\<rparr>) (db_principals db)\<rparr>"
    using assms(1) Some by (auto simp: upsertPrincipal_def split: if_splits)
  have only: "pn_tenant x = tenant" if "x \<in> set (db_principals db)" "pn_id x = pr_ID e" for x
    using distinct_key_eq[OF assms(2) that(1) r(1)] that(2) r(2) t by simp
  have ids: "map pn_id (db_principals db') = map pn_id (db_principals db)"
    by (simp add: db' sql_update_def)
  have kept: "filter (\<lambda>p. pn_tenant p \<noteq> tenant) (sql_update (\<lambda>x. pn_id x = pr_ID e) (\<lambda>x. x\<lparr>pn_status := st, pn_key := k\<rparr>) rows)
      = filter (\<lambda>p. pn_tenant p \<noteq> tenant) rows" if "\<And>x. x \<in> set rows \<Longrightarrow> pn_id x = pr_ID e \<Longrightarrow> pn_tenant x = tenant" for rows :: "principal_db_row list" and st k
    using that by (induction rows) (auto simp: sql_update_def)
  have image: "pn_id ` set (db_principals db') = insert (pr_ID e) (pn_id ` set (db_principals db))"
    using arg_cong[OF ids, of set] r by (simp add: insert_absorb) (metis image_eqI insert_absorb)
  have "distinct (map pn_id (db_principals db'))" using ids assms(2) by simp
  moreover have "filter (\<lambda>p. pn_tenant p \<noteq> tenant) (db_principals db') = filter (\<lambda>p. pn_tenant p \<noteq> tenant) (db_principals db)"
    using kept[OF only] by (simp add: db')
  moreover have "r\<lparr>pn_status := EffectiveStatus e, pn_key := key\<rparr> \<in> set (db_principals db')"
    using r by (auto simp: db' sql_update_def image_iff intro!: bexI[of _ r])
  then have "\<exists>p \<in> set (db_principals db'). pn_id p = pr_ID e \<and> pn_tenant p = tenant \<and> pn_status p = EffectiveStatus e \<and> pn_key p = key"
    using r(2) t by (intro bexI) simp_all
  moreover have "p \<in> set (db_principals db') \<longleftrightarrow> p \<in> set (db_principals db)" if "pn_id p \<noteq> pr_ID e" for p
    using that by (auto simp: db' sql_update_def image_iff split: if_splits)
  ultimately show ?thesis using image by blast
qed

lemma upsertPrincipals_Inr:
  assumes "upsertPrincipals tenant es now db = Inr db'" and "distinct (map pn_id (db_principals db))" and "distinct (map pr_ID es)"
  shows "distinct (map pn_id (db_principals db'))
    \<and> filter (\<lambda>p. pn_tenant p \<noteq> tenant) (db_principals db') = filter (\<lambda>p. pn_tenant p \<noteq> tenant) (db_principals db)
    \<and> (\<forall>e \<in> set es. \<exists>p \<in> set (db_principals db'). pn_id p = pr_ID e \<and> pn_tenant p = tenant \<and> pn_status p = EffectiveStatus e
          \<and> KeyBytes e = Inr (pn_key p))
    \<and> (\<forall>p. pn_id p \<notin> pr_ID ` set es \<longrightarrow> (p \<in> set (db_principals db') \<longleftrightarrow> p \<in> set (db_principals db)))
    \<and> pn_id ` set (db_principals db') = pr_ID ` set es \<union> pn_id ` set (db_principals db)"
  using assms
proof (induction es arbitrary: db)
  case (Cons e es)
  obtain key db1 where u: "KeyBytes e = Inr key" "upsertPrincipal tenant e key now db = Inr db1" "upsertPrincipals tenant es now db1 = Inr db'"
    using Cons.prems(1) by (auto simp: bind_res_Inr_iff)
  note one = upsertPrincipal_Inr[OF u(2) Cons.prems(2)]
  have ih: "distinct (map pn_id (db_principals db'))"
    "filter (\<lambda>p. pn_tenant p \<noteq> tenant) (db_principals db') = filter (\<lambda>p. pn_tenant p \<noteq> tenant) (db_principals db1)"
    "\<forall>x \<in> set es. \<exists>p \<in> set (db_principals db'). pn_id p = pr_ID x \<and> pn_tenant p = tenant \<and> pn_status p = EffectiveStatus x \<and> KeyBytes x = Inr (pn_key p)"
    "\<forall>p. pn_id p \<notin> pr_ID ` set es \<longrightarrow> (p \<in> set (db_principals db') \<longleftrightarrow> p \<in> set (db_principals db1))"
    "pn_id ` set (db_principals db') = pr_ID ` set es \<union> pn_id ` set (db_principals db1)"
    using Cons.IH[OF u(3)] one Cons.prems(3) by auto
  have "\<exists>p \<in> set (db_principals db'). pn_id p = pr_ID e \<and> pn_tenant p = tenant \<and> pn_status p = EffectiveStatus e \<and> KeyBytes e = Inr (pn_key p)"
    using one ih(4) u(1) Cons.prems(3) by (metis distinct.simps(2) list.map(2) list.set_map)
  then show ?case using ih one by auto
qed simp

lemma disableTenantPrincipals_rows:
  "map pn_id (db_principals (disableTenantPrincipals tenant db)) = map pn_id (db_principals db)"
  "filter (\<lambda>p. pn_tenant p \<noteq> tenant) (db_principals (disableTenantPrincipals tenant db)) = filter (\<lambda>p. pn_tenant p \<noteq> tenant) (db_principals db)"
  "p \<in> set (db_principals (disableTenantPrincipals tenant db)) \<Longrightarrow> pn_tenant p = tenant \<Longrightarrow> pn_status p = ''disabled''"
proof -
  have kept: "filter (\<lambda>p. pn_tenant p \<noteq> tenant) (sql_update (\<lambda>p. pn_tenant p = tenant) (\<lambda>p. p\<lparr>pn_status := ''disabled''\<rparr>) rows)
      = filter (\<lambda>p. pn_tenant p \<noteq> tenant) rows" for rows :: "principal_db_row list"
    by (induction rows) (auto simp: sql_update_def)
  show "map pn_id (db_principals (disableTenantPrincipals tenant db)) = map pn_id (db_principals db)"
    by (simp add: disableTenantPrincipals_def sql_update_def)
  show "filter (\<lambda>p. pn_tenant p \<noteq> tenant) (db_principals (disableTenantPrincipals tenant db)) = filter (\<lambda>p. pn_tenant p \<noteq> tenant) (db_principals db)"
    using kept by (simp add: disableTenantPrincipals_def)
  assume p: "p \<in> set (db_principals (disableTenantPrincipals tenant db))" "pn_tenant p = tenant"
  have "p \<in> (\<lambda>x. if pn_tenant x = tenant then x\<lparr>pn_status := ''disabled''\<rparr> else x) ` set (db_principals db)"
    using p(1) by (simp add: disableTenantPrincipals_def sql_update_def)
  then obtain x where x: "p = (if pn_tenant x = tenant then x\<lparr>pn_status := ''disabled''\<rparr> else x)" by (rule imageE)
  then have "pn_tenant x = tenant" using p(2) by (cases "pn_tenant x = tenant") simp_all
  with x show "pn_status p = ''disabled''" by simp
qed

section \<open>Grants\<close>

definition role_members :: "role_entry \<Rightarrow> (string \<times> string) list" where
  "role_members r = map (\<lambda>m. (m, ro_ID r)) (ro_Members r)"

definition role_authorities :: "string \<Rightarrow> role_entry \<Rightarrow> authority_db_row list" where
  "role_authorities tenant r = [\<lparr>au_tenant = tenant, au_entity = at_Entity a, au_risk = risk, au_role = ro_ID r\<rparr>. a \<leftarrow> ro_Authorities r, risk \<leftarrow> at_Risks a]"

lemma grant_members_Inr: "grant_members role ms db = Inr db' \<Longrightarrow> db' = db\<lparr>db_memberships := db_memberships db @ map (\<lambda>m. (m, role)) ms\<rparr>"
proof (induction ms arbitrary: db)
  case (Cons m ms)
  from Cons.prems have "grant_members role ms (db\<lparr>db_memberships := db_memberships db @ [(m, role)]\<rparr>) = Inr db'" by (simp split: if_splits)
  from Cons.IH[OF this] show ?case by simp
qed simp

lemma grant_risks_Inr:
  "grant_risks tenant role entity risks db = Inr db'
     \<Longrightarrow> db' = db\<lparr>db_authorities := db_authorities db @ map (\<lambda>risk. \<lparr>au_tenant = tenant, au_entity = entity, au_risk = risk, au_role = role\<rparr>) risks\<rparr>"
proof (induction risks arbitrary: db)
  case (Cons risk risks)
  from Cons.prems have "grant_risks tenant role entity risks (db\<lparr>db_authorities := db_authorities db
      @ [\<lparr>au_tenant = tenant, au_entity = entity, au_risk = risk, au_role = role\<rparr>]\<rparr>) = Inr db'" by (simp add: Let_def split: if_splits)
  from Cons.IH[OF this] show ?case by simp
qed simp

lemma writeAuthorities_Inr:
  "writeAuthorities tenant role as db = Inr db'
     \<Longrightarrow> db' = db\<lparr>db_authorities := db_authorities db @ [\<lparr>au_tenant = tenant, au_entity = at_Entity a, au_risk = risk, au_role = role\<rparr>. a \<leftarrow> as, risk \<leftarrow> at_Risks a]\<rparr>"
proof (induction as arbitrary: db)
  case (Cons a as)
  from Cons.prems obtain db1 where w: "grant_risks tenant role (at_Entity a) (at_Risks a) db = Inr db1" "writeAuthorities tenant role as db1 = Inr db'"
    by (auto simp: bind_res_Inr_iff)
  from Cons.IH[OF w(2)] grant_risks_Inr[OF w(1)] show ?case by simp
qed simp

lemma writeRole_Inr:
  assumes "writeRole tenant r db = Inr db'"
  shows "db_principals db' = db_principals db \<and> db_memberships db' = db_memberships db @ role_members r
    \<and> db_authorities db' = db_authorities db @ role_authorities tenant r"
proof -
  obtain db1 db2 where w: "upsert_role r db = Inr db1" "grant_members (ro_ID r) (ro_Members r) db1 = Inr db2" "writeAuthorities tenant (ro_ID r) (ro_Authorities r) db2 = Inr db'"
    using assms by (auto simp: writeRole_def bind_res_Inr_iff)
  have "db_principals db1 = db_principals db \<and> db_memberships db1 = db_memberships db \<and> db_authorities db1 = db_authorities db"
    using w(1) by (auto simp: upsert_role_def split: if_splits)
  then show ?thesis
    using grant_members_Inr[OF w(2)] writeAuthorities_Inr[OF w(3)] by (simp add: role_members_def role_authorities_def)
qed

lemma write_roles_Inr:
  "write_roles tenant rs db = Inr db' \<Longrightarrow> db_principals db' = db_principals db
     \<and> db_memberships db' = db_memberships db @ concat (map role_members rs)
     \<and> db_authorities db' = db_authorities db @ concat (map (role_authorities tenant) rs)"
proof (induction rs arbitrary: db)
  case (Cons r rs)
  then obtain db1 where w: "writeRole tenant r db = Inr db1" "write_roles tenant rs db1 = Inr db'"
    by (auto simp: bind_res_Inr_iff)
  from Cons.IH[OF w(2)] writeRole_Inr[OF w(1)] show ?case by simp
qed simp

lemma validateRoles_members:
  "validateRoles keyed seen rs = Inr () \<Longrightarrow> r \<in> set rs \<Longrightarrow> m \<in> set (ro_Members r) \<Longrightarrow> map_of keyed m = Some True"
  by (induction rs arbitrary: seen) (auto simp: bind_res_Inr_iff role_validate_def list_all_iff split: if_splits)

text \<open>The authorities of a principal as the rows of three tables.\<close>

lemma active_authorities_rows:
  "active_authorities tenant k db = concat (map (\<lambda>_. concat (map (\<lambda>m. filter (\<lambda>a. au_role a = snd m) (filter (\<lambda>a. au_tenant a = tenant) (db_authorities db)))
     (filter (\<lambda>m. fst m = k) (db_memberships db)))) (filter (active_principal tenant k) (db_principals db)))"
proof -
  have inner: "concat (map (\<lambda>m. if fst m = i then concat (map (\<lambda>a. if au_role a = snd m \<and> au_tenant a = tenant then [a] else []) as) else []) ms)
      = concat (map (\<lambda>m. filter (\<lambda>a. au_role a = snd m) (filter (\<lambda>a. au_tenant a = tenant) as)) (filter (\<lambda>m. fst m = i) ms))"
    for i and ms :: "(string \<times> string) list" and as :: "authority_db_row list"
  proof -
    have "concat (map (\<lambda>a. if au_role a = x \<and> au_tenant a = tenant then [a] else []) as) = filter (\<lambda>a. au_role a = x) (filter (\<lambda>a. au_tenant a = tenant) as)" for x
      by (induction as) auto
    then show ?thesis by (induction ms) simp_all
  qed
  have outer: "concat (map (\<lambda>p. if active_principal tenant k p then f (pn_id p) else []) ps) = concat (map (\<lambda>_. f k) (filter (active_principal tenant k) ps))"
    for f :: "string \<Rightarrow> authority_db_row list" and ps
    by (induction ps) (simp_all add: active_principal_def)
  have "active_authorities tenant k db = concat (map (\<lambda>p. if active_principal tenant k p then
      concat (map (\<lambda>m. filter (\<lambda>a. au_role a = snd m) (filter (\<lambda>a. au_tenant a = tenant) (db_authorities db))) (filter (\<lambda>m. fst m = pn_id p) (db_memberships db))) else []) (db_principals db))"
    by (simp add: active_authorities_def inner cong: if_cong)
  also have "\<dots> = concat (map (\<lambda>_. concat (map (\<lambda>m. filter (\<lambda>a. au_role a = snd m) (filter (\<lambda>a. au_tenant a = tenant) (db_authorities db)))
     (filter (\<lambda>m. fst m = k) (db_memberships db)))) (filter (active_principal tenant k) (db_principals db)))"
    by (rule outer)
  finally show ?thesis .
qed

lemma active_authorities_iff:
  "a \<in> set (active_authorities tenant k db) \<longleftrightarrow> (\<exists>p \<in> set (db_principals db). active_principal tenant k p) \<and> a \<in> set (db_authorities db)
     \<and> au_tenant a = tenant \<and> (k, au_role a) \<in> set (db_memberships db)"
  by (force simp: active_authorities_rows)

lemma validateRoles_ids: "validateRoles keyed seen rs = Inr () \<Longrightarrow> distinct (map ro_ID rs) \<and> set (map ro_ID rs) \<inter> set seen = {}"
proof (induction rs arbitrary: seen)
  case (Cons r rs)
  then have "ro_ID r \<notin> set seen" "validateRoles keyed (ro_ID r # (''name:'' @ ro_Name r) # seen) rs = Inr ()"
    by (auto simp: bind_res_Inr_iff split: if_splits)
  with Cons.IH[OF this(2)] show ?case by auto
qed simp

section \<open>Replacing the governance of a tenant\<close>

text \<open>What the stages of a successful replacement leave in the three tables.\<close>

lemma ApplyPrincipals_Inr:
  assumes "ApplyPrincipals fence epoch d now db = Inr (summary, db')" and "distinct (map pn_id (db_principals db))"
  obtains keyed db1 where "validatePrincipals [] (pc_Principals d) = Inr keyed" "validateRoles keyed [] (pc_Roles d) = Inr ()"
    "upsertPrincipals (pc_Tenant d) (pc_Principals d) (FormatTime now) (disableTenantPrincipals (pc_Tenant d) db) = Inr db1"
    "db_principals db' = db_principals db1"
    "db_memberships db' = filter (\<lambda>m. \<not> list_ex (\<lambda>p. pn_id p = fst m \<and> pn_tenant p = pc_Tenant d) (db_principals db1)) (db_memberships db1)
       @ concat (map role_members (pc_Roles d))"
    "db_authorities db' = filter (\<lambda>a. au_tenant a \<noteq> pc_Tenant d) (db_authorities db1) @ concat (map (role_authorities (pc_Tenant d)) (pc_Roles d))"
proof -
  obtain keyed where v: "validatePrincipals [] (pc_Principals d) = Inr keyed" "validateRoles keyed [] (pc_Roles d) = Inr ()"
    "ReplaceGovernance d now db = Inr (summary, db')"
    using assms(1) by (auto simp: ApplyPrincipals_def document_Validate_def bind_res_Inr_iff split: option.splits if_splits)
  obtain db1 where u: "upsertPrincipals (pc_Tenant d) (pc_Principals d) (FormatTime now) (disableTenantPrincipals (pc_Tenant d) db) = Inr db1"
    "write_roles (pc_Tenant d) (pc_Roles d) (clearTenantGrants (pc_Tenant d) db1) = Inr db'"
    using v(3) by (auto simp: ReplaceGovernance_def replaceRoles_def bind_res_Inr_iff)
  show ?thesis
    using that[OF v(1,2) u(1)] write_roles_Inr[OF u(2)] by (simp add: clearTenantGrants_def)
qed

lemma upsertPrincipals_grants:
  "upsertPrincipals tenant es now db = Inr db' \<Longrightarrow> db_memberships db' = db_memberships db \<and> db_authorities db' = db_authorities db"
proof (induction es arbitrary: db)
  case (Cons e es)
  obtain key db1 where u: "upsertPrincipal tenant e key now db = Inr db1" "upsertPrincipals tenant es now db1 = Inr db'"
    using Cons.prems by (auto simp: bind_res_Inr_iff)
  have "db_memberships db1 = db_memberships db \<and> db_authorities db1 = db_authorities db"
    using u(1) by (auto simp: upsertPrincipal_def split: option.splits if_splits)
  with Cons.IH[OF u(2)] show ?case by simp
qed simp

definition declared_active :: "principal_document \<Rightarrow> string \<Rightarrow> string option \<Rightarrow> bool" where
  "declared_active d k key \<longleftrightarrow> (\<exists>e \<in> set (pc_Principals d). pr_ID e = k \<and> EffectiveStatus e = ''active'' \<and> KeyBytes e = Inr key)"

definition declared_grant :: "principal_document \<Rightarrow> string \<Rightarrow> authority_db_row \<Rightarrow> bool" where
  "declared_grant d k a \<longleftrightarrow> au_tenant a = pc_Tenant d \<and> (\<exists>r \<in> set (pc_Roles d). k \<in> set (ro_Members r) \<and> au_role a = ro_ID r
     \<and> (\<exists>g \<in> set (ro_Authorities r). au_entity a = at_Entity g \<and> au_risk a \<in> set (at_Risks g)))"

lemma role_authorities_iff:
  "a \<in> set (role_authorities tenant r) \<longleftrightarrow> au_tenant a = tenant \<and> au_role a = ro_ID r
     \<and> (\<exists>g \<in> set (ro_Authorities r). au_entity a = at_Entity g \<and> au_risk a \<in> set (at_Risks g))"
  by (cases a) (auto simp: role_authorities_def)

lemma replaced_principals:
  assumes "upsertPrincipals tenant es now (disableTenantPrincipals tenant db) = Inr db1" and "distinct (map pn_id (db_principals db))" and "distinct (map pr_ID es)"
  shows "(\<exists>p \<in> set (db_principals db1). active_principal tenant k p \<and> pn_key p = key)
    \<longleftrightarrow> (\<exists>e \<in> set es. pr_ID e = k \<and> EffectiveStatus e = ''active'' \<and> KeyBytes e = Inr key)" (is "?l \<longleftrightarrow> ?r")
proof -
  have ids: "distinct (map pn_id (db_principals (disableTenantPrincipals tenant db)))"
    using assms(2) disableTenantPrincipals_rows(1) by simp
  note up = upsertPrincipals_Inr[OF assms(1) ids assms(3)]
  have row: "p \<in> set (db_principals db1) \<Longrightarrow> q \<in> set (db_principals db1) \<Longrightarrow> pn_id p = pn_id q \<Longrightarrow> p = q" for p q
    using up distinct_key_eq by metis
  show ?thesis
  proof
    assume ?l
    then obtain p where p: "p \<in> set (db_principals db1)" "pn_id p = k" "pn_tenant p = tenant" "pn_status p = ''active''" "pn_key p = key"
      by (auto simp: active_principal_def)
    have "k \<in> pr_ID ` set es"
    proof (rule ccontr)
      assume "k \<notin> pr_ID ` set es"
      then have "p \<in> set (db_principals (disableTenantPrincipals tenant db))" using up p(1,2) by blast
      from disableTenantPrincipals_rows(3)[OF this p(3)] p(4) show False by simp
    qed
    then obtain e where e: "e \<in> set es" "pr_ID e = k" by auto
    then obtain q where "q \<in> set (db_principals db1)" "pn_id q = k" "pn_status q = EffectiveStatus e" "KeyBytes e = Inr (pn_key q)" using up by auto
    with row[OF p(1)] p e show ?r by auto
  next
    assume ?r
    then obtain e where e: "e \<in> set es" "pr_ID e = k" "EffectiveStatus e = ''active''" "KeyBytes e = Inr key" by blast
    then obtain q where "q \<in> set (db_principals db1)" "pn_id q = k" "pn_tenant q = tenant" "pn_status q = ''active''" "pn_key q = key" using up by auto
    then show ?l by (auto simp: active_principal_def)
  qed
qed

lemma filter_refines:
  assumes "\<And>x. P x \<Longrightarrow> Q x" and "filter Q xs = filter Q ys"
  shows "filter P xs = filter P ys"
proof -
  have "filter P zs = filter P (filter Q zs)" for zs using assms(1) by (induction zs) auto
  then show ?thesis using assms(2) by metis
qed

lemma replaced_elsewhere:
  assumes "ApplyPrincipals fence epoch d now db = Inr (summary, db')" and "distinct (map pn_id (db_principals db))" and "t \<noteq> pc_Tenant d"
  shows "active_authorities t k db' = active_authorities t k db"
proof -
  obtain keyed db1 where a: "validatePrincipals [] (pc_Principals d) = Inr keyed" "validateRoles keyed [] (pc_Roles d) = Inr ()"
    "upsertPrincipals (pc_Tenant d) (pc_Principals d) (FormatTime now) (disableTenantPrincipals (pc_Tenant d) db) = Inr db1"
    "db_principals db' = db_principals db1"
    "db_memberships db' = filter (\<lambda>m. \<not> list_ex (\<lambda>p. pn_id p = fst m \<and> pn_tenant p = pc_Tenant d) (db_principals db1)) (db_memberships db1)
       @ concat (map role_members (pc_Roles d))"
    "db_authorities db' = filter (\<lambda>a. au_tenant a \<noteq> pc_Tenant d) (db_authorities db1) @ concat (map (role_authorities (pc_Tenant d)) (pc_Roles d))"
    using assms(1,2) by (rule ApplyPrincipals_Inr)
  have ids: "distinct (map pn_id (db_principals (disableTenantPrincipals (pc_Tenant d) db)))"
    using assms(2) disableTenantPrincipals_rows(1) by simp
  have known: "distinct (map pr_ID (pc_Principals d))" "dom (map_of keyed) = pr_ID ` set (pc_Principals d)"
    using validatePrincipals_ids[OF a(1)] by auto
  note up = upsertPrincipals_Inr[OF a(3) ids known(1)]
  note tables = upsertPrincipals_grants[OF a(3)]
  have principals: "filter (active_principal t k) (db_principals db') = filter (active_principal t k) (db_principals db)"
  proof (rule filter_refines)
    show "pn_tenant x \<noteq> pc_Tenant d" if "active_principal t k x" for x
      using that assms(3) by (simp add: active_principal_def)
    show "filter (\<lambda>p. pn_tenant p \<noteq> pc_Tenant d) (db_principals db') = filter (\<lambda>p. pn_tenant p \<noteq> pc_Tenant d) (db_principals db)"
      using conjunct1[OF conjunct2[OF up]] disableTenantPrincipals_rows(2)[of "pc_Tenant d" db] by (simp only: a(4))
  qed
  have authorities: "filter (\<lambda>x. au_tenant x = t) (db_authorities db') = filter (\<lambda>x. au_tenant x = t) (db_authorities db)"
  proof -
    have "filter (\<lambda>x. au_tenant x = t) (concat (map (role_authorities (pc_Tenant d)) (pc_Roles d))) = []"
      using assms(3) by (auto simp: filter_empty_conv role_authorities_iff)
    moreover have "filter (\<lambda>x. au_tenant x = t) (filter (\<lambda>x. au_tenant x \<noteq> pc_Tenant d) xs) = filter (\<lambda>x. au_tenant x = t) xs" for xs
      using assms(3) by (auto intro: filter_cong)
    ultimately show ?thesis using tables by (simp add: a(6) disableTenantPrincipals_def)
  qed
  have memberships: "filter (\<lambda>m. fst m = k) (db_memberships db') = filter (\<lambda>m. fst m = k) (db_memberships db)"
    if p: "p \<in> set (db_principals db')" "active_principal t k p" for p
  proof -
    have foreign: "\<not> (pn_id q = k \<and> pn_tenant q = pc_Tenant d)" if "q \<in> set (db_principals db1)" for q
    proof
      assume q: "pn_id q = k \<and> pn_tenant q = pc_Tenant d"
      with p have "pn_id p = pn_id q" "pn_tenant p = t" by (simp_all add: active_principal_def)
      with distinct_key_eq[OF conjunct1[OF up] _ that] p(1)[unfolded a(4)] q assms(3) show False by blast
    qed
    have "k \<notin> pr_ID ` set (pc_Principals d)"
    proof
      assume "k \<in> pr_ID ` set (pc_Principals d)"
      then obtain e where "e \<in> set (pc_Principals d)" "k = pr_ID e" by blast
      then show False using foreign up by blast
    qed
    then have "map_of keyed k = None" using known(2) by auto
    then have "filter (\<lambda>m. fst m = k) (concat (map role_members (pc_Roles d))) = []"
      using validateRoles_members[OF a(2)] by (auto simp: filter_empty_conv role_members_def)
    moreover have "filter (\<lambda>m. fst m = k) (filter (\<lambda>m. \<not> list_ex (\<lambda>p. pn_id p = fst m \<and> pn_tenant p = pc_Tenant d) (db_principals db1)) ms) = filter (\<lambda>m. fst m = k) ms" for ms
      using foreign by (auto simp: list_ex_iff intro: filter_cong)
    ultimately show ?thesis using tables by (simp add: a(5) disableTenantPrincipals_def)
  qed
  show ?thesis
  proof (cases "filter (active_principal t k) (db_principals db') = []")
    case True
    with principals show ?thesis by (simp add: active_authorities_rows)
  next
    case False
    then obtain p where "p \<in> set (db_principals db')" "active_principal t k p" by (auto simp: filter_empty_conv)
    from memberships[OF this] principals authorities show ?thesis by (simp add: active_authorities_rows)
  qed
qed

text \<open>
  Claim C13. Governance is what the document says, and nobody else's: after a principal document has been applied, the
  active principals of its tenant are exactly the entries declared active, each with the declared key; an
  approver holds exactly the authorities of the declared roles it is a member of; no principal row is
  deleted; and the authorities of every principal of every other tenant are what they were, although
  roles and their identifiers are shared between tenants.
\<close>

theorem governance_replaced_exactly:
  assumes "ApplyPrincipals fence epoch d now db = Inr (summary, db')" and "distinct (map pn_id (db_principals db))"
  shows "((\<exists>p \<in> set (db_principals db'). active_principal (pc_Tenant d) k p \<and> pn_key p = key) \<longleftrightarrow> declared_active d k key)
    \<and> (a \<in> set (active_authorities (pc_Tenant d) k db') \<longleftrightarrow> (\<exists>key. declared_active d k key) \<and> declared_grant d k a)
    \<and> pn_id ` set (db_principals db) \<subseteq> pn_id ` set (db_principals db')
    \<and> (t \<noteq> pc_Tenant d \<longrightarrow> active_authorities t k db' = active_authorities t k db)"
proof -
  obtain keyed db1 where g: "validatePrincipals [] (pc_Principals d) = Inr keyed" "validateRoles keyed [] (pc_Roles d) = Inr ()"
    "upsertPrincipals (pc_Tenant d) (pc_Principals d) (FormatTime now) (disableTenantPrincipals (pc_Tenant d) db) = Inr db1"
    "db_principals db' = db_principals db1"
    "db_memberships db' = filter (\<lambda>m. \<not> list_ex (\<lambda>p. pn_id p = fst m \<and> pn_tenant p = pc_Tenant d) (db_principals db1)) (db_memberships db1)
       @ concat (map role_members (pc_Roles d))"
    "db_authorities db' = filter (\<lambda>a. au_tenant a \<noteq> pc_Tenant d) (db_authorities db1) @ concat (map (role_authorities (pc_Tenant d)) (pc_Roles d))"
    using assms by (rule ApplyPrincipals_Inr)
  have ids: "distinct (map pn_id (db_principals (disableTenantPrincipals (pc_Tenant d) db)))"
    using assms(2) disableTenantPrincipals_rows(1) by simp
  have known: "distinct (map pr_ID (pc_Principals d))" using validatePrincipals_ids[OF g(1)] by simp
  have active: "(\<exists>p \<in> set (db_principals db'). active_principal (pc_Tenant d) k p \<and> pn_key p = key) \<longleftrightarrow> declared_active d k key" for key
    unfolding g(4) declared_active_def by (rule replaced_principals[OF g(3) assms(2) known])
  have member: "(k, role) \<in> set (db_memberships db') \<longleftrightarrow> (\<exists>r \<in> set (pc_Roles d). k \<in> set (ro_Members r) \<and> role = ro_ID r)"
    if p: "p \<in> set (db_principals db')" "active_principal (pc_Tenant d) k p" for p role
  proof -
    have "list_ex (\<lambda>p. pn_id p = k \<and> pn_tenant p = pc_Tenant d) (db_principals db1)"
      using p unfolding g(4) active_principal_def list_ex_iff by blast
    then show ?thesis by (auto simp: g(5) role_members_def)
  qed
  have grant: "x \<in> set (db_authorities db') \<and> au_tenant x = pc_Tenant d \<longleftrightarrow> au_tenant x = pc_Tenant d
      \<and> (\<exists>r \<in> set (pc_Roles d). au_role x = ro_ID r \<and> (\<exists>h \<in> set (ro_Authorities r). au_entity x = at_Entity h \<and> au_risk x \<in> set (at_Risks h)))" for x
    by (auto simp: g(6) role_authorities_iff)
  have role: "r = r'" if "r \<in> set (pc_Roles d)" "r' \<in> set (pc_Roles d)" "ro_ID r = ro_ID r'" for r r'
    using validateRoles_ids[OF g(2)] that distinct_key_eq[of ro_ID "pc_Roles d"] by blast
  have "a \<in> set (active_authorities (pc_Tenant d) k db') \<longleftrightarrow> (\<exists>key. declared_active d k key) \<and> declared_grant d k a"
  proof (cases "\<exists>p \<in> set (db_principals db'). active_principal (pc_Tenant d) k p")
    case True
    then obtain p where p: "p \<in> set (db_principals db')" "active_principal (pc_Tenant d) k p" by blast
    have "\<exists>key. declared_active d k key" using active p by blast
    moreover have "a \<in> set (active_authorities (pc_Tenant d) k db') \<longleftrightarrow> declared_grant d k a"
      using True grant[of a] member[OF p, of "au_role a"] role unfolding active_authorities_iff declared_grant_def by metis
    ultimately show ?thesis by blast
  next
    case False
    then show ?thesis using active unfolding active_authorities_iff by blast
  qed
  moreover have "pn_id ` set (db_principals db) \<subseteq> pn_id ` set (db_principals db')"
    using upsertPrincipals_Inr[OF g(3) ids known] arg_cong[OF disableTenantPrincipals_rows(1)[of "pc_Tenant d" db], of set] by (simp add: g(4))
  moreover have "t \<noteq> pc_Tenant d \<longrightarrow> active_authorities t k db' = active_authorities t k db"
    using replaced_elsewhere[OF assms] by blast
  ultimately show ?thesis using active by blast
qed

definition demo_key_text :: string where
  "demo_key_text = replicate 43 CHR ''A'' @ ''=''"

definition demo_principals :: principal_document where
  "demo_principals = \<lparr>pc_Tenant = ''acme'',
     pc_Principals = [\<lparr>pr_ID = ''eve'', pr_PublicKey = demo_key_text, pr_Status = ''''\<rparr>],
     pc_Roles = [\<lparr>ro_ID = ''operators'', ro_Name = ''Operators'', ro_Members = [''eve''],
       ro_Authorities = [\<lparr>at_Entity = ''pump/2'', at_Risks = [''R1'']\<rparr>]\<rparr>]\<rparr>"

lemma demo_key_decodes: "KeyBytes \<lparr>pr_ID = ''eve'', pr_PublicKey = demo_key_text, pr_Status = ''''\<rparr> = Inr (Some (replicate 32 CHR 0x00))"
  by code_simp

text \<open>Ada loses her authority over the first pump, and Eve gets the one over the second.\<close>

theorem governance_replaced_exactly_witness:
  "\<exists>summary db'. ApplyPrincipals (Some (\<lambda>_ _. Inr ())) ''node'' demo_principals 3 demo_governed = Inr (summary, db')
     \<and> active_authorities ''acme'' ''ada'' db' = []
     \<and> \<lparr>au_tenant = ''acme'', au_entity = ''pump/2'', au_risk = ''R1'', au_role = ''operators''\<rparr> \<in> set (active_authorities ''acme'' ''eve'' db')"
proof -
  have approvable: "Approvable ''R1''" by code_simp
  have key: "principal_validate \<lparr>pr_ID = ''eve'', pr_PublicKey = demo_key_text, pr_Status = ''''\<rparr> = Inr ()" "demo_key_text \<noteq> ''''"
    by (simp_all add: principal_validate_def demo_key_decodes) (simp add: demo_key_text_def)
  have valid: "document_Validate demo_principals = Inr ()"
    by (simp add: document_Validate_def demo_principals_def key role_validate_def authority_validate_def approvable)
  have "\<not> isl (ApplyPrincipals (Some (\<lambda>_ _. Inr ())) ''node'' demo_principals 3 demo_governed)"
    by (simp add: ApplyPrincipals_def valid ReplaceGovernance_def)
       (simp add: demo_principals_def demo_key_decodes upsertPrincipal_def disableTenantPrincipals_def sql_update_def replaceRoles_def clearTenantGrants_def
        writeRole_def upsert_role_def demo_governed_def demo_start_def)
  then obtain summary db' where run: "ApplyPrincipals (Some (\<lambda>_ _. Inr ())) ''node'' demo_principals 3 demo_governed = Inr (summary, db')"
    by (cases "ApplyPrincipals (Some (\<lambda>_ _. Inr ())) ''node'' demo_principals 3 demo_governed") auto
  have ids: "distinct (map pn_id (db_principals demo_governed))" by (simp add: demo_governed_def)
  note rule = governance_replaced_exactly[OF run ids]
  have tenant: "pc_Tenant demo_principals = ''acme''" by (simp add: demo_principals_def)
  have eve: "declared_active demo_principals ''eve'' (Some (replicate 32 CHR 0x00))"
    by (simp add: declared_active_def demo_principals_def EffectiveStatus_def demo_key_decodes)
  have grant: "declared_grant demo_principals ''eve'' \<lparr>au_tenant = ''acme'', au_entity = ''pump/2'', au_risk = ''R1'', au_role = ''operators''\<rparr>"
    by (simp add: declared_grant_def demo_principals_def)
  have "\<not> declared_active demo_principals ''ada'' key" for key
    by (simp add: declared_active_def demo_principals_def)
  then have none: "a \<notin> set (active_authorities ''acme'' ''ada'' db')" for a
    using rule[where k = "''ada''" and a = a] tenant by auto
  have "set (active_authorities ''acme'' ''ada'' db') = {}" by (rule equals0I) (rule notE[OF none])
  moreover have "\<lparr>au_tenant = ''acme'', au_entity = ''pump/2'', au_risk = ''R1'', au_role = ''operators''\<rparr> \<in> set (active_authorities ''acme'' ''eve'' db')"
    using rule[where k = "''eve''" and a = "\<lparr>au_tenant = ''acme'', au_entity = ''pump/2'', au_risk = ''R1'', au_role = ''operators''\<rparr>"] eve grant tenant by auto
  ultimately show ?thesis using run by auto
qed

end
