(* ===== verification/Kernel_Time.thy ===== *)
theory Kernel_Time
  imports Go_Decimal
begin

text \<open>
  Reading a time text (\<^verbatim>\<open>internal/kernel/time.go\<close>: \<open>ParseTime\<close>, \<open>ParseStoredTime\<close>), with the part of
  \<^verbatim>\<open>time.Parse\<close> that the layout \<^verbatim>\<open>time.RFC3339Nano\<close> uses: four digits of a year, two of a month, a day, a minute and
  a second, one or two of an hour, an optional fraction behind a point or a comma of which nine digits
  count, and \<open>Z\<close> or an offset of at most 24 hours and 60 minutes. The day is checked against the
  length of the month. An instant is the number of nanoseconds since the start of year 1.
\<close>

section \<open>Fields\<close>

fun getnum :: "bool \<Rightarrow> string \<Rightarrow> (int \<times> string) option" where
  "getnum fixed [] = None"
| "getnum fixed [a] = (if is_digit a \<and> \<not> fixed then Some (digit_value a, []) else None)"
| "getnum fixed (a # b # cs) =
     (if \<not> is_digit a then None
      else if \<not> is_digit b then (if fixed then None else Some (digit_value a, b # cs))
      else Some (10 * digit_value a + digit_value b, cs))"

definition skip_byte :: "char \<Rightarrow> string \<Rightarrow> string option" where
  "skip_byte c s = (case s of x # rest \<Rightarrow> if x = c then Some rest else None | [] \<Rightarrow> None)"

definition year_field :: "string \<Rightarrow> (int \<times> string) option" where
  "year_field s =
     (if length s < 4 \<or> \<not> list_all is_digit (take 4 s) then None else Some (decimal_value (take 4 s) 0, drop 4 s))"

text \<open>\<open>getnum\<close>, behind a separator and up to an exclusive bound.\<close>

definition num_field :: "char \<Rightarrow> bool \<Rightarrow> int \<Rightarrow> string \<Rightarrow> (int \<times> string) option" where
  "num_field c fixed bound s =
     Option.bind (skip_byte c s) (\<lambda>rest. Option.bind (getnum fixed rest) (\<lambda>(n, rest'). if n < bound then Some (n, rest') else None))"

definition parseNanoseconds :: "string \<Rightarrow> int" where
  "parseNanoseconds ds = (let d = take 9 ds in decimal_value d 0 * 10 ^ (9 - length d))"

definition fraction_field :: "string \<Rightarrow> int \<times> string" where
  "fraction_field s = (case s of
     c # d # rest \<Rightarrow>
       if (c = CHR ''.'' \<or> c = CHR '','') \<and> is_digit d
       then (parseNanoseconds (takeWhile is_digit (d # rest)), dropWhile is_digit (d # rest))
       else (0, s)
   | _ \<Rightarrow> (0, s))"

text \<open>The offset in seconds.\<close>

definition zone_field :: "string \<Rightarrow> (int \<times> string) option" where
  "zone_field s = (case s of
     [] \<Rightarrow> None
   | c # rest \<Rightarrow>
       if c = CHR ''Z'' then Some (0, rest)
       else if c \<noteq> CHR ''+'' \<and> c \<noteq> CHR ''-'' then None
       else Option.bind (getnum True rest) (\<lambda>(hr, rest1).
            Option.bind (num_field CHR '':'' True 61 rest1) (\<lambda>(mm, rest2).
              if hr > 24 then None
              else Some ((if c = CHR ''-'' then -1 else 1) * (hr * 60 + mm) * 60, rest2))))"

definition days_in :: "int \<Rightarrow> int \<Rightarrow> int" where
  "days_in y m = month_lengths (is_leap y) ! nat (m - 1)"

definition day_number :: "int \<Rightarrow> int \<Rightarrow> int \<Rightarrow> int" where
  "day_number y m d = days_before_year y + sum_list (take (nat (m - 1)) (month_lengths (is_leap y))) + (d - 1)"

definition instant :: "int \<Rightarrow> int \<Rightarrow> int \<Rightarrow> int \<Rightarrow> int \<Rightarrow> int \<Rightarrow> int \<Rightarrow> int \<Rightarrow> time" where
  "instant y m d h mi sec ns offset = day_number y m d * day_ns + (h * 3600 + mi * 60 + sec - offset) * second + ns"

section \<open>Reading\<close>

definition ParseTimeText :: "string \<Rightarrow> time option" where
  "ParseTimeText s =
     Option.bind (year_field s) (\<lambda>(y, s).
     Option.bind (num_field CHR ''-'' True 13 s) (\<lambda>(m, s).
     Option.bind (num_field CHR ''-'' True 100 s) (\<lambda>(d, s).
     Option.bind (num_field CHR ''T'' False 24 s) (\<lambda>(h, s).
     Option.bind (num_field CHR '':'' True 60 s) (\<lambda>(mi, s).
     Option.bind (num_field CHR '':'' True 60 s) (\<lambda>(sec, s).
     case fraction_field s of (ns, s) \<Rightarrow>
     Option.bind (zone_field s) (\<lambda>(offset, s).
       if s \<noteq> [] \<or> m < 1 \<or> d < 1 \<or> days_in y m < d then None
       else Some (instant y m d h mi sec ns offset))))))))"

definition ParseStoredTime :: "string \<Rightarrow> time option" where
  "ParseStoredTime s = Option.bind (ParseTimeText s) (\<lambda>t. if FormatTime t \<noteq> s then None else Some t)"

section \<open>What is written reads back\<close>

lemma digits_w_digits: "list_all is_digit (digits_w w n)"
proof (induction w arbitrary: n)
  case (Suc w)
  have "is_digit (digit_char (n mod 10))" using digit_char_is_digit[of "n mod 10"] by simp
  with Suc show ?case by simp
qed simp

lemma decimal_value_digits_w: "0 \<le> n \<Longrightarrow> n < 10 ^ w \<Longrightarrow> decimal_value (digits_w w n) 0 = n"
proof (induction w arbitrary: n)
  case (Suc w)
  then have "decimal_value (digits_w w (n div 10)) 0 = n div 10" by auto
  then show ?case
    using digit_char_is_digit[of "n mod 10"] by simp
qed simp

lemma digits_two: "digits_w 2 n = [digit_char (n div 10 mod 10), digit_char (n mod 10)]"
  by (simp add: numeral_2_eq_2)

lemma getnum_digits: "0 \<le> n \<Longrightarrow> n < 100 \<Longrightarrow> getnum fixed (digits_w 2 n @ rest) = Some (n, rest)"
  using digit_char_is_digit[of "n div 10 mod 10"] digit_char_is_digit[of "n mod 10"] by (simp add: digits_two)

lemma num_field_digits: "0 \<le> n \<Longrightarrow> n < bound \<Longrightarrow> bound \<le> 100 \<Longrightarrow> num_field c fixed bound (c # digits_w 2 n @ rest) = Some (n, rest)"
  by (simp add: num_field_def skip_byte_def getnum_digits)

lemma year_field_digits: "0 \<le> y \<Longrightarrow> y \<le> 9999 \<Longrightarrow> year_field (digits_w 4 y @ rest) = Some (y, rest)"
  using digits_w_digits[of 4 y] decimal_value_digits_w[of y 4] by (simp add: year_field_def)

lemma fraction_field_digits:
  assumes "0 \<le> n" "n < 10 ^ 9"
  shows "fraction_field (CHR ''.'' # digits_w 9 n @ ''Z'') = (n, ''Z'')"
proof -
  obtain d ds where ds: "digits_w 9 n = d # ds" by (cases "digits_w 9 n") (auto dest: arg_cong[of _ _ length])
  have all: "list_all is_digit (d # ds)" "length (d # ds) = 9"
    using digits_w_digits[of 9 n] length_digits_w[of 9 n] unfolding ds by simp_all
  have z: "\<not> is_digit CHR ''Z''" by (simp add: is_digit_def)
  have "takeWhile is_digit (d # ds @ ''Z'') = d # ds" "dropWhile is_digit (d # ds @ ''Z'') = ''Z''"
    using all(1) z by (simp_all add: takeWhile_append dropWhile_append list_all_iff)
  moreover have "parseNanoseconds (d # ds) = n"
    using all(2) decimal_value_digits_w[OF assms] unfolding ds by (simp add: parseNanoseconds_def)
  ultimately show ?thesis using all(1) by (simp add: ds fraction_field_def)
qed

lemma month_walk_inverse:
  assumes "month_walk m0 ls d = (m, k)" "0 \<le> d" "d < sum_list ls"
  shows "m0 \<le> m \<and> nat (m - m0) < length ls \<and> sum_list (take (nat (m - m0)) ls) + k = d \<and> 0 \<le> k \<and> k < ls ! nat (m - m0)"
  using assms
proof (induction ls arbitrary: m0 d)
  case (Cons l ls)
  show ?case
  proof (cases "d < l")
    case False
    then have "month_walk (m0 + 1) ls (d - l) = (m, k)" "0 \<le> d - l" "d - l < sum_list ls" using Cons.prems by simp_all
    note ih = Cons.IH[OF this]
    then have "nat (m - m0) = Suc (nat (m - (m0 + 1)))" by linarith
    with ih show ?thesis by simp
  qed (use Cons.prems in simp)
qed simp

lemma civil_inverse:
  assumes "civil d = (y, m, k)"
  shows "day_number y m k = d \<and> 1 \<le> m \<and> m < 13 \<and> 1 \<le> k \<and> k \<le> days_in y m"
proof -
  let ?ls = "month_lengths (is_leap y)"
  have y: "y = year_of_day d" using civil_bounds(1)[OF assms] .
  have w: "month_walk 1 ?ls (d - days_before_year y) = (m, k - 1)"
    using assms y by (auto simp: civil_def Let_def split: prod.splits)
  have "0 \<le> d - days_before_year y" "d - days_before_year y < sum_list ?ls"
    using year_of_day_bounds[of d] year_length[of y] y by (auto simp: month_lengths_def split: if_splits)
  note inv = month_walk_inverse[OF w this]
  have "length ?ls = 12" by (simp add: month_lengths_def)
  with inv show ?thesis by (auto simp: day_number_def days_in_def)
qed

lemma civil_day: assumes "civil d = (y, m, k)" shows "0 \<le> m" "m < 13" "0 \<le> k" "k < 100"
  using civil_inverse[OF assms] civil_bounds(5)[OF assms] by simp_all

lemma clock_inverse: "s div 3600 * 3600 + s div 60 mod 60 * 60 + s mod 60 = (s::int)"
proof -
  have "s div 3600 = s div 60 div 60" using div_mult2_eq'[of s 60 60] by simp
  moreover have "s div 60 div 60 * 60 + s div 60 mod 60 = s div 60" "s div 60 * 60 + s mod 60 = s" by (rule div_mult_mod_eq)+
  ultimately show ?thesis by linarith
qed

lemma ParseTimeText_FormatTime:
  assumes "0 \<le> year_of_day (t div day_ns)" "year_of_day (t div day_ns) \<le> 9999"
  shows "ParseTimeText (FormatTime t) = Some t"
proof -
  obtain y m d where c: "civil (t div day_ns) = (y, m, d)" by (metis prod_cases3)
  define s where "s = t mod day_ns div second"
  define ns where "ns = t mod second"
  have y: "0 \<le> y" "y \<le> 9999" using assms civil_bounds(1)[OF c] by simp_all
  have ns: "0 \<le> ns" "ns < 10 ^ 9" by (simp_all add: ns_def second_def)
  have s: "0 \<le> s" "s < 86400"
    using pos_mod_bound[of day_ns t] pos_mod_sign[of day_ns t] div_bounds[of second "t mod day_ns"]
    by (auto simp: s_def second_def day_ns_def pos_imp_zdiv_nonneg_iff)
  have h: "0 \<le> s div 3600" "s div 3600 < 24" using s by (simp_all add: pos_imp_zdiv_nonneg_iff)
  have tod: "t mod day_ns = s * second + ns"
  proof -
    have "t mod second = t mod day_ns mod second"
      by (rule mod_mod_cancel[symmetric]) (simp add: day_ns_def second_def)
    then show ?thesis using div_mult_mod_eq[of "t mod day_ns" second] by (simp add: s_def ns_def)
  qed
  have "instant y m d (s div 3600) (s div 60 mod 60) (s mod 60) ns 0 = t"
    using civil_inverse[OF c] clock_inverse[of s] tod div_mult_mod_eq[of t day_ns] by (simp add: instant_def)
  moreover have "FormatTime t = digits_w 4 y @ CHR ''-'' # digits_w 2 m @ CHR ''-'' # digits_w 2 d @ CHR ''T'' # digits_w 2 (s div 3600)
      @ CHR '':'' # digits_w 2 (s div 60 mod 60) @ CHR '':'' # digits_w 2 (s mod 60) @ CHR ''.'' # digits_w 9 ns @ ''Z''"
    using y by (simp add: FormatTime_def c s_def ns_def append_int_def Let_def del: digits_w.simps)
  moreover have "year_field (digits_w 4 y @ r) = Some (y, r)" "num_field CHR ''-'' True 13 (CHR ''-'' # digits_w 2 m @ r) = Some (m, r)"
    "num_field CHR ''-'' True 100 (CHR ''-'' # digits_w 2 d @ r) = Some (d, r)" "num_field CHR ''T'' False 24 (CHR ''T'' # digits_w 2 (s div 3600) @ r) = Some (s div 3600, r)"
    "num_field CHR '':'' True 60 (CHR '':'' # digits_w 2 (s div 60 mod 60) @ r) = Some (s div 60 mod 60, r)"
    "num_field CHR '':'' True 60 (CHR '':'' # digits_w 2 (s mod 60) @ r) = Some (s mod 60, r)" for r
    using y civil_day[OF c] h by (intro year_field_digits num_field_digits; simp)+
  moreover have "fraction_field (CHR ''.'' # digits_w 9 ns @ ''Z'') = (ns, ''Z'')" using fraction_field_digits[OF ns] .
  moreover have "zone_field ''Z'' = Some (0, [])" by (simp add: zone_field_def)
  moreover have "1 \<le> m" "1 \<le> d" "d \<le> days_in y m" using civil_inverse[OF c] by simp_all
  ultimately show ?thesis
    by (simp add: ParseTimeText_def del: digits_w.simps)
qed

lemma start_of_2030: "ParseTimeText ''2030-01-01T00:00:00Z'' = Some 64029052800000000000"
  by code_simp

text \<open>
  Claim C27. Time texts are faithful: a time of the years 0 to 9999 is read back from the text that was written for
  it, by the lenient reader and by the strict reader of stored columns, and the strict reader accepts
  for that time no other text.
\<close>

theorem stored_time_roundtrip:
  assumes "0 \<le> year_of_day (t div day_ns)" and "year_of_day (t div day_ns) \<le> 9999"
  shows "ParseTimeText (FormatTime t) = Some t \<and> (ParseStoredTime s = Some t \<longleftrightarrow> s = FormatTime t)"
  using ParseTimeText_FormatTime[OF assms] by (auto simp: ParseStoredTime_def split: bind_splits if_splits)

theorem stored_time_roundtrip_witness:
  "ParseStoredTime ''2024-02-29T23:59:59.000000001Z'' = ParseTimeText ''2024-03-01T01:29:59.000000001+01:30''
     \<and> ParseStoredTime ''2024-03-01T01:29:59.000000001+01:30'' = None
     \<and> ParseTimeText (FormatTime 63844847999000000001) = Some 63844847999000000001"
proof -
  have "0 \<le> year_of_day (63844847999000000001 div day_ns)" "year_of_day (63844847999000000001 div day_ns) \<le> 9999" by code_simp+
  note rt = stored_time_roundtrip[OF this]
  have "ParseStoredTime ''2024-02-29T23:59:59.000000001Z'' = ParseTimeText ''2024-03-01T01:29:59.000000001+01:30''" by code_simp
  moreover have "ParseStoredTime ''2024-03-01T01:29:59.000000001+01:30'' = None" by code_simp
  ultimately show ?thesis using rt by blast
qed

end
