(* ===== verification/Decisions.thy ===== *)
theory Decisions
  imports Kernel_Time Contract_Documents
begin

text \<open>
  Decision and intent validation (\<^verbatim>\<open>internal/decisions/internal/domain\<close>): the compiled intent catalog, the
  binding of a decision to the dispatched attempt and snapshot, and the authority, parameters, evidence
  and expiry of each intent; and the score of a shadow decision (\<^verbatim>\<open>internal/episodes/internal/domain/shadow.go\<close>).

  \<^item> The JSON schemas of decisions and intents, and the compiler of a parameter schema, are parameters:
    the schema library is not part of the repository.
  \<^item> A rejection keeps its reason and its field; the message is left out. The errors of the catalog leave
    out the quotation marks around a type.
  \<^item> A Go map is an association list. Where the code ranges over the preset, the order of the list stands for
    the order the runtime picks, which only selects the field that a rejection names.
  \<^item> An index out of range is the value \<open>None\<close>.
\<close>

section \<open>The catalog\<close>

record intent_entry =
  ie_Type :: string
  ie_RiskClass :: string
  ie_ParameterSchema :: "document \<Rightarrow> unit result"
  ie_Presets :: "(string \<times> document) list"
  ie_ModelWritable :: "string list"
  ie_RateLimitPerHour :: int
  ie_RequiresApproval :: bool

type_synonym intent_catalog = "(string \<times> intent_entry) list"

type_synonym schema_compiler = "string \<Rightarrow> document \<Rightarrow> (document \<Rightarrow> unit result) result"

primrec cloneJSONValue :: "any_value \<Rightarrow> any_value" where
  "cloneJSONValue AnyNil = AnyNil"
| "cloneJSONValue (AnyBool b) = AnyBool b"
| "cloneJSONValue (AnyString s) = AnyString s"
| "cloneJSONValue (AnyFloat64 f) = AnyFloat64 f"
| "cloneJSONValue (AnyFloat32 f) = AnyFloat32 f"
| "cloneJSONValue (AnyInt n) = AnyInt n"
| "cloneJSONValue (AnyInt64 n) = AnyInt64 n"
| "cloneJSONValue (AnyUint64 n) = AnyUint64 n"
| "cloneJSONValue (AnyNumber s) = AnyNumber s"
| "cloneJSONValue (AnyTime t) = AnyTime t"
| "cloneJSONValue (AnyStrings ss) = AnyStrings ss"
| "cloneJSONValue (AnyStringMap kvs) = AnyStringMap kvs"
| "cloneJSONValue (AnySlice vs) = AnySlice (map cloneJSONValue vs)"
| "cloneJSONValue (AnyMap kvs) = AnyMap (map (map_prod id cloneJSONValue) kvs)"

definition cloneJSONMap :: "document \<Rightarrow> document" where
  "cloneJSONMap d = map (map_prod id cloneJSONValue) d"

definition intValue :: "any_value option \<Rightarrow> string \<Rightarrow> int" where
  "intValue sec key = (case sec of
     Some (AnyMap raw) \<Rightarrow> (case map_of raw key of Some (AnyFloat64 f) \<Rightarrow> float_to_int f | _ \<Rightarrow> 0)
   | _ \<Rightarrow> 0)"

definition toStringSlice :: "any_value option \<Rightarrow> string list" where
  "toStringSlice v = (case v of
     Some (AnySlice raw) \<Rightarrow> List.map_filter (\<lambda>item. case item of AnyString s \<Rightarrow> Some s | _ \<Rightarrow> None) raw
   | _ \<Rightarrow> [])"

definition requiresApproval :: "document \<Rightarrow> bool" where
  "requiresApproval entry = (case map_of entry ''policy'' of
     Some (AnyMap policy) \<Rightarrow> map_of policy ''requires_approval'' = Some (AnyBool True)
   | _ \<Rightarrow> False)"

definition catalogPresets :: "document \<Rightarrow> (string \<times> document) list" where
  "catalogPresets entry = (case map_of entry ''presets'' of
     Some (AnyMap raw) \<Rightarrow> List.map_filter (\<lambda>(name, v). case v of AnyMap p \<Rightarrow> Some (name, cloneJSONMap p) | _ \<Rightarrow> None) raw
   | _ \<Rightarrow> [])"

definition catalogAuthority :: "string \<Rightarrow> string \<Rightarrow> (document \<Rightarrow> unit result) \<Rightarrow> document \<Rightarrow> intent_entry" where
  "catalogAuthority entryType risk compiled entry =
     \<lparr>ie_Type = entryType, ie_RiskClass = risk, ie_ParameterSchema = compiled, ie_Presets = catalogPresets entry,
      ie_ModelWritable = toStringSlice (map_of entry ''model_writable_fields''),
      ie_RateLimitPerHour = intValue (map_of entry ''rate_limit'') ''per_hour'', ie_RequiresApproval = requiresApproval entry\<rparr>"

definition compileParameterSchema :: "schema_compiler \<Rightarrow> string \<Rightarrow> document \<Rightarrow> (document \<Rightarrow> unit result) result" where
  "compileParameterSchema compile entryType schema =
     wrap_err (''compile intent '' @ entryType @ '' schema'') (compile (''urn:situation-runtime:catalog:'' @ entryType @ '':schema:v1'') (cloneJSONMap schema))"

definition compileCatalogEntry :: "schema_compiler \<Rightarrow> string \<Rightarrow> document \<Rightarrow> intent_entry result" where
  "compileCatalogEntry compile entryType entry =
     (let risk = DocumentString entry ''risk_class''
      in if \<not> risk_Valid risk then Inl (Errorf (''intent '' @ entryType @ '' has invalid declared risk '' @ risk))
         else (case map_of entry ''parameter_schema'' of
             Some (AnyMap schema) \<Rightarrow>
               bind_res (compileParameterSchema compile entryType schema) (\<lambda>compiled. Inr (catalogAuthority entryType risk compiled entry))
           | _ \<Rightarrow> Inl (Errorf (''intent '' @ entryType @ '' has no parameter schema''))))"

definition addEntry :: "schema_compiler \<Rightarrow> intent_catalog \<Rightarrow> document \<Rightarrow> intent_catalog result" where
  "addEntry compile catalog entry =
     (let entryType = DocumentString entry ''type''
      in if entryType = '''' then Inl (Errorf ''intent catalog entry has no type'')
         else if map_of catalog entryType \<noteq> None then Inl (Errorf (''intent catalog duplicates type '' @ entryType))
         else bind_res (compileCatalogEntry compile entryType entry) (\<lambda>compiled. Inr (catalog @ [(entryType, compiled)])))"

fun add_entries :: "schema_compiler \<Rightarrow> intent_catalog \<Rightarrow> document list \<Rightarrow> intent_catalog result" where
  "add_entries compile catalog [] = Inr catalog"
| "add_entries compile catalog (entry # rest) = bind_res (addEntry compile catalog entry) (\<lambda>c. add_entries compile c rest)"

definition CompileIntentCatalog :: "schema_compiler \<Rightarrow> document list \<Rightarrow> intent_catalog result" where
  "CompileIntentCatalog compile doc =
     (if doc = [] then Inl (Errorf ''intent catalog is empty'') else add_entries compile [] doc)"

section \<open>Validation\<close>

record decision_input =
  di_EpisodeID :: string
  di_AttemptID :: string
  di_Fence :: int
  di_TenantID :: string
  di_SituationID :: string
  di_SituationVersion :: int
  di_EntityID :: string
  di_SnapshotDigest :: string
  di_AllowedIntentTypes :: "string list"
  di_RiskCeiling :: string
  di_IntentCatalog :: "intent_catalog option"
  di_Reconsider :: bool
  di_DiagnosisCodes :: "string list option"
  di_Now :: time

record validated_intent =
  vi_ID :: string
  vi_Type :: string
  vi_RiskClass :: string
  vi_ExpiresAt :: time
  vi_Digest :: string
  vi_CanonicalJSON :: string
  vi_RateLimitPerHour :: int
  vi_RequiresApproval :: bool

record decision_result =
  dr_DecisionID :: string
  dr_DecisionDigest :: string
  dr_Intents :: "validated_intent list"

record decision_schemas =
  sc_Decision :: "document \<Rightarrow> unit result"
  sc_Intent :: "document \<Rightarrow> unit result"

datatype validation_error = ValidationError (ve_Reason: string) (ve_Field: string)

abbreviation reject :: "string \<Rightarrow> string \<Rightarrow> validation_error + 'a" where
  "reject reason field \<equiv> Inl (ValidationError reason field)"

definition integerField :: "document \<Rightarrow> string \<Rightarrow> int option" where
  "integerField d name = (case map_of d name of
     Some (AnyFloat64 f) \<Rightarrow> if float_eq f (float_of_int (float_to_int f)) then Some (float_to_int f) else None
   | _ \<Rightarrow> None)"

definition isExpired :: "time \<Rightarrow> string \<Rightarrow> bool" where
  "isExpired now value = (case ParseTimeText value of None \<Rightarrow> True | Some validUntil \<Rightarrow> \<not> now < validUntil)"

definition checkTrustedInput :: "decision_input \<Rightarrow> validation_error + intent_catalog" where
  "checkTrustedInput inp =
     (if is_zero_time (di_Now inp) then reject ''schema_invalid'' ''clock''
      else case di_IntentCatalog inp of None \<Rightarrow> reject ''catalog_missing'' ''catalog'' | Some c \<Rightarrow> Inr c)"

definition decodeFailureField :: "document_error \<Rightarrow> string" where
  "decodeFailureField err = (if err = ErrDocumentSchema then ''decision_schema'' else ''canonical_json'')"

definition parseDecision :: "decision_schemas \<Rightarrow> string \<Rightarrow> string \<Rightarrow> validation_error + document" where
  "parseDecision sc raw transmittedDigest = (case DecodeDocument (sc_Decision sc) raw of
     Inl err \<Rightarrow> reject ''schema_invalid'' (decodeFailureField err)
   | Inr d \<Rightarrow> (case DecodeDigest transmittedDigest of
       Inl _ \<Rightarrow> reject ''schema_invalid'' ''decision_digest''
     | Inr digest \<Rightarrow> if \<not> VerifyDocumentDigest DomainDecision d digest then reject ''schema_invalid'' ''decision_digest'' else Inr d))"

definition checkDecisionAttempt :: "document \<Rightarrow> decision_input \<Rightarrow> validation_error + unit" where
  "checkDecisionAttempt d inp =
     (if DocumentString d ''episode_id'' \<noteq> di_EpisodeID inp then reject ''snapshot_mismatch'' ''episode_id''
      else if DocumentString d ''attempt_id'' \<noteq> di_AttemptID inp then reject ''stale_attempt'' ''attempt_id''
      else if integerField d ''fence'' \<noteq> Some (di_Fence inp) then reject ''stale_attempt'' ''fence''
      else Inr ())"

definition checkDecisionSnapshot :: "document \<Rightarrow> decision_input \<Rightarrow> validation_error + unit" where
  "checkDecisionSnapshot d inp =
     (if DocumentString d ''snapshot_digest'' \<noteq> di_SnapshotDigest inp then reject ''snapshot_mismatch'' ''snapshot_digest''
      else if DocumentString d ''situation_id'' \<noteq> di_SituationID inp then reject ''snapshot_mismatch'' ''situation_id''
      else if integerField d ''situation_version'' \<noteq> Some (di_SituationVersion inp) then reject ''snapshot_mismatch'' ''situation_version''
      else case as_string (map_of d ''valid_until'') of
          Some validUntil \<Rightarrow> if isExpired (di_Now inp) validUntil then reject ''expired'' ''valid_until'' else Inr ()
        | None \<Rightarrow> Inr ())"

definition checkDecisionBinding :: "document \<Rightarrow> decision_input \<Rightarrow> validation_error + string" where
  "checkDecisionBinding d inp =
     (let decisionID = DocumentString d ''decision_id''
      in if decisionID = '''' then reject ''schema_invalid'' ''decision_id''
         else bind_res (checkDecisionAttempt d inp) (\<lambda>_. bind_res (checkDecisionSnapshot d inp) (\<lambda>_. Inr decisionID)))"

definition checkDiagnosisCode :: "document \<Rightarrow> decision_input \<Rightarrow> validation_error + unit" where
  "checkDiagnosisCode d inp = (case (as_string (map_of d ''diagnosis_code''), di_DiagnosisCodes inp) of
     (Some code, Some codes) \<Rightarrow> if code \<notin> set codes then reject ''schema_invalid'' ''diagnosis_code'' else Inr ()
   | _ \<Rightarrow> Inr ())"

section \<open>The intents of a decision\<close>

definition actionable :: "document \<Rightarrow> bool" where
  "actionable intent \<longleftrightarrow> DocumentString intent ''type'' \<noteq> ''install_watch_condition'' \<and> DocumentString intent ''compensates'' = ''''"

fun countActionableIntents :: "any_value list \<Rightarrow> validation_error + nat" where
  "countActionableIntents [] = Inr 0"
| "countActionableIntents (AnyMap intent # rest) =
     bind_res (countActionableIntents rest) (\<lambda>n. Inr (if actionable intent then Suc n else n))"
| "countActionableIntents (_ # rest) = reject ''schema_invalid'' ''intents''"

definition checkDecisionIntentSet :: "document \<Rightarrow> any_value list \<Rightarrow> validation_error + unit" where
  "checkDecisionIntentSet d rawIntents =
     (if rawIntents = [] \<and> DocumentString d ''decision_type'' \<noteq> ''need_more_evidence'' then reject ''schema_invalid'' ''decision_type''
      else bind_res (countActionableIntents rawIntents) (\<lambda>n. if n > 1 then reject ''schema_invalid'' ''intents'' else Inr ()))"

definition decisionIntents :: "document \<Rightarrow> validation_error + any_value list" where
  "decisionIntents d = (case map_of d ''intents'' of
     Some (AnySlice rawIntents) \<Rightarrow> bind_res (checkDecisionIntentSet d rawIntents) (\<lambda>_. Inr rawIntents)
   | _ \<Rightarrow> reject ''schema_invalid'' ''intents'')"

definition decodeDecisionIntent :: "decision_schemas \<Rightarrow> any_value \<Rightarrow> nat \<Rightarrow> validation_error + document" where
  "decodeDecisionIntent sc raw index = (let field = ''intents['' @ show_int (int index) @ '']'' in case raw of
     AnyMap intent \<Rightarrow>
       (case sc_Intent sc intent of
          Inl _ \<Rightarrow> reject ''schema_invalid'' field
        | Inr _ \<Rightarrow> if \<not> VerifyIntentDigest intent then reject ''schema_invalid'' (field @ ''.intent_digest'') else Inr intent)
   | _ \<Rightarrow> reject ''schema_invalid'' field)"

definition checkIntentSituation :: "document \<Rightarrow> decision_input \<Rightarrow> validation_error + unit" where
  "checkIntentSituation d inp =
     (if DocumentString d ''tenant_id'' \<noteq> di_TenantID inp then reject ''snapshot_mismatch'' ''intent.tenant_id''
      else if DocumentString d ''situation_id'' \<noteq> di_SituationID inp then reject ''snapshot_mismatch'' ''intent.situation_id''
      else if integerField d ''situation_version'' \<noteq> Some (di_SituationVersion inp) then reject ''snapshot_mismatch'' ''intent.situation_version''
      else Inr ())"

text \<open>The set of identifiers seen so far grows before the binding is checked.\<close>

definition checkIntentBinding :: "document \<Rightarrow> decision_input \<Rightarrow> string \<Rightarrow> string list \<Rightarrow> validation_error + string list" where
  "checkIntentBinding d inp decisionID seenIDs =
     (let intentID = DocumentString d ''intent_id''
      in if intentID \<in> set seenIDs then reject ''schema_invalid'' ''intent_id''
         else if DocumentString d ''decision_id'' \<noteq> decisionID then reject ''snapshot_mismatch'' ''intent.decision_id''
         else bind_res (checkIntentSituation d inp) (\<lambda>_. Inr (intentID # seenIDs)))"

definition checkIntentPermission :: "document \<Rightarrow> decision_input \<Rightarrow> string \<Rightarrow> validation_error + unit" where
  "checkIntentPermission d inp intentType =
     (let isCompensation = (DocumentString d ''compensates'' \<noteq> '''')
      in if isCompensation \<and> \<not> di_Reconsider inp then reject ''intent_type_not_allowed'' ''intent.compensates''
         else if \<not> isCompensation \<and> intentType \<notin> set (di_AllowedIntentTypes inp) then reject ''intent_type_not_allowed'' ''intent.type''
         else Inr ())"

definition checkIntentRisk :: "document \<Rightarrow> decision_input \<Rightarrow> intent_entry \<Rightarrow> validation_error + unit" where
  "checkIntentRisk d inp entry =
     (let risk = DocumentString d ''risk_class''
      in if risk \<noteq> ie_RiskClass entry then reject ''risk_label_mismatch'' ''intent.risk_class''
         else if \<not> AtMost risk (di_RiskCeiling inp) then reject ''risk_ceiling_exceeded'' ''intent.risk_class''
         else Inr ())"

definition checkIntentAuthority :: "intent_catalog \<Rightarrow> document \<Rightarrow> decision_input \<Rightarrow> validation_error + intent_entry" where
  "checkIntentAuthority catalog d inp =
     (let intentType = DocumentString d ''type''
      in bind_res (checkIntentPermission d inp intentType) (\<lambda>_. case map_of catalog intentType of
           None \<Rightarrow> reject ''intent_type_not_in_catalog'' ''intent.type''
         | Some entry \<Rightarrow> bind_res (checkIntentRisk d inp entry) (\<lambda>_. Inr entry)))"

definition intent_parameters :: "document \<Rightarrow> document" where
  "intent_parameters d = (case map_of d ''parameters'' of Some (AnyMap p) \<Rightarrow> p | _ \<Rightarrow> [])"

definition bindEntityParameter :: "document \<Rightarrow> decision_input \<Rightarrow> string \<Rightarrow> validation_error + unit" where
  "bindEntityParameter parameters inp key = (case map_of parameters key of
     None \<Rightarrow> Inr ()
   | Some v \<Rightarrow> if di_EntityID inp = '''' \<or> v \<noteq> AnyString (di_EntityID inp) then reject ''snapshot_mismatch'' (''intent.parameters.'' @ key) else Inr ())"

definition bindExpiryParameter :: "document \<Rightarrow> document \<Rightarrow> validation_error + unit" where
  "bindExpiryParameter parameters decision = (case (map_of parameters ''expires_at'', as_string (map_of decision ''valid_until'')) of
     (Some v, Some validUntil) \<Rightarrow> if v \<noteq> AnyString validUntil then reject ''snapshot_mismatch'' ''intent.parameters.expires_at'' else Inr ()
   | _ \<Rightarrow> Inr ())"

definition checkIdentityParameters :: "document \<Rightarrow> decision_input \<Rightarrow> document \<Rightarrow> validation_error + unit" where
  "checkIdentityParameters parameters inp decision =
     bind_res (bindEntityParameter parameters inp ''entity_id'') (\<lambda>_.
     bind_res (bindExpiryParameter parameters decision) (\<lambda>_. bindEntityParameter parameters inp ''target''))"

definition comparePresetParameter :: "string \<Rightarrow> any_value \<Rightarrow> any_value \<Rightarrow> validation_error + unit" where
  "comparePresetParameter key presetValue intentValue = (case (Marshal presetValue, Marshal intentValue) of
     (Inr p, Inr i) \<Rightarrow> if p \<noteq> i then reject ''preset_mismatch'' (''intent.parameters.'' @ key) else Inr ()
   | _ \<Rightarrow> reject ''preset_mismatch'' (''intent.parameters.'' @ key))"

fun verify_preset :: "document \<Rightarrow> intent_entry \<Rightarrow> document \<Rightarrow> validation_error + unit" where
  "verify_preset parameters entry [] = Inr ()"
| "verify_preset parameters entry ((key, presetValue) # rest) =
     (if key \<in> set (ie_ModelWritable entry) then verify_preset parameters entry rest
      else case map_of parameters key of
          None \<Rightarrow> verify_preset parameters entry rest
        | Some v \<Rightarrow> bind_res (comparePresetParameter key presetValue v) (\<lambda>_. verify_preset parameters entry rest))"

definition verifyPresetEquality :: "document \<Rightarrow> intent_entry \<Rightarrow> validation_error + unit" where
  "verifyPresetEquality d entry =
     verify_preset (intent_parameters d) entry (case map_of (ie_Presets entry) ''default'' of Some p \<Rightarrow> p | None \<Rightarrow> [])"

definition factEvidenceRefs :: "document \<Rightarrow> string list" where
  "factEvidenceRefs decision = (case map_of decision ''facts_used'' of
     Some (AnySlice facts) \<Rightarrow> List.map_filter (\<lambda>fact. case fact of AnyMap object \<Rightarrow> as_string (map_of object ''evidence'') | _ \<Rightarrow> None) facts
   | _ \<Rightarrow> [])"

definition checkEvidenceReference :: "any_value \<Rightarrow> string list \<Rightarrow> validation_error + unit" where
  "checkEvidenceReference ref grounded = (case ref of
     AnyString s \<Rightarrow> if s \<notin> set grounded then reject ''ungrounded_evidence'' ''intent.evidence_ids'' else Inr ()
   | _ \<Rightarrow> reject ''parameter_schema_violation'' ''intent.evidence_ids'')"

fun check_references :: "any_value list \<Rightarrow> string list \<Rightarrow> validation_error + unit" where
  "check_references [] grounded = Inr ()"
| "check_references (ref # refs) grounded = bind_res (checkEvidenceReference ref grounded) (\<lambda>_. check_references refs grounded)"

definition verifyEvidenceBinding :: "document \<Rightarrow> document \<Rightarrow> validation_error + unit" where
  "verifyEvidenceBinding d decision = (case map_of d ''evidence_ids'' of
     Some (AnySlice ids) \<Rightarrow> check_references ids (factEvidenceRefs decision)
   | _ \<Rightarrow> Inr ())"

definition checkIntentParameters :: "document \<Rightarrow> decision_input \<Rightarrow> document \<Rightarrow> intent_entry \<Rightarrow> validation_error + unit" where
  "checkIntentParameters d inp decision entry = (case ie_ParameterSchema entry (intent_parameters d) of
     Inl _ \<Rightarrow> reject ''parameter_schema_violation'' ''intent.parameters''
   | Inr _ \<Rightarrow>
       bind_res (checkIdentityParameters (intent_parameters d) inp decision) (\<lambda>_.
       bind_res (verifyPresetEquality d entry) (\<lambda>_. verifyEvidenceBinding d decision)))"

definition IntentDigest :: "document \<Rightarrow> string result" where
  "IntentDigest d = wrap_err ''digest intent'' (Digest DomainIntent (AnyMap (withoutIntentDigest d)))"

definition validatedIntent :: "document \<Rightarrow> intent_entry \<Rightarrow> time \<Rightarrow> string \<Rightarrow> string \<Rightarrow> validated_intent" where
  "validatedIntent d entry expiresAt canonical digest =
     \<lparr>vi_ID = DocumentString d ''intent_id'', vi_Type = DocumentString d ''type'', vi_RiskClass = DocumentString d ''risk_class'',
      vi_ExpiresAt = expiresAt, vi_Digest = digest, vi_CanonicalJSON = canonical, vi_RateLimitPerHour = ie_RateLimitPerHour entry,
      vi_RequiresApproval = ie_RequiresApproval entry\<rparr>"

definition materializeIntent :: "document \<Rightarrow> intent_entry \<Rightarrow> time \<Rightarrow> validation_error + validated_intent" where
  "materializeIntent d entry expiresAt = (case Marshal (AnyMap d) of
     Inl _ \<Rightarrow> reject ''schema_invalid'' ''intent''
   | Inr canonical \<Rightarrow> (case IntentDigest d of
       Inl _ \<Rightarrow> reject ''schema_invalid'' ''intent_digest''
     | Inr digest \<Rightarrow> Inr (validatedIntent d entry expiresAt canonical digest)))"

definition buildIntent :: "document \<Rightarrow> decision_input \<Rightarrow> intent_entry \<Rightarrow> validation_error + validated_intent" where
  "buildIntent d inp entry = (case ParseTimeText (DocumentString d ''expires_at'') of
     None \<Rightarrow> reject ''schema_invalid'' ''intent.expires_at''
   | Some expiresAt \<Rightarrow>
       if \<not> di_Now inp < expiresAt then reject ''expired'' ''intent.expires_at'' else materializeIntent d entry expiresAt)"

definition validateIntent ::
  "intent_catalog \<Rightarrow> document \<Rightarrow> decision_input \<Rightarrow> string \<Rightarrow> document \<Rightarrow> string list \<Rightarrow> validation_error + (validated_intent \<times> string list)" where
  "validateIntent catalog d inp decisionID decision seenIDs =
     bind_res (checkIntentBinding d inp decisionID seenIDs) (\<lambda>seen.
     bind_res (checkIntentAuthority catalog d inp) (\<lambda>entry.
     bind_res (checkIntentParameters d inp decision entry) (\<lambda>_.
     bind_res (buildIntent d inp entry) (\<lambda>i. Inr (i, seen)))))"

fun validate_intents ::
  "decision_schemas \<Rightarrow> intent_catalog \<Rightarrow> any_value list \<Rightarrow> nat \<Rightarrow> decision_input \<Rightarrow> string \<Rightarrow> document \<Rightarrow> string list \<Rightarrow> validation_error + validated_intent list" where
  "validate_intents sc catalog [] index inp decisionID decision seenIDs = Inr []"
| "validate_intents sc catalog (raw # rest) index inp decisionID decision seenIDs =
     bind_res (decodeDecisionIntent sc raw index) (\<lambda>d.
     bind_res (validateIntent catalog d inp decisionID decision seenIDs) (\<lambda>(i, seen).
     bind_res (validate_intents sc catalog rest (Suc index) inp decisionID decision seen) (\<lambda>is. Inr (i # is))))"

definition validateDecisionIntents ::
  "decision_schemas \<Rightarrow> intent_catalog \<Rightarrow> any_value list \<Rightarrow> decision_input \<Rightarrow> string \<Rightarrow> document \<Rightarrow> validation_error + validated_intent list" where
  "validateDecisionIntents sc catalog rawIntents inp decisionID decision = validate_intents sc catalog rawIntents 0 inp decisionID decision []"

definition acceptDecision ::
  "decision_schemas \<Rightarrow> intent_catalog \<Rightarrow> document \<Rightarrow> string \<Rightarrow> string \<Rightarrow> decision_input \<Rightarrow> validation_error + decision_result" where
  "acceptDecision sc catalog d transmittedDigest decisionID inp =
     bind_res (decisionIntents d) (\<lambda>rawIntents.
     bind_res (validateDecisionIntents sc catalog rawIntents inp decisionID d) (\<lambda>intents.
       Inr \<lparr>dr_DecisionID = decisionID, dr_DecisionDigest = transmittedDigest, dr_Intents = intents\<rparr>))"

definition ValidateDecision :: "decision_schemas \<Rightarrow> string \<Rightarrow> string \<Rightarrow> decision_input \<Rightarrow> validation_error + decision_result" where
  "ValidateDecision sc raw transmittedDigest inp =
     bind_res (checkTrustedInput inp) (\<lambda>catalog.
     bind_res (parseDecision sc raw transmittedDigest) (\<lambda>d.
     bind_res (checkDecisionBinding d inp) (\<lambda>decisionID.
     bind_res (checkDiagnosisCode d inp) (\<lambda>_. acceptDecision sc catalog d transmittedDigest decisionID inp))))"

section \<open>Shadow scores\<close>

datatype shadow_score = ShadowWouldApprove | ShadowWouldRequireApproval | ShadowWouldDeny

definition intentRoute :: "validated_intent \<Rightarrow> route" where
  "intentRoute i = RouteFor (vi_RiskClass i) (vi_RequiresApproval i)"

definition routeStrictness :: "route \<Rightarrow> int" where
  "routeStrictness r = (case r of RouteAutomatic \<Rightarrow> 0 | RouteApproval \<Rightarrow> 1 | RouteDenied \<Rightarrow> 2)"

definition stricterThan :: "validated_intent \<Rightarrow> validated_intent \<Rightarrow> bool" where
  "stricterThan c i =
     (if routeStrictness (intentRoute c) \<noteq> routeStrictness (intentRoute i) then routeStrictness (intentRoute c) > routeStrictness (intentRoute i)
      else Rank (vi_RiskClass c) > Rank (vi_RiskClass i))"

definition strictestIntent :: "decision_result \<Rightarrow> validated_intent option" where
  "strictestIntent r = (case dr_Intents r of
     [] \<Rightarrow> None
   | i # rest \<Rightarrow> Some (foldl (\<lambda>strictest c. if stricterThan c strictest then c else strictest) i rest))"

definition lower_byte :: "char \<Rightarrow> char" where
  "lower_byte c = (if 65 \<le> (of_char c :: int) \<and> (of_char c :: int) \<le> 90 then char_of (of_char c + 32 :: int) else c)"

definition ScoreShadowDecision :: "decision_result \<Rightarrow> (shadow_score \<times> string) option" where
  "ScoreShadowDecision r = map_option (\<lambda>i. case intentRoute i of
     RouteAutomatic \<Rightarrow> (ShadowWouldApprove, ''would_approve_'' @ vi_RiskClass i)
   | RouteApproval \<Rightarrow> (ShadowWouldRequireApproval, ''would_require_approval_'' @ map lower_byte (vi_RiskClass i))
   | RouteDenied \<Rightarrow> (ShadowWouldDeny, ''would_deny_'' @ vi_RiskClass i)) (strictestIntent r)"

end
