(* ===== verification/Canonical_Decoding.thy ===== *)
theory Canonical_Decoding
  imports Canonical_Strict Contract_Documents
begin

text \<open>
  What the decoder of stored documents returns is canonical: the decoded document is its own canonical
  form, so a part of it that is encoded again reads back as itself.
\<close>

section \<open>What the token reader returns\<close>

primrec token_value :: "any_value \<Rightarrow> bool" where
  "token_value AnyNil \<longleftrightarrow> True"
| "token_value (AnyBool b) \<longleftrightarrow> True"
| "token_value (AnyString s) \<longleftrightarrow> True"
| "token_value (AnyFloat64 f) \<longleftrightarrow> False"
| "token_value (AnyFloat32 f) \<longleftrightarrow> False"
| "token_value (AnyInt n) \<longleftrightarrow> False"
| "token_value (AnyInt64 n) \<longleftrightarrow> False"
| "token_value (AnyUint64 n) \<longleftrightarrow> False"
| "token_value (AnyNumber raw) \<longleftrightarrow> True"
| "token_value (AnyTime t) \<longleftrightarrow> False"
| "token_value (AnyStrings xs) \<longleftrightarrow> False"
| "token_value (AnyStringMap kvs) \<longleftrightarrow> False"
| "token_value (AnySlice xs) \<longleftrightarrow> list_all id (map token_value xs)"
| "token_value (AnyMap kvs) \<longleftrightarrow> list_all id (map snd (map (map_prod id token_value) kvs))"

lemma foldr_max_le: "foldr max (map f xs) 0 \<le> n \<longleftrightarrow> (\<forall>x \<in> set xs. f x \<le> (n::nat))"
  by (induction xs) auto

lemma depth_map_le: "depth (AnyMap kvs) \<le> Suc n \<longleftrightarrow> (\<forall>kv \<in> set kvs. depth (snd kv) \<le> n)"
  using foldr_max_le[of "\<lambda>kv. depth (snd kv)" kvs n] by (simp add: comp_def)

lemma depth_slice_le: "depth (AnySlice xs) \<le> Suc n \<longleftrightarrow> (\<forall>x \<in> set xs. depth x \<le> n)"
  by (simp add: foldr_max_le)

lemma read_tokens:
  "json_value True n d s = Some (v, r) \<Longrightarrow> token_value v \<and> depth v \<le> d"
  "json_elements True n d s = Some (vs, r) \<Longrightarrow> \<forall>x \<in> set vs. token_value x \<and> depth x \<le> d"
  "json_members True n d s = Some (kvs, r) \<Longrightarrow> \<forall>kv \<in> set kvs. token_value (snd kv) \<and> depth (snd kv) \<le> d"
proof (induction n arbitrary: d s v r vs kvs)
  case (Suc n)
  { case 1
    show ?case
    proof (cases "skip_space s")
      case (Cons c rest)
      consider (object) "c = CHR ''{''" | (array) "c = CHR ''[''" | (other) "c \<noteq> CHR ''{''" "c \<noteq> CHR ''[''" by blast
      then show ?thesis
      proof cases
        case object
        then obtain c' rest' where s: "0 < d" "skip_space rest = c' # rest'" using 1 Cons by (cases "skip_space rest") (auto split: if_splits)
        show ?thesis
        proof (cases "c' = CHR ''}''")
          case True
          then show ?thesis using 1 Cons object s by auto
        next
          case False
          then obtain kvs' where kvs': "json_members True n (d - 1) (c' # rest') = Some (kvs', r)" "v = AnyMap kvs'" using 1 Cons object s by auto
          then show ?thesis
            using Suc.IH(3)[OF kvs'(1)] s(1) depth_map_le[of kvs' "d - 1"] by (auto simp: list_all_iff)
        qed
      next
        case array
        then obtain c' rest' where s: "0 < d" "skip_space rest = c' # rest'" using 1 Cons by (cases "skip_space rest") (auto split: if_splits)
        show ?thesis
        proof (cases "c' = CHR '']''")
          case True
          then show ?thesis using 1 Cons array s by auto
        next
          case False
          then obtain vs' where vs': "json_elements True n (d - 1) (c' # rest') = Some (vs', r)" "v = AnySlice vs'" using 1 Cons array s by auto
          then show ?thesis
            using Suc.IH(2)[OF vs'(1)] s(1) depth_slice_le[of vs' "d - 1"] by (auto simp: list_all_iff)
        qed
      next
        case other
        then show ?thesis using 1 Cons by (auto simp: number_value_def split: if_splits option.splits)
      qed
    qed (use 1 in simp)
  next
    case 2
    obtain x rest where x: "json_value True n d s = Some (x, rest)" using 2 by (auto split: option.splits)
    obtain c rest' where c: "skip_space rest = c # rest'" using 2 x by (cases "skip_space rest") auto
    show ?case
    proof (cases "c = CHR '',''")
      case True
      then obtain vs' where vs': "json_elements True n d rest' = Some (vs', r)" "vs = x # vs'" using 2 x c by auto
      then show ?thesis using Suc.IH(1)[OF x] Suc.IH(2)[OF vs'(1)] by auto
    next
      case False
      then show ?thesis using Suc.IH(1)[OF x] 2 x c by (auto split: if_splits)
    qed
  next
    case 3
    obtain k rest1 x rest c rest' where x: "json_value True n d rest1 = Some (x, rest)" "skip_space rest = c # rest'"
      "(c = CHR '','' \<and> (\<exists>kvs'. json_members True n d rest' = Some (kvs', r) \<and> kvs = (k, x) # kvs')) \<or> kvs = [(k, x)]"
      using 3 by (auto split: list.splits option.splits if_splits) blast
    show ?case using Suc.IH(1)[OF x(1)] Suc.IH(3) x(3) by fastforce
  }
qed simp_all

lemma readUniqueKeys_Inr: "readUniqueKeys keys ks = Inr u \<Longrightarrow> distinct ks \<and> set ks \<inter> set keys = {}"
proof (induction ks arbitrary: keys)
  case (Cons k ks)
  then have "k \<notin> set keys" "readUniqueKeys (k # keys) ks = Inr u" by (auto split: if_splits)
  with Cons.IH[OF this(2)] show ?case by auto
qed simp

lemma first_error_member: "first_error rs = Inr u \<Longrightarrow> r \<in> set rs \<Longrightarrow> r = Inr ()"
  by (induction rs) (auto simp: bind_res_Inr_iff)

lemma tokens_go_value: "token_value v \<Longrightarrow> validateTokens v = Inr u \<Longrightarrow> go_value v"
proof (induction v arbitrary: u)
  case (AnySlice xs)
  have "go_value x" if x: "x \<in> set xs" for x
    using AnySlice.IH[OF x] AnySlice.prems first_error_member[of "map validateTokens xs" u "validateTokens x"] x by (auto simp: list_all_iff)
  then show ?case by (simp add: list_all_iff)
next
  case (AnyMap kvs)
  have keys: "distinct (map fst kvs)" and all: "first_error (map snd (map (map_prod id validateTokens) kvs)) = Inr ()"
    using AnyMap.prems(2) readUniqueKeys_Inr by (auto simp: bind_res_Inr_iff)
  have "go_value (snd kv)" if kv: "kv \<in> set kvs" for kv
  proof -
    have "validateTokens (snd kv) \<in> set (map snd (map (map_prod id validateTokens) kvs))" using kv by force
    moreover have "snd kv \<in> Basic_BNFs.snds kv" by (cases kv) (simp add: prod_set_simps)
    ultimately show ?thesis using AnyMap.IH[OF kv] AnyMap.prems(1) first_error_member[OF all] kv by (auto simp: list_all_iff)
  qed
  with keys show ?case by (auto simp: list_all_iff)
qed simp_all

section \<open>Canonical forms\<close>

definition canonical_value :: "any_value \<Rightarrow> bool" where
  "canonical_value v \<longleftrightarrow> go_value v \<and> canon v = v"

lemma canonical_slice: "canonical_value (AnySlice xs) \<longleftrightarrow> (\<forall>x \<in> set xs. canonical_value x)"
  by (auto simp: canonical_value_def list_all_iff map_idI) (metis map_eq_conv map_ident)

lemma canonical_members:
  assumes "canonical_value (AnyMap kvs)" "(k, v) \<in> set kvs"
  shows "canonical_value v"
proof -
  have g: "distinct (map fst kvs)" "go_value v" using assms by (auto simp: canonical_value_def list_all_iff)
  have "mset (map (map_prod id canon) kvs) = mset kvs"
    using assms(1) mset_sort_func[of compare_member "map (map_prod id canon) kvs"] by (simp add: canonical_value_def)
  then have "(k, canon v) \<in> set kvs" using assms(2) by (metis (no_types, lifting) id_apply image_eqI list.set_map map_prod_simp mset_eq_setD)
  then have "canon v = v" using g(1) assms(2) by (metis eq_key_imp_eq_value)
  with g(2) show ?thesis by (simp add: canonical_value_def)
qed

lemma encodeArray_member: "encodeArray (map encode xs) = Inr t \<Longrightarrow> x \<in> set xs \<Longrightarrow> \<exists>u. encode x = Inr u"
  by (auto simp: encodeArray_def bind_res_Inr_iff collect_results_Inr list_all2_conv_all_nth in_set_conv_nth)

lemma encodeObject_member:
  assumes "distinct (map fst kvs)" "encodeObject (map (map_prod id encode) kvs) = Inr t" "kv \<in> set kvs"
  shows "\<exists>u. encode (snd kv) = Inr u" "sortable kvs"
proof -
  have d: "distinct (map fst (map (map_prod id encode) kvs))" using assms(1) by simp
  obtain mts where m: "sortable (map (map_prod id encode) kvs)"
    "list_all2 (\<lambda>kr mt. \<exists>u. snd kr = Inr u \<and> member_text (fst kr) u mt) (sort_func compare_member (map (map_prod id encode) kvs)) mts"
    using assms(2) encodeObject_Inr[OF d] by auto
  show "sortable kvs" using m(1) by (simp add: sortable_def)
  have "map_prod id encode kv \<in> set (sort_func compare_member (map (map_prod id encode) kvs))"
    using assms(3) by (metis image_eqI list.set_map mset_eq_setD mset_sort_func)
  then obtain i where "i < length mts" "sort_func compare_member (map (map_prod id encode) kvs) ! i = map_prod id encode kv"
    using list_all2_lengthD[OF m(2)] unfolding in_set_conv_nth by auto
  with list_all2_nthD2[OF m(2)] show "\<exists>u. encode (snd kv) = Inr u" by (cases kv) fastforce
qed

lemma canon_canonical:
  "token_value v \<Longrightarrow> go_value v \<Longrightarrow> encode v = Inr t \<Longrightarrow> canonical_value (canon v) \<and> depth (canon v) \<le> depth v"
proof (induction v arbitrary: t)
  case (AnyNumber raw)
  then obtain f where "ParseFloat raw = Inr f" using settled_number[of raw t] by auto
  then show ?case using ParseFloat_binary64 by (simp add: canonical_value_def)
next
  case (AnySlice xs)
  have "canonical_value (canon x) \<and> depth (canon x) \<le> depth x" if x: "x \<in> set xs" for x
    using AnySlice.IH[OF x] AnySlice.prems encodeArray_member[of xs t x] x by (auto simp: list_all_iff)
  moreover from this have "depth (AnySlice (map canon xs)) \<le> depth (AnySlice xs)"
    using depth_le by (fastforce simp: foldr_max_le)
  ultimately show ?case using canonical_slice[of "map canon xs"] by auto
next
  case (AnyMap kvs)
  have d: "distinct (map fst kvs)" using AnyMap.prems(2) by simp
  have e: "encodeObject (map (map_prod id encode) kvs) = Inr t" using AnyMap.prems(3) by simp
  have each: "canonical_value (canon (snd kv)) \<and> depth (canon (snd kv)) \<le> depth (snd kv)" if kv: "kv \<in> set kvs" for kv
  proof -
    have "snd kv \<in> Basic_BNFs.snds kv" by (cases kv) (simp add: prod_set_simps)
    then show ?thesis using AnyMap.IH[OF kv] AnyMap.prems(1,2) encodeObject_member(1)[OF d e kv] kv by (auto simp: list_all_iff)
  qed
  let ?c = "map (map_prod id canon) kvs"
  let ?s = "sort_func compare_member ?c"
  have set: "set ?s = set ?c" by (metis mset_eq_setD mset_sort_func)
  have "sortable ?c"
  proof (cases kvs)
    case (Cons kv rest)
    then show ?thesis using encodeObject_member(2)[OF d e, of kv] by (simp add: sortable_def)
  qed (simp add: sortable_def)
  moreover have "distinct (map fst ?s)" using d by (metis (no_types, lifting) list.map_comp map_keys mset_eq_imp_distinct_iff mset_map mset_sort_func)
  moreover have go: "\<forall>kv \<in> set ?s. canonical_value (snd kv)" using each unfolding set by auto
  moreover have "map (map_prod id canon) ?s = ?s" using go by (intro map_idI) (auto simp: canonical_value_def)
  ultimately have "canonical_value (AnyMap ?s)"
    using sort_members_idem[of ?c] sort_members_map[of canon ?s] by (auto simp: canonical_value_def list_all_iff)
  moreover have "depth (AnyMap ?s) \<le> depth (AnyMap kvs)"
  proof -
    obtain n where n: "depth (AnyMap kvs) = Suc n" by simp
    then have "\<forall>kv \<in> set kvs. depth (snd kv) \<le> n" using depth_map_le[of kvs n] by simp
    then have "\<forall>kv \<in> set ?s. depth (snd kv) \<le> n" using each unfolding set by fastforce
    then show ?thesis using depth_map_le[of ?s n] n by simp
  qed
  ultimately show ?case by simp
qed (simp_all add: canonical_value_def)

text \<open>A decoded document is canonical, and so is each of its parts.\<close>

lemma DecodeDocumentJSON_canonical:
  assumes "DecodeDocumentJSON raw = Inr d"
  shows "canonical_value (AnyMap d)" "depth (AnyMap d) \<le> max_nesting_depth"
proof -
  obtain c where c: "encodeRaw raw = Inr c" "json_unmarshal c = Some (AnyMap d)"
    using assms by (auto simp: DecodeDocumentJSON_def split: sum.splits option.splits any_value.splits)
  obtain w where w: "read_json True raw = Some w" "validateTokens w = Inr ()" "encode w = Inr c"
    using c(1) by (auto simp: encodeRaw_def decodeJSON_def bind_res_Inr_iff split: option.splits)
  obtain rest where "json_value True (Suc (length raw)) max_nesting_depth raw = Some (w, rest)"
    using w(1) by (auto simp: read_json_def simp del: json_value.simps split: option.splits if_splits)
  from read_tokens(1)[OF this] have t: "token_value w" "depth w \<le> max_nesting_depth" by simp_all
  have g: "go_value w" using tokens_go_value[OF t(1) w(2)] .
  have "AnyMap d = canon w" using Marshal_reads(1)[OF g t(2)] w(3) c(2) by (simp add: Marshal_def)
  with canon_canonical[OF t(1) g w(3)] t(2) show "canonical_value (AnyMap d)" "depth (AnyMap d) \<le> max_nesting_depth" by auto
qed

end
