(* ===== verification/Decision_Examples.thy ===== *)
theory Decision_Examples
  imports Decisions Canonical_Decoding Policy_Examples
begin

text \<open>
  A decision with one intent that validation accepts, with digests that verify. The digests stay
  symbolic, so nothing here evaluates the hash function.
\<close>

section \<open>Decoded decisions\<close>

lemma DecodeDocument_Inr: "DecodeDocument schema raw = Inr d \<longleftrightarrow> DecodeDocumentJSON raw = Inr d \<and> schema d = Inr ()"
proof (cases "DecodeDocumentJSON raw")
  case (Inr d')
  then show ?thesis by (cases "schema d'") (auto simp: DecodeDocument_def)
qed (simp add: DecodeDocument_def)

lemma parseDecision_Inr:
  "parseDecision sc raw digest = Inr d \<longleftrightarrow> DecodeDocument (sc_Decision sc) raw = Inr d
     \<and> (\<exists>sum. DecodeDigest digest = Inr sum \<and> VerifyDocumentDigest DomainDecision d sum)"
  by (auto simp: parseDecision_def split: sum.splits if_splits)

section \<open>A decision with one intent\<close>

definition demo_proposal :: "string \<Rightarrow> document" where
  "demo_proposal h = [(''decision_id'', AnyString ''d1''), (''evidence_ids'', AnySlice [AnyString ''ev1'']),
     (''expires_at'', AnyString ''2030-01-01T00:00:00Z''), (''intent_digest'', AnyString h), (''intent_id'', AnyString ''i1''),
     (''parameters'', AnyMap [(''target'', AnyString ''pump/1'')]), (''risk_class'', AnyString ''R2''), (''situation_id'', AnyString ''s1''),
     (''situation_version'', AnyFloat64 (float_of_int 1)), (''tenant_id'', AnyString ''acme''), (''type'', AnyString ''valve.close'')]"

definition demo_unsigned :: document where
  "demo_unsigned = [(''decision_id'', AnyString ''d1''), (''evidence_ids'', AnySlice [AnyString ''ev1'']),
     (''expires_at'', AnyString ''2030-01-01T00:00:00Z''), (''intent_id'', AnyString ''i1''),
     (''parameters'', AnyMap [(''target'', AnyString ''pump/1'')]), (''risk_class'', AnyString ''R2''), (''situation_id'', AnyString ''s1''),
     (''situation_version'', AnyFloat64 (float_of_int 1)), (''tenant_id'', AnyString ''acme''), (''type'', AnyString ''valve.close'')]"

definition demo_proposal_sum :: string where
  "demo_proposal_sum = sha256 (DomainIntent @ sealed_text demo_unsigned)"

definition demo_proposed :: "string \<Rightarrow> document" where
  "demo_proposed h = [(''attempt_id'', AnyString ''a1''), (''decision_id'', AnyString ''d1''), (''episode_id'', AnyString ''e1''),
     (''facts_used'', AnySlice [AnyMap [(''evidence'', AnyString ''ev1'')]]), (''fence'', AnyFloat64 (float_of_int 1)),
     (''intents'', AnySlice [AnyMap (demo_proposal h)]), (''situation_id'', AnyString ''s1''),
     (''situation_version'', AnyFloat64 (float_of_int 1)), (''snapshot_digest'', AnyString ''snap''), (''valid_until'', AnyString ''2030-01-01T00:00:00Z'')]"

definition demo_entry :: intent_entry where
  "demo_entry = \<lparr>ie_Type = ''valve.close'', ie_RiskClass = ''R2'', ie_ParameterSchema = (\<lambda>_. Inr ()),
     ie_Presets = [(''default'', [(''target'', AnyString ''pump/1'')])], ie_ModelWritable = [], ie_RateLimitPerHour = 1, ie_RequiresApproval = True\<rparr>"

definition demo_input :: decision_input where
  "demo_input = \<lparr>di_EpisodeID = ''e1'', di_AttemptID = ''a1'', di_Fence = 1, di_TenantID = ''acme'', di_SituationID = ''s1'',
     di_SituationVersion = 1, di_EntityID = ''pump/1'', di_SnapshotDigest = ''snap'', di_AllowedIntentTypes = [''valve.close''],
     di_RiskCeiling = ''R2'', di_IntentCatalog = Some [(''valve.close'', demo_entry)], di_Reconsider = False, di_DiagnosisCodes = None, di_Now = 1\<rparr>"

definition demo_schemas :: decision_schemas where
  "demo_schemas = \<lparr>sc_Decision = (\<lambda>_. Inr ()), sc_Intent = (\<lambda>_. Inr ())\<rparr>"

abbreviation demo_h :: string where "demo_h \<equiv> EncodeDigest demo_proposal_sum"

definition demo_raw :: string where "demo_raw = sealed_text (demo_proposed demo_h)"

definition demo_decision_digest :: string where
  "demo_decision_digest = EncodeDigest (sha256 (DomainDecision @ demo_raw))"

definition demo_validated :: validated_intent where
  "demo_validated = \<lparr>vi_ID = ''i1'', vi_Type = ''valve.close'', vi_RiskClass = ''R2'', vi_ExpiresAt = 64029052800000000000,
     vi_Digest = demo_h, vi_CanonicalJSON = sealed_text (demo_proposal demo_h), vi_RateLimitPerHour = 1, vi_RequiresApproval = True\<rparr>"

lemma demo_proposal_members:
  "\<not> isl (encodeObject [(''decision_id'', encode (AnyString ''d1'')), (''evidence_ids'', encode (AnySlice [AnyString ''ev1''])),
     (''expires_at'', encode (AnyString ''2030-01-01T00:00:00Z'')), (''intent_digest'', Inr q), (''intent_id'', encode (AnyString ''i1'')),
     (''parameters'', encode (AnyMap [(''target'', AnyString ''pump/1'')])), (''risk_class'', encode (AnyString ''R2'')), (''situation_id'', encode (AnyString ''s1'')),
     (''situation_version'', encode (AnyFloat64 (float_of_int 1))), (''tenant_id'', encode (AnyString ''acme'')), (''type'', encode (AnyString ''valve.close''))])"
  by code_simp

lemma demo_decision_members:
  "\<not> isl (encodeObject [(''attempt_id'', encode (AnyString ''a1'')), (''decision_id'', encode (AnyString ''d1'')), (''episode_id'', encode (AnyString ''e1'')),
     (''facts_used'', encode (AnySlice [AnyMap [(''evidence'', AnyString ''ev1'')]])), (''fence'', encode (AnyFloat64 (float_of_int 1))),
     (''intents'', encodeArray [Inr u]), (''situation_id'', encode (AnyString ''s1'')),
     (''situation_version'', encode (AnyFloat64 (float_of_int 1))), (''snapshot_digest'', encode (AnyString ''snap'')), (''valid_until'', encode (AnyString ''2030-01-01T00:00:00Z''))])"
  by code_simp

lemma sorted_members: "successively (\<lambda>a b. compareUTF16 a b \<le> 0) (map fst kvs) \<Longrightarrow> sort_func compare_member kvs = kvs"
proof (induction kvs)
  case (Cons x kvs)
  then show ?case by (cases kvs) (simp_all add: compare_member_def)
qed simp

lemma canonical_map:
  "successively (\<lambda>a b. compareUTF16 a b \<le> 0) (map fst kvs) \<Longrightarrow> map (map_prod id canon) kvs = kvs \<Longrightarrow> canon (AnyMap kvs) = AnyMap kvs"
  using sorted_members[of kvs] by simp

lemma demo_keys:
  "successively (\<lambda>a b. compareUTF16 a b \<le> 0) [''decision_id'', ''evidence_ids'', ''expires_at'', ''intent_digest'', ''intent_id'', ''parameters'', ''risk_class'',
     ''situation_id'', ''situation_version'', ''tenant_id'', ''type'']"
  "successively (\<lambda>a b. compareUTF16 a b \<le> 0) [''decision_id'', ''evidence_ids'', ''expires_at'', ''intent_id'', ''parameters'', ''risk_class'',
     ''situation_id'', ''situation_version'', ''tenant_id'', ''type'']"
  "successively (\<lambda>a b. compareUTF16 a b \<le> 0) [''attempt_id'', ''decision_id'', ''episode_id'', ''facts_used'', ''fence'', ''intents'',
     ''situation_id'', ''situation_version'', ''snapshot_digest'', ''valid_until'']"
  "successively (\<lambda>a b. compareUTF16 a b \<le> 0) [''attempt_id'', ''decision_id'', ''decision_type'', ''episode_id'', ''fence'', ''intents'',
     ''situation_id'', ''situation_version'', ''snapshot_digest'']"
  by code_simp+

lemma demo_canonical_proposal: "canon (AnyMap (demo_proposal h)) = AnyMap (demo_proposal h)"
  by (rule canonical_map) (simp only: demo_proposal_def list.map fst_conv demo_keys, simp add: demo_proposal_def)

lemma demo_canonical_unsigned: "canon (AnyMap demo_unsigned) = AnyMap demo_unsigned"
  by (rule canonical_map) (simp only: demo_unsigned_def list.map fst_conv demo_keys, simp add: demo_unsigned_def)

lemma demo_canonical_decision: "canon (AnyMap (demo_proposed h)) = AnyMap (demo_proposed h)"
  using demo_canonical_proposal[of h]
  by (intro canonical_map) (simp only: demo_proposed_def list.map fst_conv demo_keys, simp add: demo_proposed_def)

lemma demo_values:
  "go_value (AnyMap (demo_proposal h))" "safe_numbers (AnyMap (demo_proposal h))" "depth (AnyMap (demo_proposal h)) \<le> max_nesting_depth"
  "go_value (AnyMap demo_unsigned)" "safe_numbers (AnyMap demo_unsigned)" "depth (AnyMap demo_unsigned) \<le> max_nesting_depth"
  "go_value (AnyMap (demo_proposed h))" "safe_numbers (AnyMap (demo_proposed h))" "depth (AnyMap (demo_proposed h)) \<le> max_nesting_depth"
proof -
  have f: "binary64 (float_of_int 1)" "safe_float (float_of_int 1)"
    using binary64_of_int by (auto simp: safe_float_def maxSafeInteger_def intro!: exI[of _ 1])
  show "go_value (AnyMap (demo_proposal h))" "go_value (AnyMap demo_unsigned)" "go_value (AnyMap (demo_proposed h))"
    using f by (simp_all add: demo_proposal_def demo_unsigned_def demo_proposed_def)
  show "safe_numbers (AnyMap (demo_proposal h))" "safe_numbers (AnyMap demo_unsigned)" "safe_numbers (AnyMap (demo_proposed h))"
    using f by (simp_all add: demo_proposal_def demo_unsigned_def demo_proposed_def)
  show "depth (AnyMap (demo_proposal h)) \<le> max_nesting_depth" "depth (AnyMap demo_unsigned) \<le> max_nesting_depth"
    "depth (AnyMap (demo_proposed h)) \<le> max_nesting_depth"
    by (simp_all add: demo_proposal_def demo_unsigned_def demo_proposed_def max_nesting_depth_def)
qed

lemma demo_texts: "\<not> isl (Marshal (AnyMap (demo_proposal demo_h)))" "\<not> isl (Marshal (AnyMap (demo_proposed demo_h)))" "\<not> isl (Marshal (AnyMap demo_unsigned))"
proof -
  obtain q where q: "encodeString demo_h = Inr q" using digest_text_encodes unfolding demo_proposal_sum_def by blast
  show m: "\<not> isl (Marshal (AnyMap (demo_proposal demo_h)))"
    using demo_proposal_members[of q] q by (simp add: Marshal_def demo_proposal_def)
  then obtain u where "encode (AnyMap (demo_proposal demo_h)) = Inr u" by (auto simp: Marshal_def isl_def split: sum.splits) (metis sum.exhaust)
  then show "\<not> isl (Marshal (AnyMap (demo_proposed demo_h)))"
    using demo_decision_members[of u] by (simp add: Marshal_def demo_proposed_def)
  show "\<not> isl (Marshal (AnyMap demo_unsigned))" by code_simp
qed

lemma demo_decision_decodes:
  "DecodeDocumentJSON demo_raw = Inr (demo_proposed demo_h)" "VerifyDocumentDigest DomainDecision (demo_proposed demo_h) (sha256 (DomainDecision @ demo_raw))"
proof -
  note d = sealed_text_decodes[OF demo_values(7-9) demo_texts(2) demo_canonical_decision]
  show "DecodeDocumentJSON demo_raw = Inr (demo_proposed demo_h)" using d(1) by (simp only: demo_raw_def)
  show "VerifyDocumentDigest DomainDecision (demo_proposed demo_h) (sha256 (DomainDecision @ demo_raw))"
    unfolding demo_raw_def by (rule sealed_text_verifies[OF d(2)]) (simp_all add: DomainDecision_def DomainIntent_def)
qed

lemma demo_parsed: "parseDecision demo_schemas demo_raw demo_decision_digest = Inr (demo_proposed demo_h)"
  using demo_decision_decodes by (simp add: parseDecision_Inr DecodeDocument_Inr demo_schemas_def demo_decision_digest_def DecodeDigest_sha256)

lemma demo_unsigned_digest:
  "Digest DomainIntent (AnyMap (withoutIntentDigest (demo_proposal h))) = Inr demo_h" "VerifyIntentDigest (demo_proposal demo_h)"
proof -
  have w: "withoutIntentDigest (demo_proposal h) = demo_unsigned" for h
    by (simp add: withoutIntentDigest_def demo_proposal_def demo_unsigned_def)
  have "Marshal (AnyMap demo_unsigned) = Inr (sealed_text demo_unsigned)"
    using sealed_text_decodes(2)[OF demo_values(4-6) demo_texts(3) demo_canonical_unsigned] .
  then have d: "Digest DomainIntent (AnyMap demo_unsigned) = Inr demo_h"
    by (simp add: Digest_def DigestSum_def Seal_def demo_proposal_sum_def DomainIntent_def)
  then show "Digest DomainIntent (AnyMap (withoutIntentDigest (demo_proposal h))) = Inr demo_h" unfolding w .
  have "map_of (demo_proposal demo_h) ''intent_digest'' = Some (AnyString demo_h)" by (simp add: demo_proposal_def)
  with d show "VerifyIntentDigest (demo_proposal demo_h)" by (simp add: VerifyIntentDigest_def Verify_def w)
qed

lemma demo_one: "float_to_int (float_of_int 1) = 1" "float_eq (float_of_int 1) (float_of_int 1)"
proof -
  show one: "float_to_int (float_of_int 1) = 1" by code_simp
  have "float_to_int x = 1 \<Longrightarrow> float_eq x x" for x by (cases x) (simp_all add: float_to_int_def min_int64_def)
  with one show "float_eq (float_of_int 1) (float_of_int 1)" by blast
qed

lemma demo_fields:
  "integerField (demo_proposal h) ''situation_version'' = Some 1" "integerField (demo_proposed h) ''situation_version'' = Some 1"
  "integerField (demo_proposed h) ''fence'' = Some 1"
  using demo_one by (simp_all add: integerField_def demo_proposal_def demo_proposed_def)

lemma demo_decision_fields:
  "DocumentString (demo_proposed h) ''decision_id'' = ''d1''" "DocumentString (demo_proposed h) ''episode_id'' = ''e1''"
  "DocumentString (demo_proposed h) ''attempt_id'' = ''a1''" "DocumentString (demo_proposed h) ''snapshot_digest'' = ''snap''"
  "DocumentString (demo_proposed h) ''situation_id'' = ''s1''" "map_of (demo_proposed h) ''valid_until'' = Some (AnyString ''2030-01-01T00:00:00Z'')"
  by (simp_all add: demo_proposed_def DocumentString_def)

lemma demo_bound: "checkDecisionBinding (demo_proposed h) demo_input = Inr ''d1''"
proof -
  have "checkDecisionAttempt (demo_proposed h) demo_input = Inr ()"
    using demo_decision_fields[of h] demo_fields[of h] by (simp add: checkDecisionAttempt_def demo_input_def)
  moreover have "checkDecisionSnapshot (demo_proposed h) demo_input = Inr ()"
    using demo_decision_fields[of h] demo_fields[of h] start_of_2030 by (simp add: checkDecisionSnapshot_def isExpired_def demo_input_def)
  ultimately show ?thesis using demo_decision_fields(1)[of h] by (simp add: checkDecisionBinding_def)
qed

lemma demo_intent_checks:
  "checkIntentBinding (demo_proposal h) demo_input ''d1'' [] = Inr [''i1'']" "checkIntentAuthority [(''valve.close'', demo_entry)] (demo_proposal h) demo_input = Inr demo_entry"
  "checkIntentParameters (demo_proposal h) demo_input (demo_proposed h) demo_entry = Inr ()"
proof -
  have m: "\<not> isl (Marshal (AnyString ''pump/1''))" by code_simp
  have r: "AtMost ''R2'' ''R2''" by code_simp
  show "checkIntentBinding (demo_proposal h) demo_input ''d1'' [] = Inr [''i1'']"
    using demo_fields[of h] by (simp add: checkIntentBinding_def checkIntentSituation_def demo_input_def) (simp add: demo_proposal_def DocumentString_def)
  show "checkIntentAuthority [(''valve.close'', demo_entry)] (demo_proposal h) demo_input = Inr demo_entry"
    using r by (simp add: checkIntentAuthority_def checkIntentPermission_def checkIntentRisk_def demo_proposal_def DocumentString_def demo_input_def demo_entry_def)
  show "checkIntentParameters (demo_proposal h) demo_input (demo_proposed h) demo_entry = Inr ()"
    using m by (cases "Marshal (AnyString ''pump/1'')")
      (simp_all add: checkIntentParameters_def checkIdentityParameters_def bindEntityParameter_def bindExpiryParameter_def verifyPresetEquality_def
       verifyEvidenceBinding_def checkEvidenceReference_def comparePresetParameter_def intent_parameters_def factEvidenceRefs_def map_filter_def
       demo_proposal_def demo_proposed_def demo_input_def demo_entry_def)
qed

lemma demo_built: "buildIntent (demo_proposal demo_h) demo_input demo_entry = Inr demo_validated"
proof -
  have "Marshal (AnyMap (demo_proposal demo_h)) = Inr (sealed_text (demo_proposal demo_h))"
    using sealed_text_decodes(2)[OF demo_values(1-3) demo_texts(1) demo_canonical_proposal] .
  moreover have s: "DocumentString (demo_proposal h) ''expires_at'' = ''2030-01-01T00:00:00Z''" "DocumentString (demo_proposal h) ''intent_id'' = ''i1''"
    "DocumentString (demo_proposal h) ''type'' = ''valve.close''" "DocumentString (demo_proposal h) ''risk_class'' = ''R2''" for h
    by (simp_all add: demo_proposal_def DocumentString_def)
  ultimately show ?thesis
    using start_of_2030 demo_unsigned_digest(1)[of demo_h]
    by (simp add: buildIntent_def materializeIntent_def IntentDigest_def validatedIntent_def demo_validated_def demo_entry_def demo_input_def)
qed

lemma demo_accepted:
  "ValidateDecision demo_schemas demo_raw demo_decision_digest demo_input =
     Inr \<lparr>dr_DecisionID = ''d1'', dr_DecisionDigest = demo_decision_digest, dr_Intents = [demo_validated]\<rparr>"
proof -
  have t: "checkTrustedInput demo_input = Inr [(''valve.close'', demo_entry)]" by (simp add: checkTrustedInput_def demo_input_def is_zero_time_def)
  have c: "checkDiagnosisCode (demo_proposed demo_h) demo_input = Inr ()" by (simp add: checkDiagnosisCode_def demo_input_def split: option.splits)
  have "decisionIntents (demo_proposed demo_h) = Inr [AnyMap (demo_proposal demo_h)]"
    by (simp add: decisionIntents_def checkDecisionIntentSet_def demo_proposed_def)
  moreover have "decodeDecisionIntent demo_schemas (AnyMap (demo_proposal demo_h)) 0 = Inr (demo_proposal demo_h)"
    using demo_unsigned_digest(2) by (simp add: decodeDecisionIntent_def demo_schemas_def)
  moreover have "validateIntent [(''valve.close'', demo_entry)] (demo_proposal demo_h) demo_input ''d1'' (demo_proposed demo_h) [] = Inr (demo_validated, [''i1''])"
    by (simp add: validateIntent_def demo_intent_checks demo_built)
  ultimately show ?thesis
    using t demo_parsed demo_bound[of demo_h] c by (simp add: ValidateDecision_def acceptDecision_def validateDecisionIntents_def)
qed

end
