(* ===== verification/Decision_Properties.thy ===== *)
theory Decision_Properties
  imports Decision_Examples
begin

text \<open>
  What validation promises: an accepted decision is bound to the attempt, the fence and the snapshot that
  were dispatched, and each of its intents is declared by the catalog with the risk it claims, permitted for
  the episode, grounded and unexpired. An accepted intent, stored as it is handed over, passes the
  document checks of policy. The shadow score is the strictest route of the intents; for an accepted decision
  without intents it is undefined.
\<close>

section \<open>Granted intents\<close>

definition preset_kept :: "intent_entry \<Rightarrow> document \<Rightarrow> bool" where
  "preset_kept entry parameters \<longleftrightarrow> (\<forall>preset key p v. map_of (ie_Presets entry) ''default'' = Some preset \<longrightarrow> (key, p) \<in> set preset \<longrightarrow>
     key \<notin> set (ie_ModelWritable entry) \<longrightarrow> map_of parameters key = Some v \<longrightarrow> (\<exists>text. Marshal p = Inr text \<and> Marshal v = Inr text))"

definition grounded :: "document \<Rightarrow> document \<Rightarrow> bool" where
  "grounded decision d \<longleftrightarrow> (\<forall>ids ref. map_of d ''evidence_ids'' = Some (AnySlice ids) \<longrightarrow> ref \<in> set ids \<longrightarrow>
     (\<exists>s. ref = AnyString s \<and> s \<in> set (factEvidenceRefs decision)))"

definition permitted :: "decision_input \<Rightarrow> document \<Rightarrow> bool" where
  "permitted inp d \<longleftrightarrow> (if DocumentString d ''compensates'' = '''' then DocumentString d ''type'' \<in> set (di_AllowedIntentTypes inp) else di_Reconsider inp)"

definition bound_intent :: "decision_input \<Rightarrow> string \<Rightarrow> document \<Rightarrow> bool" where
  "bound_intent inp decisionID d \<longleftrightarrow> DocumentString d ''decision_id'' = decisionID \<and> DocumentString d ''tenant_id'' = di_TenantID inp
     \<and> DocumentString d ''situation_id'' = di_SituationID inp \<and> integerField d ''situation_version'' = Some (di_SituationVersion inp)"

definition bound_parameters :: "decision_input \<Rightarrow> document \<Rightarrow> bool" where
  "bound_parameters inp parameters \<longleftrightarrow> map_of parameters ''entity_id'' \<in> {None, Some (AnyString (di_EntityID inp))}
     \<and> map_of parameters ''target'' \<in> {None, Some (AnyString (di_EntityID inp))}"

definition granted_intent :: "decision_schemas \<Rightarrow> intent_catalog \<Rightarrow> decision_input \<Rightarrow> string \<Rightarrow> document \<Rightarrow> document \<Rightarrow> validated_intent \<Rightarrow> bool" where
  "granted_intent sc catalog inp decisionID decision d i \<longleftrightarrow>
     sc_Intent sc d = Inr () \<and> VerifyIntentDigest d \<and> bound_intent inp decisionID d \<and> permitted inp d
     \<and> (\<exists>entry. map_of catalog (vi_Type i) = Some entry \<and> vi_RiskClass i = ie_RiskClass entry \<and> AtMost (vi_RiskClass i) (di_RiskCeiling inp)
          \<and> ie_ParameterSchema entry (intent_parameters d) = Inr () \<and> preset_kept entry (intent_parameters d)
          \<and> vi_RateLimitPerHour i = ie_RateLimitPerHour entry \<and> vi_RequiresApproval i = ie_RequiresApproval entry)
     \<and> bound_parameters inp (intent_parameters d) \<and> grounded decision d
     \<and> vi_ID i = DocumentString d ''intent_id'' \<and> vi_Type i = DocumentString d ''type'' \<and> vi_RiskClass i = DocumentString d ''risk_class''
     \<and> ParseTimeText (DocumentString d ''expires_at'') = Some (vi_ExpiresAt i) \<and> di_Now inp < vi_ExpiresAt i
     \<and> Marshal (AnyMap d) = Inr (vi_CanonicalJSON i) \<and> Digest DomainIntent (AnyMap (withoutIntentDigest d)) = Inr (vi_Digest i)"

lemma verify_preset_Inr:
  "verify_preset parameters entry preset = Inr u \<Longrightarrow> (key, p) \<in> set preset \<Longrightarrow> key \<notin> set (ie_ModelWritable entry)
     \<Longrightarrow> map_of parameters key = Some v \<Longrightarrow> \<exists>text. Marshal p = Inr text \<and> Marshal v = Inr text"
  by (induction preset)
     (auto simp: bind_res_Inr_iff comparePresetParameter_def split: if_splits option.splits sum.splits)

lemma check_references_Inr:
  "check_references ids refs = Inr u \<Longrightarrow> ref \<in> set ids \<Longrightarrow> \<exists>s. ref = AnyString s \<and> s \<in> set refs"
  by (induction ids) (auto simp: bind_res_Inr_iff checkEvidenceReference_def split: any_value.splits if_splits)

lemma checkIntentParameters_Inr:
  assumes "checkIntentParameters d inp decision entry = Inr u"
  shows "ie_ParameterSchema entry (intent_parameters d) = Inr () \<and> preset_kept entry (intent_parameters d)
    \<and> bound_parameters inp (intent_parameters d) \<and> grounded decision d"
proof -
  have c: "ie_ParameterSchema entry (intent_parameters d) = Inr ()" "checkIdentityParameters (intent_parameters d) inp decision = Inr ()"
    "verifyPresetEquality d entry = Inr ()" "verifyEvidenceBinding d decision = Inr ()"
    using assms by (auto simp: checkIntentParameters_def bind_res_Inr_iff split: sum.splits)
  have "bound_parameters inp (intent_parameters d)"
    using c(2) by (auto simp: checkIdentityParameters_def bindEntityParameter_def bound_parameters_def bind_res_Inr_iff split: option.splits if_splits)
  moreover have "preset_kept entry (intent_parameters d)"
    using c(3) verify_preset_Inr by (auto simp: verifyPresetEquality_def preset_kept_def)
  moreover have "grounded decision d"
    using c(4) check_references_Inr by (auto simp: verifyEvidenceBinding_def grounded_def)
  ultimately show ?thesis using c(1) by simp
qed

lemma checkIntentAuthority_Inr:
  assumes "checkIntentAuthority catalog d inp = Inr entry"
  shows "permitted inp d \<and> map_of catalog (DocumentString d ''type'') = Some entry \<and> DocumentString d ''risk_class'' = ie_RiskClass entry
    \<and> AtMost (DocumentString d ''risk_class'') (di_RiskCeiling inp)"
  using assms
  by (auto simp: checkIntentAuthority_def checkIntentPermission_def checkIntentRisk_def permitted_def Let_def bind_res_Inr_iff
      split: if_splits option.splits)

lemma buildIntent_Inr:
  assumes "buildIntent d inp entry = Inr i"
  shows "vi_ID i = DocumentString d ''intent_id'' \<and> vi_Type i = DocumentString d ''type'' \<and> vi_RiskClass i = DocumentString d ''risk_class''
    \<and> ParseTimeText (DocumentString d ''expires_at'') = Some (vi_ExpiresAt i) \<and> di_Now inp < vi_ExpiresAt i
    \<and> Marshal (AnyMap d) = Inr (vi_CanonicalJSON i) \<and> Digest DomainIntent (AnyMap (withoutIntentDigest d)) = Inr (vi_Digest i)
    \<and> vi_RateLimitPerHour i = ie_RateLimitPerHour entry \<and> vi_RequiresApproval i = ie_RequiresApproval entry"
  using assms
  by (auto simp: buildIntent_def materializeIntent_def validatedIntent_def IntentDigest_def wrap_err_def split: option.splits if_splits sum.splits)

lemma validateIntent_Inr:
  assumes "decodeDecisionIntent sc raw n = Inr d" and "validateIntent catalog d inp decisionID decision seen = Inr (i, seen')"
  shows "raw = AnyMap d \<and> granted_intent sc catalog inp decisionID decision d i \<and> vi_ID i \<notin> set seen \<and> seen' = vi_ID i # seen"
proof -
  have raw: "raw = AnyMap d" "sc_Intent sc d = Inr ()" "VerifyIntentDigest d"
    using assms(1) by (auto simp: decodeDecisionIntent_def Let_def split: any_value.splits sum.splits if_splits)
  obtain entry where v: "checkIntentBinding d inp decisionID seen = Inr seen'" "checkIntentAuthority catalog d inp = Inr entry"
    "checkIntentParameters d inp decision entry = Inr ()" "buildIntent d inp entry = Inr i"
    using assms(2) by (auto simp: validateIntent_def bind_res_Inr_iff)
  have "bound_intent inp decisionID d" "DocumentString d ''intent_id'' \<notin> set seen" "seen' = DocumentString d ''intent_id'' # seen"
    using v(1) by (auto simp: checkIntentBinding_def checkIntentSituation_def bound_intent_def Let_def bind_res_Inr_iff split: if_splits)
  with raw checkIntentAuthority_Inr[OF v(2)] checkIntentParameters_Inr[OF v(3)] buildIntent_Inr[OF v(4)] show ?thesis
    unfolding granted_intent_def by metis
qed

lemma validate_intents_Inr:
  "validate_intents sc catalog raws n inp decisionID decision seen = Inr is \<Longrightarrow>
     \<exists>ds. raws = map AnyMap ds \<and> list_all2 (granted_intent sc catalog inp decisionID decision) ds is
       \<and> distinct (map vi_ID is) \<and> set (map vi_ID is) \<inter> set seen = {}"
proof (induction raws arbitrary: n seen "is")
  case (Cons raw raws)
  obtain d i seen' is' where v: "decodeDecisionIntent sc raw n = Inr d" "validateIntent catalog d inp decisionID decision seen = Inr (i, seen')"
    "validate_intents sc catalog raws (Suc n) inp decisionID decision seen' = Inr is'" "is = i # is'"
    using Cons.prems by (auto simp: bind_res_Inr_iff)
  from Cons.IH[OF v(3)] obtain ds where ds: "raws = map AnyMap ds" "list_all2 (granted_intent sc catalog inp decisionID decision) ds is'"
    "distinct (map vi_ID is')" "set (map vi_ID is') \<inter> set seen' = {}" by blast
  with validateIntent_Inr[OF v(1,2)] v(4) show ?case by (intro exI[of _ "d # ds"]) auto
qed simp

lemma countActionable_maps: "countActionableIntents (map AnyMap ds) = Inr (length (filter actionable ds))"
  by (induction ds) simp_all

section \<open>Accepted decisions\<close>

definition bound_decision :: "decision_input \<Rightarrow> document \<Rightarrow> bool" where
  "bound_decision inp d \<longleftrightarrow> DocumentString d ''episode_id'' = di_EpisodeID inp \<and> DocumentString d ''attempt_id'' = di_AttemptID inp
     \<and> integerField d ''fence'' = Some (di_Fence inp) \<and> DocumentString d ''snapshot_digest'' = di_SnapshotDigest inp
     \<and> DocumentString d ''situation_id'' = di_SituationID inp \<and> integerField d ''situation_version'' = Some (di_SituationVersion inp)
     \<and> (\<forall>s. map_of d ''valid_until'' = Some (AnyString s) \<longrightarrow> (\<exists>until. ParseTimeText s = Some until \<and> di_Now inp < until))"

lemma checkDecisionBinding_Inr:
  assumes "checkDecisionBinding d inp = Inr decisionID"
  shows "decisionID = DocumentString d ''decision_id'' \<and> decisionID \<noteq> '''' \<and> bound_decision inp d"
  using assms
  by (auto simp: checkDecisionBinding_def checkDecisionAttempt_def checkDecisionSnapshot_def bound_decision_def isExpired_def Let_def
      bind_res_Inr_iff split: if_splits option.splits)

lemma decisionIntents_Inr:
  assumes "decisionIntents d = Inr raws"
  shows "map_of d ''intents'' = Some (AnySlice raws) \<and> (raws = [] \<longrightarrow> DocumentString d ''decision_type'' = ''need_more_evidence'')
    \<and> (\<exists>n. countActionableIntents raws = Inr n \<and> n \<le> 1)"
  using assms
  by (auto simp: decisionIntents_def checkDecisionIntentSet_def bind_res_Inr_iff split: option.splits any_value.splits if_splits)

lemma ValidateDecision_Inr:
  assumes "ValidateDecision sc raw digest inp = Inr r"
  shows "\<exists>catalog d docs. di_IntentCatalog inp = Some catalog \<and> parseDecision sc raw digest = Inr d \<and> bound_decision inp d
    \<and> map_of d ''intents'' = Some (AnySlice (map AnyMap docs)) \<and> dr_DecisionID r = DocumentString d ''decision_id'' \<and> dr_DecisionID r \<noteq> ''''
    \<and> dr_DecisionDigest r = digest \<and> list_all2 (granted_intent sc catalog inp (dr_DecisionID r) d) docs (dr_Intents r) \<and> distinct (map vi_ID (dr_Intents r))
    \<and> length (filter actionable docs) \<le> 1 \<and> (docs = [] \<longrightarrow> DocumentString d ''decision_type'' = ''need_more_evidence'')"
proof -
  obtain catalog d decisionID raws intents where v: "checkTrustedInput inp = Inr catalog" "parseDecision sc raw digest = Inr d"
    "checkDecisionBinding d inp = Inr decisionID" "decisionIntents d = Inr raws"
    "validateDecisionIntents sc catalog raws inp decisionID d = Inr intents"
    "r = \<lparr>dr_DecisionID = decisionID, dr_DecisionDigest = digest, dr_Intents = intents\<rparr>"
    using assms by (auto simp: ValidateDecision_def acceptDecision_def bind_res_Inr_iff)
  have "di_IntentCatalog inp = Some catalog" using v(1) by (auto simp: checkTrustedInput_def split: if_splits option.splits)
  moreover from v(5) obtain docs where docs: "raws = map AnyMap docs" "list_all2 (granted_intent sc catalog inp decisionID d) docs intents" "distinct (map vi_ID intents)"
    using validate_intents_Inr unfolding validateDecisionIntents_def by blast
  ultimately show ?thesis
    using v(2,6) checkDecisionBinding_Inr[OF v(3)] decisionIntents_Inr[OF v(4)] countActionable_maps[of docs]
    by (intro exI[of _ catalog] exI[of _ d] exI[of _ docs]) auto
qed

text \<open>
  Claim C7. Only authorized proposals leave validation. When a decision is accepted, its bytes decode and have the digest that
  was transmitted; it names the episode, the attempt, the fence, the snapshot and the situation version that
  were dispatched, and has not expired. Each returned intent comes from one object of the decision's intents, in
  order: that object satisfies the intent schema and its own digest, is bound to the decision, the tenant and the
  situation, is permitted for the episode, is declared in the catalog with exactly the risk it claims and
  below the ceiling, has parameters that satisfy the declared schema, keep the preset and name only the
  episode's entity, cites only evidence that the decision lists as a fact, and has not expired; the limits
  handed to policy are those of the catalog. Identifiers are distinct, at most one intent is actionable, and
  a decision without intents asks for more evidence.
\<close>

theorem accepted_decision_is_authorized:
  assumes "ValidateDecision sc raw digest inp = Inr r"
  shows "\<exists>catalog d docs sum. di_IntentCatalog inp = Some catalog \<and> DecodeDocument (sc_Decision sc) raw = Inr d
    \<and> DecodeDigest digest = Inr sum \<and> VerifyDocumentDigest DomainDecision d sum \<and> bound_decision inp d
    \<and> map_of d ''intents'' = Some (AnySlice (map AnyMap docs)) \<and> dr_DecisionID r = DocumentString d ''decision_id'' \<and> dr_DecisionID r \<noteq> ''''
    \<and> list_all2 (granted_intent sc catalog inp (dr_DecisionID r) d) docs (dr_Intents r) \<and> distinct (map vi_ID (dr_Intents r))
    \<and> length (filter actionable docs) \<le> 1 \<and> (docs = [] \<longrightarrow> DocumentString d ''decision_type'' = ''need_more_evidence'')"
  using ValidateDecision_Inr[OF assms] unfolding parseDecision_Inr by blast

theorem accepted_decision_is_authorized_witness:
  "(\<exists>catalog d docs stored. di_IntentCatalog demo_input = Some catalog \<and> DecodeDocument (sc_Decision demo_schemas) demo_raw = Inr d
    \<and> DecodeDigest demo_decision_digest = Inr stored \<and> VerifyDocumentDigest DomainDecision d stored \<and> bound_decision demo_input d
    \<and> map_of d ''intents'' = Some (AnySlice (map AnyMap docs)) \<and> DocumentString d ''decision_id'' = ''d1''
    \<and> list_all2 (granted_intent demo_schemas catalog demo_input ''d1'' d) docs [demo_validated])
   \<and> ve_Reason (case ValidateDecision demo_schemas demo_raw demo_decision_digest (demo_input\<lparr>di_Fence := 2\<rparr>) of Inl e \<Rightarrow> e) = ''stale_attempt''"
proof
  show "\<exists>catalog d docs stored. di_IntentCatalog demo_input = Some catalog \<and> DecodeDocument (sc_Decision demo_schemas) demo_raw = Inr d
    \<and> DecodeDigest demo_decision_digest = Inr stored \<and> VerifyDocumentDigest DomainDecision d stored \<and> bound_decision demo_input d
    \<and> map_of d ''intents'' = Some (AnySlice (map AnyMap docs)) \<and> DocumentString d ''decision_id'' = ''d1''
    \<and> list_all2 (granted_intent demo_schemas catalog demo_input ''d1'' d) docs [demo_validated]"
    using accepted_decision_is_authorized[OF demo_accepted] unfolding decision_result.simps by (elim exE conjE) (intro exI conjI; (assumption | simp))
  have "checkTrustedInput (demo_input\<lparr>di_Fence := 2\<rparr>) = Inr [(''valve.close'', demo_entry)]"
    by (simp add: checkTrustedInput_def demo_input_def is_zero_time_def)
  moreover have "checkDecisionBinding (demo_proposed demo_h) (demo_input\<lparr>di_Fence := 2\<rparr>) = reject ''stale_attempt'' ''fence''"
    using demo_decision_fields[of demo_h] demo_fields[of demo_h] by (simp add: checkDecisionBinding_def checkDecisionAttempt_def demo_input_def)
  ultimately show "ve_Reason (case ValidateDecision demo_schemas demo_raw demo_decision_digest (demo_input\<lparr>di_Fence := 2\<rparr>) of Inl e \<Rightarrow> e) = ''stale_attempt''"
    using demo_parsed by (simp add: ValidateDecision_def)
qed

section \<open>The handover to policy\<close>

lemma slice_member:
  assumes "canonical_value (AnyMap doc)" "safe_numbers (AnyMap doc)" "depth (AnyMap doc) \<le> n" "map_of doc k = Some (AnySlice vs)" "v \<in> set vs"
  shows "canonical_value v" "safe_numbers v" "depth v \<le> n"
proof -
  have m: "(k, AnySlice vs) \<in> set doc" using map_of_SomeD[OF assms(4)] .
  obtain n' where n': "n = Suc n'" using assms(3) by (cases n) auto
  show "canonical_value v" using canonical_members[OF assms(1) m] canonical_slice assms(5) by blast
  have "safe_numbers (AnySlice vs)" using assms(2) m by (force simp: list_all_iff)
  then show "safe_numbers v" using assms(5) by (auto simp: list_all_iff)
  have "depth (AnySlice vs) \<le> Suc n'" using assms(3) m depth_map_le[of doc n'] n' by fastforce
  then show "depth v \<le> n" using assms(5) depth_slice_le[of vs n'] n' by auto
qed

lemma canonical_decodes:
  assumes "canonical_value (AnyMap d)" "safe_numbers (AnyMap d)" "depth (AnyMap d) \<le> max_nesting_depth" "Marshal (AnyMap d) = Inr t"
  shows "DecodeDocumentJSON t = Inr d"
  using assms encodeRaw_canonical[of "AnyMap d" t] Marshal_reads(1)[of "AnyMap d" t]
  by (simp add: canonical_value_def DecodeDocumentJSON_def)

lemma digest_verifies:
  assumes "VerifyIntentDigest d" "Digest DomainIntent (AnyMap (withoutIntentDigest d)) = Inr digest" "DecodeDigest digest = Inr stored"
  shows "VerifyDocumentDigest DomainIntent d stored"
proof -
  obtain t where "Seal DomainIntent (AnyMap (withoutIntentDigest d)) = Inr (t, sha256 (DomainIntent @ t))" "digest = EncodeDigest (sha256 (DomainIntent @ t))"
    using assms(2) by (auto simp: Digest_def DigestSum_def Seal_def bind_res_Inr_iff split: if_splits sum.splits)
  moreover from this assms(3) have "stored = sha256 (DomainIntent @ t)" by (simp add: DecodeDigest_sha256)
  ultimately show ?thesis using assms(1) by (simp add: VerifyDocumentDigest_def HasSumLength_def VerifySum_def DigestSum_def)
qed

lemma granted_intent_parses:
  assumes "granted_intent sc catalog inp decisionID decision d i" "canonical_value (AnyMap d)" "safe_numbers (AnyMap d)"
    "depth (AnyMap d) \<le> max_nesting_depth" "ir_IntentJSON row = vi_CanonicalJSON i" "DecodeDigest (vi_Digest i) = Inr (ir_IntentSHA row)"
    "ps_intentSchema s = sc_Intent sc"
  shows "ParseIntent s row = Inr (ProjectIntent d)"
  using assms canonical_decodes[of d "vi_CanonicalJSON i"] digest_verifies[of d "vi_Digest i" "ir_IntentSHA row"]
  by (simp add: granted_intent_def ParseIntent_def governance_DecodeDocument_def DecodeDocument_def)

lemma integerField_DocumentInt: "integerField d k = Some n \<Longrightarrow> DocumentInt d k = n"
  by (auto simp: integerField_def DocumentInt_def split: option.splits any_value.splits if_splits)

text \<open>
  Claim C8. What validation hands over, policy accepts as it is. When the numbers of an accepted decision are integers
  that a double holds exactly, a row that stores the canonical bytes and the digest of one of its intents
  passes the decoding, the schema and the digest check of policy, and the document that policy reads there is the
  one that validation checked: it has the identifier, the type and the risk of the validated intent and names
  the decision, the tenant, the situation and the version of the episode. So
  it matches every row that carries these identities.
\<close>

theorem accepted_intent_passes_policy:
  assumes "ValidateDecision sc raw digest inp = Inr r" and "i \<in> set (dr_Intents r)"
    and "DecodeDocumentJSON raw = Inr doc" and "safe_numbers (AnyMap doc)"
    and "ir_IntentJSON row = vi_CanonicalJSON i" and "DecodeDigest (vi_Digest i) = Inr (ir_IntentSHA row)" and "ps_intentSchema s = sc_Intent sc"
  shows "\<exists>n. ParseIntent s row = Inr n \<and> ni_ID n = vi_ID i \<and> ni_Type n = vi_Type i \<and> ni_RiskClass n = vi_RiskClass i
    \<and> ni_DecisionID n = dr_DecisionID r \<and> ni_TenantID n = di_TenantID inp \<and> ni_SituationID n = di_SituationID inp
    \<and> ni_SituationVersion n = di_SituationVersion inp"
proof -
  obtain catalog d docs where v: "parseDecision sc raw digest = Inr d" "map_of d ''intents'' = Some (AnySlice (map AnyMap docs))"
    "list_all2 (granted_intent sc catalog inp (dr_DecisionID r) d) docs (dr_Intents r)"
    using ValidateDecision_Inr[OF assms(1)] by blast
  have "d = doc" using v(1) assms(3) by (simp add: parseDecision_Inr DecodeDocument_Inr)
  note c = DecodeDocumentJSON_canonical[OF assms(3)]
  obtain k where k: "k < length docs" "dr_Intents r ! k = i"
    using assms(2) list_all2_lengthD[OF v(3)] by (auto simp: in_set_conv_nth)
  let ?d = "docs ! k"
  have g: "granted_intent sc catalog inp (dr_DecisionID r) d ?d i" using list_all2_nthD[OF v(3) k(1)] k(2) by simp
  have "AnyMap ?d \<in> set (map AnyMap docs)" using k(1) by simp
  note m = slice_member[OF c(1) assms(4) c(2) v(2)[unfolded \<open>d = doc\<close>] this]
  have "ParseIntent s row = Inr (ProjectIntent ?d)" using granted_intent_parses[OF g m assms(5-7)] .
  then show ?thesis
    using g integerField_DocumentInt[of ?d "''situation_version''"] by (auto simp: granted_intent_def bound_intent_def ProjectIntent_def)
qed

theorem accepted_intent_passes_policy_witness:
  "\<exists>row n. ir_IntentSHA row = demo_proposal_sum \<and> ParseIntent demo_policy row = Inr n \<and> ni_ID n = ''i1'' \<and> ni_Type n = ''valve.close'' \<and> ni_RiskClass n = ''R2''
    \<and> ni_DecisionID n = ''d1'' \<and> ni_TenantID n = ''acme'' \<and> ni_SituationID n = ''s1'' \<and> ni_SituationVersion n = 1"
proof -
  let ?row = "(demo_record ''pending'')\<lparr>ir_IntentJSON := vi_CanonicalJSON demo_validated, ir_IntentSHA := demo_proposal_sum\<rparr>"
  have "DecodeDigest (vi_Digest demo_validated) = Inr (ir_IntentSHA ?row)"
    by (simp add: demo_validated_def demo_proposal_sum_def DecodeDigest_sha256)
  moreover have "ps_intentSchema demo_policy = sc_Intent demo_schemas" by (simp add: demo_policy_def demo_schemas_def)
  ultimately have "\<exists>n. ParseIntent demo_policy ?row = Inr n \<and> ni_ID n = vi_ID demo_validated \<and> ni_Type n = vi_Type demo_validated \<and> ni_RiskClass n = vi_RiskClass demo_validated
    \<and> ni_DecisionID n = ''d1'' \<and> ni_TenantID n = di_TenantID demo_input \<and> ni_SituationID n = di_SituationID demo_input
    \<and> ni_SituationVersion n = di_SituationVersion demo_input"
    using accepted_intent_passes_policy[OF demo_accepted, of demo_validated _ ?row demo_policy] demo_decision_decodes(1) demo_values(8)[of demo_h]
    by simp
  then obtain n where "ParseIntent demo_policy ?row = Inr n" "ni_ID n = ''i1''" "ni_Type n = ''valve.close''" "ni_RiskClass n = ''R2''"
    "ni_DecisionID n = ''d1''" "ni_TenantID n = ''acme''" "ni_SituationID n = ''s1''" "ni_SituationVersion n = 1"
    by (auto simp: demo_validated_def demo_input_def)
  then show ?thesis by (intro exI[of _ ?row] exI[of _ n]) simp
qed

section \<open>Shadow scores\<close>

lemma strictest_kept:
  assumes "foldl (\<lambda>strictest c. if stricterThan c strictest then c else strictest) i rest = m"
  shows "m \<in> set (i # rest) \<and> (\<forall>c \<in> set (i # rest). routeStrictness (intentRoute c) \<le> routeStrictness (intentRoute m))"
  using assms
proof (induction rest arbitrary: i)
  case (Cons c rest)
  from Cons.IH[of "if stricterThan c i then c else i"] Cons.prems show ?case
    by (auto simp: stricterThan_def split: if_splits)
qed simp

lemma score_of_empty: "ScoreShadowDecision r = None \<longleftrightarrow> dr_Intents r = []"
  by (simp add: ScoreShadowDecision_def strictestIntent_def split: list.splits)

lemma shadow_score_is_strictest:
  assumes "ScoreShadowDecision r = Some (score, reason)"
  shows "score = (if RouteDenied \<in> intentRoute ` set (dr_Intents r) then ShadowWouldDeny
    else if RouteApproval \<in> intentRoute ` set (dr_Intents r) then ShadowWouldRequireApproval else ShadowWouldApprove)"
proof -
  have "dr_Intents r \<noteq> []" using assms score_of_empty[of r] by simp
  then obtain i rest where r: "dr_Intents r = i # rest" by (meson neq_Nil_conv)
  define m where "m = foldl (\<lambda>strictest c. if stricterThan c strictest then c else strictest) i rest"
  note k = strictest_kept[OF m_def[symmetric]]
  have "score = (case intentRoute m of RouteAutomatic \<Rightarrow> ShadowWouldApprove | RouteApproval \<Rightarrow> ShadowWouldRequireApproval | RouteDenied \<Rightarrow> ShadowWouldDeny)"
    using assms r by (auto simp: ScoreShadowDecision_def strictestIntent_def m_def split: route.splits)
  moreover have "RouteDenied \<in> intentRoute ` set (dr_Intents r) \<longleftrightarrow> intentRoute m = RouteDenied"
    using k unfolding r by (cases "intentRoute m") (force simp: routeStrictness_def)+
  moreover have "intentRoute m = RouteAutomatic \<Longrightarrow> RouteApproval \<notin> intentRoute ` set (dr_Intents r)"
    using k unfolding r by (force simp: routeStrictness_def)
  moreover have "intentRoute m \<in> intentRoute ` set (dr_Intents r)" using k unfolding r by blast
  ultimately show ?thesis by (cases "intentRoute m") auto
qed

text \<open>An accepted decision that asks for more evidence has no score: reading the first intent is an index out of range.\<close>

definition demo_question :: document where
  "demo_question = [(''attempt_id'', AnyString ''a1''), (''decision_id'', AnyString ''d1''), (''decision_type'', AnyString ''need_more_evidence''),
     (''episode_id'', AnyString ''e1''), (''fence'', AnyFloat64 (float_of_int 1)), (''intents'', AnySlice []), (''situation_id'', AnyString ''s1''),
     (''situation_version'', AnyFloat64 (float_of_int 1)), (''snapshot_digest'', AnyString ''snap'')]"

lemma accepted_question_has_no_score:
  "\<exists>raw digest r. ValidateDecision demo_schemas raw digest demo_input = Inr r \<and> ScoreShadowDecision r = None"
proof -
  let ?sum = "sha256 (DomainDecision @ sealed_text demo_question)"
  have v: "go_value (AnyMap demo_question)" "safe_numbers (AnyMap demo_question)" "depth (AnyMap demo_question) \<le> max_nesting_depth"
    using demo_values(7,8)[of demo_h] by (simp_all add: demo_question_def demo_proposed_def max_nesting_depth_def)
  have m: "\<not> isl (Marshal (AnyMap demo_question))" by code_simp
  have c: "canon (AnyMap demo_question) = AnyMap demo_question"
    by (rule canonical_map) (simp only: demo_question_def list.map fst_conv demo_keys, simp add: demo_question_def)
  note d = sealed_text_decodes[OF v m c]
  have "VerifyDocumentDigest DomainDecision demo_question ?sum"
    by (rule sealed_text_verifies[OF d(2)]) (simp_all add: DomainDecision_def DomainIntent_def)
  then have p: "parseDecision demo_schemas (sealed_text demo_question) (EncodeDigest ?sum) = Inr demo_question"
    using d(1) by (simp add: parseDecision_Inr DecodeDocument_Inr demo_schemas_def DecodeDigest_sha256)
  have "checkTrustedInput demo_input = Inr [(''valve.close'', demo_entry)]" by (simp add: checkTrustedInput_def demo_input_def is_zero_time_def)
  moreover have "checkDecisionBinding demo_question demo_input = Inr ''d1''"
    using demo_one by (simp add: checkDecisionBinding_def checkDecisionAttempt_def checkDecisionSnapshot_def integerField_def DocumentString_def Let_def)
       (simp add: demo_question_def demo_input_def)
  moreover have "checkDiagnosisCode demo_question demo_input = Inr ()" by (simp add: checkDiagnosisCode_def demo_input_def split: option.splits)
  moreover have "decisionIntents demo_question = Inr []"
    by (simp add: decisionIntents_def checkDecisionIntentSet_def demo_question_def DocumentString_def)
  ultimately have "ValidateDecision demo_schemas (sealed_text demo_question) (EncodeDigest ?sum) demo_input =
      Inr \<lparr>dr_DecisionID = ''d1'', dr_DecisionDigest = EncodeDigest ?sum, dr_Intents = []\<rparr>"
    using p by (simp add: ValidateDecision_def acceptDecision_def validateDecisionIntents_def)
  then show ?thesis using score_of_empty by fastforce
qed

text \<open>
  Claim C9. The score of a shadow dispatch. An accepted decision is scored by its strictest intent: it would be denied
  when policy denies the risk of one of its intents, it needs approval when none is denied and one needs
  approval, and it would be approved when all are automatic. The score is undefined (the code reads the
  first of no intents) exactly when the decision has no intents, and such a decision is one that was accepted
  because it asks for more evidence.
\<close>

theorem shadow_score_of_accepted:
  assumes "ValidateDecision sc raw digest inp = Inr r"
  shows "(case ScoreShadowDecision r of
     None \<Rightarrow> dr_Intents r = [] \<and> (\<exists>d. parseDecision sc raw digest = Inr d \<and> DocumentString d ''decision_type'' = ''need_more_evidence'')
   | Some (score, reason) \<Rightarrow> dr_Intents r \<noteq> [] \<and> score = (if RouteDenied \<in> intentRoute ` set (dr_Intents r) then ShadowWouldDeny
       else if RouteApproval \<in> intentRoute ` set (dr_Intents r) then ShadowWouldRequireApproval else ShadowWouldApprove))"
proof (cases "ScoreShadowDecision r")
  case None
  then show ?thesis using ValidateDecision_Inr[OF assms] score_of_empty[of r] by auto
next
  case (Some p)
  then show ?thesis using shadow_score_is_strictest[of r "fst p" "snd p"] score_of_empty[of r] by (cases p) simp
qed

theorem shadow_score_of_accepted_witness:
  "(\<exists>reason. ScoreShadowDecision \<lparr>dr_DecisionID = ''d1'', dr_DecisionDigest = demo_decision_digest, dr_Intents = [demo_validated]\<rparr>
      = Some (ShadowWouldRequireApproval, reason))
   \<and> (\<exists>raw digest r. ValidateDecision demo_schemas raw digest demo_input = Inr r \<and> ScoreShadowDecision r = None)"
proof
  have "intentRoute demo_validated = RouteApproval" by (simp add: intentRoute_def demo_validated_def) code_simp
  then show "\<exists>reason. ScoreShadowDecision \<lparr>dr_DecisionID = ''d1'', dr_DecisionDigest = demo_decision_digest, dr_Intents = [demo_validated]\<rparr>
      = Some (ShadowWouldRequireApproval, reason)"
    using shadow_score_of_accepted[OF demo_accepted] score_of_empty by (auto split: option.splits)
qed (rule accepted_question_has_no_score)

end
