(* ===== verification/Spec2Isabelle.thy ===== *)
theory Spec2Isabelle
  imports Engine_Time Episode_Properties Control_Recovery Operator_Properties Situation_Properties
    Policy_Runtime Policy_Approvals Policy_Governance Decision_Properties
begin

text \<open>
  A verification development for agentic-stream, a runtime (in Go, under \<^verbatim>\<open>src/\<close>) that turns streams of
  events into \<^emph>\<open>situations\<close>, lets executors investigate a situation in an \<^emph>\<open>episode\<close>, and carries out the
  action a decision proposes only when policy, a human approval and a set of fences allow it.

  \<^bold>\<open>The parts and how they meet.\<close> An event is validated (\<^verbatim>\<open>contractsv1\<close>) and placed in event time (\<^verbatim>\<open>engine\<close>);
  operators keep windows and heartbeats over it (\<^verbatim>\<open>operators\<close>); situation specs turn operator features
  into situations with a lifecycle and numbered, sealed versions (\<^verbatim>\<open>situations\<close>). A due scheduler item is
  admitted as an episode whose attempts are fenced (\<^verbatim>\<open>episodeledger\<close>), under a runtime owner lease, a
  policy epoch and a cost budget (\<^verbatim>\<open>control\<close>). The decision of an episode carries action intents,
  which are validated against the dispatched attempt and the intent catalog (\<^verbatim>\<open>decisions\<close>). Policy
  (\<^verbatim>\<open>policy\<close>) evaluates an intent, asks for an approval (\<^verbatim>\<open>approvalledger\<close>) or queues a command; the
  dispatcher (\<^verbatim>\<open>actions\<close>) leases a command, authorizes it again, calls the effector (\<^verbatim>\<open>actionport\<close>) and records
  the outcome, all behind the interlock (\<^verbatim>\<open>interlock\<close>). Everything that is stored and compared by digest is
  canonical JSON (\<^verbatim>\<open>canonicaljson\<close>) with a SHA-256 sum (\<^verbatim>\<open>kernel\<close>). The components share one SQLite database,
  and every operation is one transaction on it: an operation is a function from the tables to an error
  (rolled back) or a result with the tables after it, and the order of transactions is a sequence of steps.

  \<^bold>\<open>Theories and sources.\<close>
  \<^item> \<open>Go_Prelude\<close>, \<open>Go_Effect\<close>: errors as values of a sum (\<open>result\<close>), times and durations with saturation,
    \<^verbatim>\<open>slices.SortFunc\<close>, SQL updates and unique indexes, operations that keep their effect on an error.
    \<open>Go_Float\<close>, \<open>Go_Decimal\<close>: binary64 with correct rounding, \<^verbatim>\<open>strconv.ParseFloat\<close> and the shortest
    \<^verbatim>\<open>strconv.FormatFloat\<close>.
  \<^item> \<open>Kernel\<close> (\<^verbatim>\<open>kernel/digest.go\<close>, \<^verbatim>\<open>time.go\<close>): SHA-256 on 32-bit words, digest texts, the texts of times;
    \<open>Kernel_Time\<close> reads them back, with the part of \<^verbatim>\<open>time.Parse\<close> that they use.
    \<open>Spec_Duration\<close> (\<^verbatim>\<open>spec/internal/domain/duration.go\<close>): duration texts.
  \<^item> \<open>Contracts\<close>, \<open>Contract_Documents\<close> (\<^verbatim>\<open>contractsv1\<close>): envelopes, trace contexts, risk classes and routes;
    stored documents with their schema and digest checks.
  \<^item> \<open>Canonical_Number\<close>, \<open>Canonical_Text\<close>, \<open>Canonical_JSON\<close> (\<^verbatim>\<open>canonicaljson/internal/domain\<close>): the canonical
    encoder, the strict decoder, seals and verification, with the JSON reader of the Go library;
    \<open>Canonical_Reading\<close>, \<open>Canonical_Properties\<close>, \<open>Canonical_Strict\<close> prove what they promise, \<open>Canonical_Decoding\<close> that a
    decoded document is its own canonical form.
  \<^item> \<open>Engine_Time\<close> (\<^verbatim>\<open>engine/internal/domain\<close>): watermarks, source clocks, lateness.
    \<open>Operators\<close>, \<open>Operator_Samples\<close>, \<open>Operator_Properties\<close> (\<^verbatim>\<open>operators\<close>, \<^verbatim>\<open>engine/internal/store/window_samples.go\<close>):
    windows, aggregates, heartbeats, boot fencing, stored samples.
    \<open>Situations\<close>, \<open>Situation_Properties\<close> (\<^verbatim>\<open>situations\<close>): reducers, lifecycle, publication, persisted state.
  \<^item> \<open>Episode_Queue\<close>, \<open>Episode_Ledger\<close>, \<open>Episode_Fencing\<close>, \<open>Episode_Properties\<close> (\<^verbatim>\<open>episodeledger\<close>): the queue and the
    ledger of episodes and attempts, as records of table rows; the step relation \<open>ledger_step\<close>.
  \<^item> \<open>Control_Cost\<close>, \<open>Control_Runtime\<close>, \<open>Control_Fencing\<close> (\<^verbatim>\<open>control\<close>): cost reservations, owner leases, epochs,
    and the composition with the ledger; \<open>Control_Recovery\<close>: recovery of the ledger with the cost ledger as
    the settler it is given (\<^verbatim>\<open>episodeledger/internal/store/recovery.go\<close>).
  \<^item> \<open>Decisions\<close> (\<^verbatim>\<open>decisions/internal/domain\<close>, \<^verbatim>\<open>episodes/internal/domain/shadow.go\<close>): the intent catalog, the
    validation of a decision and its intents, shadow scores; \<open>Decision_Examples\<close> holds a decision that is
    accepted, \<open>Decision_Properties\<close> proves what acceptance means.
  \<^item> \<open>Interlock\<close> (\<^verbatim>\<open>interlock\<close>), \<open>Approval_Ledger\<close> (\<^verbatim>\<open>approvalledger\<close>), \<open>Actions\<close> (\<^verbatim>\<open>actions\<close>, \<^verbatim>\<open>actionport\<close>),
    \<open>Policy\<close>, \<open>Policy_Principals\<close> (\<^verbatim>\<open>policy\<close>): the command path on one record of tables, \<open>actions_db\<close>.
    \<open>Action_Properties\<close>, \<open>Policy_Properties\<close>, \<open>Policy_Runtime\<close>, \<open>Policy_Approvals\<close>, \<open>Policy_Governance\<close> prove it correct;
    \<open>Action_Examples\<close> and \<open>Policy_Examples\<close> hold one complete run, from a pending approval to the call of the
    effector, that the witnesses use.

  A definition has the name of the Go function where the name is free; a struct is a record, an enum a
  datatype or its text, a SQL statement a function on the rows of its table with the constraints of the
  schema written out as errors.

  \<^bold>\<open>What is shown.\<close>
  \<^item> \<^emph>\<open>Effects\<close>: however policy evaluations, approvals, changes of governance, dispatchers, crashes and
    reconciliations interleave, an effector is called at most once per command and per intent, only for
    an intent that policy evaluated as approved under that very command; each call was authorized on
    current rows; outcomes form a ledger with consecutive ordinals. The system refines the dispatcher
    alone (\<open>system_step_refines\<close>).
  \<^item> \<^emph>\<open>Decisions\<close>: an accepted decision is bound to the dispatched attempt and snapshot, and each of its
    intents is declared, permitted, grounded and unexpired; the stored intent passes the checks of policy; a
    shadow score is that of the strictest intent, and undefined for an accepted decision without intents.
  \<^item> \<^emph>\<open>Policy\<close>: a command exists only for an intent that passed every gate; an approval needs an authorized
    signature over bytes that determine every field of the assertion; the hourly limit holds over any run;
    a decided approval never changes; replacing the principals of a tenant gives exactly the declared grants.
  \<^item> \<^emph>\<open>Fencing\<close>: an older attempt is refused for ever, one live episode per situation, one unfinished attempt
    per episode, a lost owner cannot write, an owner changes only after its lease expired, a killed
    epoch stays killed, recovery closes every unfinished attempt and succeeds exactly when the
    reservations it has to release can be settled at zero; admission succeeds exactly when the request is
    admissible and its situation quiet.
  \<^item> \<^emph>\<open>Money and order\<close>: reservations stay within the global ceiling, and within the ceiling of a tenant that was
    set before the tenant's first reservation; the books balance; a settlement is final, and one that
    exhausts the budget stops every reservation until an operator resets the switch; the queue is polled in
    an order that does not depend on the order of rows.
  \<^item> \<^emph>\<open>Streams\<close>: watermarks never regress and are bounded by ingestion; the samples of a
    window with distinct keys survive a restart, and a repeated key is refused; a window closes once per
    interval; a boot that another boot replaced never returns; the situation engine refines an abstract
    lifecycle, keeps its invariant, and publishes exactly its current state.
  \<^item> \<^emph>\<open>Texts\<close>: canonical JSON ignores member order, a stored document decodes to what was sealed (an
    intent with the digest of its other fields), a digest
    preimage identifies domain and value, scanning terminates, times are ordered as their texts and
    read back from them.

  The interfaces are locales, interpreted on the model: \<open>comparison\<close> (a comparison function sorts as a key
  does, for every order the code sorts by), \<open>effects\<close> (a property kept by operations in sequence, for the
  situation engine), \<open>single_owner\<close> (a holder that changes only when its claim has lapsed, for the runtime
  lease), \<open>cost_settler\<close> (what recovery relies on when it releases a reservation, for the cost ledger),
  \<open>boot_property\<close> (what every event keeps of the boots of a partition, for the recorded, remembered and
  fenced boots) and \<open>evaluation_frame\<close> (what every branch of a policy evaluation keeps, for approvals and
  for the tables of other components).

  \<^bold>\<open>Bounds.\<close> The JSON reader is given the length of the text plus one as fuel, which is enough because every
  call consumes a byte, and stops at 10000 levels as the Go library does; the string scanner has the length
  of the text. Loops over rows are structural recursion. Integers are unbounded in the model where the
  column is a 64-bit integer that only ever grows by one; the interlock version wraps as written; hashing
  is on words. In the examples a digest stays symbolic, so no witness evaluates the hash function.

  \<^bold>\<open>Parameters.\<close> What is not in the repository is an argument: compiled JSON schemas, the CEL programs,
  Ed25519 verification, the effector and the gateway, clocks and identifier generators. The ownership and
  epoch checks of policy and dispatch are fields of the service record; \<open>Control_Fencing\<close> gives the check
  its meaning for the ledger.

  \<^bold>\<open>Not modelled.\<close> The YAML and CEL front end of the spec compiler and the JSON schema compiler are calls of
  libraries. Network and process input and output (\<^verbatim>\<open>ingress\<close>, \<^verbatim>\<open>api\<close>, \<^verbatim>\<open>worker\<close>, \<^verbatim>\<open>executor\<close>, \<^verbatim>\<open>device\<close>,
  \<^verbatim>\<open>plantwire\<close>), the wiring of goroutines (\<^verbatim>\<open>runtime\<close>), the command line, telemetry, replay and test support
  have no state of their own that the ledgers do not guard. The partition loop of the engine, trigger
  evaluation (\<^verbatim>\<open>cognition\<close>), the rest of episode assembly (\<^verbatim>\<open>episodes\<close>), evidence tools, device authority, playbooks,
  watches, the event log and the notification outbox are components of their own that the development
  does not cover; where a modelled component writes to one of them (a notification, an event) the write is
  a row of the model and its acceptance a parameter. Reads that only serve the API are left out.
\<close>

end
